(* ===== verification/Prelude.thy ===== *)
theory Prelude
  imports Main "HOL-Library.Word" "HOL-Library.Char_ord" "HOL-Library.List_Lexorder"
begin

text \<open>
  Shared vocabulary of the development: the error values that stand for the exceptions and the
  assertions of the code, the sequencing operator on fallible results, ordered maps and sets
  (the \<^verbatim>\<open>std::map\<close> and \<^verbatim>\<open>std::set\<close> of the code, iterated in key order), the interface
  \<open>std_map\<close> they promise, the computations that write on the standard output, and the generic lemmas on lists and strings that the components share.

  Strings are byte strings (\<open>char list\<close>), as \<^verbatim>\<open>std::string\<close> is; \<open>Char_ord\<close> and
  \<open>List_Lexorder\<close> give them the order of \<^verbatim>\<open>std::string::operator<\<close> (bytes compared as unsigned
  characters, lexicographically), which is the iteration order of the maps and sets keyed by
  strings.
\<close>

section \<open>Lemma collections\<close>

named_theorems outcome_simps "evaluation of fallible computations"
named_theorems word_list_simps "word lists, phrases and their joins"
named_theorems score_simps "score boards and weights"

section \<open>Errors and fallible results\<close>

text \<open>
  One constructor per way an operation of the modelled code can fail to return normally:
  a failed \<^verbatim>\<open>assert\<close> (the build does not define \<^verbatim>\<open>NDEBUG\<close>), one of the exceptions of
  \<^verbatim>\<open>OPENTREP_exceptions.hpp\<close> (all those below its root, some of which nothing throws) with its message, a Boost or a Xapian
  exception that the code lets through (\<open>StdException\<close>: another exception of the standard library or of Boost),
  undefined behaviour, and the recursion that does not return.
\<close>

datatype trep_error =
    AssertionFailure
  | UndefinedBehaviour
  | NonTermination
  | BadDayOfMonth
  | NonInitialisedServiceException string
  | UnicodeException string
  | UnicodeTransliteratorCreationException string
  | MultipleRowsForASingleDocIDException string
  | LanguageCodeNotDefinedInNameTableException string
  | MemoryAllocationException string
  | ObjectNotFoundException string
  | FileException string
  | FileNotFoundException string
  | FileExtensionUnknownException string
  | FileUncompressingErrorException string
  | ParserException
  | PorFileParsingException string
  | PRFileParsingException string
  | CodeConversionException string
  | CodeDuplicationException string
  | XapianException string
  | DocumentNotFoundException string
  | XapianDatabaseFailureException string
  | XapianTravelDatabaseEmptyException string
  | XapianTravelDatabaseWrongPathnameException string
  | NoBestMatchingResultHolderException string
  | SQLDatabaseException string
  | SQLDatabaseImpossibleConnectionException string
  | SQLDatabaseFileCannotBeCreatedException string
  | SQLDatabaseElementNotFoundException string
  | SQLDatabaseUserCreationException string
  | SQLDatabaseTableCreationException string
  | SQLDatabaseIndexCreationException string
  | BuildIndexException string
  | InterpreterUseCaseException string
  | InterpreteTravelRequestException string
  | TravelRequestEmptyException string
  | XapianError string
  | StdException string

type_synonym 'a outcome = "trep_error + 'a"

definition bindE :: "'a outcome \<Rightarrow> ('a \<Rightarrow> 'b outcome) \<Rightarrow> 'b outcome" where
  "bindE m f = (case m of Inl e \<Rightarrow> Inl e | Inr x \<Rightarrow> f x)"

definition assertE :: "bool \<Rightarrow> unit outcome" where
  "assertE b = (if b then Inr () else Inl AssertionFailure)"

text \<open>A loop over a list whose body may throw: the first error ends the loop.\<close>

fun foldE :: "('a \<Rightarrow> 's \<Rightarrow> 's outcome) \<Rightarrow> 'a list \<Rightarrow> 's \<Rightarrow> 's outcome" where
  "foldE f [] s = Inr s"
| "foldE f (x # xs) s = bindE (f x s) (foldE f xs)"

fun mapE :: "('a \<Rightarrow> 'b outcome) \<Rightarrow> 'a list \<Rightarrow> 'b list outcome" where
  "mapE f [] = Inr []"
| "mapE f (x # xs) = bindE (f x) (\<lambda>y. bindE (mapE f xs) (\<lambda>ys. Inr (y # ys)))"

lemma bindE_simps [simp, outcome_simps]:
  "bindE (Inr x) f = f x" "bindE (Inl e) f = Inl e"
  by (simp_all add: bindE_def)

lemma bindE_Inr_iff: "bindE m f = Inr y \<longleftrightarrow> (\<exists>x. m = Inr x \<and> f x = Inr y)"
  by (cases m) auto

lemma bindE_Inl_iff: "bindE m f = Inl e \<longleftrightarrow> m = Inl e \<or> (\<exists>x. m = Inr x \<and> f x = Inl e)"
  by (cases m) auto

lemma bindE_assoc: "bindE (bindE m f) g = bindE m (\<lambda>x. bindE (f x) g)"
  by (cases m) auto

lemma assertE_simps [simp, outcome_simps]:
  "assertE True = Inr ()" "assertE False = Inl AssertionFailure"
  by (simp_all add: assertE_def)

lemma assertE_Inr_iff: "assertE b = Inr u \<longleftrightarrow> b"
  by (simp add: assertE_def)

lemmas outcome_iffs = bindE_Inr_iff bindE_Inl_iff assertE_Inr_iff

lemma foldE_append: "foldE f (xs @ ys) s = bindE (foldE f xs s) (foldE f ys)"
proof (induction xs arbitrary: s)
  case Nil
  show ?case by simp
next
  case (Cons x xs)
  then show ?case by (cases "f x s") simp_all
qed

text \<open>An invariant of the loop body holds after the loop.\<close>

lemma foldE_invariant:
  assumes "foldE f xs s = Inr t" and "P s"
    and "\<And>x s s'. x \<in> set xs \<Longrightarrow> P s \<Longrightarrow> f x s = Inr s' \<Longrightarrow> P s'"
  shows "P t"
  using assms
proof (induction xs arbitrary: s)
  case Nil
  then show ?case by simp
next
  case (Cons x xs)
  from Cons.prems(1) obtain s' where s': "f x s = Inr s'" and t: "foldE f xs s' = Inr t"
    by (auto simp: bindE_Inr_iff)
  have "P s'" by (rule Cons.prems(3) [OF _ Cons.prems(2) s']) simp
  show ?case by (rule Cons.IH [OF t \<open>P s'\<close>]) (rule Cons.prems(3), simp_all)
qed

lemma foldE_total:
  assumes "\<And>x s. x \<in> set xs \<Longrightarrow> f x s = Inr (g x s)"
  shows "foldE f xs s = Inr (fold g xs s)"
  using assms
proof (induction xs arbitrary: s)
  case Nil
  then show ?case by simp
next
  case (Cons x xs)
  have "f x s = Inr (g x s)" by (rule Cons.prems) simp
  moreover have "foldE f xs (g x s) = Inr (fold g xs (g x s))"
    by (rule Cons.IH) (rule Cons.prems, simp)
  ultimately show ?case by simp
qed

lemma fold_upt_invariant:
  assumes "P a s" and "a \<le> n" and "\<And>k s. a \<le> k \<Longrightarrow> k < n \<Longrightarrow> P k s \<Longrightarrow> P (Suc k) (f k s)"
  shows "P n (fold f [a..<n] s)"
  using assms(2,3)
proof (induction n rule: dec_induct)
  case base
  show ?case using assms(1) by simp
next
  case (step n)
  then have "P n (fold f [a..<n] s)" by simp
  then show ?case using step by simp
qed

lemma foldE_map: "foldE f (map g xs) s = foldE (\<lambda>x. f (g x)) xs s"
  by (induction xs arbitrary: s) (simp_all add: bindE_def split: sum.split)

lemma foldE_cong:
  assumes "\<And>x s. x \<in> set xs \<Longrightarrow> f x s = g x s"
  shows "foldE f xs s = foldE g xs s"
  using assms
proof (induction xs arbitrary: s)
  case Nil
  then show ?case by simp
next
  case (Cons x xs)
  then have "f x s = g x s" and "\<And>t. foldE f xs t = foldE g xs t"
    by simp_all
  then show ?case by (simp add: bindE_def split: sum.split)
qed

lemma mapE_Inr_iff:
  "mapE f xs = Inr ys \<longleftrightarrow> list_all2 (\<lambda>x y. f x = Inr y) xs ys"
proof (induction xs arbitrary: ys)
  case Nil
  then show ?case by auto
next
  case (Cons x xs)
  then show ?case by (cases ys) (auto simp: bindE_Inr_iff)
qed

lemma mapE_total:
  assumes "\<And>x. x \<in> set xs \<Longrightarrow> f x = Inr (g x)"
  shows "mapE f xs = Inr (map g xs)"
  using assms by (induction xs) (simp_all add: bindE_def)

lemma mapE_cong [fundef_cong]:
  "xs = ys \<Longrightarrow> (\<And>x. x \<in> set ys \<Longrightarrow> f x = g x) \<Longrightarrow> mapE f xs = mapE g ys"
  by (induction ys arbitrary: xs) simp_all

section \<open>Ordered maps\<close>

text \<open>
  A \<^verbatim>\<open>std::map\<close> is the list of its entries in increasing order of the keys, which is the order
  its iterators deliver. \<open>om_put\<close> stores a value, replacing the one of an existing key
  (\<^verbatim>\<open>itScore->second = \<dots>\<close>, or \<^verbatim>\<open>insert\<close> after a failed \<^verbatim>\<open>find\<close>).
\<close>

type_synonym ('k, 'v) omap = "('k \<times> 'v) list"

definition om_empty :: "('k, 'v) omap" where
  "om_empty = []"

definition om_find :: "('k, 'v) omap \<Rightarrow> 'k \<Rightarrow> 'v option" where
  "om_find m k = map_of m k"

fun om_put :: "'k::linorder \<Rightarrow> 'v \<Rightarrow> ('k, 'v) omap \<Rightarrow> ('k, 'v) omap" where
  "om_put k v [] = [(k, v)]"
| "om_put k v ((a, b) # m) =
     (if k < a then (k, v) # (a, b) # m
      else if k = a then (k, v) # m
      else (a, b) # om_put k v m)"

definition om_entries :: "('k, 'v) omap \<Rightarrow> ('k \<times> 'v) list" where
  "om_entries m = m"

definition om_wf :: "('k::linorder, 'v) omap \<Rightarrow> bool" where
  "om_wf m \<longleftrightarrow> sorted_wrt (<) (map fst m)"

text \<open>\<^verbatim>\<open>std::map::lower_bound\<close>: the first entry whose key is not less than the argument.\<close>

fun om_lower_bound :: "('k::linorder, 'v) omap \<Rightarrow> 'k \<Rightarrow> ('k \<times> 'v) option" where
  "om_lower_bound [] k = None"
| "om_lower_bound ((a, b) # m) k = (if a < k then om_lower_bound m k else Some (a, b))"

text \<open>
  The interface the clients of a \<^verbatim>\<open>std::map\<close> rely on, and what follows from it: a map is
  determined by its lookups, so two sequences of stores that agree on every lookup are equal.
\<close>

locale std_map =
  fixes empty :: "'m"
    and find :: "'m \<Rightarrow> 'k::linorder \<Rightarrow> 'v option"
    and put :: "'k \<Rightarrow> 'v \<Rightarrow> 'm \<Rightarrow> 'm"
    and entries :: "'m \<Rightarrow> ('k \<times> 'v) list"
    and wf :: "'m \<Rightarrow> bool"
  assumes wf_empty: "wf empty"
    and wf_put: "wf m \<Longrightarrow> wf (put k v m)"
    and entries_sorted: "wf m \<Longrightarrow> sorted_wrt (<) (map fst (entries m))"
    and find_entries: "wf m \<Longrightarrow> find m k = map_of (entries m) k"
    and entries_empty: "entries empty = []"
    and find_put: "wf m \<Longrightarrow> find (put k v m) x = (if x = k then Some v else find m x)"
    and entries_inject: "entries m = entries m' \<Longrightarrow> m = m'"
begin

lemma find_empty: "find empty k = None"
  using find_entries [OF wf_empty] entries_empty by simp

lemma distinct_keys: "wf m \<Longrightarrow> distinct (map fst (entries m))"
  using entries_sorted strict_sorted_iff by blast

lemma entries_iff: "wf m \<Longrightarrow> (k, v) \<in> set (entries m) \<longleftrightarrow> find m k = Some v"
  by (metis distinct_keys find_entries map_of_eq_Some_iff)

lemma entries_eqI:
  assumes "wf m" and "wf m'" and "\<And>k. find m k = find m' k"
  shows "m = m'"
proof -
  have *: "sorted (map fst (entries n)) \<and> distinct (map fst (entries n))" if "wf n" for n
    using entries_sorted [OF that] by (simp add: strict_sorted_iff)
  have "set (entries m) = set (entries m')"
    using assms by (auto simp: entries_iff)
  moreover have "inj_on fst (set (entries m) \<union> set (entries m'))"
    using calculation * [OF assms(1)] by (simp add: distinct_map)
  ultimately have "entries m = entries m'"
    using * [OF assms(1)] * [OF assms(2)] map_sorted_distinct_set_unique by blast
  then show ?thesis by (rule entries_inject)
qed

lemma put_put: "wf m \<Longrightarrow> put k v (put k w m) = put k v m"
  by (rule entries_eqI) (simp_all add: wf_put find_put)

lemma put_commute: "wf m \<Longrightarrow> k \<noteq> l \<Longrightarrow> put k v (put l w m) = put l w (put k v m)"
  by (rule entries_eqI) (auto simp: wf_put find_put)

lemma put_same: "wf m \<Longrightarrow> find m k = Some v \<Longrightarrow> put k v m = m"
  by (rule entries_eqI) (auto simp: wf_put find_put)

end

text \<open>The sorted association list keeps the promises of \<open>std_map\<close>.\<close>

lemma keys_om_put: "set (map fst (om_put k v m)) = insert k (set (map fst m))"
  by (induction k v m rule: om_put.induct) auto

lemma om_wf_put: "om_wf m \<Longrightarrow> om_wf (om_put k v m)"
proof (induction k v m rule: om_put.induct)
  case (1 k v)
  show ?case by (simp add: om_wf_def)
next
  case (2 k v a b m)
  then show ?case using keys_om_put [of k v m]
    by (auto simp: om_wf_def)
qed

lemma om_find_put:
  "om_find (om_put k v m) x = (if x = k then Some v else om_find m x)"
  by (induction k v m rule: om_put.induct) (auto simp: om_find_def)

interpretation om: std_map om_empty om_find om_put om_entries om_wf
  by unfold_locales
    (simp_all add: om_wf_put om_find_put, simp_all add: om_empty_def om_find_def om_entries_def om_wf_def)

lemmas om_simps [simp] = om.wf_empty om.wf_put om.find_empty om_find_put

lemma om_lower_bound_Some:
  assumes "om_wf m" and "om_lower_bound m k = Some (a, b)"
  shows "om_find m a = Some b \<and> k \<le> a \<and> (\<forall>x. om_find m x \<noteq> None \<and> k \<le> x \<longrightarrow> a \<le> x)"
  using assms
proof (induction m k rule: om_lower_bound.induct)
  case (1 k)
  then show ?case by simp
next
  case (2 c d m k)
  then show ?case
    by (auto simp: om_wf_def om_find_def split: if_splits dest!: map_of_SomeD)
qed

lemma om_lower_bound_None:
  "om_lower_bound m k = None \<longleftrightarrow> (\<forall>x \<in> set (map fst m). x < k)"
  by (induction m k rule: om_lower_bound.induct) auto

section \<open>Ordered sets\<close>

text \<open>
  A \<^verbatim>\<open>std::set\<close> is the sorted list of its elements without repetition; \<open>insort_insert\<close> of the
  library is its \<^verbatim>\<open>insert\<close>.
\<close>

type_synonym 'a oset = "'a list"

abbreviation os_insert :: "'a::linorder \<Rightarrow> 'a oset \<Rightarrow> 'a oset" where
  "os_insert \<equiv> insort_insert"

definition os_wf :: "'a::linorder oset \<Rightarrow> bool" where
  "os_wf s \<longleftrightarrow> sorted s \<and> distinct s"

definition os_insert_all :: "'a::linorder list \<Rightarrow> 'a oset \<Rightarrow> 'a oset" where
  "os_insert_all xs s = fold os_insert xs s"

lemma os_wf_Nil [simp]: "os_wf []"
  by (simp add: os_wf_def)

lemma os_wf_insert [simp]: "os_wf s \<Longrightarrow> os_wf (os_insert x s)"
  by (simp add: os_wf_def sorted_insort_insert distinct_insort_insert)

lemma os_wf_insert_all [simp]: "os_wf s \<Longrightarrow> os_wf (os_insert_all xs s)"
  by (induction xs arbitrary: s) (simp_all add: os_insert_all_def)

lemma set_os_insert_all [simp]: "set (os_insert_all xs s) = set xs \<union> set s"
  by (induction xs arbitrary: s) (auto simp: os_insert_all_def set_insort_insert)

lemma os_eqI: "os_wf s \<Longrightarrow> os_wf t \<Longrightarrow> set s = set t \<Longrightarrow> s = t"
  by (simp add: os_wf_def sorted_distinct_set_unique)

lemma os_insert_all_eq: "os_insert_all xs [] = sorted_list_of_set (set xs)"
  by (rule os_eqI) (simp_all add: os_wf_def [of "sorted_list_of_set _"])

section \<open>Sub-phrases\<close>

text \<open>Putting single spaces between the words of a phrase, and its contiguous parts.\<close>

fun join_with :: "string \<Rightarrow> string list \<Rightarrow> string" where
  "join_with sep [] = []"
| "join_with sep [w] = w"
| "join_with sep (w # v # ws) = w @ sep @ join_with sep (v # ws)"

abbreviation join_words :: "string list \<Rightarrow> string" where
  "join_words \<equiv> join_with '' ''"

lemma join_with_Cons:
  "join_with sep (w # ws) = w @ (if ws = [] then [] else sep @ join_with sep ws)"
  by (cases ws) simp_all

lemma join_with_append:
  "join_with sep (us @ ws) =
     join_with sep us @ (if us = [] \<or> ws = [] then [] else sep) @ join_with sep ws"
  by (induction us) (auto simp: join_with_Cons)

lemma length_join_with:
  "length (join_with sep ws) = sum_list (map length ws) + length sep * (length ws - 1)"
  by (induction ws rule: induct_list012) (auto simp: algebra_simps)

section \<open>Decimal output\<close>

text \<open>The output of integers on a stream.\<close>

definition digit :: "nat \<Rightarrow> char" where
  "digit d = char_of (48 + d)"

fun show_nat :: "nat \<Rightarrow> string" where
  "show_nat n = (if n < 10 then [digit n] else show_nat (n div 10) @ [digit (n mod 10)])"

declare show_nat.simps [simp del]

definition show_int :: "int \<Rightarrow> string" where
  "show_int i = (if i < 0 then ''-'' @ show_nat (nat (- i)) else show_nat (nat i))"

text \<open>Reading the digits back, which shows that the output determines the number.\<close>

definition read_nat :: "string \<Rightarrow> nat" where
  "read_nat = foldl (\<lambda>n c. n * 10 + (of_char c - 48)) 0"

lemma read_show_nat [simp]: "read_nat (show_nat n) = n"
proof (induction n rule: show_nat.induct)
  case (1 n)
  have d: "of_char (digit k) - 48 = k" if "k < 10" for k
    using that by (simp add: digit_def of_char_of)
  show ?case
  proof (cases "n < 10")
    case True
    then show ?thesis by (simp add: show_nat.simps [of n] read_nat_def d)
  next
    case False
    then show ?thesis using 1 by (simp add: show_nat.simps [of n] read_nat_def d)
  qed
qed

lemma show_nat_inject: "show_nat m = show_nat n \<longleftrightarrow> m = n"
  by (metis read_show_nat)

section \<open>Texts that C functions read\<close>

text \<open>What is read through \<^verbatim>\<open>c_str()\<close>: the bytes before the first null byte.\<close>

definition c_str :: "string \<Rightarrow> string" where
  "c_str s = takeWhile (\<lambda>c. c \<noteq> CHR 0x00) s"

lemma c_str_id: "CHR 0x00 \<notin> set s \<Longrightarrow> c_str s = s"
  by (induction s) (auto simp: c_str_def)

section \<open>Output\<close>

text \<open>A computation that writes on the screen and may throw.\<close>

type_synonym 'a io = "string \<times> 'a outcome"

definition bind_io :: "'a io \<Rightarrow> ('a \<Rightarrow> 'b io) \<Rightarrow> 'b io" where
  "bind_io m k =
     (case m of
        (out, Inl e) \<Rightarrow> (out, Inl e)
      | (out, Inr x) \<Rightarrow> (out @ fst (k x), snd (k x)))"

definition say :: "string \<Rightarrow> unit io" where
  "say s = (s, Inr ())"

definition call :: "'a outcome \<Rightarrow> 'a io" where
  "call m = ([], m)"

lemma io_simps [simp]:
  "bind_io (say s) k = (s @ fst (k ()), snd (k ()))"
  "bind_io (call (Inr x)) k1 = k1 x"
  "bind_io (call (Inl e)) k2 = ([], Inl e)"
  "bind_io (out, Inr y) k3 = (out @ fst (k3 y), snd (k3 y))"
  "bind_io (out, Inl e) k4 = (out, Inl e)"
  by (simp_all add: bind_io_def say_def call_def)

text \<open>The output goes to the standard output; a loop whose body may write and throw, the first error ending it.\<close>

fun fold_io :: "('a \<Rightarrow> 's \<Rightarrow> 's io) \<Rightarrow> 'a list \<Rightarrow> 's \<Rightarrow> 's io" where
  "fold_io f [] s = ([], Inr s)"
| "fold_io f (x # xs) s = bind_io (f x s) (fold_io f xs)"

definition endl :: string where
  "endl = [CHR 0x0A]"

lemma bind_io_Inr:
  "bind_io m k = (out, Inr y) \<longleftrightarrow> (\<exists>o1 x o2. m = (o1, Inr x) \<and> k x = (o2, Inr y) \<and> out = o1 @ o2)"
  by (auto simp: bind_io_def split: prod.splits sum.splits) (metis prod.collapse)

end
