(* ===== verification/Words.thy ===== *)
theory Words
  imports Prelude
begin

text \<open>
  Tokenising a phrase into words and putting words back together:
  \<^verbatim>\<open>basic/Utilities.cpp\<close> and \<^verbatim>\<open>bom/WordHolder.cpp\<close>.

  The splitting itself is Boost's \<^verbatim>\<open>char_separator\<close> tokeniser, a library: it is the parameter
  \<open>tkz\<close> of every definition here, a function of the dropped separators and the phrase. The locale
  \<open>char_separator\<close> states what Boost documents of it (empty tokens are not kept, separators are
  dropped); \<open>split_tokens\<close> is the executable function these laws determine, on which the locale is
  interpreted and the examples run.
\<close>

type_synonym tokeniser = "string \<Rightarrow> string \<Rightarrow> string list"

section \<open>The tokeniser the code relies on\<close>

definition clean_word :: "string \<Rightarrow> string \<Rightarrow> bool" where
  "clean_word seps w \<longleftrightarrow> w \<noteq> [] \<and> (\<forall>c \<in> set w. c \<notin> set seps)"

function split_tokens :: tokeniser where
  "split_tokens seps [] = []"
| "split_tokens seps (c # s) =
     (if c \<in> set seps then split_tokens seps s
      else (c # takeWhile (\<lambda>d. d \<notin> set seps) s) #
             split_tokens seps (dropWhile (\<lambda>d. d \<notin> set seps) s))"
  by pat_completeness auto
termination
  by (relation "measure (\<lambda>(seps, s). length s)") (auto simp: le_imp_less_Suc length_dropWhile_le)

lemma takeWhile_stop: "\<not> P c \<Longrightarrow> takeWhile P (s @ c # b) = takeWhile P s"
  by (induction s) simp_all

lemma dropWhile_stop: "\<not> P c \<Longrightarrow> dropWhile P (s @ c # b) = dropWhile P s @ c # b"
  by (induction s) simp_all

lemma split_tokens_separator:
  assumes c: "c \<in> set seps"
  shows "split_tokens seps (a @ c # b) = split_tokens seps a @ split_tokens seps b"
  using c by (induction seps a rule: split_tokens.induct)
    (simp_all add: takeWhile_stop dropWhile_stop)

lemma split_tokens_word:
  assumes "clean_word seps w"
  shows "split_tokens seps w = [w]"
proof (cases w)
  case Nil
  with assms show ?thesis by (simp add: clean_word_def)
next
  case (Cons c s)
  with assms have "c \<notin> set seps" and all: "\<forall>d \<in> set s. d \<notin> set seps"
    by (simp_all add: clean_word_def)
  moreover have "takeWhile (\<lambda>d. d \<notin> set seps) s = s"
    using all by (simp add: takeWhile_eq_all_conv)
  moreover have "dropWhile (\<lambda>d. d \<notin> set seps) s = []"
    using all by (simp add: dropWhile_eq_Nil_conv)
  ultimately show ?thesis by (simp add: Cons del: dropWhile_eq_Nil_conv)
qed

lemma split_tokens_clean: "w \<in> set (split_tokens seps s) \<Longrightarrow> clean_word seps w"
proof (induction seps s rule: split_tokens.induct)
  case (1 seps)
  then show ?case by simp
next
  case (2 seps c s)
  show ?case
  proof (cases "c \<in> set seps")
    case True
    with 2 show ?thesis by simp
  next
    case False
    then have "clean_word seps (c # takeWhile (\<lambda>d. d \<notin> set seps) s)"
      by (auto simp: clean_word_def dest: set_takeWhileD)
    with 2 False show ?thesis by auto
  qed
qed

locale char_separator =
  fixes tkz :: tokeniser
  assumes tkz_empty: "tkz seps [] = []"
    and tkz_word: "clean_word seps w \<Longrightarrow> tkz seps w = [w]"
    and tkz_separator: "c \<in> set seps \<Longrightarrow> tkz seps (a @ c # b) = tkz seps a @ tkz seps b"
begin

text \<open>The documented laws leave no freedom.\<close>

lemma tkz_eq: "tkz seps s = split_tokens seps s"
proof (induction "length s" arbitrary: s rule: less_induct)
  case less
  show ?case
  proof (cases "\<exists>c \<in> set s. c \<in> set seps")
    case True
    then obtain a c b where s: "s = a @ c # b" and c: "c \<in> set seps"
      by (meson split_list)
    then have "tkz seps a = split_tokens seps a" "tkz seps b = split_tokens seps b"
      using less by simp_all
    then show ?thesis by (simp add: s c tkz_separator split_tokens_separator)
  next
    case False
    then show ?thesis
      by (cases "s = []") (simp_all add: tkz_empty tkz_word split_tokens_word clean_word_def)
  qed
qed

lemma tkz_clean: "w \<in> set (tkz seps s) \<Longrightarrow> clean_word seps w"
  by (simp add: tkz_eq split_tokens_clean)

lemma tkz_join:
  assumes "CHR '' '' \<in> set seps" and "\<forall>w \<in> set ws. clean_word seps w"
  shows "tkz seps (join_words ws) = ws"
  using assms(2)
proof (induction ws rule: induct_list012)
  case 1
  show ?case by (simp add: tkz_empty)
next
  case (2 w)
  then show ?case by (simp add: tkz_word)
next
  case (3 w v ws)
  with assms(1) show ?case by (simp add: tkz_separator tkz_word)
qed

lemma tkz_join_tkz: "CHR '' '' \<in> set seps \<Longrightarrow> tkz seps (join_words (tkz seps s)) = tkz seps s"
  by (rule tkz_join) (simp_all add: tkz_clean)

lemma tkz_tail: "CHR '' '' \<in> set seps \<Longrightarrow> tkz seps (join_words (drop i (tkz seps s))) = drop i (tkz seps s)"
  by (rule tkz_join) (auto dest: in_set_dropD tkz_clean)

lemma tkz_single: "tkz seps s = [w] \<Longrightarrow> clean_word seps w"
  using tkz_clean [of w seps s] by simp

lemma length_tkz_le: "length (tkz seps s) \<le> length s"
proof -
  have "length (split_tokens seps s) \<le> length s"
  proof (induction seps s rule: split_tokens.induct)
    case (2 seps c s)
    then show ?case
      using length_dropWhile_le [of "\<lambda>d. d \<notin> set seps" s] by auto
  qed simp
  then show ?thesis by (simp add: tkz_eq)
qed

end

interpretation boost: char_separator split_tokens
  by unfold_locales (simp_all add: split_tokens_word split_tokens_separator)

section \<open>The separators of the code\<close>

definition AllSepatorList :: string where
  "AllSepatorList = '' .,;:|+-*/_=!@#$%`~^&(){}[]?'' @ [CHR 0x27] @ ''<>'' @ [CHR 0x22]"

definition DocSepatorList :: string where
  "DocSepatorList = '' ,-%''"

lemma space_in_AllSepatorList [simp, word_list_simps]: "CHR '' '' \<in> set AllSepatorList"
  by (simp add: AllSepatorList_def)

lemma space_in_DocSepatorList [simp, word_list_simps]: "CHR '' '' \<in> set DocSepatorList"
  by (simp add: DocSepatorList_def)

section \<open>Tokenising\<close>

text \<open>
  The list given to the code is cleared, then filled with the tokens in order: the new list does
  not depend on the old one.
\<close>

definition baseTokeniseStringIntoWordList ::
    "tokeniser \<Rightarrow> string \<Rightarrow> string list \<Rightarrow> string \<Rightarrow> string list" where
  "baseTokeniseStringIntoWordList tkz iPhrase ioWordList iSepatorList =
     fold (\<lambda>lTerm words. words @ [lTerm]) (tkz iSepatorList iPhrase) []"

definition WordHolder_tokeniseStringIntoWordList ::
    "tokeniser \<Rightarrow> string \<Rightarrow> string list \<Rightarrow> string list" where
  "WordHolder_tokeniseStringIntoWordList tkz iPhrase ioWordList =
     baseTokeniseStringIntoWordList tkz iPhrase ioWordList AllSepatorList"

definition WordHolder_tokeniseDocIntoWordList ::
    "tokeniser \<Rightarrow> string \<Rightarrow> string list \<Rightarrow> string list" where
  "WordHolder_tokeniseDocIntoWordList tkz iPhrase ioWordList =
     baseTokeniseStringIntoWordList tkz iPhrase ioWordList DocSepatorList"

text \<open>\<^verbatim>\<open>OPENTREP::tokeniseStringIntoWordList\<close> of \<^verbatim>\<open>basic/Utilities.cpp\<close>.\<close>

definition tokeniseStringIntoWordList ::
    "tokeniser \<Rightarrow> string \<Rightarrow> string list \<Rightarrow> string list" where
  "tokeniseStringIntoWordList tkz iPhrase ioWordList =
     fold (\<lambda>lTerm words. words @ [lTerm]) (tkz AllSepatorList iPhrase) []"

lemma fold_snoc: "fold (\<lambda>x ys. ys @ [x]) xs zs = zs @ xs"
  by (induction xs arbitrary: zs) simp_all

lemma tokenise_eq [simp, word_list_simps]:
  "tokeniseStringIntoWordList tkz s ws = tkz AllSepatorList s"
  "WordHolder_tokeniseStringIntoWordList tkz s ws = tkz AllSepatorList s"
  "WordHolder_tokeniseDocIntoWordList tkz s ws = tkz DocSepatorList s"
  by (simp_all add: tokeniseStringIntoWordList_def WordHolder_tokeniseStringIntoWordList_def
    WordHolder_tokeniseDocIntoWordList_def baseTokeniseStringIntoWordList_def fold_snoc)

section \<open>Serialising word lists\<close>

text \<open>
  \<^verbatim>\<open>createStringFromWordList\<close> of \<^verbatim>\<open>basic/Utilities.cpp\<close>: its index is an \<^verbatim>\<open>unsigned short\<close>, so
  it wraps at 65536 words. With the flag set, the loop writes the words until the split index
  (none when that index is 0). With the flag unset, a first loop skips words until the split
  index and a second one writes the others.
\<close>

fun csl_left :: "string list \<Rightarrow> 16 word \<Rightarrow> 16 word \<Rightarrow> string \<Rightarrow> string" where
  "csl_left [] iSplitIdx idx oStr = oStr"
| "csl_left (lWord # rest) iSplitIdx idx oStr =
     (if iSplitIdx \<noteq> 0 \<and> idx \<ge> iSplitIdx then oStr
      else csl_left rest iSplitIdx (idx + 1) ((if idx > 0 then oStr @ '' '' else oStr) @ lWord))"

fun csl_skip :: "string list \<Rightarrow> 16 word \<Rightarrow> 16 word \<Rightarrow> string list \<times> 16 word" where
  "csl_skip [] iSplitIdx idx = ([], idx)"
| "csl_skip (lWord # rest) iSplitIdx idx =
     (if iSplitIdx = 0 \<or> idx \<ge> iSplitIdx then (lWord # rest, idx)
      else csl_skip rest iSplitIdx (idx + 1))"

fun csl_right :: "string list \<Rightarrow> 16 word \<Rightarrow> 16 word \<Rightarrow> string \<Rightarrow> string" where
  "csl_right [] iSplitIdx idx oStr = oStr"
| "csl_right (lWord # rest) iSplitIdx idx oStr =
     csl_right rest iSplitIdx (idx + 1) ((if idx > iSplitIdx then oStr @ '' '' else oStr) @ lWord)"

definition createStringFromWordList :: "string list \<Rightarrow> 16 word \<Rightarrow> bool \<Rightarrow> string" where
  "createStringFromWordList iWordList iSplitIdx iFromBeginningFlag =
     (if iFromBeginningFlag then csl_left iWordList iSplitIdx 0 []
      else (case csl_skip iWordList iSplitIdx 0 of
              (rest, idx) \<Rightarrow> csl_right rest iSplitIdx idx []))"

text \<open>The default arguments of \<^verbatim>\<open>basic/Utilities.hpp\<close>: the whole list.\<close>

abbreviation createString :: "string list \<Rightarrow> string" where
  "createString ws \<equiv> createStringFromWordList ws 0 True"

text \<open>\<^verbatim>\<open>WordHolder::createStringFromWordList\<close>: the index counts down from the size.\<close>

fun wh_loop :: "string list \<Rightarrow> 16 word \<Rightarrow> string \<Rightarrow> string" where
  "wh_loop [] idx oStr = oStr"
| "wh_loop (lWord # rest) idx oStr =
     wh_loop rest (idx - 1) (if idx > 1 then oStr @ lWord @ '' '' else oStr @ lWord)"

definition WordHolder_createStringFromWordList :: "string list \<Rightarrow> string" where
  "WordHolder_createStringFromWordList iWordList =
     wh_loop iWordList (word_of_nat (length iWordList)) []"

text \<open>
  Below 65536 words the counters do not wrap, and the three functions are the plain joins.
\<close>

lemma uint16_less: "(a::16 word) < b \<longleftrightarrow> unat a < unat b"
  by (rule word_less_nat_alt)

lemma uint16_le_neq: "(i::16 word) \<le> s \<Longrightarrow> i \<noteq> s \<Longrightarrow> unat i < unat s"
  by (metis order_less_le word_less_nat_alt)

lemma uint16_succ: "unat (i::16 word) + 1 < 65536 \<Longrightarrow> unat (i + 1) = unat i + 1"
  by (simp add: unat_word_ariths)

lemma csl_left_0:
  assumes "unat i + length ws \<le> 65536"
  shows "csl_left ws 0 i acc =
    acc @ (if i > 0 \<and> ws \<noteq> [] then '' '' else []) @ join_words ws"
  using assms
proof (induction ws arbitrary: i acc)
  case Nil
  then show ?case by simp
next
  case (Cons w ws)
  show ?case
  proof (cases "ws = []")
    case True
    then show ?thesis by simp
  next
    case False
    then have "unat i + 1 < 65536" using Cons.prems by (cases ws) simp_all
    then have "unat (i + 1) = unat i + 1" by (rule uint16_succ)
    then have "i + 1 > 0" and "unat (i + 1) + length ws \<le> 65536"
      using Cons.prems by (simp_all add: word_less_nat_alt)
    with False show ?thesis by (simp add: Cons.IH join_with_Cons)
  qed
qed

lemma csl_left_split:
  assumes "iSplitIdx \<noteq> 0" and "i \<le> iSplitIdx"
  shows "csl_left ws iSplitIdx i acc =
    csl_left (take (unat iSplitIdx - unat i) ws) 0 i acc"
  using assms(2)
proof (induction ws arbitrary: i acc)
  case Nil
  then show ?case by simp
next
  case (Cons w ws)
  show ?case
  proof (cases "i = iSplitIdx")
    case True
    with assms(1) show ?thesis by simp
  next
    case False
    with Cons.prems have less: "unat i < unat iSplitIdx"
      by (simp add: uint16_le_neq)
    moreover have "unat iSplitIdx < 2 ^ LENGTH(16)" by (rule unsigned_less)
    ultimately have u: "unat (i + 1) = unat i + 1" by (intro uint16_succ) simp
    with less have "i + 1 \<le> iSplitIdx" by (simp add: word_le_nat_alt)
    moreover obtain k where k: "unat iSplitIdx - unat i = Suc k"
      using less by (metis diff_is_0_eq not0_implies_Suc not_le)
    moreover have "unat iSplitIdx - unat (i + 1) = k" using k u by linarith
    moreover have "\<not> iSplitIdx \<le> i" using less by (simp add: word_le_nat_alt)
    ultimately show ?thesis using Cons.IH by simp
  qed
qed

lemma createString_left:
  assumes "length ws \<le> 65536"
  shows "createStringFromWordList ws s True =
    join_words (if s = 0 then ws else take (unat s) ws)"
  using assms csl_left_0 [of 0 ws "[]"] csl_left_0 [of 0 "take (unat s) ws" "[]"]
  by (auto simp: createStringFromWordList_def csl_left_split)

lemma csl_skip_split:
  assumes "i \<le> iSplitIdx" and "length ws + unat i \<le> 65535"
  shows "csl_skip ws iSplitIdx i =
    (drop (unat iSplitIdx - unat i) ws, i + word_of_nat (min (unat iSplitIdx - unat i) (length ws)))"
  using assms
proof (induction ws arbitrary: i)
  case Nil
  then show ?case by simp
next
  case (Cons w ws)
  show ?case
  proof (cases "i = iSplitIdx")
    case True
    then show ?thesis by simp
  next
    case False
    with Cons.prems have less: "unat i < unat iSplitIdx"
      by (simp add: uint16_le_neq)
    moreover have u: "unat (i + 1) = unat i + 1"
      using Cons.prems by (intro uint16_succ) simp
    ultimately have "i + 1 \<le> iSplitIdx" by (simp add: word_le_nat_alt)
    moreover obtain k where k: "unat iSplitIdx - unat i = Suc k"
      using less by (metis diff_is_0_eq not0_implies_Suc not_le)
    moreover have "unat iSplitIdx - unat (i + 1) = k" using k u by linarith
    moreover have "\<not> iSplitIdx \<le> i" using less by (simp add: word_le_nat_alt)
    moreover have "iSplitIdx \<noteq> 0" using less by auto
    moreover have "length ws + unat (i + 1) \<le> 65535" using Cons.prems u by simp
    ultimately show ?thesis by (simp add: Cons.IH add.assoc)
  qed
qed

lemma csl_right_join:
  assumes "s \<le> i" and "length ws + unat i \<le> 65536"
  shows "csl_right ws s i acc = acc @ (if i > s \<and> ws \<noteq> [] then '' '' else []) @ join_words ws"
  using assms
proof (induction ws arbitrary: i acc)
  case Nil
  then show ?case by simp
next
  case (Cons w ws)
  show ?case
  proof (cases "ws = []")
    case True
    then show ?thesis by simp
  next
    case False
    then have "unat i + 1 < 65536" using Cons.prems by (cases ws) simp_all
    then have "unat (i + 1) = unat i + 1" by (rule uint16_succ)
    then have "i + 1 > s" and "s \<le> i + 1" and "length ws + unat (i + 1) \<le> 65536"
      using Cons.prems by (simp_all add: word_less_nat_alt word_le_nat_alt)
    with False show ?thesis by (simp add: Cons.IH join_with_Cons)
  qed
qed

lemma createString_right:
  assumes "length ws \<le> 65535"
  shows "createStringFromWordList ws s False = join_words (drop (unat s) ws)"
proof (cases "unat s \<le> length ws")
  case True
  then have "csl_skip ws s 0 = (drop (unat s) ws, s)"
    using csl_skip_split [of 0 s ws] assms by simp
  moreover have "length (drop (unat s) ws) + unat s \<le> 65536"
    using True assms by simp
  ultimately show ?thesis
    by (simp add: createStringFromWordList_def csl_right_join)
next
  case False
  then show ?thesis
    using csl_skip_split [of 0 s ws] assms by (simp add: createStringFromWordList_def)
qed

lemma wh_loop_join:
  assumes "length ws \<le> 65535"
  shows "wh_loop ws (word_of_nat (length ws)) acc = acc @ join_words ws"
  using assms
proof (induction ws arbitrary: acc)
  case Nil
  then show ?case by simp
next
  case (Cons w ws)
  have "(word_of_nat (length (w # ws)) :: 16 word) > 1 \<longleftrightarrow> ws \<noteq> []"
    using Cons.prems by (cases ws) (simp_all add: word_less_nat_alt unat_of_nat del: of_nat_Suc)
  moreover have "(word_of_nat (length (w # ws)) :: 16 word) - 1 = word_of_nat (length ws)"
    by simp
  ultimately show ?case
    using Cons by (simp add: join_with_Cons del: of_nat_Suc)
qed

lemma createString_whole [simp, word_list_simps]:
  "length ws \<le> 65536 \<Longrightarrow> createString ws = join_words ws"
  by (simp add: createString_left)

lemma WordHolder_createString [simp, word_list_simps]:
  "length ws \<le> 65535 \<Longrightarrow> WordHolder_createStringFromWordList ws = join_words ws"
  by (simp add: WordHolder_createStringFromWordList_def wh_loop_join)

text \<open>Beyond 65536 words the counter wraps to 0, and the space before that word is left out.\<close>

lemma csl_left_append:
  "csl_left (us @ vs) 0 i acc = csl_left vs 0 (i + word_of_nat (length us)) (csl_left us 0 i acc)"
  by (induction us arbitrary: i acc) (simp_all add: algebra_simps)

section \<open>Properties\<close>

text \<open>Serialising and tokenising are inverse on the words of a phrase: the serialised word list
  tokenises to the same words, and so do the two parts of the phrase on either side of any split
  index; the two serialisers of the code agree.\<close>

theorem word_list_roundtrip:
  assumes "char_separator tkz" and "ws = tkz AllSepatorList s" and "length ws \<le> 65535"
    and "1 \<le> k" and "k < length ws"
  shows "tkz AllSepatorList (createString ws) = ws \<and>
    tkz AllSepatorList (createStringFromWordList ws (word_of_nat k) True) = take k ws \<and>
    tkz AllSepatorList (createStringFromWordList ws (word_of_nat k) False) = drop k ws \<and>
    createString ws = createStringFromWordList ws (word_of_nat k) True @ '' '' @
      createStringFromWordList ws (word_of_nat k) False \<and>
    WordHolder_createStringFromWordList ws = createString ws"
proof -
  have k: "unat (word_of_nat k :: 16 word) = k" "(word_of_nat k :: 16 word) \<noteq> 0"
    using assms(3,4,5) by (auto simp: unat_of_nat word_unat_eq_iff)
  have clean: "\<forall>w \<in> set ws. clean_word AllSepatorList w"
    using assms(2) char_separator.tkz_clean [OF assms(1)] by simp
  have tok: "tkz AllSepatorList (join_words vs) = vs" if "set vs \<subseteq> set ws" for vs
    using that clean by (intro char_separator.tkz_join [OF assms(1)]) auto
  have "join_words ws = join_words (take k ws) @ '' '' @ join_words (drop k ws)"
    using assms(4,5) join_with_append [of "'' ''" "take k ws" "drop k ws"] by auto
  then show ?thesis
    using assms(3) k tok [of ws] tok [of "take k ws"] tok [of "drop k ws"]
    by (simp add: createString_left createString_right set_take_subset set_drop_subset)
qed

theorem word_list_roundtrip_witness:
  "split_tokens AllSepatorList (createString [''new'', ''york'', ''city'']) = [''new'', ''york'', ''city''] \<and>
   createStringFromWordList [''new'', ''york'', ''city''] (word_of_nat 1) False = ''york city''"
  using word_list_roundtrip [of split_tokens "[''new'', ''york'', ''city'']" "''new york,city''" 1,
    OF boost.char_separator_axioms]
  by (simp add: AllSepatorList_def createStringFromWordList_def)

text \<open>The \<^verbatim>\<open>unsigned short\<close> counter of the serialiser wraps: the words of a longer list are
  joined in runs of 65536, with no space between two runs.\<close>

theorem createString_wraps:
  assumes "65536 < length ws" and "length ws \<le> 131072"
  shows "createString ws = join_words (take 65536 ws) @ join_words (drop 65536 ws)"
proof -
  have "createString ws = csl_left (drop 65536 ws) 0 (word_of_nat 65536) (csl_left (take 65536 ws) 0 0 [])"
    using assms csl_left_append [of "take 65536 ws" "drop 65536 ws" 0 "[]"]
    by (simp add: createStringFromWordList_def)
  moreover have "(word_of_nat 65536 :: 16 word) = 0" by simp
  ultimately show ?thesis
    using assms by (simp add: csl_left_0)
qed

theorem createString_wraps_witness:
  "createString (replicate 65537 ''a'') = join_words (replicate 65536 ''a'') @ ''a''"
  using createString_wraps [of "replicate 65537 ''a''"] by simp

end
