(* ===== verification/Partition.thy ===== *)
theory Partition
  imports Words "HOL-Library.Sublist"
begin

text \<open>
  The partitions of a phrase into contiguous groups of words (\<^verbatim>\<open>bom/StringSet.cpp\<close>,
  \<^verbatim>\<open>bom/StringPartition.cpp\<close>) and the word combinations kept for the spelling dictionary
  (\<^verbatim>\<open>bom/WordCombinationHolder.cpp\<close>).

  A \<^verbatim>\<open>StringSet\<close> is a structure around one list of strings, and is that list here. The recursive
  constructor of \<^verbatim>\<open>StringPartition\<close> tokenises the right-hand string again at each level: it is
  modelled with fuel, and \<open>StringPartition_init_eq\<close> shows that as much fuel as there are words is
  enough for every tokeniser with the documented behaviour.
\<close>

section \<open>String sets\<close>

type_synonym string_set = "string list"

definition StringSet_of :: "string \<Rightarrow> string_set" where
  "StringSet_of iString = (if iString \<noteq> [] then [iString] else [])"

definition StringSet_push_back :: "string_set \<Rightarrow> string \<Rightarrow> string_set" where
  "StringSet_push_back ss iString = ss @ [iString]"

definition StringSet_push_back_all :: "string_set \<Rightarrow> string_set \<Rightarrow> string_set" where
  "StringSet_push_back_all ss iStringSet =
     fold (\<lambda>lString s. StringSet_push_back s lString) iStringSet ss"

definition StringSet_getFirstString :: "string_set \<Rightarrow> string" where
  "StringSet_getFirstString ss = (case ss of [] \<Rightarrow> '''' | lString # _ \<Rightarrow> lString)"

text \<open>The display loops count with a \<^verbatim>\<open>short\<close>; the separator is left out where it is 0.\<close>

fun describe_items :: "('a \<Rightarrow> string) \<Rightarrow> 'a list \<Rightarrow> 16 word \<Rightarrow> string" where
  "describe_items item [] idx = []"
| "describe_items item (x # xs) idx =
     (if idx \<noteq> 0 then '', '' else []) @ item x @ describe_items item xs (idx + 1)"

definition StringSet_describe :: "string_set \<Rightarrow> string" where
  "StringSet_describe ss =
     ''  {'' @ describe_items (\<lambda>lString. [CHR 0x22] @ lString @ [CHR 0x22]) ss 0 @ ''}''"

lemma StringSet_push_back_all_eq [simp]: "StringSet_push_back_all s t = s @ t"
  by (simp add: StringSet_push_back_all_def StringSet_push_back_def fold_snoc)

section \<open>Partitions of a phrase\<close>

record StringPartition =
  sp_initialString :: string
  sp_partition :: "string_set list"

text \<open>The values of a \<^verbatim>\<open>short\<close> counter in \<^verbatim>\<open>for (short i = a; i != b; ++i)\<close>, where \<open>a \<le> b\<close>.\<close>

definition short_range :: "int \<Rightarrow> int \<Rightarrow> 16 word list" where
  "short_range a b = map word_of_int [a .. b - 1]"

definition StringPartition_push_back :: "string_set list \<Rightarrow> string_set \<Rightarrow> string_set list" where
  "StringPartition_push_back parts iStringSet =
     (if iStringSet \<noteq> [] then parts @ [iStringSet] else parts)"

fun StringPartition_init :: "tokeniser \<Rightarrow> nat \<Rightarrow> string \<Rightarrow> string_set list outcome" where
  "StringPartition_init tkz 0 iPhrase = Inl NonTermination"
| "StringPartition_init tkz (Suc fuel) iPhrase =
     (let lWordList = tokeniseStringIntoWordList tkz iPhrase [];
          nbOfWords = (word_of_nat (length lWordList) :: 16 word);
          lPhrase = createString lWordList;
          oStringSet = StringSet_of lPhrase
      in if sint nbOfWords \<le> 1 then Inr [oStringSet]
         else
           bindE (foldE (\<lambda>idx_word parts.
               let lLeftHandString = createStringFromWordList lWordList idx_word True;
                   lRightHandString = createStringFromWordList lWordList idx_word False
               in bindE (StringPartition_init tkz fuel lRightHandString) (\<lambda>lStringRHSPartition.
                    Inr (fold (\<lambda>lRHSStringSet ps.
                           let lNewStringSet = StringSet_push_back [] lLeftHandString
                           in ps @ [StringSet_push_back_all lNewStringSet lRHSStringSet])
                         lStringRHSPartition parts)))
             (short_range 1 (sint nbOfWords)) [])
           (\<lambda>parts. Inr (parts @ [oStringSet])))"

definition new_StringPartition :: "tokeniser \<Rightarrow> nat \<Rightarrow> string \<Rightarrow> StringPartition outcome" where
  "new_StringPartition tkz fuel iString =
     bindE (StringPartition_init tkz fuel iString)
       (\<lambda>parts. Inr \<lparr>sp_initialString = iString, sp_partition = parts\<rparr>)"

definition StringPartition_describe :: "StringPartition \<Rightarrow> string" where
  "StringPartition_describe p =
     ''{'' @ describe_items StringSet_describe (sp_partition p) 0 @ '' }''"

definition calculateUniqueCombinations :: "StringPartition \<Rightarrow> string_set" where
  "calculateUniqueCombinations p =
     (let lStringList = fold (\<lambda>itStringSet s.
            fold (\<lambda>lWordCombination s.
              if lWordCombination \<in> set s then s else os_insert lWordCombination s) itStringSet s)
            (sp_partition p) []
      in fold (\<lambda>lWordCombination oStringSet. StringSet_push_back oStringSet lWordCombination)
           lStringList [])"

section \<open>Word combinations\<close>

text \<open>\<^verbatim>\<open>WordCombinationHolder::init\<close>; its calls to \<^verbatim>\<open>Filter::shouldKeep\<close> are commented out.\<close>

definition middle_combinations :: "string list \<Rightarrow> int \<Rightarrow> string list" where
  "middle_combinations lWordList nbOfWords =
     fold (\<lambda>mdl_string_len combos.
       fold (\<lambda>idx_word combos.
           let lLeftHandString = createStringFromWordList lWordList idx_word True;
               lRightHandString =
                 createStringFromWordList lWordList (idx_word + mdl_string_len) False
           in combos @ [lLeftHandString @ '' '' @ lRightHandString])
         (short_range 1 (nbOfWords - sint mdl_string_len)) combos)
       (short_range 1 (nbOfWords - 1)) []"

definition WordCombinationHolder_init :: "tokeniser \<Rightarrow> nat \<Rightarrow> string \<Rightarrow> string list outcome" where
  "WordCombinationHolder_init tkz fuel iPhrase =
     bindE (new_StringPartition tkz fuel iPhrase) (\<lambda>lStringPartitionHolder.
       let lStringSet = fold (\<lambda>itStringList s. fold os_insert itStringList s)
             (sp_partition lStringPartitionHolder) [];
           lWordList = tokeniseStringIntoWordList tkz iPhrase [];
           nbOfWords = sint (word_of_nat (length lWordList) :: 16 word)
       in if nbOfWords \<le> 2 then Inr lStringSet
          else Inr (lStringSet @ middle_combinations lWordList nbOfWords))"

definition WordCombinationHolder_describe :: "string list \<Rightarrow> string" where
  "WordCombinationHolder_describe combos =
     ''{'' @ describe_items (\<lambda>w. StringSet_describe (StringSet_of w)) combos 0 @ '' }''"

section \<open>Reference: compositions of a list\<close>

function compositions :: "'a list \<Rightarrow> 'a list list list" where
  "compositions ws =
     concat (map (\<lambda>i. map (\<lambda>p. take i ws # p) (compositions (drop i ws))) [1..<length ws]) @ [[ws]]"
  by pat_completeness auto
termination
  by (relation "measure length") auto

declare compositions.simps [simp del]

lemma compositions_set:
  "ws \<noteq> [] \<Longrightarrow> set (compositions ws) = {p. concat p = ws \<and> [] \<notin> set p}"
proof (induction ws rule: compositions.induct)
  case (1 ws)
  have IH: "set (compositions (drop i ws)) = {p. concat p = drop i ws \<and> [] \<notin> set p}"
    if "1 \<le> i" "i < length ws" for i
    using 1 that by simp
  have eq: "p \<in> set (compositions ws) \<longleftrightarrow>
      p = [ws] \<or> (\<exists>i q. 1 \<le> i \<and> i < length ws \<and> p = take i ws # q \<and> concat q = drop i ws \<and> [] \<notin> set q)" for p
    by (subst compositions.simps) (auto simp: IH)
  show ?case
  proof (intro set_eqI iffI)
    fix p
    assume "p \<in> set (compositions ws)"
    then show "p \<in> {p. concat p = ws \<and> [] \<notin> set p}"
      using 1(2) unfolding eq by auto
  next
    fix p
    assume p: "p \<in> {p. concat p = ws \<and> [] \<notin> set p}"
    then obtain b q where b: "p = b # q" using 1(2) by (cases p) auto
    show "p \<in> set (compositions ws)"
    proof (cases "q = []")
      case True
      with p b show ?thesis unfolding eq by simp
    next
      case False
      then have "concat q \<noteq> []" using p b by (cases q) auto
      then have "1 \<le> length b \<and> length b < length ws \<and> b = take (length b) ws \<and> concat q = drop (length b) ws"
        using p b by (cases b) auto
      then show ?thesis using p b unfolding eq by (metis insert_iff list.simps(15) mem_Collect_eq)
    qed
  qed
qed

lemma sum_list_pow2: "(\<Sum>i\<leftarrow>[1..<Suc n]. 2 ^ (n - i)) = 2 ^ n - (1::nat)"
proof -
  have "(\<Sum>i\<leftarrow>[1..<Suc n]. 2 ^ (n - i)) = (\<Sum>i\<in>{1..<Suc n}. 2 ^ (n - i) :: nat)"
    by (simp only: sum_list_distinct_conv_sum_set distinct_upt set_upt)
  also have "\<dots> = (\<Sum>i\<in>{0..<n}. 2 ^ i)"
    by (rule sum.reindex_bij_witness [where i="\<lambda>i. n - i" and j="\<lambda>i. n - i"]) auto
  also have "\<dots> = 2 ^ n - 1"
    by (induction n) (auto simp: algebra_simps)
  finally show ?thesis .
qed

lemma compositions_length: "ws \<noteq> [] \<Longrightarrow> length (compositions ws) = 2 ^ (length ws - 1)"
proof (induction ws rule: compositions.induct)
  case (1 ws)
  obtain n where n: "length ws = Suc n" using 1(2) by (cases ws) auto
  have "length (compositions ws) = (\<Sum>i\<leftarrow>[1..<length ws]. length (compositions (drop i ws))) + 1"
    by (subst compositions.simps) (simp add: length_concat comp_def)
  also have "(\<Sum>i\<leftarrow>[1..<length ws]. length (compositions (drop i ws))) = (\<Sum>i\<leftarrow>[1..<length ws]. 2 ^ (n - i))"
    by (intro arg_cong [of _ _ sum_list] map_cong refl) (auto simp: 1(1) n)
  also have "\<dots> + 1 = 2 ^ (length ws - 1)"
    unfolding n sum_list_pow2 by simp
  finally show ?case .
qed

section \<open>The partitions of the code are the compositions of its words\<close>

lemma short_range_nat:
  "1 \<le> m \<Longrightarrow> short_range 1 (int m) = map word_of_nat [1..<m]"
proof -
  assume "1 \<le> m"
  have "[1 .. int m - 1] = map int [1..<m]"
  proof (induction m)
    case 0
    then show ?case by simp
  next
    case (Suc m)
    then show ?case
      by (cases "m = 0") (simp_all add: upto_rec2 [of 1 "int m"])
  qed
  then show ?thesis by (simp add: short_range_def)
qed

lemma sint_of_nat_small: "n \<le> 32767 \<Longrightarrow> sint (word_of_nat n :: 16 word) = int n"
  by (simp add: signed_of_nat signed_take_bit_int_eq_self)

lemma unat_of_nat_small: "n \<le> 65535 \<Longrightarrow> unat (word_of_nat n :: 16 word) = n"
  by (simp add: unat_of_nat)

lemma word_of_nat_neq_0: "1 \<le> n \<Longrightarrow> n \<le> 65535 \<Longrightarrow> (word_of_nat n :: 16 word) \<noteq> 0"
  using unat_of_nat_small [of n] by (metis not_one_le_zero unat_0)

lemma fold_append_map: "fold (\<lambda>x ps. ps @ [f x]) xs ys = ys @ map f xs"
  by (induction xs arbitrary: ys) simp_all

lemma fold_append_concat: "fold (\<lambda>x ps. ps @ f x) xs ys = ys @ concat (map f xs)"
  by (induction xs arbitrary: ys) simp_all

lemma join_words_Nil_iff: "\<forall>w \<in> set ws. w \<noteq> [] \<Longrightarrow> join_words ws = [] \<longleftrightarrow> ws = []"
  by (cases ws) (simp_all add: join_with_Cons)

context char_separator
begin

lemma StringPartition_init_compositions:
  assumes "tkz AllSepatorList s = ws" and "ws \<noteq> []" and "length ws \<le> 32767" and "length ws \<le> fuel"
  shows "StringPartition_init tkz fuel s = Inr (map (map join_words) (compositions ws))"
  using assms
proof (induction fuel arbitrary: s ws)
  case 0
  then show ?case by simp
next
  case (Suc fuel)
  let ?nb = "word_of_nat (length ws) :: 16 word"
  have nb: "sint ?nb = int (length ws)" using Suc.prems by (simp add: sint_of_nat_small)
  have "w \<noteq> []" if "w \<in> set ws" for w
    using tkz_clean that Suc.prems(1) by (auto simp: clean_word_def)
  then have full: "StringSet_of (join_words ws) = [join_words ws]"
    using Suc.prems(2) by (simp add: StringSet_of_def join_words_Nil_iff)
  show ?case
  proof (cases "length ws = 1")
    case True
    with Suc.prems full nb show ?thesis by (subst compositions.simps) simp
  next
    case False
    then have len: "2 \<le> length ws" using Suc.prems(2) by (cases ws) (auto simp: Suc_le_eq)
    let ?body = "\<lambda>i parts. parts @ map (\<lambda>p. join_words (take i ws) # p)
      (map (map join_words) (compositions (drop i ws)))"
    have step: "bindE (StringPartition_init tkz fuel (createStringFromWordList ws (word_of_nat i) False))
          (\<lambda>rhs. Inr (fold (\<lambda>r ps. ps @ [StringSet_push_back_all
             (StringSet_push_back [] (createStringFromWordList ws (word_of_nat i) True)) r]) rhs parts)) =
        Inr (?body i parts)" if i: "1 \<le> i" "i < length ws" for i parts
    proof -
      have u: "unat (word_of_nat i :: 16 word) = i" "(word_of_nat i :: 16 word) \<noteq> 0"
        using i Suc.prems(3) unat_of_nat_small [of i] word_of_nat_neq_0 [of i] by simp_all
      have "tkz AllSepatorList (join_words (drop i ws)) = drop i ws"
        using tkz_tail [of AllSepatorList i s] Suc.prems(1) by simp
      then have "StringPartition_init tkz fuel (join_words (drop i ws)) =
          Inr (map (map join_words) (compositions (drop i ws)))"
        using i Suc.prems by (intro Suc.IH) auto
      then show ?thesis
        using Suc.prems(3) u
        by (simp add: createString_left createString_right StringSet_push_back_def fold_append_map)
    qed
    have fold: "foldE (\<lambda>idx parts. bindE (StringPartition_init tkz fuel (createStringFromWordList ws idx False))
          (\<lambda>rhs. Inr (fold (\<lambda>r ps. ps @ [StringSet_push_back_all
             (StringSet_push_back [] (createStringFromWordList ws idx True)) r]) rhs parts)))
        (map word_of_nat is) parts = Inr (fold ?body is parts)"
      if "set is \<subseteq> {1..<length ws}" for "is" parts
      unfolding foldE_map using that by (intro foldE_total step) auto
    have "short_range 1 (sint ?nb) = map word_of_nat [1..<length ws]"
      unfolding nb using len by (intro short_range_nat) simp
    then have "StringPartition_init tkz (Suc fuel) s = Inr (fold ?body [1..<length ws] [] @ [[join_words ws]])"
      using fold [of "[1..<length ws]" "[]"] Suc.prems(1,3) len nb full
      by (simp add: Let_def)
    then show ?thesis
      by (subst compositions.simps) (simp add: fold_append_concat map_concat comp_def)
  qed
qed

end

section \<open>Unique word combinations\<close>

lemma fold_fold_os_insert: "fold (\<lambda>xs s. fold os_insert xs s) xss s = os_insert_all (concat xss) s"
  by (induction xss arbitrary: s) (simp_all add: os_insert_all_def)

lemma os_insert_unless: "(if x \<in> set s then s else os_insert x s) = os_insert x s"
  by (simp add: insort_insert_key_def)

lemma calculateUniqueCombinations_eq:
  "calculateUniqueCombinations p = sorted_list_of_set (\<Union> (set ` set (sp_partition p)))"
  by (simp add: calculateUniqueCombinations_def os_insert_unless fold_fold_os_insert
    StringSet_push_back_def fold_snoc os_insert_all_eq)

lemma compositions_blocks:
  assumes "ws \<noteq> []"
  shows "\<Union> (set ` set (compositions ws)) = {b. b \<noteq> [] \<and> sublist b ws}"
proof (intro set_eqI iffI)
  fix b
  assume "b \<in> \<Union> (set ` set (compositions ws))"
  then obtain p where p: "concat p = ws" "[] \<notin> set p" "b \<in> set p"
    by (auto simp: compositions_set [OF assms])
  from p(3) obtain q r where "p = q @ b # r" by (meson split_list)
  with p show "b \<in> {b. b \<noteq> [] \<and> sublist b ws}" by (auto simp: sublist_def)
next
  fix b
  assume "b \<in> {b. b \<noteq> [] \<and> sublist b ws}"
  then obtain l r where ws: "ws = l @ b @ r" and b: "b \<noteq> []"
    by (auto simp: sublist_def)
  let ?p = "filter (\<lambda>x. x \<noteq> []) [l, b, r]"
  have "concat ?p = ws \<and> [] \<notin> set ?p" using b ws by simp
  then have "?p \<in> set (compositions ws)" unfolding compositions_set [OF assms] by blast
  moreover have "b \<in> set ?p" using b by simp
  ultimately show "b \<in> \<Union> (set ` set (compositions ws))" by blast
qed

text \<open>The phrases made of one or more consecutive words.\<close>

definition sub_phrases :: "string list \<Rightarrow> string set" where
  "sub_phrases ws = join_words ` {b. b \<noteq> [] \<and> sublist b ws}"

lemma sub_phrases_compositions:
  "ws \<noteq> [] \<Longrightarrow> \<Union> (set ` set (map (map join_words) (compositions ws))) = sub_phrases ws"
  by (simp add: sub_phrases_def compositions_blocks [symmetric] image_UN)

section \<open>Phrases with a hole\<close>

lemma middle_combinations_eq:
  assumes "length ws \<le> 32767" and "3 \<le> length ws"
  shows "middle_combinations ws (int (length ws)) =
    concat (map (\<lambda>m. map (\<lambda>i. join_words (take i ws @ drop (i + m) ws)) [1..<length ws - m])
      [1..<length ws - 1])"
proof -
  let ?n = "length ws"
  have outer: "short_range 1 (int ?n - 1) = map word_of_nat [1..<?n - 1]"
    using assms short_range_nat [of "?n - 1"] by (simp add: of_nat_diff)
  have item: "createStringFromWordList ws (word_of_nat i) True @ '' '' @
        createStringFromWordList ws (word_of_nat i + word_of_nat m) False =
      join_words (take i ws @ drop (i + m) ws)"
    if "1 \<le> m" "1 \<le> i" "i < ?n - m" for i m
  proof -
    have "(word_of_nat i :: 16 word) + word_of_nat m = word_of_nat (i + m)" by simp
    moreover have "unat (word_of_nat (i + m) :: 16 word) = i + m" "unat (word_of_nat i :: 16 word) = i"
      using that assms by (intro unat_of_nat_small, linarith)+
    moreover have "(word_of_nat i :: 16 word) \<noteq> 0"
      using that assms by (intro word_of_nat_neq_0) linarith+
    ultimately show ?thesis
      using that assms
      by (auto simp: createString_left createString_right join_with_append simp del: of_nat_add)
  qed
  have "map (\<lambda>i. createStringFromWordList ws i True @ '' '' @
          createStringFromWordList ws (i + word_of_nat m) False)
        (short_range 1 (int ?n - sint (word_of_nat m :: 16 word))) =
      map (\<lambda>i. join_words (take i ws @ drop (i + m) ws)) [1..<?n - m]"
    if "1 \<le> m" "m < ?n - 1" for m
  proof -
    have "sint (word_of_nat m :: 16 word) = int m"
      using that assms by (intro sint_of_nat_small) linarith
    then have "short_range 1 (int ?n - sint (word_of_nat m :: 16 word)) = map word_of_nat [1..<?n - m]"
      using that short_range_nat [of "?n - m"] by (simp add: of_nat_diff)
    then show ?thesis
      by (simp only: map_map comp_def) (rule map_cong [OF refl], rule item, use that in auto)
  qed
  then show ?thesis
    unfolding middle_combinations_def Let_def outer fold_append_map fold_append_concat
    by (simp only: fold_map comp_def fold_append_concat append_Nil)
      (intro arg_cong [of _ _ concat] map_cong refl, simp)
qed

definition hole_list :: "string list \<Rightarrow> string list" where
  "hole_list ws = concat (map (\<lambda>m. map (\<lambda>i. join_words (take i ws @ drop (i + m) ws))
    [1..<length ws - m]) [1..<length ws - 1])"

definition hole_phrases :: "string list \<Rightarrow> string set" where
  "hole_phrases ws = {join_words (take i ws @ drop j ws) | i j. 1 \<le> i \<and> i < j \<and> j < length ws}"

lemma set_hole_list: "set (hole_list ws) = hole_phrases ws"
proof (intro set_eqI iffI)
  fix w
  assume "w \<in> set (hole_list ws)"
  then obtain m i where "w = join_words (take i ws @ drop (i + m) ws)" "1 \<le> i" "1 \<le> m" "i + m < length ws"
    by (auto simp: hole_list_def)
  moreover from this have "i < i + m" by simp
  ultimately show "w \<in> hole_phrases ws" unfolding hole_phrases_def by blast
next
  fix w
  assume "w \<in> hole_phrases ws"
  then obtain i j where "w = join_words (take i ws @ drop j ws)" "1 \<le> i" "i < j" "j < length ws"
    unfolding hole_phrases_def by blast
  then show "w \<in> set (hole_list ws)"
    unfolding hole_list_def set_concat set_map
    by (intro UN_I [of "j - i"] image_eqI [of _ _ "[1..<length ws - (j - i)]"]
      imageI UnionI [of "set (map (\<lambda>i'. join_words (take i' ws @ drop (i' + (j - i)) ws)) [1..<length ws - (j - i)])"])
      (auto intro!: image_eqI [of _ _ i])
qed

text \<open>All the word combinations of a phrase; a phrase without any word has none.\<close>

definition phrases_of :: "string list \<Rightarrow> string set" where
  "phrases_of ws = sub_phrases ws \<union> hole_phrases ws"

context char_separator
begin

lemma WordCombinationHolder_init_eq:
  assumes "tkz AllSepatorList s = ws" and "ws \<noteq> []" and "length ws \<le> 32767" and "length ws \<le> fuel"
  shows "WordCombinationHolder_init tkz fuel s =
    Inr (sorted_list_of_set (sub_phrases ws) @
      (if length ws \<le> 2 then [] else
       concat (map (\<lambda>m. map (\<lambda>i. join_words (take i ws @ drop (i + m) ws)) [1..<length ws - m])
         [1..<length ws - 1])))"
proof -
  let ?parts = "map (map join_words) (compositions ws)"
  have init: "new_StringPartition tkz fuel s = Inr \<lparr>sp_initialString = s, sp_partition = ?parts\<rparr>"
    unfolding new_StringPartition_def StringPartition_init_compositions [OF assms] by simp
  have "set (concat ?parts) = \<Union> (set ` set ?parts)" by simp
  then have set: "set (concat ?parts) = sub_phrases ws"
    by (simp only: sub_phrases_compositions [OF assms(2)])
  have n: "sint (word_of_nat (length ws) :: 16 word) = int (length ws)"
    using assms(3) by (rule sint_of_nat_small)
  show ?thesis
    unfolding WordCombinationHolder_init_def init bindE_simps Let_def StringPartition.simps
      fold_fold_os_insert os_insert_all_eq set tokenise_eq assms(1) n
    using middle_combinations_eq [OF assms(3)] by auto
qed

lemma word_combinations_set:
  assumes "s \<noteq> []" and "length (tkz AllSepatorList s) \<le> 32767"
  shows "\<exists>cs. WordCombinationHolder_init tkz (length s) s = Inr cs \<and> set cs = phrases_of (tkz AllSepatorList s)"
proof (cases "tkz AllSepatorList s = []")
  case True
  obtain n where "length s = Suc n" using assms(1) by (cases s) auto
  with True show ?thesis
    by (simp add: WordCombinationHolder_init_def new_StringPartition_def StringSet_of_def phrases_of_def
        sub_phrases_def hole_phrases_def)
next
  case False
  have fin: "finite (sub_phrases (tkz AllSepatorList s))"
    unfolding sub_phrases_compositions [OF False, symmetric] by simp
  let ?ws = "tkz AllSepatorList s"
  have init: "WordCombinationHolder_init tkz (length s) s = Inr (sorted_list_of_set (sub_phrases ?ws) @ hole_list ?ws)"
    using WordCombinationHolder_init_eq [OF refl False assms(2) length_tkz_le]
    by (auto simp: hole_list_def)
  show ?thesis
    unfolding init phrases_of_def using fin set_hole_list by simp
qed

text \<open>Distinct sub-sequences of clean words are distinct phrases.\<close>

lemma join_words_inject:
  assumes "\<forall>w \<in> set us. clean_word AllSepatorList w" and "\<forall>w \<in> set vs. clean_word AllSepatorList w"
    and "join_words us = join_words vs"
  shows "us = vs"
  using tkz_join [OF space_in_AllSepatorList assms(1)] tkz_join [OF space_in_AllSepatorList assms(2)]
  unfolding assms(3) by simp

end

section \<open>Properties\<close>

text \<open>C4: The recursive partition algorithm returns, with as much fuel as the phrase has words, and its
  result is exactly the compositions of the words of the phrase: \<open>2 ^ (n - 1)\<close> partitions, each the
  phrases of a split of all the words into consecutive non-empty groups, every such split present;
  the unique combinations drawn from it are, in order and without repetition, the phrases made of
  consecutive words.\<close>

theorem partition_correct:
  assumes "char_separator tkz" and "tkz AllSepatorList s = ws"
    and "1 \<le> length ws" and "length ws \<le> 32767" and "length ws \<le> fuel"
  shows "\<exists>parts splits.
    new_StringPartition tkz fuel s = Inr \<lparr>sp_initialString = s, sp_partition = parts\<rparr> \<and>
    parts = map (map join_words) splits \<and>
    length parts = 2 ^ (length ws - 1) \<and>
    set splits = {p. concat p = ws \<and> [] \<notin> set p} \<and>
    calculateUniqueCombinations \<lparr>sp_initialString = s, sp_partition = parts\<rparr> =
      sorted_list_of_set (sub_phrases ws)"
proof -
  have ne: "ws \<noteq> []" using assms(3) by auto
  have "new_StringPartition tkz fuel s =
      Inr \<lparr>sp_initialString = s, sp_partition = map (map join_words) (compositions ws)\<rparr>"
    unfolding new_StringPartition_def
      char_separator.StringPartition_init_compositions [OF assms(1,2) ne assms(4,5)] by simp
  then show ?thesis
    unfolding calculateUniqueCombinations_eq StringPartition.simps
    using compositions_length [OF ne] compositions_set [OF ne] sub_phrases_compositions [OF ne]
    by (intro exI [of _ "map (map join_words) (compositions ws)"] exI [of _ "compositions ws"]) simp
qed

theorem partition_correct_witness:
  "\<exists>parts splits.
    new_StringPartition split_tokens 3 ''rio de, janeiro'' =
      Inr \<lparr>sp_initialString = ''rio de, janeiro'', sp_partition = parts\<rparr> \<and>
    parts = map (map join_words) splits \<and> length parts = 2 ^ (3 - 1) \<and>
    set splits = {p. concat p = [''rio'', ''de'', ''janeiro''] \<and> [] \<notin> set p} \<and>
    calculateUniqueCombinations \<lparr>sp_initialString = ''rio de, janeiro'', sp_partition = parts\<rparr> =
      sorted_list_of_set (sub_phrases [''rio'', ''de'', ''janeiro''])"
  using partition_correct [of split_tokens "''rio de, janeiro''" "[''rio'', ''de'', ''janeiro'']" 3,
    OF boost.char_separator_axioms]
  by (simp add: AllSepatorList_def)

lemma hole_count: "(\<Sum>m\<leftarrow>[1..<n - 1]. n - m - 1) = (n - 1) * (n - 2) div (2::nat)"
proof -
  have "(\<Sum>m\<leftarrow>[1..<Suc k]. Suc k - m) = Suc k * k div 2" for k
  proof -
    have "(\<Sum>m\<leftarrow>[1..<Suc k]. Suc k - m) = (\<Sum>m\<in>{1..<Suc k}. Suc k - m)"
      by (simp only: sum_list_distinct_conv_sum_set distinct_upt set_upt)
    also have "\<dots> = (\<Sum>m\<in>{1..<Suc k}. m)"
      by (rule sum.reindex_bij_witness [where i="\<lambda>i. Suc k - i" and j="\<lambda>i. Suc k - i"]) auto
    also have "\<dots> = Suc k * k div 2"
      by (induction k) auto
    finally show ?thesis .
  qed
  note * = this
  show ?thesis
  proof (cases "n \<le> 1")
    case False
    then obtain k where n: "n = Suc (Suc k)" by (metis One_nat_def not_less_eq_eq not0_implies_Suc le0)
    have "n - m - 1 = Suc k - m" for m by (simp add: n)
    then show ?thesis using * [of k] by (simp add: n del: upt_Suc)
  qed (auto simp: le_Suc_eq)
qed

text \<open>The phrases of consecutive words of an example, and its single words.\<close>

lemma sub_phrasesI: "b \<noteq> [] \<Longrightarrow> ws = xs @ b @ ys \<Longrightarrow> join_words b \<in> sub_phrases ws"
  by (auto simp: sub_phrases_def sublist_def)

lemma single_words_sub: "set ws \<subseteq> sub_phrases ws"
proof
  fix w assume "w \<in> set ws"
  then obtain xs ys where "ws = xs @ [w] @ ys" by (auto dest: split_list)
  from sub_phrasesI [OF _ this] show "w \<in> sub_phrases ws" by simp
qed

lemma finite_sub_phrases: "finite (sub_phrases ws)"
proof (cases "ws = []")
  case True
  then show ?thesis by (simp add: sub_phrases_def)
next
  case False
  then show ?thesis unfolding sub_phrases_compositions [OF False, symmetric] by simp
qed

text \<open>C25: The word combinations kept for a phrase of \<open>n\<close> words are, first, every phrase of
  consecutive words, sorted and without repetition, every single word among them, and then every phrase that leaves out
  a group of consecutive inner words, \<open>(n - 1) (n - 2) / 2\<close> of them. This is not what the comment of the class in
  \<^verbatim>\<open>WordCombinationHolder.hpp\<close> says: it has words of two or three letters, and the word ``airport'', not indexed,
  and the list of its example has neither the single words nor the phrases, such as ``francisco international'', that
  begin and end within the name. The code leaves out no word and no phrase.\<close>

theorem word_combinations_correct:
  assumes "char_separator tkz" and "tkz AllSepatorList s = ws"
    and "1 \<le> length ws" and "length ws \<le> 32767" and "length ws \<le> fuel"
  shows "\<exists>holes.
    WordCombinationHolder_init tkz fuel s = Inr (sorted_list_of_set (sub_phrases ws) @ holes) \<and>
    set ws \<subseteq> set (sorted_list_of_set (sub_phrases ws)) \<and>
    set holes = {join_words (take i ws @ drop j ws) | i j. 1 \<le> i \<and> i < j \<and> j < length ws} \<and>
    length holes = (length ws - 1) * (length ws - 2) div 2"
proof -
  have ne: "ws \<noteq> []" using assms(3) by auto
  have "WordCombinationHolder_init tkz fuel s = Inr (sorted_list_of_set (sub_phrases ws) @ hole_list ws)"
    unfolding char_separator.WordCombinationHolder_init_eq [OF assms(1,2) ne assms(4,5)] hole_list_def
    by simp
  moreover have "length (hole_list ws) = (length ws - 1) * (length ws - 2) div 2"
    unfolding hole_count [symmetric] hole_list_def by (simp add: length_concat comp_def)
  ultimately show ?thesis
    using set_hole_list [of ws] single_words_sub finite_sub_phrases unfolding hole_phrases_def by auto
qed

text \<open>The example of the class: the list has the single words, short ones and the airport, and the phrase within the name.\<close>

theorem word_combinations_correct_witness:
  "\<exists>cs holes.
    WordCombinationHolder_init split_tokens 4 ''san francisco international airport'' = Inr (cs @ holes) \<and>
    {''san'', ''airport'', ''francisco international''} \<subseteq> set cs \<and>
    {''san international airport'', ''san francisco airport'', ''san airport''} \<subseteq> set holes \<and> length holes = 3"
proof -
  let ?ws = "[''san'', ''francisco'', ''international'', ''airport'']"
  have tok: "split_tokens AllSepatorList ''san francisco international airport'' = ?ws"
    by (simp add: AllSepatorList_def)
  have len: "length ?ws = 4" by simp
  have cnt: "(4 - 1) * (4 - 2) div 2 = (3::nat)" by simp
  have inner: "''francisco international'' \<in> sub_phrases ?ws"
    using sub_phrasesI [of "[''francisco'', ''international'']" ?ws "[''san'']" "[''airport'']"] by simp
  obtain holes where holes: "WordCombinationHolder_init split_tokens 4 ''san francisco international airport'' =
      Inr (sorted_list_of_set (sub_phrases ?ws) @ holes)"
    "set ?ws \<subseteq> set (sorted_list_of_set (sub_phrases ?ws))"
    "set holes = {join_words (take i ?ws @ drop j ?ws) | i j. 1 \<le> i \<and> i < j \<and> j < 4}" "length holes = 3"
    using word_combinations_correct [OF boost.char_separator_axioms tok, of 4, unfolded len cnt] by auto
  have hole: "join_words (take i ?ws @ drop j ?ws) \<in> set holes" if "1 \<le> i" "i < j" "j < 4" for i j
    using that unfolding holes(3) by blast
  have "{''san international airport'', ''san francisco airport'', ''san airport''} \<subseteq> set holes"
    using hole [of 1 2] hole [of 2 3] hole [of 1 3] by (simp add: numeral_2_eq_2 numeral_3_eq_3)
  moreover have "{''san'', ''airport'', ''francisco international''} \<subseteq> set (sorted_list_of_set (sub_phrases ?ws))"
    using holes(2) inner finite_sub_phrases by simp
  ultimately show ?thesis using holes(1,4) by blast
qed

end
