(* ===== verification/Doubles.thy ===== *)
theory Doubles
  imports Complex_Main Prelude
begin

text \<open>
  The \<^verbatim>\<open>double\<close> values of the weights and scores, the class \<^verbatim>\<open>FloatingPoint<double>\<close> of
  \<^verbatim>\<open>basic/float_utils_google.hpp\<close> and the numeric constants of \<^verbatim>\<open>basic/BasConst.cpp\<close>.

  A \<^verbatim>\<open>double\<close> is an exact rational number, an infinity or NaN; the two zeros are one value, which
  no operation used by the code tells apart. Products, quotients and decimal constants are rounded
  to nearest, ties to even, on the binary64 grid. \<^verbatim>\<open>std::pow\<close> is taken as correctly rounded.
\<close>

section \<open>Rounding to binary64\<close>

datatype dbl = Fin rat | PosInf | NegInf | NaN

fun nbits :: "nat \<Rightarrow> nat" where
  "nbits n = (if n = 0 then 0 else Suc (nbits (n div 2)))"

declare nbits.simps [simp del]

text \<open>The binary exponent of a positive rational: \<open>2 powi expo q \<le> q < 2 powi (expo q + 1)\<close>.\<close>

definition expo :: "rat \<Rightarrow> int" where
  "expo q = (if 1 \<le> q then int (nbits (nat \<lfloor>q\<rfloor>)) - 1 else - int (nbits (nat (\<lceil>1 / q\<rceil> - 1))))"

definition rne :: "rat \<Rightarrow> int" where
  "rne q = (let f = \<lfloor>q\<rfloor>; d = q - of_int f in
     if d < 1 / 2 then f else if 1 / 2 < d then f + 1 else if even f then f else f + 1)"

definition ulp_exp :: "rat \<Rightarrow> int" where
  "ulp_exp q = max (expo q - 52) (- 1074)"

definition fl_pos :: "rat \<Rightarrow> rat" where
  "fl_pos q = of_int (rne (q / 2 powi ulp_exp q)) * 2 powi ulp_exp q"

definition round_dbl :: "rat \<Rightarrow> dbl" where
  "round_dbl q =
     (if q = 0 then Fin 0
      else if 0 < q then (let y = fl_pos q in if 2 ^ 1024 \<le> y then PosInf else Fin y)
      else (let y = fl_pos (- q) in if 2 ^ 1024 \<le> y then NegInf else Fin (- y)))"

section \<open>Arithmetic and comparison\<close>

definition inf_sign :: "bool \<Rightarrow> dbl" where
  "inf_sign pos = (if pos then PosInf else NegInf)"

fun dmul :: "dbl \<Rightarrow> dbl \<Rightarrow> dbl" where
  "dmul NaN b = NaN"
| "dmul (Fin x) NaN = NaN"
| "dmul PosInf NaN = NaN"
| "dmul NegInf NaN = NaN"
| "dmul (Fin x) (Fin y) = round_dbl (x * y)"
| "dmul (Fin x) PosInf = (if x = 0 then NaN else inf_sign (0 < x))"
| "dmul (Fin x) NegInf = (if x = 0 then NaN else inf_sign (x < 0))"
| "dmul PosInf (Fin y) = (if y = 0 then NaN else inf_sign (0 < y))"
| "dmul NegInf (Fin y) = (if y = 0 then NaN else inf_sign (y < 0))"
| "dmul PosInf PosInf = PosInf"
| "dmul PosInf NegInf = NegInf"
| "dmul NegInf PosInf = NegInf"
| "dmul NegInf NegInf = PosInf"

text \<open>Every divisor of the code is a finite positive constant.\<close>

fun ddiv_const :: "dbl \<Rightarrow> rat \<Rightarrow> dbl" where
  "ddiv_const (Fin x) c = round_dbl (x / c)"
| "ddiv_const d c = d"

fun dgt :: "dbl \<Rightarrow> dbl \<Rightarrow> bool" where
  "dgt NaN b = False"
| "dgt a NaN = False"
| "dgt NegInf b = False"
| "dgt PosInf b = (b \<noteq> PosInf)"
| "dgt (Fin x) (Fin y) = (y < x)"
| "dgt (Fin x) PosInf = False"
| "dgt (Fin x) NegInf = True"

definition of_uint :: "nat \<Rightarrow> dbl" where
  "of_uint n = round_dbl (of_nat n)"

section \<open>The exponent\<close>

lemma nbits_bounds: "0 < n \<Longrightarrow> 2 ^ (nbits n - 1) \<le> n \<and> n < 2 ^ nbits n \<and> 0 < nbits n"
proof (induction n rule: nbits.induct)
  case (1 n)
  have s: "nbits n = Suc (nbits (n div 2))" using 1(2) by (simp add: nbits.simps [of n])
  show ?case
  proof (cases "n = 1")
    case True
    then show ?thesis by (simp add: nbits.simps)
  next
    case False
    then have "0 < n div 2" using 1(2) by linarith
    then have IH: "2 ^ (nbits (n div 2) - 1) \<le> n div 2" "n div 2 < 2 ^ nbits (n div 2)" "0 < nbits (n div 2)"
      using 1 by auto
    obtain k where k: "nbits (n div 2) = Suc k" using IH(3) by (cases "nbits (n div 2)") auto
    show ?thesis using IH unfolding s k by auto
  qed
qed

lemma expo_bounds:
  assumes "0 < q"
  shows "2 powi expo q \<le> q \<and> q < 2 powi (expo q + 1)"
proof (cases "1 \<le> q")
  case True
  define n where "n = nat \<lfloor>q\<rfloor>"
  have n: "0 < n" "of_nat n \<le> q" "q < of_nat n + 1"
    using True floor_correct [of q] by (auto simp: n_def le_floor_iff)
  obtain k where k: "nbits n = Suc k" using nbits_bounds [OF n(1)] by (cases "nbits n") auto
  have e: "expo q = int k" using True by (simp add: expo_def n_def [symmetric] k)
  have "2 ^ k \<le> n" "n + 1 \<le> 2 ^ Suc k" using nbits_bounds [OF n(1)] k by auto
  then have "(2::rat) ^ k \<le> of_nat n" "of_nat n + 1 \<le> (2::rat) ^ Suc k"
    by (metis of_nat_le_iff of_nat_numeral of_nat_power, metis of_nat_le_iff of_nat_numeral of_nat_power of_nat_Suc Suc_eq_plus1 add.commute)
  then have "2 ^ k \<le> q" "q < 2 ^ Suc k" using n by linarith+
  then show ?thesis by (simp add: e power_int_add)
next
  case False
  define n where "n = nat (\<lceil>1 / q\<rceil> - 1)"
  have r: "1 < 1 / q" using False assms by simp
  then have "2 \<le> \<lceil>1 / q\<rceil>" by linarith
  then have n: "0 < n" "of_nat n < 1 / q" "1 / q \<le> of_nat n + 1"
    unfolding n_def by linarith+
  obtain k where k: "nbits n = Suc k" using nbits_bounds [OF n(1)] by (cases "nbits n") auto
  have e: "expo q = - int (Suc k)" using False by (simp add: expo_def n_def [symmetric] k)
  have "2 ^ k \<le> n" "n + 1 \<le> 2 ^ Suc k" using nbits_bounds [OF n(1)] k by auto
  then have "(2::rat) ^ k \<le> of_nat n" "of_nat n + 1 \<le> (2::rat) ^ Suc k"
    by (metis of_nat_le_iff of_nat_numeral of_nat_power, metis of_nat_le_iff of_nat_numeral of_nat_power of_nat_Suc Suc_eq_plus1 add.commute)
  then have "2 ^ k < 1 / q" "1 / q \<le> 2 ^ Suc k" using n by linarith+
  moreover have "(2::rat) powi (- int (Suc k)) = 1 / 2 ^ Suc k"
    unfolding power_int_minus power_int_of_nat by (simp add: inverse_eq_divide)
  moreover have "(2::rat) powi (- int (Suc k) + 1) = 1 / 2 ^ k"
    using power_int_minus [of "2::rat" "int k"] by (simp add: inverse_eq_divide)
  ultimately show ?thesis
    unfolding e using assms by (simp only:) (simp add: field_simps)
qed

lemma pow2_mono: "i \<le> j \<Longrightarrow> (2::rat) powi i \<le> 2 powi j"
  by (rule power_int_increasing) simp_all

lemma pow2_pos [simp]: "0 < (2::rat) powi i"
  by (simp add: zero_less_power_int)

lemma pow2_not_neg [simp]: "\<not> (2::rat) powi i < 0"
  by (simp add: not_less less_imp_le)

lemma pow2_diff: "(2::rat) powi i / 2 powi j = 2 powi (i - j)"
  by (simp add: power_int_diff)

lemma pow2_of_int: "0 \<le> i \<Longrightarrow> (2::rat) powi i = of_int (2 ^ nat i)"
  by (simp add: power_int_def)

lemma expo_less: "0 < x \<Longrightarrow> x < 2 powi k \<Longrightarrow> expo x < k"
  using expo_bounds [of x] pow2_mono [of k "expo x"] by fastforce

lemma expo_ge: "2 powi k \<le> x \<Longrightarrow> k \<le> expo x"
  using expo_bounds [of x] pow2_mono [of "expo x + 1" k] pow2_pos [of k] by fastforce

lemma expo_mono: "0 < x \<Longrightarrow> x \<le> y \<Longrightarrow> expo x \<le> expo y"
  using expo_bounds [of x] by (intro expo_ge) auto

section \<open>Rounding is monotone and exact on the grid\<close>

lemma rne_int [simp]: "rne (of_int n) = n"
  by (simp add: rne_def)

lemma rne_cases: "rne q = \<lfloor>q\<rfloor> \<or> rne q = \<lfloor>q\<rfloor> + 1"
  by (simp add: rne_def Let_def)

lemma rne_mono: "x \<le> y \<Longrightarrow> rne x \<le> rne y"
proof (cases "\<lfloor>x\<rfloor> = \<lfloor>y\<rfloor>")
  case True
  assume "x \<le> y"
  with True show ?thesis by (simp add: rne_def Let_def)
next
  case False
  assume "x \<le> y"
  then have "\<lfloor>x\<rfloor> + 1 \<le> \<lfloor>y\<rfloor>" using False floor_mono [of x y] by linarith
  then show ?thesis using rne_cases [of x] rne_cases [of y] by auto
qed

lemma rne_le: "x \<le> of_int n \<Longrightarrow> rne x \<le> n"
  using rne_mono [of x "of_int n"] by simp

lemma rne_ge: "of_int n \<le> x \<Longrightarrow> n \<le> rne x"
  using rne_mono [of "of_int n" x] by simp

lemma fl_pos_nonneg: "0 \<le> q \<Longrightarrow> 0 \<le> fl_pos q"
  using rne_ge [of 0 "q / 2 powi ulp_exp q"] by (simp add: fl_pos_def)

lemma fl_pos_le:
  assumes "x \<le> 2 powi k" and "ulp_exp x \<le> k"
  shows "fl_pos x \<le> 2 powi k"
proof -
  have "x / 2 powi ulp_exp x \<le> 2 powi (k - ulp_exp x)"
    using assms(1) by (simp add: divide_right_mono flip: pow2_diff)
  also have "\<dots> = of_int (2 ^ nat (k - ulp_exp x))" using assms(2) by (simp add: pow2_of_int)
  finally have "rne (x / 2 powi ulp_exp x) \<le> 2 ^ nat (k - ulp_exp x)" by (rule rne_le)
  then have "of_int (rne (x / 2 powi ulp_exp x)) \<le> (2::rat) powi (k - ulp_exp x)"
    using assms(2) by (simp only: pow2_of_int diff_ge_0_iff_ge of_int_le_iff)
  then have "fl_pos x \<le> 2 powi (k - ulp_exp x) * 2 powi ulp_exp x"
    unfolding fl_pos_def by (intro mult_right_mono) auto
  then show ?thesis by (simp flip: power_int_add)
qed

lemma fl_pos_ge:
  assumes "2 powi k \<le> x" and "ulp_exp x \<le> k"
  shows "2 powi k \<le> fl_pos x"
proof -
  have "of_int (2 ^ nat (k - ulp_exp x)) = (2::rat) powi (k - ulp_exp x)"
    using assms(2) by (simp add: pow2_of_int)
  also have "\<dots> \<le> x / 2 powi ulp_exp x"
    using assms(1) by (simp add: divide_right_mono flip: pow2_diff)
  finally have "2 ^ nat (k - ulp_exp x) \<le> rne (x / 2 powi ulp_exp x)" by (rule rne_ge)
  then have "(2::rat) powi (k - ulp_exp x) \<le> of_int (rne (x / 2 powi ulp_exp x))"
    using assms(2) by (simp only: pow2_of_int diff_ge_0_iff_ge of_int_le_iff)
  then have "2 powi (k - ulp_exp x) * 2 powi ulp_exp x \<le> fl_pos x"
    unfolding fl_pos_def by (intro mult_right_mono) auto
  then show ?thesis by (simp flip: power_int_add)
qed

lemma fl_pos_mono:
  assumes "0 < x" and "x \<le> y"
  shows "fl_pos x \<le> fl_pos y"
proof (cases "ulp_exp x = ulp_exp y")
  case True
  then show ?thesis
    using assms(2) unfolding fl_pos_def True
    by (intro mult_right_mono) (simp_all add: rne_mono divide_right_mono)
next
  case False
  have "expo x \<le> expo y" using assms by (rule expo_mono)
  with False have *: "ulp_exp x \<le> expo y" "ulp_exp y \<le> expo y" "expo x + 1 \<le> expo y"
    by (auto simp: ulp_exp_def max_def split: if_splits)
  have "x \<le> 2 powi expo y"
    using expo_bounds [OF assms(1)] pow2_mono [OF *(3)] by linarith
  then have "fl_pos x \<le> 2 powi expo y" using *(1) by (rule fl_pos_le)
  also have "2 powi expo y \<le> fl_pos y"
    using expo_bounds [of y] assms *(2) by (intro fl_pos_ge) auto
  finally show ?thesis .
qed

text \<open>The finite values of binary64.\<close>

definition representable :: "rat \<Rightarrow> bool" where
  "representable q \<longleftrightarrow> (\<exists>m k. q = of_int m * 2 powi k \<and> \<bar>m\<bar> < 2 ^ 53 \<and> - 1074 \<le> k \<and> \<bar>q\<bar> < 2 ^ 1024)"

lemma fl_pos_exact:
  assumes "q = of_int m * 2 powi k" and "0 < m" and "m < 2 ^ 53" and "- 1074 \<le> k"
  shows "fl_pos q = q"
proof -
  have pos: "0 < q" using assms(1,2) by simp
  have "q < 2 ^ 53 * 2 powi k"
    unfolding assms(1) using assms(3)
    by (intro mult_strict_right_mono) (metis of_int_less_iff of_int_numeral of_int_power, simp)
  also have "\<dots> = 2 powi (53 + k)" by (simp add: power_int_add)
  finally have "expo q < 53 + k" by (rule expo_less [OF pos])
  then have le: "ulp_exp q \<le> k" using assms(4) by (simp add: ulp_exp_def)
  have "q / 2 powi ulp_exp q = of_int m * 2 powi (k - ulp_exp q)"
    by (simp add: assms(1) flip: pow2_diff)
  also have "\<dots> = of_int (m * 2 ^ nat (k - ulp_exp q))"
    using le by (simp add: pow2_of_int)
  finally have *: "q / 2 powi ulp_exp q = of_int (m * 2 ^ nat (k - ulp_exp q))" .
  have "fl_pos q = q / 2 powi ulp_exp q * 2 powi ulp_exp q"
    unfolding fl_pos_def by (simp only: * rne_int)
  then show ?thesis by simp
qed

lemma round_exact: "representable q \<Longrightarrow> round_dbl q = Fin q"
proof -
  assume "representable q"
  then obtain m k where q: "q = of_int m * 2 powi k" "\<bar>m\<bar> < 2 ^ 53" "- 1074 \<le> k" "\<bar>q\<bar> < 2 ^ 1024"
    by (auto simp: representable_def)
  consider "m = 0" | "0 < m" | "m < 0" by linarith
  then show ?thesis
  proof cases
    case 1
    then show ?thesis by (simp add: q round_dbl_def)
  next
    case 2
    then have "fl_pos q = q" "0 < q" using fl_pos_exact [of q m k] q by (auto simp: zero_less_mult_iff)
    then show ?thesis using q(4) by (simp add: round_dbl_def)
  next
    case 3
    then have "fl_pos (- q) = - q" "q < 0"
      using fl_pos_exact [of "- q" "- m" k] q by (auto simp: mult_less_0_iff)
    then show ?thesis using q(4) by (simp add: round_dbl_def Let_def)
  qed
qed

lemma round_nonneg: "0 \<le> x \<Longrightarrow> round_dbl x = PosInf \<or> (\<exists>y \<ge> 0. round_dbl x = Fin y)"
  using fl_pos_nonneg [of x] by (auto simp: round_dbl_def Let_def)

lemma round_nonpos: "x \<le> 0 \<Longrightarrow> round_dbl x = NegInf \<or> (\<exists>y \<le> 0. round_dbl x = Fin y)"
  using fl_pos_nonneg [of "- x"] by (auto simp: round_dbl_def Let_def)

lemma round_not_NaN [simp]: "round_dbl x \<noteq> NaN"
  by (simp add: round_dbl_def Let_def)

lemma round_mono: "x \<le> y \<Longrightarrow> \<not> dgt (round_dbl x) (round_dbl y)"
proof -
  assume le: "x \<le> y"
  consider "0 < x" | "y < 0" | "x \<le> 0" "0 \<le> y" by linarith
  then show ?thesis
  proof cases
    case 1
    then show ?thesis using le fl_pos_mono [OF 1 le] by (auto simp: round_dbl_def Let_def)
  next
    case 2
    then show ?thesis using le fl_pos_mono [of "- y" "- x"] by (auto simp: round_dbl_def Let_def)
  next
    case 3
    then show ?thesis using round_nonpos [of x] round_nonneg [of y] by auto
  qed
qed

section \<open>The order of the doubles\<close>

text \<open>The comparison \<open>>\<close> of the code, on which each search for a maximum runs.\<close>

lemma dgt_asym: "dgt a b \<Longrightarrow> \<not> dgt b a"
  by (cases a; cases b) auto

lemma dgt_trans_le: "dgt a b \<Longrightarrow> \<not> dgt c b \<Longrightarrow> \<not> dgt c a"
  by (cases a; cases b; cases c) auto

definition dle :: "dbl \<Rightarrow> dbl \<Rightarrow> bool" where
  "dle a b \<longleftrightarrow> a \<noteq> NaN \<and> b \<noteq> NaN \<and> \<not> dgt a b"

lemma dle_trans: "dle a b \<Longrightarrow> dle b c \<Longrightarrow> dle a c"
  by (cases a; cases b; cases c) (auto simp: dle_def)

lemma dle_simps [simp]:
  "dle (Fin x) (Fin y) \<longleftrightarrow> x \<le> y" "dle (Fin x) PosInf" "dle PosInf PosInf" "\<not> dle PosInf (Fin x)"
  "\<not> dle (Fin x) NegInf" "\<not> dle PosInf NegInf" "\<not> dle NaN b" "\<not> dle a NaN"
  by (auto simp: dle_def)

lemma dle_round: "x \<le> y \<Longrightarrow> dle (round_dbl x) (round_dbl y)"
  by (simp add: dle_def round_mono)

lemma dle_PosInf: "a \<noteq> NaN \<Longrightarrow> dle a PosInf"
  by (cases a) (auto simp: dle_def)

text \<open>The product of non-negative weights is monotone in both factors.\<close>

lemma dmul_mono:
  assumes "dle (Fin 0) a" and "dle a a'" and "0 < c" and "c \<le> c'"
  shows "dle (dmul a (Fin c)) (dmul a' (Fin c'))"
proof (cases a)
  case (Fin x)
  with assms have x: "0 \<le> x" by simp
  show ?thesis
  proof (cases a')
    case (Fin x')
    with \<open>a = Fin x\<close> assms x show ?thesis by (simp add: dle_round mult_mono)
  qed (use assms Fin in \<open>auto simp: inf_sign_def intro: dle_PosInf\<close>)
next
  case PosInf
  with assms have "a' = PosInf" by (cases a') auto
  with PosInf assms show ?thesis by (simp add: inf_sign_def)
qed (use assms in auto)

lemma dmul_nonneg: "dle (Fin 0) a \<Longrightarrow> 0 < c \<Longrightarrow> dle (Fin 0) (dmul a (Fin c))"
proof (cases a)
  case (Fin x)
  assume "dle (Fin 0) a" "0 < c"
  with Fin have "0 \<le> x * c" by simp
  then have "dle (Fin 0) (round_dbl (x * c))"
    using round_nonneg [of "x * c"] by auto
  with Fin show ?thesis by simp
qed (auto simp: inf_sign_def)

section \<open>The scan for a maximum\<close>

text \<open>
  Several loops of the code look for the entry of greatest weight with the same body: a running
  maximum that starts at 0 and moves only on a strictly greater weight, so that the first of the
  heaviest entries wins and an entry of weight 0 never does. The locale states what these loops
  rely on of the comparison, the scan is proved once in it.
\<close>

fun scan_best :: "('w \<Rightarrow> 'w \<Rightarrow> bool) \<Rightarrow> ('a \<times> 'w) list \<Rightarrow> 'a option \<times> 'w \<Rightarrow> 'a option \<times> 'w" where
  "scan_best gt [] best = best"
| "scan_best gt ((a, w) # xs) (b, m) = scan_best gt xs (if gt w m then (Some a, w) else (b, m))"

locale running_max =
  fixes gt :: "'w \<Rightarrow> 'w \<Rightarrow> bool"
  assumes gt_asym: "gt a b \<Longrightarrow> \<not> gt b a"
    and gt_le: "gt a b \<Longrightarrow> \<not> gt c b \<Longrightarrow> \<not> gt c a"
begin

lemma gt_irrefl: "\<not> gt a a"
  using gt_asym by blast

lemma gt_trans: "gt a b \<Longrightarrow> gt b c \<Longrightarrow> gt a c"
  using gt_asym gt_le by blast

lemma scan_best_none:
  "(\<forall>(a, w) \<in> set xs. \<not> gt w m) \<Longrightarrow> scan_best gt xs (b, m) = (b, m)"
  by (induction xs arbitrary: b m) auto

text \<open>
  What the scan returns: the start when nothing beats it, otherwise the first entry that carries
  the greatest weight, which beats the start.
\<close>

lemma scan_best_cases:
  "scan_best gt xs (b, m) = (c, n) \<Longrightarrow>
    (\<forall>(a, w) \<in> set xs. \<not> gt w n) \<and>
    (c = b \<and> n = m \<or>
     gt n m \<and> (\<exists>ys a zs. xs = ys @ (a, n) # zs \<and> c = Some a \<and> (\<forall>(y, w) \<in> set ys. w \<noteq> n)))"
proof (induction xs arbitrary: b m)
  case Nil
  then show ?case by simp
next
  case (Cons x xs)
  obtain a w where x: "x = (a, w)" by (cases x)
  show ?case
  proof (cases "gt w m")
    case True
    then have scan: "scan_best gt xs (Some a, w) = (c, n)" using Cons.prems x by simp
    note IH = Cons.IH [OF scan]
    from IH consider (same) "c = Some a" "n = w"
      | (later) ys a' zs where "gt n w" "xs = ys @ (a', n) # zs" "c = Some a'" "\<forall>(y, w) \<in> set ys. w \<noteq> n"
      by auto
    then show ?thesis
    proof cases
      case same
      have "x # xs = [] @ (a, n) # xs" by (simp add: x same)
      then show ?thesis using True IH same x by (fastforce simp: gt_irrefl)
    next
      case later
      have "x # xs = (x # ys) @ (a', n) # zs" by (simp add: later)
      moreover have "w \<noteq> n" using later(1) gt_irrefl by auto
      then have "\<forall>(y, w) \<in> set (x # ys). w \<noteq> n" using later(4) x by auto
      moreover have "gt n m" using later(1) True gt_trans by blast
      moreover have "\<not> gt w n" using later(1) gt_asym by blast
      ultimately show ?thesis using IH later(3) x
        by (intro conjI disjI2 exI [of _ "x # ys"] exI [of _ a'] exI [of _ zs]) auto
    qed
  next
    case False
    then have scan: "scan_best gt xs (b, m) = (c, n)" using Cons.prems x by simp
    note IH = Cons.IH [OF scan]
    from IH consider (same) "c = b" "n = m"
      | (later) ys a' zs where "gt n m" "xs = ys @ (a', n) # zs" "c = Some a'" "\<forall>(y, w) \<in> set ys. w \<noteq> n"
      by auto
    then show ?thesis
    proof cases
      case same
      then show ?thesis using False IH x by auto
    next
      case later
      have "x # xs = (x # ys) @ (a', n) # zs" by (simp add: later)
      moreover have "w \<noteq> n" using later(1) False by auto
      then have "\<forall>(y, w) \<in> set (x # ys). w \<noteq> n" using later(4) x by auto
      moreover have "\<not> gt w n" using later(1) False gt_le by blast
      ultimately show ?thesis using IH later(1,3) x
        by (intro conjI disjI2 exI [of _ "x # ys"] exI [of _ a'] exI [of _ zs]) auto
    qed
  qed
qed

end

interpretation dbl_max: running_max dgt
  by unfold_locales (auto dest: dgt_asym dgt_trans_le)

section \<open>The bit pattern of a double\<close>

text \<open>
  The sign bit, 11 exponent bits and 52 fraction bits of binary64. The integer significand
  \<open>q / 2 powi ulp_exp q\<close> of a normal number contains its leading bit, which adds one to the
  exponent field.
\<close>

definition bits_pos :: "rat \<Rightarrow> nat" where
  "bits_pos q = (if q = 0 then 0
     else nat (ulp_exp q + 1074) * 2 ^ 52 + nat \<lfloor>q / 2 powi ulp_exp q\<rfloor>)"

fun bits :: "dbl \<Rightarrow> 64 word" where
  "bits (Fin q) = (if q < 0 then word_of_nat (2 ^ 63 + bits_pos (- q)) else word_of_nat (bits_pos q))"
| "bits PosInf = word_of_nat (2047 * 2 ^ 52)"
| "bits NegInf = word_of_nat (2 ^ 63 + 2047 * 2 ^ 52)"
| "bits NaN = word_of_nat (2047 * 2 ^ 52 + 2 ^ 51)"

unbundle bit_operations_syntax

definition kSignBitMask :: "64 word" where
  "kSignBitMask = push_bit 63 1"

definition kFractionBitMask :: "64 word" where
  "kFractionBitMask = drop_bit 12 (NOT 0)"

definition kExponentBitMask :: "64 word" where
  "kExponentBitMask = NOT (kSignBitMask OR kFractionBitMask)"

definition exponent_bits :: "64 word \<Rightarrow> 64 word" where
  "exponent_bits w = kExponentBitMask AND w"

definition fraction_bits :: "64 word \<Rightarrow> 64 word" where
  "fraction_bits w = kFractionBitMask AND w"

definition SignAndMagnitudeToBiased :: "64 word \<Rightarrow> 64 word" where
  "SignAndMagnitudeToBiased sam =
     (if kSignBitMask AND sam \<noteq> 0 then NOT sam + 1 else kSignBitMask OR sam)"

definition is_nan :: "64 word \<Rightarrow> bool" where
  "is_nan w \<longleftrightarrow> exponent_bits w = kExponentBitMask \<and> fraction_bits w \<noteq> 0"

definition DistanceBetweenSignAndMagnitudeNumbers :: "64 word \<Rightarrow> 64 word \<Rightarrow> 64 word" where
  "DistanceBetweenSignAndMagnitudeNumbers sam1 sam2 =
     (let biased1 = SignAndMagnitudeToBiased sam1; biased2 = SignAndMagnitudeToBiased sam2
      in if biased1 \<ge> biased2 then biased1 - biased2 else biased2 - biased1)"

definition kMaxUlps :: "64 word" where
  "kMaxUlps = 4"

definition AlmostEquals :: "dbl \<Rightarrow> dbl \<Rightarrow> bool" where
  "AlmostEquals x rhs =
     (if is_nan (bits x) \<or> is_nan (bits rhs) then False
      else DistanceBetweenSignAndMagnitudeNumbers (bits x) (bits rhs) \<le> kMaxUlps)"

section \<open>The constants of the code\<close>

definition dbl_val :: "dbl \<Rightarrow> rat" where
  "dbl_val d = (case d of Fin q \<Rightarrow> q | _ \<Rightarrow> 0)"

definition K_DEFAULT_XAPIAN_MATCHING_SET_SIZE :: nat where
  "K_DEFAULT_XAPIAN_MATCHING_SET_SIZE = 30"

definition K_DEFAULT_INDEXING_STD_WEIGHT :: nat where
  "K_DEFAULT_INDEXING_STD_WEIGHT = 1"

definition K_DEFAULT_INDEXING_EXTRA_WEIGHT :: nat where
  "K_DEFAULT_INDEXING_EXTRA_WEIGHT = 2"

definition K_DEFAULT_MODIFIED_MATCHING_PCT :: dbl where
  "K_DEFAULT_MODIFIED_MATCHING_PCT = Fin 100"

definition K_DEFAULT_PAGE_RANK :: dbl where
  "K_DEFAULT_PAGE_RANK = round_dbl (1 / 10)"

definition K_DEFAULT_ENVELOPE_PCT :: dbl where
  "K_DEFAULT_ENVELOPE_PCT = K_DEFAULT_PAGE_RANK"

definition K_DEFAULT_FULL_CODE_MATCH_PCT :: dbl where
  "K_DEFAULT_FULL_CODE_MATCH_PCT = ddiv_const (Fin 11000) (dbl_val K_DEFAULT_PAGE_RANK)"

definition K_DEFAULT_ATTENUATION_FCTR :: dbl where
  "K_DEFAULT_ATTENUATION_FCTR = Fin 850"

definition K_DEFAULT_SIZE_FOR_SPELLING_ERROR_UNIT :: nat where
  "K_DEFAULT_SIZE_FOR_SPELLING_ERROR_UNIT = 4"

section \<open>Evaluating rounded constants\<close>

lemma expo_eqI: "2 powi e \<le> q \<Longrightarrow> q < 2 powi (e + 1) \<Longrightarrow> expo q = e"
proof -
  assume "2 powi e \<le> q" and "q < 2 powi (e + 1)"
  moreover from this have "0 < q" using pow2_pos [of e] by linarith
  ultimately show ?thesis using expo_less [of q "e + 1"] expo_ge [of e q] by simp
qed

lemma rne_nearest: "\<bar>x - of_int m\<bar> < 1 / 2 \<Longrightarrow> rne x = m"
proof -
  assume a: "\<bar>x - of_int m\<bar> < 1 / 2"
  then have "\<lfloor>x\<rfloor> = m \<or> \<lfloor>x\<rfloor> = m - 1" by linarith
  with a show ?thesis by (auto simp: rne_def Let_def)
qed

lemma round_dblI:
  assumes "2 powi e \<le> q" and "q < 2 powi (e + 1)" and "- 1022 \<le> e" and "e < 1023"
    and near: "\<bar>q * 2 powi (52 - e) - of_int m\<bar> < 1 / 2"
  shows "round_dbl q = Fin (of_int m * 2 powi (e - 52))"
proof -
  have pos: "0 < q" using assms(1) pow2_pos [of e] by linarith
  have ex: "expo q = e" using assms(1,2) by (rule expo_eqI)
  then have u: "ulp_exp q = e - 52" using assms(3) by (simp add: ulp_exp_def)
  have "q / 2 powi (e - 52) = q * 2 powi (52 - e)"
    by (simp add: divide_inverse flip: power_int_minus)
  then have f: "fl_pos q = of_int m * 2 powi (e - 52)"
    by (simp add: fl_pos_def u rne_nearest [OF near])
  have "q \<le> 2 powi (e + 1)" using assms(2) by simp
  then have "fl_pos q \<le> 2 powi (e + 1)" by (rule fl_pos_le) (simp add: u)
  also have "\<dots> \<le> 2 powi 1023" using assms(4) by (intro pow2_mono) simp
  also have "\<dots> < (2::rat) ^ 1024" by simp
  finally show ?thesis using pos f by (simp add: round_dbl_def Let_def)
qed

lemma representable_of_int: "\<bar>m\<bar> < 2 ^ 53 \<Longrightarrow> representable (of_int m)"
proof -
  assume m: "\<bar>m\<bar> < 2 ^ 53"
  then have "\<bar>of_int m\<bar> < (2::rat) ^ 53" by (metis of_int_abs of_int_less_iff of_int_numeral of_int_power)
  also have "\<dots> < 2 ^ 1024" by simp
  finally show ?thesis
    unfolding representable_def using m by - (rule exI [of _ m], rule exI [of _ 0], simp)
qed

lemma round_of_int: "\<bar>m\<bar> < 2 ^ 53 \<Longrightarrow> round_dbl (of_int m) = Fin (of_int m)"
  by (intro round_exact representable_of_int)

lemma round_zero [simp]: "round_dbl 0 = Fin 0"
  by (simp add: round_dbl_def)

lemma round_one [simp]: "round_dbl 1 = Fin 1"
  using round_of_int [of 1] by simp

lemma round_numeral [simp]: "numeral n < (2::int) ^ 53 \<Longrightarrow> round_dbl (numeral n) = Fin (numeral n)"
  using round_of_int [of "numeral n"] by simp

lemma page_rank_value: "K_DEFAULT_PAGE_RANK = Fin (3602879701896397 / 36028797018963968)"
  unfolding K_DEFAULT_PAGE_RANK_def
  by (subst round_dblI [where e="- 4" and m=7205759403792794]) (simp_all add: power_int_def power_divide)

lemma full_code_match_value: "K_DEFAULT_FULL_CODE_MATCH_PCT = Fin 110000"
  unfolding K_DEFAULT_FULL_CODE_MATCH_PCT_def page_rank_value dbl_val_def
  by (simp, subst round_dblI [where e=16 and m="110000 * 2 ^ 36"]) (simp_all add: power_int_def power_divide)

section \<open>The comparison of doubles by their bit patterns\<close>

text \<open>The sign-and-magnitude integer of a bit pattern.\<close>

definition sm :: "64 word \<Rightarrow> int" where
  "sm w = (if uint w < 2 ^ 63 then uint w else 2 ^ 63 - uint w)"

lemma uint64_bounds: "0 \<le> uint w" "uint (w::64 word) < 2 ^ 64"
  using unsigned_less [of w, where 'a=int] by simp_all

lemma sign_mask_AND: "kSignBitMask AND w \<noteq> 0 \<longleftrightarrow> 2 ^ 63 \<le> uint w"
proof -
  have "kSignBitMask AND w \<noteq> 0 \<longleftrightarrow> bit w 63"
    unfolding kSignBitMask_def bit_iff_and_push_bit_not_eq_0 by (simp only: and.commute)
  also have "\<dots> \<longleftrightarrow> odd (uint w div 2 ^ 63)"
    using bit_unsigned_iff [of w 63, where 'a=int] by (simp add: bit_iff_odd)
  also have "\<dots> \<longleftrightarrow> 2 ^ 63 \<le> uint w"
  proof (cases "2 ^ 63 \<le> uint w")
    case True
    then have "uint w div 2 ^ 63 = 1"
      using uint64_bounds [of w] by (intro int_div_pos_eq [of _ _ _ "uint w - 2 ^ 63"]) auto
    with True show ?thesis by simp
  next
    case False
    then have "uint w div 2 ^ 63 = 0" using uint64_bounds [of w] by (simp add: div_pos_pos_trivial)
    with False show ?thesis by simp
  qed
  finally show ?thesis .
qed

lemma sm_bounds: "- (2 ^ 63) < sm w" "sm w < 2 ^ 63"
  using uint64_bounds [of w] by (auto simp: sm_def intro: less_le_trans [of _ 0])

lemma uint_biased: "uint (SignAndMagnitudeToBiased w) = sm w + 2 ^ 63"
proof (cases "2 ^ 63 \<le> uint w")
  case True
  have "uint (- w) = - uint w mod 2 ^ 64" by (simp add: uint_word_ariths)
  also have "\<dots> = 2 ^ 64 - uint w"
    using True uint64_bounds [of w] by (intro int_mod_pos_eq [of _ _ "- 1"]) auto
  finally have "uint (NOT w + 1) = 2 ^ 64 - uint w" by (simp add: minus_eq_not_plus_1)
  then show ?thesis
    using True sign_mask_AND [of w] by (simp add: SignAndMagnitudeToBiased_def sm_def)
next
  case False
  then have z: "kSignBitMask AND w = 0" using sign_mask_AND [of w] by blast
  then have "kSignBitMask OR w = kSignBitMask + w" using word_plus_and_or [of kSignBitMask w] by simp
  moreover have "uint (kSignBitMask + w) = 2 ^ 63 + uint w"
    using False by (subst uint_plus_if') (simp add: kSignBitMask_def)
  ultimately show ?thesis
    using False z by (simp add: SignAndMagnitudeToBiased_def sm_def)
qed

lemma distance_sm:
  "uint (DistanceBetweenSignAndMagnitudeNumbers v w) = \<bar>sm v - sm w\<bar>"
  by (simp add: DistanceBetweenSignAndMagnitudeNumbers_def Let_def word_le_def uint_sub_if' uint_biased)

text \<open>On representable values the bit patterns are in the order of the values.\<close>

lemma significand:
  assumes "representable q" and "0 < q"
  obtains M where "q / 2 powi ulp_exp q = of_int M" "0 < M" "M < 2 ^ 53"
    "- 1074 < ulp_exp q \<Longrightarrow> 2 ^ 52 \<le> M"
proof -
  from assms(1) obtain m k where q: "q = of_int m * 2 powi k" "\<bar>m\<bar> < 2 ^ 53" "- 1074 \<le> k"
    by (auto simp: representable_def)
  have m: "0 < m" using assms(2) by (simp add: q zero_less_mult_iff)
  have "fl_pos q = q" using q m by (intro fl_pos_exact) auto
  define M where "M = rne (q / 2 powi ulp_exp q)"
  have M: "q / 2 powi ulp_exp q = of_int M"
    using \<open>fl_pos q = q\<close> by (simp add: fl_pos_def M_def field_simps)
  have pos: "(0::rat) < of_int M" using assms(2) by (simp add: zero_less_divide_iff flip: M)
  have "q < 2 powi (expo q + 1)" using expo_bounds [OF assms(2)] by blast
  also have "\<dots> \<le> 2 powi (ulp_exp q + 53)" by (intro pow2_mono) (simp add: ulp_exp_def)
  finally have "q / 2 powi ulp_exp q < 2 ^ 53" by (simp add: power_int_add field_simps)
  then have "of_int M < (of_int (2 ^ 53) :: rat)" by (simp add: M)
  then have lt: "M < 2 ^ 53" by (simp only: of_int_less_iff)
  have ge: "2 ^ 52 \<le> M" if "- 1074 < ulp_exp q"
  proof -
    from that have e: "expo q = ulp_exp q + 52" by (auto simp: ulp_exp_def max_def split: if_splits)
    have "2 powi (ulp_exp q + 52) \<le> q" using expo_bounds [OF assms(2)] by (simp add: e)
    then have "2 ^ 52 \<le> q / 2 powi ulp_exp q" by (simp add: power_int_add field_simps)
    then have "of_int (2 ^ 52) \<le> (of_int M :: rat)" by (simp add: M)
    then show ?thesis by (simp only: of_int_le_iff)
  qed
  show thesis using that [OF M _ lt ge] pos by simp
qed

lemma ulp_exp_bounds: "representable q \<Longrightarrow> 0 < q \<Longrightarrow> - 1074 \<le> ulp_exp q \<and> ulp_exp q \<le> 971"
proof -
  assume "representable q" "0 < q"
  then have "q < 2 powi 1024" by (auto simp: representable_def power_int_def)
  then have "expo q < 1024" using \<open>0 < q\<close> by (intro expo_less)
  then show ?thesis by (simp add: ulp_exp_def)
qed

lemma bits_pos_less:
  assumes "representable x" and "representable y" and "0 \<le> x" and "x < y"
  shows "bits_pos x < bits_pos y"
proof -
  obtain N where N: "y / 2 powi ulp_exp y = of_int N" "0 < N" "N < 2 ^ 53"
      "- 1074 < ulp_exp y \<Longrightarrow> 2 ^ 52 \<le> N"
    using significand [OF assms(2)] assms(3,4) by (metis order_le_less_trans)
  show ?thesis
  proof (cases "x = 0")
    case True
    with assms(4) N show ?thesis by (simp add: bits_pos_def)
  next
    case False
    with assms(3) have pos: "0 < x" by simp
    obtain M where M: "x / 2 powi ulp_exp x = of_int M" "0 < M" "M < 2 ^ 53"
      using significand [OF assms(1) pos] by metis
    have u: "ulp_exp x \<le> ulp_exp y" "- 1074 \<le> ulp_exp x"
      using expo_mono [OF pos, of y] assms(4) by (auto simp: ulp_exp_def)
    show ?thesis
    proof (cases "ulp_exp x = ulp_exp y")
      case True
      have "x / 2 powi ulp_exp x < y / 2 powi ulp_exp x"
        using assms(4) by (simp add: divide_strict_right_mono)
      then have "M < N" using M N True by simp
      then show ?thesis using False assms(4) pos M N True by (simp add: bits_pos_def)
    next
      case False
      with u have "nat (ulp_exp x + 1074) + 1 \<le> nat (ulp_exp y + 1074)" "2 ^ 52 \<le> N"
        using N(4) by auto
      moreover have "nat M < 2 ^ 53" "2 ^ 52 \<le> nat N" using M(3) calculation(2) by auto
      ultimately show ?thesis using pos assms(4) M(1) N(1) by (simp add: bits_pos_def)
    qed
  qed
qed

lemma bits_pos_bound:
  assumes "representable q" and "0 \<le> q"
  shows "bits_pos q < 2047 * 2 ^ 52"
proof (cases "q = 0")
  case False
  with assms have pos: "0 < q" by simp
  obtain M where M: "q / 2 powi ulp_exp q = of_int M" "0 < M" "M < 2 ^ 53"
    using significand [OF assms(1) pos] by metis
  have "nat (ulp_exp q + 1074) \<le> 2045" using ulp_exp_bounds [OF assms(1) pos] by auto
  moreover have "nat M < 2 ^ 53" using M(3) by auto
  ultimately show ?thesis using pos M by (simp add: bits_pos_def)
qed (simp add: bits_pos_def)

fun valid_dbl :: "dbl \<Rightarrow> bool" where
  "valid_dbl (Fin q) = representable q"
| "valid_dbl d = True"

lemma representable_minus [simp]: "representable (- q) = representable q"
proof -
  have "representable (- q)" if "representable q" for q
  proof -
    from that obtain m k where
      "q = of_int m * 2 powi k \<and> \<bar>m\<bar> < 2 ^ 53 \<and> - 1074 \<le> k \<and> \<bar>q\<bar> < 2 ^ 1024"
      unfolding representable_def by blast
    then show ?thesis
      unfolding representable_def by - (rule exI [of _ "- m"], rule exI [of _ k], auto)
  qed
  from this [of q] this [of "- q"] show ?thesis by auto
qed

lemma uint_of_nat64: "n < 2 ^ 64 \<Longrightarrow> uint (word_of_nat n :: 64 word) = int n"
  by (simp add: unsigned_of_nat take_bit_nat_eq_self)

lemma sm_of_nat:
  assumes "n < 2 ^ 63"
  shows "sm (word_of_nat n) = int n" "sm (word_of_nat (2 ^ 63 + n)) = - int n"
proof -
  have "uint (word_of_nat n :: 64 word) = int n" using assms by (intro uint_of_nat64) simp
  with assms show "sm (word_of_nat n) = int n" by (simp add: sm_def)
  have "uint (word_of_nat (2 ^ 63 + n) :: 64 word) = int (2 ^ 63 + n)"
    using assms by (intro uint_of_nat64) simp
  then have "uint (word_of_nat (2 ^ 63 + n) :: 64 word) = 2 ^ 63 + int n" by simp
  then show "sm (word_of_nat (2 ^ 63 + n)) = - int n" unfolding sm_def by simp
qed

lemma sm_bits:
  assumes "valid_dbl d"
  shows "sm (bits d) = (case d of
      Fin q \<Rightarrow> (if q < 0 then - int (bits_pos (- q)) else int (bits_pos q))
    | PosInf \<Rightarrow> 2047 * 2 ^ 52 | NegInf \<Rightarrow> - (2047 * 2 ^ 52) | NaN \<Rightarrow> 2047 * 2 ^ 52 + 2 ^ 51)"
proof (cases d)
  case (Fin q)
  with assms have "bits_pos \<bar>q\<bar> < 2047 * 2 ^ 52" by (intro bits_pos_bound) (auto simp: abs_if)
  then have "bits_pos \<bar>q\<bar> < 2 ^ 63" by simp
  from sm_of_nat [OF this] show ?thesis using Fin by (cases "q < 0") (simp_all del: of_nat_add)
qed (simp_all add: sm_def)

lemma sm_bits_less:
  assumes gt: "dgt a b" and v: "valid_dbl a" "valid_dbl b"
  shows "sm (bits b) < sm (bits a)"
proof (cases a; cases b)
  fix x y assume ab: "a = Fin x" "b = Fin y"
  consider "0 \<le> y" | "y < 0" "0 \<le> x" | "x < 0" by linarith
  then show ?thesis
  proof cases
    case 1
    then show ?thesis
      using bits_pos_less [of y x] gt v ab by (simp add: sm_bits del: bits.simps)
  next
    case 2
    obtain M where "- y / 2 powi ulp_exp (- y) = of_int M" "0 < M"
      using significand [of "- y"] 2 v ab by auto
    with 2 have "0 < bits_pos (- y)" by (simp add: bits_pos_def)
    with 2 show ?thesis using v ab by (simp add: sm_bits del: bits.simps)
  next
    case 3
    then show ?thesis
      using bits_pos_less [of "- x" "- y"] gt v ab by (simp add: sm_bits del: bits.simps)
  qed
next
  fix x assume ab: "a = Fin x" "b = NegInf"
  then show ?thesis
    using v bits_pos_bound [of "- x"] by (simp add: sm_bits del: bits.simps)
next
  fix y assume ab: "a = PosInf" "b = Fin y"
  then show ?thesis
    using v bits_pos_bound [of y] by (simp add: sm_bits del: bits.simps)
qed (use gt v in \<open>simp_all add: sm_bits del: bits.simps\<close>)

lemma dgt_sm:
  assumes "valid_dbl a" and "valid_dbl b" and "a \<noteq> NaN" and "b \<noteq> NaN"
  shows "dgt a b \<longleftrightarrow> sm (bits b) < sm (bits a)"
proof -
  have "a = b \<or> dgt a b \<or> dgt b a" using assms by (cases a; cases b) auto
  then show ?thesis
    using sm_bits_less [of a b] sm_bits_less [of b a] assms by (auto dest: dgt_asym)
qed

lemma kExponentBitMask_eq: "kExponentBitMask = push_bit 52 (mask 11)"
  by (simp add: kExponentBitMask_def kSignBitMask_def kFractionBitMask_def mask_eq_exp_minus_1)

lemma exponent_bits_full:
  "exponent_bits w = kExponentBitMask \<longleftrightarrow> take_bit 11 (drop_bit 52 w) = mask 11"
proof -
  have "exponent_bits w = push_bit 52 (take_bit 11 (drop_bit 52 w))"
    unfolding exponent_bits_def kExponentBitMask_eq
    by (rule bit_eqI) (auto simp only: bit_and_iff bit_push_bit_iff bit_take_bit_iff bit_drop_bit_eq
      bit_mask_iff comp_def le_add_diff_inverse possible_bit_word)
  moreover have "x = mask 11" if "push_bit 52 x = push_bit 52 (mask 11 :: 64 word)" "take_bit 11 x = x" for x
  proof (rule bit_eqI)
    fix n
    assume "possible_bit TYPE(64 word) n"
    have "bit (push_bit 52 x) (52 + n) = bit (push_bit 52 (mask 11 :: 64 word)) (52 + n)"
      using that(1) by simp
    moreover have "bit x n \<Longrightarrow> n < 11" using that(2) by (metis bit_take_bit_iff)
    ultimately show "bit x n = bit (mask 11 :: 64 word) n"
      by (cases "n < 11") (auto simp only: bit_push_bit_iff bit_mask_iff word_size, simp_all)
  qed
  ultimately show ?thesis
    unfolding kExponentBitMask_eq by (metis take_bit_take_bit min.idem)
qed

lemma is_nan_iff: "is_nan w \<longleftrightarrow> 2047 * 2 ^ 52 < uint w mod 2 ^ 63"
proof -
  have "fraction_bits w = take_bit 52 w"
    by (simp add: fraction_bits_def kFractionBitMask_def take_bit_eq_mask mask_eq_decr_exp and.commute)
  then have f: "uint (fraction_bits w) = uint w mod 2 ^ 52"
    by (simp add: unsigned_take_bit_eq take_bit_eq_mod uint_mod)
  then have f0: "fraction_bits w \<noteq> 0 \<longleftrightarrow> uint w mod 2 ^ 52 \<noteq> 0"
    by (metis uint_0_iff)
  have "uint (take_bit 11 (drop_bit 52 w)) = uint w div 2 ^ 52 mod 2 ^ 11"
    by (simp add: unsigned_take_bit_eq unsigned_drop_bit_eq take_bit_eq_mod drop_bit_eq_div uint_mod uint_div)
  moreover have "uint (mask 11 :: 64 word) = 2047" by (simp add: mask_eq_exp_minus_1)
  ultimately have e: "exponent_bits w = kExponentBitMask \<longleftrightarrow> uint w div 2 ^ 52 mod 2 ^ 11 = 2047"
    unfolding exponent_bits_full by (metis word_uint_eq_iff)
  have "uint w mod (2 ^ 52 * 2 ^ 11) = 2 ^ 52 * (uint w div 2 ^ 52 mod 2 ^ 11) + uint w mod 2 ^ 52"
    by (rule zmod_zmult2_eq) simp
  then have split: "uint w mod 2 ^ 63 = 2 ^ 52 * (uint w div 2 ^ 52 mod 2 ^ 11) + uint w mod 2 ^ 52"
    by simp
  have "0 \<le> uint w mod 2 ^ 52" "uint w mod 2 ^ 52 < 2 ^ 52" "uint w div 2 ^ 52 mod 2 ^ 11 < 2 ^ 11"
    by (intro pos_mod_sign pos_mod_bound; simp)+
  then show ?thesis unfolding is_nan_def e f0 split by auto
qed

lemma is_nan_sm: "is_nan w \<longleftrightarrow> 2047 * 2 ^ 52 < \<bar>sm w\<bar>"
proof -
  have "uint w mod 2 ^ 63 = \<bar>sm w\<bar> \<or> sm w = 0 \<and> uint w = 2 ^ 63"
  proof (cases "uint w < 2 ^ 63")
    case False
    then have "uint w mod 2 ^ 63 = uint w - 2 ^ 63"
      using uint64_bounds [of w] by (intro int_mod_pos_eq [of _ _ 1]) auto
    with False show ?thesis by (simp add: sm_def)
  qed (simp add: sm_def)
  then show ?thesis unfolding is_nan_iff by auto
qed

lemma is_nan_bits: "valid_dbl d \<Longrightarrow> is_nan (bits d) \<longleftrightarrow> d = NaN"
proof (cases d)
  case (Fin q)
  assume "valid_dbl d"
  then show ?thesis
    unfolding is_nan_sm using Fin bits_pos_bound [of q] bits_pos_bound [of "- q"]
    by (cases "q < 0") (simp_all add: sm_bits del: bits.simps)
qed (simp_all only: is_nan_sm sm_bits valid_dbl.simps, simp_all)

lemma AlmostEquals_sm:
  assumes "valid_dbl a" and "valid_dbl b"
  shows "AlmostEquals a b \<longleftrightarrow> a \<noteq> NaN \<and> b \<noteq> NaN \<and> \<bar>sm (bits a) - sm (bits b)\<bar> \<le> 4"
  using assms
  by (simp add: AlmostEquals_def is_nan_bits word_le_def distance_sm kMaxUlps_def del: bits.simps)

lemma representable_fl_pos:
  assumes "0 < q" and "fl_pos q < 2 ^ 1024"
  shows "representable (fl_pos q)"
proof -
  define m where "m = rne (q / 2 powi ulp_exp q)"
  have fl: "fl_pos q = of_int m * 2 powi ulp_exp q" by (simp add: fl_pos_def m_def)
  have u: "- 1074 \<le> ulp_exp q" by (simp add: ulp_exp_def)
  have "q < 2 powi (expo q + 1)" using expo_bounds [OF assms(1)] by blast
  also have "\<dots> \<le> 2 powi (ulp_exp q + 53)" by (intro pow2_mono) (simp add: ulp_exp_def)
  finally have "q / 2 powi ulp_exp q \<le> of_int (2 ^ 53)" by (simp add: power_int_add field_simps)
  then have "m \<le> 2 ^ 53" unfolding m_def by (rule rne_le)
  moreover have "0 \<le> m" unfolding m_def using assms(1) by (intro rne_ge) simp
  ultimately consider "\<bar>m\<bar> < 2 ^ 53" | "m = 2 ^ 53" by linarith
  then show ?thesis
  proof cases
    case 1
    then show ?thesis
      unfolding representable_def using fl u assms fl_pos_nonneg [of q] by fastforce
  next
    case 2
    then have "fl_pos q = of_int 1 * 2 powi (ulp_exp q + 53)" by (simp add: fl power_int_add)
    moreover have "\<bar>fl_pos q\<bar> < 2 ^ 1024" using assms fl_pos_nonneg [of q] by linarith
    ultimately show ?thesis
      unfolding representable_def using u
      by - (rule exI [of _ 1], rule exI [of _ "ulp_exp q + 53"], auto)
  qed
qed

lemma representable_zero [simp]: "representable 0"
  using representable_of_int [of 0] by simp

lemma representable_one [simp]: "representable 1"
  using representable_of_int [of 1] by simp

lemma representable_numeral [simp]: "numeral n < (2::int) ^ 53 \<Longrightarrow> representable (numeral n)"
  using representable_of_int [of "numeral n"] by simp

lemma valid_round [simp]: "valid_dbl (round_dbl x)"
  using representable_fl_pos [of x] representable_fl_pos [of "- x"]
  by (cases "x = 0") (auto simp: round_dbl_def Let_def)

lemma bits_pos_0 [simp]: "bits_pos 0 = 0"
  by (simp add: bits_pos_def)

lemma bits_pos_1: "bits_pos 1 = 1023 * 2 ^ 52"
proof -
  have "expo 1 = 0" by (rule expo_eqI) simp_all
  then have "ulp_exp 1 = - 52" by (simp add: ulp_exp_def)
  then show ?thesis by (simp add: bits_pos_def power_int_minus)
qed

section \<open>Properties\<close>

text \<open>C40: \<^verbatim>\<open>FloatingPoint::AlmostEquals\<close> is comparison up to four steps in the order of the doubles:
  false when either number is NaN, and otherwise true exactly when the positions of the two numbers
  are at most 4 apart, where the positions are integers in the order of the values, so that no
  subtraction of the biased representations wraps.\<close>

theorem AlmostEquals_ulps:
  assumes "valid_dbl a" and "valid_dbl b"
  shows "(AlmostEquals a b \<longleftrightarrow> a \<noteq> NaN \<and> b \<noteq> NaN \<and> \<bar>sm (bits a) - sm (bits b)\<bar> \<le> 4) \<and>
    (a \<noteq> NaN \<longrightarrow> b \<noteq> NaN \<longrightarrow> (dgt a b \<longleftrightarrow> sm (bits b) < sm (bits a))) \<and>
    uint (DistanceBetweenSignAndMagnitudeNumbers (bits a) (bits b)) = \<bar>sm (bits a) - sm (bits b)\<bar>"
  using AlmostEquals_sm [OF assms] dgt_sm [OF assms] distance_sm by blast

theorem AlmostEquals_ulps_witness:
  "\<not> AlmostEquals (Fin 1) (Fin 0) \<and> AlmostEquals (Fin 1) (Fin 1) \<and>
   uint (DistanceBetweenSignAndMagnitudeNumbers (bits (Fin 1)) (bits (Fin 0))) = 1023 * 2 ^ 52"
proof -
  have "sm (bits (Fin 1)) = 1023 * 2 ^ 52" "sm (bits (Fin 0)) = 0"
    using sm_bits [of "Fin 1"] sm_bits [of "Fin 0"]
    by (simp_all add: bits_pos_1 del: bits.simps)
  then show ?thesis
    using AlmostEquals_ulps [of "Fin 1" "Fin 0"] AlmostEquals_ulps [of "Fin 1" "Fin 1"]
    by (simp del: bits.simps)
qed

end
