(* ===== verification/Codes.thy ===== *)
theory Codes
  imports Prelude
begin

text \<open>
  The enumerations of the code with their letters and labels: \<^verbatim>\<open>basic/ScoreType.cpp\<close>,
  \<^verbatim>\<open>bom/IATAType.cpp\<close>, \<^verbatim>\<open>basic/DBType.cpp\<close>, \<^verbatim>\<open>basic/OutputFormat.cpp\<close> and
  \<^verbatim>\<open>bom/Language.cpp\<close>.

  The label arrays have no entry for \<^verbatim>\<open>LAST_VALUE\<close>: reading one there is undefined behaviour.
  The locale \<open>letter_code\<close> is the contract of a letter constructor and its letter array.
\<close>

section \<open>Arrays indexed by an enumeration\<close>

definition array_at :: "'a list \<Rightarrow> nat \<Rightarrow> 'a outcome" where
  "array_at xs i = (if i < length xs then Inr (xs ! i) else Inl UndefinedBehaviour)"

definition describe_array :: "string list \<Rightarrow> string" where
  "describe_array labels = concat (map (\<lambda>idx. (if idx \<noteq> 0 then '', '' else []) @ labels ! idx)
     [0..<length labels])"

locale letter_code =
  fixes enc :: "'e \<Rightarrow> char outcome"
    and dec :: "char \<Rightarrow> 'e outcome"
    and last_value :: "'e"
  assumes enc_total: "e \<noteq> last_value \<Longrightarrow> \<exists>c. enc e = Inr c \<and> dec c = Inr e"
    and dec_enc: "dec c = Inr e \<Longrightarrow> enc e = Inr c"
    and dec_known: "dec c = Inr e \<Longrightarrow> e \<noteq> last_value"
begin

lemma enc_dec: "e \<noteq> last_value \<Longrightarrow> bindE (enc e) dec = Inr e"
  using enc_total by force

lemma dec_inject: "dec c = Inr e \<Longrightarrow> dec d = Inr e \<Longrightarrow> c = d"
  by (metis dec_enc sum.inject(2))

lemma enc_inject: "enc e = Inr c \<Longrightarrow> enc f = Inr c \<Longrightarrow> e \<noteq> last_value \<Longrightarrow> f \<noteq> last_value \<Longrightarrow> e = f"
  by (metis enc_total sum.inject(2))

end

section \<open>Score types\<close>

datatype EN_ScoreType =
    COMBINATION | XAPIAN_PCT | PAGE_RANK | PAX_NB | HEURISTIC | ENV_ID
  | CODE_FULL_MATCH
  | LAST_SCORE_TYPE

primrec ScoreType_index :: "EN_ScoreType \<Rightarrow> nat" where
  "ScoreType_index COMBINATION = 0"
| "ScoreType_index XAPIAN_PCT = 1"
| "ScoreType_index PAGE_RANK = 2"
| "ScoreType_index PAX_NB = 3"
| "ScoreType_index HEURISTIC = 4"
| "ScoreType_index ENV_ID = 5"
| "ScoreType_index CODE_FULL_MATCH = 6"
| "ScoreType_index LAST_SCORE_TYPE = 7"

definition ScoreType_labels :: "string list" where
  "ScoreType_labels = [''Combination'', ''Xapian Percentage'', ''Page Rank'', ''Passenger Number'',
     ''Heuristic'', ''Envelope ID'', ''IATA/ICAO Code Full Match'']"

definition ScoreType_typeLabels :: "string" where
  "ScoreType_typeLabels = ''CXRNHEF''"

definition ScoreType_describeLabels :: string where
  "ScoreType_describeLabels = describe_array ScoreType_labels"

definition ScoreType_of_char :: "char \<Rightarrow> EN_ScoreType outcome" where
  "ScoreType_of_char iTypeChar =
     (let oType =
       (if iTypeChar = CHR ''C'' then COMBINATION else
        (if iTypeChar = CHR ''X'' then XAPIAN_PCT else
        (if iTypeChar = CHR ''R'' then PAGE_RANK else
        (if iTypeChar = CHR ''N'' then PAX_NB else
        (if iTypeChar = CHR ''H'' then HEURISTIC else
        (if iTypeChar = CHR ''E'' then ENV_ID else
        (if iTypeChar = CHR ''F'' then CODE_FULL_MATCH else
        LAST_SCORE_TYPE)))))))
      in if oType = LAST_SCORE_TYPE
         then Inl (CodeConversionException (''The score type '' @ [CHR 0x27] @ [iTypeChar] @ [CHR 0x27] @
           '' is not known. Known score types: '' @ ScoreType_describeLabels))
         else Inr oType)"

definition ScoreType_getLabel :: "EN_ScoreType \<Rightarrow> string outcome" where
  "ScoreType_getLabel e = array_at ScoreType_labels (ScoreType_index e)"

definition ScoreType_getTypeLabel :: "EN_ScoreType \<Rightarrow> char outcome" where
  "ScoreType_getTypeLabel e = array_at ScoreType_typeLabels (ScoreType_index e)"

definition ScoreType_getTypeLabelAsString :: "EN_ScoreType \<Rightarrow> string outcome" where
  "ScoreType_getTypeLabelAsString e = bindE (ScoreType_getTypeLabel e) (\<lambda>c. Inr [c])"

lemmas ScoreType_defs = ScoreType_of_char_def ScoreType_getTypeLabel_def ScoreType_typeLabels_def array_at_def

interpretation score_letters: letter_code ScoreType_getTypeLabel ScoreType_of_char LAST_SCORE_TYPE
proof unfold_locales
  fix e
  assume "e \<noteq> LAST_SCORE_TYPE"
  then show "\<exists>c. ScoreType_getTypeLabel e = Inr c \<and> ScoreType_of_char c = Inr e"
    by (cases e) (simp_all add: ScoreType_defs)
next
  fix c e
  assume "ScoreType_of_char c = Inr e"
  then show "ScoreType_getTypeLabel e = Inr c" and "e \<noteq> LAST_SCORE_TYPE"
    by (auto simp: ScoreType_defs Let_def split: if_splits)
qed

section \<open>Place types\<close>

datatype EN_IATAType =
    CTY_AIRP | CTY_HPT | CTY_RSTN | CTY_BSTN | CTY_FERRY | CITY
  | AIRP | HPT | RSTN | BSTN | FERRY | OFF
  | LAST_IATA_TYPE

primrec IATAType_index :: "EN_IATAType \<Rightarrow> nat" where
  "IATAType_index CTY_AIRP = 0"
| "IATAType_index CTY_HPT = 1"
| "IATAType_index CTY_RSTN = 2"
| "IATAType_index CTY_BSTN = 3"
| "IATAType_index CTY_FERRY = 4"
| "IATAType_index CITY = 5"
| "IATAType_index AIRP = 6"
| "IATAType_index HPT = 7"
| "IATAType_index RSTN = 8"
| "IATAType_index BSTN = 9"
| "IATAType_index FERRY = 10"
| "IATAType_index OFF = 11"
| "IATAType_index LAST_IATA_TYPE = 12"

definition IATAType_labels :: "string list" where
  "IATAType_labels = [''CTY_AIRP'', ''CTY_HPT'', ''CTY_RSTN'', ''CTY_BSTN'',
     ''CTY_FERRY'', ''CITY'', ''AIRP'', ''HPT'',
     ''RSTN'', ''BSTN'', ''FERRY'', ''OFF'']"

definition IATAType_typeLabels :: "string" where
  "IATAType_typeLabels = ''ahrbpCAHRBPO''"

definition IATAType_describeLabels :: string where
  "IATAType_describeLabels = describe_array IATAType_labels"

definition IATAType_getType :: "char \<Rightarrow> EN_IATAType outcome" where
  "IATAType_getType iTypeChar =
     (let oType =
       (if iTypeChar = CHR ''a'' then CTY_AIRP else
        (if iTypeChar = CHR ''h'' then CTY_HPT else
        (if iTypeChar = CHR ''r'' then CTY_RSTN else
        (if iTypeChar = CHR ''b'' then CTY_BSTN else
        (if iTypeChar = CHR ''p'' then CTY_FERRY else
        (if iTypeChar = CHR ''C'' then CITY else
        (if iTypeChar = CHR ''A'' then AIRP else
        (if iTypeChar = CHR ''H'' then HPT else
        (if iTypeChar = CHR ''R'' then RSTN else
        (if iTypeChar = CHR ''B'' then BSTN else
        (if iTypeChar = CHR ''P'' then FERRY else
        (if iTypeChar = CHR ''O'' then OFF else
        LAST_IATA_TYPE))))))))))))
      in if oType = LAST_IATA_TYPE
         then Inl (CodeConversionException (''The place type '' @ [CHR 0x27] @ [iTypeChar] @ [CHR 0x27] @
           '' is not known. Known place types: '' @ IATAType_describeLabels))
         else Inr oType)"

definition IATAType_getLabel :: "EN_IATAType \<Rightarrow> string outcome" where
  "IATAType_getLabel e = array_at IATAType_labels (IATAType_index e)"

definition IATAType_getTypeLabel :: "EN_IATAType \<Rightarrow> char outcome" where
  "IATAType_getTypeLabel e = array_at IATAType_typeLabels (IATAType_index e)"

definition IATAType_getTypeLabelAsString :: "EN_IATAType \<Rightarrow> string outcome" where
  "IATAType_getTypeLabelAsString e = bindE (IATAType_getTypeLabel e) (\<lambda>c. Inr [c])"

lemmas IATAType_defs = IATAType_getType_def IATAType_getTypeLabel_def IATAType_typeLabels_def array_at_def

interpretation iata_letters: letter_code IATAType_getTypeLabel IATAType_getType LAST_IATA_TYPE
proof unfold_locales
  fix e
  assume "e \<noteq> LAST_IATA_TYPE"
  then show "\<exists>c. IATAType_getTypeLabel e = Inr c \<and> IATAType_getType c = Inr e"
    by (cases e) (simp_all add: IATAType_defs)
next
  fix c e
  assume "IATAType_getType c = Inr e"
  then show "IATAType_getTypeLabel e = Inr c" and "e \<noteq> LAST_IATA_TYPE"
    by (auto simp: IATAType_defs Let_def split: if_splits)
qed

section \<open>Database types\<close>

datatype EN_DBType =
    NODB | SQLITE3 | MYSQL
  | LAST_DB_TYPE

primrec DBType_index :: "EN_DBType \<Rightarrow> nat" where
  "DBType_index NODB = 0"
| "DBType_index SQLITE3 = 1"
| "DBType_index MYSQL = 2"
| "DBType_index LAST_DB_TYPE = 3"

definition DBType_labels :: "string list" where
  "DBType_labels = [''NoDB'', ''SQLite3'', ''MySQL/MariaDB'']"

definition DBType_typeLabels :: "string" where
  "DBType_typeLabels = ''NSM''"

definition DBType_describeLabels :: string where
  "DBType_describeLabels = describe_array DBType_labels"

definition DBType_getType :: "char \<Rightarrow> EN_DBType outcome" where
  "DBType_getType iTypeChar =
     (let oType =
       (if iTypeChar = CHR ''N'' then NODB else
        (if iTypeChar = CHR ''S'' then SQLITE3 else
        (if iTypeChar = CHR ''M'' then MYSQL else
        LAST_DB_TYPE)))
      in if oType = LAST_DB_TYPE
         then Inl (CodeConversionException (''The database type '' @ [CHR 0x27] @ [iTypeChar] @ [CHR 0x27] @
           '' is not known. Known database types: '' @ DBType_describeLabels))
         else Inr oType)"

definition DBType_getLabel :: "EN_DBType \<Rightarrow> string outcome" where
  "DBType_getLabel e = array_at DBType_labels (DBType_index e)"

definition DBType_getTypeLabel :: "EN_DBType \<Rightarrow> char outcome" where
  "DBType_getTypeLabel e = array_at DBType_typeLabels (DBType_index e)"

definition DBType_getTypeLabelAsString :: "EN_DBType \<Rightarrow> string outcome" where
  "DBType_getTypeLabelAsString e = bindE (DBType_getTypeLabel e) (\<lambda>c. Inr [c])"

lemmas DBType_defs = DBType_getType_def DBType_getTypeLabel_def DBType_typeLabels_def array_at_def

interpretation db_letters: letter_code DBType_getTypeLabel DBType_getType LAST_DB_TYPE
proof unfold_locales
  fix e
  assume "e \<noteq> LAST_DB_TYPE"
  then show "\<exists>c. DBType_getTypeLabel e = Inr c \<and> DBType_getType c = Inr e"
    by (cases e) (simp_all add: DBType_defs)
next
  fix c e
  assume "DBType_getType c = Inr e"
  then show "DBType_getTypeLabel e = Inr c" and "e \<noteq> LAST_DB_TYPE"
    by (auto simp: DBType_defs Let_def split: if_splits)
qed

section \<open>Output formats\<close>

datatype EN_OutputFormat =
    SHORT | FULL | JSON | PROTOBUF
  | LAST_OUTPUT_FORMAT

primrec OutputFormat_index :: "EN_OutputFormat \<Rightarrow> nat" where
  "OutputFormat_index SHORT = 0"
| "OutputFormat_index FULL = 1"
| "OutputFormat_index JSON = 2"
| "OutputFormat_index PROTOBUF = 3"
| "OutputFormat_index LAST_OUTPUT_FORMAT = 4"

definition OutputFormat_labels :: "string list" where
  "OutputFormat_labels = [''Short'', ''Full'', ''JSON'', ''PROTOBUF'']"

definition OutputFormat_typeLabels :: "string" where
  "OutputFormat_typeLabels = ''SFJP''"

definition OutputFormat_describeLabels :: string where
  "OutputFormat_describeLabels = describe_array OutputFormat_labels"

definition OutputFormat_getFormat :: "char \<Rightarrow> EN_OutputFormat outcome" where
  "OutputFormat_getFormat iTypeChar =
     (let oType =
       (if iTypeChar = CHR ''S'' then SHORT else
        (if iTypeChar = CHR ''F'' then FULL else
        (if iTypeChar = CHR ''J'' then JSON else
        (if iTypeChar = CHR ''P'' then PROTOBUF else
        LAST_OUTPUT_FORMAT))))
      in if oType = LAST_OUTPUT_FORMAT
         then Inl (CodeConversionException (''The output format '' @ [CHR 0x27] @ [iTypeChar] @ [CHR 0x27] @
           '' is not known. Known output formats: '' @ OutputFormat_describeLabels))
         else Inr oType)"

definition OutputFormat_getLabel :: "EN_OutputFormat \<Rightarrow> string outcome" where
  "OutputFormat_getLabel e = array_at OutputFormat_labels (OutputFormat_index e)"

definition OutputFormat_getTypeLabel :: "EN_OutputFormat \<Rightarrow> char outcome" where
  "OutputFormat_getTypeLabel e = array_at OutputFormat_typeLabels (OutputFormat_index e)"

definition OutputFormat_getTypeLabelAsString :: "EN_OutputFormat \<Rightarrow> string outcome" where
  "OutputFormat_getTypeLabelAsString e = bindE (OutputFormat_getTypeLabel e) (\<lambda>c. Inr [c])"

lemmas OutputFormat_defs = OutputFormat_getFormat_def OutputFormat_getTypeLabel_def OutputFormat_typeLabels_def array_at_def

interpretation fmt_letters: letter_code OutputFormat_getTypeLabel OutputFormat_getFormat LAST_OUTPUT_FORMAT
proof unfold_locales
  fix e
  assume "e \<noteq> LAST_OUTPUT_FORMAT"
  then show "\<exists>c. OutputFormat_getTypeLabel e = Inr c \<and> OutputFormat_getFormat c = Inr e"
    by (cases e) (simp_all add: OutputFormat_defs)
next
  fix c e
  assume "OutputFormat_getFormat c = Inr e"
  then show "OutputFormat_getTypeLabel e = Inr c" and "e \<noteq> LAST_OUTPUT_FORMAT"
    by (auto simp: OutputFormat_defs Let_def split: if_splits)
qed

section \<open>Codes given as strings\<close>

definition IATAType_of_string :: "string \<Rightarrow> EN_IATAType outcome" where
  "IATAType_of_string iTypeStr =
     (let oType =
       if iTypeStr = ''CA'' then CTY_AIRP else
       if iTypeStr = ''CH'' then CTY_HPT else
       if iTypeStr = ''CR'' then CTY_RSTN else
       if iTypeStr = ''CB'' then CTY_BSTN else
       if iTypeStr = ''CP'' then CTY_FERRY else
       if iTypeStr = ''C'' then CITY else
       if iTypeStr = ''A'' then AIRP else
       if iTypeStr = ''H'' then HPT else
       if iTypeStr = ''R'' then RSTN else
       if iTypeStr = ''B'' then BSTN else
       if iTypeStr = ''P'' then FERRY else
       if iTypeStr = ''O'' then OFF else
       LAST_IATA_TYPE
      in if oType = LAST_IATA_TYPE
         then Inl (CodeConversionException (''The place type '' @ [CHR 0x27] @ iTypeStr @ [CHR 0x27] @
           '' is not known. Known place types: '' @ IATAType_describeLabels))
         else Inr oType)"

definition DBType_of_string :: "string \<Rightarrow> EN_DBType outcome" where
  "DBType_of_string iTypeStr =
     (let oType =
       if iTypeStr = ''sqlite3'' then SQLITE3 else
       if iTypeStr = ''sqlite'' \<or> iTypeStr = ''sqlite3'' then SQLITE3 else
       if iTypeStr = ''mysql'' \<or> iTypeStr = ''mariadb'' then MYSQL else
       if iTypeStr = ''nodb'' then NODB else
       LAST_DB_TYPE
      in if oType = LAST_DB_TYPE
         then Inl (CodeConversionException (''The database type '' @ [CHR 0x27] @ iTypeStr @ [CHR 0x27] @
           '' is not known. Known database types: '' @ DBType_describeLabels))
         else Inr oType)"

definition OutputFormat_of_string :: "string \<Rightarrow> EN_OutputFormat outcome" where
  "OutputFormat_of_string iFormatStr =
     bindE (assertE (length iFormatStr = 1)) (\<lambda>_. OutputFormat_getFormat (iFormatStr ! 0))"

datatype PB_LocationType =
    PB_CTY_AIRP | PB_CTY_HPT | PB_CTY_RSTN | PB_CTY_BSTN | PB_CTY_FERRY
  | PB_CITY | PB_AIRP | PB_HPT | PB_RSTN | PB_BSTN | PB_FERRY | PB_OFF | PB_UNKNOWN

primrec IATAType_getTypeLabelAsPB :: "EN_IATAType \<Rightarrow> PB_LocationType" where
  "IATAType_getTypeLabelAsPB CTY_AIRP = PB_CTY_AIRP"
| "IATAType_getTypeLabelAsPB CTY_HPT = PB_CTY_HPT"
| "IATAType_getTypeLabelAsPB CTY_RSTN = PB_CTY_RSTN"
| "IATAType_getTypeLabelAsPB CTY_BSTN = PB_CTY_BSTN"
| "IATAType_getTypeLabelAsPB CTY_FERRY = PB_CTY_FERRY"
| "IATAType_getTypeLabelAsPB CITY = PB_CITY"
| "IATAType_getTypeLabelAsPB AIRP = PB_AIRP"
| "IATAType_getTypeLabelAsPB HPT = PB_HPT"
| "IATAType_getTypeLabelAsPB RSTN = PB_RSTN"
| "IATAType_getTypeLabelAsPB BSTN = PB_BSTN"
| "IATAType_getTypeLabelAsPB FERRY = PB_FERRY"
| "IATAType_getTypeLabelAsPB OFF = PB_OFF"
| "IATAType_getTypeLabelAsPB LAST_IATA_TYPE = PB_UNKNOWN"

definition isIndividualScore :: "EN_ScoreType \<Rightarrow> bool" where
  "isIndividualScore iType = (if iType = COMBINATION \<or> iType = LAST_SCORE_TYPE then False else True)"

text \<open>The enumeration is the key of the score maps, which are iterated in its order.\<close>

instantiation EN_ScoreType :: linorder
begin

definition less_eq_EN_ScoreType :: "EN_ScoreType \<Rightarrow> EN_ScoreType \<Rightarrow> bool" where
  "less_eq_EN_ScoreType a b \<longleftrightarrow> ScoreType_index a \<le> ScoreType_index b"

definition less_EN_ScoreType :: "EN_ScoreType \<Rightarrow> EN_ScoreType \<Rightarrow> bool" where
  "less_EN_ScoreType a b \<longleftrightarrow> ScoreType_index a < ScoreType_index b"

instance
proof
  fix a b :: EN_ScoreType
  assume "a \<le> b" and "b \<le> a"
  then show "a = b" by (cases a; cases b) (simp_all add: less_eq_EN_ScoreType_def)
qed (auto simp: less_eq_EN_ScoreType_def less_EN_ScoreType_def)

end

section \<open>Languages\<close>

text \<open>
  The language codes are the positions in the label arrays; \<open>LAST_LANGUAGE\<close> is the enumerator
  \<^verbatim>\<open>LAST_VALUE\<close>, which has the label of an unknown language.
\<close>

definition Language_longLabels :: "string list" where
  "Language_longLabels =
    [''common'', ''ar'', ''ar_DZ'', ''ar_MA'', ''ar_SA'', ''ar_TN'',
     ''de'', ''de_DE'', ''en'', ''en_GB'', ''en_US'', ''es'', ''es_AR'', ''es_ES'', ''es_MX'',
     ''fa'', ''fa_IR'', ''fr'', ''fr_BE'', ''fr_CA'', ''fr_CH'', ''fr_FR'',
     ''he'', ''he_IL'', ''ko'', ''ko_KR'', ''pl'', ''pl_PL'', ''pt'', ''pt_BR'', ''pt_PT'',
     ''sv'', ''sv_SE'', ''ru'', ''ru_RU'', ''uk'', ''uk_UA'', ''zh'', ''zh_CN'', ''zh_HK'', ''zh_TW'',
     ''out-of-index'']"

definition Language_shortLabels :: "string list" where
  "Language_shortLabels =
    ['''', ''ar'', ''ar'', ''ar'', ''ar'', ''ar'',
     ''de'', ''de'', ''en'', ''en'', ''en'', ''es'', ''es'', ''es'', ''es'',
     ''fa'', ''fa'', ''fr'', ''fr'', ''fr'', ''fr'', ''fr'',
     ''he'', ''he'', ''ko'', ''ko'', ''pl'', ''pl'', ''pt'', ''pt'', ''pt'',
     ''sv'', ''sv'', ''ru'', ''ru'', ''uk'', ''uk'', ''zh'', ''zh'', ''zh'', ''zh'',
     ''out-of-index'']"

definition LAST_LANGUAGE :: nat where
  "LAST_LANGUAGE = 41"

definition Language_getLongLabel :: "nat \<Rightarrow> string outcome" where
  "Language_getLongLabel iLanguage = array_at Language_longLabels iLanguage"

definition Language_getShortLabel :: "nat \<Rightarrow> string outcome" where
  "Language_getShortLabel iLanguage = array_at Language_shortLabels iLanguage"

fun getCode_loop :: "string \<Rightarrow> nat list \<Rightarrow> nat" where
  "getCode_loop iLanguageString [] = LAST_LANGUAGE"
| "getCode_loop iLanguageString (lLanguageCode # rest) =
     (if Language_getShortLabel lLanguageCode = Inr iLanguageString then lLanguageCode
      else getCode_loop iLanguageString rest)"

definition Language_getCode :: "string \<Rightarrow> nat" where
  "Language_getCode iLanguageString =
     (if iLanguageString = [] then 0 else getCode_loop iLanguageString [1..<LAST_LANGUAGE])"

section \<open>Properties\<close>

text \<open>The letters of the four code classes are a bijection with their known values: every value
  but \<^verbatim>\<open>LAST_VALUE\<close> has a letter that converts back to it, a letter that converts is the letter
  of the value it converts to, and every other letter is refused with a conversion error.\<close>

theorem letters_roundtrip:
  "(\<forall>e. e = LAST_SCORE_TYPE \<or> bindE (ScoreType_getTypeLabel e) ScoreType_of_char = Inr e) \<and>
   (\<forall>e. e = LAST_IATA_TYPE \<or> bindE (IATAType_getTypeLabel e) IATAType_getType = Inr e) \<and>
   (\<forall>e. e = LAST_DB_TYPE \<or> bindE (DBType_getTypeLabel e) DBType_getType = Inr e) \<and>
   (\<forall>e. e = LAST_OUTPUT_FORMAT \<or> bindE (OutputFormat_getTypeLabel e) OutputFormat_getFormat = Inr e) \<and>
   (\<forall>c. case IATAType_getType c of
      Inr e \<Rightarrow> e \<noteq> LAST_IATA_TYPE \<and> IATAType_getTypeLabel e = Inr c
    | Inl x \<Rightarrow> x = CodeConversionException (''The place type '' @ [CHR 0x27] @ [c] @ [CHR 0x27] @
        '' is not known. Known place types: '' @ IATAType_describeLabels))"
proof -
  have "\<forall>c. case IATAType_getType c of
      Inr e \<Rightarrow> e \<noteq> LAST_IATA_TYPE \<and> IATAType_getTypeLabel e = Inr c
    | Inl x \<Rightarrow> x = CodeConversionException (''The place type '' @ [CHR 0x27] @ [c] @ [CHR 0x27] @
        '' is not known. Known place types: '' @ IATAType_describeLabels)"
  proof
    fix c
    show "case IATAType_getType c of
        Inr e \<Rightarrow> e \<noteq> LAST_IATA_TYPE \<and> IATAType_getTypeLabel e = Inr c
      | Inl x \<Rightarrow> x = CodeConversionException (''The place type '' @ [CHR 0x27] @ [c] @ [CHR 0x27] @
          '' is not known. Known place types: '' @ IATAType_describeLabels)"
    proof (cases "IATAType_getType c")
      case (Inl x)
      then show ?thesis by (simp add: IATAType_getType_def Let_def split: if_splits)
    next
      case (Inr e)
      then show ?thesis using iata_letters.dec_enc iata_letters.dec_known by simp
    qed
  qed
  then show ?thesis
    using score_letters.enc_dec iata_letters.enc_dec db_letters.enc_dec fmt_letters.enc_dec by blast
qed

lemma getCode_loop_upt:
  "getCode_loop s [k..<n] = LAST_LANGUAGE \<and> (\<forall>i \<in> {k..<n}. Language_getShortLabel i \<noteq> Inr s) \<or>
   (\<exists>i. k \<le> i \<and> i < n \<and> getCode_loop s [k..<n] = i \<and> Language_getShortLabel i = Inr s \<and>
     (\<forall>j \<in> {k..<i}. Language_getShortLabel j \<noteq> Inr s))"
proof (induction "n - k" arbitrary: k)
  case 0
  then show ?case by simp
next
  case (Suc d)
  then have up: "[k..<n] = k # [Suc k..<n]" "k < n" by (simp_all add: upt_conv_Cons)
  show ?case
  proof (cases "Language_getShortLabel k = Inr s")
    case True
    with up show ?thesis by auto
  next
    case False
    have "d = n - Suc k" using Suc(2) by simp
    with False Suc(1) [of "Suc k"] show ?thesis
      unfolding up(1) by (auto simp: Suc_le_eq le_less)
  qed
qed

text \<open>The language of a short label: the empty label is the common language, a short label gives
  the first language that has it, and any other string, a long label such as \<open>en_US\<close> included, gives
  the value for an unknown language.\<close>

theorem getCode_correct:
  assumes "s \<noteq> []"
  shows "Language_getCode s = LAST_LANGUAGE \<and>
      (\<forall>i \<in> {1..<LAST_LANGUAGE}. Language_getShortLabel i \<noteq> Inr s) \<or>
    1 \<le> Language_getCode s \<and> Language_getCode s < LAST_LANGUAGE \<and>
      Language_getShortLabel (Language_getCode s) = Inr s \<and>
      (\<forall>i \<in> {1..<Language_getCode s}. Language_getShortLabel i \<noteq> Inr s)"
  using assms getCode_loop_upt [of s 1 LAST_LANGUAGE] by (auto simp: Language_getCode_def)

theorem getCode_correct_witness:
  "Language_getCode ''fr'' = 17 \<and> Language_getCode ''en_US'' = LAST_LANGUAGE"
proof -
  have "Language_getCode ''fr'' = 17" by code_simp
  moreover have "\<not> (\<exists>i. i < LAST_LANGUAGE \<and> Language_getShortLabel i = Inr ''en_US'')"
    by (simp add: LAST_LANGUAGE_def Language_getShortLabel_def Language_shortLabels_def array_at_def
      numeral_eq_Suc less_Suc_eq)
  then have "Language_getCode ''en_US'' = LAST_LANGUAGE"
    using getCode_correct [of "''en_US''"] by auto
  ultimately show ?thesis ..
qed

end
