(* ===== verification/Scores.thy ===== *)
theory Scores
  imports Doubles Codes
begin

text \<open>
  The score board of a query string (\<^verbatim>\<open>bom/ScoreBoard.cpp\<close>, \<^verbatim>\<open>bom/ScoreBoard.hpp\<close>): one score
  per score type in a map iterated in the order of the enumeration, the rules that override a code
  match and an envelope identifier, and the combined weight.
\<close>

section \<open>The score board\<close>

type_synonym score_map = "(EN_ScoreType, dbl) omap"

record ScoreBoard =
  sb_queryString :: string
  sb_scoreMap :: score_map

definition new_ScoreBoard :: "string \<Rightarrow> ScoreBoard" where
  "new_ScoreBoard iQueryString = \<lparr>sb_queryString = iQueryString, sb_scoreMap = om_empty\<rparr>"

definition getScore :: "ScoreBoard \<Rightarrow> EN_ScoreType \<Rightarrow> dbl" where
  "getScore sb iScoreType =
     (case om_find (sb_scoreMap sb) iScoreType of Some oScore \<Rightarrow> oScore | None \<Rightarrow> Fin 0)"

definition getCombinedWeight :: "ScoreBoard \<Rightarrow> dbl" where
  "getCombinedWeight sb = getScore sb COMBINATION"

definition setScore :: "EN_ScoreType \<Rightarrow> dbl \<Rightarrow> ScoreBoard \<Rightarrow> ScoreBoard" where
  "setScore iScoreType iScore sb =
     (let oScore = iScore;
          oScore = (if iScoreType = CODE_FULL_MATCH
            then (if AlmostEquals oScore (Fin 1) then K_DEFAULT_FULL_CODE_MATCH_PCT
                  else K_DEFAULT_MODIFIED_MATCHING_PCT)
            else oScore);
          oScore = (if iScoreType = ENV_ID
            then (if AlmostEquals oScore (Fin 0) then Fin 100 else K_DEFAULT_ENVELOPE_PCT)
            else oScore)
      in sb\<lparr>sb_scoreMap := om_put iScoreType oScore (sb_scoreMap sb)\<rparr>)"

definition new_ScoreBoard_score :: "string \<Rightarrow> EN_ScoreType \<Rightarrow> dbl \<Rightarrow> ScoreBoard" where
  "new_ScoreBoard_score iQueryString iType iScore = setScore iType iScore (new_ScoreBoard iQueryString)"

definition setCombinedWeight :: "dbl \<Rightarrow> ScoreBoard \<Rightarrow> ScoreBoard" where
  "setCombinedWeight iScore sb = setScore COMBINATION iScore sb"

definition combined_pct :: "(EN_ScoreType \<times> dbl) list \<Rightarrow> dbl \<Rightarrow> dbl" where
  "combined_pct entries oPercentage =
     fold (\<lambda>(lScoreType, lScore) oPercentage.
         if isIndividualScore lScoreType then dmul oPercentage (ddiv_const lScore 100)
         else oPercentage)
       entries oPercentage"

definition calculateCombinedWeight :: "ScoreBoard \<Rightarrow> dbl \<times> ScoreBoard" where
  "calculateCombinedWeight sb =
     (let oPercentage = combined_pct (om_entries (sb_scoreMap sb)) (Fin 100)
      in (oPercentage, setCombinedWeight oPercentage sb))"

text \<open>The display; \<open>show_dbl\<close> is the formatting of a \<^verbatim>\<open>double\<close> by an output stream.\<close>

fun ScoreBoard_describe_loop ::
    "(dbl \<Rightarrow> string) \<Rightarrow> (EN_ScoreType \<times> dbl) list \<Rightarrow> 16 word \<Rightarrow> string outcome" where
  "ScoreBoard_describe_loop show_dbl [] idx = Inr []"
| "ScoreBoard_describe_loop show_dbl ((lScoreType, lScore) # rest) idx =
     bindE (ScoreType_getTypeLabelAsString lScoreType) (\<lambda>lLabel.
     bindE (ScoreBoard_describe_loop show_dbl rest (idx + 1)) (\<lambda>lRest.
       Inr ((if idx \<noteq> 0 then '', '' else []) @ lLabel @ '': '' @ show_dbl lScore @ ''%'' @ lRest)))"

definition ScoreBoard_describe :: "(dbl \<Rightarrow> string) \<Rightarrow> ScoreBoard \<Rightarrow> string outcome" where
  "ScoreBoard_describe show_dbl sb =
     bindE (ScoreBoard_describe_loop show_dbl (om_entries (sb_scoreMap sb)) 0) (\<lambda>lScores.
       Inr (sb_queryString sb @ '' - '' @ lScores))"

section \<open>Well-formed score boards\<close>

definition sb_wf :: "ScoreBoard \<Rightarrow> bool" where
  "sb_wf sb \<longleftrightarrow> om_wf (sb_scoreMap sb)"

text \<open>What a score type stores.\<close>

definition stored_score :: "EN_ScoreType \<Rightarrow> dbl \<Rightarrow> dbl" where
  "stored_score t v =
     (if t = CODE_FULL_MATCH then (if AlmostEquals v (Fin 1) then Fin 110000 else Fin 100)
      else if t = ENV_ID then (if AlmostEquals v (Fin 0) then Fin 100 else K_DEFAULT_PAGE_RANK)
      else v)"

lemma setScore_eq: "setScore t v sb = sb\<lparr>sb_scoreMap := om_put t (stored_score t v) (sb_scoreMap sb)\<rparr>"
  by (simp add: setScore_def stored_score_def full_code_match_value K_DEFAULT_MODIFIED_MATCHING_PCT_def
    K_DEFAULT_ENVELOPE_PCT_def)

lemma sb_wf_new [simp]: "sb_wf (new_ScoreBoard q)"
  by (simp add: sb_wf_def new_ScoreBoard_def)

lemma sb_wf_setScore [simp]: "sb_wf sb \<Longrightarrow> sb_wf (setScore t v sb)"
  by (simp add: sb_wf_def setScore_eq)

lemma sb_wf_new_score [simp]: "sb_wf (new_ScoreBoard_score q t v)"
  by (simp add: new_ScoreBoard_score_def)

lemma queryString_setScore [simp, score_simps]: "sb_queryString (setScore t v sb) = sb_queryString sb"
  by (simp add: setScore_eq)

lemma getScore_setScore [score_simps]:
  "getScore (setScore t v sb) u = (if u = t then stored_score t v else getScore sb u)"
  by (simp add: getScore_def setScore_eq)

lemma getScore_new [simp, score_simps]: "getScore (new_ScoreBoard q) t = Fin 0"
  by (simp add: getScore_def new_ScoreBoard_def)

lemma setScore_setScore: "sb_wf sb \<Longrightarrow> setScore t v (setScore t w sb) = setScore t v sb"
  by (simp add: setScore_eq sb_wf_def om.put_put)

lemma setScore_commute:
  "sb_wf sb \<Longrightarrow> t \<noteq> u \<Longrightarrow> setScore t v (setScore u w sb) = setScore u w (setScore t v sb)"
  by (simp add: setScore_eq sb_wf_def om.put_commute)

section \<open>The combined weight\<close>

definition individual_scores :: "ScoreBoard \<Rightarrow> dbl list" where
  "individual_scores sb = map snd (filter (\<lambda>(t, v). isIndividualScore t) (om_entries (sb_scoreMap sb)))"

lemma combined_pct_filter:
  "combined_pct es p = fold (\<lambda>v p. dmul p (ddiv_const v 100))
    (map snd (filter (\<lambda>(t, v). isIndividualScore t) es)) p"
  by (induction es arbitrary: p) (auto simp: combined_pct_def)

text \<open>Storing the combined weight does not change the individual scores.\<close>

lemma filter_om_put:
  "\<not> P k \<Longrightarrow> filter (\<lambda>(t, v). P t) (om_put k w m) = filter (\<lambda>(t, v). P t) m"
  by (induction k w m rule: om_put.induct) auto

lemma individual_scores_setCombined [simp]:
  "individual_scores (setCombinedWeight w sb) = individual_scores sb"
  by (simp add: individual_scores_def setCombinedWeight_def setScore_eq om_entries_def filter_om_put
    isIndividualScore_def)

lemma calculateCombinedWeight_eq:
  "calculateCombinedWeight sb =
    (let w = fold (\<lambda>v p. dmul p (ddiv_const v 100)) (individual_scores sb) (Fin 100)
     in (w, setCombinedWeight w sb))"
  by (simp add: calculateCombinedWeight_def combined_pct_filter individual_scores_def om_entries_def)

lemma getCombinedWeight_calculate [simp, score_simps]:
  "getCombinedWeight (snd (calculateCombinedWeight sb)) = fst (calculateCombinedWeight sb)"
  by (simp add: calculateCombinedWeight_eq Let_def getCombinedWeight_def setCombinedWeight_def
    getScore_setScore stored_score_def)

text \<open>The combined weight is monotone in scores that do not underflow.\<close>

definition proper_score :: "dbl \<Rightarrow> bool" where
  "proper_score d \<longleftrightarrow> (\<exists>q. d = Fin q \<and> representable q \<and> 2 powi (- 1000) \<le> q)"

lemma proper_numeral: "numeral n < (2::int) ^ 53 \<Longrightarrow> proper_score (Fin (numeral n))"
proof -
  assume n: "numeral n < (2::int) ^ 53"
  have "(2::rat) powi (- 1000) \<le> 2 powi 0" by (rule pow2_mono) simp
  also have "\<dots> \<le> numeral n" by simp
  finally show ?thesis using n by (simp add: proper_score_def)
qed

lemma proper_div:
  assumes "proper_score v"
  shows "\<exists>r > 0. ddiv_const v 100 = Fin r"
proof -
  obtain q where q: "v = Fin q" "representable q" "2 powi (- 1000) \<le> q"
    using assms by (auto simp: proper_score_def)
  then have pos: "0 < q" using pow2_pos [of "- 1000"] by linarith
  have "(2::rat) powi (- 1007) * 100 \<le> 2 powi (- 1007) * 2 powi 7" by simp
  also have "\<dots> = 2 powi (- 1000)" by (simp flip: power_int_add)
  finally have low: "2 powi (- 1007) \<le> q / 100" using q(3) by simp
  have "ulp_exp (q / 100) \<le> - 1007 \<or> 2 powi (expo (q / 100)) \<le> q / 100 \<and> ulp_exp (q / 100) \<le> expo (q / 100)"
    using expo_bounds [of "q / 100"] pos by (auto simp: ulp_exp_def)
  then have "0 < fl_pos (q / 100)"
    using fl_pos_ge [OF low] fl_pos_ge [of "expo (q / 100)" "q / 100"] pow2_pos by (meson order_less_le_trans)
  moreover have "fl_pos (q / 100) \<le> fl_pos q" using pos by (intro fl_pos_mono) auto
  moreover have "fl_pos q = q \<and> q < 2 ^ 1024"
    using round_exact [OF q(2)] q(2) pos by (auto simp: round_dbl_def Let_def representable_def split: if_splits)
  ultimately show ?thesis using pos q(1) by (auto simp: round_dbl_def Let_def)
qed

lemma proper_div_mono:
  assumes "proper_score v" and "proper_score v'" and "dle v v'"
  obtains r r' where "ddiv_const v 100 = Fin r" "ddiv_const v' 100 = Fin r'" "0 < r" "r \<le> r'"
proof -
  obtain q q' where q: "v = Fin q" "v' = Fin q'" using assms by (auto simp: proper_score_def)
  obtain r r' where r: "ddiv_const v 100 = Fin r" "ddiv_const v' 100 = Fin r'" "0 < r"
    using proper_div [OF assms(1)] proper_div [OF assms(2)] by blast
  moreover have "dle (ddiv_const v 100) (ddiv_const v' 100)"
    using assms(3) q by (simp add: dle_round divide_right_mono)
  ultimately show thesis using that by simp
qed

lemma fold_weight_mono:
  assumes "list_all2 (\<lambda>v v'. proper_score v \<and> proper_score v' \<and> dle v v') vs vs'"
    and "dle (Fin 0) p" and "dle p p'"
  shows "dle (fold (\<lambda>v p. dmul p (ddiv_const v 100)) vs p)
    (fold (\<lambda>v p. dmul p (ddiv_const v 100)) vs' p')"
  using assms
proof (induction vs vs' arbitrary: p p' rule: list_all2_induct)
  case Nil
  then show ?case by simp
next
  case (Cons v vs v' vs')
  then obtain r r' where r: "ddiv_const v 100 = Fin r" "ddiv_const v' 100 = Fin r'" "0 < r" "r \<le> r'"
    using proper_div_mono by blast
  then show ?case
    using Cons dmul_mono [of p p' r r'] dmul_nonneg [of p r] by simp
qed

section \<open>Properties\<close>

text \<open>Storing a score: the board stays well formed and keeps its query string and the scores of the
  other types; the stored value is the given one, except that a code match stores 110000 when the
  given value is within four steps of 1 and 100 otherwise, and that an envelope identifier stores
  100 when it is within four steps of 0 and the default PageRank otherwise.\<close>

theorem setScore_rules:
  assumes "sb_wf sb"
  shows "sb_wf (setScore t v sb) \<and> sb_queryString (setScore t v sb) = sb_queryString sb \<and>
    getScore (setScore t v sb) u =
      (if u \<noteq> t then getScore sb u
       else if t = CODE_FULL_MATCH then (if AlmostEquals v (Fin 1) then Fin 110000 else Fin 100)
       else if t = ENV_ID then (if AlmostEquals v (Fin 0) then Fin 100
         else Fin (3602879701896397 / 36028797018963968))
       else v)"
  using assms by (simp add: getScore_setScore stored_score_def page_rank_value)

theorem setScore_rules_witness:
  "getScore (setScore CODE_FULL_MATCH (Fin 1) (new_ScoreBoard ''nce'')) CODE_FULL_MATCH = Fin 110000"
  using setScore_rules [of "new_ScoreBoard ''nce''" CODE_FULL_MATCH "Fin 1" CODE_FULL_MATCH]
  by (simp add: AlmostEquals_sm del: bits.simps)

text \<open>Computing the combined weight a second time gives the same weight and leaves the board as it
  is: the stored combination is never one of its own factors.\<close>

theorem combined_weight_idempotent:
  assumes "sb_wf sb"
  shows "calculateCombinedWeight (snd (calculateCombinedWeight sb)) = calculateCombinedWeight sb"
  using assms
  by (simp add: calculateCombinedWeight_eq Let_def)
    (simp add: setCombinedWeight_def setScore_setScore)

theorem combined_weight_idempotent_witness:
  "calculateCombinedWeight (snd (calculateCombinedWeight (new_ScoreBoard_score ''nce'' PAGE_RANK (Fin 50)))) =
    calculateCombinedWeight (new_ScoreBoard_score ''nce'' PAGE_RANK (Fin 50))"
  by (rule combined_weight_idempotent) simp

text \<open>The combined weight is monotone: when two boards hold individual scores of the same types and
  each score of the first is at most the one of the second, the weight of the first is at most the
  weight of the second, rounding and overflow included.\<close>

theorem combined_weight_mono:
  assumes "list_all2 (\<lambda>v v'. proper_score v \<and> proper_score v' \<and> dle v v')
      (individual_scores sb) (individual_scores sb')"
  shows "dle (fst (calculateCombinedWeight sb)) (fst (calculateCombinedWeight sb'))"
  using fold_weight_mono [OF assms, of "Fin 100" "Fin 100"]
  by (simp add: calculateCombinedWeight_eq Let_def)

theorem combined_weight_mono_witness:
  "dle (fst (calculateCombinedWeight (new_ScoreBoard_score ''nce'' PAGE_RANK (Fin 20))))
     (fst (calculateCombinedWeight (new_ScoreBoard_score ''nce'' PAGE_RANK (Fin 64))))"
  by (rule combined_weight_mono)
    (simp add: individual_scores_def new_ScoreBoard_score_def setScore_def new_ScoreBoard_def
      om_empty_def om_entries_def isIndividualScore_def proper_numeral)

end
