(* ===== verification/Filters.thy ===== *)
theory Filters
  imports Words
begin

text \<open>
  The filters of outer and short words (\<^verbatim>\<open>bom/Filter.cpp\<close>) and the list of words that are not
  indexed (\<^verbatim>\<open>ListGenerator::createBlackList\<close> of \<^verbatim>\<open>basic/BasConst.cpp\<close>). Words are byte strings: a
  letter outside ASCII is written as the bytes of its UTF-8 encoding, and lengths count bytes.
\<close>

section \<open>The black list\<close>

definition K_BLACK_LIST :: "string list" where
  "K_BLACK_LIST =
    [''City'', ''city'', ''Ville'', ''ville'', ''Stadt'', ''stadt'', ''Gorod'', ''gorod'',
     ''Airport'', ''airport'', ''Airfield'', ''airfield'', ''Airbase'', ''airbase'', ''Aeroport'',
     ''aeroport'', ''A'' @ [CHR 0xC3, CHR 0xA9] @ ''roport'',
     ''a'' @ [CHR 0xC3, CHR 0xA9] @ ''roport'', ''Flughafen'', ''flughafen'', ''Flughafe'',
     ''flughafe'', ''Flughaveno'', ''flughaveno'', ''Lufthavn'', ''lufthavn'', ''Letise'',
     ''letise'', ''Letisko'', ''letisko'', ''Lotniczy'', ''lotniczy'', ''Lentoasema'',
     ''lentoasema'', ''Lapangan'', ''lapangan'', ''Bandar'', ''bandar'', ''Udara'', ''udara'',
     ''Terbang'', ''terbang'',
     ''Rep'' @ [CHR 0xC3, CHR 0xBC] @ ''l'' @ [CHR 0xC5, CHR 0x91] @ ''t'' @ [CHR 0xC3, CHR 0xA9] @ ''r'',
     ''rep'' @ [CHR 0xC3, CHR 0xBC] @ ''l'' @ [CHR 0xC5, CHR 0x91] @ ''t'' @ [CHR 0xC3, CHR 0xA9] @ ''r'',
     ''Aerodrome'', ''aerodrome'', ''Aerodromo'', ''aerodromo'', ''Aeroporto'', ''aeroporto'',
     ''Aeropuerto'', ''aeropuerto'',
     [CHR 0xD0, CHR 0x90, CHR 0xD1, CHR 0x8D, CHR 0xD1, CHR 0x80, CHR 0xD0, CHR 0xBE, CHR 0xD0, CHR 0xBF, CHR 0xD0, CHR 0xBE, CHR 0xD1, CHR 0x80, CHR 0xD1, CHR 0x82],
     [CHR 0xD0, CHR 0xB0, CHR 0xD1, CHR 0x8D, CHR 0xD1, CHR 0x80, CHR 0xD0, CHR 0xBE, CHR 0xD0, CHR 0xBF, CHR 0xD0, CHR 0xBE, CHR 0xD1, CHR 0x80, CHR 0xD1, CHR 0x82],
     ''Leti'' @ [CHR 0xC5, CHR 0xA1] @ ''t'' @ [CHR 0xC4, CHR 0x9B],
     ''leti'' @ [CHR 0xC5, CHR 0xA1] @ ''t'' @ [CHR 0xC4, CHR 0x9B],
     [CHR 0xD0, CHR 0x9B, CHR 0xD0, CHR 0xB5, CHR 0xD1, CHR 0x82, CHR 0xD0, CHR 0xB8, CHR 0xD1, CHR 0x89, CHR 0xD0, CHR 0xB5],
     [CHR 0xD0, CHR 0xBB, CHR 0xD0, CHR 0xB5, CHR 0xD1, CHR 0x82, CHR 0xD0, CHR 0xB8, CHR 0xD1, CHR 0x89, CHR 0xD0, CHR 0xB5],
     ''S'' @ [CHR 0xC3, CHR 0xA2] @ ''n'', ''s'' @ [CHR 0xC3, CHR 0xA2] @ ''n'', ''Bay'', ''bay'',
     ''Qu'' @ [CHR 0xE1, CHR 0xBB, CHR 0x91] @ ''c'',
     ''qu'' @ [CHR 0xE1, CHR 0xBB, CHR 0x91] @ ''c'', ''T'' @ [CHR 0xE1, CHR 0xBA, CHR 0xBF],
     ''t'' @ [CHR 0xE1, CHR 0xBA, CHR 0xBF], ''International'', ''international'',
     ''Internacional'', ''internacional'', ''Internasional'', ''internasional'',
     ''Internazionale'', ''internazionale'', ''Internasjonale'', ''internasjonale'',
     [CHR 0xD0, CHR 0x9C, CHR 0xD0, CHR 0xB5, CHR 0xD0, CHR 0xB6, CHR 0xD0, CHR 0xB4, CHR 0xD1, CHR 0x83, CHR 0xD0, CHR 0xBD, CHR 0xD0, CHR 0xB0, CHR 0xD1, CHR 0x80, CHR 0xD0, CHR 0xBE, CHR 0xD0, CHR 0xB4, CHR 0xD0, CHR 0xBD, CHR 0xD1, CHR 0x8B, CHR 0xD0, CHR 0xB9],
     [CHR 0xD0, CHR 0xBC, CHR 0xD0, CHR 0xB5, CHR 0xD0, CHR 0xB6, CHR 0xD0, CHR 0xB4, CHR 0xD1, CHR 0x83, CHR 0xD0, CHR 0xBD, CHR 0xD0, CHR 0xB0, CHR 0xD1, CHR 0x80, CHR 0xD0, CHR 0xBE, CHR 0xD0, CHR 0xB4, CHR 0xD0, CHR 0xBD, CHR 0xD1, CHR 0x8B, CHR 0xD0, CHR 0xB9],
     [CHR 0xD0, CHR 0x9C, CHR 0xD0, CHR 0xB5, CHR 0xD0, CHR 0xB6, CHR 0xD0, CHR 0xB4, CHR 0xD1, CHR 0x83, CHR 0xD0, CHR 0xBD, CHR 0xD0, CHR 0xB0, CHR 0xD1, CHR 0x80, CHR 0xD0, CHR 0xBE, CHR 0xD0, CHR 0xB4, CHR 0xD0, CHR 0xBD, CHR 0xD0, CHR 0xBE],
     [CHR 0xD0, CHR 0xBC, CHR 0xD0, CHR 0xB5, CHR 0xD0, CHR 0xB6, CHR 0xD0, CHR 0xB4, CHR 0xD1, CHR 0x83, CHR 0xD0, CHR 0xBD, CHR 0xD0, CHR 0xB0, CHR 0xD1, CHR 0x80, CHR 0xD0, CHR 0xBE, CHR 0xD0, CHR 0xB4, CHR 0xD0, CHR 0xBD, CHR 0xD0, CHR 0xBE],
     ''Kansainv'' @ [CHR 0xC3, CHR 0xA4] @ ''linen'',
     ''kansainv'' @ [CHR 0xC3, CHR 0xA4] @ ''linen'', ''Nemzetk'' @ [CHR 0xC3, CHR 0xB6] @ ''zi'',
     ''nemzetk'' @ [CHR 0xC3, CHR 0xB6] @ ''zi'', ''Intl'', ''intl'', ''Saint'', ''saint'',
     ''Sankt'', ''sankt'', ''Municipal'', ''municipal'', ''County'', ''county'', ''Local'',
     ''local'', ''Ferry'', ''ferry'', ''Port'', ''port'', ''Harbour'', ''harbour'', ''Harbor'',
     ''harbor'']"

section \<open>The filters\<close>

definition hasGoodSize :: "string \<Rightarrow> nat \<Rightarrow> bool" where
  "hasGoodSize iWord iMinWordLength = (if length iWord < iMinWordLength then False else True)"

definition isBlackListed :: "string \<Rightarrow> bool" where
  "isBlackListed iWord \<longleftrightarrow> iWord \<in> set K_BLACK_LIST"

function rtrim :: "string list \<Rightarrow> nat \<Rightarrow> string list" where
  "rtrim ioWordList iMinWordLength =
     (if ioWordList = [] then ioWordList
      else let lWord = last ioWordList
           in if \<not> hasGoodSize lWord iMinWordLength \<or> isBlackListed lWord
              then rtrim (butlast ioWordList) iMinWordLength
              else ioWordList)"
  by pat_completeness auto
termination
  by (relation "measure (\<lambda>(ws, n). length ws)") auto

function ltrim :: "string list \<Rightarrow> nat \<Rightarrow> string list" where
  "ltrim ioWordList iMinWordLength =
     (if ioWordList = [] then ioWordList
      else let lWord = hd ioWordList
           in if \<not> hasGoodSize lWord iMinWordLength \<or> isBlackListed lWord
              then ltrim (tl ioWordList) iMinWordLength
              else ioWordList)"
  by pat_completeness auto
termination
  by (relation "measure (\<lambda>(ws, n). length ws)") auto

definition trim :: "string list \<Rightarrow> nat \<Rightarrow> string list" where
  "trim ioWordList iMinWordLength = rtrim (ltrim ioWordList iMinWordLength) iMinWordLength"

definition Filter_trim :: "tokeniser \<Rightarrow> string \<Rightarrow> nat \<Rightarrow> string" where
  "Filter_trim tkz ioPhrase iMinWordLength =
     (let lWordList = tokeniseStringIntoWordList tkz ioPhrase [];
          lWordList = trim lWordList iMinWordLength
      in createString lWordList)"

definition shouldKeep :: "string \<Rightarrow> string \<Rightarrow> bool" where
  "shouldKeep iPhrase iWord =
     (if iPhrase = [] \<and> iWord = [] then False
      else if iPhrase = iWord then True
      else if \<not> hasGoodSize iWord 3 then False
      else \<not> isBlackListed iWord)"

declare rtrim.simps [simp del] ltrim.simps [simp del]

section \<open>Trimming drops the irrelevant outer words\<close>

text \<open>A word is relevant when it is long enough and not black-listed.\<close>

definition relevant :: "nat \<Rightarrow> string \<Rightarrow> bool" where
  "relevant n w \<longleftrightarrow> n \<le> length w \<and> w \<notin> set K_BLACK_LIST"

lemma ltrim_eq: "ltrim ws n = dropWhile (\<lambda>w. \<not> relevant n w) ws"
proof (induction ws)
  case (Cons w ws)
  then show ?case
    by (simp add: ltrim.simps [of "w # ws"] Let_def relevant_def hasGoodSize_def isBlackListed_def)
qed (simp add: ltrim.simps)

lemma rtrim_eq: "rtrim ws n = rev (dropWhile (\<lambda>w. \<not> relevant n w) (rev ws))"
proof (induction ws rule: rev_induct)
  case (snoc w ws)
  then show ?case
    by (simp add: rtrim.simps [of "ws @ [w]"] Let_def relevant_def hasGoodSize_def isBlackListed_def)
qed (simp add: rtrim.simps)

lemma trim_split:
  obtains l r where "ws = l @ trim ws n @ r" "\<forall>w \<in> set l. \<not> relevant n w" "\<forall>w \<in> set r. \<not> relevant n w"
proof -
  let ?P = "\<lambda>w. \<not> relevant n w"
  let ?m = "dropWhile ?P ws"
  have "?m = rev (dropWhile ?P (rev ?m)) @ rev (takeWhile ?P (rev ?m))"
    by (metis rev_append rev_rev_ident takeWhile_dropWhile_id)
  then have "ws = takeWhile ?P ws @ trim ws n @ rev (takeWhile ?P (rev ?m))"
    unfolding trim_def ltrim_eq rtrim_eq by (metis takeWhile_dropWhile_id)
  moreover have "\<forall>w \<in> set (takeWhile ?P xs). ?P w" for xs by (auto dest: set_takeWhileD)
  ultimately show thesis using that by (metis set_rev)
qed

lemma trim_outer:
  assumes "trim ws n \<noteq> []"
  shows "relevant n (hd (trim ws n)) \<and> relevant n (last (trim ws n))"
proof -
  let ?P = "\<lambda>w. \<not> relevant n w"
  let ?m = "dropWhile ?P ws"
  let ?t = "dropWhile ?P (rev ?m)"
  have t: "trim ws n = rev ?t" by (simp add: trim_def ltrim_eq rtrim_eq)
  with assms have ne: "?t \<noteq> []" by simp
  then have last: "relevant n (hd ?t)" using hd_dropWhile [of ?P "rev ?m"] by simp
  have m: "?m \<noteq> []" using ne by (metis dropWhile.simps(1) rev.simps(1))
  then have hd: "relevant n (hd ?m)" using hd_dropWhile [of ?P ws] by simp
  have "rev ?m = takeWhile ?P (rev ?m) @ ?t" by (rule takeWhile_dropWhile_id [symmetric])
  then have "last (rev ?m) = last ?t" using ne by (metis last_appendR)
  then have "hd ?m = last ?t" by (simp add: last_rev)
  then show ?thesis using t last hd ne by (simp add: hd_rev last_rev)
qed

lemma trim_subset: "set (trim ws n) \<subseteq> set ws"
proof -
  obtain l r where "ws = l @ trim ws n @ r" by (rule trim_split [of ws n])
  then have "set ws = set l \<union> set (trim ws n) \<union> set r" by (metis set_append Un_assoc)
  then show ?thesis by blast
qed

lemma trim_length: "length (trim ws n) \<le> length ws"
proof -
  obtain l r where "ws = l @ trim ws n @ r" by (rule trim_split [of ws n])
  then have "length ws = length l + length (trim ws n) + length r" by (metis add.assoc length_append)
  then show ?thesis by simp
qed

lemma trim_idem: "trim (trim ws n) n = trim ws n"
proof (cases "trim ws n = []")
  case True
  show ?thesis unfolding True by (simp add: trim_def ltrim_eq rtrim_eq)
next
  case False
  have fix_hd: "dropWhile (\<lambda>w. \<not> relevant n w) xs = xs" if "xs \<noteq> []" "relevant n (hd xs)" for xs
    using that by (cases xs) auto
  show ?thesis
    using trim_outer [OF False] False
    unfolding trim_def [of "trim ws n"] ltrim_eq rtrim_eq
    by (simp add: fix_hd hd_rev)
qed

section \<open>Properties\<close>

text \<open>Trimming a phrase leaves out irrelevant words (too short or black-listed) at both ends only,
  stops at the first relevant word on each side, and doing it again changes nothing.\<close>

theorem Filter_trim_correct:
  assumes "char_separator tkz" and "ws = tkz AllSepatorList s" and "length ws \<le> 65535"
  shows "\<exists>l m r. ws = l @ m @ r \<and> Filter_trim tkz s n = join_words m \<and>
      (\<forall>w \<in> set l \<union> set r. \<not> relevant n w) \<and>
      (m = [] \<or> relevant n (hd m) \<and> relevant n (last m)) \<and>
    Filter_trim tkz (Filter_trim tkz s n) n = Filter_trim tkz s n"
proof -
  obtain l r where split: "ws = l @ trim ws n @ r"
      "\<forall>w \<in> set l. \<not> relevant n w" "\<forall>w \<in> set r. \<not> relevant n w"
    by (rule trim_split)
  have clean: "\<forall>w \<in> set (trim ws n). clean_word AllSepatorList w"
    using assms(2) char_separator.tkz_clean [OF assms(1)] trim_subset by blast
  have len: "length (trim ws n) \<le> 65536" using assms(3) trim_length [of ws n] by linarith
  have eq: "Filter_trim tkz s n = join_words (trim ws n)"
    using len by (simp add: Filter_trim_def Let_def assms(2))
  have "tkz AllSepatorList (join_words (trim ws n)) = trim ws n"
    using char_separator.tkz_join [OF assms(1) space_in_AllSepatorList clean] .
  then have "Filter_trim tkz (Filter_trim tkz s n) n = Filter_trim tkz s n"
    unfolding eq using len by (simp add: Filter_trim_def Let_def trim_idem)
  then show ?thesis
    using split trim_outer [of ws n] eq by (intro exI [of _ l] exI [of _ "trim ws n"] exI [of _ r]) auto
qed

theorem Filter_trim_correct_witness:
  "Filter_trim split_tokens (Filter_trim split_tokens ''le city of light intl'' 3) 3 =
     Filter_trim split_tokens ''le city of light intl'' 3 \<and>
   Filter_trim split_tokens ''le city of light intl'' 3 = ''light''"
proof -
  have "Filter_trim split_tokens ''le city of light intl'' 3 = ''light''"
    by (simp add: Filter_trim_def Let_def AllSepatorList_def trim_def ltrim_eq rtrim_eq relevant_def
      K_BLACK_LIST_def)
  then show ?thesis
    using Filter_trim_correct [of split_tokens "split_tokens AllSepatorList ''le city of light intl''"
        "''le city of light intl''" 3, OF boost.char_separator_axioms]
    by (auto simp: AllSepatorList_def)
qed

text \<open>A word of a phrase is kept exactly when it is the whole, non-empty, phrase or it has at least
  three bytes and is not black-listed.\<close>

theorem shouldKeep_iff:
  "shouldKeep iPhrase iWord \<longleftrightarrow>
     (iPhrase = iWord \<and> iWord \<noteq> []) \<or> (iPhrase \<noteq> iWord \<and> 3 \<le> length iWord \<and> iWord \<notin> set K_BLACK_LIST)"
  by (auto simp: shouldKeep_def hasGoodSize_def isBlackListed_def)

end
