(* ===== verification/Edit_Distance.thy ===== *)
theory Edit_Distance
  imports Doubles
begin

text \<open>
  The edit distance of two strings (\<^verbatim>\<open>bom/Levenshtein.cpp\<close>), the error allowance of a query
  (\<^verbatim>\<open>calculateEditDistance\<close> of \<^verbatim>\<open>bom/QuerySlices.cpp\<close> and \<^verbatim>\<open>bom/Result.cpp\<close>) and the error scale of
  \<^verbatim>\<open>DistanceErrorRule.hpp\<close>.

  The matrix of the code is a list of rows. The reference \<open>edist\<close> is the recursion of the matrix on
  reversed prefixes, and \<open>edits\<close> the transformations it counts: deletion, insertion, substitution,
  and the exchange of two adjacent characters where at least one character precedes them in both
  strings, which is the guard \<^verbatim>\<open>i > 2 && j > 2\<close> of the code.

  The code keeps the lengths of the two strings, and the cells, as 32-bit integers: the model is the code for strings of fewer
  than \<open>2 ^ 31\<close> characters, where no length is narrowed and no cell wraps, since a distance is at most the longer length. A matrix
  for longer strings would not be in memory.
\<close>

section \<open>The matrix algorithm\<close>

type_synonym matrix = "int list list"

definition mat_get :: "matrix \<Rightarrow> nat \<Rightarrow> nat \<Rightarrow> int" where
  "mat_get m i j = m ! i ! j"

definition mat_set :: "matrix \<Rightarrow> nat \<Rightarrow> nat \<Rightarrow> int \<Rightarrow> matrix" where
  "mat_set m i j v = m[i := (m ! i)[j := v]]"

definition lev_init :: "nat \<Rightarrow> nat \<Rightarrow> matrix" where
  "lev_init n m =
     (let matrix = replicate (n + 1) (replicate (m + 1) 0);
          matrix = fold (\<lambda>i matrix. mat_set matrix i 0 (int i)) [0..<n + 1] matrix
      in fold (\<lambda>j matrix. mat_set matrix 0 j (int j)) [0..<m + 1] matrix)"

definition lev_cell :: "string \<Rightarrow> string \<Rightarrow> matrix \<Rightarrow> nat \<Rightarrow> nat \<Rightarrow> int" where
  "lev_cell iSource iTarget matrix i j =
     (let s_i = iSource ! (i - 1);
          t_j = iTarget ! (j - 1);
          cost = (if s_i = t_j then 0 else 1);
          above = mat_get matrix (i - 1) j;
          left = mat_get matrix i (j - 1);
          diag = mat_get matrix (i - 1) (j - 1);
          cell = min (above + 1) (min (left + 1) (diag + cost))
      in if i > 2 \<and> j > 2
         then (let trans = mat_get matrix (i - 2) (j - 2) + 1;
                   trans = (if iSource ! (i - 2) \<noteq> t_j then trans + 1 else trans);
                   trans = (if s_i \<noteq> iTarget ! (j - 2) then trans + 1 else trans)
               in if cell > trans then trans else cell)
         else cell)"

definition lev_row :: "string \<Rightarrow> string \<Rightarrow> nat \<Rightarrow> nat \<Rightarrow> matrix \<Rightarrow> matrix" where
  "lev_row iSource iTarget m i matrix =
     fold (\<lambda>j matrix. mat_set matrix i j (lev_cell iSource iTarget matrix i j)) [1..<m + 1] matrix"

definition getDistance :: "string \<Rightarrow> string \<Rightarrow> int" where
  "getDistance iSource iTarget =
     (let n = length iSource; m = length iTarget
      in if n = 0 then int m
         else if m = 0 then int n
         else mat_get (fold (\<lambda>i matrix. lev_row iSource iTarget m i matrix) [1..<n + 1] (lev_init n m)) n m)"

section \<open>The error allowances\<close>

definition calculateEditDistance :: "string \<Rightarrow> nat" where
  "calculateEditDistance iPhrase =
     (let lQueryStringSize = (word_of_nat (length iPhrase) :: 16 word)
      in unat lQueryStringSize div K_DEFAULT_SIZE_FOR_SPELLING_ERROR_UNIT)"

type_synonym error_scale = "(nat, 16 word) omap"

definition K_DEFAULT_ERROR_SCALE :: "nat list" where
  "K_DEFAULT_ERROR_SCALE = [3, 6, 9, 14, 19]"

definition new_DistanceErrorRule :: "nat list \<Rightarrow> error_scale" where
  "new_DistanceErrorRule iScaleArray =
     fold (\<lambda>idx scale. case om_find scale (iScaleArray ! idx) of
         None \<Rightarrow> om_put (iScaleArray ! idx) (word_of_nat idx) scale
       | Some _ \<Rightarrow> scale) [0..<length iScaleArray] om_empty"

definition getAllowedDistanceError :: "error_scale \<Rightarrow> 32 word \<Rightarrow> 16 word" where
  "getAllowedDistanceError scale iNbOfLetters =
     (case om_lower_bound scale (unat iNbOfLetters) of
        Some (_, errors) \<Rightarrow> errors
      | None \<Rightarrow> ucast (iNbOfLetters div 4))"

section \<open>The reference recursion\<close>

fun edist :: "string \<Rightarrow> string \<Rightarrow> int" where
  "edist [] ys = int (length ys)"
| "edist (a # xs) [] = int (length (a # xs))"
| "edist (a # xs) (b # ys) =
     (let cell = min (edist xs (b # ys) + 1) (min (edist (a # xs) ys + 1) (edist xs ys + of_bool (a \<noteq> b)))
      in case (xs, ys) of
           (a' # xs', b' # ys') \<Rightarrow>
             (if xs' \<noteq> [] \<and> ys' \<noteq> []
              then min cell (edist xs' ys' + 1 + of_bool (a' \<noteq> b) + of_bool (a \<noteq> b'))
              else cell)
         | _ \<Rightarrow> cell)"

lemma edist_Nil2 [simp]: "edist xs [] = int (length xs)"
  by (cases xs) simp_all

text \<open>The matrix entry for two prefixes.\<close>

definition pdist :: "string \<Rightarrow> string \<Rightarrow> nat \<Rightarrow> nat \<Rightarrow> int" where
  "pdist s t i j = edist (rev (take i s)) (rev (take j t))"

lemma pdist_0: "pdist s t 0 j = int (min (length t) j)" "pdist s t i 0 = int (min (length s) i)"
  by (simp_all add: pdist_def)

lemma rev_take_Suc: "i < length s \<Longrightarrow> rev (take (Suc i) s) = s ! i # rev (take i s)"
  by (simp add: take_Suc_conv_app_nth)

lemma edist_Cons:
  "edist (a # xs) (b # ys) =
     (let cell = min (edist xs (b # ys) + 1) (min (edist (a # xs) ys + 1) (edist xs ys + of_bool (a \<noteq> b)))
      in if 2 \<le> length xs \<and> 2 \<le> length ys
         then min cell (edist (tl xs) (tl ys) + 1 + of_bool (hd xs \<noteq> b) + of_bool (a \<noteq> hd ys))
         else cell)"
  unfolding edist.simps(3)
  by (cases xs; cases ys) (auto simp: Let_def Suc_le_eq simp del: edist.simps)

lemma hd_tl_rev_take:
  "0 < i \<Longrightarrow> i \<le> length s \<Longrightarrow> hd (rev (take i s)) = s ! (i - 1) \<and> tl (rev (take i s)) = rev (take (i - 1) s)"
  by (cases i) (simp_all add: rev_take_Suc)

lemma pdist_Suc:
  assumes "i < length s" and "j < length t"
  shows "pdist s t (Suc i) (Suc j) =
    (let cell = min (pdist s t i (Suc j) + 1)
           (min (pdist s t (Suc i) j + 1) (pdist s t i j + of_bool (s ! i \<noteq> t ! j)))
     in if 2 \<le> i \<and> 2 \<le> j
        then min cell (pdist s t (i - 1) (j - 1) + 1 + of_bool (s ! (i - 1) \<noteq> t ! j) +
          of_bool (s ! i \<noteq> t ! (j - 1)))
        else cell)"
proof -
  have len: "length (rev (take i s)) = i" "length (rev (take j t)) = j" using assms by simp_all
  show ?thesis
  proof (cases "2 \<le> i \<and> 2 \<le> j")
    case True
    then have "hd (rev (take i s)) = s ! (i - 1)" "tl (rev (take i s)) = rev (take (i - 1) s)"
        "hd (rev (take j t)) = t ! (j - 1)" "tl (rev (take j t)) = rev (take (j - 1) t)"
      using hd_tl_rev_take [of i s] hd_tl_rev_take [of j t] assms by auto
    then show ?thesis
      unfolding pdist_def rev_take_Suc [OF assms(1)] rev_take_Suc [OF assms(2)] edist_Cons len
      by (simp only:)
  next
    case False
    then show ?thesis
      unfolding pdist_def rev_take_Suc [OF assms(1)] rev_take_Suc [OF assms(2)] edist_Cons len
      by (simp only: False if_False Let_def)
  qed
qed

section \<open>The matrix holds the reference distances\<close>

text \<open>The matrix has the right shape, and its entries are right for the cells filled so far.\<close>

definition mat_ok :: "string \<Rightarrow> string \<Rightarrow> (nat \<Rightarrow> nat \<Rightarrow> bool) \<Rightarrow> matrix \<Rightarrow> bool" where
  "mat_ok s t done M \<longleftrightarrow> length M = length s + 1 \<and> (\<forall>r \<in> set M. length r = length t + 1) \<and>
     (\<forall>i \<le> length s. \<forall>j \<le> length t. done i j \<longrightarrow> mat_get M i j = pdist s t i j)"

lemma mat_get_set:
  "i < length M \<Longrightarrow> j < length (M ! i) \<Longrightarrow>
    mat_get (mat_set M i j v) i' j' = (if i' = i \<and> j' = j then v else mat_get M i' j')"
  by (auto simp: mat_get_def mat_set_def nth_list_update)

lemma mat_set_shape:
  "length M = n \<and> (\<forall>r \<in> set M. length r = k) \<Longrightarrow> i < n \<Longrightarrow>
    length (mat_set M i j v) = n \<and> (\<forall>r \<in> set (mat_set M i j v). length r = k)"
  by (auto simp: mat_set_def dest!: set_update_subset_insert [THEN subsetD])

lemma mat_ok_set:
  assumes "mat_ok s t done M" and "i \<le> length s" and "j \<le> length t" and "v = pdist s t i j"
    and "\<And>i' j'. done' i' j' \<Longrightarrow> i' = i \<and> j' = j \<or> done i' j'"
  shows "mat_ok s t done' (mat_set M i j v)"
proof -
  have shape: "length M = length s + 1 \<and> (\<forall>r \<in> set M. length r = length t + 1)"
    using assms(1) by (simp add: mat_ok_def)
  have "i < length M" "j < length (M ! i)" using shape assms(2,3) by auto
  then show ?thesis
    using mat_set_shape [OF shape, of i j v] assms
    by (fastforce simp: mat_ok_def mat_get_set)
qed

lemma mat_ok_mono:
  assumes "mat_ok s t done M" and "\<And>i j. i \<le> length s \<Longrightarrow> j \<le> length t \<Longrightarrow> done' i j \<Longrightarrow> done i j"
  shows "mat_ok s t done' M"
  using assms by (simp add: mat_ok_def)

lemma lev_init_ok: "mat_ok s t (\<lambda>i j. i = 0 \<or> j = 0) (lev_init (length s) (length t))"
proof -
  let ?n = "length s" and ?m = "length t"
  define M0 :: matrix where "M0 = replicate (?n + 1) (replicate (?m + 1) 0)"
  define M1 where "M1 = fold (\<lambda>i M. mat_set M i 0 (int i)) [0..<?n + 1] M0"
  have "mat_ok s t (\<lambda>i j. j = 0 \<and> i < ?n + 1) M1"
    unfolding M1_def
  proof (rule fold_upt_invariant [where P="\<lambda>k. mat_ok s t (\<lambda>i j. j = 0 \<and> i < k)"])
    show "mat_ok s t (\<lambda>i j. j = 0 \<and> i < 0) M0" by (simp add: mat_ok_def M0_def del: replicate.simps)
    fix k M
    assume "k < ?n + 1" "mat_ok s t (\<lambda>i j. j = 0 \<and> i < k) M"
    then show "mat_ok s t (\<lambda>i j. j = 0 \<and> i < Suc k) (mat_set M k 0 (int k))"
      by (intro mat_ok_set) (auto simp: pdist_0)
  qed simp
  then have rows: "mat_ok s t (\<lambda>i j. j = 0 \<or> i = 0 \<and> j < 0) M1" by (rule mat_ok_mono) simp
  have "mat_ok s t (\<lambda>i j. j = 0 \<or> i = 0 \<and> j < ?m + 1) (fold (\<lambda>j M. mat_set M 0 j (int j)) [0..<?m + 1] M1)"
  proof (rule fold_upt_invariant [where P="\<lambda>k. mat_ok s t (\<lambda>i j. j = 0 \<or> i = 0 \<and> j < k)"])
    show "mat_ok s t (\<lambda>i j. j = 0 \<or> i = 0 \<and> j < 0) M1" by (rule rows)
    fix k M
    assume "k < ?m + 1" "mat_ok s t (\<lambda>i j. j = 0 \<or> i = 0 \<and> j < k) M"
    then show "mat_ok s t (\<lambda>i j. j = 0 \<or> i = 0 \<and> j < Suc k) (mat_set M 0 k (int k))"
      by (intro mat_ok_set) (auto simp: pdist_0)
  qed simp
  then show ?thesis
    unfolding lev_init_def Let_def M0_def [symmetric] M1_def [symmetric]
    by (rule mat_ok_mono) auto
qed

lemma lev_cell_ok:
  assumes "mat_ok s t (\<lambda>a b. a = 0 \<or> b = 0 \<or> a < Suc i \<or> a = Suc i \<and> b < Suc j) M"
    and "i < length s" and "j < length t"
  shows "lev_cell s t M (Suc i) (Suc j) = pdist s t (Suc i) (Suc j)"
proof -
  have get: "mat_get M a b = pdist s t a b"
    if "a = 0 \<or> b = 0 \<or> a < Suc i \<or> a = Suc i \<and> b < Suc j" "a \<le> length s" "b \<le> length t" for a b
    using assms(1) that by (auto simp: mat_ok_def)
  have near: "mat_get M i (Suc j) = pdist s t i (Suc j)" "mat_get M (Suc i) j = pdist s t (Suc i) j"
      "mat_get M i j = pdist s t i j"
    using assms(2,3) by (auto intro: get)
  have far: "mat_get M (i - 1) (j - 1) = pdist s t (i - 1) (j - 1)"
    by (rule get) (use assms(2,3) in linarith)+
  have guard: "(Suc i > 2 \<and> Suc j > 2) = (2 \<le> i \<and> 2 \<le> j)" by auto
  have pick: "(if c > t then t else c) = min c t" for c t :: int by simp
  have incr: "(if b then x + 1 else x) = x + of_bool b" for b and x :: int by simp
  have cost: "(if p then 0 else 1) = (of_bool (\<not> p) :: int)" for p by simp
  have idx: "Suc i - 2 = i - 1" "Suc j - 2 = j - 1" by simp_all
  show ?thesis
    unfolding pdist_Suc [OF assms(2,3)] lev_cell_def Let_def diff_Suc_1 near far guard pick incr cost
      idx ..
qed

lemma lev_row_ok:
  assumes "mat_ok s t (\<lambda>a b. a = 0 \<or> b = 0 \<or> a < Suc i) M" and "i < length s"
  shows "mat_ok s t (\<lambda>a b. a = 0 \<or> b = 0 \<or> a < Suc (Suc i)) (lev_row s t (length t) (Suc i) M)"
proof -
  have "mat_ok s t (\<lambda>a b. a = 0 \<or> b = 0 \<or> a < Suc i \<or> a = Suc i \<and> b < length t + 1)
      (fold (\<lambda>j M. mat_set M (Suc i) j (lev_cell s t M (Suc i) j)) [1..<length t + 1] M)"
  proof (rule fold_upt_invariant [where
        P="\<lambda>k. mat_ok s t (\<lambda>a b. a = 0 \<or> b = 0 \<or> a < Suc i \<or> a = Suc i \<and> b < k)"])
    show "mat_ok s t (\<lambda>a b. a = 0 \<or> b = 0 \<or> a < Suc i \<or> a = Suc i \<and> b < 1) M"
      using assms(1) by (rule mat_ok_mono) auto
    fix k M
    assume k: "1 \<le> k" "k < length t + 1"
      and ok: "mat_ok s t (\<lambda>a b. a = 0 \<or> b = 0 \<or> a < Suc i \<or> a = Suc i \<and> b < k) M"
    from k obtain j where j: "k = Suc j" "j < length t" by (cases k) auto
    show "mat_ok s t (\<lambda>a b. a = 0 \<or> b = 0 \<or> a < Suc i \<or> a = Suc i \<and> b < Suc k)
        (mat_set M (Suc i) k (lev_cell s t M (Suc i) k))"
      using ok unfolding j(1)
      by (rule mat_ok_set) (use assms(2) j ok in \<open>auto intro: lev_cell_ok\<close>)
  qed simp
  then show ?thesis unfolding lev_row_def by (rule mat_ok_mono) auto
qed

lemma getDistance_eq: "getDistance s t = edist (rev s) (rev t)"
proof (cases "s = [] \<or> t = []")
  case True
  then show ?thesis by (auto simp: getDistance_def Let_def)
next
  case False
  have "mat_ok s t (\<lambda>a b. a = 0 \<or> b = 0 \<or> a < length s + 1)
      (fold (\<lambda>i M. lev_row s t (length t) i M) [1..<length s + 1] (lev_init (length s) (length t)))"
  proof (rule fold_upt_invariant [where P="\<lambda>k. mat_ok s t (\<lambda>a b. a = 0 \<or> b = 0 \<or> a < k)"])
    show "mat_ok s t (\<lambda>a b. a = 0 \<or> b = 0 \<or> a < 1) (lev_init (length s) (length t))"
      using lev_init_ok by (rule mat_ok_mono) auto
    fix k M
    assume k: "1 \<le> k" "k < length s + 1" and ok: "mat_ok s t (\<lambda>a b. a = 0 \<or> b = 0 \<or> a < k) M"
    from k obtain i where i: "k = Suc i" "i < length s" by (cases k) auto
    show "mat_ok s t (\<lambda>a b. a = 0 \<or> b = 0 \<or> a < Suc k) (lev_row s t (length t) k M)"
      using ok unfolding i(1) using i(2) by (rule lev_row_ok)
  qed simp
  then show ?thesis
    using False by (simp add: getDistance_def Let_def mat_ok_def pdist_def del: upt_Suc)
qed

section \<open>Transformations of strings\<close>

inductive edits :: "string \<Rightarrow> string \<Rightarrow> int \<Rightarrow> bool" where
  nothing: "edits [] [] 0"
| deletion: "edits s t k \<Longrightarrow> edits (s @ [a]) t (k + 1)"
| insertion: "edits s t k \<Longrightarrow> edits s (t @ [b]) (k + 1)"
| substitution: "edits s t k \<Longrightarrow> edits (s @ [a]) (t @ [b]) (k + of_bool (a \<noteq> b))"
| transposition: "edits s t k \<Longrightarrow> s \<noteq> [] \<Longrightarrow> t \<noteq> [] \<Longrightarrow>
    edits (s @ [a', a]) (t @ [b', b]) (k + 1 + of_bool (a' \<noteq> b) + of_bool (a \<noteq> b'))"

lemma edist_le:
  "edist (a # xs) ys \<le> edist xs ys + 1" "edist xs (b # ys) \<le> edist xs ys + 1"
  "edist (a # xs) (b # ys) \<le> edist xs ys + of_bool (a \<noteq> b)"
proof -
  have *: "edist (a # xs) (b # ys) \<le> edist xs (b # ys) + 1 \<and>
      edist (a # xs) (b # ys) \<le> edist (a # xs) ys + 1 \<and>
      edist (a # xs) (b # ys) \<le> edist xs ys + of_bool (a \<noteq> b)" for a b xs ys
    unfolding edist_Cons Let_def by (auto simp: min_def simp del: edist.simps)
  show "edist (a # xs) ys \<le> edist xs ys + 1"
    using * [of a xs] by (cases ys) simp_all
  show "edist xs (b # ys) \<le> edist xs ys + 1"
    using * [of _ _ b ys] by (cases xs) simp_all
  show "edist (a # xs) (b # ys) \<le> edist xs ys + of_bool (a \<noteq> b)"
    using * by blast
qed

lemma edist_transposition:
  assumes "xs \<noteq> []" and "ys \<noteq> []"
  shows "edist (a # a' # xs) (b # b' # ys) \<le> edist xs ys + 1 + of_bool (a' \<noteq> b) + of_bool (a \<noteq> b')"
proof -
  have "2 \<le> length (a' # xs) \<and> 2 \<le> length (b' # ys)" using assms by (simp add: Suc_le_eq)
  then show ?thesis
    unfolding edist_Cons [of a "a' # xs" b "b' # ys"] Let_def list.sel
    by (simp only: if_True simp_thms min.cobounded2)
qed

lemma edist_lower: "edits s t k \<Longrightarrow> edist (rev s) (rev t) \<le> k"
proof (induction rule: edits.induct)
  case nothing
  then show ?case by simp
next
  case (deletion s t k a)
  then show ?case using edist_le(1) [of a "rev s" "rev t"] by (simp del: edist.simps)
next
  case (insertion s t k b)
  then show ?case using edist_le(2) [of "rev s" b "rev t"] by (simp del: edist.simps)
next
  case (substitution s t k a b)
  then show ?case using edist_le(3) [of a "rev s" b "rev t"] by (simp del: edist.simps)
next
  case (transposition s t k a' a b' b)
  then show ?case using edist_transposition [of "rev s" "rev t" a a' b b'] by (simp del: edist.simps)
qed

lemma edist_cases:
  "edist (a # xs) (b # ys) = edist xs (b # ys) + 1 \<or> edist (a # xs) (b # ys) = edist (a # xs) ys + 1 \<or>
   edist (a # xs) (b # ys) = edist xs ys + of_bool (a \<noteq> b) \<or>
   (\<exists>a' xs' b' ys'. xs = a' # xs' \<and> ys = b' # ys' \<and> xs' \<noteq> [] \<and> ys' \<noteq> [] \<and>
      edist (a # xs) (b # ys) = edist xs' ys' + 1 + of_bool (a' \<noteq> b) + of_bool (a \<noteq> b'))"
proof (cases "2 \<le> length xs \<and> 2 \<le> length ys")
  case True
  obtain a' xs' where xs: "xs = a' # xs'" "xs' \<noteq> []"
    using True by (cases xs) (auto simp: Suc_le_eq)
  obtain b' ys' where ys: "ys = b' # ys'" "ys' \<noteq> []"
    using True by (cases ys) (auto simp: Suc_le_eq)
  from xs ys show ?thesis
    unfolding edist_Cons [of a xs b ys] Let_def using True
    by (auto simp: min_def simp del: edist.simps)
next
  case False
  then show ?thesis
    unfolding edist_Cons [of a xs b ys] Let_def
    by (simp only: False if_False) (auto simp: min_def simp del: edist.simps)
qed

lemma edits_insert_all: "edits [] (rev ys) (int (length ys))"
proof (induction ys)
  case (Cons b ys)
  then show ?case using edits.insertion [of "[]" "rev ys" "int (length ys)" b] by (simp add: add.commute)
qed (simp add: edits.nothing)

lemma edits_delete_all: "edits (rev xs) [] (int (length xs))"
proof (induction xs)
  case (Cons a xs)
  then show ?case using edits.deletion [of "rev xs" "[]" "int (length xs)" a] by (simp add: add.commute)
qed (simp add: edits.nothing)

lemma edist_reached: "edits (rev xs) (rev ys) (edist xs ys)"
proof (induction "length xs + length ys" arbitrary: xs ys rule: less_induct)
  case less
  show ?case
  proof (cases "xs = [] \<or> ys = []")
    case True
    then show ?thesis using edits_insert_all [of ys] edits_delete_all [of xs] by auto
  next
    case False
    then obtain a us b vs where x: "xs = a # us" and y: "ys = b # vs" by (meson neq_Nil_conv)
    have "edits (rev us) (rev ys) (edist us ys)" "edits (rev xs) (rev vs) (edist xs vs)"
        "edits (rev us) (rev vs) (edist us vs)"
      by (intro less.hyps; simp add: x y)+
    note step = edits.deletion [OF this(1), of a] edits.insertion [OF this(2), of b]
      edits.substitution [OF this(3), of a b]
    consider (del) "edist xs ys = edist us ys + 1" | (ins) "edist xs ys = edist xs vs + 1"
      | (sub) "edist xs ys = edist us vs + of_bool (a \<noteq> b)"
      | (trans) a' us' b' vs' where "us = a' # us'" "vs = b' # vs'" "us' \<noteq> []" "vs' \<noteq> []"
          "edist xs ys = edist us' vs' + 1 + of_bool (a' \<noteq> b) + of_bool (a \<noteq> b')"
      using edist_cases [of a us b vs] unfolding x [symmetric] y [symmetric] by blast
    then show ?thesis
    proof cases
      case del
      show ?thesis using step(1) unfolding del by (simp add: x)
    next
      case ins
      show ?thesis using step(2) unfolding ins by (simp add: y)
    next
      case sub
      show ?thesis using step(3) unfolding sub by (simp add: x y)
    next
      case trans
      have "length us' + length vs' < length xs + length ys" using trans(1,2) by (simp add: x y)
      then have "edits (rev us') (rev vs') (edist us' vs')" by (rule less.hyps)
      then have "edits (rev us' @ [a', a]) (rev vs' @ [b', b])
          (edist us' vs' + 1 + of_bool (a' \<noteq> b) + of_bool (a \<noteq> b'))"
        using trans(3,4) by (intro edits.transposition) auto
      moreover have "rev us' @ [a', a] = rev xs" "rev vs' @ [b', b] = rev ys"
        using trans(1,2) x y by simp_all
      ultimately show ?thesis using trans(5) by metis
    qed
  qed
qed

lemma edits_nonneg: "edits s t k \<Longrightarrow> 0 \<le> k"
  by (induction rule: edits.induct) auto

lemma edits_sym: "edits s t k \<Longrightarrow> edits t s k"
proof (induction rule: edits.induct)
  case (substitution s t k a b)
  then show ?case using edits.substitution [of t s k b a] by (simp add: eq_commute)
next
  case (transposition s t k a' a b' b)
  then show ?case
    using edits.transposition [of t s k b' b a' a] by (simp add: eq_commute add.commute add.left_commute)
qed (auto intro: edits.intros)

lemma edits_zero: "edits s t k \<Longrightarrow> k = 0 \<Longrightarrow> s = t"
proof (induction rule: edits.induct)
  case (substitution s t k a b)
  then have "0 \<le> k" by (intro edits_nonneg)
  with substitution show ?case by (cases "a = b") auto
next
  case (transposition s t k a' a b' b)
  then have "0 \<le> k" by (intro edits_nonneg)
  moreover have "0 \<le> (of_bool (a' \<noteq> b) :: int)" "0 \<le> (of_bool (a \<noteq> b') :: int)" by simp_all
  ultimately show ?case using transposition.prems by linarith
qed (auto dest: edits_nonneg)

lemma edits_same: "edits s s 0"
proof (induction s rule: rev_induct)
  case (snoc a s)
  then show ?case using edits.substitution [of s s 0 a a] by simp
qed (rule edits.nothing)

lemma edits_length: "edits s t k \<Longrightarrow> \<bar>int (length s) - int (length t)\<bar> \<le> k"
  by (induction rule: edits.induct) auto

lemma edist_max: "edist xs ys \<le> max (int (length xs)) (int (length ys))"
proof (induction xs arbitrary: ys)
  case (Cons a xs)
  show ?case
  proof (cases ys)
    case (Cons b vs)
    have "edist (a # xs) (b # vs) \<le> edist xs vs + 1"
      using edist_le(3) [of a xs b vs] by (cases "a = b") (simp_all del: edist.simps)
    then show ?thesis using Cons.IH [of vs] Cons by (simp del: edist.simps)
  qed simp
qed simp

section \<open>Properties\<close>

text \<open>C17: The matrix algorithm computes the least cost of turning one string into the other by
  deletions, insertions, substitutions and, after the first character, exchanges of two adjacent
  characters.\<close>

theorem getDistance_optimal:
  "edits s t (getDistance s t) \<and> (\<forall>k. edits s t k \<longrightarrow> getDistance s t \<le> k)"
  using edist_reached [of "rev s" "rev t"] edist_lower by (simp add: getDistance_eq)

theorem getDistance_optimal_witness:
  "getDistance ''aero'' ''aeor'' \<le> 1"
proof -
  have "edits ''aeor'' ''aero'' 1 \<and> edits ''aero'' ''aeor'' 1"
    using edits.transposition [OF edits_same, of "''ae''" "CHR ''r''" "CHR ''o''" "CHR ''o''" "CHR ''r''"]
      edits.transposition [OF edits_same, of "''ae''" "CHR ''o''" "CHR ''r''" "CHR ''r''" "CHR ''o''"]
    by simp
  then show ?thesis using getDistance_optimal [of "''aero''" "''aeor''"] by blast
qed

text \<open>The distance is symmetric, zero exactly for equal strings, at least the difference of the
  lengths and at most the greater length.\<close>

theorem getDistance_metric:
  "getDistance s t = getDistance t s \<and> (getDistance s t = 0 \<longleftrightarrow> s = t) \<and>
   \<bar>int (length s) - int (length t)\<bar> \<le> getDistance s t \<and>
   getDistance s t \<le> max (int (length s)) (int (length t))"
proof -
  have reached: "edits s t (getDistance s t)" for s t
    using edist_reached [of "rev s" "rev t"] by (simp add: getDistance_eq)
  have least: "getDistance s t \<le> k" if "edits s t k" for s t k
    using edist_lower [OF that] by (simp add: getDistance_eq)
  have "getDistance s t = getDistance t s"
    by (rule order_antisym; rule least, rule edits_sym, rule reached)
  moreover have "getDistance s t = 0 \<longleftrightarrow> s = t"
    using edits_zero [OF reached] least [OF edits_same, of s] edits_nonneg [OF reached, of s t] by auto
  moreover have "\<bar>int (length s) - int (length t)\<bar> \<le> getDistance s t"
    by (rule edits_length [OF reached])
  moreover have "getDistance s t \<le> max (int (length s)) (int (length t))"
    using edist_max [of "rev s" "rev t"] by (simp add: getDistance_eq)
  ultimately show ?thesis by blast
qed

text \<open>The exchange of the first two characters is not covered: it costs 2, whereas the same exchange
  one character later costs 1.\<close>

theorem transposition_not_at_start:
  "getDistance ''ab'' ''ba'' = 2 \<and> getDistance ''xab'' ''xba'' = 1"
  by (simp add: getDistance_eq)

text \<open>The allowance of a query is the quarter of its length, read through a 16-bit counter; the
  default scale allows 0 errors up to 3 letters, 1 up to 6, 2 up to 9, 3 up to 14, 4 up to 19, and the
  quarter of the length beyond.\<close>

theorem error_allowances:
  "calculateEditDistance s = (length s mod 65536) div 4 \<and>
   unat (getAllowedDistanceError (new_DistanceErrorRule K_DEFAULT_ERROR_SCALE) n) =
     (let k = unat n in if k \<le> 3 then 0 else if k \<le> 6 then 1 else if k \<le> 9 then 2
      else if k \<le> 14 then 3 else if k \<le> 19 then 4 else (k div 4) mod 65536)"
proof -
  have scale: "new_DistanceErrorRule K_DEFAULT_ERROR_SCALE = [(3, 0), (6, 1), (9, 2), (14, 3), (19, 4)]"
    by (simp add: new_DistanceErrorRule_def K_DEFAULT_ERROR_SCALE_def om_empty_def om_find_def
      upt_conv_Cons del: om_simps)
  show ?thesis
    unfolding scale
    by (simp add: calculateEditDistance_def unat_of_nat K_DEFAULT_SIZE_FOR_SPELLING_ERROR_UNIT_def
      getAllowedDistanceError_def Let_def unsigned_ucast_eq take_bit_eq_mod unat_div)
qed

end
