(* ===== verification/Locations.thy ===== *)
theory Locations
  imports Doubles Codes
begin

text \<open>
  Points of reference: \<^verbatim>\<open>basic/Names.cpp\<close>, \<^verbatim>\<open>basic/NameMatrix.cpp\<close>, \<^verbatim>\<open>basic/LocationKey.cpp\<close>,
  \<^verbatim>\<open>basic/Location.cpp\<close> and the checked date elements of \<^verbatim>\<open>OPENTREP_ParserHelperTypes.hpp\<close>.

  A \<open>Location\<close> has the attributes of the class, except the lists of extra and alternate locations:
  \<^verbatim>\<open>addExtraLocation\<close> and \<^verbatim>\<open>addAlternateLocation\<close> only copy the corresponding lists of a place, which
  no code of the search fills. A Boost date is its year, month and day; whether such a triple is a
  date is the parameter \<open>valid_ymd\<close>. The date elements that the parser fills are unset (\<open>None\<close>) in a
  fresh location.
\<close>

section \<open>Names by language\<close>

record Names =
  nm_languageCode :: string
  nm_nameList :: "string list"

type_synonym NameMatrix = "(string, Names) omap"

definition new_Names :: "string \<Rightarrow> Names" where
  "new_Names iLanguageCode = \<lparr>nm_languageCode = iLanguageCode, nm_nameList = []\<rparr>"

definition Names_addName :: "string \<Rightarrow> Names \<Rightarrow> Names" where
  "Names_addName iName n = n\<lparr>nm_nameList := nm_nameList n @ [iName]\<rparr>"

definition Names_resetList :: "Names \<Rightarrow> Names" where
  "Names_resetList n = n\<lparr>nm_nameList := []\<rparr>"

definition Names_getFirstName :: "Names \<Rightarrow> string" where
  "Names_getFirstName n = (case nm_nameList n of [] \<Rightarrow> '''' | lName # _ \<Rightarrow> lName)"

fun Names_describe_loop :: "string \<Rightarrow> string list \<Rightarrow> 16 word \<Rightarrow> string" where
  "Names_describe_loop lang [] idx = []"
| "Names_describe_loop lang (lName # rest) idx =
     (if idx \<noteq> 0 then '','' else []) @ lang @ '','' @ lName @ Names_describe_loop lang rest (idx + 1)"

definition Names_describe :: "Names \<Rightarrow> string" where
  "Names_describe n = Names_describe_loop (nm_languageCode n) (nm_nameList n) 0"

fun NameMatrix_describe_loop :: "(string \<times> Names) list \<Rightarrow> 16 word \<Rightarrow> string" where
  "NameMatrix_describe_loop [] idx = []"
| "NameMatrix_describe_loop ((_, lNameList) # rest) idx =
     (if idx \<noteq> 0 then '','' else []) @ Names_describe lNameList @ NameMatrix_describe_loop rest (idx + 1)"

definition NameMatrix_describe :: "NameMatrix \<Rightarrow> string" where
  "NameMatrix_describe m = NameMatrix_describe_loop (om_entries m) 0"

text \<open>The result is the returned flag and the updated list.\<close>

definition getNameList :: "NameMatrix \<Rightarrow> string \<Rightarrow> string list \<Rightarrow> bool \<times> string list" where
  "getNameList m iLanguageCode ioNameList =
     (case om_find m iLanguageCode of
        Some lNameList \<Rightarrow> (True, nm_nameList lNameList)
      | None \<Rightarrow> (False, ioNameList))"

definition NameMatrix_addName :: "string \<Rightarrow> string \<Rightarrow> NameMatrix \<Rightarrow> NameMatrix" where
  "NameMatrix_addName iLanguageCode iName m =
     (case om_find m iLanguageCode of
        Some lNameList \<Rightarrow> om_put iLanguageCode (Names_addName iName lNameList) m
      | None \<Rightarrow>
          let lNameList = Names_addName iName (new_Names iLanguageCode)
          in om_put iLanguageCode lNameList m)"

section \<open>Location keys\<close>

record LocationKey =
  lk_iataCode :: string
  lk_iataType :: EN_IATAType
  lk_geonamesID :: int
  lk_isGeonames :: bool

definition new_LocationKey :: "string \<Rightarrow> EN_IATAType \<Rightarrow> int \<Rightarrow> LocationKey" where
  "new_LocationKey iIataCode iIataType iGeonamesID =
     \<lparr>lk_iataCode = iIataCode, lk_iataType = iIataType, lk_geonamesID = iGeonamesID,
      lk_isGeonames = (if iGeonamesID = 0 then False else True)\<rparr>"

definition LocationKey_eq :: "LocationKey \<Rightarrow> LocationKey \<Rightarrow> bool" where
  "LocationKey_eq k iLocationKey \<longleftrightarrow>
     lk_iataCode k = lk_iataCode iLocationKey \<and> lk_iataType k = lk_iataType iLocationKey \<and>
     lk_geonamesID k = lk_geonamesID iLocationKey"

definition LocationKey_describe :: "LocationKey \<Rightarrow> string outcome" where
  "LocationKey_describe k =
     bindE (IATAType_getTypeLabelAsString (lk_iataType k)) (\<lambda>lType.
       Inr (lk_iataCode k @ ''-'' @ lType @ ''-'' @ show_int (lk_geonamesID k)))"

section \<open>Locations\<close>

type_synonym date = "nat \<times> nat \<times> nat"

record Location =
  loc_key :: LocationKey
  loc_icaoCode :: string
  loc_faaCode :: string
  loc_commonName :: string
  loc_asciiName :: string
  loc_altNameShortListString :: string
  loc_tvlPORListString :: string
  loc_envelopeID :: int
  loc_dateFrom :: date
  loc_dateEnd :: date
  loc_comment :: string
  loc_cityCode :: string
  loc_cityUtfName :: string
  loc_cityAsciiName :: string
  loc_cityGeonamesID :: int
  loc_stateCode :: string
  loc_countryCode :: string
  loc_altCountryCode :: string
  loc_countryName :: string
  loc_continentCode :: string
  loc_continentName :: string
  loc_latitude :: dbl
  loc_longitude :: dbl
  loc_featClass :: string
  loc_featCode :: string
  loc_admin1Code :: string
  loc_admin1UtfName :: string
  loc_admin1AsciiName :: string
  loc_admin2Code :: string
  loc_admin2UtfName :: string
  loc_admin2AsciiName :: string
  loc_admin3Code :: string
  loc_admin4Code :: string
  loc_population :: "32 word"
  loc_elevation :: int
  loc_gTopo30 :: int
  loc_timeZone :: string
  loc_gmtOffset :: dbl
  loc_dstOffset :: dbl
  loc_rawOffset :: dbl
  loc_modificationDate :: date
  loc_wikiLink :: string
  loc_pageRank :: dbl
  loc_nameMatrix :: NameMatrix
  loc_originalKeywords :: string
  loc_correctedKeywords :: string
  loc_percentage :: dbl
  loc_editDistance :: "16 word"
  loc_allowableEditDistance :: "16 word"
  loc_rawDataString :: string
  loc_itYear :: "nat option"
  loc_itMonth :: "nat option"
  loc_itDay :: "nat option"
  loc_itLanguageCodeNum :: nat
  loc_itLanguageCode :: string
  loc_itLangCode2Char :: string
  loc_itLangCodeExt :: string
  loc_itLangCodeHist :: string
  loc_itAltNameShortList :: "string list"
  loc_itTvlPORList :: "string list"

text \<open>The default constructor.\<close>

definition new_Location :: Location where
  "new_Location =
    \<lparr>loc_key = new_LocationKey [] LAST_IATA_TYPE 0,
     loc_icaoCode = '''',
     loc_faaCode = '''',
     loc_commonName = ''NotAvailable'',
     loc_asciiName = ''NotAvailable'',
     loc_altNameShortListString = ''NotAvailable'',
     loc_tvlPORListString = '''',
     loc_envelopeID = 0,
     loc_dateFrom = (1970, 1, 1),
     loc_dateEnd = (2999, 12, 31),
     loc_comment = '''',
     loc_cityCode = '''',
     loc_cityUtfName = '''',
     loc_cityAsciiName = '''',
     loc_cityGeonamesID = 0,
     loc_stateCode = ''NA'',
     loc_countryCode = ''NA'',
     loc_altCountryCode = '''',
     loc_countryName = ''NA'',
     loc_continentCode = ''NA'',
     loc_continentName = ''NotAvailable'',
     loc_latitude = Fin 0,
     loc_longitude = Fin 0,
     loc_featClass = ''Z'',
     loc_featCode = ''ZZZZ'',
     loc_admin1Code = '''',
     loc_admin1UtfName = '''',
     loc_admin1AsciiName = '''',
     loc_admin2Code = '''',
     loc_admin2UtfName = '''',
     loc_admin2AsciiName = '''',
     loc_admin3Code = ''Z'',
     loc_admin4Code = '''',
     loc_population = 0,
     loc_elevation = 0,
     loc_gTopo30 = 0,
     loc_timeZone = ''NA'',
     loc_gmtOffset = Fin 0,
     loc_dstOffset = Fin 0,
     loc_rawOffset = Fin 0,
     loc_modificationDate = (2000, 1, 1),
     loc_wikiLink = ''http://en.wikipedia.org'',
     loc_pageRank = K_DEFAULT_PAGE_RANK,
     loc_nameMatrix = om_empty,
     loc_originalKeywords = ''NA'',
     loc_correctedKeywords = ''NA'',
     loc_percentage = Fin 0,
     loc_editDistance = 0,
     loc_allowableEditDistance = 0,
     loc_rawDataString = ''NA'',
     loc_itYear = None,
     loc_itMonth = None,
     loc_itDay = None,
     loc_itLanguageCodeNum = LAST_LANGUAGE,
     loc_itLanguageCode = '''',
     loc_itLangCode2Char = '''',
     loc_itLangCodeExt = '''',
     loc_itLangCodeHist = '''',
     loc_itAltNameShortList = [],
     loc_itTvlPORList = []\<rparr>"

text \<open>\<^verbatim>\<open>setGeonamesID\<close> changes the identifier of the key and leaves its Geonames flag.\<close>

definition setIataCode :: "string \<Rightarrow> Location \<Rightarrow> Location" where
  "setIataCode iIataCode l = l\<lparr>loc_key := (loc_key l)\<lparr>lk_iataCode := iIataCode\<rparr>\<rparr>"

definition setIataType :: "EN_IATAType \<Rightarrow> Location \<Rightarrow> Location" where
  "setIataType iIATAType l = l\<lparr>loc_key := (loc_key l)\<lparr>lk_iataType := iIATAType\<rparr>\<rparr>"

definition setGeonamesID :: "int \<Rightarrow> Location \<Rightarrow> Location" where
  "setGeonamesID iGeonamesID l = l\<lparr>loc_key := (loc_key l)\<lparr>lk_geonamesID := iGeonamesID\<rparr>\<rparr>"

definition isGeonames :: "Location \<Rightarrow> bool" where
  "isGeonames l = lk_isGeonames (loc_key l)"

definition Location_addName :: "string \<Rightarrow> string \<Rightarrow> Location \<Rightarrow> Location" where
  "Location_addName iLanguageCode iName l =
     l\<lparr>loc_nameMatrix := NameMatrix_addName iLanguageCode iName (loc_nameMatrix l)\<rparr>"

definition resetMatrix :: "Location \<Rightarrow> Location" where
  "resetMatrix l = l\<lparr>loc_nameMatrix := om_empty\<rparr>"

section \<open>Dates\<close>

text \<open>
  \<^verbatim>\<open>date_time_element::check\<close>: an unsigned value against the bounds of its type. Reading an element
  that was never set is undefined behaviour.
\<close>

definition element_check :: "nat \<Rightarrow> nat \<Rightarrow> nat option \<Rightarrow> nat outcome" where
  "element_check lo hi element =
     (case element of
        None \<Rightarrow> Inl UndefinedBehaviour
      | Some v \<Rightarrow> if v < lo \<or> v > hi then Inl ParserException else Inr v)"

definition calculateDate :: "(nat \<Rightarrow> nat \<Rightarrow> nat \<Rightarrow> bool) \<Rightarrow> Location \<Rightarrow> date outcome" where
  "calculateDate valid_ymd l =
     bindE (element_check 1900 2100 (loc_itYear l)) (\<lambda>y.
     bindE (element_check 1 12 (loc_itMonth l)) (\<lambda>m.
     bindE (element_check 1 31 (loc_itDay l)) (\<lambda>d.
       if valid_ymd y m d then Inr (y, m, d) else Inl BadDayOfMonth)))"

section \<open>Lists gathered while parsing\<close>

fun comma_list :: "string list \<Rightarrow> 16 word \<Rightarrow> string" where
  "comma_list [] idx = []"
| "comma_list (x # xs) idx = (if idx \<noteq> 0 then '','' else []) @ x @ comma_list xs (idx + 1)"

definition consolidateAltNameShortListString :: "Location \<Rightarrow> Location" where
  "consolidateAltNameShortListString l =
     l\<lparr>loc_altNameShortListString := comma_list (loc_itAltNameShortList l) 0\<rparr>"

definition consolidateTvlPORListString :: "Location \<Rightarrow> Location" where
  "consolidateTvlPORListString l = l\<lparr>loc_tvlPORListString := comma_list (loc_itTvlPORList l) 0\<rparr>"

section \<open>Feature names\<close>

definition getFeatureList :: "string \<Rightarrow> string list" where
  "getFeatureList iFeatureCode =
     (let l2CharFeatCode = take 2 iFeatureCode;
          l3CharFeatCode = take 3 iFeatureCode
      in if iFeatureCode = ''AIRP'' \<or> iFeatureCode = ''AIRF'' \<or> iFeatureCode = ''AIRQ''
         then [''airport'', ''apt'', ''airdrome'', ''aerodrome'', ''airfield'', ''air field'',
               ''field'', ''airstrip'', ''air strip'', ''strip'']
         else if iFeatureCode = ''AIRB''
         then [''airport'', ''apt'', ''airbase'', ''air base'', ''ab'', ''base'']
         else if iFeatureCode = ''AIRS''
         then [''airport'', ''apt'', ''spb'', ''sea plane base'', ''sea plane'', ''waterdrome'',
               ''aerodrome'', ''water aerodrome'']
         else if iFeatureCode = ''AIRH''
         then [''airport'', ''apt'', ''heliport'', ''hpt'']
         else if iFeatureCode = ''RSTN''
         then [''railway'', ''railroad'', ''train'', ''station'', ''railway station'',
               ''railroad station'', ''train station'']
         else if l3CharFeatCode = ''BUS''
         then [''bus'', ''autobus'', ''station'', ''stn'', ''stop'', ''bus station'', ''bus stop'',
               ''autobus station'', ''autobus stop'']
         else if iFeatureCode = ''MTRO''
         then [''metro'', ''station'', ''stn'', ''stop'', ''metro station'', ''metro stop'']
         else if iFeatureCode = ''FY'' \<or> iFeatureCode = ''PRT'' \<or> iFeatureCode = ''PORT'' \<or> iFeatureCode = ''HBR''
         then [''ferry'', ''maritime'', ''port'', ''prt'', ''harbor'', ''harbour'', ''hbr'',
               ''ferry port'', ''maritime port'']
         else if l3CharFeatCode = ''PPL'' \<or> l3CharFeatCode = ''ADM'' \<or> iFeatureCode = ''LCTY''
         then [''city'', ''cty'', ''town'', ''downtown'', ''down town'', ''center'', ''centre'']
         else if l3CharFeatCode = ''PCL'' \<or> iFeatureCode = ''AREA''
         then [''city'', ''cty'', ''country'', ''town'', ''downtown'', ''down town'', ''center'',
               ''centre'', ''district'', ''prefecture'']
         else if iFeatureCode = ''MT''
         then [''city'', ''cty'', ''mount'', ''mt'']
         else if iFeatureCode = ''PLAT''
         then [''city'', ''cty'', ''plateau'']
         else if iFeatureCode = ''OAS''
         then [''city'', ''cty'', ''oasis'']
         else if iFeatureCode = ''PRK''
         then [''city'', ''cty'', ''park'', ''prk'']
         else if l3CharFeatCode = ''RES''
         then [''city'', ''cty'', ''reserve'', ''rsv'']
         else if iFeatureCode = ''CMP''
         then [''city'', ''cty'', ''camp'', ''cmp'']
         else if l2CharFeatCode = ''MN''
         then [''city'', ''cty'', ''mine'']
         else if iFeatureCode = ''HMSD''
         then [''city'', ''cty'', ''homestead'']
         else if l2CharFeatCode = ''RK''
         then [''city'', ''cty'', ''rock'']
         else if iFeatureCode = ''PT''
         then [''city'', ''cty'', ''point'', ''pt'']
         else if l3CharFeatCode = ''RSV''
         then [''city'', ''cty'', ''reservoir'', ''rsv'']
         else if iFeatureCode = ''LK''
         then [''city'', ''cty'', ''lake'', ''lk'']
         else if iFeatureCode = ''BAY''
         then [''city'', ''cty'', ''bay'']
         else if iFeatureCode = ''CHN''
         then [''city'', ''cty'', ''channel'', ''chn'']
         else if l3CharFeatCode = ''ISL''
         then [''city'', ''cty'', ''island'', ''isl'', ''country'']
         else if iFeatureCode = ''ATOL''
         then [''city'', ''cty'', ''island'', ''isl'', ''atoll'', ''atl'', ''country'']
         else [])"

section \<open>Display\<close>

text \<open>
  The output of a \<^verbatim>\<open>double\<close>, of a \<^verbatim>\<open>float\<close> and of a Boost date on a stream are parameters.
\<close>

record stream_output =
  out_double :: "dbl \<Rightarrow> string"
  out_float :: "dbl \<Rightarrow> string"
  out_date :: "date \<Rightarrow> string"

definition describeShortKey :: "Location \<Rightarrow> string outcome" where
  "describeShortKey l = LocationKey_describe (loc_key l)"

definition toBasicString :: "stream_output \<Rightarrow> Location \<Rightarrow> string outcome" where
  "toBasicString out l =
     bindE (describeShortKey l) (\<lambda>lKey.
       Inr (lKey @ '', '' @ out_double out (loc_pageRank l) @ ''%, '' @
         join_with '', ''
          [loc_commonName l, loc_asciiName l, loc_icaoCode l, loc_faaCode l,
           show_int (loc_envelopeID l), out_date out (loc_dateFrom l), out_date out (loc_dateEnd l),
           loc_comment l, loc_cityCode l, loc_cityUtfName l, loc_cityAsciiName l,
           show_int (loc_cityGeonamesID l), loc_stateCode l, loc_countryCode l, loc_altCountryCode l,
           loc_countryName l, loc_continentCode l, loc_continentName l,
           out_double out (loc_latitude l), out_double out (loc_longitude l),
           loc_featClass l, loc_featCode l, loc_admin1Code l, loc_admin1UtfName l,
           loc_admin1AsciiName l, loc_admin2Code l, loc_admin2UtfName l, loc_admin2AsciiName l,
           loc_admin3Code l, loc_admin4Code l, show_nat (unat (loc_population l)),
           show_int (loc_elevation l), show_int (loc_gTopo30 l), loc_timeZone l,
           out_float out (loc_gmtOffset l), out_float out (loc_dstOffset l),
           out_float out (loc_rawOffset l), out_date out (loc_modificationDate l),
           loc_tvlPORListString l, loc_wikiLink l, loc_originalKeywords l,
           loc_correctedKeywords l] @
         '', '' @ out_double out (loc_percentage l) @ ''%, '' @
         show_nat (unat (loc_editDistance l)) @ '', '' @
         show_nat (unat (loc_allowableEditDistance l))))"

definition Location_toString :: "stream_output \<Rightarrow> Location \<Rightarrow> string outcome" where
  "Location_toString out l =
     bindE (toBasicString out l) (\<lambda>lBasic.
       Inr (lBasic @ ''; name matrix {'' @ NameMatrix_describe (loc_nameMatrix l) @ ''}''))"

section \<open>Names found under their language\<close>

text \<open>Every entry of the matrix carries its own language code and at least one name.\<close>

definition matrix_wf :: "NameMatrix \<Rightarrow> bool" where
  "matrix_wf m \<longleftrightarrow> om_wf m \<and> (\<forall>(lang, n) \<in> set (om_entries m). nm_languageCode n = lang \<and> nm_nameList n \<noteq> [])"

lemma matrix_wf_find:
  "matrix_wf m \<Longrightarrow> om_find m lang = Some n \<Longrightarrow> nm_languageCode n = lang \<and> nm_nameList n \<noteq> []"
  unfolding matrix_wf_def by (metis (mono_tags, lifting) case_prod_conv om.entries_iff)

lemma matrix_wfI:
  assumes "om_wf m"
    and "\<And>lang n. om_find m lang = Some n \<Longrightarrow> nm_languageCode n = lang \<and> nm_nameList n \<noteq> []"
  shows "matrix_wf m"
  using assms om.entries_iff [OF assms(1)] unfolding matrix_wf_def by fast

lemma matrix_wf_empty [simp]: "matrix_wf om_empty"
  by (rule matrix_wfI) simp_all

lemma matrix_wf_addName [simp]: "matrix_wf m \<Longrightarrow> matrix_wf (NameMatrix_addName lang name m)"
proof (rule matrix_wfI)
  assume wf: "matrix_wf m"
  then show "om_wf (NameMatrix_addName lang name m)"
    by (auto simp: NameMatrix_addName_def matrix_wf_def Let_def split: option.split)
  fix l n
  assume "om_find (NameMatrix_addName lang name m) l = Some n"
  then show "nm_languageCode n = l \<and> nm_nameList n \<noteq> []"
    using matrix_wf_find [OF wf]
    by (auto simp: NameMatrix_addName_def Names_addName_def new_Names_def Let_def
      split: option.splits if_splits)
qed

definition names_of :: "NameMatrix \<Rightarrow> string \<Rightarrow> string list" where
  "names_of m lang = (case om_find m lang of Some n \<Rightarrow> nm_nameList n | None \<Rightarrow> [])"

lemma names_of_addName:
  "names_of (NameMatrix_addName lang name m) l = (if l = lang then names_of m l @ [name] else names_of m l)"
  by (auto simp: names_of_def NameMatrix_addName_def Names_addName_def new_Names_def Let_def
    split: option.split)

section \<open>Properties\<close>

text \<open>The names of a location: looking a language up finds exactly the names added under it, in the
  order of their addition, and nothing for a language without names; every entry stays under the key
  of its language.\<close>

theorem name_matrix_lookup:
  assumes "m = fold (\<lambda>(lang, name). NameMatrix_addName lang name) adds om_empty"
  shows "matrix_wf m \<and> (let names = map snd (filter (\<lambda>(l, _). l = lang) adds)
    in getNameList m lang old = (if names = [] then (False, old) else (True, names)))"
proof -
  have *: "matrix_wf (fold (\<lambda>(lang, name). NameMatrix_addName lang name) adds n) \<and>
      names_of (fold (\<lambda>(lang, name). NameMatrix_addName lang name) adds n) lang =
        names_of n lang @ map snd (filter (\<lambda>(l, _). l = lang) adds)" if "matrix_wf n" for n
    using that by (induction adds arbitrary: n) (auto simp: names_of_addName)
  then have wf: "matrix_wf m" and names: "names_of m lang = map snd (filter (\<lambda>(l, _). l = lang) adds)"
    using * [of om_empty] assms by (simp_all add: names_of_def)
  have "getNameList m lang old = (if names_of m lang = [] then (False, old) else (True, names_of m lang))"
    using matrix_wf_find [OF wf] by (auto simp: getNameList_def names_of_def split: option.split)
  then show ?thesis using wf names by (simp add: Let_def)
qed

theorem name_matrix_lookup_witness:
  "getNameList (fold (\<lambda>(lang, name). NameMatrix_addName lang name)
     [(''en'', ''Nice''), (''it'', ''Nizza''), (''en'', ''Nice City'')] om_empty) ''en'' [] =
   (True, [''Nice'', ''Nice City''])"
  using name_matrix_lookup [OF refl, of "[(''en'', ''Nice''), (''it'', ''Nizza''), (''en'', ''Nice City'')]"
    "''en''" "[]"] by simp

text \<open>The modification date of a parsed location is a date of the years 1900 to 2100 exactly when the
  calendar accepts it; an element out of its range is a parser error, whichever element comes first,
  and a day that the month does not have is the calendar's error.\<close>

theorem calculateDate_correct:
  assumes "loc_itYear l = Some y" and "loc_itMonth l = Some m" and "loc_itDay l = Some d"
  shows "calculateDate valid_ymd l =
    (if 1900 \<le> y \<and> y \<le> 2100 \<and> 1 \<le> m \<and> m \<le> 12 \<and> 1 \<le> d \<and> d \<le> 31
     then (if valid_ymd y m d then Inr (y, m, d) else Inl BadDayOfMonth)
     else Inl ParserException)"
  using assms by (auto simp: calculateDate_def element_check_def not_less)

theorem calculateDate_correct_witness:
  "calculateDate (\<lambda>y m d. m \<noteq> 2 \<or> d \<le> 28)
     (new_Location\<lparr>loc_itYear := Some 2013, loc_itMonth := Some 2, loc_itDay := Some 30\<rparr>) = Inl BadDayOfMonth"
  by (subst calculateDate_correct [where y=2013 and m=2 and d=30]) simp_all

end
