(* ===== verification/PorActions.thy ===== *)
theory PorActions
  imports Locations
begin

text \<open>
  The semantic actions of the parser of POR records (\<^verbatim>\<open>bom/PORParserHelper.cpp\<close>): one function per
  functor, on the location it fills. The grammar that fires them is in theory Grammar; a run of the
  parser is the sequence of the actions it fires (\<open>run_actions\<close>), each one in \<open>por_action\<close>; the
  elements of a date are assigned by the grammar itself. A thrown exception ends the run.

  The characters given to an action are the bytes of the record. Identifiers are parsed as
  unsigned 32-bit integers and stored in signed ones.
\<close>

section \<open>The actions\<close>

definition storeIataCode :: "string \<Rightarrow> Location \<Rightarrow> Location" where
  "storeIataCode iChar l = setIataCode iChar l"

definition storeIcaoCode :: "string \<Rightarrow> Location \<Rightarrow> Location" where
  "storeIcaoCode iChar l = l\<lparr>loc_icaoCode := iChar\<rparr>"

definition storeFaaCode :: "string \<Rightarrow> Location \<Rightarrow> Location" where
  "storeFaaCode iChar l = l\<lparr>loc_faaCode := iChar\<rparr>"

definition storeGeonamesID :: "32 word \<Rightarrow> Location \<Rightarrow> Location" where
  "storeGeonamesID iPorId l = setGeonamesID (sint iPorId) l"

definition storeEnvelopeID :: "32 word \<Rightarrow> Location \<Rightarrow> Location" where
  "storeEnvelopeID iId l = l\<lparr>loc_envelopeID := sint iId\<rparr>"

definition storeCommonName :: "string \<Rightarrow> Location \<Rightarrow> Location" where
  "storeCommonName iChar l = l\<lparr>loc_commonName := iChar\<rparr>"

definition storeAsciiName :: "string \<Rightarrow> Location \<Rightarrow> Location" where
  "storeAsciiName iChar l = l\<lparr>loc_asciiName := iChar\<rparr>"

definition storeAltNameShort :: "string \<Rightarrow> Location \<Rightarrow> Location" where
  "storeAltNameShort iChar l = l\<lparr>loc_itAltNameShortList := loc_itAltNameShortList l @ [iChar]\<rparr>"

definition storeAltNameShortListString :: "Location \<Rightarrow> Location" where
  "storeAltNameShortListString l = consolidateAltNameShortListString l"

definition storeTvlPORCode :: "string \<Rightarrow> Location \<Rightarrow> Location" where
  "storeTvlPORCode iChar l = l\<lparr>loc_itTvlPORList := loc_itTvlPORList l @ [iChar]\<rparr>"

definition storeTvlPORListString :: "Location \<Rightarrow> Location" where
  "storeTvlPORListString l = consolidateTvlPORListString l"

definition storeLatitude :: "dbl \<Rightarrow> Location \<Rightarrow> Location" where
  "storeLatitude i l = l\<lparr>loc_latitude := i\<rparr>"

definition storeLongitude :: "dbl \<Rightarrow> Location \<Rightarrow> Location" where
  "storeLongitude i l = l\<lparr>loc_longitude := i\<rparr>"

definition storeFeatureClass :: "string \<Rightarrow> Location \<Rightarrow> Location" where
  "storeFeatureClass iChar l = l\<lparr>loc_featClass := iChar\<rparr>"

definition storeFeatureCode :: "string \<Rightarrow> Location \<Rightarrow> Location" where
  "storeFeatureCode iChar l = l\<lparr>loc_featCode := iChar\<rparr>"

definition storePageRank :: "dbl \<Rightarrow> Location \<Rightarrow> Location" where
  "storePageRank iPageRank l = l\<lparr>loc_pageRank := dmul (Fin 100) iPageRank\<rparr>"

definition storeDateFrom :: "Location \<Rightarrow> Location" where
  "storeDateFrom l = l"

definition storeDateUntil :: "Location \<Rightarrow> Location" where
  "storeDateUntil l = l"

definition storeComments :: "string \<Rightarrow> Location \<Rightarrow> Location" where
  "storeComments iChar l = l"

definition storeCountryCode :: "string \<Rightarrow> Location \<Rightarrow> Location" where
  "storeCountryCode iChar l = l\<lparr>loc_countryCode := iChar\<rparr>"

definition storeAltCountryCode :: "string \<Rightarrow> Location \<Rightarrow> Location" where
  "storeAltCountryCode iChar l = l\<lparr>loc_altCountryCode := iChar\<rparr>"

definition storeCountryName :: "string \<Rightarrow> Location \<Rightarrow> Location" where
  "storeCountryName iChar l = l\<lparr>loc_countryName := iChar\<rparr>"

definition storeContinentName :: "string \<Rightarrow> Location \<Rightarrow> Location" where
  "storeContinentName iChar l = l\<lparr>loc_continentName := iChar\<rparr>"

definition storeAdm1Code :: "string \<Rightarrow> Location \<Rightarrow> Location" where
  "storeAdm1Code iChar l = l\<lparr>loc_admin1Code := iChar\<rparr>"

definition storeAdm1UtfName :: "string \<Rightarrow> Location \<Rightarrow> Location" where
  "storeAdm1UtfName iChar l = l\<lparr>loc_admin1UtfName := iChar\<rparr>"

definition storeAdm1AsciiName :: "string \<Rightarrow> Location \<Rightarrow> Location" where
  "storeAdm1AsciiName iChar l = l\<lparr>loc_admin1AsciiName := iChar\<rparr>"

definition storeAdm2Code :: "string \<Rightarrow> Location \<Rightarrow> Location" where
  "storeAdm2Code iChar l = l\<lparr>loc_admin2Code := iChar\<rparr>"

definition storeAdm2UtfName :: "string \<Rightarrow> Location \<Rightarrow> Location" where
  "storeAdm2UtfName iChar l = l\<lparr>loc_admin2UtfName := iChar\<rparr>"

definition storeAdm2AsciiName :: "string \<Rightarrow> Location \<Rightarrow> Location" where
  "storeAdm2AsciiName iChar l = l\<lparr>loc_admin2AsciiName := iChar\<rparr>"

definition storeAdm3Code :: "string \<Rightarrow> Location \<Rightarrow> Location" where
  "storeAdm3Code iChar l = l\<lparr>loc_admin3Code := iChar\<rparr>"

definition storeAdm4Code :: "string \<Rightarrow> Location \<Rightarrow> Location" where
  "storeAdm4Code iChar l = l\<lparr>loc_admin4Code := iChar\<rparr>"

definition storePopulation :: "32 word \<Rightarrow> Location \<Rightarrow> Location" where
  "storePopulation iPopulation l = l\<lparr>loc_population := iPopulation\<rparr>"

definition storeElevation :: "int \<Rightarrow> Location \<Rightarrow> Location" where
  "storeElevation i l = l\<lparr>loc_elevation := i\<rparr>"

definition storeGTopo30 :: "int \<Rightarrow> Location \<Rightarrow> Location" where
  "storeGTopo30 i l = l\<lparr>loc_gTopo30 := i\<rparr>"

definition storeTimeZone :: "string \<Rightarrow> Location \<Rightarrow> Location" where
  "storeTimeZone iChar l = l\<lparr>loc_timeZone := iChar\<rparr>"

definition storeGMTOffset :: "dbl \<Rightarrow> Location \<Rightarrow> Location" where
  "storeGMTOffset i l = l\<lparr>loc_gmtOffset := i\<rparr>"

definition storeDSTOffset :: "dbl \<Rightarrow> Location \<Rightarrow> Location" where
  "storeDSTOffset i l = l\<lparr>loc_dstOffset := i\<rparr>"

definition storeRawOffset :: "dbl \<Rightarrow> Location \<Rightarrow> Location" where
  "storeRawOffset i l = l\<lparr>loc_rawOffset := i\<rparr>"

definition storeModDate :: "(nat \<Rightarrow> nat \<Rightarrow> nat \<Rightarrow> bool) \<Rightarrow> Location \<Rightarrow> Location outcome" where
  "storeModDate valid_ymd l = bindE (calculateDate valid_ymd l) (\<lambda>lModDate.
     Inr (l\<lparr>loc_modificationDate := lModDate\<rparr>))"

definition storeCityCode :: "string \<Rightarrow> Location \<Rightarrow> Location" where
  "storeCityCode iChar l = l\<lparr>loc_cityCode := iChar\<rparr>"

definition storeCityUtfName :: "string \<Rightarrow> Location \<Rightarrow> Location" where
  "storeCityUtfName iChar l = l\<lparr>loc_cityUtfName := iChar\<rparr>"

definition storeCityAsciiName :: "string \<Rightarrow> Location \<Rightarrow> Location" where
  "storeCityAsciiName iChar l = l\<lparr>loc_cityAsciiName := iChar\<rparr>"

definition storeCityGeonamesID :: "32 word \<Rightarrow> Location \<Rightarrow> Location" where
  "storeCityGeonamesID iId l = l\<lparr>loc_cityGeonamesID := sint iId\<rparr>"

definition storeStateCode :: "string \<Rightarrow> Location \<Rightarrow> Location" where
  "storeStateCode iChar l = l\<lparr>loc_stateCode := iChar\<rparr>"

definition storePORType :: "string \<Rightarrow> Location \<Rightarrow> Location outcome" where
  "storePORType iChar l = bindE (IATAType_of_string iChar) (\<lambda>lIATAType. Inr (setIataType lIATAType l))"

definition storeWikiLink :: "string \<Rightarrow> Location \<Rightarrow> Location" where
  "storeWikiLink iChar l = l\<lparr>loc_wikiLink := iChar\<rparr>"

definition storeAltLangCodeFull :: "string \<Rightarrow> Location \<Rightarrow> Location" where
  "storeAltLangCodeFull iChar l = l\<lparr>loc_itLanguageCode := iChar\<rparr>"

definition storeAltLangCode2Char :: "string \<Rightarrow> Location \<Rightarrow> Location" where
  "storeAltLangCode2Char iChar l = l\<lparr>loc_itLangCode2Char := iChar, loc_itLangCodeExt := [], loc_itLangCodeHist := []\<rparr>"

definition storeAltLangCodeExt :: "string \<Rightarrow> Location \<Rightarrow> Location" where
  "storeAltLangCodeExt iChar l = l\<lparr>loc_itLangCodeExt := loc_itLangCode2Char l @ ''-'' @ iChar\<rparr>"

definition storeAltLangCodeHist :: "string \<Rightarrow> Location \<Rightarrow> Location" where
  "storeAltLangCodeHist iChar l = l\<lparr>loc_itLangCodeHist := loc_itLangCode2Char l @ ''_'' @ iChar\<rparr>"

definition storeAltName :: "string \<Rightarrow> Location \<Rightarrow> Location" where
  "storeAltName iChar l = (Location_addName (loc_itLanguageCode l) iChar l)\<lparr>loc_itLanguageCode := []\<rparr>"

definition doEndPor :: "Location \<Rightarrow> Location" where
  "doEndPor l = l"

section \<open>Runs of the parser\<close>

type_synonym por_action = "Location \<Rightarrow> Location outcome"

inductive por_action :: "(nat \<Rightarrow> nat \<Rightarrow> nat \<Rightarrow> bool) \<Rightarrow> por_action \<Rightarrow> bool" for valid_ymd where
  storeIataCodeI: "por_action valid_ymd (\<lambda>l. Inr (storeIataCode x l))"
| storeIcaoCodeI: "por_action valid_ymd (\<lambda>l. Inr (storeIcaoCode x l))"
| storeFaaCodeI: "por_action valid_ymd (\<lambda>l. Inr (storeFaaCode x l))"
| storeGeonamesIDI: "por_action valid_ymd (\<lambda>l. Inr (storeGeonamesID x l))"
| storeEnvelopeIDI: "por_action valid_ymd (\<lambda>l. Inr (storeEnvelopeID x l))"
| storeCommonNameI: "por_action valid_ymd (\<lambda>l. Inr (storeCommonName x l))"
| storeAsciiNameI: "por_action valid_ymd (\<lambda>l. Inr (storeAsciiName x l))"
| storeAltNameShortI: "por_action valid_ymd (\<lambda>l. Inr (storeAltNameShort x l))"
| storeAltNameShortListStringI: "por_action valid_ymd (\<lambda>l. Inr (storeAltNameShortListString l))"
| storeTvlPORCodeI: "por_action valid_ymd (\<lambda>l. Inr (storeTvlPORCode x l))"
| storeTvlPORListStringI: "por_action valid_ymd (\<lambda>l. Inr (storeTvlPORListString l))"
| storeLatitudeI: "por_action valid_ymd (\<lambda>l. Inr (storeLatitude x l))"
| storeLongitudeI: "por_action valid_ymd (\<lambda>l. Inr (storeLongitude x l))"
| storeFeatureClassI: "por_action valid_ymd (\<lambda>l. Inr (storeFeatureClass x l))"
| storeFeatureCodeI: "por_action valid_ymd (\<lambda>l. Inr (storeFeatureCode x l))"
| storePageRankI: "por_action valid_ymd (\<lambda>l. Inr (storePageRank x l))"
| storeDateFromI: "por_action valid_ymd (\<lambda>l. Inr (storeDateFrom l))"
| storeDateUntilI: "por_action valid_ymd (\<lambda>l. Inr (storeDateUntil l))"
| storeCommentsI: "por_action valid_ymd (\<lambda>l. Inr (storeComments x l))"
| storeCountryCodeI: "por_action valid_ymd (\<lambda>l. Inr (storeCountryCode x l))"
| storeAltCountryCodeI: "por_action valid_ymd (\<lambda>l. Inr (storeAltCountryCode x l))"
| storeCountryNameI: "por_action valid_ymd (\<lambda>l. Inr (storeCountryName x l))"
| storeContinentNameI: "por_action valid_ymd (\<lambda>l. Inr (storeContinentName x l))"
| storeAdm1CodeI: "por_action valid_ymd (\<lambda>l. Inr (storeAdm1Code x l))"
| storeAdm1UtfNameI: "por_action valid_ymd (\<lambda>l. Inr (storeAdm1UtfName x l))"
| storeAdm1AsciiNameI: "por_action valid_ymd (\<lambda>l. Inr (storeAdm1AsciiName x l))"
| storeAdm2CodeI: "por_action valid_ymd (\<lambda>l. Inr (storeAdm2Code x l))"
| storeAdm2UtfNameI: "por_action valid_ymd (\<lambda>l. Inr (storeAdm2UtfName x l))"
| storeAdm2AsciiNameI: "por_action valid_ymd (\<lambda>l. Inr (storeAdm2AsciiName x l))"
| storeAdm3CodeI: "por_action valid_ymd (\<lambda>l. Inr (storeAdm3Code x l))"
| storeAdm4CodeI: "por_action valid_ymd (\<lambda>l. Inr (storeAdm4Code x l))"
| storePopulationI: "por_action valid_ymd (\<lambda>l. Inr (storePopulation x l))"
| storeElevationI: "por_action valid_ymd (\<lambda>l. Inr (storeElevation x l))"
| storeGTopo30I: "por_action valid_ymd (\<lambda>l. Inr (storeGTopo30 x l))"
| storeTimeZoneI: "por_action valid_ymd (\<lambda>l. Inr (storeTimeZone x l))"
| storeGMTOffsetI: "por_action valid_ymd (\<lambda>l. Inr (storeGMTOffset x l))"
| storeDSTOffsetI: "por_action valid_ymd (\<lambda>l. Inr (storeDSTOffset x l))"
| storeRawOffsetI: "por_action valid_ymd (\<lambda>l. Inr (storeRawOffset x l))"
| storeModDateI: "por_action valid_ymd (storeModDate valid_ymd)"
| storeCityCodeI: "por_action valid_ymd (\<lambda>l. Inr (storeCityCode x l))"
| storeCityUtfNameI: "por_action valid_ymd (\<lambda>l. Inr (storeCityUtfName x l))"
| storeCityAsciiNameI: "por_action valid_ymd (\<lambda>l. Inr (storeCityAsciiName x l))"
| storeCityGeonamesIDI: "por_action valid_ymd (\<lambda>l. Inr (storeCityGeonamesID x l))"
| storeStateCodeI: "por_action valid_ymd (\<lambda>l. Inr (storeStateCode x l))"
| storePORTypeI: "por_action valid_ymd (storePORType s)"
| storeWikiLinkI: "por_action valid_ymd (\<lambda>l. Inr (storeWikiLink x l))"
| storeAltLangCodeFullI: "por_action valid_ymd (\<lambda>l. Inr (storeAltLangCodeFull x l))"
| storeAltLangCode2CharI: "por_action valid_ymd (\<lambda>l. Inr (storeAltLangCode2Char x l))"
| storeAltLangCodeExtI: "por_action valid_ymd (\<lambda>l. Inr (storeAltLangCodeExt x l))"
| storeAltLangCodeHistI: "por_action valid_ymd (\<lambda>l. Inr (storeAltLangCodeHist x l))"
| storeAltNameI: "por_action valid_ymd (\<lambda>l. Inr (storeAltName x l))"
| doEndPorI: "por_action valid_ymd (\<lambda>l. Inr (doEndPor l))"
| dateYearI: "por_action valid_ymd (\<lambda>l. Inr (l\<lparr>loc_itYear := Some v\<rparr>))"
| dateMonthI: "por_action valid_ymd (\<lambda>l. Inr (l\<lparr>loc_itMonth := Some v\<rparr>))"
| dateDayI: "por_action valid_ymd (\<lambda>l. Inr (l\<lparr>loc_itDay := Some v\<rparr>))"

definition run_actions :: "por_action list \<Rightarrow> Location \<Rightarrow> Location outcome" where
  "run_actions actions l = foldE (\<lambda>action. action) actions l"

section \<open>What a run of the parser leaves untouched\<close>

lemmas por_action_defs =
  storeIataCode_def storeIcaoCode_def storeFaaCode_def storeGeonamesID_def storeEnvelopeID_def
  storeCommonName_def storeAsciiName_def storeAltNameShort_def storeAltNameShortListString_def
  storeTvlPORCode_def storeTvlPORListString_def storeLatitude_def storeLongitude_def
  storeFeatureClass_def storeFeatureCode_def storePageRank_def storeDateFrom_def
  storeDateUntil_def storeComments_def storeCountryCode_def storeAltCountryCode_def
  storeCountryName_def storeContinentName_def storeAdm1Code_def storeAdm1UtfName_def
  storeAdm1AsciiName_def storeAdm2Code_def storeAdm2UtfName_def storeAdm2AsciiName_def
  storeAdm3Code_def storeAdm4Code_def storePopulation_def storeElevation_def storeGTopo30_def
  storeTimeZone_def storeGMTOffset_def storeDSTOffset_def storeRawOffset_def storeModDate_def
  storeCityCode_def storeCityUtfName_def storeCityAsciiName_def storeCityGeonamesID_def
  storeStateCode_def storePORType_def storeWikiLink_def storeAltLangCodeFull_def
  storeAltLangCode2Char_def storeAltLangCodeExt_def storeAltLangCodeHist_def storeAltName_def
  doEndPor_def

lemmas por_setter_defs = setIataCode_def setIataType_def setGeonamesID_def Location_addName_def
  consolidateAltNameShortListString_def consolidateTvlPORListString_def isGeonames_def

definition keeps_invariant :: "por_action \<Rightarrow> bool" where
  "keeps_invariant a \<longleftrightarrow> (\<forall>l l'. a l = Inr l' \<longrightarrow> isGeonames l' = isGeonames l \<and>
     (matrix_wf (loc_nameMatrix l) \<longrightarrow> matrix_wf (loc_nameMatrix l')))"

lemma por_action_keeps: "por_action valid_ymd a \<Longrightarrow> keeps_invariant a"
  by (induction rule: por_action.induct)
    (simp_all add: keeps_invariant_def por_action_defs por_setter_defs bindE_Inr_iff, auto)

lemma run_actions_invariant:
  assumes "run_actions actions l = Inr l'" and "\<forall>a \<in> set actions. por_action valid_ymd a"
  shows "isGeonames l' = isGeonames l \<and> (matrix_wf (loc_nameMatrix l) \<longrightarrow> matrix_wf (loc_nameMatrix l'))"
proof -
  let ?P = "\<lambda>x. isGeonames x = isGeonames l \<and> (matrix_wf (loc_nameMatrix l) \<longrightarrow> matrix_wf (loc_nameMatrix x))"
  show ?thesis
    using assms(1) unfolding run_actions_def
  proof (rule foldE_invariant [where P="?P"])
    fix a x y
    assume "a \<in> set actions" "?P x" "a x = Inr y"
    moreover from this have "keeps_invariant a" using por_action_keeps assms(2) by blast
    ultimately show "?P y" unfolding keeps_invariant_def by blast
  qed simp
qed

section \<open>Alternative names\<close>

text \<open>The actions of \<^verbatim>\<open>alt_name_section\<close>: an optional language code, then the name.\<close>

definition alt_name_actions :: "(string option \<times> string) list \<Rightarrow> por_action list" where
  "alt_name_actions details = concat (map (\<lambda>(lang, name).
     (case lang of Some s \<Rightarrow> [\<lambda>l. Inr (storeAltLangCodeFull s l)] | None \<Rightarrow> []) @ [\<lambda>l. Inr (storeAltName name l)]) details)"

text \<open>The strings that \<^verbatim>\<open>por_type\<close> accepts.\<close>

definition por_type_accepts :: "string \<Rightarrow> bool" where
  "por_type_accepts s \<longleftrightarrow> 1 \<le> length s \<and> length s \<le> 3 \<and> (\<forall>c \<in> set s. c \<in> set ''ABCGHOPRZ'')"

section \<open>Properties\<close>

text \<open>Whatever the record, a parsed location is never marked as known by Geonames, its identifier
  notwithstanding: no action stores the flag of the record, and storing the identifier does not
  update it. Its names stay filed under their own languages.\<close>

theorem parsed_not_geonames:
  assumes "\<forall>a \<in> set actions. por_action valid_ymd a" and "run_actions actions new_Location = Inr l"
  shows "\<not> isGeonames l \<and> matrix_wf (loc_nameMatrix l)"
  using run_actions_invariant [OF assms(2,1)]
  by (simp add: new_Location_def isGeonames_def new_LocationKey_def)

theorem parsed_not_geonames_witness:
  "\<exists>l. run_actions [\<lambda>l. Inr (storeIataCode ''CDG'' l), \<lambda>l. Inr (storeGeonamesID 6269554 l)] new_Location = Inr l \<and>
     lk_geonamesID (loc_key l) = 6269554 \<and> \<not> isGeonames l"
proof -
  obtain l where l: "run_actions [\<lambda>l. Inr (storeIataCode ''CDG'' l), \<lambda>l. Inr (storeGeonamesID 6269554 l)] new_Location = Inr l"
    by (simp add: run_actions_def)
  then have "lk_geonamesID (loc_key l) = 6269554"
    by (auto simp: run_actions_def storeIataCode_def storeGeonamesID_def setGeonamesID_def setIataCode_def)
  with l parsed_not_geonames [OF _ l, of "\<lambda>y m d. True"] show ?thesis by (auto intro: por_action.intros)
qed

text \<open>The section of alternative names files each name under its own language code, and a name
  without one under the empty code, whatever the language of the name before it.\<close>

theorem alt_names_stored:
  assumes "loc_itLanguageCode l = []"
  shows "run_actions (alt_name_actions details) l =
    Inr (l\<lparr>loc_nameMatrix := fold (\<lambda>(lang, name).
      NameMatrix_addName (case lang of Some s \<Rightarrow> s | None \<Rightarrow> []) name) details (loc_nameMatrix l)\<rparr>)"
  using assms
proof (induction details arbitrary: l)
  case Nil
  then show ?case by (simp add: run_actions_def alt_name_actions_def)
next
  case (Cons d details)
  obtain lang name where d: "d = (lang, name)" by (cases d)
  let ?lang = "case lang of Some s \<Rightarrow> s | None \<Rightarrow> []"
  let ?l = "l\<lparr>loc_nameMatrix := NameMatrix_addName ?lang name (loc_nameMatrix l)\<rparr>"
  have same: "x\<lparr>loc_itLanguageCode := []\<rparr> = x" if "loc_itLanguageCode x = []" for x :: Location
    using that by (cases x) simp
  have "run_actions (alt_name_actions (d # details)) l =
      run_actions (alt_name_actions details) ?l"
    using Cons.prems
    by (cases lang) (simp_all add: d run_actions_def alt_name_actions_def storeAltLangCodeFull_def
      storeAltName_def Location_addName_def same)
  also have "\<dots> = Inr (?l\<lparr>loc_nameMatrix := fold (\<lambda>(lang, name).
      NameMatrix_addName (case lang of Some s \<Rightarrow> s | None \<Rightarrow> []) name) details (loc_nameMatrix ?l)\<rparr>)"
    by (rule Cons.IH) (simp add: Cons.prems)
  finally show ?case by (simp add: d)
qed

theorem alt_names_stored_witness:
  "bindE (run_actions (alt_name_actions [(Some ''fr'', ''Nice''), (None, ''Nizza'')]) new_Location)
     (\<lambda>l. Inr (names_of (loc_nameMatrix l) ''fr'', names_of (loc_nameMatrix l) [])) =
   Inr ([''Nice''], [''Nizza''])"
  by (subst alt_names_stored) (simp_all add: new_Location_def names_of_addName, simp add: names_of_def)

text \<open>The type of a POR is stored exactly for the twelve codes that the conversion knows among those
  the grammar accepts; the other accepted ones, ground transport (\<open>G\<close>) among them, abort the record
  with a conversion error.\<close>

theorem por_type_conversion:
  "por_type_accepts ''G'' \<and> isl (storePORType ''G'' l) \<and>
   (por_type_accepts s \<and> \<not> isl (storePORType s l) \<longleftrightarrow>
     s \<in> set [''CA'', ''CH'', ''CR'', ''CB'', ''CP'', ''C'', ''A'', ''H'', ''R'', ''B'', ''P'', ''O''])"
  by (auto simp: por_type_accepts_def storePORType_def IATAType_of_string_def Let_def)

text \<open>A PageRank between 0 and 1 is stored as a percentage between 0 and 100.\<close>

theorem storePageRank_percentage:
  assumes "0 \<le> q" and "q \<le> 1"
  shows "dle (Fin 0) (loc_pageRank (storePageRank (Fin q) l)) \<and>
    dle (loc_pageRank (storePageRank (Fin q) l)) (Fin 100)"
  using dle_round [of 0 "100 * q"] dle_round [of "100 * q" 100] assms by (simp add: storePageRank_def)

theorem storePageRank_percentage_witness:
  "dle (loc_pageRank (storePageRank (Fin (13 / 20)) new_Location)) (Fin 100)"
  using storePageRank_percentage [of "13 / 20" new_Location] by simp

end
