(* ===== verification/Index_Terms.thy ===== *)
theory Index_Terms
  imports Locations Partition
begin

text \<open>
  The terms under which a point of reference is indexed: \<^verbatim>\<open>bom/Place.cpp\<close>, and the loop that feeds
  them to the full-text index and to the SQL database: \<^verbatim>\<open>command/IndexBuilder.cpp\<close>.

  A \<open>Place\<close> keeps the location, the identifier of its Xapian document and the sets of terms. The
  links to the world, to the holder, and the lists of extra and alternate places, which stay empty
  on the indexing and search paths, are left out (they are in Links). The transliterator is the parameter \<open>normalise\<close>: it stands for
  the value of the normalisation of the theory Transliteration where that is defined, and so what is shown here is
  about places none of whose names overflows its buffer (\<open>normal_text\<close> there is such a function, with the texts on which it
  is the code). The
  writable Xapian database and its documents a record of operations, the parser of a line the
  parameter \<open>generateLocation\<close>, and the SQL insertion an optional operation.
\<close>

section \<open>Conversion of a double to an unsigned short\<close>

text \<open>Truncation towards zero; a value out of range, an infinity and a NaN are undefined behaviour.\<close>

definition ushort_of_dbl :: "dbl \<Rightarrow> 16 word outcome" where
  "ushort_of_dbl d =
     (case d of
        Fin q \<Rightarrow> if - 1 < q \<and> q < 65536 then Inr (word_of_int (if q < 0 then 0 else \<lfloor>q\<rfloor>))
                 else Inl UndefinedBehaviour
      | _ \<Rightarrow> Inl UndefinedBehaviour)"

section \<open>Places\<close>

type_synonym term_map = "(16 word, string oset) omap"

record Place =
  pl_location :: Location
  pl_docID :: int
  pl_termSetMap :: term_map
  pl_spellingSet :: "string oset"
  pl_stemmingSet :: "string oset"
  pl_synonymSet :: "string oset"

definition new_Place :: "Location \<Rightarrow> Place" where
  "new_Place iLocation =
     \<lparr>pl_location = iLocation, pl_docID = 0, pl_termSetMap = om_empty,
      pl_spellingSet = [], pl_stemmingSet = [], pl_synonymSet = []\<rparr>"

text \<open>The default constructor: a location whose texts are empty, but for the ones that its constructor sets.\<close>

definition default_Place :: Place where
  "default_Place = new_Place (new_Location
     \<lparr>loc_commonName := [], loc_asciiName := [], loc_stateCode := [], loc_countryCode := [], loc_countryName := [],
      loc_continentName := [], loc_featClass := [], loc_featCode := [], loc_admin3Code := [], loc_timeZone := [],
      loc_wikiLink := [], loc_originalKeywords := [], loc_correctedKeywords := [], loc_rawDataString := []\<rparr>)"

definition setLocation :: "Location \<Rightarrow> Place \<Rightarrow> Place" where
  "setLocation iLocation p = p\<lparr>pl_location := iLocation\<rparr>"

definition setDocID :: "int \<Rightarrow> Place \<Rightarrow> Place" where
  "setDocID iDocID p = p\<lparr>pl_docID := iDocID\<rparr>"

definition Place_resetMatrix :: "Place \<Rightarrow> Place" where
  "Place_resetMatrix p = p\<lparr>pl_location := resetMatrix (pl_location p)\<rparr>"

definition resetIndexSets :: "Place \<Rightarrow> Place" where
  "resetIndexSets p =
     p\<lparr>pl_termSetMap := om_empty, pl_spellingSet := [], pl_stemmingSet := [], pl_synonymSet := []\<rparr>"

definition shortDisplay :: "stream_output \<Rightarrow> Place \<Rightarrow> string outcome" where
  "shortDisplay out p =
     bindE (toBasicString out (pl_location p)) (\<lambda>s. Inr (s @ '', '' @ show_int (pl_docID p)))"

text \<open>The counters of the separators are signed shorts; only their being zero matters.\<close>

fun separated :: "string \<Rightarrow> string list \<Rightarrow> 16 word \<Rightarrow> string" where
  "separated sep [] idx = []"
| "separated sep (s # rest) idx = (if idx \<noteq> 0 then sep else []) @ s @ separated sep rest (idx + 1)"

definition describeSets :: "Place \<Rightarrow> string" where
  "describeSets p =
     ''[index] '' @
     separated '' - ''
       (map (\<lambda>(lWeight, lStringSet).
          ''['' @ show_nat (unat lWeight) @ ''] '' @ separated '', '' lStringSet 0)
          (om_entries (pl_termSetMap p))) 0 @
     ''; [spelling] '' @ separated '', '' (pl_spellingSet p) 0 @ '';''"

section \<open>Term sets\<close>

definition getTermSet :: "16 word \<Rightarrow> Place \<Rightarrow> string oset" where
  "getTermSet iWeight p =
     (case om_find (pl_termSetMap p) iWeight of Some s \<Rightarrow> s | None \<Rightarrow> [])"

definition addTermSet :: "16 word \<Rightarrow> string oset \<Rightarrow> Place \<Rightarrow> Place" where
  "addTermSet iWeight iTermSet p =
     (case om_find (pl_termSetMap p) iWeight of
        None \<Rightarrow> p\<lparr>pl_termSetMap := om_put iWeight iTermSet (pl_termSetMap p)\<rparr>
      | Some lStringSet \<Rightarrow>
          p\<lparr>pl_termSetMap := om_put iWeight (fold os_insert iTermSet lStringSet) (pl_termSetMap p)\<rparr>)"

definition insertSpelling :: "string \<Rightarrow> Place \<Rightarrow> Place" where
  "insertSpelling s p = p\<lparr>pl_spellingSet := os_insert s (pl_spellingSet p)\<rparr>"

text \<open>The two-argument \<^verbatim>\<open>addNameToXapianSets\<close>: the name followed by each feature name.\<close>

definition addFeaturesToXapianSets :: "16 word \<Rightarrow> string \<Rightarrow> string \<Rightarrow> Place \<Rightarrow> Place" where
  "addFeaturesToXapianSets iWeight iBaseName iFeatureCode p =
     (let lTermSet = fold (\<lambda>lFeatureName s. os_insert (iBaseName @ '' '' @ lFeatureName) s)
            (getFeatureList iFeatureCode) (getTermSet iWeight p)
      in addTermSet iWeight lTermSet p)"

text \<open>
  The block that \<^verbatim>\<open>addNameToXapianSets\<close> writes twice, for the tokenised name and for its
  normalised form: the name alone and with its features, then the name followed by the names of the
  city and of the administrative divisions that are not empty, and by the state, the country and the
  continent even when they are. The result is the local set of terms and the place.
\<close>

definition os_insert_if :: "bool \<Rightarrow> string \<Rightarrow> string oset \<Rightarrow> string oset" where
  "os_insert_if b x s = (if b then os_insert x s else s)"

definition name_pairs ::
    "16 word \<Rightarrow> string \<Rightarrow> Location \<Rightarrow> string oset \<times> Place \<Rightarrow> string oset \<times> Place" where
  "name_pairs iWeight lName l = (\<lambda>(lTermSet, p).
     let s = os_insert lName lTermSet;
         p = addFeaturesToXapianSets iWeight lName (loc_featCode l) p;
         s = os_insert_if (loc_cityUtfName l \<noteq> []) (lName @ '' '' @ loc_cityUtfName l) s;
         s = os_insert_if (loc_cityAsciiName l \<noteq> []) (lName @ '' '' @ loc_cityAsciiName l) s;
         s = os_insert_if (loc_admin1UtfName l \<noteq> []) (lName @ '' '' @ loc_admin1UtfName l) s;
         s = os_insert_if (loc_admin1AsciiName l \<noteq> []) (lName @ '' '' @ loc_admin1AsciiName l) s;
         s = os_insert_if (loc_admin2UtfName l \<noteq> []) (lName @ '' '' @ loc_admin2UtfName l) s;
         s = os_insert_if (loc_admin2AsciiName l \<noteq> []) (lName @ '' '' @ loc_admin2AsciiName l) s;
         s = os_insert (lName @ '' '' @ loc_stateCode l) s;
         s = os_insert (lName @ '' '' @ loc_countryCode l) s;
         s = os_insert (lName @ '' '' @ loc_countryName l) s;
         s = os_insert (lName @ '' '' @ loc_continentName l) s
     in (s, insertSpelling lName p))"

definition addNameToXapianSets ::
    "tokeniser \<Rightarrow> (string \<Rightarrow> string) \<Rightarrow> 16 word \<Rightarrow> string \<Rightarrow> Location \<Rightarrow> Place \<Rightarrow> Place" where
  "addNameToXapianSets tkz normalise iWeight iLocationName l p =
     (let lTermSet = getTermSet iWeight p;
          lWordList = tokeniseStringIntoWordList tkz iLocationName [];
          lTokenisedName = createString lWordList;
          (lTermSet, p) = name_pairs iWeight lTokenisedName l (lTermSet, p);
          lNormalisedCommonName = normalise lTokenisedName;
          (lTermSet, p) = name_pairs iWeight lNormalisedCommonName l (lTermSet, p)
      in addTermSet iWeight lTermSet p)"

section \<open>The index sets of a place\<close>

text \<open>
  \<^verbatim>\<open>buildIndexSets\<close> works on the place and on two local sets, the weighted and the standard
  terms, that it takes from the place first and merges back last.
\<close>

record index_sets =
  ix_place :: Place
  ix_weighted :: "string oset"
  ix_std :: "string oset"

definition add_weighted :: "bool \<Rightarrow> string \<Rightarrow> index_sets \<Rightarrow> index_sets" where
  "add_weighted b s ix = ix\<lparr>ix_weighted := os_insert_if b s (ix_weighted ix)\<rparr>"

text \<open>A term that is spelled too, when it is not empty.\<close>

definition add_spelled :: "bool \<Rightarrow> string \<Rightarrow> index_sets \<Rightarrow> index_sets" where
  "add_spelled b s ix =
     (if b then ix\<lparr>ix_weighted := os_insert s (ix_weighted ix),
                   ix_place := insertSpelling s (ix_place ix)\<rparr>
      else ix)"

definition add_code :: "16 word \<Rightarrow> string \<Rightarrow> string \<Rightarrow> index_sets \<Rightarrow> index_sets" where
  "add_code lPageRank lFeatureCode s ix =
     (if s \<noteq> [] then
        let ix' = add_spelled True s ix
        in ix'\<lparr>ix_place := addFeaturesToXapianSets lPageRank s lFeatureCode (ix_place ix')\<rparr>
      else ix)"

definition add_std :: "string \<Rightarrow> index_sets \<Rightarrow> index_sets" where
  "add_std s ix = ix\<lparr>ix_std := os_insert s (ix_std ix), ix_place := insertSpelling s (ix_place ix)\<rparr>"

definition add_alternate_name ::
    "tokeniser \<Rightarrow> (string \<Rightarrow> string) \<Rightarrow> string \<Rightarrow> index_sets \<Rightarrow> index_sets outcome" where
  "add_alternate_name tkz normalise lName ix =
     (if lName \<noteq> [] then
        bindE (WordCombinationHolder_init tkz (length lName) lName) (\<lambda>lStringList.
          Inr (fold (\<lambda>lWordCombination ix.
                 add_std (normalise lWordCombination) (add_std lWordCombination ix)) lStringList ix))
      else Inr ix)"

definition index_codes :: "16 word \<Rightarrow> Location \<Rightarrow> index_sets \<Rightarrow> index_sets" where
  "index_codes lPageRank l ix =
     (let f = loc_featCode l;
          lIataCode = lk_iataCode (loc_key l);
          ix = add_code lPageRank f lIataCode ix;
          ix = add_code lPageRank f (loc_icaoCode l) ix;
          ix = add_code lPageRank f (loc_faaCode l) ix;
          ix = (if lk_geonamesID (loc_key l) \<noteq> 0 then add_std (show_int (lk_geonamesID (loc_key l))) ix
                else ix);
          ix = add_spelled (f \<noteq> []) f ix
      in add_spelled (loc_cityCode l \<noteq> [] \<and> loc_cityCode l \<noteq> lIataCode) (loc_cityCode l) ix)"

text \<open>The second administrative code is read by \<^verbatim>\<open>getAdmin1Code\<close>.\<close>

definition index_divisions :: "Location \<Rightarrow> index_sets \<Rightarrow> index_sets" where
  "index_divisions l ix =
     (let ix = add_spelled (loc_cityUtfName l \<noteq> []) (loc_cityUtfName l) ix;
          ix = add_spelled (loc_cityAsciiName l \<noteq> []) (loc_cityAsciiName l) ix;
          ix = add_spelled (loc_stateCode l \<noteq> []) (loc_stateCode l) ix;
          ix = add_weighted True (loc_countryCode l) ix;
          ix = add_spelled (loc_countryName l \<noteq> []) (loc_countryName l) ix;
          ix = add_weighted (loc_admin1Code l \<noteq> []) (loc_admin1Code l) ix;
          ix = add_spelled (loc_admin1UtfName l \<noteq> []) (loc_admin1UtfName l) ix;
          ix = add_spelled (loc_admin1AsciiName l \<noteq> []) (loc_admin1AsciiName l) ix;
          lAdm2Code = loc_admin1Code l;
          ix = add_weighted (lAdm2Code \<noteq> []) lAdm2Code ix;
          ix = add_spelled (loc_admin2UtfName l \<noteq> []) (loc_admin2UtfName l) ix;
          ix = add_spelled (loc_admin2AsciiName l \<noteq> []) (loc_admin2AsciiName l) ix
      in add_weighted True (loc_continentName l) ix)"

definition std_weight :: "16 word" where
  "std_weight = word_of_nat K_DEFAULT_INDEXING_STD_WEIGHT"

definition index_name ::
    "tokeniser \<Rightarrow> (string \<Rightarrow> string) \<Rightarrow> string \<Rightarrow> Location \<Rightarrow> index_sets \<Rightarrow> index_sets" where
  "index_name tkz normalise lName l ix =
     (if lName \<noteq> [] then
        ix\<lparr>ix_place := addNameToXapianSets tkz normalise std_weight lName l (ix_place ix)\<rparr>
      else ix)"

definition index_names ::
    "tokeniser \<Rightarrow> (string \<Rightarrow> string) \<Rightarrow> Location \<Rightarrow> index_sets \<Rightarrow> index_sets outcome" where
  "index_names tkz normalise l ix =
     (let ix = index_name tkz normalise (loc_commonName l) l ix;
          ix = index_name tkz normalise (loc_asciiName l) l ix
      in foldE (\<lambda>(_, lNames). foldE (add_alternate_name tkz normalise) (nm_nameList lNames))
           (om_entries (loc_nameMatrix l)) ix)"

definition page_rank_weight :: "Location \<Rightarrow> 16 word outcome" where
  "page_rank_weight l =
     bindE (ushort_of_dbl (ddiv_const (loc_pageRank l) 5)) (\<lambda>r.
       Inr (word_of_nat K_DEFAULT_INDEXING_EXTRA_WEIGHT + r))"

definition buildIndexSets :: "tokeniser \<Rightarrow> (string \<Rightarrow> string) \<Rightarrow> Place \<Rightarrow> Place outcome" where
  "buildIndexSets tkz normalise p =
     bindE (page_rank_weight (pl_location p)) (\<lambda>lPageRank.
       let l = pl_location p;
           ix = \<lparr>ix_place = p, ix_weighted = getTermSet lPageRank p, ix_std = getTermSet std_weight p\<rparr>;
           ix = index_divisions l (index_codes lPageRank l ix)
       in bindE (index_names tkz normalise l ix) (\<lambda>ix.
            Inr (addTermSet std_weight (ix_std ix)
                  (addTermSet lPageRank (ix_weighted ix) (ix_place ix)))))"

section \<open>The terms, as sets\<close>

text \<open>What \<open>buildIndexSets\<close> promises: the sets of terms of a location, without order or passes.\<close>

definition nonempty :: "string set \<Rightarrow> string set" where
  "nonempty S = S - {[]}"

definition feature_terms :: "Location \<Rightarrow> string \<Rightarrow> string set" where
  "feature_terms l n = (\<lambda>f. n @ '' '' @ f) ` set (getFeatureList (loc_featCode l))"

definition place_codes :: "Location \<Rightarrow> string set" where
  "place_codes l = nonempty {lk_iataCode (loc_key l), loc_icaoCode l, loc_faaCode l}"

definition spelled_terms :: "Location \<Rightarrow> string set" where
  "spelled_terms l = place_codes l \<union> nonempty
     {loc_featCode l, loc_cityCode l, loc_cityUtfName l, loc_cityAsciiName l, loc_stateCode l,
      loc_countryName l, loc_admin1UtfName l, loc_admin1AsciiName l, loc_admin2UtfName l,
      loc_admin2AsciiName l}"

definition weighted_terms :: "Location \<Rightarrow> string set" where
  "weighted_terms l =
     spelled_terms l \<union> nonempty {loc_admin1Code l} \<union> {loc_countryCode l, loc_continentName l} \<union>
     (\<Union>c \<in> place_codes l. feature_terms l c)"

definition pair_terms :: "Location \<Rightarrow> string \<Rightarrow> string set" where
  "pair_terms l n =
     {n} \<union> feature_terms l n \<union> (\<lambda>s. n @ '' '' @ s) `
       (nonempty {loc_cityUtfName l, loc_cityAsciiName l, loc_admin1UtfName l, loc_admin1AsciiName l,
          loc_admin2UtfName l, loc_admin2AsciiName l} \<union>
        {loc_stateCode l, loc_countryCode l, loc_countryName l, loc_continentName l})"

definition plain_name :: "tokeniser \<Rightarrow> string \<Rightarrow> string" where
  "plain_name tkz n = join_words (tkz AllSepatorList n)"

definition name_forms :: "tokeniser \<Rightarrow> (string \<Rightarrow> string) \<Rightarrow> Location \<Rightarrow> string set" where
  "name_forms tkz normalise l =
     (\<Union>n \<in> nonempty {loc_commonName l, loc_asciiName l}. {plain_name tkz n, normalise (plain_name tkz n)})"

definition alternate_names :: "Location \<Rightarrow> string set" where
  "alternate_names l = nonempty (\<Union>e \<in> set (om_entries (loc_nameMatrix l)). set (nm_nameList (snd e)))"

definition alternate_terms :: "tokeniser \<Rightarrow> (string \<Rightarrow> string) \<Rightarrow> Location \<Rightarrow> string set" where
  "alternate_terms tkz normalise l =
     (\<Union>n \<in> alternate_names l. \<Union>w \<in> phrases_of (tkz AllSepatorList n). {w, normalise w})"

definition geonames_term :: "Location \<Rightarrow> string set" where
  "geonames_term l =
     (if lk_geonamesID (loc_key l) \<noteq> 0 then {show_int (lk_geonamesID (loc_key l))} else {})"

definition std_terms :: "tokeniser \<Rightarrow> (string \<Rightarrow> string) \<Rightarrow> Location \<Rightarrow> string set" where
  "std_terms tkz normalise l =
     geonames_term l \<union> (\<Union>n \<in> name_forms tkz normalise l. pair_terms l n) \<union>
     alternate_terms tkz normalise l"

definition spelling_terms :: "tokeniser \<Rightarrow> (string \<Rightarrow> string) \<Rightarrow> Location \<Rightarrow> string set" where
  "spelling_terms tkz normalise l =
     spelled_terms l \<union> geonames_term l \<union> name_forms tkz normalise l \<union> alternate_terms tkz normalise l"

definition short_names :: "tokeniser \<Rightarrow> Location \<Rightarrow> bool" where
  "short_names tkz l \<longleftrightarrow>
     (\<forall>n \<in> {loc_commonName l, loc_asciiName l} \<union> alternate_names l. length (tkz AllSepatorList n) \<le> 32767)"

section \<open>What each step adds\<close>

text \<open>The terms of a place under a weight, and the rest of the place.\<close>

definition terms :: "Place \<Rightarrow> 16 word \<Rightarrow> string set" where
  "terms p x = set (getTermSet x p)"

definition spelled :: "Place \<Rightarrow> string set" where
  "spelled p = set (pl_spellingSet p)"

definition frame :: "Place \<Rightarrow> Place" where
  "frame p = p\<lparr>pl_termSetMap := om_empty, pl_spellingSet := []\<rparr>"

named_theorems index_simps "what each step of the indexing adds"

definition at_weight :: "'k \<Rightarrow> 'k \<Rightarrow> 'a set \<Rightarrow> 'a set" where
  "at_weight w x S = (if x = w then S else {})"

lemma at_weight_Un [index_simps]: "at_weight w x (S \<union> T) = at_weight w x S \<union> at_weight w x T"
  by (simp add: at_weight_def)

lemma set_fold_insert [simp]: "set (fold os_insert xs s) = set xs \<union> set s"
  using set_os_insert_all [of xs s] by (simp only: os_insert_all_def)

lemma os_insert_if_set [index_simps]: "set (os_insert_if b x s) = (if b then {x} else {}) \<union> set s"
  by (simp add: os_insert_if_def set_insort_insert)

lemma addTermSet_terms [index_simps]: "terms (addTermSet w s p) x = terms p x \<union> at_weight w x (set s)"
  by (auto simp: terms_def getTermSet_def addTermSet_def at_weight_def split: option.splits)

lemma addTermSet_frame [index_simps]:
  "spelled (addTermSet w s p) = spelled p" "frame (addTermSet w s p) = frame p"
  by (simp_all add: addTermSet_def spelled_def frame_def split: option.splits)

lemma insertSpelling_adds [index_simps]:
  "terms (insertSpelling s p) x = terms p x" "spelled (insertSpelling s p) = {s} \<union> spelled p"
  "frame (insertSpelling s p) = frame p"
  by (simp_all add: insertSpelling_def terms_def getTermSet_def spelled_def frame_def set_insort_insert)

lemma set_fold_insert_map: "set (fold (\<lambda>x s. os_insert (g x) s) xs s) = g ` set xs \<union> set s"
  by (induction xs arbitrary: s) (auto simp: set_insort_insert)

lemma addFeatures_adds [index_simps]:
  "terms (addFeaturesToXapianSets w n (loc_featCode l) p) x = terms p x \<union> at_weight w x (feature_terms l n)"
  "spelled (addFeaturesToXapianSets w n f p) = spelled p"
  "frame (addFeaturesToXapianSets w n f p) = frame p"
  unfolding addFeaturesToXapianSets_def Let_def index_simps set_fold_insert_map feature_terms_def
  by (auto simp: at_weight_def terms_def)

lemma nonempty_if:
  "(if s \<noteq> [] then {s} else {}) = nonempty {s}"
  "(if s \<noteq> [] then {n @ '' '' @ s} else {}) = (\<lambda>s. n @ '' '' @ s) ` nonempty {s}"
  by (simp_all add: nonempty_def)

lemma nonempty_insert: "nonempty (insert a (insert b S)) = nonempty {a} \<union> nonempty (insert b S)"
  by (auto simp: nonempty_def)

lemma name_pairs_adds:
  "set (fst (name_pairs w n l (t, p))) \<union> feature_terms l n = pair_terms l n \<union> set t"
  "snd (name_pairs w n l (t, p)) = insertSpelling n (addFeaturesToXapianSets w n (loc_featCode l) p)"
proof -
  show "set (fst (name_pairs w n l (t, p))) \<union> feature_terms l n = pair_terms l n \<union> set t"
    unfolding name_pairs_def Let_def prod.case fst_conv pair_terms_def nonempty_insert image_Un
      os_insert_if_set set_insort_insert nonempty_if image_insert image_empty
    by (simp only: Un_insert_left Un_insert_right Un_empty_left Un_empty_right Un_ac insert_commute)
qed (simp add: name_pairs_def Let_def)

lemma addNameToXapianSets_adds:
  assumes "length (tkz AllSepatorList n) \<le> 32767"
  defines "t \<equiv> plain_name tkz n"
  shows "terms (addNameToXapianSets tkz normalise w n l p) x =
      terms p x \<union> at_weight w x (pair_terms l t \<union> pair_terms l (normalise t))"
    and "spelled (addNameToXapianSets tkz normalise w n l p) = spelled p \<union> {t, normalise t}"
    and "frame (addNameToXapianSets tkz normalise w n l p) = frame p"
proof -
  have t: "createString (tokeniseStringIntoWordList tkz n []) = t"
    using assms(1) by (simp add: t_def plain_name_def)
  obtain s1 p1 where 1: "name_pairs w t l (getTermSet w p, p) = (s1, p1)" by fastforce
  obtain s2 p2 where 2: "name_pairs w (normalise t) l (s1, p1) = (s2, p2)" by fastforce
  have r: "addNameToXapianSets tkz normalise w n l p = addTermSet w s2 p2"
    unfolding addNameToXapianSets_def Let_def t 1 prod.case 2 ..
  note p1 = name_pairs_adds [where w=w and n=t and l=l and t="getTermSet w p" and p=p, unfolded 1 fst_conv snd_conv]
  note p2 = name_pairs_adds [where w=w and n="normalise t" and l=l and t=s1 and p=p1, unfolded 2 fst_conv snd_conv]
  have p2': "p2 = insertSpelling (normalise t) (addFeaturesToXapianSets w (normalise t) (loc_featCode l)
    (insertSpelling t (addFeaturesToXapianSets w t (loc_featCode l) p)))"
    unfolding p2(2) p1(2) ..
  show "terms (addNameToXapianSets tkz normalise w n l p) x =
      terms p x \<union> at_weight w x (pair_terms l t \<union> pair_terms l (normalise t))"
    unfolding r index_simps p2' using p1(1) p2(1)
    by (auto simp: at_weight_def terms_def)
  show "spelled (addNameToXapianSets tkz normalise w n l p) = spelled p \<union> {t, normalise t}"
    unfolding r index_simps p2' by blast
  show "frame (addNameToXapianSets tkz normalise w n l p) = frame p"
    unfolding r index_simps p2' ..
qed

text \<open>The four views of the index sets, and what each step adds to them.\<close>

definition adds ::
    "index_sets \<Rightarrow> index_sets \<Rightarrow> (16 word \<Rightarrow> string set) \<Rightarrow> string set \<Rightarrow> string set \<Rightarrow> string set \<Rightarrow> bool" where
  "adds ix ix' T W S P \<longleftrightarrow>
     (\<forall>x. terms (ix_place ix') x = terms (ix_place ix) x \<union> T x) \<and>
     set (ix_weighted ix') = set (ix_weighted ix) \<union> W \<and>
     set (ix_std ix') = set (ix_std ix) \<union> S \<and>
     spelled (ix_place ix') = spelled (ix_place ix) \<union> P \<and>
     frame (ix_place ix') = frame (ix_place ix)"

lemma adds_refl: "adds ix ix (\<lambda>x. {}) {} {} {}"
  by (simp add: adds_def)

lemma adds_trans:
  "adds a b T W S P \<Longrightarrow> adds b c T' W' S' P' \<Longrightarrow>
   adds a c (\<lambda>x. T x \<union> T' x) (W \<union> W') (S \<union> S') (P \<union> P')"
  by (simp add: adds_def Un_assoc)

lemma adds_cong:
  "adds a b T W S P \<Longrightarrow> (\<And>x. T x = T' x) \<Longrightarrow> W = W' \<Longrightarrow> S = S' \<Longrightarrow> P = P' \<Longrightarrow> adds a b T' W' S' P'"
  by (simp add: adds_def)

lemma add_weighted_adds:
  "adds ix (add_weighted b s ix) (\<lambda>x. {}) (if b then {s} else {}) {} {}"
  by (auto simp: adds_def add_weighted_def os_insert_if_set)

lemma add_spelled_adds:
  "adds ix (add_spelled b s ix) (\<lambda>x. {}) (if b then {s} else {}) {} (if b then {s} else {})"
  by (auto simp: adds_def add_spelled_def set_insort_insert index_simps)

lemma add_std_adds: "adds ix (add_std s ix) (\<lambda>x. {}) {} {s} {s}"
  by (auto simp: adds_def add_std_def set_insort_insert index_simps)

lemma add_code_adds:
  "adds ix (add_code w (loc_featCode l) s ix) (\<lambda>x. at_weight w x (\<Union>c \<in> nonempty {s}. feature_terms l c))
     (nonempty {s}) {} (nonempty {s})"
proof (cases "s = []")
  case True
  then show ?thesis by (simp add: add_code_def adds_refl nonempty_def at_weight_def)
next
  case False
  then show ?thesis
    by (auto simp: adds_def add_code_def Let_def add_spelled_def index_simps set_insort_insert nonempty_def)
qed

lemma add_two_adds: "adds ix (add_std v (add_std w ix)) (\<lambda>x. {}) {} {w, v} {w, v}"
  by (rule adds_cong [OF adds_trans [OF add_std_adds add_std_adds]]) auto

lemma fold_adds:
  assumes "\<And>a ix. a \<in> set as \<Longrightarrow> adds ix (f a ix) (\<lambda>x. {}) {} (g a) (g a)"
  shows "adds ix (fold f as ix) (\<lambda>x. {}) {} (\<Union>a \<in> set as. g a) (\<Union>a \<in> set as. g a)"
  using assms
proof (induction as arbitrary: ix)
  case Nil
  show ?case by (simp add: adds_refl)
next
  case (Cons a as)
  have "adds ix (f a ix) (\<lambda>x. {}) {} (g a) (g a)" by (rule Cons.prems) simp
  moreover have "adds (f a ix) (fold f as (f a ix)) (\<lambda>x. {}) {} (\<Union>a \<in> set as. g a) (\<Union>a \<in> set as. g a)"
    by (rule Cons.IH) (rule Cons.prems, simp)
  ultimately show ?case by (auto intro: adds_cong [OF adds_trans])
qed

lemma foldE_adds:
  assumes "\<And>a ix. a \<in> set as \<Longrightarrow> \<exists>ix'. f a ix = Inr ix' \<and> adds ix ix' (\<lambda>x. {}) {} (g a) (g a)"
  shows "\<exists>ix'. foldE f as ix = Inr ix' \<and> adds ix ix' (\<lambda>x. {}) {} (\<Union>a \<in> set as. g a) (\<Union>a \<in> set as. g a)"
  using assms
proof (induction as arbitrary: ix)
  case Nil
  show ?case by (simp add: adds_refl)
next
  case (Cons a as)
  obtain ix1 where 1: "f a ix = Inr ix1" "adds ix ix1 (\<lambda>x. {}) {} (g a) (g a)"
    using Cons.prems [of a ix] by auto
  have "\<exists>ix'. foldE f as ix1 = Inr ix' \<and>
      adds ix1 ix' (\<lambda>x. {}) {} (\<Union>a \<in> set as. g a) (\<Union>a \<in> set as. g a)"
    by (rule Cons.IH) (rule Cons.prems, simp)
  then obtain ix2 where 2: "foldE f as ix1 = Inr ix2"
    "adds ix1 ix2 (\<lambda>x. {}) {} (\<Union>a \<in> set as. g a) (\<Union>a \<in> set as. g a)" by blast
  show ?case
    using 1(1) 2(1) adds_trans [OF 1(2) 2(2)] by (auto intro: adds_cong)
qed

context char_separator
begin

lemma add_alternate_name_adds:
  assumes "length (tkz AllSepatorList n) \<le> 32767"
  shows "\<exists>ix'. add_alternate_name tkz normalise n ix = Inr ix' \<and>
    (let A = (\<Union>m \<in> nonempty {n}. \<Union>w \<in> phrases_of (tkz AllSepatorList m). {w, normalise w})
     in adds ix ix' (\<lambda>x. {}) {} A A)"
proof (cases "n = []")
  case True
  then show ?thesis by (simp add: add_alternate_name_def nonempty_def adds_refl)
next
  case False
  then obtain cs where "WordCombinationHolder_init tkz (length n) n = Inr cs"
    and cs: "set cs = phrases_of (tkz AllSepatorList n)"
    using word_combinations_set [OF _ assms] by blast
  moreover have "nonempty {n} = {n}" using False by (simp add: nonempty_def)
  moreover have "adds ix (fold (\<lambda>lWordCombination ix.
      add_std (normalise lWordCombination) (add_std lWordCombination ix)) cs ix)
    (\<lambda>x. {}) {} (\<Union>w \<in> set cs. {w, normalise w}) (\<Union>w \<in> set cs. {w, normalise w})"
    by (rule fold_adds) (rule add_two_adds)
  ultimately show ?thesis using False by (simp add: add_alternate_name_def)
qed

end

lemma index_codes_adds:
  "adds ix (index_codes w l ix) (\<lambda>x. at_weight w x (\<Union>c \<in> place_codes l. feature_terms l c))
     (place_codes l \<union> nonempty {loc_featCode l, loc_cityCode l}) (geonames_term l)
     (place_codes l \<union> nonempty {loc_featCode l, loc_cityCode l} \<union> geonames_term l)"
proof -
  have g: "adds ix (if lk_geonamesID (loc_key l) \<noteq> 0 then add_std (show_int (lk_geonamesID (loc_key l))) ix else ix)
    (\<lambda>x. {}) {} (geonames_term l) (geonames_term l)" for ix
    by (simp add: geonames_term_def add_std_adds adds_refl)
  show ?thesis
    unfolding index_codes_def Let_def
    by (rule adds_cong, rule adds_trans, rule adds_trans, rule adds_trans, rule adds_trans, rule adds_trans,
        rule add_code_adds, rule add_code_adds, rule add_code_adds, rule g, rule add_spelled_adds,
        rule add_spelled_adds)
      (auto simp: place_codes_def nonempty_def at_weight_def)
qed

lemma nonempty_singleton: "(if s \<noteq> [] then {s} else {}) = nonempty {s}"
  by (simp add: nonempty_def)

lemma index_divisions_adds:
  "adds ix (index_divisions l ix) (\<lambda>x. {})
     (nonempty {loc_cityUtfName l, loc_cityAsciiName l, loc_stateCode l, loc_countryName l,
        loc_admin1UtfName l, loc_admin1AsciiName l, loc_admin2UtfName l, loc_admin2AsciiName l} \<union>
      nonempty {loc_admin1Code l} \<union> {loc_countryCode l, loc_continentName l}) {}
     (nonempty {loc_cityUtfName l, loc_cityAsciiName l, loc_stateCode l, loc_countryName l,
        loc_admin1UtfName l, loc_admin1AsciiName l, loc_admin2UtfName l, loc_admin2AsciiName l})"
  unfolding index_divisions_def Let_def nonempty_insert
  by (rule adds_cong, rule adds_trans, rule adds_trans, rule adds_trans, rule adds_trans, rule adds_trans,
      rule adds_trans, rule adds_trans, rule adds_trans, rule adds_trans, rule adds_trans, rule adds_trans,
      (rule add_spelled_adds add_weighted_adds)+, unfold nonempty_singleton)
    (simp_all only: if_True Un_insert_left Un_insert_right Un_empty_left Un_empty_right Un_ac Un_absorb
      Un_left_absorb insert_commute)

context char_separator
begin

lemma index_name_adds:
  assumes "length (tkz AllSepatorList n) \<le> 32767"
  shows "adds ix (index_name tkz normalise n l ix)
    (\<lambda>x. at_weight std_weight x (\<Union>m \<in> nonempty {n}. \<Union>k \<in> {plain_name tkz m, normalise (plain_name tkz m)}. pair_terms l k))
    {} {} (\<Union>m \<in> nonempty {n}. {plain_name tkz m, normalise (plain_name tkz m)})"
proof (cases "n = []")
  case True
  then show ?thesis by (simp add: index_name_def adds_refl nonempty_def at_weight_def)
next
  case False
  then have "nonempty {n} = {n}" by (simp add: nonempty_def)
  then show ?thesis
    using False addNameToXapianSets_adds [of tkz n normalise std_weight l "ix_place ix", OF assms]
    by (simp add: index_name_def adds_def)
qed

lemma index_names_adds:
  assumes "short_names tkz l"
  shows "\<exists>ix'. index_names tkz normalise l ix = Inr ix' \<and>
    adds ix ix' (\<lambda>x. at_weight std_weight x (\<Union>n \<in> name_forms tkz normalise l. pair_terms l n))
      {} (alternate_terms tkz normalise l)
      (name_forms tkz normalise l \<union> alternate_terms tkz normalise l)"
proof -
  let ?alt = "\<lambda>n. \<Union>m \<in> nonempty {n}. \<Union>w \<in> phrases_of (tkz AllSepatorList m). {w, normalise w}"
  let ?lang = "\<lambda>e. \<Union>n \<in> set (nm_nameList (snd e)). ?alt n"
  have c: "length (tkz AllSepatorList (loc_commonName l)) \<le> 32767"
    and a: "length (tkz AllSepatorList (loc_asciiName l)) \<le> 32767"
    using assms by (simp_all add: short_names_def)
  let ?ix = "index_name tkz normalise (loc_asciiName l) l (index_name tkz normalise (loc_commonName l) l ix)"
  have names: "\<exists>ix'. (\<lambda>(_, lNames). foldE (add_alternate_name tkz normalise) (nm_nameList lNames)) e ix = Inr ix' \<and>
      adds ix ix' (\<lambda>x. {}) {} (?lang e) (?lang e)" if e: "e \<in> set (om_entries (loc_nameMatrix l))" for e ix
  proof -
    have "\<exists>ix'. add_alternate_name tkz normalise n ix = Inr ix' \<and> adds ix ix' (\<lambda>x. {}) {} (?alt n) (?alt n)"
      if n: "n \<in> set (nm_nameList (snd e))" for n ix
    proof (cases "n = []")
      case True
      then show ?thesis by (simp add: add_alternate_name_def nonempty_def adds_refl)
    next
      case False
      then have "n \<in> alternate_names l" using e n by (auto simp: alternate_names_def nonempty_def)
      then have "length (tkz AllSepatorList n) \<le> 32767" using assms by (simp add: short_names_def)
      from add_alternate_name_adds [OF this] show ?thesis by (simp only: Let_def)
    qed
    from foldE_adds [OF this] show ?thesis by (simp add: case_prod_beta)
  qed
  obtain ix' where r: "foldE (\<lambda>(_, lNames). foldE (add_alternate_name tkz normalise) (nm_nameList lNames))
      (om_entries (loc_nameMatrix l)) ?ix = Inr ix'"
    and ad: "adds ?ix ix' (\<lambda>x. {}) {} (\<Union>e \<in> set (om_entries (loc_nameMatrix l)). ?lang e)
      (\<Union>e \<in> set (om_entries (loc_nameMatrix l)). ?lang e)"
    using foldE_adds [of "om_entries (loc_nameMatrix l)"
      "\<lambda>(_, lNames). foldE (add_alternate_name tkz normalise) (nm_nameList lNames)" ?lang ?ix, OF names]
    by blast
  have alt: "(\<Union>e \<in> set (om_entries (loc_nameMatrix l)). ?lang e) = alternate_terms tkz normalise l"
    by (auto simp: alternate_terms_def alternate_names_def nonempty_def)
  have forms: "name_forms tkz normalise l =
    (\<Union>m \<in> nonempty {loc_commonName l}. {plain_name tkz m, normalise (plain_name tkz m)}) \<union>
    (\<Union>m \<in> nonempty {loc_asciiName l}. {plain_name tkz m, normalise (plain_name tkz m)})"
    unfolding name_forms_def nonempty_insert by blast
  have "adds ix ix' (\<lambda>x. at_weight std_weight x (\<Union>n \<in> name_forms tkz normalise l. pair_terms l n))
      {} (alternate_terms tkz normalise l)
      (name_forms tkz normalise l \<union> alternate_terms tkz normalise l)"
    by (rule adds_cong [OF adds_trans [OF adds_trans [OF index_name_adds [OF c] index_name_adds [OF a]]
        ad [unfolded alt]]])
      (auto simp: forms at_weight_def)
  then show ?thesis unfolding index_names_def Let_def using r by blast
qed

lemma buildIndexSets_adds:
  assumes "page_rank_weight (pl_location p) = Inr w" and "short_names tkz (pl_location p)"
  shows "\<exists>p'. buildIndexSets tkz normalise p = Inr p' \<and> frame p' = frame p \<and>
    spelled p' = spelled p \<union> spelling_terms tkz normalise (pl_location p) \<and>
    (\<forall>x. terms p' x = terms p x \<union> at_weight w x (weighted_terms (pl_location p)) \<union>
       at_weight std_weight x (std_terms tkz normalise (pl_location p)))"
proof -
  let ?l = "pl_location p"
  let ?ix = "\<lparr>ix_place = p, ix_weighted = getTermSet w p, ix_std = getTermSet std_weight p\<rparr>"
  obtain ix where n: "index_names tkz normalise ?l (index_divisions ?l (index_codes w ?l ?ix)) = Inr ix"
    and ad: "adds (index_divisions ?l (index_codes w ?l ?ix)) ix
      (\<lambda>x. at_weight std_weight x (\<Union>n \<in> name_forms tkz normalise ?l. pair_terms ?l n))
      {} (alternate_terms tkz normalise ?l)
      (name_forms tkz normalise ?l \<union> alternate_terms tkz normalise ?l)"
    using index_names_adds [OF assms(2)] by blast
  note all = adds_trans [OF adds_trans [OF index_codes_adds index_divisions_adds] ad,
      unfolded adds_def index_sets.simps Un_empty_left Un_empty_right]
  from all have ts: "terms (ix_place ix) x = terms p x \<union> (at_weight w x (\<Union>c \<in> place_codes ?l. feature_terms ?l c) \<union>
      at_weight std_weight x (\<Union>n \<in> name_forms tkz normalise ?l. pair_terms ?l n))" for x
    by blast
  note wt = all [THEN conjunct2, THEN conjunct1]
    and st = all [THEN conjunct2, THEN conjunct2, THEN conjunct1]
    and sp = all [THEN conjunct2, THEN conjunct2, THEN conjunct2, THEN conjunct1]
    and fr = all [THEN conjunct2, THEN conjunct2, THEN conjunct2, THEN conjunct2]
  let ?p' = "addTermSet std_weight (ix_std ix) (addTermSet w (ix_weighted ix) (ix_place ix))"
  have "buildIndexSets tkz normalise p = Inr ?p'"
    unfolding buildIndexSets_def assms(1) bindE_simps Let_def n ..
  moreover have "frame ?p' = frame p" unfolding index_simps fr ..
  moreover have "spelled ?p' = spelled p \<union> spelling_terms tkz normalise ?l"
    unfolding index_simps sp spelling_terms_def spelled_terms_def nonempty_def by blast
  moreover have "terms ?p' x = terms p x \<union> at_weight w x (weighted_terms ?l) \<union>
       at_weight std_weight x (std_terms tkz normalise ?l)" for x
  proof -
    have W: "set (ix_weighted ix) \<union> (\<Union>c \<in> place_codes ?l. feature_terms ?l c) = terms p w \<union> weighted_terms ?l"
      unfolding wt weighted_terms_def spelled_terms_def terms_def nonempty_def by blast
    have S: "set (ix_std ix) \<union> (\<Union>n \<in> name_forms tkz normalise ?l. pair_terms ?l n) =
        terms p std_weight \<union> std_terms tkz normalise ?l"
      unfolding st std_terms_def terms_def by blast
    show ?thesis
      unfolding index_simps ts at_weight_def using W S by (auto split: if_splits)
  qed
  ultimately show ?thesis by blast
qed

end

section \<open>The index sets stay ordered\<close>

definition place_wf :: "Place \<Rightarrow> bool" where
  "place_wf p \<longleftrightarrow>
     om_wf (pl_termSetMap p) \<and> (\<forall>w. os_wf (getTermSet w p)) \<and> os_wf (pl_spellingSet p)"

definition ix_wf :: "index_sets \<Rightarrow> bool" where
  "ix_wf ix \<longleftrightarrow> place_wf (ix_place ix) \<and> os_wf (ix_weighted ix) \<and> os_wf (ix_std ix)"

lemma os_wf_fold [simp]: "os_wf s \<Longrightarrow> os_wf (fold os_insert xs s)"
  using os_wf_insert_all [of s xs] by (simp add: os_insert_all_def)

lemma os_wf_fold_map: "os_wf s \<Longrightarrow> os_wf (fold (\<lambda>x s. os_insert (g x) s) xs s)"
  by (induction xs arbitrary: s) simp_all

lemma os_wf_insert_if: "os_wf s \<Longrightarrow> os_wf (os_insert_if b x s)"
  by (simp add: os_insert_if_def)

lemma getTermSet_addTermSet:
  "getTermSet x (addTermSet w s p) =
     (if x = w then (case om_find (pl_termSetMap p) w of None \<Rightarrow> s | Some t \<Rightarrow> fold os_insert s t)
      else getTermSet x p)"
  by (auto simp: getTermSet_def addTermSet_def split: option.splits)

lemma wf_addTermSet:
  assumes "place_wf p" and "os_wf s"
  shows "place_wf (addTermSet w s p)"
proof -
  have "om_wf (pl_termSetMap (addTermSet w s p))"
    using assms by (auto simp: place_wf_def addTermSet_def split: option.splits)
  moreover have "os_wf (getTermSet x (addTermSet w s p))" for x
  proof -
    have "os_wf (getTermSet w p)" "os_wf (getTermSet x p)" using assms by (auto simp: place_wf_def)
    then show ?thesis
      using assms(2) unfolding getTermSet_addTermSet by (auto simp: getTermSet_def split: option.splits)
  qed
  moreover have "pl_spellingSet (addTermSet w s p) = pl_spellingSet p"
    by (simp add: addTermSet_def split: option.splits)
  ultimately show ?thesis using assms by (simp add: place_wf_def)
qed

lemma wf_insertSpelling: "place_wf p \<Longrightarrow> place_wf (insertSpelling s p)"
  by (simp add: place_wf_def insertSpelling_def getTermSet_def)

lemma wf_getTermSet: "place_wf p \<Longrightarrow> os_wf (getTermSet w p)"
  by (simp add: place_wf_def)

lemma wf_addFeatures: "place_wf p \<Longrightarrow> place_wf (addFeaturesToXapianSets w n f p)"
  unfolding addFeaturesToXapianSets_def Let_def
  by (intro wf_addTermSet os_wf_fold_map wf_getTermSet)

lemma wf_name_pairs:
  assumes "os_wf t" and "place_wf p"
  shows "os_wf (fst (name_pairs w n l (t, p)))" and "place_wf (snd (name_pairs w n l (t, p)))"
  unfolding name_pairs_def Let_def prod.case fst_conv snd_conv
  by (intro os_wf_insert os_wf_insert_if assms) (intro wf_insertSpelling wf_addFeatures assms)

lemma wf_addName:
  assumes "place_wf p"
  shows "place_wf (addNameToXapianSets tkz normalise w n l p)"
  unfolding addNameToXapianSets_def Let_def case_prod_beta
  by (intro wf_addTermSet wf_name_pairs wf_getTermSet assms)

lemma wf_steps:
  assumes "ix_wf ix"
  shows "ix_wf (add_weighted b s ix)" "ix_wf (add_spelled b s ix)" "ix_wf (add_code w f s ix)"
    "ix_wf (add_std s ix)" "ix_wf (index_name tkz normalise s l ix)"
  using assms
  by (simp_all add: ix_wf_def add_weighted_def add_spelled_def add_code_def add_std_def index_name_def Let_def
      os_wf_insert_if wf_insertSpelling wf_addFeatures wf_addName)

lemma wf_index_codes: "ix_wf ix \<Longrightarrow> ix_wf (index_codes w l ix)"
  unfolding index_codes_def Let_def by (simp add: wf_steps)

lemma wf_index_divisions: "ix_wf ix \<Longrightarrow> ix_wf (index_divisions l ix)"
  unfolding index_divisions_def Let_def by (simp add: wf_steps)

lemma fold_wf: "(\<And>a ix. ix_wf ix \<Longrightarrow> ix_wf (f a ix)) \<Longrightarrow> ix_wf ix \<Longrightarrow> ix_wf (fold f as ix)"
  by (induction as arbitrary: ix) simp_all

lemma wf_add_alternate_name:
  "ix_wf ix \<Longrightarrow> add_alternate_name tkz normalise n ix = Inr ix' \<Longrightarrow> ix_wf ix'"
  by (auto simp: add_alternate_name_def bindE_Inr_iff wf_steps intro!: fold_wf split: if_splits)

lemma wf_index_names:
  assumes "ix_wf ix" and "index_names tkz normalise l ix = Inr ix'"
  shows "ix_wf ix'"
proof -
  have "ix_wf ix2" if "ix_wf ix1"
    and "(\<lambda>(_, lNames). foldE (add_alternate_name tkz normalise) (nm_nameList lNames)) e ix1 = Inr ix2" for e ix1 ix2
    using that by (cases e) (auto elim!: foldE_invariant intro: wf_add_alternate_name)
  with assms show ?thesis
    unfolding index_names_def Let_def
    by (elim foldE_invariant) (auto intro: wf_steps)
qed

lemma wf_buildIndexSets:
  assumes "place_wf p" and "buildIndexSets tkz normalise p = Inr p'"
  shows "place_wf p'"
proof -
  obtain w ix where ix: "index_names tkz normalise (pl_location p) (index_divisions (pl_location p)
      (index_codes w (pl_location p) \<lparr>ix_place = p, ix_weighted = getTermSet w p, ix_std = getTermSet std_weight p\<rparr>)) = Inr ix"
    and p': "p' = addTermSet std_weight (ix_std ix) (addTermSet w (ix_weighted ix) (ix_place ix))"
    using assms(2) unfolding buildIndexSets_def Let_def bindE_Inr_iff by blast
  have "ix_wf \<lparr>ix_place = p, ix_weighted = getTermSet w p, ix_std = getTermSet std_weight p\<rparr>"
    using assms(1) by (simp add: ix_wf_def wf_getTermSet)
  then have "ix_wf ix" by (intro wf_index_names [OF _ ix] wf_index_divisions wf_index_codes)
  then show ?thesis unfolding p' by (intro wf_addTermSet) (simp_all add: ix_wf_def)
qed

lemma frame_eq:
  assumes "frame p = frame q"
  shows "pl_location p = pl_location q" "pl_docID p = pl_docID q" "pl_stemmingSet p = pl_stemmingSet q"
    "pl_synonymSet p = pl_synonymSet q"
  using assms by (cases p; cases q; simp add: frame_def)+

section \<open>The Xapian index\<close>

text \<open>
  What the indexer asks of Xapian: a fresh document, its data, a term generator on it, the terms with
  their frequency increment, the spelling dictionary and the addition of the document, which gives its
  identifier. The last two may throw.
\<close>

record ('doc, 'gen, 'db) xapian_ops =
  x_new_document :: 'doc
  x_set_data :: "string \<Rightarrow> 'doc \<Rightarrow> 'doc"
  x_generator :: "'doc \<Rightarrow> 'gen"
  x_index_text :: "string \<Rightarrow> nat \<Rightarrow> 'gen \<Rightarrow> 'gen"
  x_document :: "'gen \<Rightarrow> 'doc"
  x_add_spelling :: "string \<Rightarrow> 'db \<Rightarrow> 'db outcome"
  x_add_document :: "'doc \<Rightarrow> 'db \<Rightarrow> (int \<times> 'db) outcome"

definition addToXapian ::
    "('doc, 'gen, 'db) xapian_ops \<Rightarrow> Place \<Rightarrow> 'doc \<Rightarrow> 'db \<Rightarrow> ('doc \<times> 'db) outcome" where
  "addToXapian ops iPlace ioDocument ioDatabase =
     (let lTermGenerator = fold (\<lambda>(lWeight, lTermSet) gen.
            let lWDFInc = unat lWeight
            in fold (\<lambda>lString gen. x_index_text ops lString lWDFInc gen) lTermSet gen)
            (om_entries (pl_termSetMap iPlace)) (x_generator ops ioDocument)
      in bindE (foldE (x_add_spelling ops) (pl_spellingSet iPlace) ioDatabase) (\<lambda>ioDatabase.
           Inr (x_document ops lTermGenerator, ioDatabase)))"

definition addDocumentToIndex ::
    "('doc, 'gen, 'db) xapian_ops \<Rightarrow> tokeniser \<Rightarrow> (string \<Rightarrow> string) \<Rightarrow> Place \<Rightarrow> 'db \<Rightarrow> (Place \<times> 'db) outcome" where
  "addDocumentToIndex ops tkz normalise ioPlace ioDatabase =
     (let lDocument = x_set_data ops (loc_rawDataString (pl_location ioPlace)) (x_new_document ops)
      in bindE (buildIndexSets tkz normalise ioPlace) (\<lambda>ioPlace.
         bindE (addToXapian ops ioPlace lDocument ioDatabase) (\<lambda>(lDocument, ioDatabase).
         bindE (x_add_document ops lDocument ioDatabase) (\<lambda>(lDocID, ioDatabase).
           Inr (setDocID lDocID ioPlace, ioDatabase)))))"

text \<open>The loop over the lines of the file, with the one place object that it reuses.\<close>

definition buildSearchIndex ::
    "('doc, 'gen, 'db) xapian_ops \<Rightarrow> tokeniser \<Rightarrow> (string \<Rightarrow> string) \<Rightarrow> (string \<Rightarrow> Location outcome) \<Rightarrow>
     (Place \<Rightarrow> 'sql \<Rightarrow> 'sql outcome) option \<Rightarrow> string list \<Rightarrow> Place \<Rightarrow> 'db \<Rightarrow> 'sql \<Rightarrow>
     (32 word \<times> 'db \<times> 'sql) outcome" where
  "buildSearchIndex ops tkz normalise generateLocation insertPlaceInDB iPORFile lPlace ioDatabase ioSQL =
     bindE (foldE (\<lambda>itReadLine (oNbOfEntries, lPlace, db, sql).
         bindE (generateLocation itReadLine) (\<lambda>lLocation.
           if \<not> (loc_commonName lLocation = ''NotAvailable'') then
             let lPlace = setLocation lLocation lPlace
             in bindE (addDocumentToIndex ops tkz normalise lPlace db) (\<lambda>(lPlace, db).
                bindE (case insertPlaceInDB of Some ins \<Rightarrow> ins lPlace sql | None \<Rightarrow> Inr sql) (\<lambda>sql.
                  Inr (oNbOfEntries + 1, resetIndexSets (Place_resetMatrix lPlace), db, sql)))
           else Inr (oNbOfEntries, lPlace, db, sql)))
       iPORFile (0, lPlace, ioDatabase, ioSQL))
     (\<lambda>(oNbOfEntries, lPlace, db, sql). Inr (oNbOfEntries, db, sql))"

text \<open>The calls to the term generator, in order.\<close>

definition index_calls :: "Place \<Rightarrow> (string \<times> nat) list" where
  "index_calls p = concat (map (\<lambda>(w, ts). map (\<lambda>t. (t, unat w)) ts) (om_entries (pl_termSetMap p)))"

lemma addToXapian_calls:
  "addToXapian ops p doc db =
     bindE (foldE (x_add_spelling ops) (pl_spellingSet p) db) (\<lambda>db.
       Inr (x_document ops (fold (\<lambda>(t, n). x_index_text ops t n) (index_calls p) (x_generator ops doc)), db))"
proof -
  have calls: "fold (\<lambda>(t, n). x_index_text ops t n) (concat (map (\<lambda>(w, ts). map (\<lambda>t. (t, unat w)) ts) m)) g =
      fold (\<lambda>(w, ts) gen. let n = unat w in fold (\<lambda>t gen. x_index_text ops t n gen) ts gen) m g" for m g
    by (induction m arbitrary: g) (auto simp: fold_map comp_def)
  show ?thesis unfolding addToXapian_def index_calls_def calls by (simp only: Let_def)
qed

lemma index_calls_terms:
  assumes "place_wf p"
  shows "set (index_calls p) = {(t, unat w) | t w. t \<in> terms p w}" and "distinct (index_calls p)"
proof -
  have wf: "om_wf (pl_termSetMap p)" using assms by (simp add: place_wf_def)
  have *: "(w, ts) \<in> set (om_entries (pl_termSetMap p)) \<longleftrightarrow> om_find (pl_termSetMap p) w = Some ts" for w ts
    by (rule om.entries_iff [OF wf])
  show "set (index_calls p) = {(t, unat w) | t w. t \<in> terms p w}"
    by (auto simp: index_calls_def terms_def getTermSet_def * split: option.splits) (auto simp: * intro!: bexI)
  have "distinct ts" if "(w, ts) \<in> set (om_entries (pl_termSetMap p))" for w ts
    using that assms by (auto simp: * place_wf_def getTermSet_def os_wf_def dest!: spec [of _ w])
  moreover have "distinct (map fst (om_entries (pl_termSetMap p)))" by (rule om.distinct_keys [OF wf])
  moreover have "distinct (concat (map (\<lambda>(w, ts). map (\<lambda>t. (t, unat w)) ts) m))"
    if "distinct (map fst m)" "\<forall>(w, ts) \<in> set m. distinct ts" for m :: term_map
    using that by (induction m) (auto simp: distinct_map inj_on_def image_iff simp flip: word_unat_eq_iff)
  ultimately show "distinct (index_calls p)" unfolding index_calls_def by blast
qed

section \<open>Indexing each line on its own\<close>

text \<open>
  The specification of the loop: every relevant line is indexed with a place of its own, so nothing
  passes from one line to the next but the databases and the count.
\<close>

definition index_line ::
    "('doc, 'gen, 'db) xapian_ops \<Rightarrow> tokeniser \<Rightarrow> (string \<Rightarrow> string) \<Rightarrow> (string \<Rightarrow> Location outcome) \<Rightarrow>
     (Place \<Rightarrow> 'sql \<Rightarrow> 'sql outcome) option \<Rightarrow> string \<Rightarrow> 32 word \<times> 'db \<times> 'sql \<Rightarrow>
     (32 word \<times> 'db \<times> 'sql) outcome" where
  "index_line ops tkz normalise parse ins line = (\<lambda>(n, db, sql).
     bindE (parse line) (\<lambda>l.
       if loc_commonName l = ''NotAvailable'' then Inr (n, db, sql)
       else
         bindE (addDocumentToIndex ops tkz normalise (new_Place l) db) (\<lambda>(p, db).
         bindE (case ins of Some f \<Rightarrow> f p sql | None \<Rightarrow> Inr sql) (\<lambda>sql. Inr (n + 1, db, sql)))))"

definition clean_place :: "Place \<Rightarrow> bool" where
  "clean_place p \<longleftrightarrow> resetIndexSets p = p"

lemma clean_new_Place: "clean_place (new_Place l)"
  by (simp add: clean_place_def new_Place_def resetIndexSets_def)

lemma clean_reset: "clean_place (resetIndexSets p)"
  by (simp add: clean_place_def resetIndexSets_def)

lemma clean_setLocation: "clean_place p \<Longrightarrow> setLocation l p = setDocID (pl_docID p) (new_Place l)"
  by (cases p) (simp add: clean_place_def setLocation_def new_Place_def setDocID_def resetIndexSets_def)

definition map_result :: "('a \<Rightarrow> 'b) \<Rightarrow> 'a outcome \<Rightarrow> 'b outcome" where
  "map_result g m = bindE m (\<lambda>x. Inr (g x))"

lemma map_result_simps [simp]: "map_result g (Inr x) = Inr (g x)" "map_result g (Inl e) = Inl e"
  by (simp_all add: map_result_def)

lemma foldE_commute:
  assumes "\<And>a ix. f a (h ix) = map_result h (f a ix)"
  shows "foldE f as (h ix) = map_result h (foldE f as ix)"
  using assms by (induction as arbitrary: ix) (auto simp: map_result_def bindE_assoc bindE_def split: sum.splits)

text \<open>A change of a place that leaves its sets alone commutes with the operations on the sets.\<close>

named_theorems label_simps "operations on the sets of a place commute with a change of the rest"

locale relabelling =
  fixes relabel :: "Place \<Rightarrow> Place"
  assumes relabel_sets: "pl_termSetMap (relabel p) = pl_termSetMap p" "pl_spellingSet (relabel p) = pl_spellingSet p"
    and relabel_update: "relabel (p\<lparr>pl_termSetMap := m\<rparr>) = (relabel p)\<lparr>pl_termSetMap := m\<rparr>"
      "relabel (p\<lparr>pl_spellingSet := s\<rparr>) = (relabel p)\<lparr>pl_spellingSet := s\<rparr>"
begin

definition ix_relabel :: "index_sets \<Rightarrow> index_sets" where
  "ix_relabel ix = ix\<lparr>ix_place := relabel (ix_place ix)\<rparr>"

lemma place_label [label_simps]:
  "getTermSet w (relabel p) = getTermSet w p"
  "addTermSet w ts (relabel p) = relabel (addTermSet w ts p)"
  "insertSpelling t (relabel p) = relabel (insertSpelling t p)"
  by (simp_all add: getTermSet_def addTermSet_def insertSpelling_def relabel_sets relabel_update split: option.splits)

lemma addFeatures_label [label_simps]:
  "addFeaturesToXapianSets w n f (relabel p) = relabel (addFeaturesToXapianSets w n f p)"
  by (simp add: addFeaturesToXapianSets_def Let_def label_simps)

lemma name_pairs_label [label_simps]:
  "fst (name_pairs w n l (t, relabel p)) = fst (name_pairs w n l (t, p))"
  "snd (name_pairs w n l (t, relabel p)) = relabel (snd (name_pairs w n l (t, p)))"
  by (simp_all only: name_pairs_def Let_def prod.case fst_conv snd_conv label_simps)

lemma addName_label [label_simps]:
  "addNameToXapianSets tkz normalise w n l (relabel p) = relabel (addNameToXapianSets tkz normalise w n l p)"
proof -
  obtain s1 p1 where 1: "name_pairs w (createString (tokeniseStringIntoWordList tkz n [])) l (getTermSet w p, p) = (s1, p1)"
    by fastforce
  obtain s2 p2 where 2: "name_pairs w (normalise (createString (tokeniseStringIntoWordList tkz n []))) l (s1, p1) = (s2, p2)"
    by fastforce
  have "name_pairs w (createString (tokeniseStringIntoWordList tkz n [])) l (getTermSet w p, relabel p) = (s1, relabel p1)"
    using 1 by (simp add: prod_eq_iff label_simps)
  moreover have "name_pairs w (normalise (createString (tokeniseStringIntoWordList tkz n []))) l (s1, relabel p1) = (s2, relabel p2)"
    using 2 by (simp add: prod_eq_iff label_simps)
  ultimately show ?thesis
    unfolding addNameToXapianSets_def Let_def label_simps 1 prod.case 2 by (simp only: label_simps prod.case)
qed

lemma steps_label [label_simps]:
  "add_weighted b t (ix_relabel ix) = ix_relabel (add_weighted b t ix)"
  "add_spelled b t (ix_relabel ix) = ix_relabel (add_spelled b t ix)"
  "add_code w f t (ix_relabel ix) = ix_relabel (add_code w f t ix)"
  "add_std t (ix_relabel ix) = ix_relabel (add_std t ix)"
  "index_name tkz normalise t l (ix_relabel ix) = ix_relabel (index_name tkz normalise t l ix)"
  by (simp_all add: add_weighted_def add_spelled_def add_code_def add_std_def index_name_def ix_relabel_def
      Let_def label_simps)

lemma index_parts_label [label_simps]:
  "index_codes w l (ix_relabel ix) = ix_relabel (index_codes w l ix)"
  "index_divisions l (ix_relabel ix) = ix_relabel (index_divisions l ix)"
  unfolding index_codes_def index_divisions_def Let_def by (simp_all add: label_simps)

lemma fold_label:
  "fold (\<lambda>w ix. add_std (g w) (add_std w ix)) ws (ix_relabel ix) = ix_relabel (fold (\<lambda>w ix. add_std (g w) (add_std w ix)) ws ix)"
  by (induction ws arbitrary: ix) (simp_all add: label_simps)

lemma index_names_label:
  "index_names tkz normalise l (ix_relabel ix) = map_result ix_relabel (index_names tkz normalise l ix)"
proof -
  have alt: "add_alternate_name tkz normalise n (ix_relabel ix) = map_result ix_relabel (add_alternate_name tkz normalise n ix)"
    for n ix
    by (simp add: add_alternate_name_def fold_label bindE_def split: sum.splits)
  have "(case e of (_, lNames) \<Rightarrow> foldE (add_alternate_name tkz normalise) (nm_nameList lNames)) (ix_relabel ix) =
      map_result ix_relabel ((case e of (_, lNames) \<Rightarrow> foldE (add_alternate_name tkz normalise) (nm_nameList lNames)) ix)"
    for e ix
    by (cases e) (simp add: foldE_commute [where f="add_alternate_name tkz normalise" and h=ix_relabel, OF alt])
  then show ?thesis
    unfolding index_names_def Let_def label_simps by (rule foldE_commute)
qed

lemma buildIndexSets_label:
  assumes "page_rank_weight (pl_location (relabel p)) = page_rank_weight (pl_location p)"
    and "\<And>w. index_codes w (pl_location (relabel p)) = index_codes w (pl_location p)"
    and "index_divisions (pl_location (relabel p)) = index_divisions (pl_location p)"
    and "index_names tkz normalise (pl_location (relabel p)) = index_names tkz normalise (pl_location p)"
  shows "buildIndexSets tkz normalise (relabel p) = map_result relabel (buildIndexSets tkz normalise p)"
proof (cases "page_rank_weight (pl_location p)")
  case (Inl e)
  then show ?thesis by (simp add: buildIndexSets_def assms)
next
  case (Inr w)
  have ix: "\<lparr>ix_place = relabel p, ix_weighted = a, ix_std = b\<rparr> = ix_relabel \<lparr>ix_place = p, ix_weighted = a, ix_std = b\<rparr>" for a b
    by (simp add: ix_relabel_def)
  show ?thesis
    unfolding buildIndexSets_def assms label_simps Inr bindE_simps Let_def ix index_names_label
    by (simp add: map_result_def bindE_def ix_relabel_def label_simps split: sum.splits)
qed

end

text \<open>The old identifier of the document plays no part in the sets, and is overwritten.\<close>

interpretation doc_id: relabelling "setDocID d" for d
  by unfold_locales (simp_all add: setDocID_def)

lemma buildIndexSets_docID:
  "buildIndexSets tkz normalise (setDocID d p) = map_result (setDocID d) (buildIndexSets tkz normalise p)"
  by (rule doc_id.buildIndexSets_label) (simp_all add: setDocID_def)

lemma place_docID: "pl_location (setDocID d p) = pl_location p" "pl_termSetMap (setDocID d p) = pl_termSetMap p"
  "pl_spellingSet (setDocID d p) = pl_spellingSet p" "setDocID e (setDocID d p) = setDocID e p"
  by (simp_all add: setDocID_def)

lemma addDocument_docID:
  "addDocumentToIndex ops tkz normalise (setDocID d p) db = addDocumentToIndex ops tkz normalise p db"
  unfolding addDocumentToIndex_def buildIndexSets_docID place_docID
  by (simp add: map_result_def bindE_assoc addToXapian_def place_docID doc_id.place_label)

text \<open>One turn of the loop is the indexing of its line.\<close>

lemma loop_lines:
  assumes "clean_place p"
  shows "bindE (foldE (\<lambda>itReadLine (oNbOfEntries, lPlace, db, sql).
         bindE (parse itReadLine) (\<lambda>lLocation.
           if \<not> (loc_commonName lLocation = ''NotAvailable'') then
             let lPlace = setLocation lLocation lPlace
             in bindE (addDocumentToIndex ops tkz normalise lPlace db) (\<lambda>(lPlace, db).
                bindE (case ins of Some f \<Rightarrow> f lPlace sql | None \<Rightarrow> Inr sql) (\<lambda>sql.
                  Inr (oNbOfEntries + 1, resetIndexSets (Place_resetMatrix lPlace), db, sql)))
           else Inr (oNbOfEntries, lPlace, db, sql))) lines (n, p, db, sql))
     (\<lambda>(n, p, db, sql). Inr (n, db, sql)) =
   foldE (index_line ops tkz normalise parse ins) lines (n, db, sql)"
  using assms
proof (induction lines arbitrary: n p db sql)
  case Nil
  show ?case by simp
next
  case (Cons line lines)
  show ?case
  proof (cases "parse line")
    case (Inl e)
    then show ?thesis by (simp add: index_line_def)
  next
    case (Inr l)
    show ?thesis
    proof (cases "loc_commonName l = ''NotAvailable''")
      case True
      then show ?thesis using Cons by (simp add: index_line_def Inr)
    next
      case False
      show ?thesis
      proof (cases "addDocumentToIndex ops tkz normalise (new_Place l) db")
        case (Inl e)
        then show ?thesis using False Cons.prems
          by (simp add: index_line_def Inr clean_setLocation addDocument_docID)
      next
        case r: (Inr r)
        obtain p' db' where "r = (p', db')" by fastforce
        with r have r: "addDocumentToIndex ops tkz normalise (new_Place l) db = Inr (p', db')" by simp
        show ?thesis
          using False Cons.prems Cons.IH [OF clean_reset]
          by (simp add: index_line_def Inr clean_setLocation addDocument_docID r bindE_assoc)
      qed
    qed
  qed
qed

section \<open>Properties\<close>

lemma page_rank_floor:
  assumes "0 \<le> q" and "q \<le> 100" and "loc_pageRank l = Fin q"
  shows "\<exists>y. round_dbl (q / 5) = Fin y \<and> 0 \<le> y \<and> y \<le> 20 \<and> page_rank_weight l = Inr (2 + word_of_int \<lfloor>y\<rfloor>)"
proof -
  have "dle (Fin 0) (round_dbl (q / 5))" "dle (round_dbl (q / 5)) (Fin 20)"
    using dle_round [of 0 "q / 5"] dle_round [of "q / 5" 20] assms by simp_all
  then obtain y where y: "round_dbl (q / 5) = Fin y" "0 \<le> y" "y \<le> 20"
    by (cases "round_dbl (q / 5)") auto
  then show ?thesis
    using assms(3) by (simp add: page_rank_weight_def ushort_of_dbl_def K_DEFAULT_INDEXING_EXTRA_WEIGHT_def)
qed

lemma at_weight_pairs:
  "{(t, f x) | t x. t \<in> at_weight w x A \<union> at_weight v x B} = {(t, f w) | t. t \<in> A} \<union> {(t, f v) | t. t \<in> B}"
  by (auto simp: at_weight_def split: if_splits)

lemma new_Place_simps:
  "pl_location (new_Place l) = l" "pl_docID (new_Place l) = 0" "pl_stemmingSet (new_Place l) = []"
  "pl_synonymSet (new_Place l) = []"
  by (simp_all add: new_Place_def)

lemma wf_new_Place: "place_wf (new_Place l)"
  by (simp add: new_Place_def place_wf_def getTermSet_def)

lemma new_Place_no_terms: "terms (new_Place l) x = {}" "spelled (new_Place l) = {}"
  by (simp_all add: new_Place_def getTermSet_def terms_def spelled_def)

text \<open>A location for the examples, of page rank 50.\<close>

definition cdg :: Location where
  "cdg = new_Location
     \<lparr>loc_key := new_LocationKey ''CDG'' AIRP 6269554, loc_commonName := ''Paris Charles-de-Gaulle'',
      loc_asciiName := ''Paris - Charles-de-Gaulle'', loc_featCode := ''AIRP'', loc_cityCode := ''PAR'',
      loc_admin2Code := ''93'', loc_pageRank := Fin 50,
      loc_nameMatrix := NameMatrix_addName ''fr'' ''Roissy'' om_empty\<rparr>"

lemma cdg_weight: "page_rank_weight cdg = Inr 12"
  by (simp add: page_rank_weight_def cdg_def new_Location_def ushort_of_dbl_def K_DEFAULT_INDEXING_EXTRA_WEIGHT_def)

lemma cdg_short: "short_names split_tokens cdg"
proof -
  have *: "length (split_tokens AllSepatorList n) \<le> 32767" if "length n \<le> 30" for n
    using boost.length_tkz_le [of AllSepatorList n] that by linarith
  have "loc_commonName cdg = ''Paris Charles-de-Gaulle''" "loc_asciiName cdg = ''Paris - Charles-de-Gaulle''"
    by (simp_all add: cdg_def)
  moreover have "loc_nameMatrix cdg = [(''fr'', \<lparr>nm_languageCode = ''fr'', nm_nameList = [''Roissy'']\<rparr>)]"
    by (simp add: cdg_def NameMatrix_addName_def Names_addName_def new_Names_def om_empty_def om_find_def)
  then have "alternate_names cdg \<subseteq> {''Roissy''}"
    unfolding alternate_names_def nonempty_def om_entries_def by simp
  ultimately have "\<forall>n \<in> {loc_commonName cdg, loc_asciiName cdg} \<union> alternate_names cdg. length n \<le> 30"
    by auto
  with * show ?thesis unfolding short_names_def by blast
qed

text \<open>C7: Building the index sets of a place adds to what was there exactly the weighted terms under the
  page-rank weight and the standard terms under the weight 1, and adds exactly the spelling terms to
  the spelling set; the location, the document identifier and the two other sets are unchanged.\<close>

theorem index_sets_exact:
  assumes "char_separator tkz" and "page_rank_weight (pl_location p) = Inr w"
    and "short_names tkz (pl_location p)"
  shows "\<exists>p'. buildIndexSets tkz normalise p = Inr p' \<and>
    (\<forall>x. set (getTermSet x p') = set (getTermSet x p) \<union>
       (if x = w then weighted_terms (pl_location p) else {}) \<union>
       (if x = 1 then std_terms tkz normalise (pl_location p) else {})) \<and>
    set (pl_spellingSet p') = set (pl_spellingSet p) \<union> spelling_terms tkz normalise (pl_location p) \<and>
    pl_location p' = pl_location p \<and> pl_docID p' = pl_docID p \<and>
    pl_stemmingSet p' = pl_stemmingSet p \<and> pl_synonymSet p' = pl_synonymSet p"
proof -
  have one: "std_weight = 1" by (simp add: std_weight_def K_DEFAULT_INDEXING_STD_WEIGHT_def)
  obtain p' where r: "buildIndexSets tkz normalise p = Inr p'" and fr: "frame p' = frame p"
    and sp: "spelled p' = spelled p \<union> spelling_terms tkz normalise (pl_location p)"
    and ts: "\<forall>x. terms p' x = terms p x \<union> at_weight w x (weighted_terms (pl_location p)) \<union>
       at_weight std_weight x (std_terms tkz normalise (pl_location p))"
    using char_separator.buildIndexSets_adds [OF assms] by blast
  show ?thesis
    using r frame_eq [OF fr] sp ts unfolding terms_def spelled_def at_weight_def one by blast
qed

theorem index_sets_exact_witness:
  "\<exists>p'. buildIndexSets split_tokens (map (\<lambda>c. if c = CHR ''-'' then CHR '' '' else c)) (new_Place cdg) = Inr p' \<and>
    (\<forall>x. set (getTermSet x p') = set (getTermSet x (new_Place cdg)) \<union> (if x = 12 then weighted_terms cdg else {}) \<union>
       (if x = 1 then std_terms split_tokens (map (\<lambda>c. if c = CHR ''-'' then CHR '' '' else c)) cdg else {})) \<and>
    set (pl_spellingSet p') = set (pl_spellingSet (new_Place cdg)) \<union>
      spelling_terms split_tokens (map (\<lambda>c. if c = CHR ''-'' then CHR '' '' else c)) cdg \<and>
    pl_location p' = cdg \<and> pl_docID p' = 0 \<and> pl_stemmingSet p' = [] \<and> pl_synonymSet p' = []"
  using index_sets_exact [of split_tokens "new_Place cdg", OF boost.char_separator_axioms,
      unfolded new_Place_simps, OF cdg_weight cdg_short]
  by blast

text \<open>Building the index sets again changes nothing: the second pass leaves every term set and the
  spelling set as they are, order included, although it rewrites them all.\<close>

theorem rebuild_idempotent:
  assumes "char_separator tkz" and "page_rank_weight (pl_location p) = Inr w"
    and "short_names tkz (pl_location p)" and "place_wf p"
  shows "\<exists>p' p''. buildIndexSets tkz normalise p = Inr p' \<and> buildIndexSets tkz normalise p' = Inr p'' \<and>
    (\<forall>x. getTermSet x p'' = getTermSet x p') \<and> pl_spellingSet p'' = pl_spellingSet p'"
proof -
  obtain p' where r: "buildIndexSets tkz normalise p = Inr p'" and fr: "frame p' = frame p"
    and sp: "spelled p' = spelled p \<union> spelling_terms tkz normalise (pl_location p)"
    and ts: "\<forall>x. terms p' x = terms p x \<union> at_weight w x (weighted_terms (pl_location p)) \<union>
       at_weight std_weight x (std_terms tkz normalise (pl_location p))"
    using char_separator.buildIndexSets_adds [OF assms(1-3)] by blast
  have l: "pl_location p' = pl_location p" by (rule frame_eq [OF fr])
  obtain p'' where r2: "buildIndexSets tkz normalise p' = Inr p''"
    and sp2: "spelled p'' = spelled p' \<union> spelling_terms tkz normalise (pl_location p)"
    and ts2: "\<forall>x. terms p'' x = terms p' x \<union> at_weight w x (weighted_terms (pl_location p)) \<union>
       at_weight std_weight x (std_terms tkz normalise (pl_location p))"
    using char_separator.buildIndexSets_adds [of tkz p' w normalise] assms(1-3) unfolding l by blast
  have wf': "place_wf p'" by (rule wf_buildIndexSets [OF assms(4) r])
  have wf'': "place_wf p''" by (rule wf_buildIndexSets [OF wf' r2])
  have "terms p'' x = terms p' x" for x using ts ts2 by (auto simp: at_weight_def)
  then have "getTermSet x p'' = getTermSet x p'" for x
    using wf' wf'' by (intro os_eqI) (auto simp: terms_def place_wf_def)
  moreover have "pl_spellingSet p'' = pl_spellingSet p'"
    using wf' wf'' sp sp2 by (intro os_eqI) (auto simp: spelled_def place_wf_def)
  ultimately show ?thesis using r r2 by blast
qed

theorem rebuild_idempotent_witness:
  "\<exists>p' p''. buildIndexSets split_tokens id (new_Place cdg) = Inr p' \<and> buildIndexSets split_tokens id p' = Inr p'' \<and>
    (\<forall>x. getTermSet x p'' = getTermSet x p') \<and> pl_spellingSet p'' = pl_spellingSet p'"
  by (rule rebuild_idempotent [of split_tokens "new_Place cdg", OF boost.char_separator_axioms,
      unfolded new_Place_simps, OF cdg_weight cdg_short wf_new_Place])

text \<open>C19: The term generator of the document receives every weighted term with the page-rank weight and
  every standard term with the weight 1, each pair once and nothing else.\<close>

theorem document_terms:
  assumes "char_separator tkz" and "page_rank_weight l = Inr w" and "short_names tkz l"
  shows "\<exists>p calls. buildIndexSets tkz normalise (new_Place l) = Inr p \<and> distinct calls \<and>
    set calls = {(t, unat w) | t. t \<in> weighted_terms l} \<union> {(t, 1) | t. t \<in> std_terms tkz normalise l} \<and>
    (\<forall>ops doc db. addToXapian (ops :: ('doc, 'gen, 'db) xapian_ops) p doc db =
       bindE (foldE (x_add_spelling ops) (pl_spellingSet p) db) (\<lambda>db.
         Inr (x_document ops (fold (\<lambda>(t, n). x_index_text ops t n) calls (x_generator ops doc)), db)))"
proof -
  have one: "unat std_weight = 1" by (simp add: std_weight_def K_DEFAULT_INDEXING_STD_WEIGHT_def)
  obtain p where r: "buildIndexSets tkz normalise (new_Place l) = Inr p"
    and ts: "\<forall>x. terms p x = terms (new_Place l) x \<union> at_weight w x (weighted_terms l) \<union>
       at_weight std_weight x (std_terms tkz normalise l)"
    using char_separator.buildIndexSets_adds [of tkz "new_Place l" w normalise] assms unfolding new_Place_simps by blast
  have wf: "place_wf p" by (rule wf_buildIndexSets [OF wf_new_Place r])
  have "set (index_calls p) = {(t, unat w) | t. t \<in> weighted_terms l} \<union> {(t, 1) | t. t \<in> std_terms tkz normalise l}"
    unfolding index_calls_terms(1) [OF wf] ts [rule_format] new_Place_no_terms Un_empty_left at_weight_pairs one ..
  then show ?thesis
    using r index_calls_terms(2) [OF wf]
    by (intro exI [of _ p] exI [of _ "index_calls p"] conjI allI addToXapian_calls)
qed

theorem document_terms_witness:
  "\<exists>p calls. buildIndexSets split_tokens id (new_Place cdg) = Inr p \<and> distinct calls \<and>
    set calls = {(t, 12) | t. t \<in> weighted_terms cdg} \<union> {(t, 1) | t. t \<in> std_terms split_tokens id cdg} \<and>
    (\<forall>ops doc db. addToXapian (ops :: ((string \<times> nat) list, (string \<times> nat) list, string list) xapian_ops) p doc db =
       bindE (foldE (x_add_spelling ops) (pl_spellingSet p) db) (\<lambda>db.
         Inr (x_document ops (fold (\<lambda>(t, n). x_index_text ops t n) calls (x_generator ops doc)), db)))"
  using document_terms [of split_tokens cdg 12 id, OF boost.char_separator_axioms cdg_weight cdg_short]
  by simp

text \<open>Nothing leaks from one line of the file to the next through the place object that the indexing
  loop reuses: the loop is the indexing of each relevant line with a fresh place.\<close>

theorem index_loop_fresh:
  "buildSearchIndex ops tkz normalise generateLocation insertPlaceInDB lines (new_Place l) db sql =
   foldE (index_line ops tkz normalise generateLocation insertPlaceInDB) lines (0, db, sql)"
  unfolding buildSearchIndex_def by (rule loop_lines [OF clean_new_Place])

text \<open>The code of the second administrative division is never indexed: two places that differ in it
  only have the same term sets and the same spelling set.\<close>

theorem admin2_code_not_indexed:
  assumes "char_separator tkz" and "page_rank_weight l = Inr w" and "short_names tkz l"
  shows "\<exists>p p'. buildIndexSets tkz normalise (new_Place l) = Inr p \<and>
    buildIndexSets tkz normalise (new_Place (l\<lparr>loc_admin2Code := c\<rparr>)) = Inr p' \<and>
    (\<forall>x. getTermSet x p = getTermSet x p') \<and> pl_spellingSet p = pl_spellingSet p'"
proof -
  let ?l = "l\<lparr>loc_admin2Code := c\<rparr>"
  have same: "page_rank_weight ?l = Inr w" "short_names tkz ?l"
    "weighted_terms ?l = weighted_terms l" "std_terms tkz normalise ?l = std_terms tkz normalise l"
    "spelling_terms tkz normalise ?l = spelling_terms tkz normalise l"
    using assms
    by (simp_all add: page_rank_weight_def short_names_def alternate_names_def weighted_terms_def
        spelled_terms_def place_codes_def feature_terms_def std_terms_def geonames_term_def pair_terms_def
        name_forms_def alternate_terms_def spelling_terms_def)
  obtain p where r: "buildIndexSets tkz normalise (new_Place l) = Inr p"
    and sp: "spelled p = spelling_terms tkz normalise l"
    and ts: "\<forall>x. terms p x = at_weight w x (weighted_terms l) \<union> at_weight std_weight x (std_terms tkz normalise l)"
    using char_separator.buildIndexSets_adds [of tkz "new_Place l" w normalise] assms
    unfolding new_Place_simps new_Place_no_terms by auto
  obtain p' where r': "buildIndexSets tkz normalise (new_Place ?l) = Inr p'"
    and sp': "spelled p' = spelling_terms tkz normalise l"
    and ts': "\<forall>x. terms p' x = at_weight w x (weighted_terms l) \<union> at_weight std_weight x (std_terms tkz normalise l)"
    using char_separator.buildIndexSets_adds [of tkz "new_Place ?l" w normalise] assms(1) same(1,2)
    unfolding new_Place_simps new_Place_no_terms same(3-5) by auto
  have wf: "place_wf p" "place_wf p'" using wf_buildIndexSets [OF wf_new_Place] r r' by blast+
  have "getTermSet x p = getTermSet x p'" for x
    using wf ts ts' by (intro os_eqI) (auto simp: terms_def place_wf_def)
  moreover have "pl_spellingSet p = pl_spellingSet p'"
    using wf sp sp' by (intro os_eqI) (auto simp: spelled_def place_wf_def)
  ultimately show ?thesis using r r' by blast
qed

theorem admin2_code_not_indexed_witness:
  "\<exists>p p'. buildIndexSets split_tokens id (new_Place cdg) = Inr p \<and>
    buildIndexSets split_tokens id (new_Place (cdg\<lparr>loc_admin2Code := ''95''\<rparr>)) = Inr p' \<and>
    (\<forall>x. getTermSet x p = getTermSet x p') \<and> pl_spellingSet p = pl_spellingSet p'"
  by (rule admin2_code_not_indexed [OF boost.char_separator_axioms cdg_weight cdg_short])

text \<open>The weight of the terms of a place lies between 2 and 22 for a page rank between 0 and 100
  per cent, grows with the page rank, and is two more than a fifth of it when it is a multiple of five: it never
  meets the standard weight 1 of the names.\<close>

theorem page_rank_weight_bounds:
  assumes "loc_pageRank l = Fin q" and "loc_pageRank l' = Fin q'" and "0 \<le> q" and "q \<le> q'" and "q' \<le> 100"
  shows "\<exists>w w'. page_rank_weight l = Inr w \<and> page_rank_weight l' = Inr w' \<and>
    2 \<le> w \<and> w \<le> w' \<and> w' \<le> 22 \<and> (\<forall>k. q = 5 * of_nat k \<longrightarrow> w = 2 + word_of_nat k)"
proof -
  obtain y where y: "round_dbl (q / 5) = Fin y" "0 \<le> y" "y \<le> 20" "page_rank_weight l = Inr (2 + word_of_int \<lfloor>y\<rfloor>)"
    using page_rank_floor [of q l] assms by auto
  obtain y' where y': "round_dbl (q' / 5) = Fin y'" "0 \<le> y'" "y' \<le> 20" "page_rank_weight l' = Inr (2 + word_of_int \<lfloor>y'\<rfloor>)"
    using page_rank_floor [of q' l'] assms by auto
  have "y \<le> y'" using dle_round [of "q / 5" "q' / 5"] assms(4) by (simp add: y(1) y'(1))
  then have f: "0 \<le> \<lfloor>y\<rfloor>" "\<lfloor>y\<rfloor> \<le> \<lfloor>y'\<rfloor>" "\<lfloor>y'\<rfloor> \<le> 20" using y(2) y'(3) by linarith+
  have u: "uint (2 + word_of_int i :: 16 word) = 2 + i" if "0 \<le> i" "i \<le> 20" for i
    using that by (simp add: uint_plus_if' unsigned_of_int take_bit_int_eq_self)
  have "\<lfloor>y\<rfloor> = int k" if "q = 5 * of_nat k" for k
  proof -
    have "of_nat k \<le> (20::rat)" using that assms(4,5) by linarith
    then have "k \<le> 20" using of_nat_le_iff [of k 20, where 'a=rat] by simp
    then have "round_dbl (of_int (int k)) = Fin (of_int (int k))" by (intro round_of_int) simp
    then have "y = of_nat k" using y(1) that by simp
    then show ?thesis by simp
  qed
  then have "\<forall>k. q = 5 * of_nat k \<longrightarrow> (2 + word_of_int \<lfloor>y\<rfloor> :: 16 word) = 2 + word_of_nat k"
    by simp
  moreover have "2 \<le> (2 + word_of_int \<lfloor>y\<rfloor> :: 16 word)" "(2 + word_of_int \<lfloor>y\<rfloor> :: 16 word) \<le> 2 + word_of_int \<lfloor>y'\<rfloor>"
    "(2 + word_of_int \<lfloor>y'\<rfloor> :: 16 word) \<le> 22"
    unfolding word_le_def u [OF f(1) order.trans [OF f(2,3)]] u [OF order.trans [OF f(1,2)] f(3)]
    using f by simp_all
  ultimately show ?thesis using y(4) y'(4) by blast
qed

theorem page_rank_weight_bounds_witness:
  "\<exists>w w'. page_rank_weight (new_Location\<lparr>loc_pageRank := Fin 15\<rparr>) = Inr w \<and>
     page_rank_weight (new_Location\<lparr>loc_pageRank := Fin 97\<rparr>) = Inr w' \<and>
     2 \<le> w \<and> w \<le> w' \<and> w' \<le> 22 \<and> (\<forall>k. (15::rat) = 5 * of_nat k \<longrightarrow> w = 2 + word_of_nat k)"
  by (rule page_rank_weight_bounds [of _ 15 _ 97]) simp_all

end
