(* ===== verification/Slices.thy ===== *)
theory Slices
  imports Partition Edit_Distance
begin

text \<open>
  The Xapian queries of the search and the cutting of a travel query into slices:
  \<^verbatim>\<open>bom/QuerySlices.cpp\<close>.

  The Xapian database is a parameter, a record of the two queries that the code makes: the documents
  that match a phrase, best first and at most so many of them, and the spelling suggestion for a
  phrase within an edit distance. Either may throw a \<^verbatim>\<open>Xapian::Error\<close>, here its message. The
  transliterator is two functions on strings.
\<close>

section \<open>The queries on a Xapian database\<close>

record xdoc =
  xd_docid :: nat
  xd_data :: string

record xapian_db =
  xq_mset :: "string \<Rightarrow> nat \<Rightarrow> string + (nat \<times> xdoc) list"
  xq_suggest :: "string \<Rightarrow> nat \<Rightarrow> string + string"

text \<open>The \<^verbatim>\<open>catch (const Xapian::Error&)\<close> clauses.\<close>

definition rethrow :: "string + 'a \<Rightarrow> 'a outcome" where
  "rethrow r = (case r of Inl msg \<Rightarrow> Inl (XapianException msg) | Inr x \<Rightarrow> Inr x)"

lemma rethrow_simps [simp]: "rethrow (Inr x) = Inr x" "rethrow (Inl m) = Inl (XapianException m)"
  by (simp_all add: rethrow_def)

text \<open>
  What the code takes for granted of the suggestions: a suggestion that differs from the phrase
  matches some document. Where it does not, the code fails an assertion.
\<close>

definition consistent_db :: "xapian_db \<Rightarrow> bool" where
  "consistent_db db \<longleftrightarrow>
     (\<forall>q d c n. xq_suggest db q d = Inr c \<and> c \<noteq> [] \<and> c \<noteq> q \<and> 0 < n \<longrightarrow> xq_mset db c n \<noteq> Inr [])"

section \<open>Two words that match together\<close>

definition doesMatch :: "xapian_db \<Rightarrow> string \<Rightarrow> string \<Rightarrow> bool outcome" where
  "doesMatch iDatabase iWord1 iWord2 =
     (let lQueryString = iWord1 @ '' '' @ iWord2
      in bindE (rethrow (xq_mset iDatabase lQueryString 20)) (\<lambda>lMatchingSet.
         if length lMatchingSet \<noteq> 0 then Inr True
         else
           bindE (assertE (lMatchingSet = [])) (\<lambda>_.
           let lAllowableEditDistance = calculateEditDistance lQueryString
           in bindE (rethrow (xq_suggest iDatabase lQueryString lAllowableEditDistance)) (\<lambda>lCorrectedString.
              if lCorrectedString = [] \<or> lCorrectedString = lQueryString then Inr False
              else
                bindE (rethrow (xq_mset iDatabase lCorrectedString 20)) (\<lambda>lMatchingSet.
                if length lMatchingSet \<noteq> 0 then Inr True else Inl AssertionFailure)))))"

section \<open>The slices of a query\<close>

text \<open>
  The loop over the pairs of neighbouring words; the counter \<open>idx_rel\<close> is an unsigned short, and the
  space between two words depends on it. Each staging string becomes a \<^verbatim>\<open>StringPartition\<close>.
\<close>

definition push_slice :: "tokeniser \<Rightarrow> string \<Rightarrow> StringPartition list \<Rightarrow> StringPartition list outcome" where
  "push_slice tkz s slices = bindE (new_StringPartition tkz (Suc (length s)) s) (\<lambda>p. Inr (slices @ [p]))"

definition QuerySlices_push_back :: "StringPartition \<Rightarrow> StringPartition list \<Rightarrow> StringPartition list" where
  "QuerySlices_push_back iStringPartition slices =
     (if sp_partition iStringPartition \<noteq> [] then slices @ [iStringPartition] else slices)"

fun slices_loop ::
    "tokeniser \<Rightarrow> xapian_db \<Rightarrow> string list \<Rightarrow> 16 word \<Rightarrow> string \<Rightarrow> StringPartition list \<Rightarrow>
     StringPartition list outcome" where
  "slices_loop tkz db [] idx_rel itLeftWords slices = Inl UndefinedBehaviour"
| "slices_loop tkz db [leftWord] idx_rel itLeftWords slices =
     (let itLeftWords = (if itLeftWords \<noteq> [] then itLeftWords @ '' '' else itLeftWords);
          itLeftWords = itLeftWords @ leftWord
      in push_slice tkz itLeftWords slices)"
| "slices_loop tkz db (leftWord # rightWord # ws) idx_rel itLeftWords slices =
     (let itLeftWords = (if idx_rel \<ge> 2 then itLeftWords @ '' '' else itLeftWords);
          itLeftWords = itLeftWords @ leftWord
      in bindE (doesMatch db leftWord rightWord) (\<lambda>lDoesMatch.
         if lDoesMatch then slices_loop tkz db (rightWord # ws) (idx_rel + 1) itLeftWords slices
         else bindE (push_slice tkz itLeftWords slices) (\<lambda>slices.
                slices_loop tkz db (rightWord # ws) (0 + 1) [] slices)))"

record QuerySlices =
  qs_queryString :: string
  qs_slices :: "StringPartition list"

definition new_QuerySlices ::
    "tokeniser \<Rightarrow> xapian_db \<Rightarrow> (string \<Rightarrow> string) \<Rightarrow> (string \<Rightarrow> string) \<Rightarrow> string \<Rightarrow> QuerySlices outcome" where
  "new_QuerySlices tkz db unpunctuate unquote iQueryString =
     (let q = unquote (unpunctuate iQueryString);
          lWordList = tokeniseStringIntoWordList tkz q [];
          nbOfWords = (word_of_nat (length lWordList) :: 16 word)
      in bindE (if nbOfWords \<le> 1 then push_slice tkz q []
                else slices_loop tkz db lWordList 1 [] [])
           (\<lambda>slices. Inr \<lparr>qs_queryString = q, qs_slices = slices\<rparr>))"

fun QuerySlices_describe_loop :: "StringPartition list \<Rightarrow> 16 word \<Rightarrow> string" where
  "QuerySlices_describe_loop [] idx = []"
| "QuerySlices_describe_loop (p # rest) idx =
     (if idx \<noteq> 0 then ''; '' else []) @ show_int (sint idx) @ ''. '' @ StringPartition_describe p @
     QuerySlices_describe_loop rest (idx + 1)"

definition QuerySlices_describe :: "QuerySlices \<Rightarrow> string" where
  "QuerySlices_describe qs = ''[ '' @ QuerySlices_describe_loop (qs_slices qs) 0 @ '' ]''"

section \<open>What the slices are\<close>

text \<open>The maximal runs of words in which every word matches with the next.\<close>

fun runs :: "(string \<Rightarrow> string \<Rightarrow> bool) \<Rightarrow> string list \<Rightarrow> string list \<Rightarrow> string list list" where
  "runs m acc [] = [acc]"
| "runs m acc [w] = [acc @ [w]]"
| "runs m acc (v # w # ws) =
     (if m v w then runs m (acc @ [v]) (w # ws) else (acc @ [v]) # runs m [] (w # ws))"

lemma concat_runs: "concat (runs m acc ws) = acc @ ws"
  by (induction m acc ws rule: runs.induct) simp_all

lemma runs_nonempty: "ws \<noteq> [] \<Longrightarrow> [] \<notin> set (runs m acc ws)"
  by (induction m acc ws rule: runs.induct) auto

lemma runs_linked:
  assumes "successively m (acc @ take 1 ws)" and "g \<in> set (runs m acc ws)"
  shows "successively m g"
  using assms
proof (induction m acc ws rule: runs.induct)
  case (3 m acc v w ws)
  show ?case
  proof (cases "m v w")
    case True
    then have "successively m ((acc @ [v]) @ take 1 (w # ws))"
      using 3 by (simp add: successively_append_iff)
    with True 3 show ?thesis by auto
  next
    case False
    with 3 show ?thesis by auto
  qed
qed simp_all

lemma runs_hd: "acc \<noteq> [] \<or> ws \<noteq> [] \<Longrightarrow> runs m acc ws \<noteq> [] \<and> hd (hd (runs m acc ws)) = hd (acc @ ws)"
  by (induction m acc ws rule: runs.induct) (auto simp: hd_append)

lemma runs_broken: "ws \<noteq> [] \<Longrightarrow> successively (\<lambda>g h. \<not> m (last g) (hd h)) (runs m acc ws)"
proof (induction m acc ws rule: runs.induct)
  case (3 m acc v w ws)
  then show ?case
    using runs_hd [of "[]" "w # ws" m] by (cases "runs m [] (w # ws)") auto
qed simp_all

lemma runs_length: "g \<in> set (runs m acc ws) \<Longrightarrow> length g \<le> length acc + length ws"
  by (induction m acc ws rule: runs.induct) (auto split: if_splits)

context char_separator
begin

lemma push_slice_eq:
  assumes "\<forall>w \<in> set g. clean_word AllSepatorList w" and "g \<noteq> []" and "length g \<le> 32767"
  shows "push_slice tkz (join_words g) slices =
    Inr (slices @ [\<lparr>sp_initialString = join_words g, sp_partition = map (map join_words) (compositions g)\<rparr>])"
proof -
  have g: "tkz AllSepatorList (join_words g) = g" by (rule tkz_join [OF space_in_AllSepatorList assms(1)])
  have "length g \<le> Suc (length (join_words g))"
    using length_tkz_le [of AllSepatorList "join_words g"] unfolding g by simp
  from StringPartition_init_compositions [OF g assms(2,3) this]
  show ?thesis by (simp add: push_slice_def new_StringPartition_def)
qed

lemma slices_loop_runs:
  assumes "\<forall>w \<in> set (acc @ ws). clean_word AllSepatorList w" and "ws \<noteq> []"
    and "length acc + length ws \<le> 32767"
    and "\<forall>v \<in> set ws. \<forall>w \<in> set ws. doesMatch db v w = Inr (m v w)"
    and "idx = word_of_nat (Suc (length acc))"
  shows "slices_loop tkz db ws idx (join_words acc) slices =
    Inr (slices @ map (\<lambda>g. \<lparr>sp_initialString = join_words g,
      sp_partition = map (map join_words) (compositions g)\<rparr>) (runs m acc ws))"
  using assms
proof (induction m acc ws arbitrary: idx slices rule: runs.induct)
  case (1 m acc)
  then show ?case by simp
next
  case (2 m acc w)
  have "join_words acc \<noteq> [] \<longleftrightarrow> acc \<noteq> []"
    using 2(1) by (cases acc) (auto simp: join_with_Cons clean_word_def)
  then have j: "(if join_words acc \<noteq> [] then join_words acc @ '' '' else join_words acc) @ w = join_words (acc @ [w])"
    by (simp add: join_with_append)
  have "push_slice tkz (join_words (acc @ [w])) slices =
    Inr (slices @ [\<lparr>sp_initialString = join_words (acc @ [w]), sp_partition = map (map join_words) (compositions (acc @ [w]))\<rparr>])"
    using 2 by (intro push_slice_eq) auto
  then show ?case using j by (simp add: Let_def)
next
  case (3 m acc v w ws)
  have "unat idx = Suc (length acc)"
    using 3(5) unfolding 3(7) by (intro unat_of_nat_small) simp
  then have "idx \<ge> 2 \<longleftrightarrow> acc \<noteq> []"
    by (cases acc) (auto simp: word_le_nat_alt)
  then have j: "(if idx \<ge> 2 then join_words acc @ '' '' else join_words acc) @ v = join_words (acc @ [v])"
    by (simp add: join_with_append)
  have d: "doesMatch db v w = Inr (m v w)" using 3(6) by simp
  have step: "slices_loop tkz db (v # w # ws) idx (join_words acc) slices =
    bindE (Inr (m v w)) (\<lambda>lDoesMatch.
         if lDoesMatch then slices_loop tkz db (w # ws) (idx + 1) (join_words (acc @ [v])) slices
         else bindE (push_slice tkz (join_words (acc @ [v])) slices) (\<lambda>slices.
                slices_loop tkz db (w # ws) (0 + 1) [] slices))"
    unfolding slices_loop.simps Let_def j d ..
  show ?case
  proof (cases "m v w")
    case True
    show ?thesis
      unfolding step using True 3 by (simp add: 3(1) algebra_simps)
  next
    case False
    have "push_slice tkz (join_words (acc @ [v])) slices =
      Inr (slices @ [\<lparr>sp_initialString = join_words (acc @ [v]), sp_partition = map (map join_words) (compositions (acc @ [v]))\<rparr>])"
      using 3 by (intro push_slice_eq) auto
    moreover have "slices_loop tkz db (w # ws) 1 (join_words []) ss =
      Inr (ss @ map (\<lambda>g. \<lparr>sp_initialString = join_words g,
        sp_partition = map (map join_words) (compositions g)\<rparr>) (runs m [] (w # ws)))" for ss
      using 3 False by (intro 3(2)) auto
    ultimately show ?thesis unfolding step using False by simp
  qed
qed

end

section \<open>Properties\<close>

text \<open>C3: The slices of a query of two words or more are its words cut exactly between the neighbours that
  do not match together: put side by side they are the words of the query, inside a slice every word
  matches with the next, across a cut the two words do not match, and each slice carries all the
  partitions of its words.\<close>

theorem slices_correct:
  assumes "char_separator tkz" and "tkz AllSepatorList (unquote (unpunctuate s)) = ws"
    and "2 \<le> length ws" and "length ws \<le> 32767"
    and "\<And>v w. v \<in> set ws \<Longrightarrow> w \<in> set ws \<Longrightarrow> doesMatch db v w = Inr (m v w)"
  shows "\<exists>gs. new_QuerySlices tkz db unpunctuate unquote s =
      Inr \<lparr>qs_queryString = unquote (unpunctuate s),
           qs_slices = map (\<lambda>g. \<lparr>sp_initialString = join_words g,
             sp_partition = map (map join_words) (compositions g)\<rparr>) gs\<rparr> \<and>
    concat gs = ws \<and> [] \<notin> set gs \<and> (\<forall>g \<in> set gs. successively m g) \<and>
    successively (\<lambda>g h. \<not> m (last g) (hd h)) gs"
proof -
  have ne: "ws \<noteq> []" using assms(3) by auto
  have "unat (word_of_nat (length ws) :: 16 word) = length ws"
    using assms(4) by (intro unat_of_nat_small) simp
  then have n: "\<not> (word_of_nat (length ws) :: 16 word) \<le> 1" using assms(3) by (simp add: word_le_nat_alt)
  have "slices_loop tkz db ws 1 (join_words []) [] =
    Inr ([] @ map (\<lambda>g. \<lparr>sp_initialString = join_words g,
      sp_partition = map (map join_words) (compositions g)\<rparr>) (runs m [] ws))"
    using assms(2-5) ne char_separator.tkz_clean [OF assms(1)]
    by (intro char_separator.slices_loop_runs [OF assms(1)]) auto
  then have "new_QuerySlices tkz db unpunctuate unquote s =
      Inr \<lparr>qs_queryString = unquote (unpunctuate s),
           qs_slices = map (\<lambda>g. \<lparr>sp_initialString = join_words g,
             sp_partition = map (map join_words) (compositions g)\<rparr>) (runs m [] ws)\<rparr>"
    using n by (simp add: new_QuerySlices_def assms(2))
  moreover have "\<forall>g \<in> set (runs m [] ws). successively m g"
    using runs_linked [of m "[]" ws] by (cases ws) auto
  ultimately show ?thesis
    using concat_runs [of m "[]" ws] runs_nonempty [OF ne] runs_broken [OF ne] by auto
qed

text \<open>A database that knows one phrase.\<close>

definition one_phrase_db :: "string \<Rightarrow> xapian_db" where
  "one_phrase_db p =
     \<lparr>xq_mset = (\<lambda>q n. Inr (if q = p then [(100, \<lparr>xd_docid = 1, xd_data = p\<rparr>)] else [])),
      xq_suggest = (\<lambda>q d. Inr [])\<rparr>"

theorem slices_correct_witness:
  "\<exists>gs. new_QuerySlices split_tokens (one_phrase_db ''san francisco'') id id ''san francisco, rio'' =
      Inr \<lparr>qs_queryString = ''san francisco, rio'',
           qs_slices = map (\<lambda>g. \<lparr>sp_initialString = join_words g,
             sp_partition = map (map join_words) (compositions g)\<rparr>) gs\<rparr> \<and>
    concat gs = [''san'', ''francisco'', ''rio''] \<and> [] \<notin> set gs \<and>
    (\<forall>g \<in> set gs. successively (\<lambda>v w. v = ''san'' \<and> w = ''francisco'') g) \<and>
    successively (\<lambda>g h. \<not> (last g = ''san'' \<and> hd h = ''francisco'')) gs"
proof -
  have tok: "split_tokens AllSepatorList (id (id ''san francisco, rio'')) = [''san'', ''francisco'', ''rio'']"
    by (simp add: AllSepatorList_def)
  have "doesMatch (one_phrase_db ''san francisco'') v w = Inr (v = ''san'' \<and> w = ''francisco'')"
    if "v \<in> set [''san'', ''francisco'', ''rio'']" "w \<in> set [''san'', ''francisco'', ''rio'']" for v w
    using that by (auto simp: doesMatch_def one_phrase_db_def Let_def)
  from slices_correct [of split_tokens id id _ _ "one_phrase_db ''san francisco''" "\<lambda>v w. v = ''san'' \<and> w = ''francisco''",
      OF boost.char_separator_axioms tok _ _ this]
  show ?thesis by simp
qed

text \<open>On a database whose suggestions match, two words match together exactly when their phrase
  matches or a useful correction of it is suggested; the assertion of the code never fails.\<close>

theorem doesMatch_correct:
  assumes "consistent_db db" and "xq_mset db (v @ '' '' @ w) 20 = Inr ms"
    and "xq_suggest db (v @ '' '' @ w) (calculateEditDistance (v @ '' '' @ w)) = Inr c"
    and "\<And>msg. xq_mset db c 20 \<noteq> Inl msg"
  shows "doesMatch db v w = Inr (ms \<noteq> [] \<or> c \<noteq> [] \<and> c \<noteq> v @ '' '' @ w)"
proof (cases "ms = [] \<and> c \<noteq> [] \<and> c \<noteq> v @ '' '' @ w")
  case True
  then have "xq_mset db c 20 \<noteq> Inr []" using assms(1,3) by (auto simp: consistent_db_def)
  then obtain x xs where "xq_mset db c 20 = Inr (x # xs)"
    using assms(4) by (cases "xq_mset db c 20") (auto simp: neq_Nil_conv)
  then show ?thesis using True assms(2,3) by (auto simp: doesMatch_def Let_def)
next
  case False
  then show ?thesis using assms(2,3) by (auto simp: doesMatch_def Let_def)
qed

theorem doesMatch_correct_witness:
  "doesMatch \<lparr>xq_mset = (\<lambda>q n. Inr (if q = ''san francisco'' then [(100, \<lparr>xd_docid = 1, xd_data = q\<rparr>)] else [])),
      xq_suggest = (\<lambda>q d. Inr (if q = ''sna francisco'' then ''san francisco'' else []))\<rparr> ''sna'' ''francisco'' =
    Inr ([] \<noteq> ([] :: (nat \<times> xdoc) list) \<or> ''san francisco'' \<noteq> [] \<and> ''san francisco'' \<noteq> ''sna francisco'')"
  using doesMatch_correct [of "\<lparr>xq_mset = (\<lambda>q n. Inr (if q = ''san francisco'' then [(100, \<lparr>xd_docid = 1, xd_data = q\<rparr>)] else [])),
      xq_suggest = (\<lambda>q d. Inr (if q = ''sna francisco'' then ''san francisco'' else []))\<rparr>" "''sna''" "''francisco''" "[]" "''san francisco''"]
  by (simp add: consistent_db_def)

end
