(* ===== verification/Results.thy ===== *)
theory Results
  imports Scores Filters Locations Slices
begin

text \<open>
  The result of matching one phrase against the Xapian index: \<^verbatim>\<open>bom/Result.cpp\<close>.

  A \<open>Result\<close> keeps the matching documents twice, in a list in the order of Xapian and in a map keyed
  by document identifier, each time with a score board. The attributes that the constructor does not
  initialise are \<open>None\<close> until they are set, and reading them then is undefined behaviour. The parser
  of the document data is the parameter \<open>parse\<close>; the power of 10 is the correctly rounded one.
\<close>

section \<open>The result of a full-text match\<close>

type_synonym document_pair = "xdoc \<times> ScoreBoard"

record Result =
  rs_queryString :: string
  rs_correctedQueryString :: string
  rs_hasFullTextMatched :: bool
  rs_editDistance :: "16 word option"
  rs_allowableEditDistance :: "16 word option"
  rs_bestDocID :: "nat option"
  rs_bestCombinedWeight :: "dbl option"
  rs_bestDocData :: string
  rs_documentList :: "document_pair list"
  rs_documentMap :: "(nat, document_pair) omap"

definition new_Result :: "string \<Rightarrow> Result" where
  "new_Result iQueryString =
     \<lparr>rs_queryString = iQueryString, rs_correctedQueryString = [], rs_hasFullTextMatched = False,
      rs_editDistance = None, rs_allowableEditDistance = None, rs_bestDocID = None,
      rs_bestCombinedWeight = None, rs_bestDocData = '''', rs_documentList = [],
      rs_documentMap = om_empty\<rparr>"

definition read_set :: "'a option \<Rightarrow> 'a outcome" where
  "read_set x = (case x of None \<Rightarrow> Inl UndefinedBehaviour | Some v \<Rightarrow> Inr v)"

lemma read_set_simps [simp]: "read_set (Some v) = Inr v" "read_set None = Inl UndefinedBehaviour"
  by (simp_all add: read_set_def)

definition getDocumentPair :: "nat \<Rightarrow> Result \<Rightarrow> document_pair outcome" where
  "getDocumentPair iDocID r =
     (case om_find (rs_documentMap r) iDocID of
        None \<Rightarrow> Inl AssertionFailure
      | Some oDocumentPair \<Rightarrow> Inr oDocumentPair)"

definition getDocument :: "nat \<Rightarrow> Result \<Rightarrow> xdoc outcome" where
  "getDocument iDocID r = bindE (getDocumentPair iDocID r) (\<lambda>lDocumentPair. Inr (fst lDocumentPair))"

text \<open>
  The score is divided by the cube of the edit distance, an \<^verbatim>\<open>int\<close> product of unsigned shorts, which
  overflows from 1291 on.
\<close>

definition corrected_score :: "16 word \<Rightarrow> dbl \<Rightarrow> dbl outcome" where
  "corrected_score editDistance iScore =
     (if editDistance > 0 then
        let c = unat editDistance * unat editDistance * unat editDistance
        in if c < 2 ^ 31 then Inr (ddiv_const iScore (of_nat c)) else Inl UndefinedBehaviour
      else Inr iScore)"

definition addDocument :: "xdoc \<Rightarrow> dbl \<Rightarrow> Result \<Rightarrow> Result outcome" where
  "addDocument iDocument iScore r =
     bindE (read_set (rs_editDistance r)) (\<lambda>editDistance.
     bindE (corrected_score editDistance iScore) (\<lambda>lCorrectedScore.
       let lScoreBoard = new_ScoreBoard_score (rs_queryString r) XAPIAN_PCT lCorrectedScore;
           lDocID = xd_docid iDocument;
           lDocumentPair = (iDocument, lScoreBoard);
           r = r\<lparr>rs_documentList := rs_documentList r @ [lDocumentPair]\<rparr>
       in bindE (assertE (om_find (rs_documentMap r) lDocID = None)) (\<lambda>_.
            Inr (r\<lparr>rs_documentMap := om_put lDocID lDocumentPair (rs_documentMap r)\<rparr>))))"

definition fillResult :: "(nat \<times> xdoc) list \<Rightarrow> Result \<Rightarrow> Result outcome" where
  "fillResult iMatchingSet r =
     foldE (\<lambda>(lXapianPercentage, lDocument). addDocument lDocument (Fin (of_nat lXapianPercentage)))
       iMatchingSet r"

section \<open>The full-text match\<close>

text \<open>The result is the matched string, the matching set and the updated result.\<close>

definition fullTextMatch_set ::
    "xapian_db \<Rightarrow> string \<Rightarrow> Result \<Rightarrow> (string \<times> (nat \<times> xdoc) list \<times> Result) outcome" where
  "fullTextMatch_set iDatabase iQueryString r =
     bindE (rethrow (xq_mset iDatabase iQueryString K_DEFAULT_XAPIAN_MATCHING_SET_SIZE)) (\<lambda>ioMatchingSet.
     if length ioMatchingSet \<noteq> 0 then
       Inr (iQueryString, ioMatchingSet,
            r\<lparr>rs_editDistance := Some 0, rs_allowableEditDistance := Some 0,
              rs_hasFullTextMatched := True, rs_correctedQueryString := iQueryString\<rparr>)
     else
       bindE (assertE (ioMatchingSet = [])) (\<lambda>_.
       let lAllowableEditDistance = (word_of_nat (calculateEditDistance iQueryString) :: 16 word)
       in bindE (rethrow (xq_suggest iDatabase iQueryString (unat lAllowableEditDistance))) (\<lambda>lCorrectedString.
          if lCorrectedString = [] \<or> lCorrectedString = iQueryString then
            Inr ([], ioMatchingSet, r\<lparr>rs_hasFullTextMatched := False\<rparr>)
          else
            let lEditDistance = (word_of_int (getDistance iQueryString lCorrectedString) :: 16 word)
            in bindE (rethrow (xq_mset iDatabase lCorrectedString K_DEFAULT_XAPIAN_MATCHING_SET_SIZE)) (\<lambda>ioMatchingSet.
               if length ioMatchingSet \<noteq> 0 then
                 Inr (lCorrectedString, ioMatchingSet,
                      r\<lparr>rs_editDistance := Some lEditDistance,
                        rs_allowableEditDistance := Some lAllowableEditDistance,
                        rs_hasFullTextMatched := True, rs_correctedQueryString := lCorrectedString\<rparr>)
               else Inl AssertionFailure))))"

definition fullTextMatch :: "xapian_db \<Rightarrow> string \<Rightarrow> Result \<Rightarrow> (string \<times> Result) outcome" where
  "fullTextMatch iDatabase iQueryString r =
     (let isToBeAdded = shouldKeep [] iQueryString
      in bindE (if isToBeAdded then fullTextMatch_set iDatabase iQueryString r else Inr ([], [], r))
           (\<lambda>(oMatchedString, lMatchingSet, r).
              bindE (fillResult lMatchingSet r) (\<lambda>r. Inr (oMatchedString, r))))"

section \<open>The scores of the documents\<close>

definition retrieveLocation :: "(string \<Rightarrow> Location outcome) \<Rightarrow> xdoc \<Rightarrow> Location outcome" where
  "retrieveLocation parse iDocument = parse (xd_data iDocument)"

definition getPrimaryKey :: "(string \<Rightarrow> Location outcome) \<Rightarrow> xdoc \<Rightarrow> LocationKey outcome" where
  "getPrimaryKey parse iDocument = bindE (retrieveLocation parse iDocument) (\<lambda>l. Inr (loc_key l))"

definition getEnvelopeID :: "(string \<Rightarrow> Location outcome) \<Rightarrow> xdoc \<Rightarrow> dbl outcome" where
  "getEnvelopeID parse iDocument =
     bindE (retrieveLocation parse iDocument) (\<lambda>l. Inr (round_dbl (of_int (loc_envelopeID l))))"

definition getPageRank :: "(string \<Rightarrow> Location outcome) \<Rightarrow> xdoc \<Rightarrow> dbl outcome" where
  "getPageRank parse iDocument = bindE (retrieveLocation parse iDocument) (\<lambda>l. Inr (loc_pageRank l))"

definition setScoreOnDocMap :: "nat \<Rightarrow> EN_ScoreType \<Rightarrow> dbl \<Rightarrow> Result \<Rightarrow> Result outcome" where
  "setScoreOnDocMap iDocID iType iScore r =
     (case om_find (rs_documentMap r) iDocID of
        None \<Rightarrow> Inl AssertionFailure
      | Some (lDocument, lScoreBoard) \<Rightarrow>
          Inr (r\<lparr>rs_documentMap := om_put iDocID (lDocument, setScore iType iScore lScoreBoard) (rs_documentMap r)\<rparr>))"

text \<open>
  The body of the loop of the three scoring methods: the board in the list, then the one in the map.
  The first component of the state gathers the elements of the list that the loop has passed.
\<close>

definition score_step ::
    "(xdoc \<Rightarrow> dbl outcome) \<Rightarrow> EN_ScoreType \<Rightarrow> document_pair \<Rightarrow> document_pair list \<times> Result \<Rightarrow>
     (document_pair list \<times> Result) outcome" where
  "score_step score iType = (\<lambda>(lXapianDoc, lScoreBoard) (past, r).
     bindE (score lXapianDoc) (\<lambda>lScore.
       let lScoreBoard = setScore iType lScore lScoreBoard
       in bindE (setScoreOnDocMap (xd_docid lXapianDoc) iType lScore r) (\<lambda>r.
            Inr (past @ [(lXapianDoc, lScoreBoard)], r))))"

definition score_documents ::
    "(xdoc \<Rightarrow> dbl outcome) \<Rightarrow> EN_ScoreType \<Rightarrow> Result \<Rightarrow> Result outcome" where
  "score_documents score iType r =
     bindE (foldE (score_step score iType) (rs_documentList r) ([], r))
     (\<lambda>(past, r). Inr (r\<lparr>rs_documentList := past\<rparr>))"

definition calculateEnvelopeWeights :: "(string \<Rightarrow> Location outcome) \<Rightarrow> Result \<Rightarrow> Result outcome" where
  "calculateEnvelopeWeights parse r =
     score_documents (\<lambda>lXapianDoc.
       bindE (getPrimaryKey parse lXapianDoc) (\<lambda>lLocationKey. getEnvelopeID parse lXapianDoc)) ENV_ID r"

definition toupper :: "char \<Rightarrow> char" where
  "toupper c = (if CHR ''a'' \<le> c \<and> c \<le> CHR ''z'' then char_of (of_char c - 32 :: nat) else c)"

definition code_match :: "tokeniser \<Rightarrow> Result \<Rightarrow> LocationKey \<Rightarrow> dbl" where
  "code_match tkz r lLocationKey =
     (let lFilteredString = Filter_trim tkz (rs_queryString r) 3;
          lFilteredQueryWordList = WordHolder_tokeniseStringIntoWordList tkz lFilteredString [];
          nbOfFilteredQueryWords = (word_of_nat (length lFilteredQueryWordList) :: 16 word);
          lNbOfLetters = length lFilteredString
      in if rs_hasFullTextMatched r \<and> nbOfFilteredQueryWords = 1 \<and> 3 \<le> lNbOfLetters \<and> lNbOfLetters \<le> 4 \<and>
            rs_correctedQueryString r = rs_queryString r \<and>
            map toupper lFilteredString = lk_iataCode lLocationKey
         then Fin 1 else Fin 0)"

definition calculateCodeMatches ::
    "tokeniser \<Rightarrow> (string \<Rightarrow> Location outcome) \<Rightarrow> Result \<Rightarrow> Result outcome" where
  "calculateCodeMatches tkz parse r =
     score_documents (\<lambda>lXapianDoc.
       bindE (getPrimaryKey parse lXapianDoc) (\<lambda>lLocationKey. Inr (code_match tkz r lLocationKey)))
       CODE_FULL_MATCH r"

definition calculatePageRanks :: "(string \<Rightarrow> Location outcome) \<Rightarrow> Result \<Rightarrow> Result outcome" where
  "calculatePageRanks parse r =
     score_documents (\<lambda>lXapianDoc.
       bindE (getPrimaryKey parse lXapianDoc) (\<lambda>lLocationKey. getPageRank parse lXapianDoc)) PAGE_RANK r"

definition calculateHeuristicWeights :: "Result \<Rightarrow> Result" where
  "calculateHeuristicWeights r = r"

text \<open>\<^verbatim>\<open>displayXapianPercentages\<close> parses every document too, so it fails where the parser does.\<close>

definition displayXapianPercentages :: "(string \<Rightarrow> Location outcome) \<Rightarrow> Result \<Rightarrow> unit outcome" where
  "displayXapianPercentages parse r =
     foldE (\<lambda>(lXapianDoc, lScoreBoard) _. bindE (getPrimaryKey parse lXapianDoc) (\<lambda>lLocationKey. Inr ()))
       (rs_documentList r) ()"

section \<open>The best document\<close>

definition pow_10_neg :: "nat \<Rightarrow> dbl" where
  "pow_10_neg n = round_dbl (1 / 10 ^ n)"

definition unmatched_weight :: "tokeniser \<Rightarrow> string \<Rightarrow> dbl" where
  "unmatched_weight tkz queryString =
     (let lOriginalQueryWordList = WordHolder_tokeniseStringIntoWordList tkz queryString [];
          nbOfOriginalQueryWords = (word_of_nat (length lOriginalQueryWordList) :: 16 word);
          shouldBeKept = shouldKeep [] queryString
      in if nbOfOriginalQueryWords = 1 \<and> shouldBeKept then Fin 100
         else pow_10_neg (3 * unat nbOfOriginalQueryWords))"

definition Result_calculateCombinedWeights ::
    "tokeniser \<Rightarrow> (string \<Rightarrow> Location outcome) \<Rightarrow> Result \<Rightarrow> Result outcome" where
  "Result_calculateCombinedWeights tkz parse r =
     (let weighed = map (\<lambda>(lXapianDoc, lScoreBoard).
            let (lPercentage, lScoreBoard) = calculateCombinedWeight lScoreBoard
            in (lXapianDoc, lPercentage, lScoreBoard)) (rs_documentList r);
          r = r\<lparr>rs_documentList := map (\<lambda>(lXapianDoc, lPercentage, lScoreBoard). (lXapianDoc, lScoreBoard)) weighed\<rparr>;
          (lBestDoc, lMaxPercentage) = scan_best dgt
            (map (\<lambda>(lXapianDoc, lPercentage, lScoreBoard). (lXapianDoc, lPercentage)) weighed) (None, Fin 0);
          lBestDocID = (case lBestDoc of None \<Rightarrow> 0 | Some d \<Rightarrow> xd_docid d);
          lBestDocData = (case lBestDoc of None \<Rightarrow> [] | Some d \<Rightarrow> xd_data d)
      in bindE (if rs_hasFullTextMatched r then
                  bindE (getDocumentPair lBestDocID r) (\<lambda>(lXapianDoc, lScoreBoard).
                  bindE (getPrimaryKey parse lXapianDoc) (\<lambda>lLocationKey. Inr lMaxPercentage))
                else Inr (unmatched_weight tkz (rs_queryString r)))
           (\<lambda>lMaxPercentage.
              Inr (r\<lparr>rs_bestDocID := Some lBestDocID, rs_bestCombinedWeight := Some lMaxPercentage,
                     rs_bestDocData := lBestDocData\<rparr>)))"

section \<open>Display\<close>

definition Result_describeKey :: "Result \<Rightarrow> string outcome" where
  "Result_describeKey r =
     (if rs_correctedQueryString r \<noteq> [] \<and> rs_correctedQueryString r \<noteq> rs_queryString r then
        bindE (read_set (rs_editDistance r)) (\<lambda>e.
        bindE (read_set (rs_allowableEditDistance r)) (\<lambda>a.
          Inr ([CHR 0x27] @ rs_queryString r @ [CHR 0x27] @ '' '' @ ''(corrected into '' @ [CHR 0x27] @
            rs_correctedQueryString r @ [CHR 0x27] @ '' with an edit distance/error of '' @
            show_nat (unat e) @ '' over an allowable distance of '' @ show_nat (unat a) @ '') - '')))
      else Inr ([CHR 0x27] @ rs_queryString r @ [CHR 0x27] @ '' '' @ ''- ''))"

fun Result_documents_string :: "(dbl \<Rightarrow> string) \<Rightarrow> document_pair list \<Rightarrow> 16 word \<Rightarrow> string outcome" where
  "Result_documents_string show_dbl [] idx = Inr []"
| "Result_documents_string show_dbl ((lXapianDoc, lScoreBoard) # rest) idx =
     bindE (ScoreBoard_describe show_dbl lScoreBoard) (\<lambda>s.
     bindE (Result_documents_string show_dbl rest (idx + 1)) (\<lambda>more.
       Inr ((if idx \<noteq> 0 then '', '' else []) @ ''Doc ID: '' @ show_nat (xd_docid lXapianDoc) @
         '', matching with ('' @ s @ ''), containing: '' @ [CHR 0x27] @ xd_data lXapianDoc @ [CHR 0x27] @ more)))"

definition Result_toString :: "(dbl \<Rightarrow> string) \<Rightarrow> Result \<Rightarrow> string outcome" where
  "Result_toString show_dbl r =
     bindE (Result_describeKey r) (\<lambda>k.
       if rs_documentList r = [] then Inr (k @ ''No match'' @ [CHR 0x0A])
       else bindE (assertE (rs_hasFullTextMatched r)) (\<lambda>_.
            bindE (Result_documents_string show_dbl (rs_documentList r) 0) (\<lambda>s. Inr (k @ s))))"

section \<open>The list and the map of documents agree\<close>

text \<open>The boards of the map lack the combined weights, which are stored in the list only.\<close>

definition same_scores :: "ScoreBoard \<Rightarrow> ScoreBoard \<Rightarrow> bool" where
  "same_scores sb sb' \<longleftrightarrow> sb_queryString sb = sb_queryString sb' \<and>
     (\<forall>t. t \<noteq> COMBINATION \<longrightarrow> om_find (sb_scoreMap sb) t = om_find (sb_scoreMap sb') t)"

definition same_pair :: "document_pair \<Rightarrow> document_pair \<Rightarrow> bool" where
  "same_pair p p' \<longleftrightarrow> fst p = fst p' \<and> same_scores (snd p) (snd p')"

definition by_docid :: "document_pair list \<Rightarrow> nat \<Rightarrow> document_pair option" where
  "by_docid ps = map_of (map (\<lambda>p. (xd_docid (fst p), p)) ps)"

definition docids :: "document_pair list \<Rightarrow> nat list" where
  "docids ps = map (\<lambda>p. xd_docid (fst p)) ps"

definition mirror :: "document_pair list \<Rightarrow> (nat, document_pair) omap \<Rightarrow> bool" where
  "mirror ps m \<longleftrightarrow> distinct (docids ps) \<and> om_wf m \<and> (\<forall>k. rel_option same_pair (om_find m k) (by_docid ps k))"

definition result_ok :: "Result \<Rightarrow> bool" where
  "result_ok r \<longleftrightarrow>
     mirror (rs_documentList r) (rs_documentMap r) \<and>
     (\<forall>p \<in> set (rs_documentList r). sb_wf (snd p)) \<and>
     (rs_documentList r \<noteq> [] \<longleftrightarrow> rs_hasFullTextMatched r) \<and>
     (rs_hasFullTextMatched r \<longrightarrow> rs_editDistance r \<noteq> None \<and> rs_allowableEditDistance r \<noteq> None)"

lemma same_scores_refl [simp]: "same_scores sb sb"
  by (simp add: same_scores_def)

lemma same_scores_setScore: "same_scores sb sb' \<Longrightarrow> same_scores (setScore t v sb) (setScore t v sb')"
  by (simp add: same_scores_def setScore_eq)

lemma same_scores_combined: "same_scores sb sb' \<Longrightarrow> same_scores sb (setCombinedWeight w sb')"
  by (simp add: same_scores_def setCombinedWeight_def setScore_eq)

lemma docids_simps [simp]:
  "docids [] = []" "docids (p # ps) = xd_docid (fst p) # docids ps" "docids (ps @ qs) = docids ps @ docids qs"
  by (simp_all add: docids_def)

lemma by_docid_None: "by_docid ps k = None \<longleftrightarrow> k \<notin> set (docids ps)"
  by (auto simp: by_docid_def docids_def map_of_eq_None_iff image_iff)

lemma by_docid_Nil [simp]: "by_docid [] k = None"
  by (simp add: by_docid_def)

lemma by_docid_append:
  "by_docid (ps @ qs) k = (case by_docid ps k of None \<Rightarrow> by_docid qs k | Some p \<Rightarrow> Some p)"
  by (simp add: by_docid_def map_add_def split: option.split)

lemma by_docid_Cons: "by_docid (p # ps) k = (if k = xd_docid (fst p) then Some p else by_docid ps k)"
  by (auto simp: by_docid_def)

lemma by_docid_replace:
  assumes "distinct (docids (ps @ (d, sb) # qs))"
  shows "by_docid (ps @ (d, sb') # qs) k =
    (if k = xd_docid d then Some (d, sb') else by_docid (ps @ (d, sb) # qs) k)"
  using assms by_docid_None [of ps "xd_docid d"]
  by (auto simp: by_docid_append by_docid_Cons split: option.split)

lemma mirror_setScore:
  assumes "mirror (ps @ (d, sb) # qs) m"
  shows "\<exists>sb0. om_find m (xd_docid d) = Some (d, sb0) \<and>
    mirror (ps @ (d, setScore t v sb) # qs) (om_put (xd_docid d) (d, setScore t v sb0) m)"
proof -
  have dist: "distinct (docids (ps @ (d, sb) # qs))" and wf: "om_wf m"
    and rel: "\<And>k. rel_option same_pair (om_find m k) (by_docid (ps @ (d, sb) # qs) k)"
    using assms by (auto simp: mirror_def)
  have "rel_option same_pair (om_find m (xd_docid d)) (Some (d, sb))"
    using rel [of "xd_docid d"] by_docid_replace [OF dist, of sb "xd_docid d"] by simp
  then obtain sb0 where f: "om_find m (xd_docid d) = Some (d, sb0)" and s: "same_scores sb0 sb"
    by (auto simp: same_pair_def option_rel_Some2)
  have "rel_option same_pair (om_find (om_put (xd_docid d) (d, setScore t v sb0) m) k)
      (by_docid (ps @ (d, setScore t v sb) # qs) k)" for k
    unfolding by_docid_replace [OF dist, of "setScore t v sb"] using rel [of k] same_scores_setScore [OF s]
    by (simp add: same_pair_def)
  then show ?thesis using f dist wf by (auto simp: mirror_def)
qed

text \<open>The scoring loop, when every document has a score.\<close>

abbreviation rescored :: "EN_ScoreType \<Rightarrow> (xdoc \<Rightarrow> dbl) \<Rightarrow> document_pair list \<Rightarrow> document_pair list" where
  "rescored t f ps \<equiv> map (\<lambda>p. (fst p, setScore t (f (fst p)) (snd p))) ps"

lemma score_loop:
  assumes "mirror (past @ ps) (rs_documentMap r)" and "\<forall>p \<in> set ps. score (fst p) = Inr (f (fst p))"
  shows "\<exists>m. foldE (score_step score t) ps (past, r) = Inr (past @ rescored t f ps, r\<lparr>rs_documentMap := m\<rparr>) \<and>
    mirror (past @ rescored t f ps) m"
  using assms
proof (induction ps arbitrary: past r)
  case Nil
  then show ?case by (intro exI [of _ "rs_documentMap r"]) simp
next
  case (Cons p ps)
  obtain d sb where p: "p = (d, sb)" by fastforce
  obtain sb0 where f: "om_find (rs_documentMap r) (xd_docid d) = Some (d, sb0)"
    and m: "mirror (past @ (d, setScore t (f d) sb) # ps)
      (om_put (xd_docid d) (d, setScore t (f d) sb0) (rs_documentMap r))"
    using mirror_setScore Cons.prems(1) unfolding p by blast
  let ?r = "r\<lparr>rs_documentMap := om_put (xd_docid d) (d, setScore t (f d) sb0) (rs_documentMap r)\<rparr>"
  have "score_step score t p (past, r) = Inr (past @ [(d, setScore t (f d) sb)], ?r)"
    using Cons.prems(2) by (simp add: score_step_def p Let_def setScoreOnDocMap_def f)
  moreover have "mirror ((past @ [(d, setScore t (f d) sb)]) @ ps) (rs_documentMap ?r)" using m by simp
  then obtain m' where "foldE (score_step score t) ps (past @ [(d, setScore t (f d) sb)], ?r) =
      Inr ((past @ [(d, setScore t (f d) sb)]) @ rescored t f ps, ?r\<lparr>rs_documentMap := m'\<rparr>)"
    "mirror ((past @ [(d, setScore t (f d) sb)]) @ rescored t f ps) m'"
    using Cons.IH [of "past @ [(d, setScore t (f d) sb)]" ?r] Cons.prems(2) by auto
  ultimately show ?case by (intro exI [of _ m']) (simp add: p)
qed

lemma score_documents_eq:
  assumes "result_ok r" and "\<forall>p \<in> set (rs_documentList r). score (fst p) = Inr (f (fst p))"
  shows "\<exists>m. score_documents score t r =
      Inr (r\<lparr>rs_documentMap := m, rs_documentList := rescored t f (rs_documentList r)\<rparr>) \<and>
    result_ok (r\<lparr>rs_documentMap := m, rs_documentList := rescored t f (rs_documentList r)\<rparr>)"
proof -
  have "mirror ([] @ rs_documentList r) (rs_documentMap r)" using assms(1) by (simp add: result_ok_def)
  then obtain m where "foldE (score_step score t) (rs_documentList r) ([], r) =
      Inr ([] @ rescored t f (rs_documentList r), r\<lparr>rs_documentMap := m\<rparr>)"
    and "mirror ([] @ rescored t f (rs_documentList r)) m"
    using score_loop [where past="[]" and f=f] assms(2) by blast
  then show ?thesis using assms(1)
    unfolding score_documents_def result_ok_def by (intro exI [of _ m]) auto
qed

text \<open>The loop stops at a document without a score.\<close>

lemma score_documents_Inr:
  assumes "score_documents score t r = Inr r'"
  shows "\<forall>p \<in> set (rs_documentList r). \<exists>s. score (fst p) = Inr s"
proof -
  have "\<forall>p \<in> set ps. \<exists>s. score (fst p) = Inr s" if "foldE (score_step score t) ps st = Inr st'" for ps st st'
    using that
  proof (induction ps arbitrary: st)
    case (Cons p ps)
    then obtain st1 where "score_step score t p st = Inr st1" "foldE (score_step score t) ps st1 = Inr st'"
      by (auto simp: bindE_Inr_iff)
    then show ?case using Cons.IH
      by (cases p; cases st) (auto simp: score_step_def bindE_Inr_iff)
  qed simp
  then show ?thesis using assms unfolding score_documents_def bindE_Inr_iff by blast
qed

lemma score_documents_ok:
  assumes "result_ok r" and "score_documents score t r = Inr r'"
  shows "result_ok r'"
proof -
  have "\<forall>p \<in> set (rs_documentList r). score (fst p) = Inr (projr (score (fst p)))"
    using score_documents_Inr [OF assms(2)] by auto
  then show ?thesis using score_documents_eq [OF assms(1), of score "\<lambda>d. projr (score d)" t] assms(2) by auto
qed

lemma envelope_eq:
  assumes "result_ok r" and "\<forall>p \<in> set (rs_documentList r). parse (xd_data (fst p)) = Inr (loc (fst p))"
  defines "ps \<equiv> rescored ENV_ID (\<lambda>d. round_dbl (of_int (loc_envelopeID (loc d)))) (rs_documentList r)"
  shows "\<exists>m. calculateEnvelopeWeights parse r = Inr (r\<lparr>rs_documentMap := m, rs_documentList := ps\<rparr>) \<and>
    result_ok (r\<lparr>rs_documentMap := m, rs_documentList := ps\<rparr>)"
  unfolding calculateEnvelopeWeights_def ps_def
  by (rule score_documents_eq) (use assms in \<open>auto simp: getPrimaryKey_def getEnvelopeID_def retrieveLocation_def\<close>)

lemma code_eq:
  fixes tkz :: tokeniser
  assumes "result_ok r" and "\<forall>p \<in> set (rs_documentList r). parse (xd_data (fst p)) = Inr (loc (fst p))"
  defines "ps \<equiv> rescored CODE_FULL_MATCH (\<lambda>d. code_match tkz r (loc_key (loc d))) (rs_documentList r)"
  shows "\<exists>m. calculateCodeMatches tkz parse r = Inr (r\<lparr>rs_documentMap := m, rs_documentList := ps\<rparr>) \<and>
    result_ok (r\<lparr>rs_documentMap := m, rs_documentList := ps\<rparr>)"
  unfolding calculateCodeMatches_def ps_def
  by (rule score_documents_eq) (use assms in \<open>auto simp: getPrimaryKey_def retrieveLocation_def\<close>)

lemma page_rank_eq:
  assumes "result_ok r" and "\<forall>p \<in> set (rs_documentList r). parse (xd_data (fst p)) = Inr (loc (fst p))"
  defines "ps \<equiv> rescored PAGE_RANK (\<lambda>d. loc_pageRank (loc d)) (rs_documentList r)"
  shows "\<exists>m. calculatePageRanks parse r = Inr (r\<lparr>rs_documentMap := m, rs_documentList := ps\<rparr>) \<and>
    result_ok (r\<lparr>rs_documentMap := m, rs_documentList := ps\<rparr>)"
  unfolding calculatePageRanks_def ps_def
  by (rule score_documents_eq) (use assms in \<open>auto simp: getPrimaryKey_def getPageRank_def retrieveLocation_def\<close>)

section \<open>Filling the result\<close>

lemma addDocument_eq:
  assumes "rs_editDistance r = Some e" and "corrected_score e s = Inr s'"
    and "om_find (rs_documentMap r) (xd_docid d) = None"
  shows "addDocument d s r = Inr (r\<lparr>rs_documentList := rs_documentList r @ [(d, new_ScoreBoard_score (rs_queryString r) XAPIAN_PCT s')],
    rs_documentMap := om_put (xd_docid d) (d, new_ScoreBoard_score (rs_queryString r) XAPIAN_PCT s') (rs_documentMap r)\<rparr>)"
  using assms by (simp add: addDocument_def Let_def)

lemma addDocument_Inr:
  assumes "addDocument d s r = Inr r'"
  shows "\<exists>e s'. rs_editDistance r = Some e \<and> corrected_score e s = Inr s' \<and>
    om_find (rs_documentMap r) (xd_docid d) = None"
  using assms unfolding addDocument_def Let_def bindE_Inr_iff
  by (auto simp: assertE_Inr_iff read_set_def split: option.splits)

lemma mirror_snoc:
  assumes "mirror ps m" and "om_find m (xd_docid d) = None"
  shows "mirror (ps @ [(d, sb)]) (om_put (xd_docid d) (d, sb) m)"
proof -
  have "rel_option same_pair (om_find m k) (by_docid ps k)" for k using assms(1) by (simp add: mirror_def)
  from this [of "xd_docid d"] have none: "by_docid ps (xd_docid d) = None" using assms(2) by simp
  then have "by_docid (ps @ [(d, sb)]) k = (if k = xd_docid d then Some (d, sb) else by_docid ps k)" for k
    by (cases "by_docid ps k") (auto simp: by_docid_append by_docid_Cons)
  moreover have "xd_docid d \<notin> set (docids ps)" using none by (simp only: by_docid_None not_False_eq_True)
  ultimately show ?thesis using assms(1) by (simp add: mirror_def same_pair_def)
qed


text \<open>The result once filled: the documents of the matching set in order, with their scores.\<close>

definition scored_pairs :: "string \<Rightarrow> 16 word \<Rightarrow> (nat \<times> xdoc) list \<Rightarrow> document_pair list" where
  "scored_pairs q e ms =
     map (\<lambda>(pct, d). (d, new_ScoreBoard_score q XAPIAN_PCT (projr (corrected_score e (Fin (of_nat pct)))))) ms"

lemma corrected_score_Inr: "corrected_score e s = Inr s' \<Longrightarrow> \<exists>s2. corrected_score e t = Inr s2"
  by (auto simp: corrected_score_def Let_def split: if_splits)

lemma fillResult_eq:
  assumes "rs_editDistance r = Some e" and "corrected_score e (Fin 0) \<noteq> Inl UndefinedBehaviour"
    and "mirror (rs_documentList r) (rs_documentMap r)"
    and "distinct (docids (rs_documentList r @ scored_pairs (rs_queryString r) e ms))"
  shows "\<exists>m. fillResult ms r =
      Inr (r\<lparr>rs_documentList := rs_documentList r @ scored_pairs (rs_queryString r) e ms, rs_documentMap := m\<rparr>) \<and>
    mirror (rs_documentList r @ scored_pairs (rs_queryString r) e ms) m"
  using assms
proof (induction ms arbitrary: r)
  case Nil
  then show ?case by (intro exI [of _ "rs_documentMap r"]) (simp add: fillResult_def scored_pairs_def)
next
  case (Cons x ms)
  obtain pct d where x: "x = (pct, d)" by fastforce
  let ?q = "rs_queryString r" and ?e = "scored_pairs (rs_queryString r) e"
  obtain s' where s': "corrected_score e (Fin (of_nat pct)) = Inr s'"
    using Cons.prems(2) by (auto simp: corrected_score_def Let_def split: if_splits)
  let ?b = "new_ScoreBoard_score ?q XAPIAN_PCT s'"
  have pairs: "?e (x # ms) = (d, ?b) # ?e ms" by (simp add: scored_pairs_def x s')
  have "rel_option same_pair (om_find (rs_documentMap r) (xd_docid d)) (by_docid (rs_documentList r) (xd_docid d))"
    using Cons.prems(3) by (simp add: mirror_def)
  moreover have "by_docid (rs_documentList r) (xd_docid d) = None"
    using Cons.prems(4) by (auto simp: by_docid_None pairs)
  ultimately have none: "om_find (rs_documentMap r) (xd_docid d) = None" by simp
  let ?r = "r\<lparr>rs_documentList := rs_documentList r @ [(d, ?b)],
    rs_documentMap := om_put (xd_docid d) (d, ?b) (rs_documentMap r)\<rparr>"
  have step: "fillResult (x # ms) r = fillResult ms ?r"
    by (simp add: fillResult_def x addDocument_eq [OF Cons.prems(1) s' none])
  have "\<exists>m. fillResult ms ?r =
      Inr (?r\<lparr>rs_documentList := rs_documentList ?r @ scored_pairs (rs_queryString ?r) e ms, rs_documentMap := m\<rparr>) \<and>
    mirror (rs_documentList ?r @ scored_pairs (rs_queryString ?r) e ms) m"
    using Cons.prems mirror_snoc [OF Cons.prems(3) none, of ?b] by (intro Cons.IH) (simp_all add: pairs)
  then show ?case unfolding step pairs by auto
qed

lemma fillResult_Inr:
  assumes "rs_editDistance r = Some e" and "fillResult ms r = Inr r'"
    and "mirror (rs_documentList r) (rs_documentMap r)"
  shows "\<exists>m. r' = r\<lparr>rs_documentList := rs_documentList r @ scored_pairs (rs_queryString r) e ms, rs_documentMap := m\<rparr> \<and>
    mirror (rs_documentList r @ scored_pairs (rs_queryString r) e ms) m"
  using assms
proof (induction ms arbitrary: r)
  case Nil
  then show ?case by (intro exI [of _ "rs_documentMap r"]) (simp add: fillResult_def scored_pairs_def)
next
  case (Cons x ms)
  obtain pct d where x: "x = (pct, d)" by fastforce
  obtain r1 where r1: "addDocument d (Fin (of_nat pct)) r = Inr r1" "fillResult ms r1 = Inr r'"
    using Cons.prems(2) by (auto simp: fillResult_def x bindE_Inr_iff)
  obtain s' where s': "corrected_score e (Fin (of_nat pct)) = Inr s'"
    and none: "om_find (rs_documentMap r) (xd_docid d) = None"
    using addDocument_Inr [OF r1(1)] Cons.prems(1) by auto
  let ?b = "new_ScoreBoard_score (rs_queryString r) XAPIAN_PCT s'"
  have r1': "r1 = r\<lparr>rs_documentList := rs_documentList r @ [(d, ?b)],
      rs_documentMap := om_put (xd_docid d) (d, ?b) (rs_documentMap r)\<rparr>"
    using r1(1) by (simp add: addDocument_eq [OF Cons.prems(1) s' none])
  have "\<exists>m. r' = r1\<lparr>rs_documentList := rs_documentList r1 @ scored_pairs (rs_queryString r1) e ms, rs_documentMap := m\<rparr> \<and>
    mirror (rs_documentList r1 @ scored_pairs (rs_queryString r1) e ms) m"
    using Cons.prems(1) mirror_snoc [OF Cons.prems(3) none, of ?b] by (intro Cons.IH r1(2)) (simp_all add: r1')
  then show ?case by (auto simp: r1' scored_pairs_def x s')
qed

lemma mirror_empty: "mirror [] om_empty"
  by (simp add: mirror_def om_find_def om_empty_def om_wf_def)

lemma wf_scored_pairs: "p \<in> set (scored_pairs q e ms) \<Longrightarrow> sb_wf (snd p)"
  by (auto simp: scored_pairs_def)

text \<open>A result that has been matched.\<close>

lemma fullTextMatch_ok:
  assumes "fullTextMatch db q (new_Result q) = Inr (s, r)"
  shows "result_ok r \<and> rs_queryString r = q"
proof (cases "shouldKeep [] q")
  case False
  then have "r = new_Result q" using assms by (simp add: fullTextMatch_def fillResult_def)
  then show ?thesis by (simp add: result_ok_def new_Result_def mirror_empty)
next
  case True
  then obtain ms r1 where r1: "fullTextMatch_set db q (new_Result q) = Inr (s, ms, r1)" "fillResult ms r1 = Inr r"
    using assms by (auto simp: fullTextMatch_def bindE_Inr_iff)
  from r1(1) have cases: "ms = [] \<and> r1 = new_Result q \<or>
      ms \<noteq> [] \<and> (\<exists>e a. r1 = (new_Result q)\<lparr>rs_editDistance := Some e, rs_allowableEditDistance := Some a,
        rs_hasFullTextMatched := True, rs_correctedQueryString := s\<rparr>)"
    unfolding fullTextMatch_set_def Let_def
    by (auto simp: bindE_Inr_iff assertE_Inr_iff new_Result_def split: if_splits)
  then show ?thesis
  proof (elim disjE conjE exE)
    assume "ms = []" "r1 = new_Result q"
    then have "r = new_Result q" using r1(2) by (simp add: fillResult_def)
    then show ?thesis by (simp add: result_ok_def new_Result_def mirror_empty)
  next
    fix e a
    assume ms: "ms \<noteq> []" and e: "r1 = (new_Result q)\<lparr>rs_editDistance := Some e, rs_allowableEditDistance := Some a,
        rs_hasFullTextMatched := True, rs_correctedQueryString := s\<rparr>"
    then have "rs_editDistance r1 = Some e" "mirror (rs_documentList r1) (rs_documentMap r1)"
      by (simp_all add: new_Result_def mirror_empty)
    from fillResult_Inr [OF this(1) r1(2) this(2)]
    show ?thesis using ms wf_scored_pairs
      by (auto simp: e new_Result_def result_ok_def) (auto simp: scored_pairs_def)
  qed
qed

text \<open>The documents of a matched result are those of one answer of the database.\<close>

lemma fullTextMatch_pairs:
  assumes "fullTextMatch db q (new_Result q) = Inr (s, r)" and "p \<in> set (rs_documentList r)"
  shows "\<exists>c n ms pct e v. xq_mset db c n = Inr ms \<and> (pct, fst p) \<in> set ms \<and>
    corrected_score e (Fin (of_nat pct)) = Inr v \<and> snd p = new_ScoreBoard_score q XAPIAN_PCT v"
proof -
  from assms obtain ms r1 where r1: "fullTextMatch_set db q (new_Result q) = Inr (s, ms, r1)" "fillResult ms r1 = Inr r"
    by (auto simp: fullTextMatch_def fillResult_def new_Result_def bindE_Inr_iff split: if_splits)
  from r1(1) have cases: "ms = [] \<and> r1 = new_Result q \<or>
      (\<exists>c n. xq_mset db c n = Inr ms) \<and> (\<exists>e a. r1 = (new_Result q)\<lparr>rs_editDistance := Some e, rs_allowableEditDistance := Some a,
        rs_hasFullTextMatched := True, rs_correctedQueryString := s\<rparr>)"
    unfolding fullTextMatch_set_def Let_def
    by (auto simp: bindE_Inr_iff assertE_Inr_iff new_Result_def rethrow_def split: if_splits sum.splits)
  then show ?thesis
  proof (elim disjE conjE exE)
    assume "ms = []" "r1 = new_Result q"
    then have "r = new_Result q" using r1(2) by (simp add: fillResult_def)
    then show ?thesis using assms(2) by (simp add: new_Result_def)
  next
    fix c n e a
    assume c: "xq_mset db c n = Inr ms" and e: "r1 = (new_Result q)\<lparr>rs_editDistance := Some e, rs_allowableEditDistance := Some a,
        rs_hasFullTextMatched := True, rs_correctedQueryString := s\<rparr>"
    then have r1': "rs_editDistance r1 = Some e" "mirror (rs_documentList r1) (rs_documentMap r1)"
      by (simp_all add: new_Result_def mirror_empty)
    from fillResult_Inr [OF this(1) r1(2) this(2)]
    have "rs_documentList r = scored_pairs q e ms" by (auto simp: e new_Result_def)
    then obtain pct where p: "(pct, fst p) \<in> set ms"
        "snd p = new_ScoreBoard_score q XAPIAN_PCT (projr (corrected_score e (Fin (of_nat pct))))"
      using assms(2) by (auto simp: scored_pairs_def)
    obtain x xs where "ms = x # xs" using p(1) by (cases ms) auto
    then obtain v where "corrected_score e (Fin (of_nat pct)) = Inr v"
      using r1(2) r1'(1) addDocument_Inr corrected_score_Inr
      by (cases x) (fastforce simp: fillResult_def bindE_Inr_iff)
    with c p show ?thesis by (metis sum.sel(2))
  qed
qed

section \<open>The best document\<close>

lemma result_combined:
  fixes r :: Result
  defines "ps \<equiv> map (\<lambda>p. (fst p, snd (calculateCombinedWeight (snd p)))) (rs_documentList r)"
    and "best \<equiv> scan_best dgt (map (\<lambda>p. (fst p, fst (calculateCombinedWeight (snd p)))) (rs_documentList r)) (None, Fin 0)"
  shows "Result_calculateCombinedWeights tkz parse r =
    bindE (if rs_hasFullTextMatched r then
             bindE (getDocumentPair (case fst best of None \<Rightarrow> 0 | Some d \<Rightarrow> xd_docid d) r) (\<lambda>p.
             bindE (getPrimaryKey parse (fst p)) (\<lambda>_. Inr (snd best)))
           else Inr (unmatched_weight tkz (rs_queryString r)))
      (\<lambda>w. Inr (r\<lparr>rs_documentList := ps,
          rs_bestDocID := Some (case fst best of None \<Rightarrow> 0 | Some d \<Rightarrow> xd_docid d),
          rs_bestCombinedWeight := Some w,
          rs_bestDocData := (case fst best of None \<Rightarrow> [] | Some d \<Rightarrow> xd_data d)\<rparr>))"
  unfolding Result_calculateCombinedWeights_def ps_def best_def
  by (simp add: Let_def case_prod_beta' comp_def getDocumentPair_def)

lemma mirror_combined:
  assumes "mirror ps m"
  shows "mirror (map (\<lambda>p. (fst p, snd (calculateCombinedWeight (snd p)))) ps) m"
proof -
  let ?g = "\<lambda>p. (fst p, snd (calculateCombinedWeight (snd p)))"
  have "by_docid (map ?g ps) k = map_option ?g (by_docid ps k)" for k
    by (induction ps) (auto simp: by_docid_Cons)
  moreover have "docids (map ?g ps) = docids ps" by (simp add: docids_def)
  moreover have keep: "same_pair p p' \<Longrightarrow> same_pair p (?g p')" for p p'
    using same_scores_combined by (auto simp: same_pair_def calculateCombinedWeight_def Let_def)
  moreover have "rel_option same_pair (om_find m k) (map_option ?g (by_docid ps k))" for k
  proof -
    have "rel_option same_pair (om_find m k) (by_docid ps k)" using assms by (simp add: mirror_def)
    then show ?thesis using keep by (cases "om_find m k"; cases "by_docid ps k") simp_all
  qed
  ultimately show ?thesis using assms unfolding mirror_def by simp
qed

lemma sb_wf_combined: "sb_wf sb \<Longrightarrow> sb_wf (snd (calculateCombinedWeight sb))"
  by (simp add: calculateCombinedWeight_def Let_def setCombinedWeight_def)

lemma combined_ok:
  assumes "result_ok r" and "Result_calculateCombinedWeights tkz parse r = Inr r'"
  shows "result_ok r'"
proof -
  obtain w i d where r': "r' = r\<lparr>rs_documentList := map (\<lambda>p. (fst p, snd (calculateCombinedWeight (snd p)))) (rs_documentList r),
      rs_bestDocID := Some i, rs_bestCombinedWeight := Some w, rs_bestDocData := d\<rparr>"
    using assms(2) unfolding result_combined bindE_Inr_iff by blast
  then show ?thesis
    using assms(1) mirror_combined [of "rs_documentList r" "rs_documentMap r"]
    by (auto simp: result_ok_def sb_wf_combined)
qed

section \<open>Reachable results\<close>

text \<open>A result is matched once, and then goes through the scoring methods, in any order.\<close>

inductive reachable_result ::
    "xapian_db \<Rightarrow> tokeniser \<Rightarrow> (string \<Rightarrow> Location outcome) \<Rightarrow> string \<Rightarrow> Result \<Rightarrow> bool" for db tkz parse q where
  matched: "fullTextMatch db q (new_Result q) = Inr (s, r) \<Longrightarrow> reachable_result db tkz parse q r"
| envelopes: "reachable_result db tkz parse q r \<Longrightarrow> calculateEnvelopeWeights parse r = Inr r' \<Longrightarrow>
    reachable_result db tkz parse q r'"
| codes: "reachable_result db tkz parse q r \<Longrightarrow> calculateCodeMatches tkz parse r = Inr r' \<Longrightarrow>
    reachable_result db tkz parse q r'"
| page_ranks: "reachable_result db tkz parse q r \<Longrightarrow> calculatePageRanks parse r = Inr r' \<Longrightarrow>
    reachable_result db tkz parse q r'"
| heuristics: "reachable_result db tkz parse q r \<Longrightarrow>
    reachable_result db tkz parse q (calculateHeuristicWeights r)"
| combined: "reachable_result db tkz parse q r \<Longrightarrow> Result_calculateCombinedWeights tkz parse r = Inr r' \<Longrightarrow>
    reachable_result db tkz parse q r'"

lemma reachable_ok: "reachable_result db tkz parse q r \<Longrightarrow> result_ok r"
  by (induction rule: reachable_result.induct)
    (auto simp: calculateEnvelopeWeights_def calculateCodeMatches_def calculatePageRanks_def
      calculateHeuristicWeights_def dest: fullTextMatch_ok score_documents_ok combined_ok)

lemma score_documents_query:
  assumes "score_documents score t r = Inr r'"
  shows "rs_queryString r' = rs_queryString r"
proof -
  obtain past r1 where r1: "foldE (score_step score t) (rs_documentList r) ([], r) = Inr (past, r1)"
    and r': "r' = r1\<lparr>rs_documentList := past\<rparr>"
    using assms unfolding score_documents_def by (auto simp: bindE_Inr_iff)
  have "rs_queryString (snd (past, r1)) = rs_queryString r"
    by (rule foldE_invariant [OF r1])
      (auto simp: score_step_def bindE_Inr_iff setScoreOnDocMap_def split: option.splits)
  then show ?thesis by (simp add: r')
qed

lemma combined_query:
  "Result_calculateCombinedWeights tkz parse r = Inr r' \<Longrightarrow> rs_queryString r' = rs_queryString r"
  unfolding result_combined bindE_Inr_iff by auto

lemma reachable_query: "reachable_result db tkz parse q r \<Longrightarrow> rs_queryString r = q"
  by (induction rule: reachable_result.induct)
    (auto simp: calculateEnvelopeWeights_def calculateCodeMatches_def calculatePageRanks_def
      calculateHeuristicWeights_def dest: fullTextMatch_ok score_documents_query combined_query)

section \<open>Properties\<close>

lemma almost_one: "AlmostEquals (Fin 1) (Fin 1)" "\<not> AlmostEquals (Fin 0) (Fin 1)"
proof -
  have "sm (bits (Fin 1)) = 1023 * 2 ^ 52" "sm (bits (Fin 0)) = 0"
    using sm_bits [of "Fin 1"] sm_bits [of "Fin 0"]
    by (simp_all add: bits_pos_1 del: bits.simps)
  then show "AlmostEquals (Fin 1) (Fin 1)" "\<not> AlmostEquals (Fin 0) (Fin 1)"
    by (simp_all add: AlmostEquals_sm del: bits.simps)
qed



definition distinct_docs :: "(nat \<times> xdoc) list \<Rightarrow> bool" where
  "distinct_docs ms \<longleftrightarrow> distinct (map (\<lambda>x. xd_docid (snd x)) ms)"

lemma docids_scored_pairs: "docids (scored_pairs q e ms) = map (\<lambda>x. xd_docid (snd x)) ms"
  by (auto simp: docids_def scored_pairs_def)

lemma corrected_score_0 [simp]: "corrected_score 0 s = Inr s"
  by (simp add: corrected_score_def)

lemma corrected_score_small:
  assumes "unat e \<le> 1290" and "0 < e"
  shows "corrected_score e s = Inr (ddiv_const s (of_nat (unat e ^ 3)))"
proof -
  have "unat e ^ 3 \<le> 1290 ^ 3" using assms(1) by (rule power_mono) simp
  then show ?thesis using assms(2) by (simp add: corrected_score_def Let_def power3_eq_cube)
qed

text \<open>An index of two documents, for the examples.\<close>

definition paris_docs :: "(nat \<times> xdoc) list" where
  "paris_docs = [(97, \<lparr>xd_docid = 4, xd_data = ''PAR''\<rparr>), (40, \<lparr>xd_docid = 9, xd_data = ''PRX''\<rparr>)]"

definition paris_db :: xapian_db where
  "paris_db = \<lparr>xq_mset = (\<lambda>q n. Inr (if q = ''paris'' then paris_docs else [])),
     xq_suggest = (\<lambda>q d. Inr (if q = ''pariss'' then ''paris'' else []))\<rparr>"

definition paris_parse :: "string \<Rightarrow> Location outcome" where
  "paris_parse s = Inr (new_Location\<lparr>loc_key := new_LocationKey s CITY 0\<rparr>)"

definition paris_result :: Result where
  "paris_result = (new_Result ''paris'')\<lparr>rs_editDistance := Some 0, rs_allowableEditDistance := Some 0,
     rs_hasFullTextMatched := True, rs_correctedQueryString := ''paris'',
     rs_documentList :=
       [(\<lparr>xd_docid = 4, xd_data = ''PAR''\<rparr>, new_ScoreBoard_score ''paris'' XAPIAN_PCT (Fin 97)),
        (\<lparr>xd_docid = 9, xd_data = ''PRX''\<rparr>, new_ScoreBoard_score ''paris'' XAPIAN_PCT (Fin 40))],
     rs_documentMap :=
       [(4, \<lparr>xd_docid = 4, xd_data = ''PAR''\<rparr>, new_ScoreBoard_score ''paris'' XAPIAN_PCT (Fin 97)),
        (9, \<lparr>xd_docid = 9, xd_data = ''PRX''\<rparr>, new_ScoreBoard_score ''paris'' XAPIAN_PCT (Fin 40))]\<rparr>"

lemma paris_keep: "shouldKeep [] ''paris''" "shouldKeep [] ''pariss''"
  by (simp_all add: shouldKeep_def hasGoodSize_def isBlackListed_def K_BLACK_LIST_def)

lemma paris_consistent: "consistent_db paris_db"
  by (simp add: consistent_db_def paris_db_def paris_docs_def)

lemma paris_matched: "fullTextMatch paris_db ''paris'' (new_Result ''paris'') = Inr (''paris'', paris_result)"
  by (simp add: fullTextMatch_def paris_keep fullTextMatch_set_def paris_db_def paris_docs_def fillResult_def
      addDocument_def Let_def new_Result_def paris_result_def om_empty_def om_find_def)

lemma paris_reachable: "reachable_result paris_db split_tokens paris_parse ''paris'' paris_result"
  by (rule reachable_result.matched [OF paris_matched])

lemma paris_locations:
  "(d, sb) \<in> set (rs_documentList paris_result) \<Longrightarrow>
   paris_parse (xd_data d) = Inr (new_Location\<lparr>loc_key := new_LocationKey (xd_data d) CITY 0\<rparr>) \<and> xd_docid d \<noteq> 0"
  by (auto simp: paris_parse_def paris_result_def)

text \<open>Filling a matched result.\<close>

lemma fill_matched:
  assumes "distinct_docs xs" and "unat e \<le> 1290"
  shows "\<exists>m. fillResult xs (new_Result q\<lparr>rs_editDistance := Some e, rs_allowableEditDistance := Some b,
      rs_hasFullTextMatched := True, rs_correctedQueryString := s\<rparr>) =
    Inr (new_Result q\<lparr>rs_editDistance := Some e, rs_allowableEditDistance := Some b,
      rs_hasFullTextMatched := True, rs_correctedQueryString := s,
      rs_documentList := scored_pairs q e xs, rs_documentMap := m\<rparr>)"
proof -
  have "corrected_score e (Fin 0) \<noteq> Inl UndefinedBehaviour"
    using assms(2) corrected_score_small [of e "Fin 0"] by (cases "e = 0") (simp_all add: word_gt_0)
  then show ?thesis
    using fillResult_eq [of "new_Result q\<lparr>rs_editDistance := Some e, rs_allowableEditDistance := Some b,
      rs_hasFullTextMatched := True, rs_correctedQueryString := s\<rparr>" e xs] assms(1)
    by (auto simp: new_Result_def mirror_empty docids_scored_pairs distinct_docs_def)
qed

lemma unat_distance:
  assumes "1 \<le> getDistance q c" and "getDistance q c \<le> 1290"
  shows "unat (word_of_int (getDistance q c) :: 16 word) = nat (getDistance q c)"
  using assms by (simp add: unat_eq_nat_uint uint_word_of_int_eq take_bit_int_eq_self)

text \<open>C9: A full-text match of a relevant phrase: when the phrase matches, its documents are kept in the
  order of Xapian with their percentages, and the edit distance is 0; when only a correction of it
  matches, the percentages are divided by the cube of the edit distance to the correction; when there
  is no useful correction the result stays empty and the matched string is empty.\<close>

theorem fullTextMatch_correct:
  assumes "shouldKeep [] q" and "xq_mset db q 30 = Inr ms"
    and "xq_suggest db q (calculateEditDistance q) = Inr c" and "xq_mset db c 30 = Inr ms'"
    and "consistent_db db" and "distinct_docs ms" and "distinct_docs ms'"
    and "1 \<le> getDistance q c" and "getDistance q c \<le> 1290"
  defines "useful \<equiv> c \<noteq> [] \<and> c \<noteq> q"
  defines "e \<equiv> if ms \<noteq> [] then 0 else (word_of_int (getDistance q c) :: 16 word)"
  shows "\<exists>s r. fullTextMatch db q (new_Result q) = Inr (s, r) \<and> rs_queryString r = q \<and>
    s = (if ms \<noteq> [] then q else if useful then c else []) \<and>
    rs_hasFullTextMatched r = (ms \<noteq> [] \<or> useful) \<and>
    (rs_hasFullTextMatched r \<longrightarrow> rs_correctedQueryString r = s \<and> rs_editDistance r = Some e) \<and>
    map fst (rs_documentList r) = map snd (if ms \<noteq> [] then ms else if useful then ms' else []) \<and>
    map (\<lambda>p. getScore (snd p) XAPIAN_PCT) (rs_documentList r) =
      (if ms \<noteq> [] then map (\<lambda>x. Fin (of_nat (fst x))) ms
       else if useful then map (\<lambda>x. ddiv_const (Fin (of_nat (fst x))) (of_int (getDistance q c ^ 3))) ms'
       else [])"
proof -
  let ?d = "word_of_int (getDistance q c) :: 16 word"
  have a: "unat (word_of_nat (calculateEditDistance q) :: 16 word) = calculateEditDistance q"
  proof (rule unat_of_nat_small)
    have "unat (word_of_nat (length q) :: 16 word) < 65536" by (rule order.strict_trans2 [OF unsigned_less]) simp
    then show "calculateEditDistance q \<le> 65535"
      by (simp add: calculateEditDistance_def Let_def K_DEFAULT_SIZE_FOR_SPELLING_ERROR_UNIT_def)
  qed
  have k30: "K_DEFAULT_XAPIAN_MATCHING_SET_SIZE = 30" by (simp add: K_DEFAULT_XAPIAN_MATCHING_SET_SIZE_def)
  have score: "map (\<lambda>p. getScore (snd p) XAPIAN_PCT) (scored_pairs q e xs) =
      map (\<lambda>x. projr (corrected_score e (Fin (of_nat (fst x))))) xs" for e xs
    by (auto simp: scored_pairs_def new_ScoreBoard_score_def getScore_setScore stored_score_def)
  have nq: "rs_queryString (new_Result q) = q" by (simp add: new_Result_def)
  have docs: "map fst (scored_pairs q e xs) = map snd xs" for e xs
    by (auto simp: scored_pairs_def)
  show ?thesis
  proof (cases "ms = []")
    case False
    from fill_matched [OF assms(6), where e=0 and b=0 and s=q and q=q]
    show ?thesis using assms(1,2) False
      by (auto simp: fullTextMatch_def fullTextMatch_set_def k30 e_def docs score nq comp_def)
  next
    case ms: True
    show ?thesis
    proof (cases "c = [] \<or> c = q")
      case True
      then show ?thesis using assms(1-3) ms
        by (auto simp: fullTextMatch_def fullTextMatch_set_def k30 Let_def a useful_def fillResult_def new_Result_def)
    next
      case False
      have ms': "ms' \<noteq> []" using assms(3,4,5) False by (auto simp: consistent_db_def)
      have d: "unat ?d = nat (getDistance q c)" by (rule unat_distance [OF assms(8,9)])
      then have pos: "0 < ?d" using assms(8) by (metis nat_le_0 not_one_le_zero unat_0 word_gt_0 int_nat_eq order.trans zero_le_one nat_0_iff)
      have small: "unat ?d \<le> 1290" using assms(9) by (simp add: d)
      have "projr (corrected_score ?d s) = ddiv_const s (of_int (getDistance q c ^ 3))" for s
        using corrected_score_small [of ?d s] pos assms(8,9) by (simp add: d)
      then show ?thesis
        using fill_matched [OF assms(7) small, where q=q and b="word_of_nat (calculateEditDistance q)" and s=c] assms(1-4) ms ms' False assms(9)
        by (auto simp: fullTextMatch_def fullTextMatch_set_def k30 Let_def a useful_def e_def docs score d nq comp_def)
    qed
  qed
qed

theorem fullTextMatch_correct_witness:
  "\<exists>s r. fullTextMatch paris_db ''pariss'' (new_Result ''pariss'') = Inr (s, r) \<and> rs_queryString r = ''pariss'' \<and>
    s = ''paris'' \<and> rs_hasFullTextMatched r \<and> rs_correctedQueryString r = s \<and>
    rs_editDistance r = Some (word_of_int (getDistance ''pariss'' ''paris'')) \<and>
    map fst (rs_documentList r) = map snd paris_docs \<and>
    map (\<lambda>p. getScore (snd p) XAPIAN_PCT) (rs_documentList r) =
      map (\<lambda>x. ddiv_const (Fin (of_nat (fst x))) (of_int (getDistance ''pariss'' ''paris'' ^ 3))) paris_docs"
proof -
  have d: "getDistance ''pariss'' ''paris'' = 1" by (simp add: getDistance_eq)
  have "distinct_docs []" "distinct_docs paris_docs" by (simp_all add: distinct_docs_def paris_docs_def)
  then show ?thesis
    using fullTextMatch_correct [of "''pariss''" paris_db "[]" "''paris''" paris_docs] paris_keep(2) paris_consistent
    unfolding d by (auto simp: paris_db_def)
qed

text \<open>C10: Whatever the order in which the scoring methods run, the list and the map of the documents of a
  result agree: the same documents under distinct identifiers, with boards that differ at most in the
  combined weight; and there are documents exactly when the full-text match succeeded.\<close>

theorem result_invariant:
  assumes "reachable_result db tkz parse q r"
  shows "distinct (map (\<lambda>p. xd_docid (fst p)) (rs_documentList r)) \<and>
    (\<forall>d sb. (d, sb) \<in> set (rs_documentList r) \<longrightarrow>
       (\<exists>sb'. getDocumentPair (xd_docid d) r = Inr (d, sb') \<and>
          (\<forall>t. t \<noteq> COMBINATION \<longrightarrow> getScore sb' t = getScore sb t))) \<and>
    (rs_documentList r \<noteq> [] \<longleftrightarrow> rs_hasFullTextMatched r)"
proof -
  have ok: "result_ok r" by (rule reachable_ok [OF assms])
  then have m: "mirror (rs_documentList r) (rs_documentMap r)" by (simp add: result_ok_def)
  have "\<exists>sb'. getDocumentPair (xd_docid d) r = Inr (d, sb') \<and> (\<forall>t. t \<noteq> COMBINATION \<longrightarrow> getScore sb' t = getScore sb t)"
    if sel: "(d, sb) \<in> set (rs_documentList r)" for d sb
  proof -
    obtain ps qs where "rs_documentList r = ps @ (d, sb) # qs" using sel by (meson split_list)
    with m have split: "mirror (ps @ (d, sb) # qs) (rs_documentMap r)" by simp
    then have "rel_option same_pair (om_find (rs_documentMap r) (xd_docid d)) (Some (d, sb))"
      using by_docid_replace [of ps d sb qs sb "xd_docid d"] unfolding mirror_def by (metis (full_types))
    then obtain sb' where "om_find (rs_documentMap r) (xd_docid d) = Some (d, sb')" "same_scores sb' sb"
      by (auto simp: same_pair_def option_rel_Some2)
    then show ?thesis by (auto simp: getDocumentPair_def getScore_def same_scores_def)
  qed
  then show ?thesis using ok m by (auto simp: result_ok_def mirror_def docids_def)
qed

theorem result_invariant_witness:
  "distinct (map (\<lambda>p. xd_docid (fst p)) (rs_documentList paris_result)) \<and>
    list_all (\<lambda>(d, sb). \<exists>sb'. getDocumentPair (xd_docid d) paris_result = Inr (d, sb') \<and>
          list_all (\<lambda>t. getScore sb' t = getScore sb t)
            [XAPIAN_PCT, PAGE_RANK, PAX_NB, HEURISTIC, ENV_ID, CODE_FULL_MATCH])
      (rs_documentList paris_result) \<and>
    (rs_documentList paris_result \<noteq> [] \<longleftrightarrow> rs_hasFullTextMatched paris_result)"
  using result_invariant [OF paris_reachable] by (fastforce simp: list_all_iff)

text \<open>The three scoring methods in a row.\<close>

lemma scoring_eq:
  fixes tkz :: tokeniser
  assumes "result_ok r" and "\<forall>p \<in> set (rs_documentList r). parse (xd_data (fst p)) = Inr (loc (fst p))"
  defines "e \<equiv> \<lambda>d. round_dbl (of_int (loc_envelopeID (loc d)))" and "c \<equiv> \<lambda>d. code_match tkz r (loc_key (loc d))"
    and "p \<equiv> \<lambda>d. loc_pageRank (loc d)"
  defines "ps \<equiv> rescored PAGE_RANK p (rescored CODE_FULL_MATCH c (rescored ENV_ID e (rs_documentList r)))"
  shows "\<exists>r1 r2 m. calculateEnvelopeWeights parse r = Inr r1 \<and> calculateCodeMatches tkz parse r1 = Inr r2 \<and>
    calculatePageRanks parse r2 = Inr (r\<lparr>rs_documentMap := m, rs_documentList := ps\<rparr>) \<and>
    result_ok (r\<lparr>rs_documentMap := m, rs_documentList := ps\<rparr>)"
proof -
  obtain m1 where r1: "calculateEnvelopeWeights parse r =
      Inr (r\<lparr>rs_documentMap := m1, rs_documentList := rescored ENV_ID e (rs_documentList r)\<rparr>)"
    and ok1: "result_ok (r\<lparr>rs_documentMap := m1, rs_documentList := rescored ENV_ID e (rs_documentList r)\<rparr>)"
    using envelope_eq [OF assms(1,2)] unfolding e_def by blast
  let ?r1 = "r\<lparr>rs_documentMap := m1, rs_documentList := rescored ENV_ID e (rs_documentList r)\<rparr>"
  have c1: "code_match tkz ?r1 = code_match tkz r" by (rule ext) (simp add: code_match_def)
  have p1: "\<forall>p \<in> set (rs_documentList ?r1). parse (xd_data (fst p)) = Inr (loc (fst p))" using assms(2) by simp
  obtain m2 where r2: "calculateCodeMatches tkz parse ?r1 =
      Inr (?r1\<lparr>rs_documentMap := m2, rs_documentList := rescored CODE_FULL_MATCH c (rs_documentList ?r1)\<rparr>)"
    and ok2: "result_ok (?r1\<lparr>rs_documentMap := m2, rs_documentList := rescored CODE_FULL_MATCH c (rs_documentList ?r1)\<rparr>)"
    using code_eq [OF ok1 p1, of tkz] unfolding c1 c_def by blast
  let ?r2 = "?r1\<lparr>rs_documentMap := m2, rs_documentList := rescored CODE_FULL_MATCH c (rs_documentList ?r1)\<rparr>"
  have p2: "\<forall>p \<in> set (rs_documentList ?r2). parse (xd_data (fst p)) = Inr (loc (fst p))" using assms(2) by simp
  obtain m3 where r3: "calculatePageRanks parse ?r2 =
      Inr (?r2\<lparr>rs_documentMap := m3, rs_documentList := rescored PAGE_RANK p (rs_documentList ?r2)\<rparr>)"
    and ok3: "result_ok (?r2\<lparr>rs_documentMap := m3, rs_documentList := rescored PAGE_RANK p (rs_documentList ?r2)\<rparr>)"
    using page_rank_eq [OF ok2 p2] unfolding p_def by blast
  show ?thesis using r1 r2 r3 ok3
    by (intro exI [of _ ?r1] exI [of _ ?r2] exI [of _ m3]) (simp add: ps_def)
qed

text \<open>C28: For a reachable result whose documents all parse, the scoring methods return, and give each
  document the scores of its own record: the envelope rule, the page rank, and 110000 against 100 for
  the code match, which needs an uncorrected query that filters down to one word of three or four
  letters equal to the IATA code up to case.\<close>

theorem scoring_correct:
  assumes "reachable_result db tkz parse q r"
    and "\<And>d sb. (d, sb) \<in> set (rs_documentList r) \<Longrightarrow> parse (xd_data d) = Inr (loc d)"
  shows "\<exists>r1 r2 r3. calculateEnvelopeWeights parse r = Inr r1 \<and> calculateCodeMatches tkz parse r1 = Inr r2 \<and>
    calculatePageRanks parse r2 = Inr r3 \<and> map fst (rs_documentList r3) = map fst (rs_documentList r) \<and>
    (\<forall>d sb. (d, sb) \<in> set (rs_documentList r3) \<longrightarrow>
       getScore sb ENV_ID = stored_score ENV_ID (round_dbl (of_int (loc_envelopeID (loc d)))) \<and>
       getScore sb CODE_FULL_MATCH =
         (if code_match tkz r (loc_key (loc d)) = Fin 1 then Fin 110000 else Fin 100) \<and>
       getScore sb PAGE_RANK = loc_pageRank (loc d))"
proof -
  have "\<forall>p \<in> set (rs_documentList r). parse (xd_data (fst p)) = Inr (loc (fst p))" using assms(2) by auto
  from scoring_eq [OF reachable_ok [OF assms(1)] this, of tkz]
  obtain r1 r2 m where r: "calculateEnvelopeWeights parse r = Inr r1" "calculateCodeMatches tkz parse r1 = Inr r2"
    "calculatePageRanks parse r2 = Inr (r\<lparr>rs_documentMap := m, rs_documentList :=
      rescored PAGE_RANK (\<lambda>d. loc_pageRank (loc d)) (rescored CODE_FULL_MATCH (\<lambda>d. code_match tkz r (loc_key (loc d)))
        (rescored ENV_ID (\<lambda>d. round_dbl (of_int (loc_envelopeID (loc d)))) (rs_documentList r)))\<rparr>)"
    by blast
  have c: "stored_score CODE_FULL_MATCH (code_match tkz r k) =
      (if code_match tkz r k = Fin 1 then Fin 110000 else Fin 100)" for k
    by (simp add: code_match_def Let_def stored_score_def almost_one)
  show ?thesis
    by (rule exI, rule exI, rule exI, intro conjI, rule r, rule r, rule r)
      (auto simp: getScore_setScore c, auto simp: stored_score_def almost_one)
qed

theorem scoring_correct_witness:
  "\<exists>r1 r2 r3. calculateEnvelopeWeights paris_parse paris_result = Inr r1 \<and>
    calculateCodeMatches split_tokens paris_parse r1 = Inr r2 \<and>
    calculatePageRanks paris_parse r2 = Inr r3 \<and> map fst (rs_documentList r3) = map fst (rs_documentList paris_result) \<and>
    (\<forall>d sb. (d, sb) \<in> set (rs_documentList r3) \<longrightarrow>
       getScore sb ENV_ID = stored_score ENV_ID
         (round_dbl (of_int (loc_envelopeID (new_Location\<lparr>loc_key := new_LocationKey (xd_data d) CITY 0\<rparr>)))) \<and>
       getScore sb CODE_FULL_MATCH =
         (if code_match split_tokens paris_result
              (loc_key (new_Location\<lparr>loc_key := new_LocationKey (xd_data d) CITY 0\<rparr>)) = Fin 1
          then Fin 110000 else Fin 100) \<and>
       getScore sb PAGE_RANK = loc_pageRank (new_Location\<lparr>loc_key := new_LocationKey (xd_data d) CITY 0\<rparr>))"
  by (rule scoring_correct [OF paris_reachable paris_locations [THEN conjunct1]])

lemma getDocumentPair_listed:
  assumes "result_ok r" and "(d, sb) \<in> set (rs_documentList r)"
  shows "\<exists>sb'. getDocumentPair (xd_docid d) r = Inr (d, sb')"
proof -
  obtain ps qs where "rs_documentList r = ps @ (d, sb) # qs" using assms(2) by (meson split_list)
  then have split: "mirror (ps @ (d, sb) # qs) (rs_documentMap r)" using assms(1) by (simp add: result_ok_def)
  show ?thesis using mirror_setScore [OF split, of COMBINATION "Fin 0"] by (auto simp: getDocumentPair_def)
qed

lemma getDocumentPair_unlisted:
  assumes "result_ok r" and "i \<notin> set (docids (rs_documentList r))"
  shows "getDocumentPair i r = Inl AssertionFailure"
proof -
  have "rel_option same_pair (om_find (rs_documentMap r) i) (by_docid (rs_documentList r) i)"
    using assms(1) by (simp add: result_ok_def mirror_def)
  moreover have "by_docid (rs_documentList r) i = None" using assms(2) by (simp only: by_docid_None not_False_eq_True)
  ultimately show ?thesis by (simp add: getDocumentPair_def)
qed

text \<open>The choice among the documents of a matched result, with and without a positive weight.\<close>

lemma best_document_some:
  assumes "result_ok r" and "rs_hasFullTextMatched r"
    and "\<forall>p \<in> set (rs_documentList r). parse (xd_data (fst p)) = Inr (loc (fst p))"
    and "\<exists>(d, sb) \<in> set (rs_documentList r). dgt (fst (calculateCombinedWeight sb)) (Fin 0)"
  defines "w \<equiv> \<lambda>sb. fst (calculateCombinedWeight sb)"
  shows "\<exists>r' ps d sb qs. Result_calculateCombinedWeights tkz parse r = Inr r' \<and>
      rs_documentList r = ps @ (d, sb) # qs \<and> dgt (w sb) (Fin 0) \<and>
      rs_bestDocID r' = Some (xd_docid d) \<and> rs_bestDocData r' = xd_data d \<and>
      rs_bestCombinedWeight r' = Some (w sb) \<and>
      (\<forall>(d', sb') \<in> set (rs_documentList r). \<not> dgt (w sb') (w sb)) \<and>
      (\<forall>(d', sb') \<in> set ps. w sb' \<noteq> w sb)"
proof -
  let ?xs = "map (\<lambda>p. (fst p, w (snd p))) (rs_documentList r)"
  obtain c n where scan: "scan_best dgt ?xs (None, Fin 0) = (c, n)" by fastforce
  note max = dbl_max.scan_best_cases [OF scan]
  have le: "\<forall>(d, sb) \<in> set (rs_documentList r). \<not> dgt (w sb) n" using max by auto
  have "\<not> (c = None \<and> n = Fin 0)" using le assms(4) by (auto simp: w_def)
  with max obtain xs a zs where n: "dgt n (Fin 0)" and xs: "?xs = xs @ (a, n) # zs" and c: "c = Some a"
    and first: "\<forall>(y, v) \<in> set xs. v \<noteq> n" by auto
  from xs obtain ps p qs where split: "rs_documentList r = ps @ p # qs" "xs = map (\<lambda>p. (fst p, w (snd p))) ps"
    "(a, n) = (fst p, w (snd p))"
    by (auto simp: map_eq_append_conv map_eq_Cons_conv)
  obtain d sb where p: "p = (d, sb)" by fastforce
  have sel: "(d, sb) \<in> set (rs_documentList r)" using split p by simp
  obtain sb' where g: "getDocumentPair (xd_docid d) r = Inr (d, sb')"
    using getDocumentPair_listed [OF assms(1) sel] by blast
  have k: "getPrimaryKey parse d = Inr (loc_key (loc d))"
    using assms(3) sel by (auto simp: getPrimaryKey_def retrieveLocation_def)
  obtain r' where r': "Result_calculateCombinedWeights tkz parse r = Inr r'"
    "rs_bestDocID r' = Some (xd_docid d)" "rs_bestDocData r' = xd_data d" "rs_bestCombinedWeight r' = Some n"
    unfolding result_combined scan [unfolded w_def] using assms(2) c g k split(3) p by simp
  have "\<forall>(d', sb') \<in> set ps. w sb' \<noteq> n" using first split(2) by fastforce
  with le show ?thesis using r' split p n
    by (intro exI [of _ r'] exI [of _ ps] exI [of _ d] exI [of _ sb] exI [of _ qs]) simp
qed

lemma best_document_none:
  assumes "result_ok r" and "rs_hasFullTextMatched r"
    and "\<And>d sb. (d, sb) \<in> set (rs_documentList r) \<Longrightarrow> xd_docid d \<noteq> 0"
    and "\<not> (\<exists>(d, sb) \<in> set (rs_documentList r). dgt (fst (calculateCombinedWeight sb)) (Fin 0))"
  shows "Result_calculateCombinedWeights tkz parse r = Inl AssertionFailure"
proof -
  have "scan_best dgt (map (\<lambda>p. (fst p, fst (calculateCombinedWeight (snd p)))) (rs_documentList r)) (None, Fin 0) =
      (None, Fin 0)"
    using assms(4) by (intro dbl_max.scan_best_none) auto
  moreover have "getDocumentPair 0 r = Inl AssertionFailure"
    using assms(3) by (intro getDocumentPair_unlisted [OF assms(1)]) (fastforce simp: docids_def)
  ultimately show ?thesis unfolding result_combined using assms(2) by simp
qed

text \<open>C2: The best document of a matched result is the first of those with the greatest combined weight,
  and its weight and data become those of the result. When no document has a positive weight, no document is
  chosen, and the code fails an assertion looking for the document of identifier 0.\<close>

theorem best_document:
  assumes "reachable_result db tkz parse q r" and "rs_hasFullTextMatched r"
    and "\<And>d sb. (d, sb) \<in> set (rs_documentList r) \<Longrightarrow> parse (xd_data d) = Inr (loc d) \<and> xd_docid d \<noteq> 0"
  defines "w \<equiv> \<lambda>sb. fst (calculateCombinedWeight sb)"
  shows "if \<exists>(d, sb) \<in> set (rs_documentList r). dgt (w sb) (Fin 0)
    then \<exists>r' ps d sb qs. Result_calculateCombinedWeights tkz parse r = Inr r' \<and>
      rs_documentList r = ps @ (d, sb) # qs \<and> dgt (w sb) (Fin 0) \<and>
      rs_bestDocID r' = Some (xd_docid d) \<and> rs_bestDocData r' = xd_data d \<and>
      rs_bestCombinedWeight r' = Some (w sb) \<and>
      (\<forall>(d', sb') \<in> set (rs_documentList r). \<not> dgt (w sb') (w sb)) \<and>
      (\<forall>(d', sb') \<in> set ps. w sb' \<noteq> w sb)
    else Result_calculateCombinedWeights tkz parse r = Inl AssertionFailure"
proof (cases "\<exists>(d, sb) \<in> set (rs_documentList r). dgt (w sb) (Fin 0)")
  case True
  have "\<forall>p \<in> set (rs_documentList r). parse (xd_data (fst p)) = Inr (loc (fst p))" using assms(3) by auto
  from best_document_some [where parse=parse and loc=loc and tkz=tkz, OF reachable_ok [OF assms(1)] assms(2) this
      True [unfolded w_def]]
  show ?thesis using True unfolding w_def by (simp only: if_True)
next
  case False
  have "xd_docid d \<noteq> 0" if "(d, sb) \<in> set (rs_documentList r)" for d sb
    using assms(3) [OF that] ..
  from best_document_none [where parse=parse and tkz=tkz, OF reachable_ok [OF assms(1)] assms(2) this
      False [unfolded w_def]]
  show ?thesis using False unfolding w_def by (simp only: if_False)
qed

theorem best_document_witness:
  "if \<exists>(d, sb) \<in> set (rs_documentList paris_result). dgt (fst (calculateCombinedWeight sb)) (Fin 0)
    then \<exists>r' ps d sb qs. Result_calculateCombinedWeights split_tokens paris_parse paris_result = Inr r' \<and>
      rs_documentList paris_result = ps @ (d, sb) # qs \<and> dgt (fst (calculateCombinedWeight sb)) (Fin 0) \<and>
      rs_bestDocID r' = Some (xd_docid d) \<and> rs_bestDocData r' = xd_data d \<and>
      rs_bestCombinedWeight r' = Some (fst (calculateCombinedWeight sb)) \<and>
      (\<forall>(d', sb') \<in> set (rs_documentList paris_result).
         \<not> dgt (fst (calculateCombinedWeight sb')) (fst (calculateCombinedWeight sb))) \<and>
      (\<forall>(d', sb') \<in> set ps. fst (calculateCombinedWeight sb') \<noteq> fst (calculateCombinedWeight sb))
    else Result_calculateCombinedWeights split_tokens paris_parse paris_result = Inl AssertionFailure"
  by (rule best_document [OF paris_reachable]) (simp add: paris_result_def, rule paris_locations)

text \<open>A phrase without a full-text match weighs 100 per cent when it is one relevant word, which is then
  an unknown word that does not penalise the rest of the query, and \<open>10 ^ (- 3 n)\<close> per cent otherwise,
  where \<open>n\<close> is its number of words; no document is chosen.\<close>

theorem unmatched_result:
  assumes "char_separator tkz" and "tkz AllSepatorList q = ws" and "length ws \<le> 65535"
    and "reachable_result db tkz parse q r" and "\<not> rs_hasFullTextMatched r"
  shows "\<exists>r'. Result_calculateCombinedWeights tkz parse r = Inr r' \<and>
    rs_bestCombinedWeight r' = Some (if length ws = 1 \<and> shouldKeep [] q then Fin 100
      else round_dbl (1 / 10 ^ (3 * length ws))) \<and>
    rs_bestDocID r' = Some 0 \<and> rs_documentList r' = []"
proof -
  have ok: "result_ok r" by (rule reachable_ok [OF assms(4)])
  then have l: "rs_documentList r = []" using assms(5) by (auto simp: result_ok_def)
  have q: "rs_queryString r = q" by (rule reachable_query [OF assms(4)])
  have n: "unat (word_of_nat (length ws) :: 16 word) = length ws" using assms(3) by (rule unat_of_nat_small)
  then have "(word_of_nat (length ws) :: 16 word) = 1 \<longleftrightarrow> length ws = 1"
    by (metis unat_1 of_nat_1)
  then have "unmatched_weight tkz q = (if length ws = 1 \<and> shouldKeep [] q then Fin 100
      else round_dbl (1 / 10 ^ (3 * length ws)))"
    by (simp add: unmatched_weight_def Let_def assms(2) n pow_10_neg_def)
  then show ?thesis unfolding result_combined using assms(5) by (simp add: l q)
qed

theorem unmatched_result_witness:
  "\<exists>r'. Result_calculateCombinedWeights split_tokens paris_parse (new_Result ''xqzt wkv'') = Inr r' \<and>
    rs_bestCombinedWeight r' = Some (if length [''xqzt'', ''wkv''] = 1 \<and> shouldKeep [] ''xqzt wkv'' then Fin 100
      else round_dbl (1 / 10 ^ (3 * length [''xqzt'', ''wkv'']))) \<and>
    rs_bestDocID r' = Some 0 \<and> rs_documentList r' = []"
proof (rule unmatched_result [OF boost.char_separator_axioms])
  show "split_tokens AllSepatorList ''xqzt wkv'' = [''xqzt'', ''wkv'']" by (simp add: AllSepatorList_def)
  have "fullTextMatch paris_db ''xqzt wkv'' (new_Result ''xqzt wkv'') = Inr ([], new_Result ''xqzt wkv'')"
    by (simp add: fullTextMatch_def fullTextMatch_set_def paris_db_def fillResult_def new_Result_def)
  then show "reachable_result paris_db split_tokens paris_parse ''xqzt wkv'' (new_Result ''xqzt wkv'')"
    by (rule reachable_result.matched)
  show "\<not> rs_hasFullTextMatched (new_Result ''xqzt wkv'')" by (simp add: new_Result_def)
qed simp

end
