(* ===== verification/Selection.thy ===== *)
theory Selection
  imports Results
begin

text \<open>
  The results of the parts of a query, and the choice among the partitions of the query
  (\<^verbatim>\<open>bom/ResultHolder.cpp\<close>, \<^verbatim>\<open>bom/ResultCombination.cpp\<close>). A result holder has one result per string
  of a partition; it owns them, so the pointers of the code are the list of the results here. A result
  combination has one holder per partition, and points to the best one by its position in the list.
  The combined weight of a holder is \<open>None\<close> until it is computed.
\<close>

section \<open>Result holders\<close>

record ResultHolder =
  rh_queryString :: string
  rh_resultList :: "Result list"
  rh_combinedWeight :: "dbl option"

definition new_ResultHolder :: "string \<Rightarrow> ResultHolder" where
  "new_ResultHolder iQueryString =
     \<lparr>rh_queryString = iQueryString, rh_resultList = [], rh_combinedWeight = None\<rparr>"

fun ResultHolder_results_string :: "(dbl \<Rightarrow> string) \<Rightarrow> Result list \<Rightarrow> 16 word \<Rightarrow> string outcome" where
  "ResultHolder_results_string show_dbl [] idx = Inr []"
| "ResultHolder_results_string show_dbl (r # rest) idx =
     bindE (Result_toString show_dbl r) (\<lambda>s.
     bindE (ResultHolder_results_string show_dbl rest (idx + 1)) (\<lambda>more.
       Inr ((if idx \<noteq> 0 then [CHR 0x0A] else []) @ '' ==> '' @ [CHR 0x0A] @ s @ more)))"

definition ResultHolder_toString :: "(dbl \<Rightarrow> string) \<Rightarrow> ResultHolder \<Rightarrow> string outcome" where
  "ResultHolder_toString show_dbl h =
     bindE (ResultHolder_results_string show_dbl (rh_resultList h) 0) (\<lambda>s.
       Inr (rh_queryString h @ [CHR 0x0A] @ s))"

definition ResultHolder_getCorrectedStringSet :: "ResultHolder \<Rightarrow> string_set" where
  "ResultHolder_getCorrectedStringSet h =
     fold (\<lambda>lResult oStringSet. StringSet_push_back oStringSet (rs_correctedQueryString lResult))
       (rh_resultList h) []"

text \<open>The loops over the results of a holder.\<close>

definition each_result :: "(Result \<Rightarrow> Result outcome) \<Rightarrow> ResultHolder \<Rightarrow> ResultHolder outcome" where
  "each_result f h = bindE (mapE f (rh_resultList h)) (\<lambda>rs. Inr (h\<lparr>rh_resultList := rs\<rparr>))"

definition ResultHolder_displayXapianPercentages ::
    "(string \<Rightarrow> Location outcome) \<Rightarrow> ResultHolder \<Rightarrow> ResultHolder outcome" where
  "ResultHolder_displayXapianPercentages parse =
     each_result (\<lambda>r. bindE (displayXapianPercentages parse r) (\<lambda>_. Inr r))"

definition ResultHolder_calculateEnvelopeWeights ::
    "(string \<Rightarrow> Location outcome) \<Rightarrow> ResultHolder \<Rightarrow> ResultHolder outcome" where
  "ResultHolder_calculateEnvelopeWeights parse = each_result (calculateEnvelopeWeights parse)"

definition ResultHolder_calculateCodeMatches ::
    "tokeniser \<Rightarrow> (string \<Rightarrow> Location outcome) \<Rightarrow> ResultHolder \<Rightarrow> ResultHolder outcome" where
  "ResultHolder_calculateCodeMatches tkz parse = each_result (calculateCodeMatches tkz parse)"

definition ResultHolder_calculatePageRanks ::
    "(string \<Rightarrow> Location outcome) \<Rightarrow> ResultHolder \<Rightarrow> ResultHolder outcome" where
  "ResultHolder_calculatePageRanks parse = each_result (calculatePageRanks parse)"

definition ResultHolder_calculateHeuristicWeights :: "ResultHolder \<Rightarrow> ResultHolder outcome" where
  "ResultHolder_calculateHeuristicWeights = each_result (\<lambda>r. Inr (calculateHeuristicWeights r))"

text \<open>
  The division by \<^verbatim>\<open>std::pow\<close> of the attenuation factor; the power is the correctly rounded one, and
  dividing by an infinite one gives 0.
\<close>

definition attenuate :: "16 word \<Rightarrow> dbl \<Rightarrow> dbl" where
  "attenuate nbOfResults oCombinedPercentage =
     (case round_dbl (dbl_val K_DEFAULT_ATTENUATION_FCTR ^ unat nbOfResults) of
        Fin d \<Rightarrow> ddiv_const oCombinedPercentage d
      | _ \<Rightarrow> (case oCombinedPercentage of Fin x \<Rightarrow> Fin 0 | _ \<Rightarrow> NaN))"

definition ResultHolder_calculateCombinedWeights ::
    "tokeniser \<Rightarrow> (string \<Rightarrow> Location outcome) \<Rightarrow> ResultHolder \<Rightarrow> ResultHolder outcome" where
  "ResultHolder_calculateCombinedWeights tkz parse h =
     (let oCombinedPercentage = Fin 100;
          oCombinedPercentage = (if rh_resultList h = [] then Fin 0 else oCombinedPercentage)
      in bindE (foldE (\<lambda>lResult (past, oCombinedPercentage).
             bindE (Result_calculateCombinedWeights tkz parse lResult) (\<lambda>lResult.
             bindE (read_set (rs_bestCombinedWeight lResult)) (\<lambda>lPercentage.
               Inr (past @ [lResult], dmul oCombinedPercentage (ddiv_const lPercentage 100)))))
           (rh_resultList h) ([], oCombinedPercentage))
         (\<lambda>(lResultList, oCombinedPercentage).
            let nbOfResults = (word_of_nat (length lResultList) :: 16 word);
                oCombinedPercentage =
                  (if nbOfResults > 1 then attenuate nbOfResults oCombinedPercentage else oCombinedPercentage)
            in Inr (h\<lparr>rh_resultList := lResultList, rh_combinedWeight := Some oCombinedPercentage\<rparr>)))"

section \<open>Result combinations\<close>

record ResultCombination =
  rc_travelQuery :: string
  rc_resultHolderList :: "ResultHolder list"
  rc_bestMatching :: "nat option"

definition new_ResultCombination :: "string \<Rightarrow> ResultCombination" where
  "new_ResultCombination iQueryString =
     \<lparr>rc_travelQuery = iQueryString, rc_resultHolderList = [], rc_bestMatching = None\<rparr>"

definition getBestMatchingResultHolder :: "ResultCombination \<Rightarrow> ResultHolder outcome" where
  "getBestMatchingResultHolder c =
     (case rc_bestMatching c of
        None \<Rightarrow> Inl (NoBestMatchingResultHolderException
          (''There is no best matching ResultHolder object for the given '' @ ''query string: '' @
           [CHR 0x27] @ rc_travelQuery c @ [CHR 0x27]))
      | Some i \<Rightarrow> if i < length (rc_resultHolderList c) then Inr (rc_resultHolderList c ! i)
                  else Inl UndefinedBehaviour)"

definition getBestMatchingWeight :: "ResultCombination \<Rightarrow> dbl outcome" where
  "getBestMatchingWeight c =
     bindE (getBestMatchingResultHolder c) (\<lambda>lResultHolder. read_set (rh_combinedWeight lResultHolder))"

definition getCorrectedStringSet :: "ResultCombination \<Rightarrow> string_set outcome" where
  "getCorrectedStringSet c =
     bindE (getBestMatchingResultHolder c) (\<lambda>lResultHolder.
       Inr (ResultHolder_getCorrectedStringSet lResultHolder))"

definition ResultCombination_toString :: "(dbl \<Rightarrow> string) \<Rightarrow> ResultCombination \<Rightarrow> string outcome" where
  "ResultCombination_toString show_dbl c =
     bindE (foldE (\<lambda>h oStr. bindE (ResultHolder_toString show_dbl h) (\<lambda>s.
              Inr (oStr @ '' ==> '' @ [CHR 0x0A] @ s)))
       (rc_resultHolderList c) (rc_travelQuery c @ [CHR 0x0A])) Inr"

definition each_holder :: "(ResultHolder \<Rightarrow> ResultHolder outcome) \<Rightarrow> ResultCombination \<Rightarrow> ResultCombination outcome" where
  "each_holder f c = bindE (mapE f (rc_resultHolderList c)) (\<lambda>hs. Inr (c\<lparr>rc_resultHolderList := hs\<rparr>))"

definition ResultCombination_displayXapianPercentages ::
    "(string \<Rightarrow> Location outcome) \<Rightarrow> ResultCombination \<Rightarrow> ResultCombination outcome" where
  "ResultCombination_displayXapianPercentages parse =
     each_holder (ResultHolder_displayXapianPercentages parse)"

definition ResultCombination_calculateEnvelopeWeights ::
    "(string \<Rightarrow> Location outcome) \<Rightarrow> ResultCombination \<Rightarrow> ResultCombination outcome" where
  "ResultCombination_calculateEnvelopeWeights parse =
     each_holder (ResultHolder_calculateEnvelopeWeights parse)"

definition ResultCombination_calculateCodeMatches ::
    "tokeniser \<Rightarrow> (string \<Rightarrow> Location outcome) \<Rightarrow> ResultCombination \<Rightarrow> ResultCombination outcome" where
  "ResultCombination_calculateCodeMatches tkz parse =
     each_holder (ResultHolder_calculateCodeMatches tkz parse)"

definition ResultCombination_calculatePageRanks ::
    "(string \<Rightarrow> Location outcome) \<Rightarrow> ResultCombination \<Rightarrow> ResultCombination outcome" where
  "ResultCombination_calculatePageRanks parse =
     each_holder (ResultHolder_calculatePageRanks parse)"

definition ResultCombination_calculateHeuristicWeights :: "ResultCombination \<Rightarrow> ResultCombination outcome" where
  "ResultCombination_calculateHeuristicWeights = each_holder ResultHolder_calculateHeuristicWeights"

definition ResultCombination_calculateCombinedWeights ::
    "tokeniser \<Rightarrow> (string \<Rightarrow> Location outcome) \<Rightarrow> ResultCombination \<Rightarrow> ResultCombination outcome" where
  "ResultCombination_calculateCombinedWeights tkz parse =
     each_holder (ResultHolder_calculateCombinedWeights tkz parse)"

definition calculateAllWeights ::
    "tokeniser \<Rightarrow> (string \<Rightarrow> Location outcome) \<Rightarrow> ResultCombination \<Rightarrow> ResultCombination outcome" where
  "calculateAllWeights tkz parse c =
     bindE (ResultCombination_displayXapianPercentages parse c) (\<lambda>c.
     bindE (ResultCombination_calculateEnvelopeWeights parse c) (\<lambda>c.
     bindE (ResultCombination_calculateCodeMatches tkz parse c) (\<lambda>c.
     bindE (ResultCombination_calculatePageRanks parse c) (\<lambda>c.
     bindE (ResultCombination_calculateHeuristicWeights c) (\<lambda>c.
       ResultCombination_calculateCombinedWeights tkz parse c)))))"

definition chooseBestMatchingResultHolder :: "ResultCombination \<Rightarrow> (bool \<times> ResultCombination) outcome" where
  "chooseBestMatchingResultHolder c =
     bindE (mapE (\<lambda>(i, lResultHolder). bindE (read_set (rh_combinedWeight lResultHolder)) (\<lambda>lMatchingPercentage.
                Inr (i, lMatchingPercentage)))
              (enumerate 0 (rc_resultHolderList c)))
       (\<lambda>weights.
          let (best, lMaxMatchingPercentage) = scan_best dgt weights (rc_bestMatching c, Fin 0);
              c = c\<lparr>rc_bestMatching := best\<rparr>
          in Inr (rc_bestMatching c \<noteq> None, c))"

section \<open>Phases and results commute\<close>

text \<open>
  The code runs each scoring phase over all the results before the next one. When no phase fails, this is
  the run of all the phases on each result.
\<close>

lemma mapE_phases:
  assumes "\<And>x. x \<in> set xs \<Longrightarrow> \<exists>z. bindE (f x) g = Inr z"
  shows "bindE (mapE f xs) (mapE g) = mapE (\<lambda>x. bindE (f x) g) xs"
  using assms
proof (induction xs)
  case (Cons x xs)
  obtain y z where x: "f x = Inr y" "g y = Inr z" using Cons.prems [of x] by (auto simp: bindE_Inr_iff)
  have "bindE (mapE f xs) (mapE g) = mapE (\<lambda>x. bindE (f x) g) xs" by (rule Cons.IH) (simp add: Cons.prems)
  then show ?case using x by (cases "mapE f xs") (simp_all flip: \<open>bindE (mapE f xs) (mapE g) = _\<close>)
qed simp

lemma mapE_Inr_ex:
  assumes "\<And>x. x \<in> set xs \<Longrightarrow> \<exists>y. f x = Inr y"
  shows "\<exists>ys. mapE f xs = Inr ys"
  using mapE_total [of xs f "\<lambda>x. projr (f x)"] assms by force

lemma each_result_phases:
  assumes "\<And>r. r \<in> set (rh_resultList h) \<Longrightarrow> \<exists>r'. bindE (f r) g = Inr r'"
  shows "bindE (each_result f h) (each_result g) = each_result (\<lambda>r. bindE (f r) g) h"
proof -
  have eq: "mapE (\<lambda>r. bindE (f r) g) (rh_resultList h) = bindE (mapE f (rh_resultList h)) (mapE g)"
    by (rule mapE_phases [symmetric]) (rule assms)
  show ?thesis unfolding each_result_def eq by (simp add: bindE_assoc)
qed

lemma each_holder_phases:
  assumes "\<And>h. h \<in> set (rc_resultHolderList c) \<Longrightarrow> \<exists>h'. bindE (f h) g = Inr h'"
  shows "bindE (each_holder f c) (each_holder g) = each_holder (\<lambda>h. bindE (f h) g) c"
proof -
  have eq: "mapE (\<lambda>h. bindE (f h) g) (rc_resultHolderList c) = bindE (mapE f (rc_resultHolderList c)) (mapE g)"
    by (rule mapE_phases [symmetric]) (rule assms)
  show ?thesis unfolding each_holder_def eq by (simp add: bindE_assoc)
qed

lemma each_result_Inr:
  assumes "\<And>r. r \<in> set (rh_resultList h) \<Longrightarrow> \<exists>r'. f r = Inr r'"
  shows "\<exists>h'. each_result f h = Inr h'"
proof -
  obtain rs where "mapE f (rh_resultList h) = Inr rs" using mapE_Inr_ex assms by metis
  then show ?thesis by (simp add: each_result_def)
qed

lemma each_phases:
  assumes "\<And>h r. h \<in> set (rc_resultHolderList c) \<Longrightarrow> r \<in> set (rh_resultList h) \<Longrightarrow> \<exists>r'. bindE (f r) g = Inr r'"
  shows "bindE (each_holder (each_result f) c) (each_holder (each_result g)) =
    each_holder (each_result (\<lambda>r. bindE (f r) g)) c"
proof -
  have eq: "bindE (each_result f h) (each_result g) = each_result (\<lambda>r. bindE (f r) g) h"
    if "h \<in> set (rc_resultHolderList c)" for h
    by (rule each_result_phases) (rule assms [OF that])
  have "bindE (each_holder (each_result f) c) (each_holder (each_result g)) =
      each_holder (\<lambda>h. bindE (each_result f h) (each_result g)) c"
  proof (rule each_holder_phases)
    fix h
    assume h: "h \<in> set (rc_resultHolderList c)"
    show "\<exists>h'. bindE (each_result f h) (each_result g) = Inr h'"
      unfolding eq [OF h] by (rule each_result_Inr) (rule assms [OF h])
  qed
  also have "\<dots> = each_holder (each_result (\<lambda>r. bindE (f r) g)) c"
    using eq unfolding each_holder_def by (simp cong: mapE_cong)
  finally show ?thesis .
qed

section \<open>Scores that do not vanish\<close>

definition twopow :: "int \<Rightarrow> rat" where
  "twopow k = 2 powi k"

lemma twopow_pos [simp]: "0 < twopow k"
  by (simp add: twopow_def)

lemma twopow_mono: "i \<le> j \<Longrightarrow> twopow i \<le> twopow j"
  by (simp add: twopow_def pow2_mono)

lemma twopow_add: "twopow (i + j) = twopow i * twopow j"
  by (simp add: twopow_def power_int_add)

lemma twopow_le_pos: "twopow k \<le> x \<Longrightarrow> 0 < x"
  using twopow_pos [of k] by linarith

lemma representable_twopow:
  assumes "- 1074 \<le> k" and "k < 1024"
  shows "representable (twopow k)"
proof -
  have "twopow k < 2 powi 1024"
    unfolding twopow_def using assms(2) by (intro power_int_strict_increasing) auto
  then have "\<bar>twopow k\<bar> < 2 ^ 1024"
    unfolding abs_of_pos [OF twopow_pos [of k]] power_int_numeral .
  then show ?thesis unfolding representable_def using assms(1)
    by (intro exI [of _ 1] exI [of _ k]) (simp add: twopow_def)
qed

lemma dle_twopow_div:
  assumes "dle (Fin (twopow j)) v" and "- 1000 \<le> j" and "j < 1000"
  shows "dle (Fin (twopow (j - 7))) (ddiv_const v 100)"
proof (cases v)
  case (Fin q)
  have "twopow (j - 7) * 100 \<le> twopow (j - 7) * twopow 7" by (simp add: twopow_def)
  also have "\<dots> = twopow j" using twopow_add [of "j - 7" 7] by simp
  finally have "twopow (j - 7) \<le> q / 100" using assms(1) Fin by simp
  then have "dle (round_dbl (twopow (j - 7))) (round_dbl (q / 100))" by (rule dle_round)
  then show ?thesis using assms(2,3) Fin by (simp add: round_exact representable_twopow)
qed (use assms(1) in auto)

lemma dle_Fin_cases:
  assumes "dle (Fin x) a"
  obtains y where "a = Fin y" "x \<le> y" | "a = PosInf"
  using assms by (cases a) auto

lemma dle_twopow_mul:
  assumes "dle (Fin (twopow i)) a" and "dle (Fin (twopow j)) b" and "- 1074 \<le> i + j" and "i + j < 1024"
  shows "dle (Fin (twopow (i + j))) (dmul a b)"
  using assms(1)
proof (cases rule: dle_Fin_cases)
  case (1 x)
  then have x: "0 < x" using twopow_le_pos by simp
  show ?thesis using assms(2)
  proof (cases rule: dle_Fin_cases)
    case inner: (1 y)
    have "twopow i * twopow j \<le> x * y" using 1 inner x by (intro mult_mono) (simp_all add: less_imp_le)
    then have "dle (round_dbl (twopow (i + j))) (round_dbl (x * y))" by (intro dle_round) (simp add: twopow_add)
    then show ?thesis using 1 inner assms(3,4) by (simp add: round_exact representable_twopow)
  qed (use 1 x in \<open>simp add: inf_sign_def\<close>)
next
  case 2
  show ?thesis using assms(2)
    by (cases rule: dle_Fin_cases) (use twopow_le_pos in \<open>force simp: 2 inf_sign_def\<close>)+
qed

lemma fold_weight_positive:
  assumes "\<And>v. v \<in> set vs \<Longrightarrow> dle (Fin (twopow (- 100))) v" and "length vs \<le> n" and "n \<le> 6"
    and "dle (Fin (twopow (- 107 * (6 - int n)))) p"
  shows "dle (Fin (twopow (- 642))) (fold (\<lambda>v p. dmul p (ddiv_const v 100)) vs p)"
  using assms
proof (induction vs arbitrary: n p)
  case Nil
  have "dle (Fin (twopow (- 642))) (Fin (twopow (- 107 * (6 - int n))))"
    by (simp only: dle_simps, rule twopow_mono) simp
  from dle_trans [OF this Nil.prems(4)] show ?case by simp
next
  case (Cons v vs)
  then obtain m where n: "n = Suc m" by (cases n) auto
  have "dle (Fin (twopow (- 100 - 7))) (ddiv_const v 100)" by (rule dle_twopow_div) (simp_all add: Cons.prems(1))
  then have "dle (Fin (twopow (- 107 * (6 - int n) + (- 100 - 7)))) (dmul p (ddiv_const v 100))"
    using Cons.prems(3) by (intro dle_twopow_mul [OF Cons.prems(4)]) auto
  moreover have "- 107 * (6 - int n) + (- 100 - 7) = - 107 * (6 - int m)" by (simp add: n)
  ultimately show ?case using Cons.IH [of m "dmul p (ddiv_const v 100)"] Cons.prems(1-3)
    by (simp add: n)
qed

text \<open>A board whose scores are all at least \<open>2 ^ (- 100)\<close> has a positive combined weight.\<close>

lemma length_individual_scores:
  assumes "sb_wf sb"
  shows "length (individual_scores sb) \<le> 6"
proof -
  let ?ks = "filter isIndividualScore (map fst (om_entries (sb_scoreMap sb)))"
  have "distinct ?ks" using om.distinct_keys [of "sb_scoreMap sb"] assms by (simp add: sb_wf_def)
  then have "length ?ks = card (set ?ks)" by (rule distinct_card [symmetric])
  also have "\<dots> \<le> card {XAPIAN_PCT, PAGE_RANK, PAX_NB, HEURISTIC, ENV_ID, CODE_FULL_MATCH}"
  proof (rule card_mono)
    show "set ?ks \<subseteq> {XAPIAN_PCT, PAGE_RANK, PAX_NB, HEURISTIC, ENV_ID, CODE_FULL_MATCH}"
      by (auto simp: isIndividualScore_def) (metis EN_ScoreType.exhaust)
  qed simp
  also have "\<dots> \<le> 6" by (simp add: card_insert_if)
  finally have "length ?ks \<le> 6" .
  moreover have "length (individual_scores sb) = length ?ks"
    unfolding individual_scores_def filter_map length_map comp_def case_prod_beta' ..
  ultimately show ?thesis by simp
qed

lemma twopow_dgt: "dle (Fin (twopow k)) w \<Longrightarrow> dgt w (Fin 0)"
  by (cases rule: dle_Fin_cases) (use twopow_le_pos in auto)

lemma combined_positive:
  assumes "sb_wf sb" and "\<And>t v. om_find (sb_scoreMap sb) t = Some v \<Longrightarrow> dle (Fin (twopow (- 100))) v"
  shows "dle (Fin (twopow (- 642))) (fst (calculateCombinedWeight sb))"
proof -
  let ?w = "fold (\<lambda>v p. dmul p (ddiv_const v 100)) (individual_scores sb) (Fin 100)"
  have "dle (Fin (twopow (- 100))) v" if "v \<in> set (individual_scores sb)" for v
    using that assms om.entries_iff [of "sb_scoreMap sb"]
    by (auto simp: individual_scores_def sb_wf_def)
  then have "dle (Fin (twopow (- 642))) ?w"
  proof (rule fold_weight_positive [OF _ length_individual_scores [OF assms(1)]])
    show "dle (Fin (twopow (- 107 * (6 - int 6)))) (Fin 100)" by (simp add: twopow_def)
  qed simp_all
  then show ?thesis by (simp add: calculateCombinedWeight_eq Let_def)
qed

section \<open>The scores of one result\<close>

definition score_result ::
    "tokeniser \<Rightarrow> (string \<Rightarrow> Location outcome) \<Rightarrow> Result \<Rightarrow> Result outcome" where
  "score_result tkz parse r =
     bindE (bindE (bindE (bindE (bindE (displayXapianPercentages parse r) (\<lambda>_. Inr r))
       (calculateEnvelopeWeights parse)) (calculateCodeMatches tkz parse)) (calculatePageRanks parse))
       (\<lambda>r. Inr (calculateHeuristicWeights r))"

lemma displayXapianPercentages_returns:
  assumes "\<forall>p \<in> set (rs_documentList r). parse (xd_data (fst p)) = Inr (loc (fst p))"
  shows "displayXapianPercentages parse r = Inr ()"
proof -
  have "displayXapianPercentages parse r = Inr (fold (\<lambda>_ _. ()) (rs_documentList r) ())"
    unfolding displayXapianPercentages_def
    by (rule foldE_total) (use assms in \<open>auto simp: getPrimaryKey_def retrieveLocation_def\<close>)
  then show ?thesis by simp
qed

lemma score_result_eq:
  fixes tkz :: tokeniser
  assumes "result_ok r" and "\<forall>p \<in> set (rs_documentList r). parse (xd_data (fst p)) = Inr (loc (fst p))"
  defines "e \<equiv> \<lambda>d. round_dbl (of_int (loc_envelopeID (loc d)))" and "c \<equiv> \<lambda>d. code_match tkz r (loc_key (loc d))"
    and "p \<equiv> \<lambda>d. loc_pageRank (loc d)"
  defines "ps \<equiv> rescored PAGE_RANK p (rescored CODE_FULL_MATCH c (rescored ENV_ID e (rs_documentList r)))"
  shows "\<exists>m. score_result tkz parse r = Inr (r\<lparr>rs_documentMap := m, rs_documentList := ps\<rparr>) \<and>
    result_ok (r\<lparr>rs_documentMap := m, rs_documentList := ps\<rparr>)"
  using scoring_eq [OF assms(1,2), of tkz]
  unfolding score_result_def displayXapianPercentages_returns [OF assms(2)] bindE_simps
    calculateHeuristicWeights_def ps_def e_def c_def p_def by auto

text \<open>A matched result whose documents are ranked has a best document of positive weight.\<close>

definition positive_percentages :: "xapian_db \<Rightarrow> bool" where
  "positive_percentages db \<longleftrightarrow> (\<forall>c n ms pct d. xq_mset db c n = Inr ms \<and> (pct, d) \<in> set ms \<longrightarrow> 1 \<le> pct)"

lemma corrected_score_positive:
  assumes "corrected_score e (Fin (of_nat pct)) = Inr v" and "1 \<le> pct"
  shows "dle (Fin (twopow (- 31))) v"
proof -
  have le: "twopow (- 31) \<le> of_nat pct / c" if "0 < c" "c \<le> 2 ^ 31" for c :: rat
  proof -
    have "twopow (- 31) * c \<le> twopow (- 31) * 2 ^ 31" using that by (intro mult_left_mono) (simp_all add: less_imp_le)
    also have "\<dots> = 1" by (simp add: twopow_def)
    also have "\<dots> \<le> of_nat pct" using assms(2) by simp
    finally show ?thesis using that by (simp add: pos_le_divide_eq)
  qed
  show ?thesis
  proof (cases "e > 0")
    case True
    let ?c = "unat e * unat e * unat e"
    have c: "?c < 2 ^ 31" "v = round_dbl (of_nat pct / of_nat ?c)"
      using assms(1) True by (auto simp: corrected_score_def Let_def split: if_splits)
    have "0 < ?c" using True by (simp add: word_gt_0 unat_gt_0)
    moreover have "(of_nat ?c :: rat) \<le> 2 ^ 31" using c(1) by (metis of_nat_le_iff of_nat_numeral of_nat_power less_imp_le)
    ultimately have "twopow (- 31) \<le> of_nat pct / of_nat ?c" by (intro le) (simp_all only: of_nat_0_less_iff)
    from dle_round [OF this] show ?thesis unfolding c(2) by (simp add: round_exact representable_twopow)
  next
    case False
    then have "v = Fin (of_nat pct)" using assms(1) by (simp add: corrected_score_def)
    then show ?thesis using le [of 1] by simp
  qed
qed

definition ranked_location :: "Location \<Rightarrow> bool" where
  "ranked_location l \<longleftrightarrow> dle (Fin (twopow (- 100))) (loc_pageRank l)"

lemma twopow_100_le: "dle (Fin (twopow (- 100))) v" if "dle (Fin (twopow (- 31))) v"
  using dle_trans [OF _ that, of "Fin (twopow (- 100))"] twopow_mono [of "- 100" "- 31"] by simp

lemma scored_positive:
  assumes "dle (Fin (twopow (- 31))) v" and "dle (Fin (twopow (- 100))) p"
  shows "dle (Fin (twopow (- 642))) (fst (calculateCombinedWeight
    (setScore PAGE_RANK p (setScore CODE_FULL_MATCH c (setScore ENV_ID e (new_ScoreBoard_score q XAPIAN_PCT v))))))"
proof (rule combined_positive)
  have "twopow (- 31) \<le> 3602879701896397 / 36028797018963968" "twopow (- 31) \<le> 1" by (simp_all add: twopow_def)
  then have "dle (Fin (twopow (- 31))) (stored_score t w)" if "t = ENV_ID \<or> t = CODE_FULL_MATCH" for t w
    using that by (auto simp: stored_score_def page_rank_value)
  then show "dle (Fin (twopow (- 100))) w" if
    "om_find (sb_scoreMap (setScore PAGE_RANK p (setScore CODE_FULL_MATCH c (setScore ENV_ID e
       (new_ScoreBoard_score q XAPIAN_PCT v))))) t = Some w" for t w
    using that assms
    by (auto simp: setScore_eq new_ScoreBoard_score_def new_ScoreBoard_def split: if_splits intro: twopow_100_le)
      (auto simp: stored_score_def intro: twopow_100_le)
qed simp

text \<open>What the scoring leaves of the match.\<close>

definition same_match :: "Result \<Rightarrow> Result \<Rightarrow> bool" where
  "same_match r r' \<longleftrightarrow> rs_queryString r' = rs_queryString r \<and>
     rs_hasFullTextMatched r' = rs_hasFullTextMatched r \<and> rs_correctedQueryString r' = rs_correctedQueryString r \<and>
     rs_editDistance r' = rs_editDistance r \<and> rs_allowableEditDistance r' = rs_allowableEditDistance r \<and>
     rs_bestDocID r' \<noteq> None"

lemma combined_same_match:
  assumes "Result_calculateCombinedWeights tkz parse (r\<lparr>rs_documentMap := m, rs_documentList := ps\<rparr>) = Inr r'"
  shows "same_match r r'"
  using assms unfolding result_combined bindE_Inr_iff by (auto simp: same_match_def)

lemma scored_result:
  fixes tkz :: tokeniser
  assumes "fullTextMatch db q (new_Result q) = Inr (s, r)" and "positive_percentages db"
    and "\<And>d. d \<in> fst ` set (rs_documentList r) \<Longrightarrow> parse (xd_data d) = Inr (loc d) \<and> ranked_location (loc d)"
  shows "\<exists>r1 r' w. score_result tkz parse r = Inr r1 \<and> Result_calculateCombinedWeights tkz parse r1 = Inr r' \<and>
    same_match r r' \<and> rs_bestCombinedWeight r' = Some w \<and>
    (if rs_hasFullTextMatched r then dle (Fin (twopow (- 642))) w \<and> rs_bestDocData r' \<in> xd_data ` fst ` set (rs_documentList r)
     else w = unmatched_weight tkz q)"
proof -
  have ok: "result_ok r" and q: "rs_queryString r = q" using fullTextMatch_ok [OF assms(1)] by simp_all
  have parse: "\<forall>p \<in> set (rs_documentList r). parse (xd_data (fst p)) = Inr (loc (fst p))" using assms(3) by auto
  obtain ps m where r1: "score_result tkz parse r = Inr (r\<lparr>rs_documentMap := m, rs_documentList := ps\<rparr>)"
    and ok1: "result_ok (r\<lparr>rs_documentMap := m, rs_documentList := ps\<rparr>)"
    and ps: "ps = rescored PAGE_RANK (\<lambda>d. loc_pageRank (loc d)) (rescored CODE_FULL_MATCH
        (\<lambda>d. code_match tkz r (loc_key (loc d))) (rescored ENV_ID
        (\<lambda>d. round_dbl (of_int (loc_envelopeID (loc d)))) (rs_documentList r)))"
    using score_result_eq [OF ok parse, of tkz] by blast
  let ?r1 = "r\<lparr>rs_documentMap := m, rs_documentList := ps\<rparr>"
  show ?thesis
  proof (cases "rs_hasFullTextMatched r")
    case False
    then show ?thesis using r1 q unfolding result_combined by (simp add: same_match_def)
  next
    case True
    have pos: "dle (Fin (twopow (- 642))) (fst (calculateCombinedWeight sb))" if sel: "(d, sb) \<in> set ps" for d sb
    proof -
      obtain p where p: "p \<in> set (rs_documentList r)" "d = fst p"
        "sb = setScore PAGE_RANK (loc_pageRank (loc d)) (setScore CODE_FULL_MATCH (code_match tkz r (loc_key (loc d)))
          (setScore ENV_ID (round_dbl (of_int (loc_envelopeID (loc d)))) (snd p)))"
        using sel by (auto simp: ps)
      obtain c n ms pct e v where v: "xq_mset db c n = Inr ms" "(pct, fst p) \<in> set ms"
        "corrected_score e (Fin (of_nat pct)) = Inr v" "snd p = new_ScoreBoard_score q XAPIAN_PCT v"
        using fullTextMatch_pairs [OF assms(1) p(1)] by blast
      have "1 \<le> pct" using assms(2) v(1,2) unfolding positive_percentages_def by blast
      then have "dle (Fin (twopow (- 31))) v" by (rule corrected_score_positive [OF v(3)])
      moreover have "dle (Fin (twopow (- 100))) (loc_pageRank (loc d))"
        using assms(3) p(1,2) by (auto simp: ranked_location_def)
      ultimately show ?thesis unfolding p(3) v(4) by (rule scored_positive)
    qed
    have "rs_documentList r \<noteq> []" using ok True by (simp add: result_ok_def)
    then obtain d sb where "(d, sb) \<in> set ps" by (cases "rs_documentList r") (auto simp: ps)
    with pos twopow_dgt have ex: "\<exists>(d, sb) \<in> set (rs_documentList ?r1). dgt (fst (calculateCombinedWeight sb)) (Fin 0)"
      by fastforce
    have fs: "fst ` set ps = fst ` set (rs_documentList r)" by (force simp: ps)
    then have parse1: "\<forall>p \<in> set (rs_documentList ?r1). parse (xd_data (fst p)) = Inr (loc (fst p))"
      using assms(3) by auto
    have l: "rs_documentList ?r1 = ps" "rs_hasFullTextMatched ?r1" using True by simp_all
    obtain r' ps0 d sb qs where "Result_calculateCombinedWeights tkz parse ?r1 = Inr r'" "ps = ps0 @ (d, sb) # qs"
      "dgt (fst (calculateCombinedWeight sb)) (Fin 0)" "rs_bestDocData r' = xd_data d"
      "rs_bestCombinedWeight r' = Some (fst (calculateCombinedWeight sb))"
      using best_document_some [where parse=parse and loc=loc and tkz=tkz, OF ok1 l(2) parse1 ex]
      unfolding l(1) by blast
    note r' = this
    have "(d, sb) \<in> set ps" using r'(2) by simp
    then have "d \<in> fst ` set (rs_documentList r)" "dle (Fin (twopow (- 642))) (fst (calculateCombinedWeight sb))"
      using fs pos by force+
    then show ?thesis using r1 r' True combined_same_match [OF r'(1)] by auto
  qed
qed

section \<open>The weight of a holder\<close>

definition holder_weight :: "dbl list \<Rightarrow> dbl" where
  "holder_weight ws =
     (let p = fold (\<lambda>w p. dmul p (ddiv_const w 100)) ws (if ws = [] then Fin 0 else Fin 100);
          n = (word_of_nat (length ws) :: 16 word)
      in if n > 1 then attenuate n p else p)"

lemma holder_combined:
  assumes "list_all2 (\<lambda>r (r', w). Result_calculateCombinedWeights tkz parse r = Inr r' \<and>
      rs_bestCombinedWeight r' = Some w) (rh_resultList h) rws"
  shows "ResultHolder_calculateCombinedWeights tkz parse h =
    Inr (h\<lparr>rh_resultList := map fst rws, rh_combinedWeight := Some (holder_weight (map snd rws))\<rparr>)"
proof -
  let ?step = "\<lambda>lResult (past, oCombinedPercentage).
    bindE (Result_calculateCombinedWeights tkz parse lResult) (\<lambda>lResult.
    bindE (read_set (rs_bestCombinedWeight lResult)) (\<lambda>lPercentage.
      Inr (past @ [lResult], dmul oCombinedPercentage (ddiv_const lPercentage 100))))"
  have loop: "foldE ?step rs (past, p) =
      Inr (past @ map fst rws, fold (\<lambda>w p. dmul p (ddiv_const w 100)) (map snd rws) p)"
    if "list_all2 (\<lambda>r (r', w). Result_calculateCombinedWeights tkz parse r = Inr r' \<and>
      rs_bestCombinedWeight r' = Some w) rs rws" for rs rws past p
    using that
  proof (induction rs rws arbitrary: past p rule: list_all2_induct)
    case (Cons r rs x rws)
    then show ?case by (cases x) simp
  qed simp
  have "rh_resultList h = [] \<longleftrightarrow> rws = []" using assms by auto
  then show ?thesis
    unfolding ResultHolder_calculateCombinedWeights_def holder_weight_def Let_def loop [OF assms] by simp
qed

text \<open>Weights of at most 100 per cent.\<close>

lemma fold_weight_le:
  assumes "\<And>w. w \<in> set ws \<Longrightarrow> dle (Fin 0) w \<and> dle w (Fin 100)" and "dle (Fin 0) p" and "dle p (Fin 100)"
  shows "dle (Fin 0) (fold (\<lambda>w p. dmul p (ddiv_const w 100)) ws p) \<and>
    dle (fold (\<lambda>w p. dmul p (ddiv_const w 100)) ws p) (Fin 100)"
  using assms
proof (induction ws arbitrary: p)
  case (Cons w ws)
  have fin: "\<exists>y. v = Fin y \<and> 0 \<le> y \<and> y \<le> 100" if "dle (Fin 0) v" "dle v (Fin 100)" for v
    using that by (cases v) (auto simp: dle_def)
  obtain x where w: "w = Fin x" "0 \<le> x" "x \<le> 100" using fin Cons.prems(1) [of w] by auto
  obtain y where p: "p = Fin y" "0 \<le> y" "y \<le> 100" using fin Cons.prems(2,3) by auto
  have "dle (round_dbl 0) (ddiv_const w 100)" "dle (ddiv_const w 100) (round_dbl 1)"
    using w by (simp_all only: ddiv_const.simps, simp_all add: dle_round del: round_zero round_one)
  then obtain z where z: "ddiv_const w 100 = Fin z" "0 \<le> z" "z \<le> 1"
    by (cases "ddiv_const w 100") (auto simp: dle_def)
  have "0 \<le> y * z" "y * z \<le> 100" using p z mult_mono [of y 100 z 1] by simp_all
  then have "dle (round_dbl 0) (dmul p (Fin z))" "dle (dmul p (Fin z)) (round_dbl 100)"
    using p by (simp_all add: dle_round del: round_zero round_numeral)
  then have "dle (Fin 0) (dmul p (ddiv_const w 100))" "dle (dmul p (ddiv_const w 100)) (Fin 100)"
    unfolding z(1) by simp_all
  then show ?case using Cons.IH [of "dmul p (ddiv_const w 100)"] Cons.prems(1) by simp
qed simp

lemma attenuate_le:
  assumes "dle (Fin 0) p" and "dle p (Fin 100)" and "2 \<le> unat n"
  shows "dle (Fin 0) (attenuate n p) \<and> dle (attenuate n p) (round_dbl (100 / 722500))"
proof -
  obtain y where p: "p = Fin y" "0 \<le> y" "y \<le> 100" using assms(1,2) by (cases p) (auto simp: dle_def)
  have low: "dle (Fin 0) (round_dbl (100 / 722500))"
    using dle_round [of 0 "100 / 722500"] by simp
  have "(850::rat) ^ 2 \<le> 850 ^ unat n" using assms(3) by (intro power_increasing) auto
  then have "dle (round_dbl 722500) (round_dbl (850 ^ unat n))" by (intro dle_round) simp
  then have "dle (Fin 722500) (round_dbl (850 ^ unat n))" by simp
  then show ?thesis
  proof (cases rule: dle_Fin_cases)
    case (1 d)
    have "0 \<le> y / d" "y / d \<le> 100 / 722500" using 1 p frac_le [of 100 y 722500 d] by simp_all
    then have "dle (round_dbl 0) (round_dbl (y / d))" "dle (round_dbl (y / d)) (round_dbl (100 / 722500))"
      by (simp_all only: dle_round)
    then show ?thesis using 1 p by (simp add: attenuate_def K_DEFAULT_ATTENUATION_FCTR_def dbl_val_def)
  next
    case 2
    then show ?thesis using p low by (simp add: attenuate_def K_DEFAULT_ATTENUATION_FCTR_def dbl_val_def)
  qed
qed

section \<open>All the weights\<close>

lemma calculateAllWeights_phases:
  assumes "\<And>h r. h \<in> set (rc_resultHolderList c) \<Longrightarrow> r \<in> set (rh_resultList h) \<Longrightarrow>
    \<exists>r'. score_result tkz parse r = Inr r'"
  shows "calculateAllWeights tkz parse c =
    bindE (each_holder (each_result (score_result tkz parse)) c) (ResultCombination_calculateCombinedWeights tkz parse)"
proof -
  let ?D = "\<lambda>r. bindE (displayXapianPercentages parse r) (\<lambda>_. Inr r)"
  let ?E = "\<lambda>r. bindE (?D r) (calculateEnvelopeWeights parse)"
  let ?C = "\<lambda>r. bindE (?E r) (calculateCodeMatches tkz parse)"
  let ?P = "\<lambda>r. bindE (?C r) (calculatePageRanks parse)"
  note ok = assms [unfolded score_result_def bindE_Inr_iff]
  have e: "bindE (each_holder (each_result ?D) c) (each_holder (each_result (calculateEnvelopeWeights parse))) =
      each_holder (each_result ?E) c"
    by (rule each_phases) (use ok in \<open>unfold bindE_Inr_iff, blast\<close>)
  have c: "bindE (each_holder (each_result ?E) c) (each_holder (each_result (calculateCodeMatches tkz parse))) =
      each_holder (each_result ?C) c"
    by (rule each_phases) (use ok in \<open>unfold bindE_Inr_iff, blast\<close>)
  have p: "bindE (each_holder (each_result ?C) c) (each_holder (each_result (calculatePageRanks parse))) =
      each_holder (each_result ?P) c"
    by (rule each_phases) (use ok in \<open>unfold bindE_Inr_iff, blast\<close>)
  have h: "bindE (each_holder (each_result ?P) c)
      (each_holder (each_result (\<lambda>r. Inr (calculateHeuristicWeights r)))) =
      each_holder (each_result (score_result tkz parse)) c"
    unfolding score_result_def by (rule each_phases) (use ok in \<open>unfold bindE_Inr_iff, blast\<close>)
  show ?thesis
    unfolding calculateAllWeights_def ResultCombination_displayXapianPercentages_def
      ResultHolder_displayXapianPercentages_def ResultCombination_calculateEnvelopeWeights_def
      ResultHolder_calculateEnvelopeWeights_def ResultCombination_calculateCodeMatches_def
      ResultHolder_calculateCodeMatches_def ResultCombination_calculatePageRanks_def
      ResultHolder_calculatePageRanks_def ResultCombination_calculateHeuristicWeights_def
      ResultHolder_calculateHeuristicWeights_def h [symmetric] p [symmetric] c [symmetric] e [symmetric]
    by (simp only: bindE_assoc)
qed

text \<open>What becomes of one result, and of one holder.\<close>

definition weighed_result :: "tokeniser \<Rightarrow> Result \<Rightarrow> Result \<Rightarrow> bool" where
  "weighed_result tkz r r' \<longleftrightarrow> same_match r r' \<and>
     (\<exists>w. rs_bestCombinedWeight r' = Some w \<and>
       (if rs_hasFullTextMatched r then dle (Fin (twopow (- 642))) w \<and> rs_bestDocData r' \<in> xd_data ` fst ` set (rs_documentList r)
        else w = unmatched_weight tkz (rs_queryString r)))"

definition weighed_holder :: "tokeniser \<Rightarrow> ResultHolder \<Rightarrow> ResultHolder \<Rightarrow> bool" where
  "weighed_holder tkz h h' \<longleftrightarrow> rh_queryString h' = rh_queryString h \<and>
     list_all2 (weighed_result tkz) (rh_resultList h) (rh_resultList h') \<and>
     rh_combinedWeight h' = Some (holder_weight (map (\<lambda>r. the (rs_bestCombinedWeight r)) (rh_resultList h')))"

text \<open>A holder of one matched result weighs something.\<close>

lemma weighed_single:
  assumes "weighed_holder tkz h h'" and "rh_resultList h = [r]" and "rs_hasFullTextMatched r"
  shows "dgt (the (rh_combinedWeight h')) (Fin 0)"
proof -
  obtain r' where r': "rh_resultList h' = [r']" "weighed_result tkz r r'"
    using assms(1,2) by (auto simp: weighed_holder_def list_all2_Cons1)
  then obtain w where w: "rs_bestCombinedWeight r' = Some w" "dle (Fin (twopow (- 642))) w"
    using assms(3) by (auto simp: weighed_result_def)
  have "dle (Fin (twopow (- 642 - 7))) (ddiv_const w 100)" by (rule dle_twopow_div [OF w(2)]) simp_all
  moreover have "dle (Fin (twopow 6)) (Fin 100)" by (simp add: twopow_def)
  ultimately have "dle (Fin (twopow (6 + (- 642 - 7)))) (dmul (Fin 100) (ddiv_const w 100))"
    by (intro dle_twopow_mul) simp_all
  moreover have "rh_combinedWeight h' = Some (dmul (Fin 100) (ddiv_const w 100))"
    using assms(1) r'(1) w(1) by (simp add: weighed_holder_def holder_weight_def)
  ultimately show ?thesis using twopow_dgt by simp
qed

lemma weighed_holder_ex:
  assumes "\<And>r. r \<in> set (rh_resultList h) \<Longrightarrow> \<exists>r1 r'. score_result tkz parse r = Inr r1 \<and>
    Result_calculateCombinedWeights tkz parse r1 = Inr r' \<and> weighed_result tkz r r'"
  shows "\<exists>h1 h'. each_result (score_result tkz parse) h = Inr h1 \<and>
    ResultHolder_calculateCombinedWeights tkz parse h1 = Inr h' \<and> weighed_holder tkz h h'"
proof -
  obtain f g where fg: "\<And>r. r \<in> set (rh_resultList h) \<Longrightarrow> score_result tkz parse r = Inr (f r) \<and>
      Result_calculateCombinedWeights tkz parse (f r) = Inr (g r) \<and> weighed_result tkz r (g r)"
    using assms by metis
  let ?rs = "rh_resultList h"
  let ?h1 = "h\<lparr>rh_resultList := map f ?rs\<rparr>"
  let ?rws = "map (\<lambda>r. (g r, the (rs_bestCombinedWeight (g r)))) ?rs"
  have "mapE (score_result tkz parse) ?rs = Inr (map f ?rs)" by (rule mapE_total) (use fg in blast)
  then have h1: "each_result (score_result tkz parse) h = Inr ?h1" by (simp add: each_result_def)
  have "list_all2 (\<lambda>r (r', w). Result_calculateCombinedWeights tkz parse r = Inr r' \<and>
      rs_bestCombinedWeight r' = Some w) (rh_resultList ?h1) ?rws"
  proof -
    have "rs_bestCombinedWeight (g r) = Some (the (rs_bestCombinedWeight (g r)))" if "r \<in> set ?rs" for r
      using fg [OF that] by (auto simp: weighed_result_def)
    then show ?thesis using fg by (auto simp: list.rel_map intro!: list_all2_same [THEN iffD2])
  qed
  from holder_combined [OF this]
  have h': "ResultHolder_calculateCombinedWeights tkz parse ?h1 = Inr (h\<lparr>rh_resultList := map g ?rs,
      rh_combinedWeight := Some (holder_weight (map (\<lambda>r. the (rs_bestCombinedWeight (g r))) ?rs))\<rparr>)"
    by (simp add: comp_def)
  show ?thesis
    by (rule exI, rule exI, intro conjI, rule h1, rule h')
      (use fg in \<open>auto simp: weighed_holder_def list.rel_map comp_def intro!: list_all2_same [THEN iffD2]\<close>)
qed

lemma weights_return:
  assumes "\<And>h r. h \<in> set (rc_resultHolderList c) \<Longrightarrow> r \<in> set (rh_resultList h) \<Longrightarrow>
      \<exists>q s. fullTextMatch db q (new_Result q) = Inr (s, r)"
    and "\<And>h r d. h \<in> set (rc_resultHolderList c) \<Longrightarrow> r \<in> set (rh_resultList h) \<Longrightarrow>
      d \<in> fst ` set (rs_documentList r) \<Longrightarrow> parse (xd_data d) = Inr (loc d) \<and> ranked_location (loc d)"
    and "positive_percentages db"
  shows "\<exists>c'. calculateAllWeights tkz parse c = Inr c' \<and> rc_travelQuery c' = rc_travelQuery c \<and>
    rc_bestMatching c' = rc_bestMatching c \<and>
    list_all2 (weighed_holder tkz) (rc_resultHolderList c) (rc_resultHolderList c')"
proof -
  have weighed: "\<exists>r1 r'. score_result tkz parse r = Inr r1 \<and> Result_calculateCombinedWeights tkz parse r1 = Inr r' \<and>
      weighed_result tkz r r'" if sel: "h \<in> set (rc_resultHolderList c)" "r \<in> set (rh_resultList h)" for h r
  proof -
    obtain q s where q: "fullTextMatch db q (new_Result q) = Inr (s, r)" using assms(1) [OF sel] by blast
    show ?thesis
      using scored_result [where parse=parse and loc=loc and tkz=tkz, OF q assms(3) assms(2) [OF sel]] fullTextMatch_ok [OF q]
      unfolding weighed_result_def by metis
  qed
  have "\<exists>h1 h'. each_result (score_result tkz parse) h = Inr h1 \<and>
      ResultHolder_calculateCombinedWeights tkz parse h1 = Inr h' \<and> weighed_holder tkz h h'"
    if "h \<in> set (rc_resultHolderList c)" for h
    by (rule weighed_holder_ex) (rule weighed [OF that])
  then obtain f g where fg: "\<And>h. h \<in> set (rc_resultHolderList c) \<Longrightarrow> each_result (score_result tkz parse) h = Inr (f h) \<and>
      ResultHolder_calculateCombinedWeights tkz parse (f h) = Inr (g h) \<and> weighed_holder tkz h (g h)"
    by metis
  have all: "calculateAllWeights tkz parse c =
      bindE (each_holder (each_result (score_result tkz parse)) c) (ResultCombination_calculateCombinedWeights tkz parse)"
    by (rule calculateAllWeights_phases) (use weighed in blast)
  have "mapE (each_result (score_result tkz parse)) (rc_resultHolderList c) = Inr (map f (rc_resultHolderList c))"
    by (rule mapE_total) (use fg in blast)
  moreover have "mapE (ResultHolder_calculateCombinedWeights tkz parse) (map f (rc_resultHolderList c)) =
      Inr (map g (rc_resultHolderList c))"
    unfolding mapE_Inr_iff using fg by (auto simp: list.rel_map intro!: list_all2_same [THEN iffD2])
  ultimately have "calculateAllWeights tkz parse c = Inr (c\<lparr>rc_resultHolderList := map g (rc_resultHolderList c)\<rparr>)"
    unfolding all by (simp add: each_holder_def ResultCombination_calculateCombinedWeights_def)
  then show ?thesis using fg
    by (auto simp: list.rel_map intro!: list_all2_same [THEN iffD2])
qed

section \<open>Properties\<close>

text \<open>C20: When every document has a record that parses and a page rank of at least \<open>2 ^ (- 100)\<close>, computing all
  the weights of a combination of matched results returns: every holder gets the product of the weights of its
  results, every matched result a weight of at least \<open>2 ^ (- 642)\<close> and the data of one of its documents, and every other
  result the weight of an unmatched phrase.\<close>

theorem all_weights_return:
  assumes "\<And>h r. h \<in> set (rc_resultHolderList c) \<Longrightarrow> r \<in> set (rh_resultList h) \<Longrightarrow>
      \<exists>q s. fullTextMatch db q (new_Result q) = Inr (s, r)"
    and "\<And>h r d. h \<in> set (rc_resultHolderList c) \<Longrightarrow> r \<in> set (rh_resultList h) \<Longrightarrow>
      d \<in> fst ` set (rs_documentList r) \<Longrightarrow> parse (xd_data d) = Inr (loc d) \<and> ranked_location (loc d)"
    and "positive_percentages db"
  shows "\<exists>c'. calculateAllWeights tkz parse c = Inr c' \<and> rc_travelQuery c' = rc_travelQuery c \<and>
    rc_bestMatching c' = rc_bestMatching c \<and>
    list_all2 (weighed_holder tkz) (rc_resultHolderList c) (rc_resultHolderList c')"
  using assms by (rule weights_return)

text \<open>A combination of one holder with one result, for the examples.\<close>

definition paris_holder :: ResultHolder where
  "paris_holder = (new_ResultHolder ''paris'')\<lparr>rh_resultList := [paris_result]\<rparr>"

definition paris_combination :: ResultCombination where
  "paris_combination = (new_ResultCombination ''paris'')\<lparr>rc_resultHolderList := [paris_holder]\<rparr>"

theorem all_weights_return_witness:
  "\<exists>c'. calculateAllWeights split_tokens paris_parse paris_combination = Inr c' \<and> rc_travelQuery c' = ''paris'' \<and>
    rc_bestMatching c' = None \<and> list_all2 (weighed_holder split_tokens) [paris_holder] (rc_resultHolderList c')"
proof -
  have l: "rc_resultHolderList paris_combination = [paris_holder]" "rh_resultList paris_holder = [paris_result]"
    "rc_travelQuery paris_combination = ''paris''" "rc_bestMatching paris_combination = None"
    by (simp_all add: paris_combination_def paris_holder_def new_ResultCombination_def)
  have "twopow (- 100) \<le> 3602879701896397 / 36028797018963968" by (simp add: twopow_def)
  then have rank: "ranked_location (new_Location\<lparr>loc_key := k\<rparr>)" for k
    by (simp add: ranked_location_def new_Location_def page_rank_value)
  have pos: "positive_percentages paris_db"
    by (auto simp: positive_percentages_def paris_db_def paris_docs_def)
  have "\<exists>c'. calculateAllWeights split_tokens paris_parse paris_combination = Inr c' \<and>
      rc_travelQuery c' = rc_travelQuery paris_combination \<and> rc_bestMatching c' = rc_bestMatching paris_combination \<and>
      list_all2 (weighed_holder split_tokens) (rc_resultHolderList paris_combination) (rc_resultHolderList c')"
  proof (rule all_weights_return [OF _ _ pos])
    fix h r d
    assume h: "h \<in> set (rc_resultHolderList paris_combination)" "r \<in> set (rh_resultList h)"
    then have r: "r = paris_result" by (simp add: l)
    show "\<exists>q s. fullTextMatch paris_db q (new_Result q) = Inr (s, r)" unfolding r using paris_matched by blast
    show "d \<in> fst ` set (rs_documentList r) \<Longrightarrow> paris_parse (xd_data d) =
        Inr (new_Location\<lparr>loc_key := new_LocationKey (xd_data d) CITY 0\<rparr>) \<and>
      ranked_location (new_Location\<lparr>loc_key := new_LocationKey (xd_data d) CITY 0\<rparr>)"
      using rank by (simp add: paris_parse_def)
  qed
  then show ?thesis by (simp add: l)
qed

text \<open>C37: The weight of a holder whose results weigh at most 100 per cent. It is 0 without a result. Otherwise it is 100 multiplied,
  result after result, by their weights as parts of one, every product and division rounded; and for \<open>n\<close> results, two or more, this
  divided by the rounded \<open>n\<close>-th power of 850, or 0 where that power is too large for a double. So it is at most \<open>100 / 850\<^sup>2\<close> with
  two results or more, however many: a query that matches as a whole beats every way of cutting it unless it weighs less than that.\<close>

theorem holder_weight_bounds:
  assumes "mapE (Result_calculateCombinedWeights tkz parse) (rh_resultList h) = Inr rs"
    and "map rs_bestCombinedWeight rs = map (Some \<circ> Fin) ws" and "list_all (\<lambda>w. 0 \<le> w \<and> w \<le> 100) ws"
    and "length ws \<le> 65535"
  shows "\<exists>h' w. ResultHolder_calculateCombinedWeights tkz parse h = Inr h' \<and> rh_resultList h' = rs \<and>
    rh_combinedWeight h' = Some w \<and> dle (Fin 0) w \<and>
    (let product = fold (\<lambda>v p. dmul p (round_dbl (v / 100))) ws (Fin 100); n = length ws
     in w = (if n = 0 then Fin 0 else if n = 1 then product
       else case round_dbl (850 ^ n) of Fin d \<Rightarrow> ddiv_const product d | _ \<Rightarrow> Fin 0)) \<and>
    (2 \<le> length ws \<longrightarrow> dle w (round_dbl (100 / 722500)))"
proof -
  have len: "length (rh_resultList h) = length rs" "length rs = length ws"
    using assms(1) assms(2) [THEN arg_cong, of length] by (auto simp: mapE_Inr_iff dest: list_all2_lengthD)
  have bw: "rs_bestCombinedWeight (rs ! i) = Some (Fin (ws ! i))" if "i < length rs" for i
    using assms(2) [THEN arg_cong, of "\<lambda>xs. xs ! i"] that len by simp
  have "list_all2 (\<lambda>r (r', w). Result_calculateCombinedWeights tkz parse r = Inr r' \<and>
      rs_bestCombinedWeight r' = Some w) (rh_resultList h) (zip rs (map Fin ws))"
    using assms(1) bw len by (auto simp: mapE_Inr_iff list_all2_conv_all_nth)
  from holder_combined [OF this] len
  have h: "ResultHolder_calculateCombinedWeights tkz parse h =
      Inr (h\<lparr>rh_resultList := rs, rh_combinedWeight := Some (holder_weight (map Fin ws))\<rparr>)" by simp
  let ?p = "fold (\<lambda>w p. dmul p (ddiv_const w 100)) (map Fin ws) (Fin 100)"
  have p: "dle (Fin 0) ?p \<and> dle ?p (Fin 100)"
    by (rule fold_weight_le) (use assms(3) in \<open>auto simp: list_all_iff\<close>)
  then obtain y where y: "?p = Fin y" by (cases ?p) (auto simp: dle_def)
  have product: "fold (\<lambda>v p. dmul p (round_dbl (v / 100))) ws (Fin 100) = ?p" by (simp add: fold_map comp_def)
  have n: "unat (word_of_nat (length ws) :: 16 word) = length ws" using assms(4) by (rule unat_of_nat_small)
  have gt: "(word_of_nat (length ws) :: 16 word) > 1 \<longleftrightarrow> length ws > 1"
    by (simp add: word_less_nat_alt n)
  let ?w = "holder_weight (map Fin ws)"
  have "?w = (if length ws = 0 then Fin 0 else if length ws = 1 then ?p
      else case round_dbl (850 ^ length ws) of Fin d \<Rightarrow> ddiv_const ?p d | _ \<Rightarrow> Fin 0)"
    using y gt n by (cases ws rule: remdups_adj.cases)
      (auto simp: holder_weight_def attenuate_def K_DEFAULT_ATTENUATION_FCTR_def dbl_val_def split: dbl.split)
  moreover have "dle (Fin 0) ?w \<and> (2 \<le> length ws \<longrightarrow> dle ?w (round_dbl (100 / 722500)))"
  proof (cases ws rule: remdups_adj.cases)
    case (3 v v' vs)
    then have "?w = attenuate (word_of_nat (length ws)) ?p"
      unfolding holder_weight_def Let_def length_map using gt by simp
    then show ?thesis using attenuate_le [of ?p "word_of_nat (length ws)"] p n 3 by simp
  qed (use p in \<open>simp_all add: holder_weight_def\<close>)
  ultimately show ?thesis using h unfolding product Let_def by simp
qed

text \<open>Two unknown words, for the examples.\<close>

lemma unknown_words:
  "Result_calculateCombinedWeights split_tokens paris_parse (new_Result q) =
     Inr (new_Result q\<lparr>rs_bestDocID := Some 0, rs_bestCombinedWeight := Some (Fin 100)\<rparr>)"
  if "q = ''xqzt'' \<or> q = ''wkvy''"
proof -
  have "split_tokens AllSepatorList q = [q]" "shouldKeep [] q"
    using that by (auto simp: AllSepatorList_def shouldKeep_def hasGoodSize_def isBlackListed_def K_BLACK_LIST_def)
  then have "unmatched_weight split_tokens q = Fin 100" by (simp add: unmatched_weight_def Let_def)
  then show ?thesis unfolding result_combined by (simp add: new_Result_def)
qed

theorem holder_weight_bounds_witness:
  "\<exists>h'. ResultHolder_calculateCombinedWeights split_tokens paris_parse
      ((new_ResultHolder ''xqzt wkvy'')\<lparr>rh_resultList := [new_Result ''xqzt'', new_Result ''wkvy'']\<rparr>) = Inr h' \<and>
    rh_combinedWeight h' = Some (round_dbl (100 / 722500))"
  using holder_weight_bounds [of split_tokens paris_parse
      "(new_ResultHolder ''xqzt wkvy'')\<lparr>rh_resultList := [new_Result ''xqzt'', new_Result ''wkvy'']\<rparr>" _ "[100, 100]"]
  by (simp add: unknown_words) blast

lemma fold_snoc_map: "fold (\<lambda>x ys. ys @ [f x]) xs zs = zs @ map f xs"
  by (induction xs arbitrary: zs) simp_all

text \<open>The choice is the scan of the weights, by position.\<close>

lemma choose_eq:
  assumes "map rh_combinedWeight (rc_resultHolderList c) = map Some ws"
  shows "chooseBestMatchingResultHolder c =
    (let b = fst (scan_best dgt (enumerate 0 ws) (rc_bestMatching c, Fin 0))
     in Inr (b \<noteq> None, c\<lparr>rc_bestMatching := b\<rparr>))"
proof -
  let ?hs = "rc_resultHolderList c"
  have len: "length ws = length ?hs" using assms [THEN arg_cong, of length] by simp
  have w: "rh_combinedWeight (?hs ! i) = Some (ws ! i)" if "i < length ?hs" for i
    using assms [THEN arg_cong, of "\<lambda>xs. xs ! i"] that len by simp
  have "list_all2 (\<lambda>(i, h) y. bindE (read_set (rh_combinedWeight h)) (\<lambda>v. Inr (i, v)) = Inr y)
      (enumerate 0 ?hs) (enumerate 0 ws)"
    using len w by (auto simp: list_all2_conv_all_nth nth_enumerate_eq)
  then have "mapE (\<lambda>(i, h). bindE (read_set (rh_combinedWeight h)) (\<lambda>v. Inr (i, v))) (enumerate 0 ?hs) =
      Inr (enumerate 0 ws)"
    by (simp add: mapE_Inr_iff case_prod_beta')
  then show ?thesis by (simp add: chooseBestMatchingResultHolder_def case_prod_beta' Let_def)
qed

text \<open>C8: The best holder is the first of those with the greatest weight, when some weight is positive. Otherwise
  none is chosen, and asking for the best one throws, with the query in the message.\<close>

theorem best_holder:
  assumes "rc_bestMatching c = None" and "map rh_combinedWeight (rc_resultHolderList c) = map Some ws"
  shows "\<exists>c'. chooseBestMatchingResultHolder c = Inr (\<exists>w \<in> set ws. dgt w (Fin 0), c') \<and>
    rc_resultHolderList c' = rc_resultHolderList c \<and>
    (if \<exists>w \<in> set ws. dgt w (Fin 0)
     then \<exists>us h vs w. rc_resultHolderList c = us @ h # vs \<and> getBestMatchingResultHolder c' = Inr h \<and>
       getBestMatchingWeight c' = Inr w \<and> (\<forall>v \<in> set ws. \<not> dgt v w) \<and>
       (\<forall>g \<in> set us. rh_combinedWeight g \<noteq> Some w) \<and>
       getCorrectedStringSet c' = Inr (map rs_correctedQueryString (rh_resultList h))
     else getBestMatchingResultHolder c' = Inl (NoBestMatchingResultHolderException
       (''There is no best matching ResultHolder object for the given query string: '' @
        [CHR 0x27] @ rc_travelQuery c @ [CHR 0x27])))"
proof -
  let ?hs = "rc_resultHolderList c"
  let ?ws = "enumerate 0 ws"
  obtain b n where scan: "scan_best dgt ?ws (None, Fin 0) = (b, n)" by fastforce
  note max = dbl_max.scan_best_cases [OF scan]
  let ?c = "c\<lparr>rc_bestMatching := b\<rparr>"
  have len: "length ws = length ?hs" using assms(2) [THEN arg_cong, of length] by simp
  have w: "rh_combinedWeight (?hs ! i) = Some (ws ! i)" if "i < length ?hs" for i
    using assms(2) [THEN arg_cong, of "\<lambda>xs. xs ! i"] that len by simp
  have choose: "chooseBestMatchingResultHolder c = Inr (b \<noteq> None, ?c)"
    by (simp add: choose_eq [OF assms(2)] assms(1) scan)
  have "set ws = snd ` set ?ws" by (simp flip: set_map)
  then have in_ws: "v \<in> set ws \<longleftrightarrow> (\<exists>i. (i, v) \<in> set ?ws)" for v by force
  have le: "\<forall>v \<in> set ws. \<not> dgt v n" using max in_ws by fastforce
  show ?thesis
  proof (cases "\<exists>w \<in> set ws. dgt w (Fin 0)")
    case False
    then have "\<forall>(i, w) \<in> set ?ws. \<not> dgt w (Fin 0)" using in_ws by blast
    then have "b = None" using scan dbl_max.scan_best_none [of ?ws "Fin 0" None] by simp
    then show ?thesis using choose False by (auto simp: getBestMatchingResultHolder_def)
  next
    case True
    then have "\<not> (b = None \<and> n = Fin 0)" using le by auto
    with max obtain ys i zs where split: "?ws = ys @ (i, n) # zs" "b = Some i" and first: "\<forall>(y, v) \<in> set ys. v \<noteq> n"
      by auto
    have k: "length ys < length ws" using split(1) [THEN arg_cong, of length] by simp
    have "?ws ! length ys = (i, n)" by (simp add: split(1))
    then have i: "i = length ys" "n = ws ! i" using k by (auto simp: nth_enumerate_eq)
    have early: "rh_combinedWeight g \<noteq> Some n" if g: "g \<in> set (take i ?hs)" for g
    proof -
      obtain j where j: "j < i" "g = ?hs ! j" using g by (auto simp: in_set_conv_nth)
      then have "?ws ! j \<in> set ys" using i(1) by (simp add: split(1) nth_append)
      then have "ws ! j \<noteq> n" using first j(1) i(1) k by (auto simp: nth_enumerate_eq)
      then show ?thesis using w [of j] j i(1) k len by simp
    qed
    have ih: "i < length ?hs" using i(1) k len by simp
    then have best: "getBestMatchingResultHolder ?c = Inr (?hs ! i)"
      by (simp add: getBestMatchingResultHolder_def split(2))
    then have weight: "getBestMatchingWeight ?c = Inr n" using w [OF ih] i(2) by (simp add: getBestMatchingWeight_def)
    have corrected: "getCorrectedStringSet ?c = Inr (map rs_correctedQueryString (rh_resultList (?hs ! i)))"
      unfolding getCorrectedStringSet_def best
      by (simp add: ResultHolder_getCorrectedStringSet_def StringSet_push_back_def fold_snoc_map)
    have "?hs = take i ?hs @ ?hs ! i # drop (Suc i) ?hs" using ih by (rule id_take_nth_drop)
    then have "\<exists>us h vs w. ?hs = us @ h # vs \<and> getBestMatchingResultHolder ?c = Inr h \<and>
        getBestMatchingWeight ?c = Inr w \<and> (\<forall>v \<in> set ws. \<not> dgt v w) \<and>
        (\<forall>g \<in> set us. rh_combinedWeight g \<noteq> Some w) \<and>
        getCorrectedStringSet ?c = Inr (map rs_correctedQueryString (rh_resultList h))"
      using best weight corrected early le by blast
    then show ?thesis using choose True split(2) by (intro exI [of _ ?c]) simp
  qed
qed

theorem best_holder_witness:
  "\<exists>c' h. chooseBestMatchingResultHolder ((new_ResultCombination ''san francisco'')\<lparr>rc_resultHolderList :=
      [(new_ResultHolder ''san francisco'')\<lparr>rh_combinedWeight := Some (Fin 20)\<rparr>,
       (new_ResultHolder ''san,francisco'')\<lparr>rh_combinedWeight := Some (Fin 64)\<rparr>]\<rparr>) = Inr (True, c') \<and>
    getBestMatchingResultHolder c' = Inr h \<and> rh_queryString h = ''san,francisco''"
proof -
  let ?h1 = "(new_ResultHolder ''san francisco'')\<lparr>rh_combinedWeight := Some (Fin 20)\<rparr>"
  let ?h2 = "(new_ResultHolder ''san,francisco'')\<lparr>rh_combinedWeight := Some (Fin 64)\<rparr>"
  let ?c = "(new_ResultCombination ''san francisco'')\<lparr>rc_resultHolderList := [?h1, ?h2]\<rparr>"
  have "rc_bestMatching ?c = None" "map rh_combinedWeight (rc_resultHolderList ?c) = map Some [Fin 20, Fin 64]"
    by (simp_all add: new_ResultCombination_def)
  from best_holder [OF this] obtain c' us h vs w where c': "chooseBestMatchingResultHolder ?c = Inr (True, c')"
    "rc_resultHolderList ?c = us @ h # vs" "getBestMatchingResultHolder c' = Inr h" "getBestMatchingWeight c' = Inr w"
    "\<not> dgt (Fin 64) w" "rc_resultHolderList c' = rc_resultHolderList ?c"
    by auto
  have "rh_combinedWeight h = Some w"
    using c'(3,4) by (cases "rh_combinedWeight h") (auto simp: getBestMatchingWeight_def)
  moreover have "h = ?h1 \<or> h = ?h2" using c'(2) by (auto simp: Cons_eq_append_conv)
  ultimately have "h = ?h2" using c'(5) by auto
  then have "rh_queryString h = ''san,francisco''" by (simp add: new_ResultHolder_def)
  then show ?thesis using c'(1,3) by blast
qed

end
