(* ===== verification/Database.thy ===== *)
theory Database
  imports Results Index_Terms
begin

text \<open>
  The SQL database of the POR (\<^verbatim>\<open>command/DBManager.cpp\<close>). The SOCI library, the SQL server and the
  file system are parameters: \<open>sq_select\<close> is what a select statement delivers, either the message of the exception
  that its preparation or its execution throws, or the rows that the fetches return and the message of the exception
  that the fetch after them throws, if it does; an insertion, \<open>insert_row\<close>, gives the message of an exception or the new state of
  the database. Nothing is assumed of them here: what a table promises is the interface \<open>por_table\<close> of the theory PorTable.
  The message of an exception of the development is the parameter \<open>what\<close>. The filling of the table writes its progress on the
  screen: its model is a text and an outcome.
\<close>

section \<open>Sessions\<close>

datatype por_query =
    Every_por
  | Iata_code string
  | Icao_code string
  | Faa_code string
  | Geoname_id int

type_synonym cursor = "string list \<times> string option"

record sql_session =
  sq_select :: "por_query \<Rightarrow> string + cursor"

record sql_server =
  sv_is_directory :: "string \<Rightarrow> bool"
  sv_parent_path :: "string \<Rightarrow> string"
  sv_show_path :: "string \<Rightarrow> string"
  sv_open :: "EN_DBType \<Rightarrow> string \<Rightarrow> string + sql_session"

text \<open>A \<^verbatim>\<open>catch (std::exception const&)\<close> clause: a failed assertion is not an exception.\<close>

definition is_std_exception :: "trep_error \<Rightarrow> bool" where
  "is_std_exception e \<longleftrightarrow> e \<noteq> AssertionFailure \<and> e \<noteq> UndefinedBehaviour \<and> e \<noteq> NonTermination"

definition catch_std :: "(trep_error \<Rightarrow> string) \<Rightarrow> (string \<Rightarrow> string) \<Rightarrow> 'a outcome \<Rightarrow> 'a outcome" where
  "catch_std what message m =
     (case m of Inr x \<Rightarrow> Inr x
      | Inl e \<Rightarrow> if is_std_exception e then Inl (SQLDatabaseException (message (what e))) else Inl e)"

definition initSQLDBSession :: "sql_server \<Rightarrow> EN_DBType \<Rightarrow> string \<Rightarrow> sql_session option outcome" where
  "initSQLDBSession server iDBType iSQLDBConnStr =
     (if iDBType = SQLITE3 then
        let lSQLiteDBParentPath = sv_parent_path server iSQLDBConnStr
        in if \<not> sv_is_directory server lSQLiteDBParentPath then
             Inl (FileNotFoundException
               (''Error. The path to the SQLite3 database directory ('' @ [CHR 0x27] @
                sv_show_path server lSQLiteDBParentPath @ [CHR 0x27] @ '') does not exist or is not a directory.''))
           else (case sv_open server SQLITE3 iSQLDBConnStr of
               Inl lException \<Rightarrow> Inl (SQLDatabaseImpossibleConnectionException
                 (''Error when trying to connect to the '' @ [CHR 0x27] @ iSQLDBConnStr @ [CHR 0x27] @
                  '' SQLite3 database: '' @ lException))
             | Inr s \<Rightarrow> Inr (Some s))
      else if iDBType = MYSQL then
        (case sv_open server MYSQL iSQLDBConnStr of
            Inl lException \<Rightarrow> Inl (SQLDatabaseImpossibleConnectionException
              (''Error when trying to connect to the '' @ [CHR 0x27] @ iSQLDBConnStr @ [CHR 0x27] @
               '' MySQL/MariaDB database: '' @ lException))
          | Inr s \<Rightarrow> Inr (Some s))
      else if iDBType = NODB then Inr None
      else bindE (DBType_getLabel iDBType) (\<lambda>lLabel.
        Inl (SQLDatabaseTableCreationException
          (''Error: the '' @ [CHR 0x27] @ lLabel @ [CHR 0x27] @ '' SQL database type is not supported''))))"

section \<open>Select statements\<close>

definition prepare :: "sql_session \<Rightarrow> por_query \<Rightarrow> cursor outcome" where
  "prepare session query =
     (case sq_select session query of
        Inl lException \<Rightarrow> Inl (SQLDatabaseException
          (''Error in the '' @ [CHR 0x27] @ ''select serialised_place from ori_por'' @ [CHR 0x27] @
           '' SQL request: '' @ lException))
      | Inr lSelectStatement \<Rightarrow> Inr lSelectStatement)"

definition prepareSelectAllBlobStatement :: "sql_session \<Rightarrow> cursor outcome" where
  "prepareSelectAllBlobStatement session = prepare session Every_por"

definition prepareSelectBlobOnIataCodeStatement :: "sql_session \<Rightarrow> string \<Rightarrow> cursor outcome" where
  "prepareSelectBlobOnIataCodeStatement session iIataCode = prepare session (Iata_code (map toupper iIataCode))"

definition prepareSelectBlobOnIcaoCodeStatement :: "sql_session \<Rightarrow> string \<Rightarrow> cursor outcome" where
  "prepareSelectBlobOnIcaoCodeStatement session iIcaoCode = prepare session (Icao_code (map toupper iIcaoCode))"

definition prepareSelectBlobOnFaaCodeStatement :: "sql_session \<Rightarrow> string \<Rightarrow> cursor outcome" where
  "prepareSelectBlobOnFaaCodeStatement session iFaaCode = prepare session (Faa_code (map toupper iFaaCode))"

definition prepareSelectBlobOnPlaceGeoIDStatement :: "sql_session \<Rightarrow> int \<Rightarrow> cursor outcome" where
  "prepareSelectBlobOnPlaceGeoIDStatement session iGeonameID = prepare session (Geoname_id iGeonameID)"

text \<open>The next row and the cursor after it, or nothing when there is no more data.\<close>

fun iterateOnStatement :: "cursor \<Rightarrow> string \<Rightarrow> (string \<times> cursor) option outcome" where
  "iterateOnStatement (row # rows, failure) iSerialisedPlaceStr = Inr (Some (row, rows, failure))"
| "iterateOnStatement ([], None) iSerialisedPlaceStr = Inr None"
| "iterateOnStatement ([], Some lException) iSerialisedPlaceStr =
     Inl (SQLDatabaseException (''Error when iterating on the SQL fetch: '' @ lException @
       ''. The current place is: '' @ iSerialisedPlaceStr))"

text \<open>The loop of the \<^verbatim>\<open>getPORBy\<close> methods: each row is parsed and added to the list.\<close>

function fetch_locations ::
    "(string \<Rightarrow> Location outcome) \<Rightarrow> string \<Rightarrow> cursor \<Rightarrow> string \<Rightarrow> 32 word \<Rightarrow> Location list \<Rightarrow>
     (32 word \<times> Location list) outcome" where
  "fetch_locations parse keywords statement lPlaceRawDataString oNbOfEntries locations =
     (case iterateOnStatement statement lPlaceRawDataString of
        Inl e \<Rightarrow> Inl e
      | Inr None \<Rightarrow> Inr (oNbOfEntries, locations)
      | Inr (Some (lPlaceRawDataString, statement)) \<Rightarrow>
          bindE (parse lPlaceRawDataString) (\<lambda>lLocation.
            fetch_locations parse keywords statement lPlaceRawDataString (oNbOfEntries + 1)
              (locations @ [lLocation\<lparr>loc_correctedKeywords := keywords\<rparr>])))"
  by pat_completeness auto
termination
  by (relation "measure (\<lambda>(_, _, statement, _, _, _). length (fst statement))")
    (auto elim!: iterateOnStatement.elims)

declare fetch_locations.simps [simp del]

text \<open>\<open>getPORBy\<close> stands for the shape that the four methods share, around their own statement and message.\<close>

definition getPORBy ::
    "(trep_error \<Rightarrow> string) \<Rightarrow> (string \<Rightarrow> Location outcome) \<Rightarrow> string \<Rightarrow> cursor outcome \<Rightarrow> Location list \<Rightarrow>
     (32 word \<times> Location list) outcome" where
  "getPORBy what parse keywords lSelectStatement locations =
     catch_std what (\<lambda>lException. ''Error when trying to retrieve a POR for '' @ keywords @
       '' from the SQL database: '' @ lException)
       (bindE lSelectStatement (\<lambda>lSelectStatement. fetch_locations parse keywords lSelectStatement [] 0 locations))"

definition getPORByIATACode ::
    "(trep_error \<Rightarrow> string) \<Rightarrow> (string \<Rightarrow> Location outcome) \<Rightarrow> sql_session \<Rightarrow> string \<Rightarrow> Location list \<Rightarrow> bool \<Rightarrow>
     (32 word \<times> Location list) outcome" where
  "getPORByIATACode what parse session iIataCode ioLocationList iUniqueEntry =
     bindE (getPORBy what parse iIataCode (prepareSelectBlobOnIataCodeStatement session iIataCode) [])
       (\<lambda>(oNbOfEntries, lLocationList).
          let (lHighestPRLocation_ptr, lHighestPRValue) =
                scan_best dgt (map (\<lambda>lLocation. (lLocation, loc_pageRank lLocation)) lLocationList) (None, Fin 0);
              ioLocationList = (if iUniqueEntry = False then ioLocationList @ lLocationList else ioLocationList);
              ioLocationList = (if iUniqueEntry = True then
                  (case lHighestPRLocation_ptr of Some lLocation \<Rightarrow> ioLocationList @ [lLocation] | None \<Rightarrow> ioLocationList)
                else ioLocationList)
          in Inr (oNbOfEntries, ioLocationList))"

definition getPORByICAOCode ::
    "(trep_error \<Rightarrow> string) \<Rightarrow> (string \<Rightarrow> Location outcome) \<Rightarrow> sql_session \<Rightarrow> string \<Rightarrow> Location list \<Rightarrow>
     (32 word \<times> Location list) outcome" where
  "getPORByICAOCode what parse session iIcaoCode ioLocationList =
     getPORBy what parse iIcaoCode (prepareSelectBlobOnIcaoCodeStatement session iIcaoCode) ioLocationList"

definition getPORByFAACode ::
    "(trep_error \<Rightarrow> string) \<Rightarrow> (string \<Rightarrow> Location outcome) \<Rightarrow> sql_session \<Rightarrow> string \<Rightarrow> Location list \<Rightarrow>
     (32 word \<times> Location list) outcome" where
  "getPORByFAACode what parse session iFaaCode ioLocationList =
     getPORBy what parse iFaaCode (prepareSelectBlobOnFaaCodeStatement session iFaaCode) ioLocationList"

definition getPORByGeonameID ::
    "(trep_error \<Rightarrow> string) \<Rightarrow> (string \<Rightarrow> Location outcome) \<Rightarrow> sql_session \<Rightarrow> int \<Rightarrow> Location list \<Rightarrow>
     (32 word \<times> Location list) outcome" where
  "getPORByGeonameID what parse session iGeonameID ioLocationList =
     getPORBy what parse (show_int iGeonameID) (prepareSelectBlobOnPlaceGeoIDStatement session iGeonameID)
       ioLocationList"

text \<open>
  The display of all the rows, which only counts them. The statement writes each row into the string that
  \<^verbatim>\<open>prepareSelectAllBlobStatement\<close> returns; the model takes it for the string of the caller, as when the compiler
  elides the copy.
\<close>

function count_rows :: "cursor \<Rightarrow> string \<Rightarrow> 32 word \<Rightarrow> 32 word \<times> trep_error option" where
  "count_rows statement lPlace oNbOfEntries =
     (case iterateOnStatement statement lPlace of
        Inl e \<Rightarrow> (oNbOfEntries, Some e)
      | Inr None \<Rightarrow> (oNbOfEntries, None)
      | Inr (Some (lPlace, statement)) \<Rightarrow> count_rows statement lPlace (oNbOfEntries + 1))"
  by pat_completeness auto
termination
  by (relation "measure (\<lambda>(statement, _, _). length (fst statement))")
    (auto elim!: iterateOnStatement.elims)

declare count_rows.simps [simp del]

definition displayAll :: "(trep_error \<Rightarrow> string) \<Rightarrow> sql_session \<Rightarrow> 32 word outcome" where
  "displayAll what session =
     (let (oNbOfEntries, failure) =
        (case prepareSelectAllBlobStatement session of
           Inl e \<Rightarrow> (0, Some e)
         | Inr lSelectStatement \<Rightarrow> count_rows lSelectStatement [] 0)
      in catch_std what (\<lambda>lException. ''Error when trying to retrieve '' @ show_nat (unat oNbOfEntries) @
           ''-th row from the SQL database: '' @ lException)
         (case failure of Some e \<Rightarrow> Inl e | None \<Rightarrow> Inr oNbOfEntries))"

section \<open>Insertions\<close>

definition por_row :: "(date \<Rightarrow> string) \<Rightarrow> Place \<Rightarrow> string list outcome" where
  "por_row iso_date iPlace =
     (let l = pl_location iPlace; lLocationKey = loc_key l
      in bindE (LocationKey_describe lLocationKey) (\<lambda>lPK.
         bindE (IATAType_getTypeLabelAsString (lk_iataType lLocationKey)) (\<lambda>lLocationType.
           Inr [lPK, lLocationType, lk_iataCode lLocationKey, loc_icaoCode l, loc_faaCode l,
                (if isGeonames l then ''Y'' else ''N''), show_int (lk_geonamesID lLocationKey),
                show_int (loc_envelopeID l), iso_date (loc_dateFrom l), iso_date (loc_dateEnd l),
                loc_rawDataString l])))"

definition insertPlaceInDB ::
    "(trep_error \<Rightarrow> string) \<Rightarrow> (date \<Rightarrow> string) \<Rightarrow> (Place \<Rightarrow> string) \<Rightarrow> (string list \<Rightarrow> 'sql \<Rightarrow> string + 'sql) \<Rightarrow>
     Place \<Rightarrow> 'sql \<Rightarrow> 'sql outcome" where
  "insertPlaceInDB what iso_date show_place insert_row iPlace ioSociSession =
     (let message = (\<lambda>lException. ''Error when updating '' @ show_place iPlace @ '': '' @ lException)
      in bindE (catch_std what message (por_row iso_date iPlace)) (\<lambda>row.
           case insert_row row ioSociSession of
             Inl lException \<Rightarrow> Inl (SQLDatabaseException (message lException))
           | Inr ioSociSession \<Rightarrow> Inr ioSociSession))"

text \<open>The update of the document identifier of the rows with a IATA code, in a table of another name; the statement that it executes
  is a parameter.\<close>

definition updatePlaceInDB ::
    "(Place \<Rightarrow> string) \<Rightarrow> (int \<Rightarrow> string \<Rightarrow> 'sql \<Rightarrow> string + 'sql) \<Rightarrow> Place \<Rightarrow> 'sql \<Rightarrow> 'sql outcome" where
  "updatePlaceInDB show_place update_rows iPlace ioSociSession =
     (let lDocID = pl_docID iPlace; lIataCode = lk_iataCode (loc_key (pl_location iPlace))
      in case update_rows lDocID lIataCode ioSociSession of
           Inl lException \<Rightarrow> Inl (SQLDatabaseException (''Error when updating '' @ show_place iPlace @ '': '' @ lException))
         | Inr ioSociSession \<Rightarrow> Inr ioSociSession)"

text \<open>The progress that is written on the standard output after an insertion.\<close>

definition fill_progress :: "32 word \<Rightarrow> string" where
  "fill_progress oNbOfEntries =
     (if oNbOfEntries mod 1000 = 0
      then ''Number of records inserted into the DB: '' @ show_nat (unat oNbOfEntries) @ endl else [])"

text \<open>The loop over the lines of the POR file, with the one place object that it reuses, and its body.\<close>

definition fill_line ::
    "(trep_error \<Rightarrow> string) \<Rightarrow> (date \<Rightarrow> string) \<Rightarrow> (Place \<Rightarrow> string) \<Rightarrow> (string list \<Rightarrow> 'sql \<Rightarrow> string + 'sql) \<Rightarrow>
     (string \<Rightarrow> Location outcome) \<Rightarrow> string \<Rightarrow> 32 word \<times> Place \<times> 'sql \<Rightarrow> (32 word \<times> Place \<times> 'sql) io" where
  "fill_line what iso_date show_place insert_row generateLocation itReadLine = (\<lambda>(oNbOfEntries, lPlace, lSociSession).
     bind_io (call (generateLocation itReadLine)) (\<lambda>lLocation.
       if \<not> (loc_commonName lLocation = ''NotAvailable'') then
         let lPlace = setLocation lLocation lPlace
         in bind_io (call (insertPlaceInDB what iso_date show_place insert_row lPlace lSociSession)) (\<lambda>lSociSession.
            let oNbOfEntries = oNbOfEntries + 1
            in bind_io (say (fill_progress oNbOfEntries)) (\<lambda>_.
                 call (Inr (oNbOfEntries, resetIndexSets (Place_resetMatrix lPlace), lSociSession))))
       else call (Inr (oNbOfEntries, lPlace, lSociSession))))"

definition fillInFromPORFile ::
    "(trep_error \<Rightarrow> string) \<Rightarrow> (date \<Rightarrow> string) \<Rightarrow> (Place \<Rightarrow> string) \<Rightarrow> (string list \<Rightarrow> 'sql \<Rightarrow> string + 'sql) \<Rightarrow>
     (string \<Rightarrow> Location outcome) \<Rightarrow> string list \<Rightarrow> Place \<Rightarrow> 'sql option \<Rightarrow> (32 word \<times> 'sql option) io" where
  "fillInFromPORFile what iso_date show_place insert_row generateLocation lPORFileStream lPlace lSociSession_ptr =
     (case lSociSession_ptr of
        None \<Rightarrow> call (Inr (0, None))
      | Some lSociSession \<Rightarrow>
          bind_io (fold_io (fill_line what iso_date show_place insert_row generateLocation) lPORFileStream (0, lPlace, lSociSession))
            (\<lambda>(oNbOfEntries, lPlace, sql). call (Inr (oNbOfEntries, Some sql))))"

section \<open>The fetch loop\<close>

lemma fetch_locations_simps:
  "fetch_locations parse kw (row # rows, failure) cur n ls =
     bindE (parse row) (\<lambda>l. fetch_locations parse kw (rows, failure) row (n + 1) (ls @ [l\<lparr>loc_correctedKeywords := kw\<rparr>]))"
  "fetch_locations parse kw ([], None) cur n ls = Inr (n, ls)"
  by (simp_all add: fetch_locations.simps [of parse kw "(row # rows, failure)"]
    fetch_locations.simps [of parse kw "([], None)"])

lemma fetch_locations_returns:
  assumes "list_all2 (\<lambda>row l. parse row = Inr l) rows ls"
  shows "fetch_locations parse kw (rows, None) cur n locs =
    Inr (n + word_of_nat (length rows), locs @ map (\<lambda>l. l\<lparr>loc_correctedKeywords := kw\<rparr>) ls)"
  using assms
  by (induction rows ls arbitrary: cur n locs rule: list_all2_induct)
    (simp_all add: fetch_locations_simps algebra_simps)

lemma fetch_locations_fails:
  assumes "list_all (\<lambda>row. \<not> isl (parse row)) rows" and "parse row = Inl e"
  shows "fetch_locations parse kw (rows @ row # rest, failure) cur n locs = Inl e"
  using assms(1)
proof (induction rows arbitrary: cur n locs)
  case Nil
  then show ?case by (simp add: fetch_locations_simps assms(2))
next
  case (Cons r rows)
  then obtain l where "parse r = Inr l" by (cases "parse r") auto
  then show ?case using Cons by (simp add: fetch_locations_simps)
qed

lemma getPORBy_returns:
  assumes "list_all2 (\<lambda>row l. parse row = Inr l) rows ls"
  shows "getPORBy what parse kw (Inr (rows, None)) locs =
    Inr (word_of_nat (length rows), locs @ map (\<lambda>l. l\<lparr>loc_correctedKeywords := kw\<rparr>) ls)"
  by (simp add: getPORBy_def fetch_locations_returns [OF assms] catch_std_def)

lemma getPORByIATACode_scan:
  assumes "sq_select session (Iata_code (map toupper code)) = Inr (rows, None)"
    and "list_all2 (\<lambda>row l. parse row = Inr l) rows ls"
    and "scan_best dgt (map (\<lambda>l. (l\<lparr>loc_correctedKeywords := code\<rparr>, loc_pageRank l)) ls) (None, Fin 0) = (b, n)"
  shows "getPORByIATACode what parse session code locs True =
    Inr (word_of_nat (length rows), locs @ (case b of Some l \<Rightarrow> [l] | None \<Rightarrow> []))"
  using assms(3) by (simp add: getPORByIATACode_def prepareSelectBlobOnIataCodeStatement_def prepare_def assms(1)
    getPORBy_returns [OF assms(2)] comp_def split: option.split)

lemma scan_unranked:
  assumes "\<forall>l \<in> set ls. \<not> dgt (loc_pageRank l) (Fin 0)"
  shows "scan_best dgt (map (\<lambda>l. (f l, loc_pageRank l)) ls) (None, Fin 0) = (None, Fin 0)"
  using assms by (intro dbl_max.scan_best_none) auto

section \<open>Properties\<close>

text \<open>Asking for the one POR of a IATA code counts all its rows, but gives the first of those with the greatest
  page rank only, with the code as its corrected keywords; and no POR at all, although the count is positive, when
  no page rank is positive.\<close>

theorem unique_por:
  assumes "sq_select session (Iata_code (map toupper code)) = Inr (rows, None)"
    and "list_all2 (\<lambda>row l. parse row = Inr l) rows ls"
  shows "\<exists>best. getPORByIATACode what parse session code locs True = Inr (word_of_nat (length rows), locs @ best) \<and>
    (if \<exists>l \<in> set ls. dgt (loc_pageRank l) (Fin 0)
     then \<exists>us l vs. ls = us @ l # vs \<and> best = [l\<lparr>loc_correctedKeywords := code\<rparr>] \<and>
       (\<forall>m \<in> set ls. \<not> dgt (loc_pageRank m) (loc_pageRank l)) \<and>
       (\<forall>m \<in> set us. loc_pageRank m \<noteq> loc_pageRank l)
     else best = [])"
proof -
  let ?kw = "\<lambda>l. l\<lparr>loc_correctedKeywords := code\<rparr>"
  let ?xs = "map (\<lambda>l. (?kw l, loc_pageRank l)) ls"
  obtain b n where scan: "scan_best dgt ?xs (None, Fin 0) = (b, n)" by fastforce
  note max = dbl_max.scan_best_cases [OF scan]
  have le: "\<forall>m \<in> set ls. \<not> dgt (loc_pageRank m) n" using max by auto
  note getPORByIATACode_scan [OF assms scan]
  moreover have "if \<exists>l \<in> set ls. dgt (loc_pageRank l) (Fin 0)
     then \<exists>us l vs. ls = us @ l # vs \<and> (case b of Some l \<Rightarrow> [l] | None \<Rightarrow> []) = [?kw l] \<and>
       (\<forall>m \<in> set ls. \<not> dgt (loc_pageRank m) (loc_pageRank l)) \<and>
       (\<forall>m \<in> set us. loc_pageRank m \<noteq> loc_pageRank l)
     else (case b of Some l \<Rightarrow> [l] | None \<Rightarrow> []) = []"
  proof (cases "\<exists>l \<in> set ls. dgt (loc_pageRank l) (Fin 0)")
    case False
    then have "b = None" using scan scan_unranked [of ls ?kw] by simp
    then show ?thesis using False by (simp only: if_False option.case)
  next
    case True
    then have "\<not> (b = None \<and> n = Fin 0)" using max by auto
    with max obtain ys a zs where split: "?xs = ys @ (a, n) # zs" "b = Some a" and first: "\<forall>(y, v) \<in> set ys. v \<noteq> n"
      by auto
    from split(1) obtain us l vs where ls: "ls = us @ l # vs" "ys = map (\<lambda>l. (?kw l, loc_pageRank l)) us"
      "a = ?kw l" "n = loc_pageRank l"
      by (auto simp: map_eq_append_conv map_eq_Cons_conv)
    have "\<exists>us l vs. ls = us @ l # vs \<and> (case b of Some l \<Rightarrow> [l] | None \<Rightarrow> []) = [?kw l] \<and>
       (\<forall>m \<in> set ls. \<not> dgt (loc_pageRank m) (loc_pageRank l)) \<and> (\<forall>m \<in> set us. loc_pageRank m \<noteq> loc_pageRank l)"
      using le first split(2) ls(2-4) by (intro exI [of _ us] exI [of _ l] exI [of _ vs] conjI ls(1)) auto
    then show ?thesis using True by (simp only: if_True)
  qed
  ultimately show ?thesis by blast
qed

theorem unique_por_witness:
  "getPORByIATACode (\<lambda>_. []) paris_parse \<lparr>sq_select = (\<lambda>q. Inr (if q = Iata_code ''PAR'' then [''PAR'', ''PAR''] else [], None))\<rparr>
     ''par'' [] True = Inr (2, [new_Location\<lparr>loc_key := new_LocationKey ''PAR'' CITY 0, loc_correctedKeywords := ''par''\<rparr>])"
proof -
  let ?l = "new_Location\<lparr>loc_key := new_LocationKey ''PAR'' CITY 0\<rparr>"
  let ?s = "\<lparr>sq_select = (\<lambda>q. Inr (if q = Iata_code ''PAR'' then [''PAR'', ''PAR''] else [], None))\<rparr>"
  have up: "map toupper ''par'' = ''PAR''" by code_simp
  have rows: "sq_select ?s (Iata_code (map toupper ''par'')) = Inr ([''PAR'', ''PAR''], None)" unfolding up by simp
  have pr: "dgt (loc_pageRank ?l) (Fin 0)" by (simp add: new_Location_def page_rank_value)
  have "list_all2 (\<lambda>row l. paris_parse row = Inr l) [''PAR'', ''PAR''] [?l, ?l]" by (simp add: paris_parse_def)
  from unique_por [OF rows this, of "\<lambda>_. []" "[]"] obtain best us l vs where
    "getPORByIATACode (\<lambda>_. []) paris_parse ?s ''par'' [] True = Inr (word_of_nat 2, [] @ best)"
    "[?l, ?l] = us @ l # vs" "best = [l\<lparr>loc_correctedKeywords := ''par''\<rparr>]"
    using pr by (auto simp: numeral_2_eq_2)
  moreover have "l \<in> set (us @ l # vs)" by simp
  then have "l = ?l" unfolding calculation(2) [symmetric] by simp
  ultimately show ?thesis by simp
qed

text \<open>The lines of a file and the rows that they give: one per relevant record.\<close>

definition relevant_rows :: "(date \<Rightarrow> string) \<Rightarrow> Location list \<Rightarrow> string list list outcome" where
  "relevant_rows iso_date ls =
     mapE (\<lambda>l. por_row iso_date (new_Place l)) (filter (\<lambda>l. loc_commonName l \<noteq> ''NotAvailable'') ls)"

lemma por_row_location: "por_row iso_date p = por_row iso_date (new_Place (pl_location p))"
  by (simp add: por_row_def new_Place_def)

text \<open>A parser of lines that are codes, for the examples.\<close>

definition code_location :: "string \<Rightarrow> Location" where
  "code_location s = new_Location\<lparr>loc_key := new_LocationKey s CITY 7, loc_commonName := s, loc_rawDataString := s\<rparr>"

lemma code_rows:
  "relevant_rows (\<lambda>_. []) [code_location ''NCE'', code_location ''NotAvailable''] =
     Inr [[''NCE-C-7'', ''C'', ''NCE'', [], [], ''Y'', ''7'', ''0'', [], [], ''NCE'']]"
proof -
  have "LocationKey_describe (new_LocationKey ''NCE'' CITY 7) = Inr ''NCE-C-7''" "show_int 7 = ''7''" "show_int 0 = ''0''"
    "IATAType_getTypeLabelAsString CITY = Inr ''C''"
    by code_simp+
  moreover have "lk_iataType (new_LocationKey ''NCE'' CITY 7) = CITY" "lk_iataCode (new_LocationKey ''NCE'' CITY 7) = ''NCE''"
    "lk_geonamesID (new_LocationKey ''NCE'' CITY 7) = 7" "lk_isGeonames (new_LocationKey ''NCE'' CITY 7)"
    by (simp_all add: new_LocationKey_def)
  moreover have "loc_icaoCode new_Location = []" "loc_faaCode new_Location = []" "loc_envelopeID new_Location = 0"
    by (simp_all add: new_Location_def)
  ultimately show ?thesis by (simp add: relevant_rows_def por_row_def new_Place_def isGeonames_def code_location_def)
qed

end
