(* ===== verification/Interpreter.thy ===== *)
theory Interpreter
  imports Selection Database
begin

text \<open>
  The interpretation of a travel query (\<^verbatim>\<open>command/RequestInterpreter.cpp\<close>, \<^verbatim>\<open>bom/PlaceHolder.cpp\<close>,
  \<^verbatim>\<open>Result::fillPlace\<close>, \<^verbatim>\<open>OPENTREP_Service::interpretTravelRequest\<close>): the full-text matches of all the partitions of a
  slice, the places of the best partition, the short cut through the SQL database for codes, and the loop over
  the slices. The environment gathers the parameters: the file system, Xapian, the SQL server, the tokeniser, the
  transliterator and the parser. The logging is left out. The lists that a request fills are results here; what
  they hold after an exception is not modelled.
\<close>

section \<open>Unmatched words\<close>

definition addUnmatchedWord ::
    "tokeniser \<Rightarrow> string \<Rightarrow> string list \<times> string oset \<Rightarrow> string list \<times> string oset" where
  "addUnmatchedWord tkz iQueryString = (\<lambda>(ioWordList, ioWordSet).
     let lQueryStringWordList = WordHolder_tokeniseStringIntoWordList tkz iQueryString []
     in if length lQueryStringWordList = 1 then
          let shouldBeKept = shouldKeep [] iQueryString
          in if shouldBeKept \<and> iQueryString \<notin> set ioWordSet
             then (ioWordList @ [iQueryString], os_insert iQueryString ioWordSet)
             else (ioWordList, ioWordSet)
        else (ioWordList, ioWordSet))"

section \<open>The full-text matches of a slice\<close>

definition search_step ::
    "tokeniser \<Rightarrow> xapian_db \<Rightarrow> string \<Rightarrow> ResultHolder \<times> string list \<times> string oset \<Rightarrow>
     (ResultHolder \<times> string list \<times> string oset) outcome" where
  "search_step tkz iDatabase lQueryString = (\<lambda>(lResultHolder, words).
     bindE (fullTextMatch iDatabase lQueryString (new_Result lQueryString)) (\<lambda>(lMatchedString, lResult).
       Inr (lResultHolder\<lparr>rh_resultList := rh_resultList lResultHolder @ [lResult]\<rparr>,
            if lMatchedString = [] then addUnmatchedWord tkz lQueryString words else words)))"

definition search_set ::
    "tokeniser \<Rightarrow> xapian_db \<Rightarrow> string_set \<Rightarrow> ResultCombination \<times> string list \<times> string oset \<Rightarrow>
     (ResultCombination \<times> string list \<times> string oset) outcome" where
  "search_set tkz iDatabase lStringSet = (\<lambda>(ioResultCombination, words).
     bindE (foldE (search_step tkz iDatabase) lStringSet (new_ResultHolder (StringSet_describe lStringSet), words))
       (\<lambda>(lResultHolder, words).
          Inr (ioResultCombination\<lparr>rc_resultHolderList :=
                 rc_resultHolderList ioResultCombination @ [lResultHolder]\<rparr>, words)))"

definition searchString ::
    "tokeniser \<Rightarrow> StringPartition \<Rightarrow> xapian_db \<Rightarrow> ResultCombination \<Rightarrow> string list \<Rightarrow>
     (ResultCombination \<times> string list) outcome" where
  "searchString tkz iStringPartition iDatabase ioResultCombination ioWordList =
     bindE (foldE (search_set tkz iDatabase) (sp_partition iStringPartition)
              (ioResultCombination, ioWordList, []))
       (\<lambda>(ioResultCombination, ioWordList, lWordSet). Inr (ioResultCombination, ioWordList))"

definition chooseBest :: "ResultCombination \<Rightarrow> ResultCombination outcome" where
  "chooseBest ioResultCombination =
     bindE (chooseBestMatchingResultHolder ioResultCombination)
       (\<lambda>(doesBestMatchingResultHolderExist, ioResultCombination).
          if doesBestMatchingResultHolderExist then
            bindE (getBestMatchingResultHolder ioResultCombination) (\<lambda>lBestMatchingResultHolder.
            bindE (getCorrectedStringSet ioResultCombination) (\<lambda>lCorrectedStringSet. Inr ioResultCombination))
          else Inr ioResultCombination)"

section \<open>The places of the best partition\<close>

text \<open>A place holder is the ordered list of its places; its map of the same places is never read.\<close>

type_synonym PlaceHolder = "Place list"

definition fillPlace :: "Result \<Rightarrow> Place \<Rightarrow> Place outcome" where
  "fillPlace r ioPlace =
     (let ioPlace = ioPlace\<lparr>pl_location := (pl_location ioPlace)\<lparr>loc_originalKeywords := rs_queryString r,
            loc_correctedKeywords := rs_correctedQueryString r\<rparr>\<rparr>
      in bindE (read_set (rs_editDistance r)) (\<lambda>editDistance.
         bindE (read_set (rs_allowableEditDistance r)) (\<lambda>allowableEditDistance.
           let ioPlace = ioPlace\<lparr>pl_location := (pl_location ioPlace)\<lparr>loc_editDistance := editDistance,
                 loc_allowableEditDistance := allowableEditDistance\<rparr>\<rparr>
           in bindE (read_set (rs_bestDocID r)) (\<lambda>bestDocID.
                let ioPlace = setDocID (int bestDocID) ioPlace
                in bindE (read_set (rs_bestCombinedWeight r)) (\<lambda>bestCombinedWeight.
                     Inr (ioPlace\<lparr>pl_location := (pl_location ioPlace)\<lparr>loc_percentage := bestCombinedWeight\<rparr>\<rparr>))))))"

definition createPlaces ::
    "(string \<Rightarrow> Location outcome) \<Rightarrow> ResultCombination \<Rightarrow> PlaceHolder \<Rightarrow> PlaceHolder outcome" where
  "createPlaces parse iResultCombination ioPlaceHolder =
     bindE (getBestMatchingResultHolder iResultCombination) (\<lambda>lResultHolder.
       foldE (\<lambda>lResult ioPlaceHolder.
           if rs_hasFullTextMatched lResult = False then Inr ioPlaceHolder
           else bindE (parse (rs_bestDocData lResult)) (\<lambda>lLocation.
                bindE (fillPlace lResult (new_Place lLocation)) (\<lambda>lPlace.
                  Inr (ioPlaceHolder @ [lPlace]))))
         (rh_resultList lResultHolder) ioPlaceHolder)"

text \<open>
  \<^verbatim>\<open>completeLocation\<close> adds the extra and the alternate places of a place to its location; nothing in the code gives
  a place any.
\<close>

definition createLocations :: "PlaceHolder \<Rightarrow> Location list \<Rightarrow> Location list" where
  "createLocations placeHolder ioLocationList =
     fold (\<lambda>lPlace ioLocationList. ioLocationList @ [pl_location lPlace]) placeHolder ioLocationList"

section \<open>Codes\<close>

text \<open>The regular expressions, in the C locale.\<close>

definition is_alpha :: "char \<Rightarrow> bool" where
  "is_alpha c \<longleftrightarrow> (let n = of_char c :: nat in n \<in> {65..90} \<union> {97..122})"

definition is_digit :: "char \<Rightarrow> bool" where
  "is_digit c \<longleftrightarrow> (let n = of_char c :: nat in n \<in> {48..57})"

definition matchesIATACode :: "string \<Rightarrow> bool" where
  "matchesIATACode w \<longleftrightarrow> length w = 3 \<and> list_all is_alpha w"

definition matchesICAOCode :: "string \<Rightarrow> bool" where
  "matchesICAOCode w \<longleftrightarrow> length w = 4 \<and> list_all (\<lambda>c. is_alpha c \<or> is_digit c) w"

definition matchesGeoID :: "string \<Rightarrow> bool" where
  "matchesGeoID w \<longleftrightarrow> 1 \<le> length w \<and> length w \<le> 11 \<and> list_all is_digit w"

definition areAllCodeOrGeoID :: "tokeniser \<Rightarrow> string \<Rightarrow> string list \<Rightarrow> bool \<times> string list" where
  "areAllCodeOrGeoID tkz iQueryString ioWordList =
     (let ioWordList = WordHolder_tokeniseStringIntoWordList tkz iQueryString ioWordList
      in (list_all (\<lambda>lWord. \<not> (\<not> matchesIATACode lWord \<and> \<not> matchesICAOCode lWord \<and> \<not> matchesGeoID lWord)) ioWordList,
          ioWordList))"

text \<open>\<^verbatim>\<open>boost::lexical_cast<int>\<close> of a string of digits.\<close>

definition lexical_cast_int :: "string \<Rightarrow> int option" where
  "lexical_cast_int w = (if read_nat w < 2 ^ 31 then Some (int (read_nat w)) else None)"

definition get_by_code ::
    "(trep_error \<Rightarrow> string) \<Rightarrow> (string \<Rightarrow> Location outcome) \<Rightarrow> sql_session \<Rightarrow> string \<Rightarrow> Location list \<Rightarrow>
     (32 word \<times> Location list) outcome" where
  "get_by_code what parse session lWord ioLocationList =
     (if matchesIATACode lWord then getPORByIATACode what parse session lWord ioLocationList True
      else if matchesICAOCode lWord then getPORByICAOCode what parse session lWord ioLocationList
      else if matchesGeoID lWord then
        (case lexical_cast_int lWord of
           Some lGeonamesID \<Rightarrow> getPORByGeonameID what parse session lGeonamesID ioLocationList
         | None \<Rightarrow> Inr (0, ioLocationList))
      else Inr (0, ioLocationList))"

definition getLocationList ::
    "sql_server \<Rightarrow> (trep_error \<Rightarrow> string) \<Rightarrow> (string \<Rightarrow> Location outcome) \<Rightarrow> EN_DBType \<Rightarrow> string \<Rightarrow> string list \<Rightarrow>
     Location list \<Rightarrow> (16 word \<times> Location list) outcome" where
  "getLocationList server what parse iSQLDBType iSQLDBConnStr iCodeList ioLocationList =
     bindE (initSQLDBSession server iSQLDBType iSQLDBConnStr) (\<lambda>lSociSession_ptr.
       case lSociSession_ptr of
         None \<Rightarrow> bindE (DBType_getLabel iSQLDBType) (\<lambda>lLabel.
           Inl (SQLDatabaseImpossibleConnectionException
             (''The '' @ lLabel @ '' database is not accessible. Connection string: '' @ iSQLDBConnStr @ [CHR 0x0A] @
              ''Hint: launch the '' @ [CHR 0x27] @ ''opentrep-dbmgr'' @ [CHR 0x27] @ '' program and '' @
              ''see the '' @ [CHR 0x27] @ ''tutorial'' @ [CHR 0x27] @ '' command.'')))
       | Some lSociSession \<Rightarrow>
           foldE (\<lambda>lWord (oNbOfMatches, ioLocationList).
               bindE (get_by_code what parse lSociSession lWord ioLocationList) (\<lambda>(lNbOfEntries, ioLocationList).
                 Inr (oNbOfMatches + ucast lNbOfEntries, ioLocationList)))
             iCodeList (0, ioLocationList))"

section \<open>Requests\<close>

record environment =
  en_is_directory :: "string \<Rightarrow> bool"
  en_xapian :: "string \<Rightarrow> string + xapian_db"
  en_server :: sql_server
  en_tokeniser :: tokeniser
  en_unpunctuate :: "string \<Rightarrow> string"
  en_unquote :: "string \<Rightarrow> string"
  en_parse :: "string \<Rightarrow> Location outcome"
  en_what :: "trep_error \<Rightarrow> string"

text \<open>
  The part of the loop that uses the Xapian index. The slice is passed to \<open>searchString\<close> as a string, from
  which the compiler makes a new partition.
\<close>

definition match_slice ::
    "environment \<Rightarrow> xapian_db \<Rightarrow> string \<Rightarrow> Location list \<times> string list \<Rightarrow> (Location list \<times> string list) outcome" where
  "match_slice env lXapianDatabase lTravelQuerySlice = (\<lambda>(ioLocationList, ioWordList).
     bindE (new_StringPartition (en_tokeniser env) (Suc (length lTravelQuerySlice)) lTravelQuerySlice) (\<lambda>lStringPartition.
     bindE (searchString (en_tokeniser env) lStringPartition lXapianDatabase
              (new_ResultCombination lTravelQuerySlice) ioWordList) (\<lambda>(lResultCombination, ioWordList).
     bindE (calculateAllWeights (en_tokeniser env) (en_parse env) lResultCombination) (\<lambda>lResultCombination.
     bindE (chooseBest lResultCombination) (\<lambda>lResultCombination.
     bindE (createPlaces (en_parse env) lResultCombination []) (\<lambda>lPlaceHolder.
       Inr (createLocations lPlaceHolder ioLocationList, ioWordList)))))))"

definition interpret_slice ::
    "environment \<Rightarrow> EN_DBType \<Rightarrow> string \<Rightarrow> xapian_db \<Rightarrow> StringPartition \<Rightarrow> Location list \<times> string list \<Rightarrow>
     (Location list \<times> string list) outcome" where
  "interpret_slice env iSQLDBType iSQLDBConnStr lXapianDatabase lStringPartition = (\<lambda>(ioLocationList, ioWordList).
     let lTravelQuerySlice = sp_initialString lStringPartition;
         (areAllWordsCodes, lCodeList) = areAllCodeOrGeoID (en_tokeniser env) lTravelQuerySlice []
     in bindE (if areAllWordsCodes \<and> \<not> iSQLDBType = NODB
               then getLocationList (en_server env) (en_what env) (en_parse env) iSQLDBType iSQLDBConnStr
                      lCodeList ioLocationList
               else Inr (0, ioLocationList)) (\<lambda>(lNbOfMatches, ioLocationList).
          if lNbOfMatches = 0 then match_slice env lXapianDatabase lTravelQuerySlice (ioLocationList, ioWordList)
          else Inr (ioLocationList, ioWordList)))"

definition interpretTravelRequest ::
    "environment \<Rightarrow> string \<Rightarrow> EN_DBType \<Rightarrow> string \<Rightarrow> string \<Rightarrow> Location list \<Rightarrow> string list \<Rightarrow>
     (16 word \<times> Location list \<times> string list) outcome" where
  "interpretTravelRequest env iTravelDBFilePath iSQLDBType iSQLDBConnStr iTravelQuery ioLocationList ioWordList =
     bindE (assertE (iTravelQuery \<noteq> [])) (\<lambda>_.
       if \<not> en_is_directory env iTravelDBFilePath then
         Inl (FileNotFoundException (''The file-path to the Xapian database/index ('' @ [CHR 0x27] @ iTravelDBFilePath @
           [CHR 0x27] @ '') does not exist or is not a directory.''))
       else case en_xapian env iTravelDBFilePath of
         Inl msg \<Rightarrow> Inl (XapianError msg)
       | Inr lXapianDatabase \<Rightarrow>
           bindE (new_QuerySlices (en_tokeniser env) lXapianDatabase (en_unpunctuate env) (en_unquote env) iTravelQuery)
             (\<lambda>lQuerySlices.
                bindE (foldE (interpret_slice env iSQLDBType iSQLDBConnStr lXapianDatabase) (qs_slices lQuerySlices)
                         (ioLocationList, ioWordList))
                  (\<lambda>(ioLocationList, ioWordList).
                     Inr (word_of_nat (length ioLocationList), ioLocationList, ioWordList))))"

section \<open>The service\<close>

record service_context =
  sc_porFilePath :: string
  sc_travelDBFilePath :: string
  sc_sqlDBType :: EN_DBType
  sc_sqlDBConnectionString :: string

definition service_interpretTravelRequest ::
    "environment \<Rightarrow> service_context option \<Rightarrow> string \<Rightarrow> Location list \<Rightarrow> string list \<Rightarrow>
     (16 word \<times> Location list \<times> string list) outcome" where
  "service_interpretTravelRequest env opentrepServiceContext iTravelQuery ioLocationList ioWordList =
     (case opentrepServiceContext of
        None \<Rightarrow> Inl (NonInitialisedServiceException ''The OpenTREP service has not been initialised'')
      | Some context \<Rightarrow>
          if iTravelQuery = [] then Inl (TravelRequestEmptyException ''The travel query is empty.'')
          else interpretTravelRequest env (sc_travelDBFilePath context) (sc_sqlDBType context)
                 (sc_sqlDBConnectionString context) iTravelQuery ioLocationList ioWordList)"

section \<open>What a request adds to its lists\<close>

text \<open>
  Every step of a request appends to the lists of locations and of unmatched words, and looks at nothing in them:
  running it after prefixing the lists is prefixing its result.
\<close>

lemma map_sum_bindE: "map_sum id h (bindE m k) = bindE m (\<lambda>x. map_sum id h (k x))"
  by (cases m) simp_all

lemma bindE_map_sum: "bindE (map_sum id h m) k = bindE m (\<lambda>x. k (h x))"
  by (cases m) simp_all

lemma foldE_frame:
  assumes "\<And>x s. x \<in> set xs \<Longrightarrow> f x (h s) = map_sum id h (f x s)"
  shows "foldE f xs (h s) = map_sum id h (foldE f xs s)"
  using assms by (induction xs arbitrary: s) (simp_all add: map_sum_bindE bindE_map_sum)

lemma catch_std_frame: "catch_std what message (map_sum id h m) = map_sum id h (catch_std what message m)"
  by (cases m) (simp_all add: catch_std_def)

lemma fetch_locations_frame:
  "fetch_locations parse kw (rows, failure) cur n (locs @ ls) =
   map_sum id (\<lambda>(n, ls). (n, locs @ ls)) (fetch_locations parse kw (rows, failure) cur n ls)"
proof (induction rows arbitrary: cur n ls)
  case Nil
  show ?case by (cases failure) (simp_all add: fetch_locations.simps)
next
  case (Cons row rows)
  then show ?case by (cases "parse row") (simp_all add: fetch_locations_simps)
qed

lemma getPORBy_frame:
  "getPORBy what parse kw statement (locs @ ls) =
   map_sum id (\<lambda>(n, ls). (n, locs @ ls)) (getPORBy what parse kw statement ls)"
proof -
  have "fetch_locations parse kw st [] 0 (locs @ ls) =
      map_sum id (\<lambda>(n, ls). (n, locs @ ls)) (fetch_locations parse kw st [] 0 ls)" for st
    by (cases st) (simp only: fetch_locations_frame)
  then show ?thesis
    by (simp add: getPORBy_def map_sum_bindE flip: catch_std_frame)
qed

lemma get_by_code_frame:
  "get_by_code what parse session w (locs @ ls) =
   map_sum id (\<lambda>(n, ls). (n, locs @ ls)) (get_by_code what parse session w ls)"
proof -
  have "getPORByIATACode what parse session w (locs @ ls) True =
      map_sum id (\<lambda>(n, ls). (n, locs @ ls)) (getPORByIATACode what parse session w ls True)"
    by (auto simp: getPORByIATACode_def map_sum_bindE case_prod_beta' Let_def
      intro!: arg_cong2 [where f=bindE] split: option.split)
  then show ?thesis
    by (simp add: get_by_code_def getPORByICAOCode_def getPORByGeonameID_def getPORBy_frame split: option.split)
qed

lemma getLocationList_frame:
  "getLocationList server what parse dbtype conn codes (locs @ ls) =
   map_sum id (\<lambda>(n, ls). (n, locs @ ls)) (getLocationList server what parse dbtype conn codes ls)"
proof -
  let ?h = "\<lambda>(n, ls). (n :: 16 word, locs @ ls)"
  let ?step = "\<lambda>session lWord (oNbOfMatches, ioLocationList).
    bindE (get_by_code what parse session lWord ioLocationList) (\<lambda>(lNbOfEntries, ioLocationList).
      Inr (oNbOfMatches + ucast lNbOfEntries :: 16 word, ioLocationList))"
  have "foldE (?step session) codes (?h (0, ls)) = map_sum id ?h (foldE (?step session) codes (0, ls))" for session
  proof (rule foldE_frame)
    fix w s
    show "?step session w (?h s) = map_sum id ?h (?step session w s)"
      by (cases s) (simp add: get_by_code_frame map_sum_bindE bindE_map_sum case_prod_beta')
  qed
  then show ?thesis
    by (auto simp: getLocationList_def map_sum_bindE intro!: arg_cong2 [where f=bindE] split: option.split)
qed

lemma searchString_frame:
  "searchString tkz p db c (words @ ws) =
   map_sum id (\<lambda>(c, ws). (c, words @ ws)) (searchString tkz p db c ws)"
proof -
  let ?h = "\<lambda>(x, ws, s). (x, words @ ws, s)"
  have add: "addUnmatchedWord tkz q (words @ ws, s) =
      (words @ fst (addUnmatchedWord tkz q (ws, s)), snd (addUnmatchedWord tkz q (ws, s)))" for q ws s
    by (simp add: addUnmatchedWord_def Let_def)
  have step: "search_step tkz db q (?h s) = map_sum id ?h (search_step tkz db q s)" for q s
    by (cases s) (auto simp: search_step_def map_sum_bindE case_prod_beta' add intro!: arg_cong2 [where f=bindE])
  have set: "search_set tkz db ss (?h s) = map_sum id ?h (search_set tkz db ss s)" for ss s
  proof -
    have "foldE (search_step tkz db) ss (?h (h, ws, s)) =
        map_sum id ?h (foldE (search_step tkz db) ss (h, ws, s))" for h ws s
      by (rule foldE_frame) (rule step)
    then show ?thesis
      by (cases s) (auto simp: search_set_def map_sum_bindE bindE_map_sum case_prod_beta' intro!: arg_cong2 [where f=bindE])
  qed
  have "foldE (search_set tkz db) (sp_partition p) (?h (c, ws, [])) =
      map_sum id ?h (foldE (search_set tkz db) (sp_partition p) (c, ws, []))"
    by (rule foldE_frame) (rule set)
  then show ?thesis
    by (auto simp: searchString_def map_sum_bindE bindE_map_sum case_prod_beta' intro!: arg_cong2 [where f=bindE])
qed

lemma createLocations_eq: "createLocations ps locs = locs @ map pl_location ps"
  by (simp add: createLocations_def fold_snoc_map)

lemma interpret_slice_frame:
  "interpret_slice env dbtype conn db p (locs @ ls, words @ ws) =
   map_sum id (\<lambda>(ls, ws). (locs @ ls, words @ ws)) (interpret_slice env dbtype conn db p (ls, ws))"
proof -
  have m: "match_slice env db q (locs @ ls, words @ ws) =
      map_sum id (\<lambda>(ls, ws). (locs @ ls, words @ ws)) (match_slice env db q (ls, ws))" for q ls ws
    by (auto simp: match_slice_def searchString_frame map_sum_bindE bindE_map_sum case_prod_beta' createLocations_eq
      intro!: arg_cong2 [where f=bindE])
  show ?thesis
    by (auto simp: interpret_slice_def Let_def getLocationList_frame map_sum_bindE bindE_map_sum case_prod_beta' m
      intro!: arg_cong2 [where f=bindE])
qed

section \<open>The words of a slice\<close>

definition is_unmatched :: "tokeniser \<Rightarrow> xapian_db \<Rightarrow> string \<Rightarrow> bool" where
  "is_unmatched tkz db q \<longleftrightarrow> map_sum id fst (fullTextMatch db q (new_Result q)) = Inr [] \<and>
     length (WordHolder_tokeniseStringIntoWordList tkz q []) = 1 \<and> shouldKeep [] q"

definition first_occurrences :: "'a list \<Rightarrow> 'a list" where
  "first_occurrences xs = rev (remdups (rev xs))"

lemma first_occurrences_simps [simp]:
  "first_occurrences [] = []"
  "first_occurrences (xs @ [x]) = first_occurrences xs @ (if x \<in> set xs then [] else [x])"
  "distinct (first_occurrences xs)" "set (first_occurrences xs) = set xs"
  by (simp_all add: first_occurrences_def)

text \<open>The result of the search of one string, when the search does not fail.\<close>

definition found :: "xapian_db \<Rightarrow> string \<Rightarrow> Result" where
  "found db q = snd (projr (fullTextMatch db q (new_Result q)))"

definition found_holder :: "xapian_db \<Rightarrow> string_set \<Rightarrow> ResultHolder" where
  "found_holder db ss = (new_ResultHolder (StringSet_describe ss))\<lparr>rh_resultList := map (found db) ss\<rparr>"

definition searchable :: "xapian_db \<Rightarrow> string \<Rightarrow> bool" where
  "searchable db q \<longleftrightarrow> \<not> isl (fullTextMatch db q (new_Result q))"

definition word_state :: "string list \<Rightarrow> string list \<times> string oset \<Rightarrow> bool" where
  "word_state qs = (\<lambda>(us, s). us = first_occurrences qs \<and> set s = set qs)"

lemma search_step_found:
  assumes "searchable db q"
  shows "search_step tkz db q (h, words) =
    Inr (h\<lparr>rh_resultList := rh_resultList h @ [found db q]\<rparr>,
      if map_sum id fst (fullTextMatch db q (new_Result q)) = Inr [] then addUnmatchedWord tkz q words else words)"
  using assms unfolding search_step_def searchable_def found_def
  by (cases "fullTextMatch db q (new_Result q)") auto

lemma add_word_state:
  assumes "word_state (filter (is_unmatched tkz db) qs) words"
  shows "word_state (filter (is_unmatched tkz db) (qs @ [q]))
    (if map_sum id fst (fullTextMatch db q (new_Result q)) = Inr [] then addUnmatchedWord tkz q words else words)"
  using assms
  by (cases words) (auto simp: word_state_def addUnmatchedWord_def is_unmatched_def Let_def set_insort_insert)

lemma search_strings:
  assumes "\<forall>q \<in> set ss. searchable db q" and "word_state (filter (is_unmatched tkz db) qs) words"
  shows "\<exists>words'. foldE (search_step tkz db) ss (h, words) =
      Inr (h\<lparr>rh_resultList := rh_resultList h @ map (found db) ss\<rparr>, words') \<and>
    word_state (filter (is_unmatched tkz db) (qs @ ss)) words'"
  using assms
proof (induction ss arbitrary: h words qs)
  case Nil
  then show ?case by simp
next
  case (Cons q ss)
  let ?h = "h\<lparr>rh_resultList := rh_resultList h @ [found db q]\<rparr>"
  let ?w = "if map_sum id fst (fullTextMatch db q (new_Result q)) = Inr [] then addUnmatchedWord tkz q words else words"
  have "searchable db q" "\<forall>q \<in> set ss. searchable db q" using Cons.prems(1) by simp_all
  note step = search_step_found [OF this(1)]
  have "\<exists>words'. foldE (search_step tkz db) ss (?h, ?w) =
      Inr (?h\<lparr>rh_resultList := rh_resultList ?h @ map (found db) ss\<rparr>, words') \<and>
    word_state (filter (is_unmatched tkz db) ((qs @ [q]) @ ss)) words'"
    by (rule Cons.IH [OF \<open>\<forall>q \<in> set ss. searchable db q\<close> add_word_state [OF Cons.prems(2)]])
  then show ?case unfolding foldE.simps step bindE_simps by simp
qed

lemma search_sets:
  assumes "\<forall>q \<in> set (concat parts). searchable db q" and "word_state (filter (is_unmatched tkz db) qs) words"
  shows "\<exists>words'. foldE (search_set tkz db) parts (c, words) =
      Inr (c\<lparr>rc_resultHolderList := rc_resultHolderList c @ map (found_holder db) parts\<rparr>, words') \<and>
    word_state (filter (is_unmatched tkz db) (qs @ concat parts)) words'"
  using assms
proof (induction parts arbitrary: c words qs)
  case Nil
  then show ?case by simp
next
  case (Cons ss parts)
  have ok: "\<forall>q \<in> set ss. searchable db q" "\<forall>q \<in> set (concat parts). searchable db q" using Cons.prems(1) by simp_all
  obtain words1 where s: "foldE (search_step tkz db) ss (new_ResultHolder (StringSet_describe ss), words) =
      Inr (found_holder db ss, words1)" "word_state (filter (is_unmatched tkz db) (qs @ ss)) words1"
    using search_strings [OF ok(1) Cons.prems(2), of "new_ResultHolder (StringSet_describe ss)"]
    by (auto simp: found_holder_def new_ResultHolder_def)
  let ?c = "c\<lparr>rc_resultHolderList := rc_resultHolderList c @ [found_holder db ss]\<rparr>"
  have step: "search_set tkz db ss (c, words) = Inr (?c, words1)" by (simp add: search_set_def s(1))
  have "\<exists>words'. foldE (search_set tkz db) parts (?c, words1) =
      Inr (?c\<lparr>rc_resultHolderList := rc_resultHolderList ?c @ map (found_holder db) parts\<rparr>, words') \<and>
    word_state (filter (is_unmatched tkz db) ((qs @ ss) @ concat parts)) words'"
    by (rule Cons.IH [OF ok(2) s(2)])
  then show ?case by (simp add: step)
qed

lemma searchString_found:
  assumes "\<forall>q \<in> set (concat (sp_partition p)). searchable db q"
  shows "searchString tkz p db c words =
    Inr (c\<lparr>rc_resultHolderList := rc_resultHolderList c @ map (found_holder db) (sp_partition p)\<rparr>,
      words @ first_occurrences (filter (is_unmatched tkz db) (concat (sp_partition p))))"
proof -
  have w: "word_state (filter (is_unmatched tkz db) []) ([], [])" by (simp add: word_state_def)
  from search_sets [OF assms w, of c] obtain words' where
    "foldE (search_set tkz db) (sp_partition p) (c, [], []) =
      Inr (c\<lparr>rc_resultHolderList := rc_resultHolderList c @ map (found_holder db) (sp_partition p)\<rparr>, words')"
    "word_state (filter (is_unmatched tkz db) (concat (sp_partition p))) words'"
    unfolding append_Nil by blast
  then have "searchString tkz p db c [] =
    Inr (c\<lparr>rc_resultHolderList := rc_resultHolderList c @ map (found_holder db) (sp_partition p)\<rparr>,
      first_occurrences (filter (is_unmatched tkz db) (concat (sp_partition p))))"
    by (cases words') (simp add: searchString_def word_state_def)
  then show ?thesis using searchString_frame [of tkz p db c words "[]"] by simp
qed

section \<open>Healthy indexes\<close>

text \<open>
  An index whose queries do not fail, whose matching sets hold distinct documents with a positive percentage and the
  data of a POR with a page rank, and whose suggestions match and are close to the phrase.
\<close>

definition healthy_index :: "xapian_db \<Rightarrow> (string \<Rightarrow> Location outcome) \<Rightarrow> bool" where
  "healthy_index db parse \<longleftrightarrow> consistent_db db \<and> positive_percentages db \<and>
     (\<forall>q n. \<exists>ms. xq_mset db q n = Inr ms \<and> distinct_docs ms \<and>
        (\<forall>x \<in> set ms. \<exists>l. parse (xd_data (snd x)) = Inr l \<and> ranked_location l)) \<and>
     (\<forall>q d. \<exists>c. xq_suggest db q d = Inr c \<and> (c \<noteq> [] \<and> c \<noteq> q \<longrightarrow> getDistance q c \<le> 1290))"

lemma getDistance_positive: "s \<noteq> t \<Longrightarrow> 1 \<le> getDistance s t"
proof -
  assume "s \<noteq> t"
  have "edits s t (getDistance s t)" using edist_reached [of "rev s" "rev t"] by (simp add: getDistance_eq)
  with \<open>s \<noteq> t\<close> show ?thesis
    using edits_nonneg [of s t "getDistance s t"] edits_zero [of s t] by (cases "getDistance s t = 0") auto
qed

lemma healthy_match_set:
  assumes "healthy_index db parse"
  obtains s where "fullTextMatch_set db q (new_Result q) = Inr (s, [], new_Result q)"
  | s ms e a where "fullTextMatch_set db q (new_Result q) = Inr (s, ms, new_Result q\<lparr>rs_editDistance := Some e,
      rs_allowableEditDistance := Some a, rs_hasFullTextMatched := True, rs_correctedQueryString := s\<rparr>)"
    "distinct_docs ms" "unat e \<le> 1290"
proof -
  let ?n = K_DEFAULT_XAPIAN_MATCHING_SET_SIZE
  let ?a = "word_of_nat (calculateEditDistance q) :: 16 word"
  obtain ms where ms: "xq_mset db q ?n = Inr ms" "distinct_docs ms" using assms unfolding healthy_index_def by blast
  obtain c where c: "xq_suggest db q (unat ?a) = Inr c" "c \<noteq> [] \<and> c \<noteq> q \<longrightarrow> getDistance q c \<le> 1290"
    using assms unfolding healthy_index_def by blast
  obtain ms' where ms': "xq_mset db c ?n = Inr ms'" "distinct_docs ms'" using assms unfolding healthy_index_def by blast
  show thesis
  proof (cases "ms = []")
    case False
    then have "fullTextMatch_set db q (new_Result q) = Inr (q, ms, new_Result q\<lparr>rs_editDistance := Some 0,
        rs_allowableEditDistance := Some 0, rs_hasFullTextMatched := True, rs_correctedQueryString := q\<rparr>)"
      by (simp add: fullTextMatch_set_def ms(1))
    then show thesis using that(2) ms(2) by simp
  next
    case True
    show thesis
    proof (cases "c = [] \<or> c = q")
      case True
      have "new_Result q\<lparr>rs_hasFullTextMatched := False\<rparr> = new_Result q" by (simp add: new_Result_def)
      then have "fullTextMatch_set db q (new_Result q) = Inr ([], [], new_Result q)"
        using True \<open>ms = []\<close> by (auto simp: fullTextMatch_set_def ms(1) c(1) Let_def)
      then show thesis by (rule that(1))
    next
      case False
      then have "ms' \<noteq> []" using assms c(1) ms'(1)
        by (auto simp: healthy_index_def consistent_db_def K_DEFAULT_XAPIAN_MATCHING_SET_SIZE_def)
      then have "fullTextMatch_set db q (new_Result q) = Inr (c, ms', new_Result q\<lparr>
          rs_editDistance := Some (word_of_int (getDistance q c)), rs_allowableEditDistance := Some ?a,
          rs_hasFullTextMatched := True, rs_correctedQueryString := c\<rparr>)"
        using False \<open>ms = []\<close> by (simp add: fullTextMatch_set_def ms(1) c(1) ms'(1) Let_def)
      moreover have "unat (word_of_int (getDistance q c) :: 16 word) \<le> 1290"
        using False c(2) getDistance_positive [of q c] unat_distance [of q c] by auto
      ultimately show thesis using that(2) ms'(2) by blast
    qed
  qed
qed

lemma healthy_match:
  assumes "healthy_index db parse"
  shows "\<exists>s r. fullTextMatch db q (new_Result q) = Inr (s, r) \<and>
    (rs_hasFullTextMatched r \<longrightarrow> rs_editDistance r \<noteq> None \<and> rs_allowableEditDistance r \<noteq> None)"
proof (cases "shouldKeep [] q")
  case False
  then show ?thesis by (simp add: fullTextMatch_def fillResult_def new_Result_def)
next
  case keep: True
  show ?thesis using assms
  proof (cases rule: healthy_match_set [where q=q])
    case (1 s)
    then show ?thesis using keep by (simp add: fullTextMatch_def fillResult_def new_Result_def)
  next
    case (2 s ms e a)
    then show ?thesis using keep fill_matched [OF 2(2,3), where q=q and b=a and s=s]
      by (auto simp: fullTextMatch_def)
  qed
qed

lemma found_match:
  assumes "healthy_index db parse"
  shows "\<exists>s. fullTextMatch db q (new_Result q) = Inr (s, found db q)"
  using healthy_match [OF assms, of q] by (auto simp: found_def)

lemma found_fields:
  assumes "healthy_index db parse"
  shows "rs_queryString (found db q) = q"
    and "rs_hasFullTextMatched (found db q) \<Longrightarrow>
      rs_editDistance (found db q) \<noteq> None \<and> rs_allowableEditDistance (found db q) \<noteq> None"
  using healthy_match [OF assms, of q] fullTextMatch_ok [of db q] by (auto simp: found_def)

lemma healthy_searchable: "healthy_index db parse \<Longrightarrow> searchable db q"
  using found_match [of db parse q] by (auto simp: searchable_def)

lemma found_ranked:
  assumes "healthy_index db parse" and "d \<in> fst ` set (rs_documentList (found db q))"
  shows "\<exists>l. parse (xd_data d) = Inr l \<and> ranked_location l"
proof -
  obtain s where s: "fullTextMatch db q (new_Result q) = Inr (s, found db q)" using found_match [OF assms(1)] by blast
  obtain p where "p \<in> set (rs_documentList (found db q))" "d = fst p" using assms(2) by auto
  then obtain c n ms pct where ms: "xq_mset db c n = Inr ms" "(pct, d) \<in> set ms"
    using fullTextMatch_pairs [OF s] by blast
  have "\<forall>x \<in> set ms. \<exists>l. parse (xd_data (snd x)) = Inr l \<and> ranked_location l"
    using assms(1) ms(1) unfolding healthy_index_def by (metis sum.inject(2))
  then show ?thesis using ms(2) by force
qed

section \<open>The best partition\<close>

text \<open>The position of the first of the greatest weights, when one is positive.\<close>

definition best_index :: "dbl list \<Rightarrow> nat \<Rightarrow> bool" where
  "best_index ws i \<longleftrightarrow> i < length ws \<and> dgt (ws ! i) (Fin 0) \<and> (\<forall>w \<in> set ws. \<not> dgt w (ws ! i)) \<and> (\<forall>j < i. ws ! j \<noteq> ws ! i)"

lemma scan_best_index:
  "if \<exists>w \<in> set ws. dgt w (Fin 0) then \<exists>i. fst (scan_best dgt (enumerate 0 ws) (None, Fin 0)) = Some i \<and> best_index ws i
   else fst (scan_best dgt (enumerate 0 ws) (None, Fin 0)) = None"
proof -
  let ?ws = "enumerate 0 ws"
  obtain b n where scan: "scan_best dgt ?ws (None, Fin 0) = (b, n)" by fastforce
  note max = dbl_max.scan_best_cases [OF scan]
  have "set ws = snd ` set ?ws" by (simp flip: set_map)
  then have in_ws: "v \<in> set ws \<longleftrightarrow> (\<exists>i. (i, v) \<in> set ?ws)" for v by force
  show ?thesis
  proof (cases "\<exists>w \<in> set ws. dgt w (Fin 0)")
    case False
    then have "\<forall>(i, w) \<in> set ?ws. \<not> dgt w (Fin 0)" using in_ws by blast
    then show ?thesis using False dbl_max.scan_best_none [of ?ws "Fin 0" None] by simp
  next
    case True
    have le: "\<forall>v \<in> set ws. \<not> dgt v n" using max in_ws by fastforce
    then have "\<not> (b = None \<and> n = Fin 0)" using True by auto
    with max obtain ys i zs where split: "?ws = ys @ (i, n) # zs" "b = Some i" and first: "\<forall>(y, v) \<in> set ys. v \<noteq> n"
      and pos: "dgt n (Fin 0)" by auto
    have k: "length ys < length ws" using split(1) [THEN arg_cong, of length] by simp
    have "?ws ! length ys = (i, n)" by (simp add: split(1))
    then have i: "i = length ys" "n = ws ! i" using k by (auto simp: nth_enumerate_eq)
    have "ws ! j \<noteq> n" if "j < i" for j
    proof -
      have "?ws ! j \<in> set ys" using that i(1) by (simp add: split(1) nth_append)
      then show ?thesis using first that i(1) k by (auto simp: nth_enumerate_eq)
    qed
    then have "best_index ws i" using k i le pos by (simp add: best_index_def)
    then show ?thesis using True scan split(2) by simp
  qed
qed

text \<open>The choice, and the holder that it gives.\<close>

lemma chooseBest_cases:
  assumes "rc_bestMatching c = None" and "map rh_combinedWeight (rc_resultHolderList c) = map Some ws"
  shows "\<exists>c'. chooseBest c = Inr c' \<and> (if \<exists>w \<in> set ws. dgt w (Fin 0)
     then \<exists>i. best_index ws i \<and> getBestMatchingResultHolder c' = Inr (rc_resultHolderList c ! i)
     else rc_bestMatching c' = None \<and> rc_travelQuery c' = rc_travelQuery c)"
proof -
  let ?hs = "rc_resultHolderList c"
  have len: "length ws = length ?hs" using assms(2) [THEN arg_cong, of length] by simp
  let ?b = "fst (scan_best dgt (enumerate 0 ws) (None, Fin 0))"
  let ?c = "c\<lparr>rc_bestMatching := ?b\<rparr>"
  have ch: "chooseBestMatchingResultHolder c = Inr (?b \<noteq> None, ?c)" by (simp add: choose_eq [OF assms(2)] assms(1) Let_def)
  show ?thesis
  proof (cases "\<exists>w \<in> set ws. dgt w (Fin 0)")
    case False
    then have "?b = None" using scan_best_index [of ws] by simp
    then show ?thesis using False by (intro exI [of _ ?c]) (simp add: chooseBest_def ch)
  next
    case True
    then obtain i where i: "?b = Some i" "best_index ws i" using scan_best_index [of ws] by auto
    then have best: "getBestMatchingResultHolder ?c = Inr (?hs ! i)"
      using len by (simp add: getBestMatchingResultHolder_def best_index_def)
    then have "chooseBest c = Inr ?c" using i(1) by (simp add: chooseBest_def ch getCorrectedStringSet_def)
    then show ?thesis using best i(2) True by (intro exI [of _ ?c]) auto
  qed
qed

section \<open>The places of a matched slice\<close>

text \<open>
  The location that a request returns for the phrase \<open>q\<close>: the POR of one of the documents found for it, with the
  phrase, its correction, the edit distances and a weight written over the fields that describe the match.
\<close>

definition match_fields :: "Result \<Rightarrow> dbl \<Rightarrow> Location \<Rightarrow> Location" where
  "match_fields r w l = l\<lparr>loc_originalKeywords := rs_queryString r, loc_correctedKeywords := rs_correctedQueryString r,
     loc_editDistance := the (rs_editDistance r), loc_allowableEditDistance := the (rs_allowableEditDistance r),
     loc_percentage := w\<rparr>"

definition match_of :: "xapian_db \<Rightarrow> (string \<Rightarrow> Location outcome) \<Rightarrow> string \<Rightarrow> Location \<Rightarrow> bool" where
  "match_of db parse q loc \<longleftrightarrow> (\<exists>d \<in> fst ` set (rs_documentList (found db q)). \<exists>l w.
     parse (xd_data d) = Inr l \<and> dgt w (Fin 0) \<and> loc = match_fields (found db q) w l)"

lemma fillPlace_match:
  assumes "same_match r r'" and "rs_editDistance r \<noteq> None" and "rs_allowableEditDistance r \<noteq> None"
    and "rs_bestCombinedWeight r' = Some w"
  shows "\<exists>p. fillPlace r' (new_Place l) = Inr p \<and> pl_location p = match_fields r w l"
  using assms by (auto simp: fillPlace_def same_match_def Let_def new_Place_def setDocID_def match_fields_def)

lemma createPlaces_matches:
  assumes "healthy_index db parse"
    and "list_all2 (weighed_result tkz) (map (found db) qs) rs"
  shows "\<exists>ps'. foldE (\<lambda>lResult ioPlaceHolder.
           if rs_hasFullTextMatched lResult = False then Inr ioPlaceHolder
           else bindE (parse (rs_bestDocData lResult)) (\<lambda>lLocation.
                bindE (fillPlace lResult (new_Place lLocation)) (\<lambda>lPlace.
                  Inr (ioPlaceHolder @ [lPlace])))) rs ps = Inr (ps @ ps') \<and>
    list_all2 (match_of db parse) (filter (\<lambda>q. rs_hasFullTextMatched (found db q)) qs) (map pl_location ps')"
  using assms(2)
proof (induction qs arbitrary: rs ps)
  case Nil
  then show ?case by simp
next
  case (Cons q qs)
  let ?f = "found db q"
  obtain r rs' where rs: "rs = r # rs'" "weighed_result tkz ?f r" "list_all2 (weighed_result tkz) (map (found db) qs) rs'"
    using Cons.prems by (cases rs) auto
  have same: "same_match ?f r" "rs_hasFullTextMatched r = rs_hasFullTextMatched ?f"
    using rs(2) by (auto simp: weighed_result_def same_match_def)
  show ?case
  proof (cases "rs_hasFullTextMatched ?f")
    case False
    then show ?thesis using Cons.IH [OF rs(3), of ps] same(2) by (simp add: rs(1))
  next
    case True
    then obtain w d where w: "rs_bestCombinedWeight r = Some w" "dgt w (Fin 0)"
      "d \<in> fst ` set (rs_documentList ?f)" "rs_bestDocData r = xd_data d"
      using rs(2) twopow_dgt by (auto simp: weighed_result_def)
    obtain l where l: "parse (xd_data d) = Inr l" using found_ranked [OF assms(1) w(3)] by blast
    obtain p where p: "fillPlace r (new_Place l) = Inr p" "pl_location p = match_fields ?f w l"
      using fillPlace_match [OF same(1) _ _ w(1)] found_fields(2) [OF assms(1) True] by blast
    have m: "match_of db parse q (pl_location p)" unfolding match_of_def p(2) using w(2,3) l by blast
    show ?thesis using Cons.IH [OF rs(3), of "ps @ [p]"] True same(2) m
      by (auto simp: rs(1) w(4) l p(1))
  qed
qed

text \<open>The partition of a slice without words is one empty string set.\<close>

definition slice_parts :: "tokeniser \<Rightarrow> string \<Rightarrow> string_set list" where
  "slice_parts tkz q = (let ws = tkz AllSepatorList q
     in if ws = [] then [[]] else map (map join_words) (compositions ws))"

lemma slice_partition:
  assumes "char_separator tkz" and "length (tkz AllSepatorList q) \<le> 32767"
  shows "new_StringPartition tkz (Suc (length q)) q =
    Inr \<lparr>sp_initialString = q, sp_partition = slice_parts tkz q\<rparr>"
proof (cases "tkz AllSepatorList q = []")
  case True
  then show ?thesis
    by (simp add: new_StringPartition_def slice_parts_def Let_def StringSet_of_def)
next
  case False
  have "length (tkz AllSepatorList q) \<le> Suc (length q)"
    using char_separator.length_tkz_le [OF assms(1), of AllSepatorList q] by simp
  then show ?thesis
    using char_separator.StringPartition_init_compositions [OF assms(1) refl False assms(2)] False
    by (simp add: new_StringPartition_def slice_parts_def del: StringPartition_init.simps)
qed

definition slice_unmatched :: "tokeniser \<Rightarrow> xapian_db \<Rightarrow> string \<Rightarrow> string list" where
  "slice_unmatched tkz db q = first_occurrences (filter (is_unmatched tkz db) (concat (slice_parts tkz q)))"

text \<open>The weights that the code gives to the partitions of a slice, in their order, and whether one of them is positive.\<close>

definition slice_weights :: "tokeniser \<Rightarrow> xapian_db \<Rightarrow> (string \<Rightarrow> Location outcome) \<Rightarrow> string \<Rightarrow> dbl list" where
  "slice_weights tkz db parse q =
     (case calculateAllWeights tkz parse
             ((new_ResultCombination q)\<lparr>rc_resultHolderList := map (found_holder db) (slice_parts tkz q)\<rparr>) of
        Inl e \<Rightarrow> []
      | Inr c \<Rightarrow> map (\<lambda>h. the (rh_combinedWeight h)) (rc_resultHolderList c))"

definition slice_weighs :: "tokeniser \<Rightarrow> xapian_db \<Rightarrow> (string \<Rightarrow> Location outcome) \<Rightarrow> string \<Rightarrow> bool" where
  "slice_weighs tkz db parse q \<longleftrightarrow> (\<exists>w \<in> set (slice_weights tkz db parse q). dgt w (Fin 0))"

definition no_best_holder :: "string \<Rightarrow> trep_error" where
  "no_best_holder q = NoBestMatchingResultHolderException
     (''There is no best matching ResultHolder object for the given query string: '' @ [CHR 0x27] @ q @ [CHR 0x27])"

text \<open>What a slice gives: for the first of its partitions with the greatest weight, one location per matched phrase.\<close>

definition slice_match :: "tokeniser \<Rightarrow> xapian_db \<Rightarrow> (string \<Rightarrow> Location outcome) \<Rightarrow> string \<Rightarrow> Location list \<Rightarrow> bool" where
  "slice_match tkz db parse q ls \<longleftrightarrow> (\<exists>i. i < length (slice_parts tkz q) \<and> best_index (slice_weights tkz db parse q) i \<and>
     list_all2 (match_of db parse) (filter (\<lambda>q. rs_hasFullTextMatched (found db q)) (slice_parts tkz q ! i)) ls)"

lemma slice_weighed:
  assumes "healthy_index db parse"
  shows "\<exists>c'. calculateAllWeights tkz parse
      ((new_ResultCombination q)\<lparr>rc_resultHolderList := map (found_holder db) (slice_parts tkz q)\<rparr>) = Inr c' \<and>
    rc_bestMatching c' = None \<and> rc_travelQuery c' = q \<and>
    list_all2 (weighed_holder tkz) (map (found_holder db) (slice_parts tkz q)) (rc_resultHolderList c')"
proof -
  let ?c = "(new_ResultCombination q)\<lparr>rc_resultHolderList := map (found_holder db) (slice_parts tkz q)\<rparr>"
  have loc: "parse (xd_data d) = Inr (projr (parse (xd_data d))) \<and> ranked_location (projr (parse (xd_data d)))"
    if "d \<in> fst ` set (rs_documentList (found db s))" for d s
    using found_ranked [OF assms that] by auto
  have "\<exists>c'. calculateAllWeights tkz parse ?c = Inr c' \<and> rc_travelQuery c' = rc_travelQuery ?c \<and>
    rc_bestMatching c' = rc_bestMatching ?c \<and>
    list_all2 (weighed_holder tkz) (rc_resultHolderList ?c) (rc_resultHolderList c')"
  proof (rule weights_return [where loc="\<lambda>d. projr (parse (xd_data d))" and db=db])
    show "positive_percentages db" using assms by (simp add: healthy_index_def)
  next
    fix h r
    assume "h \<in> set (rc_resultHolderList ?c)" "r \<in> set (rh_resultList h)"
    then obtain s where r: "r = found db s" by (auto simp: found_holder_def)
    show "\<exists>q s. fullTextMatch db q (new_Result q) = Inr (s, r)" using found_match [OF assms] r by blast
    show "parse (xd_data d) = Inr (projr (parse (xd_data d))) \<and> ranked_location (projr (parse (xd_data d)))"
      if "d \<in> fst ` set (rs_documentList r)" for d using loc that unfolding r .
  qed
  then show ?thesis by (auto simp: new_ResultCombination_def)
qed

text \<open>A phrase that the index knows is found.\<close>

lemma phrase_found:
  assumes "healthy_index db parse" and "shouldKeep [] q" and "xq_mset db q K_DEFAULT_XAPIAN_MATCHING_SET_SIZE = Inr ms" and "ms \<noteq> []"
  shows "rs_hasFullTextMatched (found db q)" and "\<not> is_unmatched tkz db q"
proof -
  have "distinct_docs ms" using assms(1,3) unfolding healthy_index_def by (metis sum.inject(2))
  from fill_matched [OF this, of 0 q 0 q] obtain m where
    "fillResult ms (new_Result q\<lparr>rs_editDistance := Some 0, rs_allowableEditDistance := Some 0, rs_hasFullTextMatched := True,
       rs_correctedQueryString := q\<rparr>) = Inr (new_Result q\<lparr>rs_editDistance := Some 0, rs_allowableEditDistance := Some 0,
       rs_hasFullTextMatched := True, rs_correctedQueryString := q, rs_documentList := scored_pairs q 0 ms, rs_documentMap := m\<rparr>)"
    by auto
  then have m: "fullTextMatch db q (new_Result q) = Inr (q, new_Result q\<lparr>rs_editDistance := Some 0, rs_allowableEditDistance := Some 0,
       rs_hasFullTextMatched := True, rs_correctedQueryString := q, rs_documentList := scored_pairs q 0 ms, rs_documentMap := m\<rparr>)"
    using assms(2-4) by (simp add: fullTextMatch_def fullTextMatch_set_def)
  then show "rs_hasFullTextMatched (found db q)" by (simp add: found_def)
  have "q \<noteq> []" using assms(2) by (auto simp: shouldKeep_def hasGoodSize_def)
  then show "\<not> is_unmatched tkz db q" by (simp add: is_unmatched_def m)
qed

text \<open>A slice that the index knows as one phrase weighs something.\<close>

lemma phrase_weighs:
  assumes "healthy_index db parse" and "[p] \<in> set (slice_parts tkz q)" and "rs_hasFullTextMatched (found db p)"
  shows "slice_weighs tkz db parse q"
proof -
  from slice_weighed [OF assms(1)] obtain c where c: "calculateAllWeights tkz parse
      ((new_ResultCombination q)\<lparr>rc_resultHolderList := map (found_holder db) (slice_parts tkz q)\<rparr>) = Inr c"
    "list_all2 (weighed_holder tkz) (map (found_holder db) (slice_parts tkz q)) (rc_resultHolderList c)" by blast
  obtain h where h: "h \<in> set (rc_resultHolderList c)" "weighed_holder tkz (found_holder db [p]) h"
    using assms(2) c(2) by (force simp: in_set_conv_nth list_all2_conv_all_nth)
  have "dgt (the (rh_combinedWeight h)) (Fin 0)"
    using weighed_single [OF h(2) _ assms(3)] by (simp add: found_holder_def)
  then show ?thesis using h(1) c(1) by (auto simp: slice_weighs_def slice_weights_def)
qed

lemma match_slice_result:
  assumes "char_separator (en_tokeniser env)" and "length (en_tokeniser env AllSepatorList q) \<le> 32767"
    and "healthy_index db (en_parse env)"
  shows "if slice_weighs (en_tokeniser env) db (en_parse env) q
    then \<exists>ls. match_slice env db q (locs, words) = Inr (locs @ ls, words @ slice_unmatched (en_tokeniser env) db q) \<and>
       slice_match (en_tokeniser env) db (en_parse env) q ls
    else match_slice env db q (locs, words) = Inl (no_best_holder q)"
proof -
  let ?tkz = "en_tokeniser env"
  let ?parse = "en_parse env"
  let ?parts = "slice_parts ?tkz q"
  let ?c = "(new_ResultCombination q)\<lparr>rc_resultHolderList := map (found_holder db) ?parts\<rparr>"
  have search: "searchString ?tkz \<lparr>sp_initialString = q, sp_partition = ?parts\<rparr> db (new_ResultCombination q) words =
      Inr (?c, words @ slice_unmatched ?tkz db q)"
    by (subst searchString_found)
      (auto simp: slice_unmatched_def new_ResultCombination_def intro: healthy_searchable [OF assms(3)])
  from slice_weighed [OF assms(3)] obtain c' where c': "calculateAllWeights ?tkz ?parse ?c = Inr c'" "rc_bestMatching c' = None"
    "rc_travelQuery c' = q" "list_all2 (weighed_holder ?tkz) (map (found_holder db) ?parts) (rc_resultHolderList c')" by blast
  let ?ws = "slice_weights ?tkz db ?parse q"
  have ws: "?ws = map (\<lambda>h. the (rh_combinedWeight h)) (rc_resultHolderList c')" by (simp add: slice_weights_def c'(1))
  have "map rh_combinedWeight (rc_resultHolderList c') = map Some ?ws"
    unfolding ws using c'(4) by (auto simp: in_set_conv_nth list_all2_conv_all_nth weighed_holder_def)
  from chooseBest_cases [OF c'(2) this] obtain c2 where c2: "chooseBest c' = Inr c2"
    "if \<exists>w \<in> set ?ws. dgt w (Fin 0) then \<exists>i. best_index ?ws i \<and> getBestMatchingResultHolder c2 = Inr (rc_resultHolderList c' ! i)
     else rc_bestMatching c2 = None \<and> rc_travelQuery c2 = rc_travelQuery c'" by blast
  have run: "match_slice env db q (locs, words) =
      bindE (createPlaces ?parse c2 []) (\<lambda>ps. Inr (createLocations ps locs, words @ slice_unmatched ?tkz db q))"
    unfolding match_slice_def by (simp add: slice_partition [OF assms(1,2)] search c'(1) c2(1))
  show ?thesis
  proof (cases "slice_weighs ?tkz db ?parse q")
    case False
    then show ?thesis using c2(2) c'(3)
      by (simp add: run createPlaces_def getBestMatchingResultHolder_def slice_weighs_def no_best_holder_def)
  next
    case True
    then obtain i where i: "best_index ?ws i" "getBestMatchingResultHolder c2 = Inr (rc_resultHolderList c' ! i)"
      using c2(2) by (auto simp: slice_weighs_def)
    have len: "length (rc_resultHolderList c') = length ?parts" using list_all2_lengthD [OF c'(4)] by simp
    have lt: "i < length ?parts" using i(1) len by (simp add: best_index_def ws)
    then have "weighed_holder ?tkz (found_holder db (?parts ! i)) (rc_resultHolderList c' ! i)"
      using list_all2_nthD2 [OF c'(4)] len by simp
    then have "list_all2 (weighed_result ?tkz) (map (found db) (?parts ! i)) (rh_resultList (rc_resultHolderList c' ! i))"
      by (simp add: weighed_holder_def found_holder_def)
    from createPlaces_matches [OF assms(3) this, of "[]"] obtain ps where
      "createPlaces ?parse c2 [] = Inr ps"
      "list_all2 (match_of db ?parse) (filter (\<lambda>q. rs_hasFullTextMatched (found db q)) (?parts ! i)) (map pl_location ps)"
      by (auto simp: createPlaces_def i(2))
    then show ?thesis using True lt i(1) unfolding slice_match_def
      by (auto simp: run createLocations_eq)
  qed
qed

section \<open>The slices of a healthy index\<close>

lemma healthy_doesMatch:
  assumes "healthy_index db parse"
  shows "\<exists>b. doesMatch db v w = Inr b"
proof -
  let ?q = "v @ '' '' @ w"
  have ms: "\<exists>ms. xq_mset db q n = Inr ms" for q n using assms unfolding healthy_index_def by blast
  obtain c where c: "xq_suggest db ?q (calculateEditDistance ?q) = Inr c" using assms unfolding healthy_index_def by blast
  obtain ms1 where ms1: "xq_mset db ?q 20 = Inr ms1" using ms by blast
  obtain ms2 where ms2: "xq_mset db c 20 = Inr ms2" using ms by blast
  have "ms2 \<noteq> []" if "c \<noteq> []" "c \<noteq> ?q"
    using assms c ms2 that by (auto simp: healthy_index_def consistent_db_def)
  then show ?thesis by (auto simp: doesMatch_def Let_def ms1 [simplified] ms2 c [simplified])
qed

lemma healthy_slices:
  assumes "char_separator tkz" and "healthy_index db parse"
    and "length (tkz AllSepatorList (unquote (unpunctuate s))) \<le> 32767"
  shows "\<exists>qs. new_QuerySlices tkz db unpunctuate unquote s = Inr \<lparr>qs_queryString = unquote (unpunctuate s),
      qs_slices = map (\<lambda>q. \<lparr>sp_initialString = q, sp_partition = slice_parts tkz q\<rparr>) qs\<rparr> \<and>
    qs \<noteq> [] \<and> concat (map (tkz AllSepatorList) qs) = tkz AllSepatorList (unquote (unpunctuate s))"
proof -
  let ?q = "unquote (unpunctuate s)"
  let ?ws = "tkz AllSepatorList ?q"
  let ?p = "\<lambda>q. \<lparr>sp_initialString = q, sp_partition = slice_parts tkz q\<rparr>"
  have n: "unat (word_of_nat (length ?ws) :: 16 word) = length ?ws" using assms(3) by (intro unat_of_nat_small) simp
  show ?thesis
  proof (cases "length ?ws \<le> 1")
    case True
    then have "(word_of_nat (length ?ws) :: 16 word) \<le> 1" using n by (simp add: word_le_nat_alt)
    then have "new_QuerySlices tkz db unpunctuate unquote s =
        Inr \<lparr>qs_queryString = ?q, qs_slices = map ?p [?q]\<rparr>"
      by (simp add: new_QuerySlices_def Let_def push_slice_def slice_partition [OF assms(1,3)])
    then show ?thesis by (intro exI [of _ "[?q]"]) simp
  next
    case False
    then have gt: "\<not> (word_of_nat (length ?ws) :: 16 word) \<le> 1" using n by (simp add: word_le_nat_alt)
    have ne: "?ws \<noteq> []" using False by auto
    have clean: "\<forall>w \<in> set ([] @ ?ws). clean_word AllSepatorList w" using char_separator.tkz_clean [OF assms(1)] by simp
    let ?m = "\<lambda>v w. projr (doesMatch db v w)"
    have m: "\<forall>v \<in> set ?ws. \<forall>w \<in> set ?ws. doesMatch db v w = Inr (?m v w)"
      using healthy_doesMatch [OF assms(2)] by (metis sum.sel(2))
    have "slices_loop tkz db ?ws 1 (join_words []) [] = Inr ([] @ map (\<lambda>g. \<lparr>sp_initialString = join_words g,
        sp_partition = map (map join_words) (compositions g)\<rparr>) (runs ?m [] ?ws))"
      by (rule char_separator.slices_loop_runs [OF assms(1) clean ne _ m]) (use assms(3) in simp_all)
    moreover have parts: "map (map join_words) (compositions g) = slice_parts tkz (join_words g) \<and>
        tkz AllSepatorList (join_words g) = g" if "g \<in> set (runs ?m [] ?ws)" for g
    proof -
      have "g \<noteq> []" using runs_nonempty [OF ne] that by metis
      moreover have "set g \<subseteq> set ?ws" using concat_runs [of ?m "[]" ?ws] that by (metis append_Nil set_concat UN_upper)
      then have "tkz AllSepatorList (join_words g) = g"
        using clean by (intro char_separator.tkz_join [OF assms(1) space_in_AllSepatorList]) auto
      ultimately show ?thesis by (simp add: slice_parts_def)
    qed
    ultimately have "new_QuerySlices tkz db unpunctuate unquote s =
        Inr \<lparr>qs_queryString = ?q, qs_slices = map ?p (map join_words (runs ?m [] ?ws))\<rparr>"
      using gt by (simp add: new_QuerySlices_def Let_def comp_def cong: map_cong)
    moreover have "concat (map (tkz AllSepatorList) (map join_words (runs ?m [] ?ws))) = ?ws"
      using parts concat_runs [of ?m "[]" ?ws] by (simp add: comp_def cong: map_cong)
    moreover have "map join_words (runs ?m [] ?ws) \<noteq> []" using runs_hd [of "[]" ?ws ?m] ne by auto
    ultimately show ?thesis by blast
  qed
qed

text \<open>What the loop over the slices gives without an SQL database.\<close>

lemma interpret_slice_nodb:
  "interpret_slice env NODB conn db p ss = match_slice env db (sp_initialString p) ss"
  by (cases ss) (simp add: interpret_slice_def Let_def areAllCodeOrGeoID_def)

lemma slices_result:
  assumes "char_separator (en_tokeniser env)" and "healthy_index db (en_parse env)"
    and "\<forall>q \<in> set qs. length (en_tokeniser env AllSepatorList q) \<le> 32767"
  shows "case find (\<lambda>q. \<not> slice_weighs (en_tokeniser env) db (en_parse env) q) qs of
      Some q \<Rightarrow> foldE (interpret_slice env NODB conn db)
        (map (\<lambda>q. \<lparr>sp_initialString = q, sp_partition = slice_parts (en_tokeniser env) q\<rparr>) qs) (locs, words) = Inl (no_best_holder q)
    | None \<Rightarrow> \<exists>lss. foldE (interpret_slice env NODB conn db)
        (map (\<lambda>q. \<lparr>sp_initialString = q, sp_partition = slice_parts (en_tokeniser env) q\<rparr>) qs) (locs, words) =
      Inr (locs @ concat lss, words @ concat (map (slice_unmatched (en_tokeniser env) db) qs)) \<and>
      list_all2 (slice_match (en_tokeniser env) db (en_parse env)) qs lss"
  using assms(3)
proof (induction qs arbitrary: locs words)
  case Nil
  then show ?case by simp
next
  case (Cons q qs)
  let ?ws = "slice_unmatched (en_tokeniser env) db q"
  have q: "length (en_tokeniser env AllSepatorList q) \<le> 32767" using Cons.prems by simp
  note first = interpret_slice_nodb [of env conn db "\<lparr>sp_initialString = q, sp_partition = slice_parts (en_tokeniser env) q\<rparr>"]
  note match = match_slice_result [OF assms(1) q assms(2), of locs words]
  show ?case
  proof (cases "slice_weighs (en_tokeniser env) db (en_parse env) q")
    case False
    then show ?thesis using match by (simp add: first)
  next
    case True
    then obtain ls where ls: "match_slice env db q (locs, words) = Inr (locs @ ls, words @ ?ws)"
      "slice_match (en_tokeniser env) db (en_parse env) q ls"
      using match by auto
    have "\<forall>q \<in> set qs. length (en_tokeniser env AllSepatorList q) \<le> 32767" using Cons.prems by simp
    note rest = Cons.IH [OF this, of "locs @ ls" "words @ ?ws"]
    show ?thesis
    proof (cases "find (\<lambda>q. \<not> slice_weighs (en_tokeniser env) db (en_parse env) q) qs")
      case None
      then obtain lss where "foldE (interpret_slice env NODB conn db)
          (map (\<lambda>q. \<lparr>sp_initialString = q, sp_partition = slice_parts (en_tokeniser env) q\<rparr>) qs) (locs @ ls, words @ ?ws) =
        Inr ((locs @ ls) @ concat lss, (words @ ?ws) @ concat (map (slice_unmatched (en_tokeniser env) db) qs))"
        "list_all2 (slice_match (en_tokeniser env) db (en_parse env)) qs lss" using rest by auto
      then show ?thesis using None True ls by (auto simp: first intro!: exI [of _ "ls # lss"])
    next
      case (Some r)
      then show ?thesis using rest True by (simp add: first ls(1))
    qed
  qed
qed

section \<open>Properties\<close>

text \<open>C1: On a healthy index and without an SQL database, a query of at most 32767 words never fails an assertion, never
  runs into undefined behaviour and always ends. Its slices are the words of the query cut into runs. If some slice has no
  partition of positive weight, the request throws, with the first such slice in the message, and this is the one exception that it
  throws. Otherwise it returns the number of locations, and each slice adds, for the first of its partitions with the greatest
  weight, one location per matched phrase, in order, made of the record of a document found for the phrase; and the single words of
  its partitions that match nothing, once each.\<close>

theorem request_result:
  assumes "char_separator (en_tokeniser env)" and "healthy_index db (en_parse env)"
    and "en_is_directory env (sc_travelDBFilePath ctx)" and "en_xapian env (sc_travelDBFilePath ctx) = Inr db"
    and "sc_sqlDBType ctx = NODB" and "query \<noteq> []"
    and "length (en_tokeniser env AllSepatorList (en_unquote env (en_unpunctuate env query))) \<le> 32767"
  shows "\<exists>slices. new_QuerySlices (en_tokeniser env) db (en_unpunctuate env) (en_unquote env) query = Inr slices \<and>
    (let qs = map sp_initialString (qs_slices slices)
     in concat (map (en_tokeniser env AllSepatorList) qs) =
          en_tokeniser env AllSepatorList (en_unquote env (en_unpunctuate env query)) \<and>
        (case find (\<lambda>q. \<not> slice_weighs (en_tokeniser env) db (en_parse env) q) qs of
           Some q \<Rightarrow> service_interpretTravelRequest env (Some ctx) query locs words = Inl (no_best_holder q)
         | None \<Rightarrow> \<exists>lss. service_interpretTravelRequest env (Some ctx) query locs words =
             Inr (word_of_nat (length (locs @ concat lss)), locs @ concat lss,
               words @ concat (map (slice_unmatched (en_tokeniser env) db) qs)) \<and>
             list_all2 (slice_match (en_tokeniser env) db (en_parse env)) qs lss))"
proof -
  obtain qs where qs: "new_QuerySlices (en_tokeniser env) db (en_unpunctuate env) (en_unquote env) query =
      Inr \<lparr>qs_queryString = en_unquote env (en_unpunctuate env query),
        qs_slices = map (\<lambda>q. \<lparr>sp_initialString = q, sp_partition = slice_parts (en_tokeniser env) q\<rparr>) qs\<rparr>"
    and words: "concat (map (en_tokeniser env AllSepatorList) qs) =
      en_tokeniser env AllSepatorList (en_unquote env (en_unpunctuate env query))"
    using healthy_slices [where unquote="en_unquote env" and unpunctuate="en_unpunctuate env" and s=query,
      OF assms(1,2,7)] by blast
  have "length (en_tokeniser env AllSepatorList q) \<le> 32767" if "q \<in> set qs" for q
  proof -
    have "length (en_tokeniser env AllSepatorList q) \<le> sum_list (map length (map (en_tokeniser env AllSepatorList) qs))"
      using that by (intro member_le_sum_list) simp_all
    then show ?thesis using assms(7) unfolding words [symmetric] length_concat by simp
  qed
  then have "\<forall>q \<in> set qs. length (en_tokeniser env AllSepatorList q) \<le> 32767" by blast
  note run = slices_result [OF assms(1,2) this, of "sc_sqlDBConnectionString ctx" locs words]
  let ?slices = "\<lparr>qs_queryString = en_unquote env (en_unpunctuate env query),
    qs_slices = map (\<lambda>q. \<lparr>sp_initialString = q, sp_partition = slice_parts (en_tokeniser env) q\<rparr>) qs\<rparr>"
  have strings: "map sp_initialString (qs_slices ?slices) = qs" by (simp add: comp_def)
  have "service_interpretTravelRequest env (Some ctx) query locs words =
      bindE (foldE (interpret_slice env NODB (sc_sqlDBConnectionString ctx) db) (qs_slices ?slices) (locs, words))
        (\<lambda>(ls, ws). Inr (word_of_nat (length ls), ls, ws))"
    by (simp add: service_interpretTravelRequest_def interpretTravelRequest_def assms(3-6) assertE_def qs)
  then have "case find (\<lambda>q. \<not> slice_weighs (en_tokeniser env) db (en_parse env) q) qs of
      Some q \<Rightarrow> service_interpretTravelRequest env (Some ctx) query locs words = Inl (no_best_holder q)
    | None \<Rightarrow> \<exists>lss. service_interpretTravelRequest env (Some ctx) query locs words =
        Inr (word_of_nat (length (locs @ concat lss)), locs @ concat lss,
          words @ concat (map (slice_unmatched (en_tokeniser env) db) qs)) \<and>
        list_all2 (slice_match (en_tokeniser env) db (en_parse env)) qs lss"
    using run by (auto split: option.splits)
  then show ?thesis using qs words unfolding Let_def by (intro exI [of _ ?slices] conjI) (simp_all only: strings)
qed

text \<open>An environment whose index knows one phrase, for the examples.\<close>

definition one_phrase_env :: "string \<Rightarrow> environment" where
  "one_phrase_env p =
     \<lparr>en_is_directory = (\<lambda>path. path = ''/tmp/xapian''), en_xapian = (\<lambda>_. Inr (one_phrase_db p)),
      en_server = \<lparr>sv_is_directory = (\<lambda>_. False), sv_parent_path = id, sv_show_path = id, sv_open = (\<lambda>_ _. Inl [])\<rparr>,
      en_tokeniser = split_tokens, en_unpunctuate = id, en_unquote = id,
      en_parse = (\<lambda>s. Inr (new_Location\<lparr>loc_rawDataString := s\<rparr>)), en_what = (\<lambda>_. [])\<rparr>"

lemma one_phrase_healthy: "healthy_index (one_phrase_db p) (en_parse (one_phrase_env p))"
proof -
  have "ranked_location (new_Location\<lparr>loc_rawDataString := s\<rparr>)" for s
    by (simp add: ranked_location_def new_Location_def page_rank_value twopow_def)
  then show ?thesis
    by (auto simp: healthy_index_def consistent_db_def positive_percentages_def one_phrase_db_def one_phrase_env_def
      distinct_docs_def)
qed

theorem request_result_witness:
  "\<exists>l. service_interpretTravelRequest (one_phrase_env ''rio'')
        (Some \<lparr>sc_porFilePath = [], sc_travelDBFilePath = ''/tmp/xapian'', sc_sqlDBType = NODB, sc_sqlDBConnectionString = []\<rparr>)
        ''rio'' [] [] = Inr (1, [l], []) \<and> loc_rawDataString l = ''rio'' \<and> loc_originalKeywords l = ''rio''"
proof -
  let ?env = "one_phrase_env ''rio''"
  let ?db = "one_phrase_db ''rio''"
  let ?ctx = "\<lparr>sc_porFilePath = [], sc_travelDBFilePath = ''/tmp/xapian'', sc_sqlDBType = NODB, sc_sqlDBConnectionString = []\<rparr>"
  have env: "en_tokeniser ?env = split_tokens" "en_unquote ?env (en_unpunctuate ?env ''rio'') = ''rio''"
    "en_is_directory ?env (sc_travelDBFilePath ?ctx)"
    "en_xapian ?env (sc_travelDBFilePath ?ctx) = Inr ?db" "sc_sqlDBType ?ctx = NODB"
    "en_parse ?env = (\<lambda>s. Inr (new_Location\<lparr>loc_rawDataString := s\<rparr>))" "en_unpunctuate ?env = id" "en_unquote ?env = id"
    by (simp_all add: one_phrase_env_def)
  have words: "split_tokens AllSepatorList ''rio'' = [''rio'']" by (simp add: AllSepatorList_def)
  have "map (map join_words) (compositions [''rio'']) = [[''rio'']]"
    by (simp add: compositions.simps [of "[''rio'']"])
  then have parts: "slice_parts split_tokens ''rio'' = [[''rio'']]" unfolding slice_parts_def words by simp
  have len: "length (split_tokens AllSepatorList (id (id ''rio''))) \<le> 32767" "''rio'' \<noteq> []"
    unfolding id_apply words by simp_all
  have hit: "xq_mset ?db ''rio'' K_DEFAULT_XAPIAN_MATCHING_SET_SIZE = Inr [(100, \<lparr>xd_docid = 1, xd_data = ''rio''\<rparr>)]"
    by (simp add: one_phrase_db_def)
  have keep: "shouldKeep [] ''rio''" by (simp add: shouldKeep_def hasGoodSize_def isBlackListed_def K_BLACK_LIST_def)
  note matched = phrase_found [OF one_phrase_healthy keep hit list.simps(3)]
  have weighs: "slice_weighs split_tokens ?db (en_parse ?env) ''rio''"
    by (rule phrase_weighs [OF one_phrase_healthy _ matched(1)]) (simp add: parts)
  have slices: "new_QuerySlices split_tokens ?db id id ''rio'' = Inr \<lparr>qs_queryString = ''rio'',
      qs_slices = [\<lparr>sp_initialString = ''rio'', sp_partition = [[''rio'']]\<rparr>]\<rparr>"
    using slice_partition [OF boost.char_separator_axioms, of "''rio''", unfolded words parts]
    by (simp add: new_QuerySlices_def Let_def push_slice_def AllSepatorList_def)
  from request_result [where env="?env" and ctx="?ctx" and locs="[]" and words="[]" and query="''rio''",
      unfolded env(1,2,7,8), OF boost.char_separator_axioms one_phrase_healthy env(3,4,5) len(2,1)]
  obtain lss where run: "service_interpretTravelRequest ?env (Some ?ctx) ''rio'' [] [] =
      Inr (word_of_nat (length (concat lss)), concat lss, concat (map (slice_unmatched split_tokens ?db) [''rio'']))"
    "list_all2 (slice_match split_tokens ?db (en_parse ?env)) [''rio''] lss"
    using weighs by (auto simp: slices)
  obtain ls where ls: "lss = [ls]" "slice_match split_tokens ?db (en_parse ?env) ''rio'' ls"
    using run(2) by (auto simp: list_all2_Cons1)
  then obtain l where l: "ls = [l]" "match_of ?db (en_parse ?env) ''rio'' l"
    using matched(1) by (auto simp: slice_match_def parts list_all2_Cons1)
  obtain d l0 w where d: "d \<in> fst ` set (rs_documentList (found ?db ''rio''))" "en_parse ?env (xd_data d) = Inr l0"
    "l = match_fields (found ?db ''rio'') w l0" using l(2) unfolding match_of_def by blast
  obtain s where s: "fullTextMatch ?db ''rio'' (new_Result ''rio'') = Inr (s, found ?db ''rio'')"
    using found_match [OF one_phrase_healthy] by blast
  obtain p where "p \<in> set (rs_documentList (found ?db ''rio''))" "d = fst p" using d(1) by auto
  with fullTextMatch_pairs [OF s] obtain c n ms pct where "xq_mset ?db c n = Inr ms" "(pct, d) \<in> set ms" by blast
  then have "xd_data d = ''rio''" by (auto simp: one_phrase_db_def split: if_splits)
  then have "loc_rawDataString l = ''rio''" using d(2,3) by (auto simp: env(6) match_fields_def)
  moreover have "loc_originalKeywords l = ''rio''"
    using d(3) found_fields(1) [OF one_phrase_healthy, of "''rio''" "''rio''"] by (simp add: match_fields_def)
  moreover have "slice_unmatched split_tokens ?db ''rio'' = []"
    using matched(2) by (simp add: slice_unmatched_def parts first_occurrences_def)
  ultimately show ?thesis using run(1) by (simp add: ls(1) l(1))
qed

text \<open>C14: What a request adds does not depend on what its lists already hold, and the slices do not depend on each other: the
  lists of a query are those of its slices interpreted alone, one after the other, whatever the database. Only the
  count is of the whole list, at 16 bits.\<close>

theorem slices_independent:
  "foldE (interpret_slice env dbtype conn db) slices (locs, words) =
     map_sum id (\<lambda>rs. (locs @ concat (map fst rs), words @ concat (map snd rs)))
       (mapE (\<lambda>p. interpret_slice env dbtype conn db p ([], [])) slices)"
proof (induction slices arbitrary: locs words)
  case Nil
  show ?case by simp
next
  case (Cons p slices)
  have "interpret_slice env dbtype conn db p (locs, words) =
      map_sum id (\<lambda>(ls, ws). (locs @ ls, words @ ws)) (interpret_slice env dbtype conn db p ([], []))"
    using interpret_slice_frame [of env dbtype conn db p locs "[]" words "[]"] by simp
  then show ?case
    by (cases "interpret_slice env dbtype conn db p ([], [])")
      (auto simp: Cons.IH map_sum_bindE bindE_map_sum bindE_def split: sum.split)
qed

text \<open>C30: A IATA code whose records all lack a positive page rank is lost: the SQL database counts them, so the Xapian
  index is not tried, but none is kept; the slice adds neither a location nor an unmatched word, whatever the index
  would have found.\<close>

theorem unranked_code_lost:
  assumes "WordHolder_tokeniseStringIntoWordList (en_tokeniser env) (sp_initialString p) [] = [code]"
    and "matchesIATACode code" and "dbtype \<noteq> NODB" and "initSQLDBSession (en_server env) dbtype conn = Inr (Some session)"
    and "sq_select session (Iata_code (map toupper code)) = Inr (rows, None)"
    and "list_all2 (\<lambda>row l. en_parse env row = Inr l) rows ls" and "\<forall>l \<in> set ls. \<not> dgt (loc_pageRank l) (Fin 0)"
    and "rows \<noteq> []" and "length rows < 65536"
  shows "interpret_slice env dbtype conn db p (locs, words) = Inr (locs, words)"
proof -
  note lookup = getPORByIATACode_scan [OF assms(5,6) scan_unranked [OF assms(7)], of "en_what env"]
  have "unat (ucast (word_of_nat (length rows) :: 32 word) :: 16 word) = length rows"
    using assms(9) by (simp add: unsigned_ucast_eq unsigned_of_nat take_bit_nat_eq_self)
  then have n: "(ucast (word_of_nat (length rows) :: 32 word) :: 16 word) \<noteq> 0"
    using assms(8) by (metis length_0_conv unat_0)
  have "getLocationList (en_server env) (en_what env) (en_parse env) dbtype conn [code] locs =
      Inr (ucast (word_of_nat (length rows) :: 32 word), locs)"
    by (simp add: getLocationList_def assms(4) get_by_code_def assms(2) lookup)
  moreover have "areAllCodeOrGeoID (en_tokeniser env) (sp_initialString p) [] = (True, [code])"
    using assms(1,2) by (simp add: areAllCodeOrGeoID_def)
  ultimately show ?thesis using assms(3) n by (simp add: interpret_slice_def)
qed

theorem unranked_code_lost_witness:
  "interpret_slice ((one_phrase_env ''par'')\<lparr>en_server := \<lparr>sv_is_directory = (\<lambda>_. True), sv_parent_path = id, sv_show_path = id,
       sv_open = (\<lambda>_ _. Inr \<lparr>sq_select = (\<lambda>q. Inr ([''PAR''], None))\<rparr>)\<rparr>,
     en_parse := (\<lambda>s. Inr (new_Location\<lparr>loc_pageRank := Fin 0\<rparr>))\<rparr>) SQLITE3 ''/tmp/opentrep.db'' (one_phrase_db ''par'')
     \<lparr>sp_initialString = ''par'', sp_partition = [[''par'']]\<rparr> ([], []) = Inr ([], [])"
proof -
  let ?s = "\<lparr>sq_select = (\<lambda>q. Inr ([''PAR''], None))\<rparr>"
  let ?env = "(one_phrase_env ''par'')\<lparr>en_server := \<lparr>sv_is_directory = (\<lambda>_. True), sv_parent_path = id, sv_show_path = id,
       sv_open = (\<lambda>_ _. Inr ?s)\<rparr>, en_parse := (\<lambda>s. Inr (new_Location\<lparr>loc_pageRank := Fin 0\<rparr>))\<rparr>"
  let ?p = "\<lparr>sp_initialString = ''par'', sp_partition = [[''par'']]\<rparr>"
  have "WordHolder_tokeniseStringIntoWordList (en_tokeniser ?env) (sp_initialString ?p) [] = [''par'']"
    by (simp add: one_phrase_env_def AllSepatorList_def)
  moreover have "matchesIATACode ''par''" by code_simp
  moreover have "initSQLDBSession (en_server ?env) SQLITE3 ''/tmp/opentrep.db'' = Inr (Some ?s)" by (simp add: initSQLDBSession_def)
  moreover have "list_all2 (\<lambda>row l. en_parse ?env row = Inr l) [''PAR''] [new_Location\<lparr>loc_pageRank := Fin 0\<rparr>]" by simp
  ultimately show ?thesis
    by (intro unranked_code_lost [where session="?s" and rows="[''PAR'']" and ls="[new_Location\<lparr>loc_pageRank := Fin 0\<rparr>]"])
      simp_all
qed

end
