(* ===== verification/PorTable.thy ===== *)
theory PorTable
  imports Database "HOL-Library.Multiset"
begin

text \<open>
  The table of the POR, \<^verbatim>\<open>ori_por\<close>, as the code relies on it: the columns that it creates
  (\<^verbatim>\<open>DBManager::createSQLDBTables\<close>), what its insertions and its select statements promise, and what filling the
  table from a file and looking records up then give.

  The SQL library and the database behind it are not part of the program: they are the parameters of the interface
  \<open>por_table\<close>, whose laws are those of a SQLite table that declares \<^verbatim>\<open>primary key (pk)\<close>, with the comparison of texts byte by
  byte that it has by default: a row whose primary key is new is added, a row whose primary key is there already is refused, and
  a select statement without \<^verbatim>\<open>order by\<close> delivers the rows that match in some order. (The table of the MySQL back-end has no primary
  key before its indexes are created, and compares texts by its collation; the laws do not describe it.)
\<close>

section \<open>The columns\<close>

definition por_columns :: "string list" where
  "por_columns = [''pk'', ''location_type'', ''iata_code'', ''icao_code'', ''faa_code'', ''is_geonames'', ''geoname_id'',
     ''envelope_id'', ''date_from'', ''date_until'', ''serialised_place'']"

definition cell :: "string \<Rightarrow> string list \<Rightarrow> string option" where
  "cell column row = map_of (zip por_columns row) column"

text \<open>The condition of a select statement compares one column.\<close>

definition row_matches :: "por_query \<Rightarrow> string list \<Rightarrow> bool" where
  "row_matches query row =
     (case query of
        Every_por \<Rightarrow> True
      | Iata_code c \<Rightarrow> cell ''iata_code'' row = Some c
      | Icao_code c \<Rightarrow> cell ''icao_code'' row = Some c
      | Faa_code c \<Rightarrow> cell ''faa_code'' row = Some c
      | Geoname_id n \<Rightarrow> cell ''geoname_id'' row = Some (show_int n))"

definition serialised :: "string list \<Rightarrow> string" where
  "serialised row = the (cell ''serialised_place'' row)"

lemma minus_show_nat: "CHR ''-'' \<notin> set (show_nat n)"
proof (induction n rule: show_nat.induct)
  case (1 n)
  have "CHR ''-'' \<noteq> digit d" if "d < 10" for d
  proof -
    have "of_char (digit d) \<noteq> (of_char CHR ''-'' :: nat)" using that by (simp add: digit_def)
    then show ?thesis by metis
  qed
  then show ?case using 1 by (simp add: show_nat.simps [of n])
qed

lemma show_int_inject: "show_int i = show_int j \<longleftrightarrow> i = j"
  using minus_show_nat [of "nat i"] minus_show_nat [of "nat j"]
  by (auto simp: show_int_def show_nat_inject split: if_splits) (metis list.set_intros(1))+

lemma por_row_cells:
  assumes "por_row iso_date p = Inr row"
  shows "length row = length por_columns"
    and "LocationKey_describe (loc_key (pl_location p)) = Inr (the (cell ''pk'' row)) \<and> cell ''pk'' row \<noteq> None"
    and "cell ''iata_code'' row = Some (lk_iataCode (loc_key (pl_location p)))"
    and "cell ''icao_code'' row = Some (loc_icaoCode (pl_location p))"
    and "cell ''faa_code'' row = Some (loc_faaCode (pl_location p))"
    and "cell ''geoname_id'' row = Some (show_int (lk_geonamesID (loc_key (pl_location p))))"
    and "serialised row = loc_rawDataString (pl_location p)"
  using assms by (auto simp: por_row_def Let_def bindE_Inr_iff cell_def por_columns_def serialised_def)

section \<open>The interface of the table\<close>

locale por_table =
  fixes insert_row :: "string list \<Rightarrow> 'sql \<Rightarrow> string + 'sql"
    and connect :: "'sql \<Rightarrow> sql_session"
    and rows :: "'sql \<Rightarrow> string list multiset"
  assumes insert_new: "length row = length por_columns \<Longrightarrow> \<forall>r \<in># rows db. cell ''pk'' r \<noteq> cell ''pk'' row \<Longrightarrow>
      \<exists>db'. insert_row row db = Inr db' \<and> rows db' = add_mset row (rows db)"
    and insert_again: "length row = length por_columns \<Longrightarrow> r \<in># rows db \<Longrightarrow> cell ''pk'' r = cell ''pk'' row \<Longrightarrow>
      \<exists>message. insert_row row db = Inl message"
    and select: "\<exists>data. sq_select (connect db) query = Inr (data, None) \<and>
      mset data = image_mset serialised (filter_mset (row_matches query) (rows db))"

section \<open>A table\<close>

text \<open>A list of rows as a table with a primary key; its select statements deliver the rows in the order of their insertion.\<close>

definition table_insert :: "string list \<Rightarrow> string list list \<Rightarrow> string + string list list" where
  "table_insert row table =
     (if length row \<noteq> length por_columns then Inl ''table ori_por has 11 columns''
      else if \<exists>r \<in> set table. cell ''pk'' r = cell ''pk'' row then Inl ''UNIQUE constraint failed: ori_por.pk''
      else Inr (table @ [row]))"

definition table_session :: "string list list \<Rightarrow> sql_session" where
  "table_session table = \<lparr>sq_select = (\<lambda>query. Inr (map serialised (filter (row_matches query) table), None))\<rparr>"

interpretation listed: por_table table_insert table_session mset
proof
  fix row :: "string list" and db
  assume "length row = length por_columns" "\<forall>r \<in># mset db. cell ''pk'' r \<noteq> cell ''pk'' row"
  then show "\<exists>db'. table_insert row db = Inr db' \<and> mset db' = add_mset row (mset db)"
    by (intro exI [of _ "db @ [row]"]) (auto simp: table_insert_def)
next
  fix row r :: "string list" and db
  assume "length row = length por_columns" "r \<in># mset db" "cell ''pk'' r = cell ''pk'' row"
  then show "\<exists>message. table_insert row db = Inl message" by (auto simp: table_insert_def)
next
  fix db query
  show "\<exists>data. sq_select (table_session db) query = Inr (data, None) \<and>
      mset data = image_mset serialised (filter_mset (row_matches query) (mset db))"
    by (simp add: table_session_def)
qed

section \<open>The rows of a file\<close>

definition relevant_locations :: "Location list \<Rightarrow> Location list" where
  "relevant_locations ls = filter (\<lambda>l. loc_commonName l \<noteq> ''NotAvailable'') ls"

definition primary_key :: "Location \<Rightarrow> string outcome" where
  "primary_key l = LocationKey_describe (loc_key l)"

lemma relevant_rows_list:
  assumes "relevant_rows iso_date ls = Inr rws"
  shows "list_all2 (\<lambda>l row. por_row iso_date (new_Place l) = Inr row) (relevant_locations ls) rws"
  using assms by (simp add: relevant_rows_def mapE_Inr_iff relevant_locations_def)

lemma row_of_location:
  assumes "por_row iso_date (new_Place l) = Inr row"
  shows "length row = length por_columns" and "primary_key l = Inr (the (cell ''pk'' row))" and "cell ''pk'' row \<noteq> None"
    and "row_matches (Iata_code c) row \<longleftrightarrow> lk_iataCode (loc_key l) = c"
    and "row_matches (Icao_code c) row \<longleftrightarrow> loc_icaoCode l = c"
    and "row_matches (Faa_code c) row \<longleftrightarrow> loc_faaCode l = c"
    and "row_matches (Geoname_id n) row \<longleftrightarrow> lk_geonamesID (loc_key l) = n"
    and "serialised row = loc_rawDataString l"
  using por_row_cells [OF assms] by (auto simp: new_Place_def row_matches_def show_int_inject primary_key_def)

lemma same_keys:
  assumes "por_row iso_date (new_Place l) = Inr row" and "por_row iso_date (new_Place l') = Inr row'"
  shows "cell ''pk'' row = cell ''pk'' row' \<longleftrightarrow> primary_key l = primary_key l'"
  using row_of_location(2,3) [OF assms(1)] row_of_location(2,3) [OF assms(2)] by (auto simp: option.expand)

lemma rows_key_set:
  assumes "list_all2 (\<lambda>l row. por_row iso_date (new_Place l) = Inr row) ls rws"
    and "por_row iso_date (new_Place l) = Inr row"
  shows "cell ''pk'' row \<in> cell ''pk'' ` set rws \<longleftrightarrow> primary_key l \<in> primary_key ` set ls"
  using assms(1) by (induction rule: list_all2_induct) (simp_all add: same_keys [OF assms(2)])

lemma distinct_rows:
  assumes "list_all2 (\<lambda>l row. por_row iso_date (new_Place l) = Inr row) ls rws"
  shows "distinct (map (cell ''pk'') rws) \<longleftrightarrow> distinct (map primary_key ls)"
  using assms by (induction rule: list_all2_induct) (simp_all add: rows_key_set)

section \<open>Filling the table\<close>

text \<open>What is written while \<open>k\<close> rows are inserted.\<close>

definition fill_output :: "nat \<Rightarrow> string" where
  "fill_output k = concat (map (\<lambda>i. fill_progress (word_of_nat i)) [1..<Suc k])"

lemma fill_output_lines:
  assumes "k < 2 ^ 32"
  shows "fill_output k = concat (map (\<lambda>i. ''Number of records inserted into the DB: '' @ show_nat i @ endl)
    (filter (\<lambda>i. 1000 dvd i) [1..<Suc k]))"
proof -
  have progress: "fill_progress (word_of_nat i) =
      (if 1000 dvd i then ''Number of records inserted into the DB: '' @ show_nat i @ endl else [])" if "i < Suc k" for i
  proof -
    have i: "unat (word_of_nat i :: 32 word) = i" using that assms by (simp add: unsigned_of_nat take_bit_nat_eq_self)
    have "(word_of_nat i :: 32 word) mod 1000 = 0 \<longleftrightarrow> unat ((word_of_nat i :: 32 word) mod 1000) = 0" by (simp add: unat_eq_zero)
    also have "\<dots> \<longleftrightarrow> 1000 dvd i" unfolding unat_mod_distrib i by (simp add: dvd_eq_mod_eq_0)
    finally show ?thesis unfolding fill_progress_def i by simp
  qed
  have "concat (map (\<lambda>i. fill_progress (word_of_nat i)) ns) = concat (map (\<lambda>i. ''Number of records inserted into the DB: '' @ show_nat i @ endl)
      (filter (\<lambda>i. 1000 dvd i) ns))" if "\<forall>i \<in> set ns. i < Suc k" for ns
    using that by (induction ns) (simp_all add: progress)
  then show ?thesis by (simp add: fill_output_def del: upt_Suc)
qed

definition output_from :: "nat \<Rightarrow> nat \<Rightarrow> string" where
  "output_from n k = concat (map (\<lambda>i. fill_progress (word_of_nat i)) [Suc n..<Suc (n + k)])"

lemma output_from_simps: "output_from n 0 = []"
  "output_from n (Suc k) = fill_progress (word_of_nat (Suc n)) @ output_from (Suc n) k"
  by (simp_all add: output_from_def upt_conv_Cons del: upt_Suc)

text \<open>The result of a lookup: after the locations that were there, those that are found, in some order, with their number.\<close>

definition delivers :: "Location list \<Rightarrow> string \<Rightarrow> Location list \<Rightarrow> (32 word \<times> Location list) outcome \<Rightarrow> bool" where
  "delivers locs kw found m \<longleftrightarrow> (\<exists>found'. mset found' = mset found \<and>
     m = Inr (word_of_nat (length found), locs @ map (\<lambda>l. l\<lparr>loc_correctedKeywords := kw\<rparr>) found'))"

lemma ex_mset_map: "mset ys = image_mset f (mset xs) \<Longrightarrow> \<exists>zs. ys = map f zs \<and> mset zs = mset xs"
proof (induction ys arbitrary: xs)
  case Nil
  then show ?case by simp
next
  case (Cons y ys)
  then have "y \<in># image_mset f (mset xs)" by (metis list.set_intros(1) set_mset_mset)
  then obtain x where x: "x \<in> set xs" "y = f x" by auto
  then have "mset xs = add_mset x (mset (remove1 x xs))" by simp
  then have "image_mset f (mset xs) = add_mset y (image_mset f (mset (remove1 x xs)))" by (metis image_mset_add_mset x(2))
  then have "mset ys = image_mset f (mset (remove1 x xs))" using Cons.prems by simp
  from Cons.IH [OF this] obtain zs where "ys = map f zs" "mset zs = mset (remove1 x xs)" by blast
  then show ?case using x by (intro exI [of _ "x # zs"]) simp
qed

context por_table
begin

lemma insert_place:
  assumes "por_row iso_date (new_Place l) = Inr row"
  shows "\<forall>r \<in># rows db. cell ''pk'' r \<noteq> cell ''pk'' row \<Longrightarrow>
      \<exists>db'. insertPlaceInDB what iso_date show_place insert_row (setLocation l p) db = Inr db' \<and> rows db' = add_mset row (rows db)"
    and "r \<in># rows db \<Longrightarrow> cell ''pk'' r = cell ''pk'' row \<Longrightarrow>
      \<exists>message. insertPlaceInDB what iso_date show_place insert_row (setLocation l p) db = Inl (SQLDatabaseException message)"
proof -
  have row: "por_row iso_date (setLocation l p) = Inr row"
    unfolding por_row_location [of _ "setLocation l p"] using assms by (simp add: setLocation_def)
  note len = row_of_location(1) [OF assms]
  show "\<exists>db'. insertPlaceInDB what iso_date show_place insert_row (setLocation l p) db = Inr db' \<and> rows db' = add_mset row (rows db)"
    if "\<forall>r \<in># rows db. cell ''pk'' r \<noteq> cell ''pk'' row"
    using insert_new [OF len that] row by (auto simp: insertPlaceInDB_def catch_std_def)
  show "\<exists>message. insertPlaceInDB what iso_date show_place insert_row (setLocation l p) db = Inl (SQLDatabaseException message)"
    if "r \<in># rows db" "cell ''pk'' r = cell ''pk'' row"
    using insert_again [OF len that] row by (auto simp: insertPlaceInDB_def catch_std_def)
qed

lemma line_inserted:
  assumes "generateLocation line = Inr l" and "loc_commonName l \<noteq> ''NotAvailable''"
    and "por_row iso_date (new_Place l) = Inr row" and "\<forall>r \<in># rows db. cell ''pk'' r \<noteq> cell ''pk'' row"
  shows "\<exists>p' db'. fill_line what iso_date show_place insert_row generateLocation line (word_of_nat n, p, db) =
    (fill_progress (word_of_nat (Suc n)), Inr (word_of_nat (Suc n), p', db')) \<and> rows db' = add_mset row (rows db)"
  using insert_place(1) [OF assms(3,4), of what show_place p] assms(1,2)
  by (auto simp: fill_line_def call_def say_def bind_io_def Let_def add.commute)

lemma line_refused:
  assumes "generateLocation line = Inr l" and "loc_commonName l \<noteq> ''NotAvailable''"
    and "por_row iso_date (new_Place l) = Inr row" and "r \<in># rows db" and "cell ''pk'' r = cell ''pk'' row"
  shows "\<exists>message. fill_line what iso_date show_place insert_row generateLocation line (n, p, db) = ([], Inl (SQLDatabaseException message))"
  using insert_place(2) [OF assms(3-5), of what show_place p] assms(1,2) by (auto simp: fill_line_def)

text \<open>The keys of the table, and of the rows of the file: all of them are new and different, or the loop stops at the first one
  that is not.\<close>

lemma fill_loop:
  assumes "list_all2 (\<lambda>line l. generateLocation line = Inr l) lines ls"
    and "list_all2 (\<lambda>l row. por_row iso_date (new_Place l) = Inr row) (relevant_locations ls) rws"
  shows "(distinct (map (cell ''pk'') rws) \<and> cell ''pk'' ` set rws \<inter> cell ''pk'' ` set_mset (rows db) = {} \<and>
      (\<exists>p' db'. fold_io (fill_line what iso_date show_place insert_row generateLocation) lines (word_of_nat n, p, db) =
         (output_from n (length rws), Inr (word_of_nat (n + length rws), p', db')) \<and> rows db' = rows db + mset rws)) \<or>
    (\<exists>us row vs message. rws = us @ row # vs \<and> distinct (map (cell ''pk'') us) \<and>
      cell ''pk'' ` set us \<inter> cell ''pk'' ` set_mset (rows db) = {} \<and> cell ''pk'' row \<in> cell ''pk'' ` set us \<union> cell ''pk'' ` set_mset (rows db) \<and>
      fold_io (fill_line what iso_date show_place insert_row generateLocation) lines (word_of_nat n, p, db) =
        (output_from n (length us), Inl (SQLDatabaseException message)))"
    (is "?ok rws db n p lines \<or> ?stop rws db n p lines")
  using assms
proof (induction lines ls arbitrary: n p db rws rule: list_all2_induct)
  case Nil
  then show ?case by (simp add: relevant_locations_def output_from_simps)
next
  case (Cons line lines l ls)
  show ?case
  proof (cases "loc_commonName l = ''NotAvailable''")
    case True
    have "fill_line what iso_date show_place insert_row generateLocation line (word_of_nat n, p, db) = ([], Inr (word_of_nat n, p, db))"
      using True Cons.hyps by (simp add: fill_line_def call_def)
    then have skip: "fold_io (fill_line what iso_date show_place insert_row generateLocation) (line # lines) (word_of_nat n, p, db) =
        fold_io (fill_line what iso_date show_place insert_row generateLocation) lines (word_of_nat n, p, db)" by simp
    have "relevant_locations (l # ls) = relevant_locations ls" using True by (simp add: relevant_locations_def)
    then show ?thesis using Cons.IH [of rws db n p] Cons.prems unfolding skip by simp
  next
    case False
    then have "relevant_locations (l # ls) = l # relevant_locations ls" by (simp add: relevant_locations_def)
    then obtain row rws' where rws: "por_row iso_date (new_Place l) = Inr row" "rws = row # rws'"
      "list_all2 (\<lambda>l row. por_row iso_date (new_Place l) = Inr row) (relevant_locations ls) rws'"
      using Cons.prems by (auto simp: list_all2_Cons1)
    show ?thesis
    proof (cases "\<exists>r \<in># rows db. cell ''pk'' r = cell ''pk'' row")
      case True
      then obtain r where r: "r \<in># rows db" "cell ''pk'' r = cell ''pk'' row" by blast
      from line_refused [where line=line and n="word_of_nat n" and p=p and what=what and show_place=show_place
          and generateLocation=generateLocation, OF Cons.hyps(1) False rws(1) r] obtain message where
        "fill_line what iso_date show_place insert_row generateLocation line (word_of_nat n, p, db) = ([], Inl (SQLDatabaseException message))" by blast
      moreover have "cell ''pk'' row \<in> cell ''pk'' ` set_mset (rows db)" using r by (metis image_eqI)
      ultimately have "?stop rws db n p (line # lines)"
        by (intro exI [of _ "[]"] exI [of _ row] exI [of _ rws'] exI [of _ message]) (simp add: rws(2) output_from_simps)
      then show ?thesis by blast
    next
      case False': False
      then have "\<forall>r \<in># rows db. cell ''pk'' r \<noteq> cell ''pk'' row" by blast
      from line_inserted [where line=line and n=n and p=p and what=what and show_place=show_place
          and generateLocation=generateLocation, OF Cons.hyps(1) False rws(1) this] obtain p' db' where
        run: "fill_line what iso_date show_place insert_row generateLocation line (word_of_nat n, p, db) =
          (fill_progress (word_of_nat (Suc n)), Inr (word_of_nat (Suc n), p', db'))" "rows db' = add_mset row (rows db)" by blast
      have unfold: "fold_io (fill_line what iso_date show_place insert_row generateLocation) (line # lines) (word_of_nat n, p, db) =
          (fill_progress (word_of_nat (Suc n)) @ fst (fold_io (fill_line what iso_date show_place insert_row generateLocation) lines (word_of_nat (Suc n), p', db')),
           snd (fold_io (fill_line what iso_date show_place insert_row generateLocation) lines (word_of_nat (Suc n), p', db')))"
        unfolding fold_io.simps run(1) by (rule io_simps)
      from Cons.IH [OF rws(3), of db' "Suc n" p'] show ?thesis
      proof
        assume ok: "?ok rws' db' (Suc n) p' lines"
        then obtain p2 db2 where "fold_io (fill_line what iso_date show_place insert_row generateLocation) lines (word_of_nat (Suc n), p', db') =
            (output_from (Suc n) (length rws'), Inr (word_of_nat (Suc n + length rws'), p2, db2))"
          "rows db2 = rows db' + mset rws'" by blast
        then have "\<exists>p' db'. fold_io (fill_line what iso_date show_place insert_row generateLocation) (line # lines) (word_of_nat n, p, db) =
           (output_from n (length rws), Inr (word_of_nat (n + length rws), p', db')) \<and> rows db' = rows db + mset rws"
          unfolding unfold by (simp add: rws(2) run(2) output_from_simps)
        moreover have "distinct (map (cell ''pk'') rws)" "cell ''pk'' ` set rws \<inter> cell ''pk'' ` set_mset (rows db) = {}"
          using ok False' by (auto simp: rws(2) run(2))
        ultimately show ?thesis by blast
      next
        assume "?stop rws' db' (Suc n) p' lines"
        then obtain us r vs message where stop: "rws' = us @ r # vs" "distinct (map (cell ''pk'') us)"
          "cell ''pk'' ` set us \<inter> cell ''pk'' ` set_mset (rows db') = {}"
          "cell ''pk'' r \<in> cell ''pk'' ` set us \<union> cell ''pk'' ` set_mset (rows db')"
          "fold_io (fill_line what iso_date show_place insert_row generateLocation) lines (word_of_nat (Suc n), p', db') =
            (output_from (Suc n) (length us), Inl (SQLDatabaseException message))" by blast
        have "distinct (map (cell ''pk'') (row # us))" "cell ''pk'' ` set (row # us) \<inter> cell ''pk'' ` set_mset (rows db) = {}"
          "cell ''pk'' r \<in> cell ''pk'' ` set (row # us) \<union> cell ''pk'' ` set_mset (rows db)"
          using stop(2-4) False' by (auto simp: run(2))
        moreover have "fold_io (fill_line what iso_date show_place insert_row generateLocation) (line # lines) (word_of_nat n, p, db) =
            (output_from n (length (row # us)), Inl (SQLDatabaseException message))"
          unfolding unfold stop(5) by (simp add: output_from_simps)
        ultimately have "?stop rws db n p (line # lines)"
          by (intro exI [of _ "row # us"] exI [of _ r] exI [of _ vs] exI [of _ message]) (simp add: rws(2) stop(1))
        then show ?thesis by blast
      qed
    qed
  qed
qed

text \<open>Filling an empty table.\<close>

lemma fill_table:
  assumes "list_all2 (\<lambda>line l. generateLocation line = Inr l) lines ls" and "relevant_rows iso_date ls = Inr rws"
    and "rows db = {#}" and "distinct (map primary_key (relevant_locations ls))"
  shows "\<exists>db'. fillInFromPORFile what iso_date show_place insert_row generateLocation lines p (Some db) =
    (fill_output (length rws), Inr (word_of_nat (length rws), Some db')) \<and> rows db' = mset rws"
proof -
  note related = relevant_rows_list [OF assms(2)]
  have "distinct (map (cell ''pk'') rws)" using assms(4) distinct_rows [OF related] by blast
  with fill_loop [OF assms(1) related, where db=db and n=0 and p=p and what=what and show_place=show_place] obtain p' db' where
    "fold_io (fill_line what iso_date show_place insert_row generateLocation) lines (word_of_nat 0, p, db) =
      (output_from 0 (length rws), Inr (word_of_nat (0 + length rws), p', db'))" "rows db' = rows db + mset rws"
    by (fastforce simp: assms(3))
  then show ?thesis
    by (intro exI [of _ db']) (simp add: fillInFromPORFile_def fill_output_def output_from_def assms(3) call_def)
qed

lemma fill_table_stops:
  assumes "list_all2 (\<lambda>line l. generateLocation line = Inr l) lines ls" and "relevant_rows iso_date ls = Inr rws"
    and "rows db = {#}" and "\<not> distinct (map primary_key (relevant_locations ls))"
  shows "\<exists>us l vs message. relevant_locations ls = us @ l # vs \<and> distinct (map primary_key us) \<and>
    primary_key l \<in> primary_key ` set us \<and>
    fillInFromPORFile what iso_date show_place insert_row generateLocation lines p (Some db) =
      (fill_output (length us), Inl (SQLDatabaseException message))"
proof -
  note related = relevant_rows_list [OF assms(2)]
  have "\<not> distinct (map (cell ''pk'') rws)" using assms(4) distinct_rows [OF related] by blast
  with fill_loop [OF assms(1) related, where db=db and n=0 and p=p and what=what and show_place=show_place] obtain rus row rvs message where
    split: "rws = rus @ row # rvs" "distinct (map (cell ''pk'') rus)" "cell ''pk'' row \<in> cell ''pk'' ` set rus"
    "fold_io (fill_line what iso_date show_place insert_row generateLocation) lines (word_of_nat 0, p, db) =
      (output_from 0 (length rus), Inl (SQLDatabaseException message))"
    by (auto simp: assms(3))
  from related [unfolded split(1)] obtain us l vs where ls: "relevant_locations ls = us @ l # vs"
    "list_all2 (\<lambda>l row. por_row iso_date (new_Place l) = Inr row) us rus" "por_row iso_date (new_Place l) = Inr row"
    by (auto simp: list_all2_append2 list_all2_Cons2)
  have "distinct (map primary_key us)" using split(2) distinct_rows [OF ls(2)] by blast
  moreover have "primary_key l \<in> primary_key ` set us" using rows_key_set [OF ls(2,3)] split(3) by simp
  moreover have "fillInFromPORFile what iso_date show_place insert_row generateLocation lines p (Some db) =
      (fill_output (length us), Inl (SQLDatabaseException message))"
    using split(4) list_all2_lengthD [OF ls(2)] by (simp add: fillInFromPORFile_def fill_output_def output_from_def)
  ultimately show ?thesis using ls(1) by blast
qed

section \<open>Looking records up\<close>

lemma select_found:
  assumes "list_all2 (\<lambda>l row. por_row iso_date (new_Place l) = Inr row) ls rws" and "rows db = mset rws"
    and "\<forall>l \<in> set ls. parse (loc_rawDataString l) = Inr l"
    and "\<And>l row. por_row iso_date (new_Place l) = Inr row \<Longrightarrow> row_matches query row \<longleftrightarrow> sel l"
  shows "delivers locs kw (filter sel ls) (getPORBy what parse kw (prepare (connect db) query) locs)"
proof -
  from select [of db query] obtain data where data: "sq_select (connect db) query = Inr (data, None)"
    "mset data = image_mset serialised (filter_mset (row_matches query) (rows db))" by blast
  have "mset (map serialised (filter (row_matches query) rws)) = mset (map loc_rawDataString (filter sel ls))"
    using assms(1) by (induction rule: list_all2_induct) (simp_all add: assms(4) row_of_location(8))
  then have "mset data = mset (map loc_rawDataString (filter sel ls))" using data(2) assms(2) by simp
  then obtain found where found: "data = map loc_rawDataString found" "mset found = mset (filter sel ls)"
    by (metis mset_map ex_mset_map)
  have "set found \<subseteq> set ls" using mset_eq_setD [OF found(2)] by auto
  then have parsed: "list_all2 (\<lambda>row l. parse row = Inr l) data found"
    using assms(3) unfolding found(1) by (auto simp: list.rel_map intro!: list_all2_same [THEN iffD2])
  have "length data = length (filter sel ls)" using found by (metis length_map size_mset)
  then show ?thesis using found(2)
    by (auto simp: delivers_def prepare_def data(1) getPORBy_returns [OF parsed])
qed

text \<open>The four lookups on a table that holds the rows of a list of locations.\<close>

lemma table_lookups:
  assumes "relevant_rows iso_date ls = Inr rws" and "rows db = mset rws" and "\<forall>l \<in> set ls. parse (loc_rawDataString l) = Inr l"
  shows "delivers locs code (filter (\<lambda>l. lk_iataCode (loc_key l) = map toupper code) (relevant_locations ls))
      (getPORByIATACode what parse (connect db) code locs False)"
    and "delivers locs code (filter (\<lambda>l. loc_icaoCode l = map toupper code) (relevant_locations ls))
      (getPORByICAOCode what parse (connect db) code locs)"
    and "delivers locs code (filter (\<lambda>l. loc_faaCode l = map toupper code) (relevant_locations ls))
      (getPORByFAACode what parse (connect db) code locs)"
    and "delivers locs (show_int n) (filter (\<lambda>l. lk_geonamesID (loc_key l) = n) (relevant_locations ls))
      (getPORByGeonameID what parse (connect db) n locs)"
proof -
  have "\<forall>l \<in> set (relevant_locations ls). parse (loc_rawDataString l) = Inr l"
    using assms(3) by (simp add: relevant_locations_def)
  note lookup = select_found [where parse=parse and what=what, OF relevant_rows_list [OF assms(1)] assms(2) this]
  have "getPORByIATACode what parse (connect db) code locs False =
      bindE (getPORBy what parse code (prepare (connect db) (Iata_code (map toupper code))) []) (\<lambda>(n, ls). Inr (n, locs @ ls))"
    by (simp add: getPORByIATACode_def prepareSelectBlobOnIataCodeStatement_def case_prod_beta')
  moreover have "delivers [] code (filter (\<lambda>l. lk_iataCode (loc_key l) = map toupper code) (relevant_locations ls))
      (getPORBy what parse code (prepare (connect db) (Iata_code (map toupper code))) [])"
    by (rule lookup) (rule row_of_location(4))
  ultimately show "delivers locs code (filter (\<lambda>l. lk_iataCode (loc_key l) = map toupper code) (relevant_locations ls))
      (getPORByIATACode what parse (connect db) code locs False)"
    by (auto simp: delivers_def)
  show "delivers locs code (filter (\<lambda>l. loc_icaoCode l = map toupper code) (relevant_locations ls))
      (getPORByICAOCode what parse (connect db) code locs)"
    unfolding getPORByICAOCode_def prepareSelectBlobOnIcaoCodeStatement_def by (rule lookup) (rule row_of_location(5))
  show "delivers locs code (filter (\<lambda>l. loc_faaCode l = map toupper code) (relevant_locations ls))
      (getPORByFAACode what parse (connect db) code locs)"
    unfolding getPORByFAACode_def prepareSelectBlobOnFaaCodeStatement_def by (rule lookup) (rule row_of_location(6))
  show "delivers locs (show_int n) (filter (\<lambda>l. lk_geonamesID (loc_key l) = n) (relevant_locations ls))
      (getPORByGeonameID what parse (connect db) n locs)"
    unfolding getPORByGeonameID_def prepareSelectBlobOnPlaceGeoIDStatement_def by (rule lookup) (rule row_of_location(7))
qed

end

section \<open>Properties\<close>

text \<open>C21: What is filled in is found. An empty table is filled from a file whose records all parse. If no two relevant
  records have the same primary key, there is one row per relevant record, the count is theirs, the progress is written after every
  thousandth, and listing by IATA code, ICAO code, FAA code or Geonames identifier then gives exactly the relevant records that
  carry it (for the codes, in upper case), in some order, with their number and with the code as their corrected keywords. If two
  have, the filling writes the progress up to the first record whose key is there already, and throws an SQLDatabaseException.\<close>

theorem sql_roundtrip:
  assumes "por_table insert_row connect rows" and "rows db = {#}"
    and "\<forall>l \<in> set ls. parse (loc_rawDataString l) = Inr l" and "relevant_rows iso_date ls = Inr rws"
  shows "let relevant = relevant_locations ls;
      fill = fillInFromPORFile what iso_date show_place insert_row parse (map loc_rawDataString ls) p (Some db)
    in if distinct (map primary_key relevant) then
         \<exists>table. fill = (fill_output (length relevant), Inr (word_of_nat (length relevant), Some table)) \<and> rows table = mset rws \<and>
           (\<forall>code locs.
             delivers locs code (filter (\<lambda>l. lk_iataCode (loc_key l) = map toupper code) relevant)
               (getPORByIATACode what parse (connect table) code locs False) \<and>
             delivers locs code (filter (\<lambda>l. loc_icaoCode l = map toupper code) relevant)
               (getPORByICAOCode what parse (connect table) code locs) \<and>
             delivers locs code (filter (\<lambda>l. loc_faaCode l = map toupper code) relevant)
               (getPORByFAACode what parse (connect table) code locs)) \<and>
           (\<forall>n locs. delivers locs (show_int n) (filter (\<lambda>l. lk_geonamesID (loc_key l) = n) relevant)
               (getPORByGeonameID what parse (connect table) n locs))
       else \<exists>us l vs message. relevant = us @ l # vs \<and> distinct (map primary_key us) \<and>
              primary_key l \<in> primary_key ` set us \<and> fill = (fill_output (length us), Inl (SQLDatabaseException message))"
proof -
  have lines: "list_all2 (\<lambda>line l. parse line = Inr l) (map loc_rawDataString ls) ls"
    using assms(3) by (auto simp: list.rel_map intro!: list_all2_same [THEN iffD2])
  show ?thesis
  proof (cases "distinct (map primary_key (relevant_locations ls))")
    case True
    have "length rws = length (relevant_locations ls)" using relevant_rows_list [OF assms(4)] by (metis list_all2_lengthD)
    with por_table.fill_table [OF assms(1) lines assms(4,2) True, of what show_place p] obtain table where
      fill: "fillInFromPORFile what iso_date show_place insert_row parse (map loc_rawDataString ls) p (Some db) =
        (fill_output (length (relevant_locations ls)), Inr (word_of_nat (length (relevant_locations ls)), Some table))"
      "rows table = mset rws" by auto
    show ?thesis unfolding Let_def if_P [OF True]
      using fill por_table.table_lookups [OF assms(1,4) fill(2) assms(3)] by blast
  next
    case False
    show ?thesis unfolding Let_def if_not_P [OF False]
      by (rule por_table.fill_table_stops [OF assms(1) lines assms(4,2) False])
  qed
qed

theorem sql_roundtrip_witness:
  "(\<exists>table. fillInFromPORFile (\<lambda>_. []) (\<lambda>_. []) (\<lambda>_. []) table_insert (\<lambda>s. Inr (code_location s))
      [''NCE'', ''NotAvailable''] (new_Place new_Location) (Some []) = ([], Inr (1, Some table)) \<and>
    getPORByIATACode (\<lambda>_. []) (\<lambda>s. Inr (code_location s)) (table_session table) ''nce'' [] False =
      Inr (1, [code_location ''NCE''\<lparr>loc_correctedKeywords := ''nce''\<rparr>])) \<and>
   (\<exists>message. fillInFromPORFile (\<lambda>_. []) (\<lambda>_. []) (\<lambda>_. []) table_insert (\<lambda>s. Inr (code_location s))
      [''NCE'', ''NCE''] (new_Place new_Location) (Some []) = ([], Inl (SQLDatabaseException message)))"
proof -
  let ?parse = "\<lambda>s. Inr (code_location s) :: Location outcome"
  let ?fill = "\<lambda>lines. fillInFromPORFile (\<lambda>_. []) (\<lambda>_. []) (\<lambda>_. []) table_insert ?parse lines (new_Place new_Location) (Some [])"
  let ?row = "[''NCE-C-7'', ''C'', ''NCE'', [], [], ''Y'', ''7'', ''0'', [], [], ''NCE'']"
  have parse: "?parse (loc_rawDataString (code_location s)) = Inr (code_location s)" for s by (simp add: code_location_def)
  have raw: "loc_rawDataString (code_location s) = s" for s by (simp add: code_location_def)
  note trip = sql_roundtrip [where insert_row=table_insert and connect=table_session and rows=mset and db="[]" and parse="?parse"
      and iso_date="\<lambda>_. []" and what="\<lambda>_. []" and show_place="\<lambda>_. []" and p="new_Place new_Location",
      OF listed.por_table_axioms]
  have relevant: "relevant_locations [code_location ''NCE'', code_location ''NotAvailable''] = [code_location ''NCE'']"
    "relevant_locations [code_location ''NCE'', code_location ''NCE''] = [code_location ''NCE'', code_location ''NCE'']"
    by (simp_all add: relevant_locations_def code_location_def)
  have quiet: "fill_output (Suc 0) = []" by (simp add: fill_output_def fill_progress_def)
  have up: "map toupper ''nce'' = ''NCE''" by code_simp
  have iata: "filter (\<lambda>l. lk_iataCode (loc_key l) = map toupper ''nce'') [code_location ''NCE''] = [code_location ''NCE'']"
    unfolding up by (simp add: code_location_def new_LocationKey_def)
  have rows: "distinct (map primary_key [code_location ''NCE''])" by simp
  have lines: "\<forall>l \<in> set [code_location ''NCE'', code_location ''NotAvailable'']. ?parse (loc_rawDataString l) = Inr l"
    using parse by simp
  note found = trip [OF _ lines code_rows, unfolded Let_def relevant if_P [OF rows], OF mset.simps(1)]
  have "\<exists>table. ?fill (map loc_rawDataString [code_location ''NCE'', code_location ''NotAvailable'']) =
        (fill_output (length [code_location ''NCE'']), Inr (word_of_nat (length [code_location ''NCE'']), Some table)) \<and>
      delivers [] ''nce'' (filter (\<lambda>l. lk_iataCode (loc_key l) = map toupper ''nce'') [code_location ''NCE''])
        (getPORByIATACode (\<lambda>_. []) ?parse (table_session table) ''nce'' [] False)"
    using found by blast
  then have first: "\<exists>table. ?fill [''NCE'', ''NotAvailable''] = ([], Inr (1, Some table)) \<and>
      getPORByIATACode (\<lambda>_. []) ?parse (table_session table) ''nce'' [] False =
        Inr (1, [code_location ''NCE''\<lparr>loc_correctedKeywords := ''nce''\<rparr>])"
    unfolding iata by (simp add: raw quiet delivers_def)
  have "relevant_rows (\<lambda>_. []) [code_location ''NCE'', code_location ''NCE''] = Inr [?row, ?row]"
    using code_rows by (auto simp: relevant_rows_def code_location_def bindE_Inr_iff)
  then have "\<exists>message. ?fill [''NCE'', ''NCE''] = ([], Inl (SQLDatabaseException message))"
    using trip [of "[code_location ''NCE'', code_location ''NCE'']" "[?row, ?row]"] parse
    by (auto simp: relevant raw quiet Cons_eq_append_conv)
  with first show ?thesis by blast
qed

end
