(* ===== verification/Services.thy ===== *)
theory Services
  imports Interpreter PorTable
begin

text \<open>
  The services (\<^verbatim>\<open>service/OPENTREP_Service.cpp\<close>), the index manager behind the random draws
  (\<^verbatim>\<open>command/XapianIndexManager.cpp\<close>) and the creation of the SQL database
  (\<^verbatim>\<open>command/DBManager.cpp\<close>). An index is its number of documents and the documents by identifier; the random
  device is the sequence of its draws; the file system and the execution of SQL statements are parameters. The service that fills the
  table writes what DBManager writes.
\<close>

section \<open>Context\<close>

definition K_SQLITE_DB_FILEPATH :: string where
  "K_SQLITE_DB_FILEPATH = ''/tmp/opentrep/sqlite_travel.db''"

definition K_MYSQL_CONN_STRING :: string where
  "K_MYSQL_CONN_STRING = ''db=trep_trep user=trep password=trep''"

definition getSQLConnStr :: "EN_DBType \<Rightarrow> string \<Rightarrow> string" where
  "getSQLConnStr iSQLDBType iSQLDBConnStr =
     (let oSQLDBConnStr = iSQLDBConnStr
      in if iSQLDBType = MYSQL \<and> oSQLDBConnStr = K_SQLITE_DB_FILEPATH then K_MYSQL_CONN_STRING else oSQLDBConnStr)"

definition service_init :: "string \<Rightarrow> string \<Rightarrow> EN_DBType \<Rightarrow> string \<Rightarrow> service_context option" where
  "service_init iPORFilepath iTravelDBFilePath iSQLDBType iSQLDBConnStr =
     Some \<lparr>sc_porFilePath = iPORFilepath, sc_travelDBFilePath = iTravelDBFilePath, sc_sqlDBType = iSQLDBType,
           sc_sqlDBConnectionString = getSQLConnStr iSQLDBType iSQLDBConnStr\<rparr>"

text \<open>The check that opens every service.\<close>

definition with_context :: "service_context option \<Rightarrow> (service_context \<Rightarrow> 'a outcome) \<Rightarrow> 'a outcome" where
  "with_context opentrepServiceContext service =
     (case opentrepServiceContext of
        None \<Rightarrow> Inl (NonInitialisedServiceException ''The OpenTREP service has not been initialised'')
      | Some lOPENTREP_ServiceContext \<Rightarrow> service lOPENTREP_ServiceContext)"

definition getFilePaths :: "service_context option \<Rightarrow> (string \<times> string \<times> string) outcome" where
  "getFilePaths opentrepServiceContext = with_context opentrepServiceContext (\<lambda>lOPENTREP_ServiceContext.
     Inr (sc_porFilePath lOPENTREP_ServiceContext, sc_travelDBFilePath lOPENTREP_ServiceContext,
          sc_sqlDBConnectionString lOPENTREP_ServiceContext))"

definition setSQLDBConnectString :: "service_context option \<Rightarrow> string \<Rightarrow> service_context outcome" where
  "setSQLDBConnectString opentrepServiceContext iSQLDBConnectionString =
     with_context opentrepServiceContext (\<lambda>lOPENTREP_ServiceContext.
       Inr (lOPENTREP_ServiceContext\<lparr>sc_sqlDBConnectionString := iSQLDBConnectionString\<rparr>))"

section \<open>Services on an SQL session\<close>

text \<open>The session that the services on the SQL database open; without a database, the assertion fails.\<close>

definition with_session :: "sql_server \<Rightarrow> service_context option \<Rightarrow> (sql_session \<Rightarrow> 'a outcome) \<Rightarrow> 'a outcome" where
  "with_session server opentrepServiceContext service =
     with_context opentrepServiceContext (\<lambda>lOPENTREP_ServiceContext.
       bindE (initSQLDBSession server (sc_sqlDBType lOPENTREP_ServiceContext)
                (sc_sqlDBConnectionString lOPENTREP_ServiceContext)) (\<lambda>lSociSession_ptr.
         case lSociSession_ptr of None \<Rightarrow> Inl AssertionFailure | Some lSociSession \<Rightarrow> service lSociSession))"

text \<open>The number of database entries is converted to the 16 bits of a number of matches.\<close>

definition to_matches :: "(32 word \<times> Location list) outcome \<Rightarrow> (16 word \<times> Location list) outcome" where
  "to_matches m = bindE m (\<lambda>(n, ioLocationList). Inr (ucast n, ioLocationList))"

definition listByIataCode ::
    "environment \<Rightarrow> service_context option \<Rightarrow> string \<Rightarrow> Location list \<Rightarrow> (16 word \<times> Location list) outcome" where
  "listByIataCode env opentrepServiceContext iIataCode ioLocationList =
     with_session (en_server env) opentrepServiceContext (\<lambda>lSociSession.
       to_matches (getPORByIATACode (en_what env) (en_parse env) lSociSession iIataCode ioLocationList False))"

definition listByIcaoCode ::
    "environment \<Rightarrow> service_context option \<Rightarrow> string \<Rightarrow> Location list \<Rightarrow> (16 word \<times> Location list) outcome" where
  "listByIcaoCode env opentrepServiceContext iIcaoCode ioLocationList =
     with_session (en_server env) opentrepServiceContext (\<lambda>lSociSession.
       to_matches (getPORByICAOCode (en_what env) (en_parse env) lSociSession iIcaoCode ioLocationList))"

definition listByFaaCode ::
    "environment \<Rightarrow> service_context option \<Rightarrow> string \<Rightarrow> Location list \<Rightarrow> (16 word \<times> Location list) outcome" where
  "listByFaaCode env opentrepServiceContext iFaaCode ioLocationList =
     with_session (en_server env) opentrepServiceContext (\<lambda>lSociSession.
       to_matches (getPORByFAACode (en_what env) (en_parse env) lSociSession iFaaCode ioLocationList))"

definition listByGeonameID ::
    "environment \<Rightarrow> service_context option \<Rightarrow> int \<Rightarrow> Location list \<Rightarrow> (16 word \<times> Location list) outcome" where
  "listByGeonameID env opentrepServiceContext iGeonameID ioLocationList =
     with_session (en_server env) opentrepServiceContext (\<lambda>lSociSession.
       to_matches (getPORByGeonameID (en_what env) (en_parse env) lSociSession iGeonameID ioLocationList))"

section \<open>Index manager\<close>

record xapian_index =
  xi_doccount :: "32 word"
  xi_document :: "nat \<Rightarrow> xdoc option"

definition checkTravelDBFilePath :: "(string \<Rightarrow> bool) \<Rightarrow> string \<Rightarrow> string outcome" where
  "checkTravelDBFilePath is_directory iTravelDBFilePath =
     (if \<not> is_directory iTravelDBFilePath then
        Inl (FileNotFoundException (''The file-path to the Xapian database/index ('' @ [CHR 0x27] @ iTravelDBFilePath @
          [CHR 0x27] @ '') does not exist or is not a directory.''))
      else Inr iTravelDBFilePath)"

definition open_index :: "(string \<Rightarrow> string + xapian_index) \<Rightarrow> string \<Rightarrow> xapian_index outcome" where
  "open_index indexes iTravelDBFilePath =
     (case indexes iTravelDBFilePath of Inl msg \<Rightarrow> Inl (XapianError msg) | Inr lXapianDatabase \<Rightarrow> Inr lXapianDatabase)"

definition getSize :: "(string \<Rightarrow> bool) \<Rightarrow> (string \<Rightarrow> string + xapian_index) \<Rightarrow> string \<Rightarrow> 32 word outcome" where
  "getSize is_directory indexes iTravelDBFilePath =
     bindE (checkTravelDBFilePath is_directory iTravelDBFilePath) (\<lambda>_.
     bindE (open_index indexes iTravelDBFilePath) (\<lambda>lXapianDatabase. Inr (xi_doccount lXapianDatabase)))"

text \<open>
  The inner loop, with fuel: another identifier is drawn as long as there is no document for the last one. Its counter is
  never incremented.
\<close>

fun redraw ::
    "nat \<Rightarrow> (nat \<Rightarrow> xdoc option) \<Rightarrow> (nat \<Rightarrow> nat) \<Rightarrow> nat \<Rightarrow> xdoc option \<Rightarrow> 16 word \<Rightarrow> (xdoc option \<times> nat) outcome" where
  "redraw 0 get draw pos lDocPtr currentNbOfIterations = Inl NonTermination"
| "redraw (Suc fuel) get draw pos lDocPtr currentNbOfIterations =
     (if lDocPtr = None \<and> currentNbOfIterations \<le> 100
      then redraw fuel get draw (pos + 1) (get (draw pos)) currentNbOfIterations
      else Inr (lDocPtr, pos))"

text \<open>The loop over the draws, with its counter of 16 bits; the position is the one in the sequence of the draws.\<close>

fun draw_loop ::
    "nat \<Rightarrow> (nat \<Rightarrow> xdoc option) \<Rightarrow> (nat \<Rightarrow> nat) \<Rightarrow> (string \<Rightarrow> Location outcome) \<Rightarrow> 16 word \<Rightarrow> 16 word \<Rightarrow> nat \<Rightarrow>
     Location list \<Rightarrow> Location list outcome" where
  "draw_loop 0 get draw parse iNbOfDraws idx pos ioLocationList = Inl NonTermination"
| "draw_loop (Suc fuel) get draw parse iNbOfDraws idx pos ioLocationList =
     (if idx \<le> iNbOfDraws then
        bindE (redraw fuel get draw (pos + 1) (get (draw pos)) 0) (\<lambda>(lDocPtr, pos).
        bindE (case lDocPtr of
                 None \<Rightarrow> Inr ioLocationList
               | Some lDoc \<Rightarrow> bindE (parse (xd_data lDoc)) (\<lambda>lLocation. Inr (ioLocationList @ [lLocation])))
          (\<lambda>ioLocationList. draw_loop fuel get draw parse iNbOfDraws (idx + 1) pos ioLocationList))
      else Inr ioLocationList)"

definition drawRandomLocations ::
    "nat \<Rightarrow> (string \<Rightarrow> bool) \<Rightarrow> (string \<Rightarrow> string + xapian_index) \<Rightarrow> (32 word \<Rightarrow> nat \<Rightarrow> nat) \<Rightarrow>
     (string \<Rightarrow> Location outcome) \<Rightarrow> string \<Rightarrow> 16 word \<Rightarrow> Location list \<Rightarrow> (16 word \<times> Location list) outcome" where
  "drawRandomLocations fuel is_directory indexes uniformDistrib parse iTravelDBFilePath iNbOfDraws ioLocationList =
     bindE (checkTravelDBFilePath is_directory iTravelDBFilePath) (\<lambda>_.
     bindE (open_index indexes iTravelDBFilePath) (\<lambda>lXapianDatabase.
     bindE (getSize is_directory indexes iTravelDBFilePath) (\<lambda>lTotalNbOfDocs.
       if lTotalNbOfDocs = 0 then Inr (0, ioLocationList)
       else bindE (draw_loop fuel (xi_document lXapianDatabase) (uniformDistrib lTotalNbOfDocs) parse iNbOfDraws 1 0
                     ioLocationList)
              (\<lambda>ioLocationList. Inr (word_of_nat (length ioLocationList), ioLocationList)))))"

definition getIndexSize ::
    "(string \<Rightarrow> bool) \<Rightarrow> (string \<Rightarrow> string + xapian_index) \<Rightarrow> service_context option \<Rightarrow> 32 word outcome" where
  "getIndexSize is_directory indexes opentrepServiceContext =
     with_context opentrepServiceContext (\<lambda>lOPENTREP_ServiceContext.
       getSize is_directory indexes (sc_travelDBFilePath lOPENTREP_ServiceContext))"

definition service_drawRandomLocations ::
    "nat \<Rightarrow> (string \<Rightarrow> bool) \<Rightarrow> (string \<Rightarrow> string + xapian_index) \<Rightarrow> (32 word \<Rightarrow> nat \<Rightarrow> nat) \<Rightarrow>
     (string \<Rightarrow> Location outcome) \<Rightarrow> service_context option \<Rightarrow> 16 word \<Rightarrow> Location list \<Rightarrow>
     (16 word \<times> Location list) outcome" where
  "service_drawRandomLocations fuel is_directory indexes uniformDistrib parse opentrepServiceContext iNbOfDraws ioLocationList =
     with_context opentrepServiceContext (\<lambda>lOPENTREP_ServiceContext.
       drawRandomLocations fuel is_directory indexes uniformDistrib parse (sc_travelDBFilePath lOPENTREP_ServiceContext)
         iNbOfDraws ioLocationList)"

section \<open>When the draws end\<close>

lemma redraw_found:
  assumes "get (draw (pos + n)) \<noteq> None"
  shows "\<exists>m d p. get (draw (p - 1)) = Some d \<and> (\<forall>fuel \<ge> m. redraw fuel get draw (pos + 1) (get (draw pos)) 0 = Inr (Some d, p))"
  using assms
proof (induction n arbitrary: pos)
  case 0
  then obtain d where "get (draw pos) = Some d" by auto
  moreover have "redraw fuel get draw (pos + 1) (Some d) 0 = Inr (Some d, pos + 1)" if "fuel \<ge> 1" for fuel
    using that by (cases fuel) simp_all
  ultimately show ?case by (intro exI [of _ 1] exI [of _ d] exI [of _ "pos + 1"]) simp
next
  case (Suc n)
  show ?case
  proof (cases "get (draw pos)")
    case None
    from Suc.IH [of "pos + 1"] Suc.prems obtain m d p where
      m: "get (draw (p - 1)) = Some d" "\<forall>fuel \<ge> m. redraw fuel get draw (pos + 2) (get (draw (pos + 1))) 0 = Inr (Some d, p)"
      by (auto simp: add.commute)
    have "redraw fuel get draw (pos + 1) (get (draw pos)) 0 = Inr (Some d, p)" if "fuel \<ge> Suc m" for fuel
      using that m(2) None by (cases fuel) simp_all
    with m(1) show ?thesis by blast
  next
    case (Some d)
    have "redraw fuel get draw (pos + 1) (Some d) 0 = Inr (Some d, pos + 1)" if "fuel \<ge> 1" for fuel
      using that by (cases fuel) simp_all
    with Some show ?thesis by (intro exI [of _ 1] exI [of _ d] exI [of _ "pos + 1"]) simp
  qed
qed

lemma draw_loop_returns:
  assumes "\<forall>i. \<exists>j \<ge> i. get (draw j) \<noteq> None"
    and "\<forall>i d. get i = Some d \<longrightarrow> \<not> isl (parse (xd_data d))"
    and "unat idx + n = Suc (unat nb)" and "unat nb < 65535"
  shows "\<exists>m ls. length ls = n \<and> (\<forall>l \<in> set ls. \<exists>i d. get i = Some d \<and> parse (xd_data d) = Inr l) \<and>
    (\<forall>fuel \<ge> m. draw_loop fuel get draw parse nb idx pos locs = Inr (locs @ ls))"
  using assms(3)
proof (induction n arbitrary: idx pos locs)
  case 0
  then have "\<not> idx \<le> nb" by (simp add: word_le_nat_alt)
  then have "draw_loop fuel get draw parse nb idx pos locs = Inr locs" if "fuel \<ge> 1" for fuel
    using that by (cases fuel) simp_all
  then show ?case by (intro exI [of _ 1] exI [of _ "[]"]) simp
next
  case (Suc n)
  have le: "idx \<le> nb" using Suc.prems by (simp add: word_le_nat_alt)
  have "unat (idx + 1) = unat idx + 1" using Suc.prems assms(4) by (intro uint16_succ) simp
  then have idx: "unat (idx + 1) + n = Suc (unat nb)" using Suc.prems by simp
  from assms(1) obtain j where "j \<ge> pos" "get (draw j) \<noteq> None" by blast
  then have "get (draw (pos + (j - pos))) \<noteq> None" by simp
  from redraw_found [where get=get and draw=draw, OF this] obtain m d p where m: "get (draw (p - 1)) = Some d"
    "\<forall>fuel \<ge> m. redraw fuel get draw (pos + 1) (get (draw pos)) 0 = Inr (Some d, p)" by blast
  have "\<not> isl (parse (xd_data d))" using assms(2) m(1) by blast
  then obtain l where l: "parse (xd_data d) = Inr l" by (cases "parse (xd_data d)") auto
  from Suc.IH [OF idx, of p "locs @ [l]"] obtain m' ls where ls: "length ls = n"
    "\<forall>l \<in> set ls. \<exists>i d. get i = Some d \<and> parse (xd_data d) = Inr l"
    "\<forall>fuel \<ge> m'. draw_loop fuel get draw parse nb (idx + 1) p (locs @ [l]) = Inr ((locs @ [l]) @ ls)" by blast
  have "draw_loop fuel get draw parse nb idx pos locs = Inr (locs @ l # ls)" if "fuel \<ge> Suc (max m m')" for fuel
    using that le m(2) l ls(3) by (cases fuel) simp_all
  moreover have "\<forall>l' \<in> set (l # ls). \<exists>i d. get i = Some d \<and> parse (xd_data d) = Inr l'" using ls(2) m(1) l by auto
  ultimately show ?case using ls(1) by (intro exI [of _ "Suc (max m m')"] exI [of _ "l # ls"]) simp
qed

lemma redraw_missing:
  assumes "\<forall>i. get (draw i) = None"
  shows "redraw fuel get draw pos None 0 = Inl NonTermination"
  using assms by (induction fuel arbitrary: pos) simp_all

lemma draw_loop_wraps:
  assumes "\<forall>d :: xdoc. \<not> isl (parse (xd_data d))"
  shows "draw_loop fuel get draw parse (- 1) idx pos locs = Inl NonTermination"
proof (induction fuel arbitrary: idx pos locs)
  case 0
  show ?case by simp
next
  case (Suc fuel)
  have no: "redraw k get draw p x 0 = Inl NonTermination \<or> (\<exists>y q. redraw k get draw p x 0 = Inr (y, q))" for k p x
    by (induction k arbitrary: p x) auto
  have "bindE (case y of None \<Rightarrow> Inr locs | Some lDoc \<Rightarrow> bindE (parse (xd_data lDoc)) (\<lambda>l. Inr (locs @ [l])))
      (\<lambda>ls. draw_loop fuel get draw parse (- 1) (idx + 1) q ls) = Inl NonTermination"
    for y :: "xdoc option" and q
  proof (cases y)
    case None
    then show ?thesis using Suc.IH by simp
  next
    case (Some d)
    have "\<not> isl (parse (xd_data d))" using assms by blast
    then show ?thesis using Some Suc.IH by (cases "parse (xd_data d)") simp_all
  qed
  then show ?case using no [of fuel "pos + 1" "get (draw pos)"] by auto
qed

section \<open>Creation of the SQL database\<close>

text \<open>
  Executing a statement gives the database after it, or a failure: an error of the MySQL back-end
  (\<^verbatim>\<open>soci::mysql_soci_error\<close>) or another exception. A failure leaves the effects of the statements before it, so
  the operations return the database whether they throw or not.
\<close>

datatype sql_failure = Mysql_error string | Other_error string

primrec failure_what :: "sql_failure \<Rightarrow> string" where
  "failure_what (Mysql_error m) = m"
| "failure_what (Other_error m) = m"

record 'db sql_engine =
  eg_backend_name :: "sql_session \<Rightarrow> string"
  eg_execute :: "sql_session \<Rightarrow> string \<Rightarrow> 'db \<Rightarrow> sql_failure + 'db"
  eg_count :: "sql_session \<Rightarrow> 'db \<Rightarrow> sql_failure + 32 word"

fun execute_all :: "(string \<Rightarrow> 'db \<Rightarrow> sql_failure + 'db) \<Rightarrow> string list \<Rightarrow> 'db \<Rightarrow> sql_failure option \<times> 'db" where
  "execute_all exec [] db = (None, db)"
| "execute_all exec (s # ss) db =
     (case exec s db of Inl e \<Rightarrow> (Some e, db) | Inr db \<Rightarrow> execute_all exec ss db)"

definition grant_statement :: "string \<Rightarrow> string" where
  "grant_statement host =
     ''grant SELECT, INSERT, UPDATE, DELETE, CREATE, DROP, FILE, INDEX,'' @
     '' ALTER, CREATE TEMPORARY TABLES, CREATE VIEW, EVENT, TRIGGER, SHOW VIEW,'' @
     '' CREATE ROUTINE, ALTER ROUTINE, EXECUTE ON *.*'' @
     '' to '' @ [CHR 0x27] @ ''trep'' @ [CHR 0x27] @ ''@'' @ [CHR 0x27] @ host @ [CHR 0x27] @
     '' identified by '' @ [CHR 0x27] @ ''trep'' @ [CHR 0x27] @ '';''"

definition mysql_user_statements :: "string list" where
  "mysql_user_statements =
     [grant_statement ''localhost'', grant_statement ''%'', ''flush privileges;'',
      ''drop database if exists trep_trep;'',
      ''create database if not exists trep_trep'' @ '' default character set utf8'' @ '' collate utf8_unicode_ci;'']"

definition table_columns_text :: string where
  "table_columns_text = ''create table ori_por ('' @ ''pk varchar(20) NOT NULL, '' @
     ''location_type varchar(4) default NULL, '' @ ''iata_code varchar(3) default NULL, '' @
     ''icao_code varchar(4) default NULL, '' @ ''faa_code varchar(4) default NULL, '' @
     ''is_geonames varchar(1) default NULL, '' @ ''geoname_id int(11) default NULL, '' @
     ''envelope_id int(11) default NULL, '' @ ''date_from date default NULL, '' @
     ''date_until date default NULL, ''"

definition sqlite_table_statements :: "string list" where
  "sqlite_table_statements =
     [''drop table if exists ori_por;'',
      table_columns_text @ ''serialised_place varchar(8000) default NULL, '' @ ''primary key (pk)); '']"

definition mysql_table_statements :: "string list" where
  "mysql_table_statements =
     [''drop table if exists ori_por;'',
      table_columns_text @ ''serialised_place varchar(8000) default NULL); '']"

definition sqlite_index_statements :: "string list" where
  "sqlite_index_statements =
     [''create index ori_por_iata_code on ori_por (iata_code);'',
      ''create index ori_por_iata_date on ori_por (iata_code, date_from, date_until);'',
      ''create index ori_por_icao_code on ori_por (icao_code);'',
      ''create index ori_por_geonameid on ori_por (geoname_id);'']"

definition mysql_index_statements :: "string list" where
  "mysql_index_statements =
     [''alter table ori_por add unique index ori_por_pk (pk asc);'',
      ''alter table ori_por add index ori_por_iata_code (iata_code asc);'',
      ''alter table ori_por add index ori_por_iata_date (iata_code asc, date_from asc, date_until asc);'',
      ''alter table ori_por add index ori_por_icao_code (icao_code asc);'',
      ''alter table ori_por add index ori_por_geonameid (geoname_id asc);'']"

text \<open>A \<^verbatim>\<open>try\<close> block of statements whose failures are thrown again.\<close>

definition create_with ::
    "(string \<Rightarrow> trep_error) \<Rightarrow> string \<Rightarrow> (string \<Rightarrow> 'db \<Rightarrow> sql_failure + 'db) \<Rightarrow> string list \<Rightarrow> 'db \<Rightarrow> unit outcome \<times> 'db" where
  "create_with throw message exec statements db =
     (case execute_all exec statements db of
        (None, db) \<Rightarrow> (Inr (), db)
      | (Some lException, db) \<Rightarrow> (Inl (throw (message @ failure_what lException)), db))"

definition createSQLDBTables :: "'db sql_engine \<Rightarrow> sql_session \<Rightarrow> 'db \<Rightarrow> unit outcome \<times> 'db" where
  "createSQLDBTables engine ioSociSession db =
     (let lDBName = eg_backend_name engine ioSociSession
      in case DBType_of_string lDBName of
           Inl e \<Rightarrow> (Inl e, db)
         | Inr lDBType \<Rightarrow>
             if lDBType = SQLITE3 then
               create_with SQLDatabaseTableCreationException ''Error when trying to create SQLite3 tables: ''
                 (eg_execute engine ioSociSession) sqlite_table_statements db
             else if lDBType = MYSQL then
               create_with SQLDatabaseTableCreationException ''Error when trying to create MySQL/MariaDB tables: ''
                 (eg_execute engine ioSociSession) mysql_table_statements db
             else if lDBType = NODB then (Inr (), db)
             else (Inl (SQLDatabaseTableCreationException (''Error: the '' @ [CHR 0x27] @ lDBName @ [CHR 0x27] @
                    '' SQL database type is not supported'')), db))"

definition createSQLDBIndexes :: "'db sql_engine \<Rightarrow> sql_session \<Rightarrow> 'db \<Rightarrow> unit outcome \<times> 'db" where
  "createSQLDBIndexes engine ioSociSession db =
     (let lDBName = eg_backend_name engine ioSociSession
      in case DBType_of_string lDBName of
           Inl e \<Rightarrow> (Inl e, db)
         | Inr lDBType \<Rightarrow>
             if lDBType = SQLITE3 then
               create_with SQLDatabaseIndexCreationException ''Error when trying to create SQLite3 indexes: ''
                 (eg_execute engine ioSociSession) sqlite_index_statements db
             else if lDBType = MYSQL then
               create_with SQLDatabaseIndexCreationException ''Error when trying to create MySQL/MariaDB indexes: ''
                 (eg_execute engine ioSociSession) mysql_index_statements db
             else if lDBType = NODB then (Inr (), db)
             else (Inl (SQLDatabaseIndexCreationException (''Error: the '' @ [CHR 0x27] @ lDBName @ [CHR 0x27] @
                    '' SQL database type is not supported'')), db))"

text \<open>The file system: clearing a path and creating directories may fail.\<close>

record 'fs file_system =
  fs_remove_all :: "string \<Rightarrow> 'fs \<Rightarrow> string option \<times> 'fs"
  fs_create_directories :: "string \<Rightarrow> 'fs \<Rightarrow> string option \<times> 'fs"
  fs_is_directory :: "string \<Rightarrow> 'fs \<Rightarrow> bool"

definition createSQLDBUser ::
    "'fs file_system \<Rightarrow> 'db sql_engine \<Rightarrow> sql_server \<Rightarrow> (trep_error \<Rightarrow> string) \<Rightarrow> EN_DBType \<Rightarrow> string \<Rightarrow> 'fs \<Rightarrow> 'db \<Rightarrow>
     bool outcome \<times> 'fs \<times> 'db" where
  "createSQLDBUser files engine server what iDBType iSQLDBConnStr fs db =
     (if iDBType = SQLITE3 then
        let lSQLiteDBParentPath = sv_parent_path server iSQLDBConnStr;
            failed = (\<lambda>lException. Inl (SQLDatabaseFileCannotBeCreatedException
              (''Error when trying to create '' @ iSQLDBConnStr @ '' SQLite3 database file: '' @ lException @
               ''. Check that the program has got write permission on the '' @ ''corresponding parent directories.'')))
        in (case fs_remove_all files iSQLDBConnStr fs of
              (Some lException, fs) \<Rightarrow> (failed lException, fs, db)
            | (None, fs) \<Rightarrow>
              (case fs_create_directories files lSQLiteDBParentPath fs of
                 (Some lException, fs) \<Rightarrow> (failed lException, fs, db)
               | (None, fs) \<Rightarrow>
                   if \<not> fs_is_directory files lSQLiteDBParentPath fs then
                     (failed (what (FileNotFoundException
                        (''Error. The path to the SQLite3 database directory ('' @ [CHR 0x27] @
                         sv_show_path server lSQLiteDBParentPath @ [CHR 0x27] @
                         '') does not exist or is not a directory.''))), fs, db)
                   else (Inr True, fs, db)))
      else if iDBType = MYSQL then
        let message = ''Error when trying to create MySQL/MariaDB '' @ [CHR 0x27] @ ''trep'' @ [CHR 0x27] @ '' user '' @
              ''and '' @ [CHR 0x27] @ ''trep_trep'' @ [CHR 0x27] @ '' database: ''
        in (case initSQLDBSession server iDBType iSQLDBConnStr of
              Inl e \<Rightarrow> (Inl (if is_std_exception e then SQLDatabaseUserCreationException (message @ what e) else e), fs, db)
            | Inr None \<Rightarrow> (Inr False, fs, db)
            | Inr (Some lSociSession) \<Rightarrow>
                (case execute_all (eg_execute engine lSociSession) mysql_user_statements db of
                   (None, db) \<Rightarrow> (Inr True, fs, db)
                 | (Some (Mysql_error m), db) \<Rightarrow> (Inr False, fs, db)
                 | (Some (Other_error m), db) \<Rightarrow> (Inl (SQLDatabaseUserCreationException (message @ m)), fs, db)))
      else (Inr True, fs, db))"

definition displayCount :: "'db sql_engine \<Rightarrow> sql_session \<Rightarrow> 'db \<Rightarrow> 32 word outcome" where
  "displayCount engine ioSociSession db =
     (case eg_count engine ioSociSession db of
        Inl lException \<Rightarrow> Inl (SQLDatabaseIndexCreationException
          (''Error when trying to count the number of rows in the ori_por table: '' @ failure_what lException))
      | Inr oNbOfEntries \<Rightarrow> Inr oNbOfEntries)"

section \<open>Services on the creation\<close>

text \<open>The services around an operation that changes the database.\<close>

definition with_session_on ::
    "sql_server \<Rightarrow> service_context option \<Rightarrow> 'db \<Rightarrow> (sql_session \<Rightarrow> unit outcome \<times> 'db) \<Rightarrow> unit outcome \<times> 'db" where
  "with_session_on server opentrepServiceContext db operation =
     (case with_session server opentrepServiceContext Inr of
        Inl e \<Rightarrow> (Inl e, db)
      | Inr lSociSession \<Rightarrow> operation lSociSession)"

definition service_createSQLDBTables ::
    "'db sql_engine \<Rightarrow> sql_server \<Rightarrow> service_context option \<Rightarrow> 'db \<Rightarrow> unit outcome \<times> 'db" where
  "service_createSQLDBTables engine server opentrepServiceContext db =
     with_session_on server opentrepServiceContext db (\<lambda>lSociSession. createSQLDBTables engine lSociSession db)"

definition service_createSQLDBIndexes ::
    "'db sql_engine \<Rightarrow> sql_server \<Rightarrow> service_context option \<Rightarrow> 'db \<Rightarrow> unit outcome \<times> 'db" where
  "service_createSQLDBIndexes engine server opentrepServiceContext db =
     with_session_on server opentrepServiceContext db (\<lambda>lSociSession. createSQLDBIndexes engine lSociSession db)"

definition service_createSQLDBUser ::
    "'fs file_system \<Rightarrow> 'db sql_engine \<Rightarrow> sql_server \<Rightarrow> (trep_error \<Rightarrow> string) \<Rightarrow> service_context option \<Rightarrow> 'fs \<Rightarrow> 'db \<Rightarrow>
     bool outcome \<times> 'fs \<times> 'db" where
  "service_createSQLDBUser files engine server what opentrepServiceContext fs db =
     (case with_context opentrepServiceContext Inr of
        Inl e \<Rightarrow> (Inl e, fs, db)
      | Inr lOPENTREP_ServiceContext \<Rightarrow>
          createSQLDBUser files engine server what (sc_sqlDBType lOPENTREP_ServiceContext)
            (sc_sqlDBConnectionString lOPENTREP_ServiceContext) fs db)"

definition getNbOfPORFromDB :: "'db sql_engine \<Rightarrow> sql_server \<Rightarrow> service_context option \<Rightarrow> 'db \<Rightarrow> 32 word outcome" where
  "getNbOfPORFromDB engine server opentrepServiceContext db =
     with_session server opentrepServiceContext (\<lambda>lSociSession. displayCount engine lSociSession db)"

definition service_fillInFromPORFile ::
    "environment \<Rightarrow> (date \<Rightarrow> string) \<Rightarrow> (Place \<Rightarrow> string) \<Rightarrow> (string list \<Rightarrow> 'db \<Rightarrow> string + 'db) \<Rightarrow>
     (string \<Rightarrow> string list outcome) \<Rightarrow> service_context option \<Rightarrow> 'db \<Rightarrow> (32 word \<times> 'db) io" where
  "service_fillInFromPORFile env iso_date show_place insert_row por_file opentrepServiceContext db =
     bind_io (call (with_context opentrepServiceContext Inr)) (\<lambda>lOPENTREP_ServiceContext.
     bind_io (call (initSQLDBSession (en_server env) (sc_sqlDBType lOPENTREP_ServiceContext)
                (sc_sqlDBConnectionString lOPENTREP_ServiceContext))) (\<lambda>lSociSession_ptr.
       case lSociSession_ptr of
         None \<Rightarrow> call (Inr (0, db))
       | Some lSociSession \<Rightarrow>
           bind_io (call (por_file (sc_porFilePath lOPENTREP_ServiceContext))) (\<lambda>lPORFileStream.
           bind_io (fillInFromPORFile (en_what env) iso_date show_place insert_row (en_parse env) lPORFileStream
                      default_Place (Some db)) (\<lambda>(oNbOfEntries, sql).
             call (Inr (oNbOfEntries, the sql))))))"

section \<open>The columns of the table\<close>

text \<open>The names of the columns that a statement creates.\<close>

definition columns :: "string \<Rightarrow> string list" where
  "columns s = filter (\<lambda>c. c \<noteq> ''primary'')
     (map (\<lambda>item. hd (split_tokens '' '' item)) (split_tokens '','' (tl (dropWhile (\<lambda>c. c \<noteq> CHR ''('') s))))"

lemma columns_por: "columns (sqlite_table_statements ! 1) = por_columns" "columns (mysql_table_statements ! 1) = por_columns"
  by code_simp+

section \<open>Properties\<close>

text \<open>C29: Drawing less than 65535 random locations ends, provided that a document keeps being drawn and that the documents
  parse: whatever the draws that miss, the result has exactly the number of locations that was asked for, after those
  that were there, and each is the record of a document of the index.\<close>

theorem random_draws:
  assumes "is_directory path" and "indexes path = Inr ix" and "xi_doccount ix \<noteq> 0"
    and "\<forall>i. \<exists>j \<ge> i. xi_document ix (uniformDistrib (xi_doccount ix) j) \<noteq> None"
    and "\<forall>i d. xi_document ix i = Some d \<longrightarrow> \<not> isl (parse (xd_data d))" and "unat nb < 65535"
  shows "\<exists>m ls. length ls = unat nb \<and> (\<forall>l \<in> set ls. \<exists>i d. xi_document ix i = Some d \<and> parse (xd_data d) = Inr l) \<and>
    (\<forall>fuel \<ge> m. drawRandomLocations fuel is_directory indexes uniformDistrib parse path nb locs =
       Inr (word_of_nat (length (locs @ ls)), locs @ ls))"
proof -
  have "unat (1 :: 16 word) + unat nb = Suc (unat nb)" by simp
  from draw_loop_returns [OF assms(4,5) this assms(6), of 0 locs] obtain m ls where ls: "length ls = unat nb"
    "\<forall>l \<in> set ls. \<exists>i d. xi_document ix i = Some d \<and> parse (xd_data d) = Inr l"
    "\<forall>fuel \<ge> m. draw_loop fuel (xi_document ix) (uniformDistrib (xi_doccount ix)) parse nb 1 0 locs = Inr (locs @ ls)"
    by blast
  have "drawRandomLocations fuel is_directory indexes uniformDistrib parse path nb locs =
      Inr (word_of_nat (length (locs @ ls)), locs @ ls)" if "fuel \<ge> m" for fuel
    using ls(3) that assms(1-3)
    by (simp add: drawRandomLocations_def checkTravelDBFilePath_def open_index_def getSize_def)
  with ls(1,2) show ?thesis by blast
qed

text \<open>An index with a gap: two documents, of identifiers 1 and 3, and draws that alternate between 2 and 1.\<close>

definition gap_index :: xapian_index where
  "gap_index = \<lparr>xi_doccount = 2, xi_document = (\<lambda>i. if i = 1 \<or> i = 3 then Some \<lparr>xd_docid = i, xd_data = ''NCE''\<rparr> else None)\<rparr>"

theorem random_draws_witness:
  "\<exists>m ls. length ls = 2 \<and> (\<forall>fuel. m \<le> fuel \<longrightarrow> drawRandomLocations fuel (\<lambda>_. True) (\<lambda>_. Inr gap_index) (\<lambda>n i. 2 - i mod 2)
       (\<lambda>s. Inr (code_location s)) ''/tmp/xapian'' 2 [] = Inr (2, ls))"
proof -
  have draws: "\<forall>i. \<exists>j \<ge> i. xi_document gap_index (2 - j mod 2) \<noteq> None"
  proof
    fix i :: nat
    show "\<exists>j \<ge> i. xi_document gap_index (2 - j mod 2) \<noteq> None"
      by (rule exI [of _ "2 * i + 1"]) (simp add: gap_index_def mod_Suc)
  qed
  from random_draws [where is_directory="\<lambda>_. True" and indexes="\<lambda>_. Inr gap_index" and path="''/tmp/xapian''" and ix=gap_index
      and uniformDistrib="\<lambda>n i. 2 - i mod 2" and parse="\<lambda>s. Inr (code_location s)" and nb=2 and locs="[]", OF _ _ _ draws]
  obtain m ls where "length ls = 2" "\<forall>fuel \<ge> m. drawRandomLocations fuel (\<lambda>_. True) (\<lambda>_. Inr gap_index) (\<lambda>n i. 2 - i mod 2)
       (\<lambda>s. Inr (code_location s)) ''/tmp/xapian'' 2 [] = Inr (word_of_nat (length ([] @ ls)), [] @ ls)"
    by (auto simp: gap_index_def)
  then show ?thesis by (intro exI [of _ m] exI [of _ ls]) simp
qed

text \<open>The draws need not end: the guard of 100 attempts counts nothing, so draws that keep missing are repeated for
  ever; and asking for 65535 locations never ends, since the counter of 16 bits never exceeds that number.\<close>

theorem random_draws_endless:
  assumes "is_directory path" and "indexes path = Inr ix" and "xi_doccount ix \<noteq> 0" and "1 \<le> nb"
    and "(\<forall>i. xi_document ix (uniformDistrib (xi_doccount ix) i) = None) \<or>
      nb = 65535 \<and> (\<forall>d :: xdoc. \<not> isl (parse (xd_data d)))"
  shows "drawRandomLocations fuel is_directory indexes uniformDistrib parse path nb locs = Inl NonTermination"
proof -
  have "draw_loop fuel (xi_document ix) (uniformDistrib (xi_doccount ix)) parse nb 1 0 locs = Inl NonTermination"
    using assms(5)
  proof
    assume none: "\<forall>i. xi_document ix (uniformDistrib (xi_doccount ix) i) = None"
    show ?thesis
      by (cases fuel) (use assms(4) none redraw_missing [where get="xi_document ix" and
        draw="uniformDistrib (xi_doccount ix)", OF none] in simp_all)
  next
    assume nb: "nb = 65535 \<and> (\<forall>d :: xdoc. \<not> isl (parse (xd_data d)))"
    then have "nb = - 1" by simp
    show ?thesis unfolding \<open>nb = - 1\<close> by (rule draw_loop_wraps) (use nb in blast)
  qed
  then show ?thesis
    using assms(1-3) by (simp add: drawRandomLocations_def checkTravelDBFilePath_def open_index_def getSize_def)
qed

theorem random_draws_endless_witness:
  "\<forall>fuel. drawRandomLocations fuel (\<lambda>_. True) (\<lambda>_. Inr gap_index) (\<lambda>n i. 2) (\<lambda>s. Inr (code_location s)) ''/tmp/xapian'' 1 [] =
    Inl NonTermination"
  using random_draws_endless [of "\<lambda>_. True" "''/tmp/xapian''" "\<lambda>_. Inr gap_index" gap_index 1 "\<lambda>n i. 2" "\<lambda>s. Inr (code_location s)"]
  by (simp add: gap_index_def)

text \<open>A service whose context has no SQL database cannot list, count or create anything: the connection returns no
  session and the assertion on it fails. Only the filling returns, with no entry; and a service without a context
  always throws the same exception.\<close>

theorem services_without_database:
  "list_all (\<lambda>r. r = Inl AssertionFailure)
     [listByIataCode env (service_init por index NODB conn) code locs, listByIcaoCode env (service_init por index NODB conn) code locs,
      listByFaaCode env (service_init por index NODB conn) code locs, listByGeonameID env (service_init por index NODB conn) n locs] \<and>
   service_createSQLDBTables engine (en_server env) (service_init por index NODB conn) db = (Inl AssertionFailure, db) \<and>
   service_createSQLDBIndexes engine (en_server env) (service_init por index NODB conn) db = (Inl AssertionFailure, db) \<and>
   getNbOfPORFromDB engine (en_server env) (service_init por index NODB conn) db = Inl AssertionFailure \<and>
   service_fillInFromPORFile env iso_date show_place insert_row por_file (service_init por index NODB conn) db = ([], Inr (0, db)) \<and>
   list_all (\<lambda>r. r = Inl (NonInitialisedServiceException ''The OpenTREP service has not been initialised''))
     [listByIataCode env None code locs, listByIcaoCode env None code locs, listByFaaCode env None code locs,
      listByGeonameID env None n locs]"
  by (simp add: listByIataCode_def listByIcaoCode_def listByFaaCode_def listByGeonameID_def with_session_def with_context_def
    service_init_def initSQLDBSession_def service_createSQLDBTables_def service_createSQLDBIndexes_def with_session_on_def
    getNbOfPORFromDB_def service_fillInFromPORFile_def call_def)

end
