(* ===== verification/Unicode.thy ===== *)
theory Unicode
  imports Prelude
begin

text \<open>
  The conversions between UTF-8 and wide strings: \<^verbatim>\<open>basic/UTF8Handler.cpp\<close>. A \<^verbatim>\<open>wchar_t\<close> is a signed integer
  of 32 bits, as on Linux. Reading a C string at its length gives the final null byte, reading beyond it is undefined.
\<close>

unbundle bit_operations_syntax

section \<open>Tables\<close>

definition offsetsFromUTF8 :: "32 word list" where
  "offsetsFromUTF8 = [0x00000000, 0x00003080, 0x000E2080, 0x03C82080, 0xFA082080, 0x82082080]"

definition trailingBytesForUTF8 :: "nat list" where
  "trailingBytesForUTF8 = replicate 192 0 @ replicate 32 1 @ replicate 16 2 @ replicate 8 3 @ replicate 4 4 @ replicate 4 5"

section \<open>From UTF-8\<close>

definition c_str_at :: "string \<Rightarrow> nat \<Rightarrow> 8 word outcome" where
  "c_str_at src idx =
     (if idx < length src then Inr (word_of_nat (of_char (src ! idx)))
      else if idx = length src then Inr 0 else Inl UndefinedBehaviour)"

text \<open>The cases of the switch, which fall through: one byte more, and the shift that makes room for the next one.\<close>

definition add_byte :: "string \<Rightarrow> 32 word \<times> nat \<Rightarrow> (32 word \<times> nat) outcome" where
  "add_byte src = (\<lambda>(tmpChar, idx). bindE (c_str_at src idx) (\<lambda>lCurrentChar. Inr (tmpChar + ucast lCurrentChar, idx + 1)))"

definition add_shifted :: "string \<Rightarrow> 32 word \<times> nat \<Rightarrow> (32 word \<times> nat) outcome" where
  "add_shifted src st = bindE (add_byte src st) (\<lambda>(tmpChar, idx). Inr (push_bit 6 tmpChar, idx))"

definition decode_char :: "string \<Rightarrow> nat \<Rightarrow> nat \<Rightarrow> (32 word \<times> nat) outcome" where
  "decode_char src nb idx =
     bindE (if nb = 3 then add_shifted src (0, idx) else Inr (0, idx)) (\<lambda>st.
     bindE (if nb = 3 \<or> nb = 2 then add_shifted src st else Inr st) (\<lambda>st.
     bindE (if nb = 3 \<or> nb = 2 \<or> nb = 1 then add_shifted src st else Inr st) (\<lambda>st.
       if nb = 3 \<or> nb = 2 \<or> nb = 1 \<or> nb = 0 then add_byte src st else Inr st)))"

fun toWide_loop :: "nat \<Rightarrow> string \<Rightarrow> nat \<Rightarrow> 32 word list \<Rightarrow> 32 word list outcome" where
  "toWide_loop 0 src idx oStr = Inl NonTermination"
| "toWide_loop (Suc fuel) src idx oStr =
     (if idx \<noteq> length src then
        bindE (c_str_at src idx) (\<lambda>lCurrentChar.
          if lCurrentChar = 0 then Inr oStr
          else
            let nb = trailingBytesForUTF8 ! unat lCurrentChar
            in bindE (decode_char src nb idx) (\<lambda>(tmpChar, idx).
                 toWide_loop fuel src idx (oStr @ [tmpChar - offsetsFromUTF8 ! nb])))
      else Inr oStr)"

definition toWideString :: "nat \<Rightarrow> string \<Rightarrow> 32 word list outcome" where
  "toWideString fuel iSrc = bindE (toWide_loop fuel iSrc 0 []) (\<lambda>oStr. Inr (oStr @ [0]))"

section \<open>To UTF-8\<close>

definition to_char :: "32 word \<Rightarrow> char" where
  "to_char w = char_of (unat (ucast w :: 8 word))"

text \<open>The shifts are of numbers that the guards make positive.\<close>

definition encode_char :: "32 word \<Rightarrow> string" where
  "encode_char ch =
     (if sint ch < 0x80 then [to_char ch]
      else if sint ch < 0x800 then
        [to_char (drop_bit 6 ch OR 0xC0), to_char ((ch AND 0x3F) OR 0x80)]
      else if sint ch < 0x10000 then
        [to_char (drop_bit 12 ch OR 0xE0), to_char ((drop_bit 6 ch AND 0x3F) OR 0x80), to_char ((ch AND 0x3F) OR 0x80)]
      else if sint ch < 0x110000 then
        [to_char (drop_bit 18 ch OR 0xF0), to_char ((drop_bit 12 ch AND 0x3F) OR 0x80),
         to_char ((drop_bit 6 ch AND 0x3F) OR 0x80), to_char ((ch AND 0x3F) OR 0x80)]
      else [])"

fun toSimple_loop :: "32 word list \<Rightarrow> string \<Rightarrow> string" where
  "toSimple_loop [] oStr = oStr"
| "toSimple_loop (ch # rest) oStr = (if ch \<noteq> 0 then toSimple_loop rest (oStr @ encode_char ch) else oStr)"

definition toSimpleString :: "32 word list \<Rightarrow> string" where
  "toSimpleString iStr = toSimple_loop iStr [] @ [CHR 0x00]"

section \<open>Displays\<close>

text \<open>
  The numbers are displayed in base 16 from the first character on, the index among them; a \<^verbatim>\<open>char\<close> is displayed as
  itself and a \<^verbatim>\<open>wchar_t\<close> as a number without its sign. The display of a C string has its final null byte.
\<close>

fun show_hex :: "nat \<Rightarrow> string" where
  "show_hex n = (if n < 16 then [] else show_hex (n div 16)) @ [''0123456789abcdef'' ! (n mod 16)]"

declare show_hex.simps [simp del]

fun display_items :: "('a \<Rightarrow> string) \<Rightarrow> 'a list \<Rightarrow> nat \<Rightarrow> string" where
  "display_items show_item [] idx = []"
| "display_items show_item (lChar # rest) idx =
     (if idx \<noteq> 0 then ''; '' else []) @ ''['' @ show_hex idx @ '']: '' @ show_item lChar @ display_items show_item rest (idx + 1)"

definition displayCharString :: "string \<Rightarrow> string" where
  "displayCharString iString = display_items (\<lambda>lChar. [lChar]) (c_str iString @ [CHR 0x00]) 0 @ [CHR 0x0A]"

definition displaySTLWString :: "32 word list \<Rightarrow> string" where
  "displaySTLWString iString = display_items (\<lambda>lChar. show_hex (unat lChar)) iString 0 @ [CHR 0x0A]"

section \<open>Bits and bytes\<close>

lemma or_push_bit: "(x :: nat) < 2 ^ k \<Longrightarrow> x OR push_bit k y = x + y * 2 ^ k"
proof -
  assume "x < 2 ^ k"
  then have x: "take_bit k x = x" by (rule take_bit_nat_eq_self)
  have "\<not> bit x n \<or> \<not> bit (push_bit k y) n" for n
    using arg_cong [OF x, of "\<lambda>z. bit z n"] by (auto simp: bit_take_bit_iff bit_push_bit_iff)
  then have "x + push_bit k y = x OR push_bit k y" by (rule disjunctive_add)
  then show ?thesis by (simp add: push_bit_eq_mult)
qed

lemma or_marker:
  "(x :: nat) < 32 \<Longrightarrow> x OR 192 = x + 192" "x < 16 \<Longrightarrow> x OR 224 = x + 224"
  "x < 8 \<Longrightarrow> x OR 240 = x + 240" "x < 64 \<Longrightarrow> x OR 128 = x + 128"
  using or_push_bit [of x 5 6] or_push_bit [of x 4 14] or_push_bit [of x 3 30] or_push_bit [of x 6 2]
  by (simp_all add: push_bit_eq_mult)

lemma and_63: "(x :: nat) AND 63 = x mod 64"
proof -
  have "(63 :: nat) = mask 6" by (simp add: mask_eq_exp_minus_1)
  then show ?thesis by (simp only: take_bit_eq_mask [symmetric]) (simp add: take_bit_eq_mod)
qed

lemma to_char_nat: "to_char w = char_of (unat w)" if "unat w < 256"
proof -
  have "unat (ucast w :: 8 word) = unat w"
    using that by (simp add: unsigned_ucast_eq take_bit_nat_eq_self)
  then show ?thesis by (simp add: to_char_def)
qed

lemma sint_of_nat_wide: "n < 2147483648 \<Longrightarrow> sint (word_of_nat n :: 32 word) = int n"
  by (simp add: signed_of_nat signed_take_bit_int_eq_self)

text \<open>The bytes of a code point, in arithmetic.\<close>

definition utf8_bytes :: "nat \<Rightarrow> nat list" where
  "utf8_bytes n =
     (if n < 0x80 then [n]
      else if n < 0x800 then [192 + n div 64, 128 + n mod 64]
      else if n < 0x10000 then [224 + n div 4096, 128 + n div 64 mod 64, 128 + n mod 64]
      else [240 + n div 262144, 128 + n div 4096 mod 64, 128 + n div 64 mod 64, 128 + n mod 64])"

lemma encode_char_bytes:
  assumes "unat w < 0x110000"
  shows "encode_char w = map char_of (utf8_bytes (unat w))"
proof -
  define n where "n = unat w"
  have s: "sint w = int n"
    using assms sint_of_nat_wide [of n] by (simp add: n_def)
  have c: "to_char v = char_of (unat v)" if "unat v \<le> 255" for v :: "32 word" using that by (intro to_char_nat) simp
  have lead: "unat (drop_bit 6 w OR 0xC0) = n div 64 OR 192" "unat (drop_bit 12 w OR 0xE0) = n div 4096 OR 224"
    "unat (drop_bit 18 w OR 0xF0) = n div 262144 OR 240"
    by (simp_all add: unsigned_or_eq drop_bit_eq_div unat_div_distrib n_def)
  have trail: "unat ((w AND 0x3F) OR 0x80) = 128 + n mod 64" "unat ((drop_bit 6 w AND 0x3F) OR 0x80) = 128 + n div 64 mod 64"
    "unat ((drop_bit 12 w AND 0x3F) OR 0x80) = 128 + n div 4096 mod 64"
    by (simp_all add: unsigned_or_eq unsigned_and_eq drop_bit_eq_div unat_div_distrib and_63 or_marker n_def)
  have "n div 64 < 32" if "n < 2048" using that by (simp add: less_mult_imp_div_less)
  moreover have "n div 4096 < 16" if "n < 65536" using that by (simp add: less_mult_imp_div_less)
  moreover have "n div 262144 < 8" using assms by (simp add: n_def less_mult_imp_div_less)
  moreover have "128 + m mod 64 \<le> 255" for m :: nat using mod_less_divisor [of 64 m] by linarith
  ultimately show ?thesis
    using c [of w] assms unfolding encode_char_def utf8_bytes_def s n_def [symmetric]
    by (auto simp: c lead trail or_marker)
qed

text \<open>What the shifts and additions of the decoder make of these bytes.\<close>

lemma utf8_value:
  "(192 + n div 64) * 64 + (128 + n mod 64) = n + 0x3080"
  "((224 + n div 4096) * 64 + (128 + n div 64 mod 64)) * 64 + (128 + n mod 64) = n + 0xE2080"
  "(((240 + n div 262144) * 64 + (128 + n div 4096 mod 64)) * 64 + (128 + n div 64 mod 64)) * 64 + (128 + n mod 64) =
    n + 0x3C82080" for n :: nat
proof -
  have q: "n div 4096 = n div 64 div 64" "n div 262144 = n div 64 div 64 div 64" by (simp_all add: div_mult2_eq [symmetric])
  have d: "m = 64 * (m div 64) + m mod 64" for m :: nat by simp
  show "(192 + n div 64) * 64 + (128 + n mod 64) = n + 0x3080"
    "((224 + n div 4096) * 64 + (128 + n div 64 mod 64)) * 64 + (128 + n mod 64) = n + 0xE2080"
    "(((240 + n div 262144) * 64 + (128 + n div 4096 mod 64)) * 64 + (128 + n div 64 mod 64)) * 64 + (128 + n mod 64) =
      n + 0x3C82080"
    unfolding q using d [of n] d [of "n div 64"] d [of "n div 64 div 64"] by simp_all
qed

lemma utf8_bytes_small: "n < 0x110000 \<Longrightarrow> b \<in> set (utf8_bytes n) \<Longrightarrow> b < 256"
proof -
  assume "n < 0x110000" "b \<in> set (utf8_bytes n)"
  moreover have "128 + m mod 64 < 256" for m :: nat using mod_less_divisor [of 64 m] by linarith
  moreover have "n div 64 < 32" if "n < 2048" using that by (simp add: less_mult_imp_div_less)
  moreover have "n div 4096 < 16" if "n < 65536" using that by (simp add: less_mult_imp_div_less)
  moreover have "n div 262144 < 8" using \<open>n < 0x110000\<close> by (simp add: less_mult_imp_div_less)
  ultimately show "b < 256" by (auto simp: utf8_bytes_def split: if_splits)
qed

lemma c_str_at_byte:
  assumes "k < length bs" and "bs ! k < 256"
  shows "c_str_at (pre @ map char_of bs @ rest) (length pre + k) = Inr (word_of_nat (bs ! k))"
  using assms by (simp add: c_str_at_def nth_append)

lemma add_byte_eq:
  assumes "k < length bs" and "bs ! k < 256" and "i = length pre + k"
  shows "add_byte (pre @ map char_of bs @ rest) (t, i) = Inr (t + word_of_nat (bs ! k), i + 1)"
  unfolding add_byte_def assms(3) using c_str_at_byte [OF assms(1,2)] assms(2)
  by (simp add: unsigned_of_nat take_bit_nat_eq_self)

text \<open>The switch on as many bytes as it reads.\<close>

lemma decode_bytes:
  assumes "\<forall>b \<in> set bs. b < 256"
  shows "bs = [b0] \<Longrightarrow> decode_char (pre @ map char_of bs @ rest) 0 (length pre) = Inr (word_of_nat b0, length pre + 1)"
    and "bs = [b0, b1] \<Longrightarrow> decode_char (pre @ map char_of bs @ rest) 1 (length pre) =
      Inr (word_of_nat (b0 * 64 + b1), length pre + 2)"
    and "bs = [b0, b1, b2] \<Longrightarrow> decode_char (pre @ map char_of bs @ rest) 2 (length pre) =
      Inr (word_of_nat ((b0 * 64 + b1) * 64 + b2), length pre + 3)"
    and "bs = [b0, b1, b2, b3] \<Longrightarrow> decode_char (pre @ map char_of bs @ rest) 3 (length pre) =
      Inr (word_of_nat (((b0 * 64 + b1) * 64 + b2) * 64 + b3), length pre + 4)"
proof -
  have byte: "add_byte (pre @ map char_of bs @ rest) (t, i) = Inr (t + word_of_nat (bs ! (i - length pre)), i + 1)"
    if "length pre \<le> i" "i < length pre + length bs" for t i
    using that assms by (intro add_byte_eq) auto
  note decode = decode_char_def add_shifted_def push_bit_eq_mult byte algebra_simps
  show "bs = [b0] \<Longrightarrow> decode_char (pre @ map char_of bs @ rest) 0 (length pre) = Inr (word_of_nat b0, length pre + 1)"
    using byte by (simp add: decode_char_def)
  show "decode_char (pre @ map char_of bs @ rest) 1 (length pre) = Inr (word_of_nat (b0 * 64 + b1), length pre + 2)"
    if "bs = [b0, b1]" using byte unfolding that by (simp add: decode_char_def add_shifted_def push_bit_eq_mult)
  show "decode_char (pre @ map char_of bs @ rest) 2 (length pre) = Inr (word_of_nat ((b0 * 64 + b1) * 64 + b2), length pre + 3)"
    if "bs = [b0, b1, b2]" using byte unfolding that
    by (simp add: decode_char_def add_shifted_def push_bit_eq_mult numeral_2_eq_2 algebra_simps)
  show "decode_char (pre @ map char_of bs @ rest) 3 (length pre) =
      Inr (word_of_nat (((b0 * 64 + b1) * 64 + b2) * 64 + b3), length pre + 4)"
    if "bs = [b0, b1, b2, b3]" using byte unfolding that
    by (simp add: decode_char_def add_shifted_def push_bit_eq_mult numeral_2_eq_2 numeral_3_eq_3 algebra_simps)
qed

lemma decode_utf8:
  assumes "n < 0x110000"
  shows "decode_char (pre @ map char_of (utf8_bytes n) @ rest) (length (utf8_bytes n) - 1) (length pre) =
    Inr (word_of_nat n + offsetsFromUTF8 ! (length (utf8_bytes n) - 1), length pre + length (utf8_bytes n))"
proof -
  have "\<forall>b \<in> set (utf8_bytes n). b < 256" using utf8_bytes_small [OF assms] by blast
  note decode = decode_bytes [where pre=pre and rest=rest, OF this]
  consider "n < 0x80" | "\<not> n < 0x80" "n < 0x800" | "\<not> n < 0x800" "n < 0x10000" | "\<not> n < 0x10000" by linarith
  then show ?thesis
  proof cases
    case 1
    then have u: "utf8_bytes n = [n]" by (simp add: utf8_bytes_def)
    show ?thesis using decode(1) [OF u] u by (simp add: offsetsFromUTF8_def)
  next
    case 2
    then have u: "utf8_bytes n = [192 + n div 64, 128 + n mod 64]" by (simp add: utf8_bytes_def)
    show ?thesis using decode(2) [OF u, unfolded utf8_value] u by (simp add: offsetsFromUTF8_def)
  next
    case 3
    then have u: "utf8_bytes n = [224 + n div 4096, 128 + n div 64 mod 64, 128 + n mod 64]" by (simp add: utf8_bytes_def)
    show ?thesis using decode(3) [OF u, unfolded utf8_value] u by (simp add: offsetsFromUTF8_def numeral_2_eq_2)
  next
    case 4
    then have u: "utf8_bytes n = [240 + n div 262144, 128 + n div 4096 mod 64, 128 + n div 64 mod 64, 128 + n mod 64]"
      by (simp add: utf8_bytes_def)
    show ?thesis using decode(4) [OF u, unfolded utf8_value] u
      by (simp add: offsetsFromUTF8_def numeral_3_eq_3)
  qed
qed

text \<open>The table gives the number of the bytes that follow the first one.\<close>

lemma trailing_table:
  assumes "b < 256"
  shows "trailingBytesForUTF8 ! b = (if b < 192 then 0 else if b < 224 then 1 else if b < 240 then 2
    else if b < 248 then 3 else if b < 252 then 4 else 5)"
proof -
  have "list_all (\<lambda>b. trailingBytesForUTF8 ! b = (if b < 192 then 0 else if b < 224 then 1 else if b < 240 then 2
    else if b < 248 then 3 else if b < 252 then 4 else 5)) [0..<256]" by code_simp
  then show ?thesis using assms by (simp add: list_all_iff)
qed

lemma trailing_utf8:
  assumes "0 < n" and "n < 0x110000"
  shows "trailingBytesForUTF8 ! (utf8_bytes n ! 0) = length (utf8_bytes n) - 1 \<and> utf8_bytes n ! 0 \<noteq> 0"
proof -
  have "n div 64 < 32" if "n < 2048" using that by (simp add: less_mult_imp_div_less)
  moreover have "n div 4096 < 16" if "n < 65536" using that by (simp add: less_mult_imp_div_less)
  moreover have "n div 262144 < 8" using assms(2) by (simp add: less_mult_imp_div_less)
  ultimately show ?thesis using assms(1) by (auto simp: utf8_bytes_def trailing_table)
qed

lemma utf8_first:
  assumes "n < 0x110000"
  shows "c_str_at (pre @ map char_of (utf8_bytes n) @ rest) (length pre) = Inr (word_of_nat (utf8_bytes n ! 0))"
    and "utf8_bytes n \<noteq> []"
proof -
  show ne: "utf8_bytes n \<noteq> []" by (simp add: utf8_bytes_def)
  then have "utf8_bytes n ! 0 < 256" using utf8_bytes_small [OF assms, of "utf8_bytes n ! 0"] by simp
  then show "c_str_at (pre @ map char_of (utf8_bytes n) @ rest) (length pre) = Inr (word_of_nat (utf8_bytes n ! 0))"
    using c_str_at_byte [of 0 "utf8_bytes n" pre rest] ne by simp
qed

text \<open>One turn of the loop reads one code point.\<close>

lemma toWide_step:
  assumes "0 < n" and "n < 0x110000"
  shows "toWide_loop (Suc fuel) (pre @ map char_of (utf8_bytes n) @ rest) (length pre) oStr =
    toWide_loop fuel (pre @ map char_of (utf8_bytes n) @ rest) (length (pre @ map char_of (utf8_bytes n)))
      (oStr @ [word_of_nat n])"
proof -
  let ?b = "utf8_bytes n ! 0"
  have b: "?b < 256" using utf8_bytes_small [OF assms(2), of ?b] utf8_first(2) [OF assms(2)] by simp
  then have u: "unat (word_of_nat ?b :: 8 word) = ?b" by (simp add: unsigned_of_nat take_bit_nat_eq_self)
  then have "(word_of_nat ?b :: 8 word) \<noteq> 0" using trailing_utf8 [OF assms] by (metis unat_0)
  then show ?thesis
    using utf8_first(1) [OF assms(2), of pre rest] utf8_first(2) [OF assms(2)] trailing_utf8 [OF assms] decode_utf8 [OF assms(2), of pre rest] u
    by (simp add: Let_def)
qed

lemma toWide_encoded:
  assumes "\<forall>w \<in> set ws. 0 < unat w \<and> unat w < 0x110000" and "length ws < fuel"
  shows "toWide_loop fuel (pre @ concat (map encode_char ws) @ rest) (length pre) oStr =
    toWide_loop (fuel - length ws) (pre @ concat (map encode_char ws) @ rest)
      (length (pre @ concat (map encode_char ws))) (oStr @ ws)"
  using assms
proof (induction ws arbitrary: pre fuel oStr)
  case Nil
  then show ?case by simp
next
  case (Cons w ws)
  obtain f where f: "fuel = Suc f" using Cons.prems(2) by (cases fuel) auto
  have w: "0 < unat w" "unat w < 0x110000" using Cons.prems(1) by simp_all
  note e = encode_char_bytes [OF w(2)]
  have "toWide_loop fuel (pre @ concat (map encode_char (w # ws)) @ rest) (length pre) oStr =
      toWide_loop f ((pre @ encode_char w) @ concat (map encode_char ws) @ rest) (length (pre @ encode_char w)) (oStr @ [w])"
    using toWide_step [OF w, of f pre "concat (map encode_char ws) @ rest" oStr, folded e]
    by (simp add: f del: toWide_loop.simps)
  also have "\<dots> = toWide_loop (f - length ws) ((pre @ encode_char w) @ concat (map encode_char ws) @ rest)
      (length ((pre @ encode_char w) @ concat (map encode_char ws))) ((oStr @ [w]) @ ws)"
    using Cons.prems f by (intro Cons.IH) auto
  finally show ?case using f by (simp del: toWide_loop.simps)
qed

lemma toSimple_loop_eq: "toSimple_loop ws oStr = oStr @ concat (map encode_char (takeWhile (\<lambda>w. w \<noteq> 0) ws))"
  by (induction ws arbitrary: oStr) simp_all

lemma c_str_at_char: "c_str_at (pre @ c # rest) (length pre) = Inr (word_of_nat (of_char c))"
  by (simp add: c_str_at_def)

lemma char_byte: "(of_char c :: nat) < 256"
  using of_char_mod_256 [of c, where 'a=nat] mod_less_divisor [of 256 "of_char c"] by simp

lemma unat_char: "unat (word_of_nat (of_char c) :: 8 word) = of_char c"
  using char_byte [of c] by (simp add: unsigned_of_nat take_bit_nat_eq_self)

lemma toWide_stuck:
  assumes "(248 :: nat) \<le> of_char c"
  shows "toWide_loop fuel (pre @ c # rest) (length pre) oStr = Inl NonTermination"
proof (induction fuel arbitrary: oStr)
  case 0
  show ?case by simp
next
  case (Suc fuel)
  have nb: "trailingBytesForUTF8 ! of_char c \<in> {4, 5}" using trailing_table [OF char_byte, of c] assms by simp
  then have "decode_char (pre @ c # rest) (trailingBytesForUTF8 ! of_char c) (length pre) = Inr (0, length pre)"
    by (auto simp: decode_char_def)
  moreover have "(word_of_nat (of_char c) :: 8 word) \<noteq> 0"
    using unat_char [of c] assms by (metis unat_0 not_numeral_le_zero)
  ultimately show ?case using Suc.IH by (simp add: c_str_at_char unat_char Let_def)
qed

lemma toWide_encoded_endless:
  assumes "\<forall>w \<in> set ws. 0 < unat w \<and> unat w < 0x110000" and "(248 :: nat) \<le> of_char c"
  shows "toWide_loop fuel (pre @ concat (map encode_char ws) @ c # rest) (length pre) oStr = Inl NonTermination"
  using assms(1)
proof (induction ws arbitrary: pre fuel oStr)
  case Nil
  then show ?case using toWide_stuck [OF assms(2)] by (simp del: toWide_loop.simps)
next
  case (Cons w ws)
  have w: "0 < unat w" "unat w < 0x110000" using Cons.prems by simp_all
  note e = encode_char_bytes [OF w(2)]
  show ?case
  proof (cases fuel)
    case 0
    then show ?thesis by simp
  next
    case (Suc f)
    show ?thesis
      using toWide_step [OF w, of f pre "concat (map encode_char ws) @ c # rest" oStr, folded e]
        Cons.IH [of f "pre @ encode_char w" "oStr @ [w]"] Cons.prems
      by (simp add: Suc del: toWide_loop.simps)
  qed
qed

section \<open>Properties\<close>

text \<open>C26: Converting a wide string of Unicode code points to UTF-8 and back gives the string again, followed by a null
  character: both conversions write a final null, and the second one stops at the first null.\<close>

theorem utf8_roundtrip:
  assumes "\<forall>w \<in> set ws. 0 < unat w \<and> unat w < 0x110000" and "Suc (length ws) \<le> fuel"
  shows "toWideString fuel (toSimpleString ws) = Inr (ws @ [0])"
proof -
  have nz: "takeWhile (\<lambda>w. w \<noteq> 0) ws = ws" using assms(1) by (auto intro: takeWhile_eq_all_conv [THEN iffD2])
  let ?src = "concat (map encode_char ws) @ [CHR 0x00]"
  obtain f where f: "fuel - length ws = Suc f" using assms(2) by (cases "fuel - length ws") auto
  have "toWide_loop fuel ?src 0 [] = toWide_loop (Suc f) ?src (length (concat (map encode_char ws))) ws"
    using toWide_encoded [OF assms(1), of fuel "[]" "[CHR 0x00]" "[]"] assms(2) by (simp add: f del: toWide_loop.simps)
  also have "\<dots> = Inr ws" using c_str_at_char [of "concat (map encode_char ws)" "CHR 0x00" "[]"] by simp
  finally show ?thesis by (simp add: toWideString_def toSimpleString_def toSimple_loop_eq nz del: toWide_loop.simps)
qed

theorem utf8_roundtrip_witness:
  "toWideString 4 (toSimpleString [0x4D, 0xFC, 0x1F600]) = Inr [0x4D, 0xFC, 0x1F600, 0] \<and>
   toSimpleString [0x4D, 0xFC, 0x1F600] = [CHR 0x4D, CHR 0xC3, CHR 0xBC, CHR 0xF0, CHR 0x9F, CHR 0x98, CHR 0x80, CHR 0x00]"
proof
  show "toWideString 4 (toSimpleString [0x4D, 0xFC, 0x1F600]) = Inr [0x4D, 0xFC, 0x1F600, 0]"
    using utf8_roundtrip [of "[0x4D, 0xFC, 0x1F600]" 4] by simp
  show "toSimpleString [0x4D, 0xFC, 0x1F600] =
      [CHR 0x4D, CHR 0xC3, CHR 0xBC, CHR 0xF0, CHR 0x9F, CHR 0x98, CHR 0x80, CHR 0x00]"
    by code_simp
qed

text \<open>On a byte that starts no valid sequence (0xF8 or more), the conversion from UTF-8 never ends: the switch has no
  case for it, so the index stays where it is.\<close>

theorem utf8_endless:
  assumes "\<forall>w \<in> set ws. 0 < unat w \<and> unat w < 0x110000" and "(248 :: nat) \<le> of_char c"
  shows "toWideString fuel (concat (map encode_char ws) @ c # rest) = Inl NonTermination"
  using toWide_encoded_endless [OF assms, of fuel "[]" rest "[]"] by (simp add: toWideString_def del: toWide_loop.simps)

theorem utf8_endless_witness: "\<forall>fuel. toWideString fuel (encode_char 0xFC @ [CHR 0xFF]) = Inl NonTermination"
  using utf8_endless [of "[0xFC]" "CHR 0xFF" _ "[]"] by (simp del: toWide_loop.simps)


end
