(* ===== verification/Exchange.thy ===== *)
theory Exchange
  imports Locations
begin

text \<open>
  The export of the locations as Protocol Buffers messages: \<^verbatim>\<open>bom/LocationExchange.cpp\<close>, with the message types of
  \<^verbatim>\<open>bom/Travel.proto\<close>. A message is a record with an option per field, and a message that wraps one value is that
  value. The locations of the model have no extra and no alternate locations (nothing in the code adds any), so the
  lists of these are present and empty. The serialisation of the messages and the format of a date are parameters.
\<close>

section \<open>Messages\<close>

record pb_place =
  pb_tvl_code :: "string option"
  pb_icao_code :: "string option"
  pb_faa_code :: "string option"
  pb_is_geoname :: "bool option"
  pb_geoname_id :: "int option"
  pb_env_id :: "int option"
  pb_name_utf :: "string option"
  pb_name_ascii :: "string option"
  pb_coord :: "(dbl \<times> dbl) option"
  pb_feat_type :: "(string \<times> string) option"
  pb_page_rank :: "dbl option"
  pb_date_from :: "string option"
  pb_date_end :: "string option"
  pb_comment :: "string option"
  pb_country_code :: "string option"
  pb_alt_country_code :: "string option"
  pb_country_name :: "string option"
  pb_continent_code :: "string option"
  pb_continent_name :: "string option"
  pb_adm1_code :: "string option"
  pb_adm1_name_utf :: "string option"
  pb_adm1_name_ascii :: "string option"
  pb_adm2_code :: "string option"
  pb_adm2_name_utf :: "string option"
  pb_adm2_name_ascii :: "string option"
  pb_adm3_code :: "string option"
  pb_adm4_code :: "string option"
  pb_population :: "int option"
  pb_elevation :: "int option"
  pb_gtopo30 :: "int option"
  pb_tz :: "string option"
  pb_gmt_offset :: "int option"
  pb_dst_offset :: "int option"
  pb_raw_offset :: "int option"
  pb_mod_date :: "string option"
  pb_city_code :: "string option"
  pb_city_name_utf :: "string option"
  pb_city_name_ascii :: "string option"
  pb_tvl_por_list :: "string list option"
  pb_state_code :: "string option"
  pb_loc_type :: "PB_LocationType option"
  pb_link_list :: "(string \<times> string) list option"
  pb_alt_name_list :: "(string \<times> string) list option"
  pb_original_keyword_list :: "string list option"
  pb_corrected_keyword_list :: "string list option"
  pb_edit_distance_actual :: "int option"
  pb_edit_distance_allowable :: "int option"
  pb_matching_percentage :: "dbl option"

text \<open>A new message.\<close>

definition pb_new_place :: pb_place where
  "pb_new_place =
     \<lparr>pb_tvl_code = None, pb_icao_code = None, pb_faa_code = None, pb_is_geoname = None, pb_geoname_id = None,
      pb_env_id = None, pb_name_utf = None, pb_name_ascii = None, pb_coord = None, pb_feat_type = None, pb_page_rank = None,
      pb_date_from = None, pb_date_end = None, pb_comment = None, pb_country_code = None, pb_alt_country_code = None,
      pb_country_name = None, pb_continent_code = None, pb_continent_name = None, pb_adm1_code = None,
      pb_adm1_name_utf = None, pb_adm1_name_ascii = None, pb_adm2_code = None, pb_adm2_name_utf = None,
      pb_adm2_name_ascii = None, pb_adm3_code = None, pb_adm4_code = None, pb_population = None, pb_elevation = None,
      pb_gtopo30 = None, pb_tz = None, pb_gmt_offset = None, pb_dst_offset = None, pb_raw_offset = None,
      pb_mod_date = None, pb_city_code = None, pb_city_name_utf = None, pb_city_name_ascii = None,
      pb_tvl_por_list = None, pb_state_code = None, pb_loc_type = None, pb_link_list = None, pb_alt_name_list = None,
      pb_original_keyword_list = None, pb_corrected_keyword_list = None, pb_edit_distance_actual = None,
      pb_edit_distance_allowable = None, pb_matching_percentage = None\<rparr>"

text \<open>The conversion of a floating-point number to a 32-bit integer truncates; out of range it is undefined.\<close>

definition to_int32 :: "dbl \<Rightarrow> int outcome" where
  "to_int32 d =
     (case d of
        Fin q \<Rightarrow> (let t = (if q < 0 then - \<lfloor>- q\<rfloor> else \<lfloor>q\<rfloor>)
                  in if - (2 ^ 31) \<le> t \<and> t < 2 ^ 31 then Inr t else Inl UndefinedBehaviour)
      | _ \<Rightarrow> Inl UndefinedBehaviour)"

section \<open>The export of a location\<close>

fun export_names :: "string \<Rightarrow> string list \<Rightarrow> (string \<times> string) list \<Rightarrow> (string \<times> string) list" where
  "export_names lLangCode [] lAltNameList = lAltNameList"
| "export_names lLangCode (lName # rest) lAltNameList = export_names lLangCode rest (lAltNameList @ [(lLangCode, lName)])"

fun export_matrix :: "(string \<times> Names) list \<Rightarrow> (string \<times> string) list \<Rightarrow> (string \<times> string) list" where
  "export_matrix [] lAltNameList = lAltNameList"
| "export_matrix ((_, lNameListRef) # rest) lAltNameList =
     export_matrix rest (export_names (nm_languageCode lNameListRef) (nm_nameList lNameListRef) lAltNameList)"

definition exportLocation :: "(date \<Rightarrow> string) \<Rightarrow> Location \<Rightarrow> pb_place \<Rightarrow> pb_place outcome" where
  "exportLocation iso_date l ioPlace =
     (let lLocationKey = loc_key l;
          ioPlace = ioPlace\<lparr>pb_tvl_code := Some (lk_iataCode lLocationKey)\<rparr>;
          ioPlace = ioPlace\<lparr>pb_loc_type := Some (IATAType_getTypeLabelAsPB (lk_iataType lLocationKey))\<rparr>;
          ioPlace = ioPlace\<lparr>pb_geoname_id := Some (lk_geonamesID lLocationKey)\<rparr>;
          ioPlace = ioPlace\<lparr>pb_icao_code := Some (loc_icaoCode l), pb_faa_code := Some (loc_faaCode l)\<rparr>;
          ioPlace = ioPlace\<lparr>pb_name_utf := Some (loc_commonName l), pb_name_ascii := Some (loc_asciiName l)\<rparr>;
          ioPlace = ioPlace\<lparr>pb_feat_type := Some (loc_featClass l, loc_featCode l)\<rparr>;
          ioPlace = ioPlace\<lparr>pb_coord := Some (loc_latitude l, loc_longitude l)\<rparr>;
          ioPlace = ioPlace\<lparr>pb_city_code := Some (loc_cityCode l)\<rparr>;
          ioPlace = ioPlace\<lparr>pb_city_name_utf := Some (loc_cityUtfName l), pb_city_name_ascii := Some (loc_cityAsciiName l)\<rparr>;
          ioPlace = ioPlace\<lparr>pb_state_code := Some (loc_stateCode l)\<rparr>;
          ioPlace = ioPlace\<lparr>pb_country_code := Some (loc_countryCode l), pb_alt_country_code := Some (loc_altCountryCode l)\<rparr>;
          ioPlace = ioPlace\<lparr>pb_country_name := Some (loc_countryName l)\<rparr>;
          ioPlace = ioPlace\<lparr>pb_continent_code := Some (loc_continentCode l), pb_continent_name := Some (loc_continentName l)\<rparr>;
          ioPlace = ioPlace\<lparr>pb_adm1_code := Some (loc_admin1Code l), pb_adm1_name_utf := Some (loc_admin1UtfName l),
            pb_adm1_name_ascii := Some (loc_admin1AsciiName l)\<rparr>;
          ioPlace = ioPlace\<lparr>pb_adm2_code := Some (loc_admin2Code l), pb_adm2_name_utf := Some (loc_admin2UtfName l),
            pb_adm2_name_ascii := Some (loc_admin2AsciiName l)\<rparr>;
          ioPlace = ioPlace\<lparr>pb_adm3_code := Some (loc_admin3Code l), pb_adm4_code := Some (loc_admin4Code l)\<rparr>;
          ioPlace = ioPlace\<lparr>pb_population := Some (sint (loc_population l))\<rparr>;
          ioPlace = ioPlace\<lparr>pb_elevation := Some (loc_elevation l), pb_gtopo30 := Some (loc_gTopo30 l)\<rparr>;
          ioPlace = ioPlace\<lparr>pb_page_rank := Some (loc_pageRank l), pb_tz := Some (loc_timeZone l)\<rparr>
      in bindE (to_int32 (loc_gmtOffset l)) (\<lambda>gmtOffset.
         bindE (to_int32 (loc_dstOffset l)) (\<lambda>dstOffset.
         bindE (to_int32 (loc_rawOffset l)) (\<lambda>rawOffset.
           let ioPlace = ioPlace\<lparr>pb_gmt_offset := Some gmtOffset, pb_dst_offset := Some dstOffset, pb_raw_offset := Some rawOffset\<rparr>;
               ioPlace = ioPlace\<lparr>pb_mod_date := Some (iso_date (loc_modificationDate l))\<rparr>;
               ioPlace = ioPlace\<lparr>pb_tvl_por_list := Some [loc_tvlPORListString l]\<rparr>;
               ioPlace = ioPlace\<lparr>pb_link_list := Some [(''en'', loc_wikiLink l)]\<rparr>;
               ioPlace = ioPlace\<lparr>pb_date_from := Some (iso_date (loc_dateFrom l)), pb_date_end := Some (iso_date (loc_dateEnd l))\<rparr>;
               ioPlace = ioPlace\<lparr>pb_comment := Some (loc_comment l)\<rparr>;
               ioPlace = ioPlace\<lparr>pb_alt_name_list := Some (export_matrix (om_entries (loc_nameMatrix l)) [])\<rparr>;
               ioPlace = ioPlace\<lparr>pb_matching_percentage := Some (loc_percentage l)\<rparr>;
               ioPlace = ioPlace\<lparr>pb_original_keyword_list := Some [loc_originalKeywords l]\<rparr>;
               ioPlace = ioPlace\<lparr>pb_corrected_keyword_list := Some [loc_correctedKeywords l]\<rparr>;
               ioPlace = ioPlace\<lparr>pb_edit_distance_actual := Some (uint (loc_editDistance l))\<rparr>;
               ioPlace = ioPlace\<lparr>pb_edit_distance_actual := Some (uint (loc_allowableEditDistance l))\<rparr>
           in Inr ioPlace))))"

record pb_answer =
  pb_ok_status :: bool
  pb_place_list :: "pb_place list"
  pb_unmatched_keyword_list :: "string list"

definition exportLocationList :: "(date \<Rightarrow> string) \<Rightarrow> Location list \<Rightarrow> string list \<Rightarrow> pb_answer outcome" where
  "exportLocationList iso_date iLocationList iNonMatchedWordList =
     bindE (foldE (\<lambda>lLocation places.
              bindE (exportLocation iso_date lLocation pb_new_place) (\<lambda>lPlace. Inr (places @ [lPlace])))
            iLocationList [])
       (\<lambda>lPlaceList.
          let words = fold (\<lambda>lWord words. words @ [lWord]) iNonMatchedWordList []
          in Inr \<lparr>pb_ok_status = True, pb_place_list = lPlaceList, pb_unmatched_keyword_list = words\<rparr>)"

section \<open>The alternate names\<close>

lemma export_names_eq: "export_names lang names acc = acc @ map (Pair lang) names"
  by (induction names arbitrary: acc) simp_all

lemma export_matrix_eq:
  "export_matrix m acc = acc @ concat (map (\<lambda>(_, n). map (Pair (nm_languageCode n)) (nm_nameList n)) m)"
  by (induction m arbitrary: acc) (auto simp: export_names_eq)

text \<open>Adding exported names to a matrix, and what it then holds.\<close>

definition import_names :: "(string \<times> string) list \<Rightarrow> NameMatrix" where
  "import_names xs = fold (\<lambda>(lang, name). NameMatrix_addName lang name) xs om_empty"

lemma names_of_fold:
  "names_of (fold (\<lambda>(lang, name). NameMatrix_addName lang name) xs m) l =
    names_of m l @ map snd (filter (\<lambda>(lang, _). lang = l) xs)"
proof (induction xs arbitrary: m)
  case Nil
  show ?case by simp
next
  case (Cons x xs)
  then show ?case by (cases x) (simp add: names_of_addName)
qed

lemma exported_language:
  assumes "distinct (map fst m)" and "\<forall>(lang, n) \<in> set m. nm_languageCode n = lang"
  shows "map snd (filter (\<lambda>(lang, _). lang = l) (export_matrix m [])) =
    (case map_of m l of Some n \<Rightarrow> nm_nameList n | None \<Rightarrow> [])"
  using assms
proof (induction m)
  case Nil
  show ?case by simp
next
  case (Cons e m)
  obtain lang n where e: "e = (lang, n)" by (cases e)
  have n: "nm_languageCode n = lang" using Cons.prems(2) e by auto
  have "map_of m l = None" if "lang = l" using Cons.prems(1) e that by (simp add: map_of_eq_None_iff)
  then show ?case using Cons e n by (auto simp: export_matrix_eq filter_map comp_def split: option.split)
qed

section \<open>Properties\<close>

text \<open>C38: The export of a location keeps its code, its GeoNames identifier, its coordinates, its page rank and its matching
  percentage, and its names: adding the exported pairs of a language and a name to an empty matrix finds the same names,
  in order, under every language. It does not keep the edit distances, since the allowable one is written over the
  actual one; nor the three offsets of the time zone, the GMT, the DST and the raw one, each of which it truncates to
  whole hours, in its own field.\<close>

theorem exported_location:
  assumes "matrix_wf (loc_nameMatrix l)" and "exportLocation iso_date l pb_new_place = Inr p"
  shows "(\<forall>lang. names_of (import_names (the (pb_alt_name_list p))) lang = names_of (loc_nameMatrix l) lang) \<and>
    pb_tvl_code p = Some (lk_iataCode (loc_key l)) \<and> pb_geoname_id p = Some (lk_geonamesID (loc_key l)) \<and>
    pb_coord p = Some (loc_latitude l, loc_longitude l) \<and>
    pb_page_rank p = Some (loc_pageRank l) \<and> pb_matching_percentage p = Some (loc_percentage l) \<and>
    pb_edit_distance_actual p = Some (uint (loc_allowableEditDistance l)) \<and> pb_edit_distance_allowable p = None \<and>
    map_option Inr (pb_gmt_offset p) = Some (to_int32 (loc_gmtOffset l)) \<and>
    map_option Inr (pb_dst_offset p) = Some (to_int32 (loc_dstOffset l)) \<and>
    map_option Inr (pb_raw_offset p) = Some (to_int32 (loc_rawOffset l))"
proof -
  have names: "pb_alt_name_list p = Some (export_matrix (om_entries (loc_nameMatrix l)) [])"
    using assms(2) by (auto simp: exportLocation_def Let_def bindE_Inr_iff)
  have m: "distinct (map fst (om_entries (loc_nameMatrix l)))"
    "\<forall>(lang, n) \<in> set (om_entries (loc_nameMatrix l)). nm_languageCode n = lang"
    using assms(1) by (auto simp: matrix_wf_def om_wf_def om_entries_def strict_sorted_iff)
  have "names_of (import_names (the (pb_alt_name_list p))) lang = names_of (loc_nameMatrix l) lang" for lang
    unfolding names import_names_def option.sel names_of_fold exported_language [OF m]
    by (simp add: names_of_def om_find_def om_empty_def om_entries_def)
  moreover have "pb_tvl_code p = Some (lk_iataCode (loc_key l))" "pb_geoname_id p = Some (lk_geonamesID (loc_key l))"
    "pb_coord p = Some (loc_latitude l, loc_longitude l)"
    "pb_page_rank p = Some (loc_pageRank l)" "pb_matching_percentage p = Some (loc_percentage l)"
    "pb_edit_distance_actual p = Some (uint (loc_allowableEditDistance l))" "pb_edit_distance_allowable p = None"
    "map_option Inr (pb_gmt_offset p) = Some (to_int32 (loc_gmtOffset l))"
    "map_option Inr (pb_dst_offset p) = Some (to_int32 (loc_dstOffset l))"
    "map_option Inr (pb_raw_offset p) = Some (to_int32 (loc_rawOffset l))"
    using assms(2) by (auto simp: exportLocation_def Let_def bindE_Inr_iff pb_new_place_def)
  ultimately show ?thesis by blast
qed

text \<open>A place of central Australia: half an hour away from a whole offset, and another one in summer.\<close>

definition adelaide_location :: Location where
  "adelaide_location = new_Location\<lparr>loc_nameMatrix := NameMatrix_addName ''en'' ''Adelaide'' om_empty,
     loc_gmtOffset := Fin (21 / 2), loc_dstOffset := Fin (19 / 2), loc_rawOffset := Fin (- (7 / 2)),
     loc_editDistance := 1, loc_allowableEditDistance := 3\<rparr>"

theorem exported_location_witness:
  "\<exists>p. exportLocation (\<lambda>_. []) adelaide_location pb_new_place = Inr p \<and>
     names_of (import_names (the (pb_alt_name_list p))) ''en'' = [''Adelaide''] \<and>
     pb_edit_distance_actual p = Some 3 \<and> pb_edit_distance_allowable p = None \<and>
     pb_gmt_offset p = Some 10 \<and> pb_dst_offset p = Some 9 \<and> pb_raw_offset p = Some (- 3)"
proof -
  have "\<lfloor>21 / 2 :: rat\<rfloor> = 10" "\<lfloor>19 / 2 :: rat\<rfloor> = 9" "\<lfloor>7 / 2 :: rat\<rfloor> = 3" by (rule floor_unique, simp_all)+
  then have offsets: "to_int32 (loc_gmtOffset adelaide_location) = Inr 10" "to_int32 (loc_dstOffset adelaide_location) = Inr 9"
    "to_int32 (loc_rawOffset adelaide_location) = Inr (- 3)" by (simp_all add: adelaide_location_def to_int32_def)
  obtain p where p: "exportLocation (\<lambda>_. []) adelaide_location pb_new_place = Inr p"
    by (simp add: exportLocation_def Let_def offsets)
  have matrix: "loc_nameMatrix adelaide_location = NameMatrix_addName ''en'' ''Adelaide'' om_empty"
    by (simp add: adelaide_location_def)
  have "matrix_wf (loc_nameMatrix adelaide_location)" unfolding matrix by simp
  from exported_location [OF this p] have "names_of (import_names (the (pb_alt_name_list p))) ''en'' =
      names_of (loc_nameMatrix adelaide_location) ''en''"
    "pb_edit_distance_actual p = Some (uint (loc_allowableEditDistance adelaide_location))"
    "pb_edit_distance_allowable p = None" "map_option Inr (pb_gmt_offset p) = Some (Inr 10 :: int outcome)"
    "map_option Inr (pb_dst_offset p) = Some (Inr 9 :: int outcome)"
    "map_option Inr (pb_raw_offset p) = Some (Inr (- 3) :: int outcome)"
    unfolding offsets by simp_all
  moreover have "names_of (loc_nameMatrix adelaide_location) ''en'' = [''Adelaide'']"
    unfolding matrix names_of_addName by (simp add: names_of_def om_find_def om_empty_def)
  moreover have "loc_allowableEditDistance adelaide_location = 3" by (simp add: adelaide_location_def)
  ultimately show ?thesis using p by (intro exI [of _ p]) auto
qed

end
