(* ===== verification/Grammar.thy ===== *)
theory Grammar
  imports PorActions
begin

text \<open>
  The grammar of the POR records (the rules of \<^verbatim>\<open>LocationParser\<close> in \<^verbatim>\<open>bom/PORParserHelper.cpp\<close> and the
  policies of \<^verbatim>\<open>basic/BasParserTypes.hpp\<close>). A rule is the term of its Boost Spirit expression: one
  constructor of \<open>grammar\<close> per operator that the rules use, with the semantic actions on the location
  attached as in the source. What a grammar does on a text is the business of Spirit
  (theory PorParser).

  Spirit parses with the skipper \<^verbatim>\<open>blank\<close>; \<open>No_skip\<close> and \<open>Lexeme\<close> switch it off. The attribute of a
  character parser and of a repetition of characters is a string, of a numeric parser the number.
\<close>

section \<open>Spirit expressions\<close>

datatype attribute = Chars string | Number int | Real dbl | Unused

datatype grammar =
    Eps
  | Eoi
  | Eol
  | Lit string
  | Char_class "char \<Rightarrow> bool"
  | Uint_parser nat nat
  | Int_parser nat nat
  | Double_parser
  | Float_parser
  | Bool_parser
  | Sequence "grammar list"
  | Alternatives "grammar list"
  | Difference grammar grammar
  | Optional grammar
  | Kleene grammar
  | Plus grammar
  | Repeat nat nat grammar
  | Separated grammar grammar
  | No_skip grammar
  | Lexeme grammar
  | Action grammar "attribute \<Rightarrow> por_action"

text \<open>How the attribute is passed to a semantic action.\<close>

definition with_chars :: "(string \<Rightarrow> Location \<Rightarrow> Location outcome) \<Rightarrow> attribute \<Rightarrow> por_action" where
  "with_chars f x l = (case x of Chars s \<Rightarrow> f s l | _ \<Rightarrow> Inr l)"

definition with_number :: "(int \<Rightarrow> Location \<Rightarrow> Location outcome) \<Rightarrow> attribute \<Rightarrow> por_action" where
  "with_number f x l = (case x of Number n \<Rightarrow> f n l | _ \<Rightarrow> Inr l)"

definition with_real :: "(dbl \<Rightarrow> Location \<Rightarrow> Location outcome) \<Rightarrow> attribute \<Rightarrow> por_action" where
  "with_real f x l = (case x of Real d \<Rightarrow> f d l | _ \<Rightarrow> Inr l)"

definition with_unused :: "por_action \<Rightarrow> attribute \<Rightarrow> por_action" where
  "with_unused f x l = f l"

lemma with_simps [simp]:
  "with_chars f (Chars s) = f s" "with_number g (Number n) = g n" "with_real h (Real d) = h d"
  "with_unused k x = k"
  by (simp_all add: fun_eq_iff with_chars_def with_number_def with_real_def with_unused_def)

text \<open>The classes of characters.\<close>

definition upper :: "char \<Rightarrow> bool" where
  "upper c \<longleftrightarrow> CHR ''A'' \<le> c \<and> c \<le> CHR ''Z''"

definition lower :: "char \<Rightarrow> bool" where
  "lower c \<longleftrightarrow> CHR ''a'' \<le> c \<and> c \<le> CHR ''z''"

definition digit_char :: "char \<Rightarrow> bool" where
  "digit_char c \<longleftrightarrow> CHR ''0'' \<le> c \<and> c \<le> CHR ''9''"

definition upper_digit :: "char \<Rightarrow> bool" where
  "upper_digit c \<longleftrightarrow> upper c \<or> digit_char c"

definition feature_char :: "char \<Rightarrow> bool" where
  "feature_char c \<longleftrightarrow> upper c \<or> (CHR ''1'' \<le> c \<and> c \<le> CHR ''5'')"

definition one_of :: "string \<Rightarrow> char \<Rightarrow> bool" where
  "one_of s c \<longleftrightarrow> c \<in> set s"

definition none_of :: "string \<Rightarrow> char \<Rightarrow> bool" where
  "none_of s c \<longleftrightarrow> c \<notin> set s"

section \<open>Numeric and boolean parsers\<close>

definition int1_5_p :: grammar where "int1_5_p = Int_parser 1 5"

definition uint1_4_p :: grammar where "uint1_4_p = Uint_parser 1 4"

definition uint1_9_p :: grammar where "uint1_9_p = Uint_parser 1 9"

definition year_p :: grammar where "year_p = Uint_parser 4 4"

definition month_p :: grammar where "month_p = Uint_parser 2 2"

definition day_p :: grammar where "day_p = Uint_parser 2 2"

definition boolean_p :: grammar where "boolean_p = Bool_parser"

text \<open>
  The policies of the boolean parser: the text that remains after a match. \<^verbatim>\<open>string_parse\<close> matches the
  literal at the start of the text or moves nothing.
\<close>

definition string_parse :: "string \<Rightarrow> string \<Rightarrow> string option" where
  "string_parse str s = (if take (length str) s = str then Some (drop (length str) s) else None)"

definition parse_true :: "string \<Rightarrow> string option" where
  "parse_true s = string_parse ''Y'' s"

definition parse_false :: "string \<Rightarrow> string option" where
  "parse_false s = (case string_parse ''N'' s of Some r \<Rightarrow> Some r | None \<Rightarrow> string_parse ''Z'' s)"

section \<open>The rules\<close>

definition header :: grammar where
  "header = Sequence [Lit ''iata_code'',
     Plus (Difference (Difference (Char_class (\<lambda>c. True)) Eoi) Eol),
     Alternatives [Eoi, Eol]]"

definition por_rule_end :: grammar where
  "por_rule_end = Eps"

definition iata_code :: grammar where
  "iata_code = Action (Repeat 3 3 (Char_class upper)) (with_chars (\<lambda>s l. Inr (storeIataCode s l)))"

definition icao_code :: grammar where
  "icao_code = Action (Repeat 4 4 (Char_class upper_digit)) (with_chars (\<lambda>s l. Inr (storeIcaoCode s l)))"

definition faa_code :: grammar where
  "faa_code = Action (Repeat 1 4 (Char_class upper_digit)) (with_chars (\<lambda>s l. Inr (storeFaaCode s l)))"

definition geoname_id :: grammar where
  "geoname_id = Action uint1_9_p (with_number (\<lambda>n l. Inr (storeGeonamesID (word_of_int n) l)))"

definition envelope_id :: grammar where
  "envelope_id = Action uint1_4_p (with_number (\<lambda>n l. Inr (storeEnvelopeID (word_of_int n) l)))"

definition is_geonames :: grammar where
  "is_geonames = boolean_p"

text \<open>The text of one field: not empty, and not the end of the line at its start.\<close>

definition field_text :: "string \<Rightarrow> (string \<Rightarrow> Location \<Rightarrow> Location) \<Rightarrow> grammar" where
  "field_text seps store = Action
     (Difference (No_skip (Plus (Char_class (none_of seps)))) (Alternatives [Eoi, Eol]))
     (with_chars (\<lambda>s l. Inr (store s l)))"

definition common_name :: grammar where "common_name = field_text ''^'' storeCommonName"

definition ascii_name :: grammar where "ascii_name = field_text ''^'' storeAsciiName"

definition alt_name_short :: grammar where "alt_name_short = field_text ''^,'' storeAltNameShort"

definition alt_name_short_list :: grammar where
  "alt_name_short_list = Separated alt_name_short (Lit '','')"

definition tvl_por_code :: grammar where "tvl_por_code = field_text ''^,'' storeTvlPORCode"

definition tvl_por_code_list :: grammar where
  "tvl_por_code_list = Separated tvl_por_code (Lit '','')"

definition latitude :: grammar where
  "latitude = Action Double_parser (with_real (\<lambda>d l. Inr (storeLatitude d l)))"

definition longitude :: grammar where
  "longitude = Action Double_parser (with_real (\<lambda>d l. Inr (storeLongitude d l)))"

definition feat_class :: grammar where
  "feat_class = Action (Repeat 1 1 (Char_class upper)) (with_chars (\<lambda>s l. Inr (storeFeatureClass s l)))"

definition feat_code :: grammar where
  "feat_code = Action (Repeat 2 5 (Char_class feature_char)) (with_chars (\<lambda>s l. Inr (storeFeatureCode s l)))"

definition page_rank :: grammar where
  "page_rank = Action Double_parser (with_real (\<lambda>d l. Inr (storePageRank d l)))"

text \<open>The elements of a date are kept in the location by the rule itself.\<close>

definition store_year :: "int \<Rightarrow> Location \<Rightarrow> Location outcome" where
  "store_year n l = Inr (l\<lparr>loc_itYear := Some (nat n)\<rparr>)"

definition store_month :: "int \<Rightarrow> Location \<Rightarrow> Location outcome" where
  "store_month n l = Inr (l\<lparr>loc_itMonth := Some (nat n)\<rparr>)"

definition store_day :: "int \<Rightarrow> Location \<Rightarrow> Location outcome" where
  "store_day n l = Inr (l\<lparr>loc_itDay := Some (nat n)\<rparr>)"

definition date_rule :: grammar where
  "date_rule = Lexeme (Sequence
     [Action year_p (with_number store_year), Lit ''-'',
      Action month_p (with_number store_month), Lit ''-'',
      Action day_p (with_number store_day)])"

definition date_from :: grammar where
  "date_from = Action date_rule (with_unused (\<lambda>l. Inr (storeDateFrom l)))"

definition date_until :: grammar where
  "date_until = Action date_rule (with_unused (\<lambda>l. Inr (storeDateUntil l)))"

definition comments :: grammar where "comments = field_text ''^'' storeComments"

definition country_code :: grammar where
  "country_code = Action (Repeat 2 3 (Char_class upper)) (with_chars (\<lambda>s l. Inr (storeCountryCode s l)))"

definition country_code2 :: grammar where "country_code2 = field_text ''^'' storeAltCountryCode"

definition country_name :: grammar where "country_name = field_text ''^'' storeCountryName"

definition continent_name :: grammar where "continent_name = field_text ''^'' storeContinentName"

definition adm1_code :: grammar where "adm1_code = field_text ''^'' storeAdm1Code"

definition adm1_name_utf :: grammar where "adm1_name_utf = field_text ''^'' storeAdm1UtfName"

definition adm1_name_ascii :: grammar where "adm1_name_ascii = field_text ''^'' storeAdm1AsciiName"

definition adm2_code :: grammar where "adm2_code = field_text ''^'' storeAdm2Code"

definition adm2_name_utf :: grammar where "adm2_name_utf = field_text ''^'' storeAdm2UtfName"

definition adm2_name_ascii :: grammar where "adm2_name_ascii = field_text ''^'' storeAdm2AsciiName"

definition adm3_code :: grammar where "adm3_code = field_text ''^'' storeAdm3Code"

definition adm4_code :: grammar where "adm4_code = field_text ''^'' storeAdm4Code"

definition population :: grammar where
  "population = Action uint1_9_p (with_number (\<lambda>n l. Inr (storePopulation (word_of_int n) l)))"

definition elevation :: grammar where
  "elevation = Action int1_5_p (with_number (\<lambda>n l. Inr (storeElevation n l)))"

definition gtopo30 :: grammar where
  "gtopo30 = Action int1_5_p (with_number (\<lambda>n l. Inr (storeGTopo30 n l)))"

definition time_zone :: grammar where "time_zone = field_text ''^'' storeTimeZone"

definition gmt_offset :: grammar where
  "gmt_offset = Action Float_parser (with_real (\<lambda>d l. Inr (storeGMTOffset d l)))"

definition dst_offset :: grammar where
  "dst_offset = Action Float_parser (with_real (\<lambda>d l. Inr (storeDSTOffset d l)))"

definition raw_offset :: grammar where
  "raw_offset = Action Float_parser (with_real (\<lambda>d l. Inr (storeRawOffset d l)))"

definition mod_date :: "(nat \<Rightarrow> nat \<Rightarrow> nat \<Rightarrow> bool) \<Rightarrow> grammar" where
  "mod_date valid_ymd = Action date_rule (with_unused (storeModDate valid_ymd))"

definition city_code :: grammar where
  "city_code = Action (Repeat 3 3 (Char_class upper)) (with_chars (\<lambda>s l. Inr (storeCityCode s l)))"

definition city_code_list :: grammar where
  "city_code_list = Separated city_code (Lit '','')"

definition city_name_utf :: grammar where "city_name_utf = field_text ''^|='' storeCityUtfName"

definition city_name_ascii :: grammar where "city_name_ascii = field_text ''^|='' storeCityAsciiName"

definition city_name_list :: grammar where
  "city_name_list = Separated city_name_utf (Lit ''='')"

definition city_geoname_id :: grammar where
  "city_geoname_id = Action uint1_9_p (with_number (\<lambda>n l. Inr (storeCityGeonamesID (word_of_int n) l)))"

definition city_details :: grammar where
  "city_details = Sequence [city_code, Lit ''|'', city_geoname_id, Lit ''|'', city_name_utf,
     Lit ''|'', city_name_ascii]"

definition city_detail_list :: grammar where
  "city_detail_list = Separated city_details (Lit ''='')"

definition state_code :: grammar where "state_code = field_text ''^'' storeStateCode"

definition por_type :: grammar where
  "por_type = Action (Repeat 1 3 (Char_class (one_of ''ABCGHOPRZ''))) (with_chars storePORType)"

definition wiki_link :: grammar where "wiki_link = field_text ''^'' storeWikiLink"

definition alt_lang_code :: grammar where
  "alt_lang_code = Action
     (Difference (Plus (Char_class (none_of ''|=''))) (Alternatives [Eoi, Eol]))
     (with_chars (\<lambda>s l. Inr (storeAltLangCodeFull s l)))"

definition lang_code_2char :: grammar where
  "lang_code_2char = Action (Repeat 2 4 (Char_class lower)) (with_chars (\<lambda>s l. Inr (storeAltLangCode2Char s l)))"

definition lang_code_ext :: grammar where
  "lang_code_ext = Sequence [Lit ''-'',
     Action (Repeat 1 4 (Char_class upper)) (with_chars (\<lambda>s l. Inr (storeAltLangCodeExt s l)))]"

definition lang_code_hist :: grammar where
  "lang_code_hist = Sequence [Lit ''_'',
     Action (Repeat 1 4 (Char_class (\<lambda>c. lower c \<or> digit_char c))) (with_chars (\<lambda>s l. Inr (storeAltLangCodeHist s l)))]"

definition lang_code_opt :: grammar where
  "lang_code_opt = Optional (Alternatives [lang_code_ext, lang_code_hist])"

definition alt_lang_code_ftd :: grammar where
  "alt_lang_code_ftd = Sequence [lang_code_2char, lang_code_opt]"

definition alt_name :: grammar where "alt_name = field_text ''|='' storeAltName"

definition alt_name_qualifiers :: grammar where
  "alt_name_qualifiers = Repeat 1 4 (Char_class (one_of ''shpc''))"

definition alt_name_details :: grammar where
  "alt_name_details = Sequence [Optional alt_lang_code, Lit ''|'', alt_name, Lit ''|'',
     Optional alt_name_qualifiers]"

definition alt_name_section :: grammar where
  "alt_name_section = Separated alt_name_details (Lit ''='')"

definition por_key :: grammar where
  "por_key = Sequence [iata_code,
     Lit ''^'', Optional icao_code,
     Lit ''^'', Optional faa_code,
     Lit ''^'', is_geonames,
     Lit ''^'', geoname_id,
     Lit ''^'', Optional envelope_id]"

definition por_details :: "(nat \<Rightarrow> nat \<Rightarrow> nat \<Rightarrow> bool) \<Rightarrow> grammar" where
  "por_details valid_ymd = Sequence [common_name,
     Lit ''^'', ascii_name,
     Lit ''^'', Optional latitude,
     Lit ''^'', Optional longitude,
     Lit ''^'', feat_class,
     Lit ''^'', feat_code,
     Lit ''^'', Optional page_rank,
     Lit ''^'', Optional date_from,
     Lit ''^'', Optional date_until,
     Lit ''^'', Optional comments,
     Lit ''^'', country_code,
     Lit ''^'', Optional country_code2,
     Lit ''^'', country_name,
     Lit ''^'', Optional continent_name,
     Lit ''^'', Optional adm1_code,
     Lit ''^'', Optional adm1_name_utf,
     Lit ''^'', Optional adm1_name_ascii,
     Lit ''^'', Optional adm2_code,
     Lit ''^'', Optional adm2_name_utf,
     Lit ''^'', Optional adm2_name_ascii,
     Lit ''^'', Optional adm3_code,
     Lit ''^'', Optional adm4_code,
     Lit ''^'', Optional population,
     Lit ''^'', Optional elevation,
     Lit ''^'', Optional gtopo30,
     Lit ''^'', Optional time_zone,
     Lit ''^'', Optional gmt_offset,
     Lit ''^'', Optional dst_offset,
     Lit ''^'', Optional raw_offset,
     Lit ''^'', Alternatives [mod_date valid_ymd, Lit ''-1''],
     Lit ''^'', city_code_list,
     Lit ''^'', Optional city_name_list,
     Lit ''^'', Optional city_detail_list,
     Lit ''^'', Optional (Action tvl_por_code_list (with_unused (\<lambda>l. Inr (storeTvlPORListString l)))),
     Lit ''^'', Optional state_code,
     Lit ''^'', por_type,
     Lit ''^'', Optional wiki_link]"

definition por_rule :: "(nat \<Rightarrow> nat \<Rightarrow> nat \<Rightarrow> bool) \<Rightarrow> grammar" where
  "por_rule valid_ymd = Sequence [por_key,
     Lit ''^'', por_details valid_ymd,
     Lit ''^'', Optional alt_name_section,
     Action por_rule_end (with_unused (\<lambda>l. Inr (doEndPor l)))]"

definition start :: "(nat \<Rightarrow> nat \<Rightarrow> nat \<Rightarrow> bool) \<Rightarrow> grammar" where
  "start valid_ymd = Sequence [Eps, Kleene (Alternatives [header, por_rule valid_ymd])]"

end
