(* ===== verification/PorParser.thy ===== *)
theory PorParser
  imports Grammar
begin

text \<open>
  The parser of the POR records: the entry points \<^verbatim>\<open>PORStringParser\<close> and \<^verbatim>\<open>PORFileParser\<close> of
  \<^verbatim>\<open>bom/PORParserHelper.cpp\<close> and \<^verbatim>\<open>PORParser::PORGeneration\<close> of \<^verbatim>\<open>command/PORParser.cpp\<close>, over the grammar of
  theory Grammar.

  Boost Spirit is the parameter \<open>run\<close>: from the skipping mode, an expression, a text and a location to
  the match, if any (the attribute and the rest of the text), and the location as the actions have left
  it, even where the match fails in the end. The locale \<open>spirit\<close> states what its manual says of the
  operators that the grammar uses, on texts that do not start with a blank where skipping comes into
  play. The values that the readers of reals give are parameters too. Everything about the grammar is
  derived in the locale; \<open>peg_run\<close> is a parsing expression interpreter that satisfies it.
\<close>

section \<open>The parser library\<close>

type_synonym parse_result = "((attribute \<times> string) option \<times> Location) outcome"
type_synonym spirit_run = "bool \<Rightarrow> grammar \<Rightarrow> string \<Rightarrow> Location \<Rightarrow> parse_result"

definition number_char :: "char \<Rightarrow> bool" where
  "number_char c \<longleftrightarrow> digit_char c \<or> lower c \<or> upper c \<or> c \<in> set ''+-.()''"

definition digits_value :: "string \<Rightarrow> int" where
  "digits_value ds = foldl (\<lambda>n c. 10 * n + (of_char c - 48)) 0 ds"

definition sign_value :: "string \<Rightarrow> int \<Rightarrow> int" where
  "sign_value sg n = (if sg = ''-'' then - n else n)"

text \<open>No blank to be skipped at the start of the text.\<close>

definition ready :: "(char \<Rightarrow> bool) \<Rightarrow> bool \<Rightarrow> string \<Rightarrow> bool" where
  "ready blank k s \<longleftrightarrow> (k \<longrightarrow> s = [] \<or> \<not> blank (hd s))"

fun join_attribute :: "attribute \<Rightarrow> attribute \<Rightarrow> attribute" where
  "join_attribute (Chars s) (Chars t) = Chars (s @ t)"
| "join_attribute x y = Unused"

text \<open>What follows a match, and what replaces a failure.\<close>

definition and_then :: "parse_result \<Rightarrow> (attribute \<Rightarrow> string \<Rightarrow> Location \<Rightarrow> parse_result) \<Rightarrow> parse_result" where
  "and_then p f = bindE p (\<lambda>(r, l). case r of None \<Rightarrow> Inr (None, l) | Some (x, s) \<Rightarrow> f x s l)"

definition or_else :: "parse_result \<Rightarrow> (Location \<Rightarrow> parse_result) \<Rightarrow> parse_result" where
  "or_else p f = bindE p (\<lambda>(r, l). case r of None \<Rightarrow> f l | Some y \<Rightarrow> Inr (Some y, l))"

definition joined :: "parse_result \<Rightarrow> (string \<Rightarrow> Location \<Rightarrow> parse_result) \<Rightarrow> parse_result" where
  "joined p f = and_then p (\<lambda>x s l. and_then (f s l) (\<lambda>y s l. Inr (Some (join_attribute x y, s), l)))"

lemma result_simps [simp]:
  "and_then (Inl e) f = Inl e" "and_then (Inr (None, l)) f = Inr (None, l)"
  "and_then (Inr (Some (x, s), l)) f = f x s l"
  "or_else (Inl e) g = Inl e" "or_else (Inr (None, l)) g = g l"
  "or_else (Inr (Some y, l)) g = Inr (Some y, l)"
  "joined (Inl e) h = Inl e" "joined (Inr (None, l)) h = Inr (None, l)"
  "joined (Inr (Some (x, s), l)) h = and_then (h s l) (\<lambda>y s l. Inr (Some (join_attribute x y, s), l))"
  by (simp_all add: and_then_def or_else_def joined_def)

lemma and_then_bindE: "and_then (bindE m f) g = bindE m (\<lambda>x. and_then (f x) g)"
  by (cases m) simp_all

lemma or_else_bindE: "or_else (bindE m f) g = bindE m (\<lambda>x. or_else (f x) g)"
  by (cases m) simp_all

lemma joined_bindE: "joined (bindE m f) g = bindE m (\<lambda>x. joined (f x) g)"
  by (cases m) simp_all

lemmas result_bindE = and_then_bindE or_else_bindE joined_bindE

text \<open>\<open>unless\<close> fails where the first parser matches; \<open>iterated\<close> stops where it fails.\<close>

definition unless :: "parse_result \<Rightarrow> (Location \<Rightarrow> parse_result) \<Rightarrow> parse_result" where
  "unless p f = bindE p (\<lambda>(r, l). case r of None \<Rightarrow> f l | Some y \<Rightarrow> Inr (None, l))"

definition iterated :: "string \<Rightarrow> parse_result \<Rightarrow> (string \<Rightarrow> Location \<Rightarrow> parse_result) \<Rightarrow> parse_result" where
  "iterated s p f = bindE p (\<lambda>(r, l). case r of
     None \<Rightarrow> Inr (Some (Chars [], s), l)
   | Some (x, s') \<Rightarrow> and_then (f s' l) (\<lambda>y s l. Inr (Some (join_attribute x y, s), l)))"

lemma unless_simps [simp]:
  "unless (Inl e) f = Inl e" "unless (Inr (None, l)) f = f l" "unless (Inr (Some y, l)) f = Inr (None, l)"
  "iterated s (Inl e) h = Inl e" "iterated s (Inr (None, l)) h = Inr (Some (Chars [], s), l)"
  "iterated s (Inr (Some (x, s'), l)) h = and_then (h s' l) (\<lambda>y s l. Inr (Some (join_attribute x y, s), l))"
  by (simp_all add: unless_def iterated_def)

lemma iterated_bindE: "iterated s (bindE m f) g = bindE m (\<lambda>x. iterated s (f x) g)"
  by (cases m) simp_all

locale spirit =
  fixes blank :: "char \<Rightarrow> bool"
    and real_of :: "string \<Rightarrow> dbl option"
    and float_of :: "string \<Rightarrow> dbl option"
    and run :: spirit_run
  assumes blank_ascii: "33 \<le> (of_char c :: nat) \<Longrightarrow> (of_char c :: nat) \<le> 126 \<Longrightarrow> \<not> blank c"
    and newline_not_blank: "\<not> blank (CHR 0x0A)"
    and real_chars: "real_of s = Some d \<Longrightarrow> s \<noteq> [] \<and> (\<forall>c \<in> set s. number_char c)"
    and float_chars: "float_of s = Some d \<Longrightarrow> s \<noteq> [] \<and> (\<forall>c \<in> set s. number_char c)"
    and eps: "ready blank k s \<Longrightarrow> run k Eps s l = Inr (Some (Unused, s), l)"
    and eoi: "ready blank k s \<Longrightarrow> run k Eoi s l = Inr (if s = [] then Some (Unused, s) else None, l)"
    and eol: "run k Eol (CHR 0x0A # s) l = Inr (Some (Unused, s), l)"
    and not_eol: "ready blank k s \<Longrightarrow> s = [] \<or> hd s \<notin> {CHR 0x0A, CHR 0x0D} \<Longrightarrow> run k Eol s l = Inr (None, l)"
    and lit: "ready blank k s \<Longrightarrow> run k (Lit t) s l = Inr (map_option (Pair Unused) (string_parse t s), l)"
    and char_class: "ready blank k s \<Longrightarrow>
      run k (Char_class P) s l =
        Inr (case s of c # s' \<Rightarrow> if P c then Some (Chars [c], s') else None | [] \<Rightarrow> None, l)"
    and uint: "ds \<noteq> [] \<Longrightarrow> \<forall>c \<in> set ds. digit_char c \<Longrightarrow> mn \<le> length ds \<Longrightarrow> length ds \<le> mx \<Longrightarrow>
      rest = [] \<or> \<not> digit_char (hd rest) \<Longrightarrow>
      run k (Uint_parser mn mx) (ds @ rest) l = Inr (Some (Number (digits_value ds), rest), l)"
    and no_uint: "ready blank k s \<Longrightarrow> 0 < mn \<Longrightarrow> s = [] \<or> \<not> digit_char (hd s) \<Longrightarrow>
      run k (Uint_parser mn mx) s l = Inr (None, l)"
    and int: "sg \<in> {[], ''-'', ''+''} \<Longrightarrow> ds \<noteq> [] \<Longrightarrow> \<forall>c \<in> set ds. digit_char c \<Longrightarrow> mn \<le> length ds \<Longrightarrow>
      length ds \<le> mx \<Longrightarrow> rest = [] \<or> \<not> digit_char (hd rest) \<Longrightarrow>
      run k (Int_parser mn mx) (sg @ ds @ rest) l = Inr (Some (Number (sign_value sg (digits_value ds)), rest), l)"
    and no_int: "ready blank k s \<Longrightarrow> 0 < mn \<Longrightarrow> s = [] \<or> \<not> digit_char (hd s) \<and> hd s \<notin> {CHR ''+'', CHR ''-''} \<Longrightarrow>
      run k (Int_parser mn mx) s l = Inr (None, l)"
    and real: "real_of s = Some d \<Longrightarrow> rest = [] \<or> \<not> number_char (hd rest) \<Longrightarrow>
      run k Double_parser (s @ rest) l = Inr (Some (Real d, rest), l)"
    and no_real: "ready blank k s \<Longrightarrow> s = [] \<or> \<not> number_char (hd s) \<Longrightarrow> run k Double_parser s l = Inr (None, l)"
    and float: "float_of s = Some d \<Longrightarrow> rest = [] \<or> \<not> number_char (hd rest) \<Longrightarrow>
      run k Float_parser (s @ rest) l = Inr (Some (Real d, rest), l)"
    and no_float: "ready blank k s \<Longrightarrow> s = [] \<or> \<not> number_char (hd s) \<Longrightarrow> run k Float_parser s l = Inr (None, l)"
    and bool: "ready blank k s \<Longrightarrow> run k Bool_parser s l =
      Inr (map_option (Pair Unused) (case parse_true s of Some r \<Rightarrow> Some r | None \<Rightarrow> parse_false s), l)"
    and sequence_Nil: "run k (Sequence []) s l = Inr (Some (Unused, s), l)"
    and sequence: "run k (Sequence (g # gs)) s l = and_then (run k g s l) (\<lambda>x. run k (Sequence gs))"
    and alternatives_Nil: "run k (Alternatives []) s l = Inr (None, l)"
    and alternatives: "ready blank k s \<Longrightarrow>
      run k (Alternatives (g # gs)) s l = or_else (run k g s l) (run k (Alternatives gs) s)"
    and difference: "ready blank k s \<Longrightarrow>
      run k (Difference g h) s l = unless (run k h s l) (run k g s)"
    and optional: "ready blank k s \<Longrightarrow>
      run k (Optional g) s l = or_else (run k g s l) (\<lambda>l. Inr (Some (Unused, s), l))"
    and kleene: "ready blank k s \<Longrightarrow>
      (\<And>x s' l'. run k g s l = Inr (Some (x, s'), l') \<Longrightarrow> length s' < length s) \<Longrightarrow>
      run k (Kleene g) s l = iterated s (run k g s l) (run k (Kleene g))"
    and plus: "run k (Plus g) s l = joined (run k g s l) (run k (Kleene g))"
    and repeat_0: "run k (Repeat mn 0 g) s l = Inr (Some (Chars [], s), l)"
    and repeat_Suc: "ready blank k s \<Longrightarrow> run k (Repeat mn (Suc mx) g) s l =
      (if mn = 0 then iterated s (run k g s l) (run k (Repeat 0 mx g))
       else joined (run k g s l) (run k (Repeat (mn - 1) mx g)))"
    and separated: "run k (Separated g h) s l =
      and_then (run k g s l) (\<lambda>x s l.
      and_then (run k (Kleene (Sequence [h, g])) s l) (\<lambda>y s l. Inr (Some (Unused, s), l)))"
    and no_skip: "run k (No_skip g) s l = run False g s l"
    and lexeme: "ready blank k s \<Longrightarrow> run k (Lexeme g) s l = run False g s l"
    and action: "run k (Action g f) s l =
      and_then (run k g s l) (\<lambda>x s l. bindE (f x l) (\<lambda>l. Inr (Some (x, s), l)))"

section \<open>The entry points\<close>

text \<open>
  \<^verbatim>\<open>phrase_parse\<close> skips the blanks after the match. The grammar has no expectation point, so the handler
  of their exception is never entered.
\<close>

definition parsing_failed :: "string \<Rightarrow> string \<Rightarrow> trep_error" where
  "parsing_failed what s =
     PorFileParsingException (''Parsing of '' @ what @ '': '' @ [CHR 0x27] @ s @ [CHR 0x27] @ '' failed'')"

definition file_parsing_failed :: "string \<Rightarrow> trep_error" where
  "file_parsing_failed f = PorFileParsingException (''Parsing of por input file: '' @ f @ '' failed'')"

definition phrase_parse ::
    "spirit_run \<Rightarrow> (char \<Rightarrow> bool) \<Rightarrow> grammar \<Rightarrow> string \<Rightarrow> Location \<Rightarrow> (string option \<times> Location) outcome" where
  "phrase_parse run blank g s l =
     bindE (run True g s l) (\<lambda>(r, l). Inr (map_option (\<lambda>(_, rest). dropWhile blank rest) r, l))"

definition generateLocation ::
    "spirit_run \<Rightarrow> (char \<Rightarrow> bool) \<Rightarrow> (nat \<Rightarrow> nat \<Rightarrow> nat \<Rightarrow> bool) \<Rightarrow> string \<Rightarrow> Location outcome" where
  "generateLocation run blank valid_ymd iString =
     bindE (phrase_parse run blank (start valid_ymd) iString (new_Location\<lparr>loc_rawDataString := iString\<rparr>))
       (\<lambda>(hasParsingBeenSuccesful, lLocation).
          case hasParsingBeenSuccesful of
            None \<Rightarrow> Inl (parsing_failed ''POR input string'' iString)
          | Some fwd_start \<Rightarrow>
              if fwd_start \<noteq> [] then Inl (parsing_failed ''POR input file'' iString)
              else Inr lLocation)"

text \<open>
  The parser of a whole file: the stream delivers the whole content; \<open>None\<close> is a file that cannot be
  opened. The result is the staging location that the actions have filled.
\<close>

definition PORFileParser_generateLocations ::
    "spirit_run \<Rightarrow> (char \<Rightarrow> bool) \<Rightarrow> (nat \<Rightarrow> nat \<Rightarrow> nat \<Rightarrow> bool) \<Rightarrow> string \<Rightarrow> string option \<Rightarrow> Location outcome" where
  "PORFileParser_generateLocations run blank valid_ymd iFilename fileToBeParsed =
     (case fileToBeParsed of
        None \<Rightarrow> Inl (FileNotFoundException (''The file '' @ iFilename @ '' does not exist or can not be read''))
      | Some content \<Rightarrow>
          bindE (phrase_parse run blank (start valid_ymd) content new_Location)
            (\<lambda>(hasParsingBeenSuccesful, lLocation).
               case hasParsingBeenSuccesful of
                 None \<Rightarrow> Inl (file_parsing_failed iFilename)
               | Some rest \<Rightarrow> if rest \<noteq> [] then Inl (file_parsing_failed iFilename) else Inr lLocation))"

definition PORGeneration ::
    "spirit_run \<Rightarrow> (char \<Rightarrow> bool) \<Rightarrow> (nat \<Rightarrow> nat \<Rightarrow> nat \<Rightarrow> bool) \<Rightarrow> (string \<Rightarrow> bool) \<Rightarrow>
     (string \<Rightarrow> string option) \<Rightarrow> string \<Rightarrow> Location outcome" where
  "PORGeneration run blank valid_ymd doesExistAndIsReadable open_file iPORFilename =
     (if \<not> doesExistAndIsReadable iPORFilename then
        Inl (FileNotFoundException (''The POR input file '' @ [CHR 0x27] @ iPORFilename @ [CHR 0x27] @
          '' does not exist or can not be read''))
      else PORFileParser_generateLocations run blank valid_ymd iPORFilename (open_file iPORFilename))"

section \<open>Texts read by a rule\<close>

text \<open>
  A rule reads a text when, before the end of the input or one of the characters that stop it, it
  consumes exactly that text, fires the actions in their order and gives the attribute; it is absent
  where it does not match before a stop.
\<close>

definition at_stop :: "char set \<Rightarrow> string \<Rightarrow> bool" where
  "at_stop stop rest \<longleftrightarrow> rest = [] \<or> hd rest \<in> stop"

definition reads ::
    "spirit_run \<Rightarrow> char set \<Rightarrow> bool \<Rightarrow> grammar \<Rightarrow> string \<Rightarrow> attribute \<Rightarrow> por_action list \<Rightarrow> bool" where
  "reads run stop k g s x actions \<longleftrightarrow> (\<forall>rest l. at_stop stop rest \<longrightarrow>
     run k g (s @ rest) l = bindE (run_actions actions l) (\<lambda>l. Inr (Some (x, rest), l)))"

definition absent :: "spirit_run \<Rightarrow> char set \<Rightarrow> bool \<Rightarrow> grammar \<Rightarrow> bool" where
  "absent run stop k g \<longleftrightarrow> (\<forall>rest l. at_stop stop rest \<longrightarrow> run k g rest l = Inr (None, l))"

lemma run_actions_foldE: "run_actions as = foldE (\<lambda>a. a) as"
  by (simp add: fun_eq_iff run_actions_def)

lemma run_actions_simps [simp]:
  "run_actions [] l = Inr l"
  "run_actions (a # as) l = bindE (a l) (run_actions as)"
  "run_actions (as @ bs) l = bindE (run_actions as l) (run_actions bs)"
  by (simp_all add: run_actions_foldE foldE_append)

lemma at_stop_mono: "at_stop stop rest \<Longrightarrow> stop \<subseteq> stop' \<Longrightarrow> at_stop stop' rest"
  by (auto simp: at_stop_def)

lemma at_stop_simps [simp]: "at_stop stop []" "at_stop stop (c # rest) \<longleftrightarrow> c \<in> stop"
  by (simp_all add: at_stop_def)

text \<open>A text followed by a stop is itself a stop for what comes before.\<close>

lemma at_stop_append:
  "at_stop stop rest \<Longrightarrow> (if t = [] then stop \<subseteq> stop' else hd t \<in> stop') \<Longrightarrow> at_stop stop' (t @ rest)"
  by (auto simp: at_stop_def hd_append split: if_splits)

lemma readsD: "reads run stop k g s x A \<Longrightarrow> at_stop stop rest \<Longrightarrow>
    run k g (s @ rest) l = bindE (run_actions A l) (\<lambda>l. Inr (Some (x, rest), l))"
  unfolding reads_def by blast

lemma absentD: "absent run stop k g \<Longrightarrow> at_stop stop rest \<Longrightarrow> run k g rest l = Inr (None, l)"
  unfolding absent_def by blast

lemma reads_mono: "reads run stop k g s x A \<Longrightarrow> stop' \<subseteq> stop \<Longrightarrow> reads run stop' k g s x A"
  unfolding reads_def using at_stop_mono by blast

lemma absent_mono: "absent run stop k g \<Longrightarrow> stop' \<subseteq> stop \<Longrightarrow> absent run stop' k g"
  unfolding absent_def using at_stop_mono by blast

context spirit
begin

lemma blank_symbols [simp]:
  "\<not> blank (CHR ''^'')" "\<not> blank (CHR '','')" "\<not> blank (CHR ''='')" "\<not> blank (CHR ''|'')" "\<not> blank (CHR ''-'')"
  "\<not> blank (CHR ''+'')" "\<not> blank (CHR ''.'')" "\<not> blank (CHR ''('')" "\<not> blank (CHR '')'')"
  by (rule blank_ascii; simp)+

lemma blank_classes [simp]:
  "digit_char c \<Longrightarrow> \<not> blank c" "upper c \<Longrightarrow> \<not> blank c" "lower c \<Longrightarrow> \<not> blank c"
  using blank_ascii [of c] by (auto simp: digit_char_def upper_def lower_def less_eq_char_def)

lemma blank_number_char [simp]: "number_char c \<Longrightarrow> \<not> blank c"
  by (auto simp: number_char_def)

abbreviation "can_start k s \<equiv> ready blank k s"

lemma can_start_simps [simp]:
  "can_start False s" "can_start k []" "can_start k (c # s) \<longleftrightarrow> (k \<longrightarrow> \<not> blank c)"
  by (auto simp: ready_def)

lemma can_start_append: "s \<noteq> [] \<Longrightarrow> can_start k (s @ rest) \<longleftrightarrow> can_start k s"
  by (cases s) simp_all

lemma at_stop_start: "at_stop stop rest \<Longrightarrow> \<forall>c \<in> stop. \<not> blank c \<Longrightarrow> can_start k rest"
  by (cases rest) auto

lemma reads_action:
  "reads run stop k g s x A \<Longrightarrow> reads run stop k (Action g f) s x (A @ [f x])"
  by (auto simp: reads_def action bindE_assoc result_bindE)

lemma absent_action: "absent run stop k g \<Longrightarrow> absent run stop k (Action g f)"
  by (simp add: absent_def action)

lemma reads_optional:
  assumes "reads run stop k g s x A" and "s \<noteq> []" and "can_start k s"
  shows "reads run stop k (Optional g) s x A"
  using assms by (auto simp: reads_def optional can_start_append result_bindE)

lemma reads_optional_absent:
  assumes "absent run stop k g" and "\<forall>c \<in> stop. \<not> blank c"
  shows "reads run stop k (Optional g) [] Unused []"
  using assms by (auto simp: reads_def absent_def optional at_stop_start)

lemma reads_lit:
  assumes "t \<noteq> []" and "can_start k t"
  shows "reads run stop k (Lit t) t Unused []"
  using assms by (simp add: reads_def lit can_start_append string_parse_def)

lemma reads_sequence_Nil: "reads run stop k (Sequence []) [] Unused []"
  by (simp add: reads_def sequence_Nil)

lemma reads_sequence:
  assumes "reads run stop' k g s x A" and "reads run stop k (Sequence gs) t y B"
    and "if t = [] then stop \<subseteq> stop' else hd t \<in> stop'"
  shows "reads run stop k (Sequence (g # gs)) (s @ t) y (A @ B)"
  unfolding reads_def
proof (intro allI impI)
  fix rest l
  assume stop: "at_stop stop rest"
  then show "run k (Sequence (g # gs)) ((s @ t) @ rest) l = bindE (run_actions (A @ B) l) (\<lambda>l. Inr (Some (y, rest), l))"
    using readsD [OF assms(1) at_stop_append [OF stop assms(3)]] readsD [OF assms(2) stop]
    by (simp add: sequence result_bindE bindE_assoc)
qed

lemma absent_sequence: "absent run stop k g \<Longrightarrow> absent run stop k (Sequence (g # gs))"
  by (simp add: absent_def sequence)

text \<open>A literal between two parts.\<close>

lemma reads_sequence_lit:
  assumes "reads run stop' k g s x A" and "reads run stop k (Sequence gs) t y B" and "c \<in> stop'" and "\<not> blank c"
  shows "reads run stop k (Sequence (g # Lit [c] # gs)) (s @ c # t) y (A @ B)"
proof -
  have "reads run UNIV k (Lit [c]) [c] Unused []"
    using assms(4) by (intro reads_lit) auto
  then have "reads run stop k (Sequence (Lit [c] # gs)) ([c] @ t) y ([] @ B)"
    using assms(2) by (rule reads_sequence) auto
  with assms(1) show ?thesis
    using assms(3) reads_sequence [where s=s and t="[c] @ t" and g=g and gs="Lit [c] # gs" and stop'=stop'] by auto
qed

subsection \<open>Characters\<close>

lemma run_kleene_chars:
  assumes "\<forall>c \<in> set s. P c \<and> (k \<longrightarrow> \<not> blank c)" and "at_stop stop rest" and "\<forall>c \<in> stop. \<not> P c \<and> \<not> blank c"
  shows "run k (Kleene (Char_class P)) (s @ rest) l = Inr (Some (Chars s, rest), l)"
  using assms(1)
proof (induction s)
  case Nil
  have "can_start k rest" using assms(2,3) by (auto intro: at_stop_start)
  moreover from this have "run k (Char_class P) rest l = Inr (None, l)" for l
    using assms(2,3) by (cases rest) (auto simp: char_class)
  ultimately show ?case by (subst kleene) simp_all
next
  case (Cons c s)
  then show ?case by (subst kleene) (auto simp: char_class)
qed

lemma reads_plus_chars:
  assumes "s \<noteq> []" and "\<forall>c \<in> set s. P c \<and> (k \<longrightarrow> \<not> blank c)" and "\<forall>c \<in> stop. \<not> P c \<and> \<not> blank c"
  shows "reads run stop k (Plus (Char_class P)) s (Chars s) []"
  unfolding reads_def
proof (intro allI impI)
  fix rest l
  assume "at_stop stop rest"
  moreover obtain c t where "s = c # t" using assms(1) by (cases s) auto
  ultimately show "run k (Plus (Char_class P)) (s @ rest) l =
      bindE (run_actions [] l) (\<lambda>l. Inr (Some (Chars s, rest), l))"
    using assms(2,3) run_kleene_chars [where P=P and s=t and rest=rest and stop=stop]
    by (simp add: plus char_class)
qed

lemma run_repeat_chars:
  assumes "\<forall>c \<in> set s. P c \<and> (k \<longrightarrow> \<not> blank c)" and "mn \<le> length s" and "length s \<le> mx"
    and "at_stop stop rest" and "\<forall>c \<in> stop. \<not> P c \<and> \<not> blank c"
  shows "run k (Repeat mn mx (Char_class P)) (s @ rest) l = Inr (Some (Chars s, rest), l)"
  using assms(1-3)
proof (induction s arbitrary: mn mx)
  case Nil
  have "can_start k rest" using assms(4,5) by (auto intro: at_stop_start)
  moreover from this have "run k (Char_class P) rest l = Inr (None, l)" for l
    using assms(4,5) by (cases rest) (auto simp: char_class)
  ultimately show ?case using Nil by (cases mx) (simp_all add: repeat_0 repeat_Suc)
next
  case (Cons c s)
  then obtain mx' where "mx = Suc mx'" by (cases mx) auto
  with Cons show ?case by (cases mn) (auto simp: repeat_Suc char_class)
qed

lemma reads_repeat_chars:
  assumes "\<forall>c \<in> set s. P c \<and> (k \<longrightarrow> \<not> blank c)" and "mn \<le> length s" and "length s \<le> mx"
    and "\<forall>c \<in> stop. \<not> P c \<and> \<not> blank c"
  shows "reads run stop k (Repeat mn mx (Char_class P)) s (Chars s) []"
  using run_repeat_chars [OF assms(1-3) _ assms(4)] by (simp add: reads_def)

lemma absent_repeat_chars:
  assumes "0 < mn" and "0 < mx" and "\<forall>c \<in> stop. \<not> P c \<and> \<not> blank c"
  shows "absent run stop k (Repeat mn mx (Char_class P))"
  unfolding absent_def
proof (intro allI impI)
  fix rest l
  assume stop: "at_stop stop rest"
  obtain n m where "mn = Suc n" "mx = Suc m" using assms by (cases mn; cases mx) auto
  moreover have "can_start k rest" using stop assms(3) by (auto intro: at_stop_start)
  ultimately show "run k (Repeat mn mx (Char_class P)) rest l = Inr (None, l)"
    using stop assms(3) by (cases rest) (auto simp: repeat_Suc char_class)
qed

text \<open>The text of a field: free of separators, and starting with neither a blank nor an end of line.\<close>

lemma no_line_end:
  assumes "s \<noteq> []" and "can_start k s" and "hd s \<notin> {CHR 0x0A, CHR 0x0D}"
  shows "run k (Alternatives [Eoi, Eol]) (s @ rest) l = Inr (None, l)"
  using assms by (simp add: alternatives eoi not_eol can_start_append alternatives_Nil)

lemma line_end_difference:
  assumes "reads run stop k g s x A" and "s \<noteq> []" and "can_start k s" and "hd s \<notin> {CHR 0x0A, CHR 0x0D}"
  shows "reads run stop k (Difference g (Alternatives [Eoi, Eol])) s x A"
  using assms by (simp add: reads_def difference no_line_end can_start_append)

lemma reads_field_text:
  assumes "s \<noteq> []" and "can_start k s" and "hd s \<notin> {CHR 0x0A, CHR 0x0D}" and "\<forall>c \<in> set s. c \<notin> set seps"
    and "stop \<subseteq> set seps" and "\<forall>c \<in> stop. \<not> blank c"
  shows "reads run stop k (field_text seps store) s (Chars s) [\<lambda>l. Inr (store s l)]"
proof -
  have "reads run stop False (Plus (Char_class (none_of seps))) s (Chars s) []"
    using assms by (intro reads_plus_chars) (auto simp: none_of_def)
  then have "reads run stop k (No_skip (Plus (Char_class (none_of seps)))) s (Chars s) []"
    by (simp add: reads_def no_skip)
  from reads_action [OF line_end_difference [OF this assms(1-3)], where f="with_chars (\<lambda>s l. Inr (store s l))"]
  show ?thesis by (simp add: field_text_def)
qed

lemma absent_field_text:
  assumes "stop \<subseteq> set seps" and "\<forall>c \<in> stop. \<not> blank c \<and> c \<notin> {CHR 0x0A, CHR 0x0D}"
  shows "absent run stop k (field_text seps store)"
  unfolding absent_def field_text_def
proof (intro allI impI)
  fix rest l
  assume stop: "at_stop stop rest"
  then have "can_start k rest" using assms(2) by (auto intro: at_stop_start)
  moreover have "run False (Plus (Char_class (none_of seps))) rest l = Inr (None, l)" for l
    using stop assms(1) by (cases rest) (auto simp: plus char_class none_of_def)
  ultimately have "run k (Difference (No_skip (Plus (Char_class (none_of seps)))) (Alternatives [Eoi, Eol])) rest l =
      Inr (None, l)" for l
    using stop assms(2) by (cases rest) (auto simp: difference alternatives eoi not_eol alternatives_Nil no_skip)
  then show "run k (Action (Difference (No_skip (Plus (Char_class (none_of seps)))) (Alternatives [Eoi, Eol]))
      (with_chars (\<lambda>s l. Inr (store s l)))) rest l = Inr (None, l)"
    by (simp add: action)
qed

subsection \<open>Numbers\<close>

lemma stop_cases: "at_stop stop rest \<Longrightarrow> \<forall>c \<in> stop. \<not> P c \<Longrightarrow> rest = [] \<or> \<not> P (hd rest)"
  by (auto simp: at_stop_def)

lemma reads_uint:
  assumes "s \<noteq> []" and "\<forall>c \<in> set s. digit_char c" and "mn \<le> length s" and "length s \<le> mx" and "\<forall>c \<in> stop. \<not> digit_char c"
  shows "reads run stop k (Uint_parser mn mx) s (Number (digits_value s)) []"
  using assms uint by (simp add: reads_def stop_cases)

lemma reads_int:
  assumes "sg \<in> {[], ''-'', ''+''}" and "s \<noteq> []" and "\<forall>c \<in> set s. digit_char c" and "mn \<le> length s"
    and "length s \<le> mx" and "\<forall>c \<in> stop. \<not> digit_char c"
  shows "reads run stop k (Int_parser mn mx) (sg @ s) (Number (sign_value sg (digits_value s))) []"
  using int [OF assms(1-5)] by (simp add: reads_def stop_cases [OF _ assms(6)])

lemma reads_double:
  assumes "real_of s = Some d" and "\<forall>c \<in> stop. \<not> number_char c"
  shows "reads run stop k Double_parser s (Real d) []"
  using assms real by (simp add: reads_def stop_cases)

lemma reads_float:
  assumes "float_of s = Some d" and "\<forall>c \<in> stop. \<not> number_char c"
  shows "reads run stop k Float_parser s (Real d) []"
  using assms float by (simp add: reads_def stop_cases)

lemma can_start_real: "real_of s = Some d \<Longrightarrow> s \<noteq> [] \<and> can_start k s"
  using real_chars [of s d] by (cases s) auto

lemma can_start_float: "float_of s = Some d \<Longrightarrow> s \<noteq> [] \<and> can_start k s"
  using float_chars [of s d] by (cases s) auto

lemma absent_numbers:
  assumes "\<forall>c \<in> stop. \<not> blank c \<and> \<not> number_char c"
  shows "0 < mn \<Longrightarrow> absent run stop k (Uint_parser mn mx)" "0 < mn \<Longrightarrow> absent run stop k (Int_parser mn mx)"
    and "absent run stop k Double_parser" "absent run stop k Float_parser"
proof -
  have "c \<noteq> CHR ''+'' \<and> c \<noteq> CHR ''-'' \<and> \<not> digit_char c" if "\<not> number_char c" for c
    using that by (auto simp: number_char_def)
  then have *: "can_start k rest" "rest = [] \<or> \<not> number_char (hd rest)" "rest = [] \<or> \<not> digit_char (hd rest)"
      "rest = [] \<or> \<not> digit_char (hd rest) \<and> hd rest \<notin> {CHR ''+'', CHR ''-''}" if "at_stop stop rest" for rest
    using that assms at_stop_start [of stop rest k] by (auto simp: at_stop_def)
  show "0 < mn \<Longrightarrow> absent run stop k (Uint_parser mn mx)" "0 < mn \<Longrightarrow> absent run stop k (Int_parser mn mx)"
      "absent run stop k Double_parser" "absent run stop k Float_parser"
    unfolding absent_def using *(1-3) no_int [OF *(1) _ *(4)] by (simp_all add: no_uint no_real no_float)
qed

lemma reads_boolean:
  assumes "c \<in> {CHR ''Y'', CHR ''N'', CHR ''Z''}"
  shows "reads run stop k boolean_p [c] Unused []"
proof -
  have "upper c" using assms by (auto simp: upper_def less_eq_char_def)
  then show ?thesis
    using assms by (auto simp: reads_def boolean_p_def bool parse_true_def parse_false_def string_parse_def)
qed

subsection \<open>Alternatives and lists\<close>

lemma reads_alternative:
  assumes "reads run stop k g s x A" and "s \<noteq> []" and "can_start k s"
  shows "reads run stop k (Alternatives (g # gs)) s x A"
  using assms by (auto simp: reads_def alternatives can_start_append result_bindE)

lemma reads_second_alternative:
  assumes "\<And>rest l. run k g (s @ rest) l = Inr (None, l)" and "reads run stop k (Alternatives gs) s x A"
    and "s \<noteq> []" and "can_start k s"
  shows "reads run stop k (Alternatives (g # gs)) s x A"
  using assms by (auto simp: reads_def alternatives can_start_append)

lemma run_kleene_items:
  assumes "\<forall>(s, A) \<in> set items. \<exists>x. reads run (insert c stop) k g s x A"
    and "c \<notin> stop" and "\<not> blank c" and "\<forall>c \<in> stop. \<not> blank c" and "at_stop stop rest"
  shows "\<exists>y. \<forall>l. run k (Kleene (Sequence [Lit [c], g])) (concat (map (\<lambda>(s, _). c # s) items) @ rest) l =
    bindE (run_actions (concat (map snd items)) l) (\<lambda>l. Inr (Some (y, rest), l))"
  using assms(1)
proof (induction items)
  case Nil
  have start: "can_start k rest" using assms(4,5) by (auto intro: at_stop_start)
  have "string_parse [c] rest = None"
    using assms(2,5) by (cases rest) (auto simp: string_parse_def)
  with start have "run k (Sequence [Lit [c], g]) rest l = Inr (None, l)" for l
    by (simp add: sequence lit)
  then show ?case by (subst kleene) (use start in simp_all)
next
  case (Cons item items)
  obtain s A where item: "item = (s, A)" by (cases item)
  let ?tail = "concat (map (\<lambda>(s, _). c # s) items) @ rest"
  from Cons obtain y where y: "\<And>l. run k (Kleene (Sequence [Lit [c], g])) ?tail l =
      bindE (run_actions (concat (map snd items)) l) (\<lambda>l. Inr (Some (y, rest), l))" by auto
  from Cons.prems obtain x where x: "reads run (insert c stop) k g s x A" by (auto simp: item)
  have "at_stop (insert c stop) ?tail" using assms(5) by (cases items) (auto simp: at_stop_def)
  from readsD [OF x this] have step: "run k (Sequence [Lit [c], g]) (c # s @ ?tail) l =
      bindE (run_actions A l) (\<lambda>l. Inr (Some (Unused, ?tail), l))" for l
    using assms(3) by (simp add: sequence sequence_Nil lit string_parse_def result_bindE)
  have "run k (Kleene (Sequence [Lit [c], g])) (c # s @ ?tail) l =
      bindE (run_actions A l) (\<lambda>l. bindE (run_actions (concat (map snd items)) l) (\<lambda>l. Inr (Some (Unused, rest), l)))" for l
    using assms(3)
    by (subst kleene) (auto simp: step bindE_Inr_iff iterated_bindE y result_bindE)
  then show ?case by (auto simp: item bindE_assoc)
qed

end

fun sep_join :: "char \<Rightarrow> string list \<Rightarrow> string" where
  "sep_join c [] = []"
| "sep_join c (s # ss) = s @ concat (map (Cons c) ss)"

context spirit
begin

lemma reads_separated:
  assumes "items \<noteq> []" and "\<forall>(s, A) \<in> set items. \<exists>x. reads run (insert c stop) k g s x A"
    and "c \<notin> stop" and "\<not> blank c" and "\<forall>c \<in> stop. \<not> blank c"
  shows "reads run stop k (Separated g (Lit [c])) (sep_join c (map fst items)) Unused (concat (map snd items))"
  unfolding reads_def
proof (intro allI impI)
  fix rest l
  assume stop: "at_stop stop rest"
  obtain s A items' where items: "items = (s, A) # items'" using assms(1) by (cases items) auto
  let ?tail = "concat (map (\<lambda>(s, _). c # s) items') @ rest"
  obtain x where x: "reads run (insert c stop) k g s x A" using assms(2) items by auto
  have "at_stop (insert c stop) ?tail" using stop by (cases items') (auto simp: at_stop_def)
  note first = readsD [OF x this]
  obtain y where "\<And>l. run k (Kleene (Sequence [Lit [c], g])) ?tail l =
      bindE (run_actions (concat (map snd items')) l) (\<lambda>l. Inr (Some (y, rest), l))"
    using run_kleene_items [OF _ assms(3-5) stop, of items' k g] assms(2) items by auto
  moreover have "concat (map (Cons c) (map fst items')) = concat (map (\<lambda>(s, _). c # s) items')"
    by (rule arg_cong [where f=concat]) auto
  ultimately show "run k (Separated g (Lit [c])) (sep_join c (map fst items) @ rest) l =
      bindE (run_actions (concat (map snd items)) l) (\<lambda>l. Inr (Some (Unused, rest), l))"
    using first by (simp add: items separated result_bindE bindE_assoc)
qed

lemma reads_item_optional:
  assumes "s = [] \<Longrightarrow> absent run stop k g" and "s \<noteq> [] \<Longrightarrow> can_start k s \<and> (\<exists>x. reads run stop k g s x A)"
    and "\<forall>c \<in> stop. \<not> blank c"
  shows "\<exists>x. reads run stop k (Optional g) s x (if s = [] then [] else A)"
  using assms reads_optional reads_optional_absent by (cases "s = []") (simp, blast)+

end

end
