(* ===== verification/PorRows.thy ===== *)
theory PorRows
  imports PorParser
begin

text \<open>
  The rows of the POR file, as the comment of the grammar documents them: a row is given by the texts of
  its fields, \<open>row_text\<close> puts them together, and \<open>row_actions\<close> lists the actions that the grammar owes to
  each field. The properties show that the parser gives exactly the location of the row, that it skips
  the header line, and what it does with a text that is not a row.
\<close>

section \<open>Rows\<close>

text \<open>An empty text is an absent field; a date is the texts of its year, month and day.\<close>

type_synonym date_text = "string \<times> string \<times> string"

record por_row_texts =
  pr_iata :: string
  pr_icao :: string
  pr_faa :: string
  pr_is_geonames :: char
  pr_geoname_id :: string
  pr_envelope_id :: string
  pr_name :: string
  pr_ascii_name :: string
  pr_latitude :: string
  pr_longitude :: string
  pr_fclass :: string
  pr_fcode :: string
  pr_page_rank :: string
  pr_date_from :: "date_text option"
  pr_date_until :: "date_text option"
  pr_comments :: string
  pr_country_code :: string
  pr_cc2 :: string
  pr_country_name :: string
  pr_continent_name :: string
  pr_adm1_code :: string
  pr_adm1_utf :: string
  pr_adm1_ascii :: string
  pr_adm2_code :: string
  pr_adm2_utf :: string
  pr_adm2_ascii :: string
  pr_adm3_code :: string
  pr_adm4_code :: string
  pr_population :: string
  pr_elevation :: "string \<times> string"
  pr_gtopo30 :: "string \<times> string"
  pr_timezone :: string
  pr_gmt_offset :: string
  pr_dst_offset :: string
  pr_raw_offset :: string
  pr_mod_date :: "date_text option"
  pr_city_codes :: "string list"
  pr_city_names :: "string list"
  pr_city_details :: "(string \<times> string \<times> string \<times> string) list"
  pr_tvl_codes :: "string list"
  pr_state_code :: string
  pr_type :: string
  pr_wiki :: string
  pr_alt_names :: "(string \<times> string \<times> string) list"

definition date_text :: "date_text \<Rightarrow> string" where
  "date_text d = (case d of (y, m, dd) \<Rightarrow> y @ ''-'' @ m @ ''-'' @ dd)"

definition date_text_opt :: "string \<Rightarrow> date_text option \<Rightarrow> string" where
  "date_text_opt none d = (case d of None \<Rightarrow> none | Some d \<Rightarrow> date_text d)"

definition city_detail_text :: "string \<times> string \<times> string \<times> string \<Rightarrow> string" where
  "city_detail_text d = (case d of (code, gid, utf, ascii) \<Rightarrow> sep_join CHR ''|'' [code, gid, utf, ascii])"

definition alt_name_text :: "string \<times> string \<times> string \<Rightarrow> string" where
  "alt_name_text d = (case d of (lang, name, quals) \<Rightarrow> sep_join CHR ''|'' [lang, name, quals])"

definition key_text :: "por_row_texts \<Rightarrow> string" where
  "key_text r = sep_join CHR ''^''
     [pr_iata r, pr_icao r, pr_faa r, [pr_is_geonames r], pr_geoname_id r, pr_envelope_id r]"

definition details_text :: "por_row_texts \<Rightarrow> string" where
  "details_text r = sep_join CHR ''^''
     [pr_name r, pr_ascii_name r, pr_latitude r, pr_longitude r, pr_fclass r, pr_fcode r, pr_page_rank r,
      date_text_opt [] (pr_date_from r), date_text_opt [] (pr_date_until r), pr_comments r,
      pr_country_code r, pr_cc2 r, pr_country_name r, pr_continent_name r,
      pr_adm1_code r, pr_adm1_utf r, pr_adm1_ascii r, pr_adm2_code r, pr_adm2_utf r, pr_adm2_ascii r,
      pr_adm3_code r, pr_adm4_code r, pr_population r,
      fst (pr_elevation r) @ snd (pr_elevation r), fst (pr_gtopo30 r) @ snd (pr_gtopo30 r),
      pr_timezone r, pr_gmt_offset r, pr_dst_offset r, pr_raw_offset r,
      date_text_opt ''-1'' (pr_mod_date r), sep_join CHR '','' (pr_city_codes r),
      sep_join CHR ''='' (pr_city_names r), sep_join CHR ''='' (map city_detail_text (pr_city_details r)),
      sep_join CHR '','' (pr_tvl_codes r), pr_state_code r, pr_type r, pr_wiki r]"

definition row_text :: "por_row_texts \<Rightarrow> string" where
  "row_text r = sep_join CHR ''^''
     [key_text r, details_text r, sep_join CHR ''='' (map alt_name_text (pr_alt_names r))]"

text \<open>What the format asks of the texts.\<close>

definition plain :: "(char \<Rightarrow> bool) \<Rightarrow> string \<Rightarrow> string \<Rightarrow> bool" where
  "plain blank seps s \<longleftrightarrow> s \<noteq> [] \<and> \<not> blank (hd s) \<and> hd s \<noteq> CHR 0x0A \<and> hd s \<noteq> CHR 0x0D \<and>
     (\<forall>c \<in> set s. c \<notin> set seps)"

definition code :: "(char \<Rightarrow> bool) \<Rightarrow> nat \<Rightarrow> nat \<Rightarrow> string \<Rightarrow> bool" where
  "code P mn mx s \<longleftrightarrow> mn \<le> length s \<and> length s \<le> mx \<and> (\<forall>c \<in> set s. P c)"

definition date_ok :: "date_text \<Rightarrow> bool" where
  "date_ok d \<longleftrightarrow> (case d of (y, m, dd) \<Rightarrow> code digit_char 4 4 y \<and> code digit_char 2 2 m \<and> code digit_char 2 2 dd)"

definition signed_ok :: "string \<times> string \<Rightarrow> bool" where
  "signed_ok d \<longleftrightarrow> (case d of (sg, ds) \<Rightarrow> sg \<in> {[], ''-'', ''+''} \<and> code digit_char 1 5 ds \<or> sg = [] \<and> ds = [])"

definition city_detail_ok :: "(char \<Rightarrow> bool) \<Rightarrow> string \<times> string \<times> string \<times> string \<Rightarrow> bool" where
  "city_detail_ok blank d \<longleftrightarrow> (case d of (cc, gid, utf, ascii) \<Rightarrow>
     code upper 3 3 cc \<and> code digit_char 1 9 gid \<and> plain blank ''^|='' utf \<and> plain blank ''^|='' ascii)"

definition alt_name_ok :: "(char \<Rightarrow> bool) \<Rightarrow> string \<times> string \<times> string \<Rightarrow> bool" where
  "alt_name_ok blank d \<longleftrightarrow> (case d of (lang, name, quals) \<Rightarrow>
     (lang = [] \<or> plain blank ''|='' lang \<and> (\<forall>c \<in> set lang. \<not> blank c)) \<and>
     plain blank ''|='' name \<and> (quals = [] \<or> code (one_of ''shpc'') 1 4 quals))"

definition codes_ok :: "por_row_texts \<Rightarrow> bool" where
  "codes_ok r \<longleftrightarrow> code upper 3 3 (pr_iata r) \<and> (pr_icao r = [] \<or> code upper_digit 4 4 (pr_icao r)) \<and>
     (pr_faa r = [] \<or> code upper_digit 1 4 (pr_faa r)) \<and>
     pr_is_geonames r \<in> {CHR ''Y'', CHR ''N'', CHR ''Z''} \<and> code digit_char 1 9 (pr_geoname_id r) \<and>
     (pr_envelope_id r = [] \<or> code digit_char 1 4 (pr_envelope_id r)) \<and>
     code upper 1 1 (pr_fclass r) \<and> code feature_char 2 5 (pr_fcode r) \<and>
     code upper 2 3 (pr_country_code r) \<and> code (one_of ''ABCGHOPRZ'') 1 3 (pr_type r)"

definition names_ok :: "(char \<Rightarrow> bool) \<Rightarrow> por_row_texts \<Rightarrow> bool" where
  "names_ok blank r \<longleftrightarrow> (\<forall>s \<in> {pr_name r, pr_ascii_name r, pr_country_name r}. plain blank ''^'' s) \<and>
     (\<forall>s \<in> {pr_comments r, pr_cc2 r, pr_continent_name r, pr_adm1_code r, pr_adm1_utf r, pr_adm1_ascii r,
         pr_adm2_code r, pr_adm2_utf r, pr_adm2_ascii r, pr_adm3_code r, pr_adm4_code r, pr_timezone r,
         pr_state_code r, pr_wiki r}. s = [] \<or> plain blank ''^'' s)"

definition numbers_ok :: "(string \<Rightarrow> dbl option) \<Rightarrow> (string \<Rightarrow> dbl option) \<Rightarrow> por_row_texts \<Rightarrow> bool" where
  "numbers_ok real_of float_of r \<longleftrightarrow>
     (\<forall>s \<in> {pr_latitude r, pr_longitude r, pr_page_rank r}. s = [] \<or> real_of s \<noteq> None) \<and>
     (\<forall>s \<in> {pr_gmt_offset r, pr_dst_offset r, pr_raw_offset r}. s = [] \<or> float_of s \<noteq> None) \<and>
     (pr_population r = [] \<or> code digit_char 1 9 (pr_population r)) \<and>
     signed_ok (pr_elevation r) \<and> signed_ok (pr_gtopo30 r) \<and>
     (\<forall>d \<in> {pr_date_from r, pr_date_until r, pr_mod_date r}. case d of None \<Rightarrow> True | Some d \<Rightarrow> date_ok d)"

definition lists_ok :: "(char \<Rightarrow> bool) \<Rightarrow> por_row_texts \<Rightarrow> bool" where
  "lists_ok blank r \<longleftrightarrow> pr_city_codes r \<noteq> [] \<and> (\<forall>s \<in> set (pr_city_codes r). code upper 3 3 s) \<and>
     (\<forall>s \<in> set (pr_city_names r). plain blank ''^|='' s) \<and>
     (\<forall>d \<in> set (pr_city_details r). city_detail_ok blank d) \<and>
     (\<forall>s \<in> set (pr_tvl_codes r). plain blank ''^,'' s) \<and>
     (\<forall>d \<in> set (pr_alt_names r). alt_name_ok blank d)"

definition row_ok ::
    "(char \<Rightarrow> bool) \<Rightarrow> (string \<Rightarrow> dbl option) \<Rightarrow> (string \<Rightarrow> dbl option) \<Rightarrow> por_row_texts \<Rightarrow> bool" where
  "row_ok blank real_of float_of r \<longleftrightarrow>
     codes_ok r \<and> names_ok blank r \<and> numbers_ok real_of float_of r \<and> lists_ok blank r"

section \<open>The actions of a row\<close>

abbreviation act :: "(Location \<Rightarrow> Location) \<Rightarrow> por_action" where
  "act f \<equiv> (\<lambda>l. Inr (f l))"

definition unless_empty :: "string \<Rightarrow> por_action list \<Rightarrow> por_action list" where
  "unless_empty s A = (if s = [] then [] else A)"

definition number_of :: "string \<Rightarrow> 32 word" where
  "number_of s = word_of_int (digits_value s)"

definition date_actions :: "date_text option \<Rightarrow> por_action \<Rightarrow> por_action list" where
  "date_actions d store = (case d of None \<Rightarrow> [] | Some (y, m, dd) \<Rightarrow>
     [store_year (digits_value y), store_month (digits_value m), store_day (digits_value dd), store])"

definition city_detail_actions :: "string \<times> string \<times> string \<times> string \<Rightarrow> por_action list" where
  "city_detail_actions d = (case d of (cc, gid, utf, ascii) \<Rightarrow>
     [act (storeCityCode cc), act (storeCityGeonamesID (number_of gid)), act (storeCityUtfName utf),
      act (storeCityAsciiName ascii)])"

definition alt_name_action :: "string \<times> string \<times> string \<Rightarrow> por_action list" where
  "alt_name_action d = (case d of (lang, name, quals) \<Rightarrow>
     unless_empty lang [act (storeAltLangCodeFull lang)] @ [act (storeAltName name)])"

definition key_actions :: "por_row_texts \<Rightarrow> por_action list list" where
  "key_actions r =
     [[act (storeIataCode (pr_iata r))],
      unless_empty (pr_icao r) [act (storeIcaoCode (pr_icao r))],
      unless_empty (pr_faa r) [act (storeFaaCode (pr_faa r))],
      [],
      [act (storeGeonamesID (number_of (pr_geoname_id r)))],
      unless_empty (pr_envelope_id r) [act (storeEnvelopeID (number_of (pr_envelope_id r)))]]"

definition details_actions ::
    "(string \<Rightarrow> dbl option) \<Rightarrow> (string \<Rightarrow> dbl option) \<Rightarrow> (nat \<Rightarrow> nat \<Rightarrow> nat \<Rightarrow> bool) \<Rightarrow> por_row_texts \<Rightarrow>
     por_action list list" where
  "details_actions real_of float_of valid_ymd r =
     (let real = (\<lambda>s store. unless_empty s [act (store (the (real_of s)))]);
          flt = (\<lambda>s store. unless_empty s [act (store (the (float_of s)))]);
          txt = (\<lambda>s store. unless_empty s [act (store s)]);
          signed = (\<lambda>p store. unless_empty (fst p @ snd p)
            [act (store (sign_value (fst p) (digits_value (snd p))))])
      in [[act (storeCommonName (pr_name r))],
          [act (storeAsciiName (pr_ascii_name r))],
          real (pr_latitude r) storeLatitude,
          real (pr_longitude r) storeLongitude,
          [act (storeFeatureClass (pr_fclass r))],
          [act (storeFeatureCode (pr_fcode r))],
          real (pr_page_rank r) storePageRank,
          date_actions (pr_date_from r) (act storeDateFrom),
          date_actions (pr_date_until r) (act storeDateUntil),
          txt (pr_comments r) storeComments,
          [act (storeCountryCode (pr_country_code r))],
          txt (pr_cc2 r) storeAltCountryCode,
          [act (storeCountryName (pr_country_name r))],
          txt (pr_continent_name r) storeContinentName,
          txt (pr_adm1_code r) storeAdm1Code,
          txt (pr_adm1_utf r) storeAdm1UtfName,
          txt (pr_adm1_ascii r) storeAdm1AsciiName,
          txt (pr_adm2_code r) storeAdm2Code,
          txt (pr_adm2_utf r) storeAdm2UtfName,
          txt (pr_adm2_ascii r) storeAdm2AsciiName,
          txt (pr_adm3_code r) storeAdm3Code,
          txt (pr_adm4_code r) storeAdm4Code,
          unless_empty (pr_population r) [act (storePopulation (number_of (pr_population r)))],
          signed (pr_elevation r) storeElevation,
          signed (pr_gtopo30 r) storeGTopo30,
          txt (pr_timezone r) storeTimeZone,
          flt (pr_gmt_offset r) storeGMTOffset,
          flt (pr_dst_offset r) storeDSTOffset,
          flt (pr_raw_offset r) storeRawOffset,
          date_actions (pr_mod_date r) (storeModDate valid_ymd),
          map (\<lambda>s. act (storeCityCode s)) (pr_city_codes r),
          map (\<lambda>s. act (storeCityUtfName s)) (pr_city_names r),
          concat (map city_detail_actions (pr_city_details r)),
          (if pr_tvl_codes r = [] then []
           else map (\<lambda>s. act (storeTvlPORCode s)) (pr_tvl_codes r) @ [act storeTvlPORListString]),
          txt (pr_state_code r) storeStateCode,
          [storePORType (pr_type r)],
          txt (pr_wiki r) storeWikiLink])"

definition row_actions ::
    "(string \<Rightarrow> dbl option) \<Rightarrow> (string \<Rightarrow> dbl option) \<Rightarrow> (nat \<Rightarrow> nat \<Rightarrow> nat \<Rightarrow> bool) \<Rightarrow> por_row_texts \<Rightarrow>
     por_action list" where
  "row_actions real_of float_of valid_ymd r =
     concat (key_actions r) @ concat (details_actions real_of float_of valid_ymd r) @
     concat (map alt_name_action (pr_alt_names r)) @ [act doEndPor]"

section \<open>The grammar reads the rows\<close>

definition reads_field :: "spirit_run \<Rightarrow> char set \<Rightarrow> grammar \<Rightarrow> string \<Rightarrow> por_action list \<Rightarrow> bool" where
  "reads_field run stop g s A \<longleftrightarrow> (\<exists>x. reads run stop True g s x A)"

lemma char_class_simps [simp]:
  "\<not> upper (CHR ''^'')" "\<not> upper (CHR '','')" "\<not> upper (CHR ''|'')" "\<not> digit_char (CHR ''^'')" "\<not> digit_char (CHR ''-'')"
  "\<not> digit_char (CHR ''|'')" "\<not> lower (CHR ''^'')" "\<not> lower (CHR ''|'')" "\<not> upper_digit (CHR ''^'')"
  "\<not> feature_char (CHR ''^'')" "\<not> number_char (CHR ''^'')" "\<not> number_char (CHR ''|'')" "\<not> upper (CHR ''='')"
  "\<not> digit_char (CHR ''='')"
  by (simp_all add: upper_def digit_char_def lower_def upper_digit_def feature_char_def number_char_def less_eq_char_def)

context spirit
begin

lemma blank_class_chars [simp]:
  "upper_digit c \<Longrightarrow> \<not> blank c" "feature_char c \<Longrightarrow> \<not> blank c" "one_of ''ABCGHOPRZ'' c \<Longrightarrow> \<not> blank c"
  "one_of ''shpc'' c \<Longrightarrow> \<not> blank c"
  by (auto simp: upper_digit_def feature_char_def one_of_def digit_char_def upper_def lower_def less_eq_char_def
    intro!: blank_ascii dest: order_trans)

lemma reads_code:
  assumes "code P mn mx s" and "\<forall>c. P c \<longrightarrow> \<not> blank c" and "\<forall>c \<in> stop. \<not> P c \<and> \<not> blank c"
  shows "reads_field run stop (Action (Repeat mn mx (Char_class P)) f) s [f (Chars s)]"
proof -
  have "reads run stop True (Repeat mn mx (Char_class P)) s (Chars s) []"
    using assms by (intro reads_repeat_chars) (auto simp: code_def)
  from reads_action [OF this, of f] show ?thesis by (auto simp: reads_field_def)
qed

lemma reads_digits:
  assumes "code digit_char mn mx s" and "0 < mn" and "\<forall>c \<in> stop. \<not> digit_char c"
  shows "reads_field run stop (Action (Uint_parser mn mx) f) s [f (Number (digits_value s))]"
proof -
  have "reads run stop True (Uint_parser mn mx) s (Number (digits_value s)) []"
    using assms by (intro reads_uint) (auto simp: code_def)
  from reads_action [OF this, of f] show ?thesis by (auto simp: reads_field_def)
qed

lemma reads_plain:
  assumes "plain blank seps s" and "stop \<subseteq> set seps" and "\<forall>c \<in> stop. \<not> blank c"
  shows "reads_field run stop (field_text seps store) s [act (store s)]"
  using reads_field_text [of s True seps stop store] assms
  by (auto simp: reads_field_def plain_def ready_def)

lemma reads_unless_empty:
  assumes "s \<noteq> [] \<Longrightarrow> can_start True s \<and> reads_field run stop g s A" and "absent run stop True g"
    and "\<forall>c \<in> stop. \<not> blank c"
  shows "reads_field run stop (Optional g) s (unless_empty s A)"
  using reads_item_optional [of s stop True g A] assms by (auto simp: reads_field_def unless_empty_def)

lemma reads_fields:
  assumes "reads_field run {CHR ''^''} g s A" and "\<forall>(g, s, A) \<in> set flds. reads_field run {CHR ''^''} g s A"
  shows "reads_field run {CHR ''^''} (Sequence (g # concat (map (\<lambda>f. [Lit ''^'', fst f]) flds)))
    (sep_join CHR ''^'' (s # map (\<lambda>f. fst (snd f)) flds)) (A @ concat (map (\<lambda>f. snd (snd f)) flds))"
  using assms
proof (induction flds arbitrary: g s A)
  case Nil
  then obtain x where "reads run {CHR ''^''} True g s x A" by (auto simp: reads_field_def)
  from reads_sequence [OF this reads_sequence_Nil [of "{CHR ''^''}" True]] show ?case
    by (auto simp: reads_field_def)
next
  case (Cons field flds)
  obtain h t B where field: "field = (h, t, B)" by (cases field)
  from Cons obtain x where x: "reads run {CHR ''^''} True g s x A" by (auto simp: reads_field_def)
  from Cons.IH [of h t B] Cons.prems field obtain y where
    "reads run {CHR ''^''} True (Sequence (h # concat (map (\<lambda>f. [Lit ''^'', fst f]) flds)))
      (sep_join CHR ''^'' (t # map (\<lambda>f. fst (snd f)) flds)) y (B @ concat (map (\<lambda>f. snd (snd f)) flds))"
    by (auto simp: reads_field_def)
  from reads_sequence_lit [OF x this, of "CHR ''^''"] show ?case
    by (auto simp: reads_field_def field)
qed

lemma can_start_code: "code P mn mx s \<Longrightarrow> \<forall>c. P c \<longrightarrow> \<not> blank c \<Longrightarrow> can_start True s"
  by (cases s) (auto simp: code_def)

lemma can_start_plain: "plain blank seps s \<Longrightarrow> can_start True s"
  by (simp add: plain_def ready_def)

text \<open>The shapes of the fields of a row, mandatory and optional.\<close>

abbreviation "caret \<equiv> {CHR ''^''}"

lemma reads_code_chars:
  assumes "code P mn mx s" and "\<forall>c. P c \<longrightarrow> \<not> blank c" and "\<forall>c \<in> stop. \<not> P c \<and> \<not> blank c"
  shows "reads_field run stop (Action (Repeat mn mx (Char_class P)) (with_chars f)) s [f s]"
  using reads_code [OF assms, of "with_chars f"] by simp

lemma field_optional:
  "reads_field run stop g s A \<Longrightarrow> s \<noteq> [] \<Longrightarrow> can_start True s \<Longrightarrow> reads_field run stop (Optional g) s A"
  unfolding reads_field_def using reads_optional by blast

lemma field_absent:
  "absent run stop True g \<Longrightarrow> \<forall>c \<in> stop. \<not> blank c \<Longrightarrow> reads_field run stop (Optional g) [] []"
  unfolding reads_field_def using reads_optional_absent by blast

text \<open>One more part of a sequence whose parts are separated by bars.\<close>

lemma bar_sequence:
  assumes "reads_field run {CHR ''|''} g s A" and "reads_field run stop (Sequence gs) t B"
  shows "reads_field run stop (Sequence (g # Lit ''|'' # gs)) (s @ CHR ''|'' # t) (A @ B)"
proof -
  obtain x y where "reads run {CHR ''|''} True g s x A" "reads run stop True (Sequence gs) t y B"
    using assms by (auto simp: reads_field_def)
  then have "reads run stop True (Sequence (g # Lit [CHR ''|''] # gs)) (s @ CHR ''|'' # t) y (A @ B)"
    by (rule reads_sequence_lit) simp_all
  then show ?thesis unfolding reads_field_def by blast
qed

lemma last_in_sequence:
  assumes "reads_field run stop g s A"
  shows "reads_field run stop (Sequence [g]) s A"
proof -
  obtain x where "reads run stop True g s x A" using assms by (auto simp: reads_field_def)
  from reads_sequence [OF this reads_sequence_Nil] show ?thesis by (auto simp: reads_field_def)
qed

lemma field_alternative:
  "reads_field run stop g s A \<Longrightarrow> s \<noteq> [] \<Longrightarrow> can_start True s \<Longrightarrow> reads_field run stop (Alternatives (g # gs)) s A"
  unfolding reads_field_def using reads_alternative by blast

lemma field_code:
  assumes "code P mn mx s" and "\<forall>c. P c \<longrightarrow> \<not> blank c" and "\<not> P (CHR ''^'')"
  shows "reads_field run caret (Action (Repeat mn mx (Char_class P)) (with_chars f)) s [f s]"
  using reads_code_chars [OF assms(1,2)] assms(3) by simp

lemma field_code_opt:
  assumes "s = [] \<or> code P mn mx s" and "0 < mn" and "0 < mx" and "\<forall>c. P c \<longrightarrow> \<not> blank c" and "\<not> P (CHR ''^'')"
  shows "reads_field run caret (Optional (Action (Repeat mn mx (Char_class P)) (with_chars f))) s (unless_empty s [f s])"
proof (rule reads_unless_empty)
  show "absent run caret True (Action (Repeat mn mx (Char_class P)) (with_chars f))"
    using assms by (intro absent_action absent_repeat_chars) simp_all
qed (use assms can_start_code field_code in auto)

lemma field_number:
  assumes "code digit_char mn mx s" and "0 < mn"
  shows "reads_field run caret (Action (Uint_parser mn mx) (with_number f)) s [f (digits_value s)]"
  using reads_digits [OF assms, of caret "with_number f"] by simp

lemma field_number_opt:
  assumes "s = [] \<or> code digit_char mn mx s" and "0 < mn"
  shows "reads_field run caret (Optional (Action (Uint_parser mn mx) (with_number f))) s
    (unless_empty s [f (digits_value s)])"
proof (rule reads_unless_empty)
  show "absent run caret True (Action (Uint_parser mn mx) (with_number f))"
    using assms by (intro absent_action absent_numbers) simp_all
  show "can_start True s \<and> reads_field run caret (Action (Uint_parser mn mx) (with_number f)) s [f (digits_value s)]"
    if "s \<noteq> []"
    using assms that field_number [of mn mx s f] can_start_code [of digit_char mn mx s] by auto
qed simp

lemma field_plain: "plain blank ''^'' s \<Longrightarrow> reads_field run caret (field_text ''^'' store) s [act (store s)]"
  by (rule reads_plain) simp_all

lemma field_plain_opt:
  "s = [] \<or> plain blank ''^'' s \<Longrightarrow>
    reads_field run caret (Optional (field_text ''^'' store)) s (unless_empty s [act (store s)])"
  by (rule reads_unless_empty) (auto simp: can_start_plain field_plain intro!: absent_field_text)

lemma field_real_opt:
  assumes "s = [] \<or> real_of s \<noteq> None"
  shows "reads_field run caret (Optional (Action Double_parser (with_real f))) s (unless_empty s [f (the (real_of s))])"
proof (rule reads_unless_empty)
  assume "s \<noteq> []"
  with assms obtain d where d: "real_of s = Some d" by auto
  from reads_action [OF reads_double [OF d, of caret True], where f="with_real f"]
  show "can_start True s \<and> reads_field run caret (Action Double_parser (with_real f)) s [f (the (real_of s))]"
    using can_start_real [OF d] by (auto simp: reads_field_def d)
qed (auto intro!: absent_action absent_numbers)

lemma field_float_opt:
  assumes "s = [] \<or> float_of s \<noteq> None"
  shows "reads_field run caret (Optional (Action Float_parser (with_real f))) s (unless_empty s [f (the (float_of s))])"
proof (rule reads_unless_empty)
  assume "s \<noteq> []"
  with assms obtain d where d: "float_of s = Some d" by auto
  from reads_action [OF reads_float [OF d, of caret True], where f="with_real f"]
  show "can_start True s \<and> reads_field run caret (Action Float_parser (with_real f)) s [f (the (float_of s))]"
    using can_start_float [OF d] by (auto simp: reads_field_def d)
qed (auto intro!: absent_action absent_numbers)

lemma field_signed_opt:
  assumes "signed_ok (sg, ds)"
  shows "reads_field run caret (Optional (Action (Int_parser 1 5) (with_number f))) (sg @ ds)
    (unless_empty (sg @ ds) [f (sign_value sg (digits_value ds))])"
proof (rule reads_unless_empty)
  assume "sg @ ds \<noteq> []"
  with assms have sg: "sg \<in> {[], ''-'', ''+''}" and ds: "code digit_char 1 5 ds" by (auto simp: signed_ok_def)
  then have "ds \<noteq> []" by (auto simp: code_def)
  moreover have "can_start True (sg @ ds)" using sg can_start_code [OF ds] by auto
  moreover have "reads run caret True (Int_parser 1 5) (sg @ ds) (Number (sign_value sg (digits_value ds))) []"
    using ds \<open>ds \<noteq> []\<close> by (intro reads_int [OF sg]) (auto simp: code_def)
  ultimately show "can_start True (sg @ ds) \<and> reads_field run caret (Action (Int_parser 1 5) (with_number f)) (sg @ ds)
      [f (sign_value sg (digits_value ds))]"
    using reads_action [where f="with_number f"] by (fastforce simp: reads_field_def)
qed (auto intro!: absent_action absent_numbers)

text \<open>Dates.\<close>

lemma reads_part:
  assumes "code digit_char n n s" and "0 < n" and "\<forall>c \<in> stop. \<not> digit_char c"
  shows "reads run stop k (Action (Uint_parser n n) (with_number f)) s (Number (digits_value s)) [f (digits_value s)]"
proof -
  have "reads run stop k (Uint_parser n n) s (Number (digits_value s)) []"
    using assms by (intro reads_uint) (auto simp: code_def)
  from reads_action [OF this, of "with_number f"] show ?thesis by simp
qed

lemma reads_date:
  assumes "date_ok (y, m, d)"
  shows "reads_field run caret (Action date_rule (with_unused store)) (date_text (y, m, d))
    (date_actions (Some (y, m, d)) store)"
proof -
  let ?dash = "CHR ''-''"
  let ?part = "\<lambda>n f. Action (Uint_parser n n) (with_number f)"
  have parts: "code digit_char 4 4 y" "code digit_char 2 2 m" "code digit_char 2 2 d"
    using assms by (auto simp: date_ok_def)
  have d: "reads run caret False (Sequence [?part 2 store_day]) d Unused [store_day (digits_value d)]"
    using reads_sequence [OF reads_part [OF parts(3), of caret False store_day] reads_sequence_Nil [of caret]] by simp
  have m: "reads run {?dash} False (?part 2 store_month) m (Number (digits_value m)) [store_month (digits_value m)]"
    and y: "reads run {?dash} False (?part 4 store_year) y (Number (digits_value y)) [store_year (digits_value y)]"
    using reads_part [OF parts(1)] reads_part [OF parts(2)] by simp_all
  have "reads run caret False
      (Sequence [?part 4 store_year, Lit [?dash], ?part 2 store_month, Lit [?dash], ?part 2 store_day])
      (date_text (y, m, d)) Unused
      [store_year (digits_value y), store_month (digits_value m), store_day (digits_value d)]"
    using reads_sequence_lit [OF y reads_sequence_lit [OF m d]] by (simp add: date_text_def)
  moreover have "y \<noteq> []" "can_start True y" using parts(1) can_start_code [OF parts(1)] by (auto simp: code_def)
  ultimately have "reads run caret True date_rule (date_text (y, m, d)) Unused
      [store_year (digits_value y), store_month (digits_value m), store_day (digits_value d)]"
    by (simp add: reads_def date_rule_def year_p_def month_p_def day_p_def lexeme date_text_def can_start_append)
  from reads_action [OF this, of "with_unused store"] show ?thesis
    by (auto simp: reads_field_def date_actions_def)
qed

lemma can_start_date: "date_ok d \<Longrightarrow> date_text d \<noteq> [] \<and> can_start True (date_text d)"
  using can_start_code [of digit_char 4 4 "fst d"]
  by (cases d) (auto simp: date_text_def date_ok_def ready_def code_def hd_append)

lemma no_date:
  assumes "s = [] \<or> \<not> digit_char (hd s)" and "can_start True s"
  shows "run True date_rule s l = Inr (None, l)"
  using assms by (simp add: date_rule_def lexeme sequence year_p_def action no_uint)

lemma field_date_opt:
  assumes "case d of None \<Rightarrow> True | Some d \<Rightarrow> date_ok d"
  shows "reads_field run caret (Optional (Action date_rule (with_unused store))) (date_text_opt [] d)
    (date_actions d store)"
proof (cases d)
  case None
  have "absent run caret True (Action date_rule (with_unused store))"
    by (rule absent_action) (auto simp: absent_def at_stop_def intro!: no_date simp: ready_def)
  from reads_optional_absent [OF this] show ?thesis
    by (auto simp: None reads_field_def date_text_opt_def date_actions_def)
next
  case (Some d')
  obtain y m dd where d': "d' = (y, m, dd)" by (cases d')
  with assms Some have "date_ok (y, m, dd)" by simp
  then show ?thesis
    using field_optional [OF reads_date [of y m dd store]] can_start_date [of d']
    by (simp add: Some d' date_text_opt_def)
qed

lemma field_mod_date:
  assumes "case d of None \<Rightarrow> True | Some d \<Rightarrow> date_ok d"
  shows "reads_field run caret (Alternatives [mod_date valid_ymd, Lit ''-1'']) (date_text_opt ''-1'' d)
    (date_actions d (storeModDate valid_ymd))"
proof (cases d)
  case None
  have lit: "reads run caret True (Lit ''-1'') ''-1'' Unused []" by (rule reads_lit) simp_all
  have "reads run caret True (Alternatives [mod_date valid_ymd, Lit ''-1'']) ''-1'' Unused []"
  proof (rule reads_second_alternative)
    show "reads run caret True (Alternatives [Lit ''-1'']) ''-1'' Unused []"
      using lit by (rule reads_alternative) simp_all
    show "run True (mod_date valid_ymd) (''-1'' @ rest) l = Inr (None, l)" for rest l
      by (simp add: mod_date_def action no_date)
  qed simp_all
  then show ?thesis by (auto simp: None reads_field_def date_text_opt_def date_actions_def)
next
  case (Some d')
  obtain y m dd where d': "d' = (y, m, dd)" by (cases d')
  with assms Some have "date_ok (y, m, dd)" by simp
  then show ?thesis
    using field_alternative [OF reads_date [of y m dd "storeModDate valid_ymd"]] can_start_date [of d']
    by (simp add: Some d' date_text_opt_def mod_date_def)
qed

text \<open>Lists.\<close>

lemma reads_field_list:
  assumes "items \<noteq> []" and "\<forall>d \<in> set items. reads_field run (insert c stop) g (txt d) (acts d)"
    and "c \<notin> stop" and "\<not> blank c" and "\<forall>c \<in> stop. \<not> blank c"
  shows "reads run stop True (Separated g (Lit [c])) (sep_join c (map txt items)) Unused (concat (map acts items))"
proof -
  have "map fst (map (\<lambda>d. (txt d, acts d)) items) = map txt items"
    "map snd (map (\<lambda>d. (txt d, acts d)) items) = map acts items" by simp_all
  with reads_separated [of "map (\<lambda>d. (txt d, acts d)) items" c stop True g] assms show ?thesis
    by (auto simp: reads_field_def comp_def)
qed

lemma sep_join_start:
  "s \<noteq> [] \<Longrightarrow> can_start k s \<Longrightarrow> sep_join c (s # ss) \<noteq> [] \<and> can_start k (sep_join c (s # ss))"
  by (cases s) simp_all

lemma field_list_opt:
  assumes "\<forall>d \<in> set items. txt d \<noteq> [] \<and> can_start True (txt d) \<and> reads_field run (insert c stop) g (txt d) (acts d)"
    and "absent run stop True g" and "c \<notin> stop" and "\<not> blank c" and "\<forall>c \<in> stop. \<not> blank c"
  shows "reads_field run stop (Optional (Separated g (Lit [c]))) (sep_join c (map txt items)) (concat (map acts items))"
proof (cases items)
  case Nil
  have "absent run stop True (Separated g (Lit [c]))" using assms(2) by (simp add: absent_def separated)
  then show ?thesis using reads_optional_absent assms(5) by (auto simp: Nil reads_field_def)
next
  case (Cons d items')
  then have "txt d \<noteq> [] \<and> can_start True (txt d)" using assms(1) by simp
  then have "sep_join c (map txt items) \<noteq> [] \<and> can_start True (sep_join c (map txt items))"
    using sep_join_start [of "txt d" True c "map txt items'"] Cons by simp
  moreover have "reads run stop True (Separated g (Lit [c])) (sep_join c (map txt items)) Unused (concat (map acts items))"
    using Cons assms by (intro reads_field_list) auto
  ultimately show ?thesis
    using field_optional [of stop "Separated g (Lit [c])" "sep_join c (map txt items)"] unfolding reads_field_def by blast
qed

lemma field_city_codes:
  assumes "ss \<noteq> []" and "\<forall>s \<in> set ss. code upper 3 3 s"
  shows "reads_field run caret city_code_list (sep_join CHR '','' ss) (map (\<lambda>s. act (storeCityCode s)) ss)"
proof -
  have "reads_field run {CHR '','', CHR ''^''} city_code s [act (storeCityCode s)]" if "s \<in> set ss" for s
    using that assms(2) unfolding city_code_def by (intro reads_code_chars) auto
  then show ?thesis
    using reads_field_list [OF assms(1), of "CHR '',''" caret city_code "\<lambda>s. s" "\<lambda>s. [act (storeCityCode s)]"]
    by (auto simp: reads_field_def city_code_list_def)
qed

lemma reads_plain_item:
  assumes "plain blank seps s" and "stop \<subseteq> set seps" and "\<forall>c \<in> stop. \<not> blank c"
  shows "s \<noteq> [] \<and> can_start True s \<and> reads_field run stop (field_text seps store) s [act (store s)]"
  using reads_plain [OF assms] can_start_plain [OF assms(1)] assms(1) by (simp add: plain_def)

lemma field_city_names:
  assumes "\<forall>s \<in> set ss. plain blank ''^|='' s"
  shows "reads_field run caret (Optional city_name_list) (sep_join CHR ''='' ss) (map (\<lambda>s. act (storeCityUtfName s)) ss)"
proof -
  have "s \<noteq> [] \<and> can_start True s \<and>
      reads_field run {CHR ''='', CHR ''^''} city_name_utf s [act (storeCityUtfName s)]" if "s \<in> set ss" for s
    using that assms unfolding city_name_utf_def by (intro reads_plain_item) simp_all
  moreover have "absent run caret True city_name_utf"
    unfolding city_name_utf_def by (rule absent_field_text) simp_all
  ultimately show ?thesis
    using field_list_opt [of ss "\<lambda>s. s" "CHR ''=''" caret city_name_utf "\<lambda>s. [act (storeCityUtfName s)]"]
    by (simp add: city_name_list_def)
qed

lemma field_tvl_codes:
  assumes "\<forall>s \<in> set ss. plain blank ''^,'' s"
  shows "reads_field run caret
    (Optional (Action tvl_por_code_list (with_unused (\<lambda>l. Inr (storeTvlPORListString l))))) (sep_join CHR '','' ss)
    (if ss = [] then [] else map (\<lambda>s. act (storeTvlPORCode s)) ss @ [act storeTvlPORListString])"
proof (cases "ss = []")
  case True
  have "absent run caret True tvl_por_code"
    unfolding tvl_por_code_def by (rule absent_field_text) simp_all
  then have "absent run caret True (Action tvl_por_code_list (with_unused (\<lambda>l. Inr (storeTvlPORListString l))))"
    by (intro absent_action) (simp add: absent_def separated tvl_por_code_list_def)
  then show ?thesis using field_absent True by simp
next
  case False
  have item: "s \<noteq> [] \<and> can_start True s \<and>
      reads_field run {CHR '','', CHR ''^''} tvl_por_code s [act (storeTvlPORCode s)]" if "s \<in> set ss" for s
    using that assms unfolding tvl_por_code_def by (intro reads_plain_item) simp_all
  have "reads run caret True tvl_por_code_list (sep_join CHR '','' ss) Unused (map (\<lambda>s. act (storeTvlPORCode s)) ss)"
    using reads_field_list [OF False, of "CHR '',''" caret tvl_por_code "\<lambda>s. s" "\<lambda>s. [act (storeTvlPORCode s)]"] item
    by (simp add: tvl_por_code_list_def)
  from reads_action [OF this, of "with_unused (\<lambda>l. Inr (storeTvlPORListString l))"]
  have "reads_field run caret (Action tvl_por_code_list (with_unused (\<lambda>l. Inr (storeTvlPORListString l))))
      (sep_join CHR '','' ss) (map (\<lambda>s. act (storeTvlPORCode s)) ss @ [act storeTvlPORListString])"
    by (auto simp: reads_field_def)
  moreover have "sep_join CHR '','' ss \<noteq> [] \<and> can_start True (sep_join CHR '','' ss)"
    using sep_join_start [of "hd ss" True "CHR '',''" "tl ss"] item [of "hd ss"] False by simp
  ultimately show ?thesis using field_optional False by simp
qed

lemma reads_city_detail:
  assumes "city_detail_ok blank (cc, gid, utf, ascii)"
  shows "reads_field run {CHR ''='', CHR ''^''} city_details (city_detail_text (cc, gid, utf, ascii))
    (city_detail_actions (cc, gid, utf, ascii))"
proof -
  let ?bar = "CHR ''|''" and ?stop = "{CHR ''='', CHR ''^''}"
  have ok: "code upper 3 3 cc" "code digit_char 1 9 gid" "plain blank ''^|='' utf" "plain blank ''^|='' ascii"
    using assms by (auto simp: city_detail_ok_def)
  have "reads_field run {?bar} city_code cc [act (storeCityCode cc)]"
    using reads_code_chars [OF ok(1), of "{?bar}"] by (simp add: city_code_def)
  moreover have "reads_field run {?bar} city_geoname_id gid [act (storeCityGeonamesID (number_of gid))]"
    using reads_digits [OF ok(2), of "{?bar}" "with_number (\<lambda>n l. Inr (storeCityGeonamesID (word_of_int n) l))"]
    by (simp add: city_geoname_id_def uint1_9_p_def number_of_def)
  moreover have "reads_field run {?bar} city_name_utf utf [act (storeCityUtfName utf)]"
    using reads_plain [OF ok(3), of "{?bar}"] by (simp add: city_name_utf_def)
  moreover have "reads_field run ?stop city_name_ascii ascii [act (storeCityAsciiName ascii)]"
    using reads_plain [OF ok(4), of ?stop] by (simp add: city_name_ascii_def)
  ultimately have "reads_field run ?stop city_details (cc @ ?bar # gid @ ?bar # utf @ ?bar # ascii)
      ([act (storeCityCode cc)] @ [act (storeCityGeonamesID (number_of gid))] @ [act (storeCityUtfName utf)] @
       [act (storeCityAsciiName ascii)])"
    unfolding city_details_def by (intro bar_sequence last_in_sequence)
  then show ?thesis by (simp add: city_detail_text_def city_detail_actions_def)
qed

lemma can_start_city_detail:
  "city_detail_ok blank d \<Longrightarrow> city_detail_text d \<noteq> [] \<and> can_start True (city_detail_text d)"
  using can_start_code [of upper 3 3 "fst d"]
  by (cases d) (auto simp: city_detail_text_def city_detail_ok_def ready_def code_def hd_append)

lemma absent_code: "0 < mn \<Longrightarrow> 0 < mx \<Longrightarrow> \<forall>c \<in> stop. \<not> P c \<and> \<not> blank c \<Longrightarrow>
    absent run stop k (Action (Repeat mn mx (Char_class P)) f)"
  by (intro absent_action absent_repeat_chars)

lemma field_city_details:
  assumes "\<forall>d \<in> set ds. city_detail_ok blank d"
  shows "reads_field run caret (Optional city_detail_list) (sep_join CHR ''='' (map city_detail_text ds))
    (concat (map city_detail_actions ds))"
  unfolding city_detail_list_def
proof (rule field_list_opt)
  show "\<forall>d \<in> set ds. city_detail_text d \<noteq> [] \<and> can_start True (city_detail_text d) \<and>
      reads_field run (insert (CHR ''='') caret) city_details (city_detail_text d) (city_detail_actions d)"
    using assms can_start_city_detail reads_city_detail by auto
  show "absent run caret True city_details"
    unfolding city_details_def city_code_def by (intro absent_sequence absent_code) simp_all
qed simp_all

text \<open>Alternative names: the stops are the separator of the names and the end of the text or of the line.\<close>

lemma reads_alt_name:
  assumes "alt_name_ok blank (lang, name, quals)" and "stop \<subseteq> {CHR 0x0A}"
  shows "reads_field run (insert (CHR ''='') stop) alt_name_details (alt_name_text (lang, name, quals))
    (alt_name_action (lang, name, quals))"
proof -
  let ?bar = "CHR ''|''" and ?stop = "insert (CHR ''='') stop"
  have ok: "lang = [] \<or> plain blank ''|='' lang \<and> (\<forall>c \<in> set lang. \<not> blank c)" "plain blank ''|='' name"
    "quals = [] \<or> code (one_of ''shpc'') 1 4 quals"
    using assms by (auto simp: alt_name_ok_def)
  have lang: "reads_field run {?bar} (Optional alt_lang_code) lang (unless_empty lang [act (storeAltLangCodeFull lang)])"
  proof (rule reads_unless_empty)
    assume "lang \<noteq> []"
    then have *: "reads run {?bar} True (Plus (Char_class (none_of ''|=''))) lang (Chars lang) []"
      using ok(1) by (intro reads_plus_chars) (auto simp: none_of_def plain_def)
    have "reads run {?bar} True (Difference (Plus (Char_class (none_of ''|=''))) (Alternatives [Eoi, Eol])) lang (Chars lang) []"
      using * \<open>lang \<noteq> []\<close> ok(1) by (intro line_end_difference) (auto simp: plain_def ready_def)
    from reads_action [OF this, of "with_chars (\<lambda>s l. Inr (storeAltLangCodeFull s l))"]
    show "can_start True lang \<and> reads_field run {?bar} alt_lang_code lang [act (storeAltLangCodeFull lang)]"
      using ok(1) \<open>lang \<noteq> []\<close> by (auto simp: reads_field_def alt_lang_code_def plain_def ready_def)
  next
    have "run True (Difference (Plus (Char_class (none_of ''|=''))) (Alternatives [Eoi, Eol])) rest l = Inr (None, l)"
      if "at_stop {?bar} rest" for rest l
      using that
      by (cases rest) (auto simp: difference alternatives eoi not_eol alternatives_Nil plus char_class none_of_def)
    then show "absent run {?bar} True alt_lang_code"
      unfolding alt_lang_code_def by (intro absent_action) (simp add: absent_def)
  qed simp
  have name: "reads_field run {?bar} alt_name name [act (storeAltName name)]"
    using reads_plain [OF ok(2), of "{?bar}"] by (simp add: alt_name_def)
  have quals: "reads_field run ?stop (Optional alt_name_qualifiers) quals (unless_empty quals [])"
  proof (rule reads_unless_empty)
    have line_end: "\<forall>c \<in> ?stop. \<not> one_of ''shpc'' c \<and> \<not> blank c"
      using assms(2) newline_not_blank by (auto simp: one_of_def)
    then show "absent run ?stop True alt_name_qualifiers"
      unfolding alt_name_qualifiers_def by (intro absent_repeat_chars) simp_all
    assume "quals \<noteq> []"
    with ok(3) have "code (one_of ''shpc'') 1 4 quals" by simp
    then have "reads run ?stop True alt_name_qualifiers quals (Chars quals) []"
      unfolding alt_name_qualifiers_def using line_end by (intro reads_repeat_chars) (auto simp: code_def)
    then show "can_start True quals \<and> reads_field run ?stop alt_name_qualifiers quals []"
      using can_start_code [of "one_of ''shpc''" 1 4 quals] ok(3) by (auto simp: reads_field_def)
  qed (use assms(2) newline_not_blank in auto)
  have "reads_field run ?stop alt_name_details (lang @ ?bar # name @ ?bar # quals)
      (unless_empty lang [act (storeAltLangCodeFull lang)] @ [act (storeAltName name)] @ unless_empty quals [])"
    unfolding alt_name_details_def by (intro bar_sequence last_in_sequence lang name quals)
  then show ?thesis by (simp add: alt_name_text_def alt_name_action_def unless_empty_def split: if_splits)
qed

lemma field_alt_names:
  assumes "\<forall>d \<in> set ds. alt_name_ok blank d" and "stop \<subseteq> {CHR 0x0A}"
  shows "reads_field run stop (Optional alt_name_section) (sep_join CHR ''='' (map alt_name_text ds))
    (concat (map alt_name_action ds))"
  unfolding alt_name_section_def
proof (rule field_list_opt)
  show "\<forall>d \<in> set ds. alt_name_text d \<noteq> [] \<and> can_start True (alt_name_text d) \<and>
      reads_field run (insert (CHR ''='') stop) alt_name_details (alt_name_text d) (alt_name_action d)"
  proof
    fix d
    assume "d \<in> set ds"
    with assms(1) have ok: "alt_name_ok blank d" by blast
    moreover have "alt_name_text d \<noteq> [] \<and> can_start True (alt_name_text d)"
      using ok by (auto simp: alt_name_text_def alt_name_ok_def plain_def ready_def hd_append split: prod.splits)
    ultimately show "alt_name_text d \<noteq> [] \<and> can_start True (alt_name_text d) \<and>
        reads_field run (insert (CHR ''='') stop) alt_name_details (alt_name_text d) (alt_name_action d)"
      using reads_alt_name [OF _ assms(2)] by (cases d) auto
  qed
  have "run True alt_name_details rest l = Inr (None, l)" if "rest = [] \<or> hd rest = CHR 0x0A" for rest l
    using that newline_not_blank
    by (cases rest) (auto simp: alt_name_details_def alt_lang_code_def sequence lit string_parse_def optional action
      difference alternatives alternatives_Nil eoi eol not_eol)
  then show "absent run stop True alt_name_details"
    using assms(2) by (auto simp: absent_def at_stop_def)
qed (use assms(2) newline_not_blank in auto)

lemmas key_rules = iata_code_def icao_code_def faa_code_def is_geonames_def geoname_id_def envelope_id_def
  uint1_9_p_def uint1_4_p_def

lemma field_boolean:
  "c \<in> {CHR ''Y'', CHR ''N'', CHR ''Z''} \<Longrightarrow> reads_field run caret boolean_p [c] []"
  unfolding reads_field_def using reads_boolean by blast

lemmas field_intros = field_code field_code_opt field_number field_number_opt field_boolean field_plain
  field_plain_opt field_real_opt field_float_opt field_signed_opt field_date_opt field_mod_date
  field_city_codes field_city_names field_city_details field_tvl_codes

lemma reads_field_list_all:
  assumes "list_all (\<lambda>(g, s, A). reads_field run caret g s A) ((g, s, A) # flds)"
  shows "reads_field run caret (Sequence (g # concat (map (\<lambda>f. [Lit ''^'', fst f]) flds)))
    (sep_join CHR ''^'' (s # map (\<lambda>f. fst (snd f)) flds)) (A @ concat (map (\<lambda>f. snd (snd f)) flds))"
  using assms by (intro reads_fields) (auto simp: list_all_iff)

lemma reads_key:
  assumes "codes_ok r"
  shows "reads_field run caret por_key (key_text r) (concat (key_actions r))"
proof -
  note ok = assms [unfolded codes_ok_def]
  have "list_all (\<lambda>(g, s, A). reads_field run caret g s A)
     [(iata_code, pr_iata r, [act (storeIataCode (pr_iata r))]),
      (Optional icao_code, pr_icao r, unless_empty (pr_icao r) [act (storeIcaoCode (pr_icao r))]),
      (Optional faa_code, pr_faa r, unless_empty (pr_faa r) [act (storeFaaCode (pr_faa r))]),
      (is_geonames, [pr_is_geonames r], []),
      (geoname_id, pr_geoname_id r, [act (storeGeonamesID (number_of (pr_geoname_id r)))]),
      (Optional envelope_id, pr_envelope_id r,
        unless_empty (pr_envelope_id r) [act (storeEnvelopeID (number_of (pr_envelope_id r)))])]"
    unfolding list.pred_inject prod.case number_of_def key_rules
    by (intro conjI TrueI field_intros) (use ok in simp_all)
  from reads_field_list_all [OF this] show ?thesis
    by (simp add: por_key_def key_text_def key_actions_def)
qed

lemmas details_rules = common_name_def ascii_name_def latitude_def longitude_def feat_class_def feat_code_def
  page_rank_def date_from_def date_until_def comments_def country_code_def country_code2_def country_name_def
  continent_name_def adm1_code_def adm1_name_utf_def adm1_name_ascii_def adm2_code_def adm2_name_utf_def
  adm2_name_ascii_def adm3_code_def adm4_code_def population_def elevation_def gtopo30_def time_zone_def
  gmt_offset_def dst_offset_def raw_offset_def state_code_def por_type_def wiki_link_def
  uint1_9_p_def int1_5_p_def

lemma reads_details:
  assumes "codes_ok r" and "names_ok blank r" and "numbers_ok real_of float_of r" and "lists_ok blank r"
  shows "reads_field run caret (por_details valid_ymd) (details_text r)
    (concat (details_actions real_of float_of valid_ymd r))"
proof -
  note ok = assms [unfolded codes_ok_def names_ok_def numbers_ok_def lists_ok_def]
  have "list_all (\<lambda>(g, s, A). reads_field run caret g s A)
     [(common_name, pr_name r,
        [act (storeCommonName (pr_name r))]),
      (ascii_name, pr_ascii_name r,
        [act (storeAsciiName (pr_ascii_name r))]),
      (Optional latitude, pr_latitude r,
        unless_empty (pr_latitude r) [act (storeLatitude (the (real_of (pr_latitude r))))]),
      (Optional longitude, pr_longitude r,
        unless_empty (pr_longitude r) [act (storeLongitude (the (real_of (pr_longitude r))))]),
      (feat_class, pr_fclass r,
        [act (storeFeatureClass (pr_fclass r))]),
      (feat_code, pr_fcode r,
        [act (storeFeatureCode (pr_fcode r))]),
      (Optional page_rank, pr_page_rank r,
        unless_empty (pr_page_rank r) [act (storePageRank (the (real_of (pr_page_rank r))))]),
      (Optional date_from, date_text_opt [] (pr_date_from r),
        date_actions (pr_date_from r) (act storeDateFrom)),
      (Optional date_until, date_text_opt [] (pr_date_until r),
        date_actions (pr_date_until r) (act storeDateUntil)),
      (Optional comments, pr_comments r,
        unless_empty (pr_comments r) [act (storeComments (pr_comments r))]),
      (country_code, pr_country_code r,
        [act (storeCountryCode (pr_country_code r))]),
      (Optional country_code2, pr_cc2 r,
        unless_empty (pr_cc2 r) [act (storeAltCountryCode (pr_cc2 r))]),
      (country_name, pr_country_name r,
        [act (storeCountryName (pr_country_name r))]),
      (Optional continent_name, pr_continent_name r,
        unless_empty (pr_continent_name r) [act (storeContinentName (pr_continent_name r))]),
      (Optional adm1_code, pr_adm1_code r,
        unless_empty (pr_adm1_code r) [act (storeAdm1Code (pr_adm1_code r))]),
      (Optional adm1_name_utf, pr_adm1_utf r,
        unless_empty (pr_adm1_utf r) [act (storeAdm1UtfName (pr_adm1_utf r))]),
      (Optional adm1_name_ascii, pr_adm1_ascii r,
        unless_empty (pr_adm1_ascii r) [act (storeAdm1AsciiName (pr_adm1_ascii r))]),
      (Optional adm2_code, pr_adm2_code r,
        unless_empty (pr_adm2_code r) [act (storeAdm2Code (pr_adm2_code r))]),
      (Optional adm2_name_utf, pr_adm2_utf r,
        unless_empty (pr_adm2_utf r) [act (storeAdm2UtfName (pr_adm2_utf r))]),
      (Optional adm2_name_ascii, pr_adm2_ascii r,
        unless_empty (pr_adm2_ascii r) [act (storeAdm2AsciiName (pr_adm2_ascii r))]),
      (Optional adm3_code, pr_adm3_code r,
        unless_empty (pr_adm3_code r) [act (storeAdm3Code (pr_adm3_code r))]),
      (Optional adm4_code, pr_adm4_code r,
        unless_empty (pr_adm4_code r) [act (storeAdm4Code (pr_adm4_code r))]),
      (Optional population, pr_population r,
        unless_empty (pr_population r) [act (storePopulation (number_of (pr_population r)))]),
      (Optional elevation, fst (pr_elevation r) @ snd (pr_elevation r),
        unless_empty (fst (pr_elevation r) @ snd (pr_elevation r)) [act (storeElevation (sign_value (fst (pr_elevation r)) (digits_value (snd (pr_elevation r)))))]),
      (Optional gtopo30, fst (pr_gtopo30 r) @ snd (pr_gtopo30 r),
        unless_empty (fst (pr_gtopo30 r) @ snd (pr_gtopo30 r)) [act (storeGTopo30 (sign_value (fst (pr_gtopo30 r)) (digits_value (snd (pr_gtopo30 r)))))]),
      (Optional time_zone, pr_timezone r,
        unless_empty (pr_timezone r) [act (storeTimeZone (pr_timezone r))]),
      (Optional gmt_offset, pr_gmt_offset r,
        unless_empty (pr_gmt_offset r) [act (storeGMTOffset (the (float_of (pr_gmt_offset r))))]),
      (Optional dst_offset, pr_dst_offset r,
        unless_empty (pr_dst_offset r) [act (storeDSTOffset (the (float_of (pr_dst_offset r))))]),
      (Optional raw_offset, pr_raw_offset r,
        unless_empty (pr_raw_offset r) [act (storeRawOffset (the (float_of (pr_raw_offset r))))]),
      (Alternatives [mod_date valid_ymd, Lit ''-1''], date_text_opt ''-1'' (pr_mod_date r),
        date_actions (pr_mod_date r) (storeModDate valid_ymd)),
      (city_code_list, sep_join CHR '','' (pr_city_codes r),
        map (\<lambda>s. act (storeCityCode s)) (pr_city_codes r)),
      (Optional city_name_list, sep_join CHR ''='' (pr_city_names r),
        map (\<lambda>s. act (storeCityUtfName s)) (pr_city_names r)),
      (Optional city_detail_list, sep_join CHR ''='' (map city_detail_text (pr_city_details r)),
        concat (map city_detail_actions (pr_city_details r))),
      (Optional (Action tvl_por_code_list (with_unused (\<lambda>l. Inr (storeTvlPORListString l)))), sep_join CHR '','' (pr_tvl_codes r),
        if pr_tvl_codes r = [] then [] else map (\<lambda>s. act (storeTvlPORCode s)) (pr_tvl_codes r) @ [act storeTvlPORListString]),
      (Optional state_code, pr_state_code r,
        unless_empty (pr_state_code r) [act (storeStateCode (pr_state_code r))]),
      (por_type, pr_type r,
        [storePORType (pr_type r)]),
      (Optional wiki_link, pr_wiki r,
        unless_empty (pr_wiki r) [act (storeWikiLink (pr_wiki r))])]"
    unfolding list.pred_inject prod.case details_rules number_of_def
    by (intro conjI TrueI field_intros) (use ok in \<open>simp_all add: one_of_def\<close>)
  from reads_field_list_all [OF this] show ?thesis
    by (simp add: por_details_def details_text_def details_actions_def Let_def)
qed

subsection \<open>Whole texts\<close>

lemma reads_por_rule:
  assumes "row_ok blank real_of float_of r" and "stop \<subseteq> {CHR 0x0A}"
  shows "reads_field run stop (por_rule valid_ymd) (row_text r) (row_actions real_of float_of valid_ymd r)"
proof -
  note ok = assms(1) [unfolded row_ok_def]
  obtain x1 x2 x3 where key: "reads run caret True por_key (key_text r) x1 (concat (key_actions r))"
    and details: "reads run caret True (por_details valid_ymd) (details_text r) x2
      (concat (details_actions real_of float_of valid_ymd r))"
    and names: "reads run stop True (Optional alt_name_section) (sep_join CHR ''='' (map alt_name_text (pr_alt_names r))) x3
      (concat (map alt_name_action (pr_alt_names r)))"
    using reads_key [of r] reads_details [of r valid_ymd] field_alt_names [of "pr_alt_names r", OF _ assms(2)] ok
    unfolding reads_field_def lists_ok_def by blast
  have "reads run stop True por_rule_end [] Unused []"
    using assms(2) newline_not_blank by (auto simp: reads_def por_rule_end_def eps ready_def at_stop_def)
  from reads_sequence [OF reads_action [OF this, of "with_unused (\<lambda>l. Inr (doEndPor l))"] reads_sequence_Nil [of stop]]
  have "reads run stop True (Sequence [Action por_rule_end (with_unused (\<lambda>l. Inr (doEndPor l)))]) [] Unused [act doEndPor]"
    by simp
  from reads_sequence [OF names this]
  have "reads run stop True (Sequence [Optional alt_name_section, Action por_rule_end (with_unused (\<lambda>l. Inr (doEndPor l)))])
      (sep_join CHR ''='' (map alt_name_text (pr_alt_names r))) Unused
      (concat (map alt_name_action (pr_alt_names r)) @ [act doEndPor])"
    by simp
  from reads_sequence_lit [OF details this, of "CHR ''^''"]
  have "reads run stop True (Sequence [por_details valid_ymd, Lit ''^'', Optional alt_name_section,
        Action por_rule_end (with_unused (\<lambda>l. Inr (doEndPor l)))])
      (details_text r @ CHR ''^'' # sep_join CHR ''='' (map alt_name_text (pr_alt_names r))) Unused
      (concat (details_actions real_of float_of valid_ymd r) @
       concat (map alt_name_action (pr_alt_names r)) @ [act doEndPor])"
    by simp
  from reads_sequence_lit [OF key this, of "CHR ''^''"] show ?thesis
    by (auto simp: reads_field_def por_rule_def row_text_def row_actions_def)
qed

lemma no_header:
  assumes "string_parse ''iata_code'' s = None" and "can_start True s"
  shows "run True header s l = Inr (None, l)"
  using assms by (simp add: header_def sequence lit)

lemma no_row:
  assumes "s = [] \<or> \<not> upper (hd s)" and "can_start True s"
  shows "run True (por_rule valid_ymd) s l = Inr (None, l)"
proof -
  have "run True (Repeat 3 3 (Char_class upper)) s l = Inr (None, l)"
    using assms by (cases s) (simp_all add: eval_nat_numeral repeat_Suc char_class)
  then show ?thesis by (simp add: por_rule_def por_key_def iata_code_def sequence action)
qed

lemma run_start_end:
  assumes "string_parse ''iata_code'' s = None" and "s = [] \<or> \<not> upper (hd s)" and "can_start True s"
  shows "run True (Kleene (Alternatives [header, por_rule valid_ymd])) s l = Inr (Some (Chars [], s), l)"
proof -
  have "run True (Alternatives [header, por_rule valid_ymd]) s l = Inr (None, l)" for l
    using assms by (simp add: alternatives alternatives_Nil no_header no_row)
  then show ?thesis using assms(3) by (subst kleene) simp_all
qed

lemma row_text_start:
  assumes "codes_ok r"
  shows "row_text r \<noteq> []" and "upper (hd (row_text r))" and "string_parse ''iata_code'' (row_text r) = None"
    and "can_start True (row_text r)"
proof -
  have "code upper 3 3 (pr_iata r)" using assms by (simp add: codes_ok_def)
  then have "pr_iata r \<noteq> [] \<and> upper (hd (pr_iata r))" by (cases "pr_iata r") (auto simp: code_def)
  then obtain c t where "row_text r = c # t" and "upper c"
    by (cases "pr_iata r") (auto simp: row_text_def key_text_def)
  moreover from \<open>upper c\<close> have "c \<noteq> CHR ''i''" by (auto simp: upper_def less_eq_char_def)
  ultimately show "row_text r \<noteq> []" "upper (hd (row_text r))" "string_parse ''iata_code'' (row_text r) = None"
    "can_start True (row_text r)" by (simp_all add: string_parse_def)
qed

lemma generateLocation_row:
  assumes "row_ok blank real_of float_of r"
  shows "generateLocation run blank valid_ymd (row_text r) =
    run_actions (row_actions real_of float_of valid_ymd r) (new_Location\<lparr>loc_rawDataString := row_text r\<rparr>)"
proof -
  have "codes_ok r" using assms by (simp add: row_ok_def)
  note begins = row_text_start [OF this]
  let ?A = "row_actions real_of float_of valid_ymd r"
  obtain x where x: "reads run {} True (por_rule valid_ymd) (row_text r) x ?A"
    using reads_por_rule [OF assms, of "{}"] by (auto simp: reads_field_def)
  from readsD [OF this, of "[]"]
  have row: "run True (por_rule valid_ymd) (row_text r) l = bindE (run_actions ?A l) (\<lambda>l. Inr (Some (x, []), l))" for l
    by simp
  have alt: "run True (Alternatives [header, por_rule valid_ymd]) (row_text r) l =
      bindE (run_actions ?A l) (\<lambda>l. Inr (Some (x, []), l))" for l
    by (simp add: alternatives alternatives_Nil no_header begins row or_else_bindE)
  have "run True (Kleene (Alternatives [header, por_rule valid_ymd])) (row_text r) l =
      iterated (row_text r) (bindE (run_actions ?A l) (\<lambda>l. Inr (Some (x, []), l)))
        (run True (Kleene (Alternatives [header, por_rule valid_ymd])))" for l
    using begins(1,4) by (subst kleene) (auto simp: alt bindE_Inr_iff)
  then have "run True (start valid_ymd) (row_text r) l =
      bindE (run_actions ?A l) (\<lambda>l. Inr (Some (Unused, []), l))" for l
    using begins by (simp add: start_def sequence sequence_Nil eps iterated_bindE run_start_end and_then_bindE string_parse_def)
  then show ?thesis
    by (simp add: generateLocation_def phrase_parse_def bindE_assoc)
      (simp add: bindE_def split: sum.split)
qed

text \<open>A text that starts neither with the header nor with a capital letter is left unread.\<close>

lemma generateLocation_unread:
  assumes "s \<noteq> []" and "string_parse ''iata_code'' s = None" and "\<not> upper (hd s)" and "\<not> blank (hd s)"
  shows "generateLocation run blank valid_ymd s = Inl (parsing_failed ''POR input file'' s)"
proof -
  have "can_start True s" using assms by (simp add: ready_def)
  moreover have "dropWhile blank s = s" using assms by (cases s) simp_all
  ultimately show ?thesis
    using assms by (simp add: generateLocation_def phrase_parse_def start_def sequence sequence_Nil eps run_start_end)
qed

text \<open>The empty line is read, without any action.\<close>

lemma generateLocation_empty:
  "generateLocation run blank valid_ymd [] = Inr (new_Location\<lparr>loc_rawDataString := []\<rparr>)"
  by (simp add: generateLocation_def phrase_parse_def start_def sequence sequence_Nil eps run_start_end string_parse_def)

text \<open>The header line.\<close>

lemma run_header:
  assumes "t \<noteq> []" and "\<forall>c \<in> set t. \<not> blank c \<and> c \<notin> {CHR 0x0A, CHR 0x0D}"
  shows "run True header (''iata_code'' @ t) l = Inr (Some (Unused, []), l)"
proof -
  let ?any = "Difference (Difference (Char_class (\<lambda>c. True)) Eoi) Eol"
  have step: "run True ?any (c # s) l = Inr (Some (Chars [c], s), l)"
    if "\<not> blank c" "c \<notin> {CHR 0x0A, CHR 0x0D}" for c s l
    using that by (simp add: difference eoi not_eol char_class)
  have stop: "run True ?any [] l = Inr (None, l)" for l
    by (simp add: difference eoi not_eol)
  have star: "run True (Kleene ?any) s l = Inr (Some (Chars s, []), l)"
    if "\<forall>c \<in> set s. \<not> blank c \<and> c \<notin> {CHR 0x0A, CHR 0x0D}" for s l
    using that
  proof (induction s)
    case Nil
    show ?case by (subst kleene) (simp_all add: stop)
  next
    case (Cons c s)
    then show ?case by (subst kleene) (auto simp: step)
  qed
  obtain c s where t: "t = c # s" using assms(1) by (cases t) auto
  then have "run True (Plus ?any) t l = Inr (Some (Chars t, []), l)" for l
    using assms(2) by (simp add: plus step star)
  moreover have "\<not> blank (CHR ''i'')" by (rule blank_ascii) simp_all
  ultimately show ?thesis
    by (simp add: header_def sequence sequence_Nil lit string_parse_def alternatives eoi)
qed

lemma generateLocation_header:
  assumes "t \<noteq> []" and "\<forall>c \<in> set t. \<not> blank c \<and> c \<notin> {CHR 0x0A, CHR 0x0D}"
  shows "generateLocation run blank valid_ymd (''iata_code'' @ t) =
    Inr (new_Location\<lparr>loc_rawDataString := ''iata_code'' @ t\<rparr>)"
proof -
  have b: "\<not> blank (CHR ''i'')" by (rule blank_ascii) simp_all
  have alt: "run True (Alternatives [header, por_rule valid_ymd]) (''iata_code'' @ t) l = Inr (Some (Unused, []), l)" for l
    using run_header [OF assms] b by (simp add: alternatives)
  have "run True (Kleene (Alternatives [header, por_rule valid_ymd])) (''iata_code'' @ t) l =
      Inr (Some (Unused, []), l)" for l
    using b by (subst kleene) (simp_all add: alt [simplified] run_start_end string_parse_def)
  then show ?thesis
    using b by (simp add: generateLocation_def phrase_parse_def start_def sequence sequence_Nil eps)
qed

text \<open>
  Several lines: the rule of the header takes the end of its line, the rule of a row does not, and nothing
  matches at an end of line.
\<close>

lemma run_kleene_row_line:
  assumes "row_ok blank real_of float_of r"
  shows "\<exists>y. \<forall>l. run True (Kleene (Alternatives [header, por_rule valid_ymd])) (row_text r @ CHR 0x0A # rest) l =
    bindE (run_actions (row_actions real_of float_of valid_ymd r) l) (\<lambda>l. Inr (Some (y, CHR 0x0A # rest), l))"
proof -
  let ?A = "row_actions real_of float_of valid_ymd r" and ?tail = "CHR 0x0A # rest"
  let ?rules = "Alternatives [header, por_rule valid_ymd]"
  define s where "s = row_text r @ ?tail"
  have "codes_ok r" using assms by (simp add: row_ok_def)
  from row_text_start [OF this] obtain c t where c: "row_text r = c # t" "upper c" by (cases "row_text r") auto
  then have start: "can_start True s" and len: "length ?tail < length s" by (simp_all add: s_def)
  have "c \<noteq> CHR ''i''" using c(2) by (auto simp: upper_def less_eq_char_def)
  then have nh: "run True header s l = Inr (None, l)" for l
    using c start by (intro no_header) (simp_all add: string_parse_def s_def)
  obtain x where x: "reads run {CHR 0x0A} True (por_rule valid_ymd) (row_text r) x ?A"
    using reads_por_rule [OF assms, of "{CHR 0x0A}"] by (auto simp: reads_field_def)
  from readsD [OF this, of ?tail]
  have row: "run True (por_rule valid_ymd) s l = bindE (run_actions ?A l) (\<lambda>l. Inr (Some (x, ?tail), l))" for l
    by (simp add: s_def)
  have alt: "run True ?rules s l = bindE (run_actions ?A l) (\<lambda>l. Inr (Some (x, ?tail), l))" for l
    using start by (simp add: alternatives alternatives_Nil nh row or_else_bindE)
  have stop: "run True (Kleene ?rules) ?tail l = Inr (Some (Chars [], ?tail), l)" for l
    using newline_not_blank
    by (intro run_start_end) (simp_all add: string_parse_def upper_def less_eq_char_def)
  have "run True (Kleene ?rules) s l =
      iterated s (bindE (run_actions ?A l) (\<lambda>l. Inr (Some (x, ?tail), l))) (run True (Kleene ?rules))" for l
    using start len by (subst kleene) (auto simp: alt bindE_Inr_iff)
  then have "run True (Kleene ?rules) s l =
      bindE (run_actions ?A l) (\<lambda>l. Inr (Some (join_attribute x (Chars []), ?tail), l))" for l
    by (simp add: iterated_bindE stop)
  then show ?thesis unfolding s_def by blast
qed

lemma run_header_line:
  assumes "t \<noteq> []" and "\<forall>c \<in> set t. \<not> blank c \<and> c \<notin> {CHR 0x0A, CHR 0x0D}"
  shows "run True header (''iata_code'' @ t @ CHR 0x0A # rest) l = Inr (Some (Unused, rest), l)"
proof -
  let ?any = "Difference (Difference (Char_class (\<lambda>c. True)) Eoi) Eol" and ?tail = "CHR 0x0A # rest"
  have step: "run True ?any (c # s) l = Inr (Some (Chars [c], s), l)"
    if "\<not> blank c" "c \<notin> {CHR 0x0A, CHR 0x0D}" for c s l
    using that by (simp add: difference eoi not_eol char_class)
  have stop: "run True ?any ?tail l = Inr (None, l)" for l
    using newline_not_blank by (simp add: difference eol)
  have star: "run True (Kleene ?any) (s @ ?tail) l = Inr (Some (Chars s, ?tail), l)"
    if "\<forall>c \<in> set s. \<not> blank c \<and> c \<notin> {CHR 0x0A, CHR 0x0D}" for s l
    using that
  proof (induction s)
    case Nil
    show ?case using newline_not_blank by (subst kleene) (simp_all add: stop)
  next
    case (Cons c s)
    then show ?case by (subst kleene) (auto simp: step)
  qed
  obtain c s where t: "t = c # s" using assms(1) by (cases t) auto
  then have "run True (Plus ?any) (t @ ?tail) l = Inr (Some (Chars t, ?tail), l)" for l
    using assms(2) by (simp add: plus step star)
  moreover have "\<not> blank (CHR ''i'')" by (rule blank_ascii) simp_all
  ultimately show ?thesis
    using newline_not_blank
    by (simp add: header_def sequence sequence_Nil lit string_parse_def alternatives eoi eol)
qed

text \<open>A file with a header and a row, whatever follows the end of that row.\<close>

lemma file_with_rows:
  assumes "row_ok blank real_of float_of r" and "t \<noteq> []"
    and "\<forall>c \<in> set t. \<not> blank c \<and> c \<notin> {CHR 0x0A, CHR 0x0D}"
  shows "PORFileParser_generateLocations run blank valid_ymd f
      (Some (''iata_code'' @ t @ CHR 0x0A # row_text r @ CHR 0x0A # rest)) =
    bindE (run_actions (row_actions real_of float_of valid_ymd r) new_Location) (\<lambda>l. Inl (file_parsing_failed f))"
proof -
  let ?A = "row_actions real_of float_of valid_ymd r" and ?tail = "CHR 0x0A # rest"
  let ?rules = "Alternatives [header, por_rule valid_ymd]"
  define s where "s = ''iata_code'' @ t @ CHR 0x0A # row_text r @ ?tail"
  have "\<not> blank (CHR ''i'')" by (rule blank_ascii) simp_all
  then have start: "can_start True s" by (simp add: s_def)
  have alt: "run True ?rules s l = Inr (Some (Unused, row_text r @ ?tail), l)" for l
    using start run_header_line [OF assms(2,3), of "row_text r @ ?tail"] unfolding s_def [symmetric]
    by (simp add: alternatives)
  have len: "length (row_text r @ ?tail) < length s" by (simp add: s_def)
  obtain y where y: "\<forall>l. run True (Kleene ?rules) (row_text r @ ?tail) l =
      bindE (run_actions ?A l) (\<lambda>l. Inr (Some (y, ?tail), l))"
    using run_kleene_row_line [OF assms(1)] by blast
  have "run True (Kleene ?rules) s l =
      iterated s (Inr (Some (Unused, row_text r @ ?tail), l)) (run True (Kleene ?rules))" for l
    using start len by (subst kleene) (auto simp: alt)
  then have "run True (start valid_ymd) s l = bindE (run_actions ?A l) (\<lambda>l. Inr (Some (Unused, ?tail), l))" for l
    using start by (simp add: start_def sequence sequence_Nil eps y and_then_bindE)
  then show ?thesis
    unfolding s_def [symmetric] PORFileParser_generateLocations_def phrase_parse_def
    using newline_not_blank by (simp add: bindE_assoc)
qed

end

end
