(* ===== verification/PorRecords.thy ===== *)
theory PorRecords
  imports PorRows Index_Terms Results
begin

text \<open>
  What the parser makes of a row: the location of a row written out attribute by attribute, the
  interpreter that satisfies the assumptions on Spirit, and the properties of the parser.
\<close>

section \<open>The location of a row\<close>

definition date_part :: "(date_text \<Rightarrow> string) \<Rightarrow> date_text option \<Rightarrow> nat option \<Rightarrow> nat option" where
  "date_part part d old = (case d of None \<Rightarrow> old | Some t \<Rightarrow> Some (nat (digits_value (part t))))"

definition date_elements :: "date_text option \<Rightarrow> Location \<Rightarrow> Location" where
  "date_elements d l = l\<lparr>loc_itYear := date_part fst d (loc_itYear l),
     loc_itMonth := date_part (fst \<circ> snd) d (loc_itMonth l),
     loc_itDay := date_part (snd \<circ> snd) d (loc_itDay l)\<rparr>"

definition row_mod_date :: "(nat \<Rightarrow> nat \<Rightarrow> nat \<Rightarrow> bool) \<Rightarrow> por_row_texts \<Rightarrow> date outcome" where
  "row_mod_date valid_ymd r = (case pr_mod_date r of
     None \<Rightarrow> Inr (loc_modificationDate new_Location)
   | Some d \<Rightarrow> calculateDate valid_ymd (date_elements (Some d) new_Location))"

definition given :: "'a \<Rightarrow> string \<Rightarrow> 'a \<Rightarrow> 'a" where
  "given old s v = (if s = [] then old else v)"

definition last_or :: "'a \<Rightarrow> 'a list \<Rightarrow> 'a" where
  "last_or old xs = (if xs = [] then old else last xs)"

definition signed_value :: "string \<times> string \<Rightarrow> int" where
  "signed_value p = given 0 (fst p @ snd p) (sign_value (fst p) (digits_value (snd p)))"

text \<open>
  The last city of the lists is the one kept, and the details come after the codes and the names.
\<close>

definition row_location ::
    "(string \<Rightarrow> dbl option) \<Rightarrow> (string \<Rightarrow> dbl option) \<Rightarrow> por_row_texts \<Rightarrow> date \<Rightarrow> EN_IATAType \<Rightarrow> Location" where
  "row_location real_of float_of r moddate ty =
     (let l = new_Location; ds = pr_city_details r
      in date_elements (pr_mod_date r) (date_elements (pr_date_until r) (date_elements (pr_date_from r) (l\<lparr>
        loc_key := \<lparr>lk_iataCode = pr_iata r, lk_iataType = ty,
          lk_geonamesID = sint (number_of (pr_geoname_id r)), lk_isGeonames = False\<rparr>,
        loc_icaoCode := pr_icao r,
        loc_faaCode := pr_faa r,
        loc_commonName := pr_name r,
        loc_asciiName := pr_ascii_name r,
        loc_tvlPORListString := last_or [] (map (\<lambda>_. comma_list (pr_tvl_codes r) 0) (pr_tvl_codes r)),
        loc_envelopeID := given 0 (pr_envelope_id r) (sint (number_of (pr_envelope_id r))),
        loc_cityCode := last_or (last_or [] (pr_city_codes r)) (map fst ds),
        loc_cityUtfName := last_or (last_or [] (pr_city_names r)) (map (fst \<circ> snd \<circ> snd) ds),
        loc_cityAsciiName := last_or [] (map (snd \<circ> snd \<circ> snd) ds),
        loc_cityGeonamesID := last_or 0 (map (sint \<circ> number_of \<circ> fst \<circ> snd) ds),
        loc_stateCode := given (loc_stateCode l) (pr_state_code r) (pr_state_code r),
        loc_countryCode := pr_country_code r,
        loc_altCountryCode := pr_cc2 r,
        loc_countryName := pr_country_name r,
        loc_continentName := given (loc_continentName l) (pr_continent_name r) (pr_continent_name r),
        loc_latitude := given (Fin 0) (pr_latitude r) (the (real_of (pr_latitude r))),
        loc_longitude := given (Fin 0) (pr_longitude r) (the (real_of (pr_longitude r))),
        loc_featClass := pr_fclass r,
        loc_featCode := pr_fcode r,
        loc_admin1Code := pr_adm1_code r,
        loc_admin1UtfName := pr_adm1_utf r,
        loc_admin1AsciiName := pr_adm1_ascii r,
        loc_admin2Code := pr_adm2_code r,
        loc_admin2UtfName := pr_adm2_utf r,
        loc_admin2AsciiName := pr_adm2_ascii r,
        loc_admin3Code := given (loc_admin3Code l) (pr_adm3_code r) (pr_adm3_code r),
        loc_admin4Code := pr_adm4_code r,
        loc_population := given 0 (pr_population r) (number_of (pr_population r)),
        loc_elevation := signed_value (pr_elevation r),
        loc_gTopo30 := signed_value (pr_gtopo30 r),
        loc_timeZone := given (loc_timeZone l) (pr_timezone r) (pr_timezone r),
        loc_gmtOffset := given (Fin 0) (pr_gmt_offset r) (the (float_of (pr_gmt_offset r))),
        loc_dstOffset := given (Fin 0) (pr_dst_offset r) (the (float_of (pr_dst_offset r))),
        loc_rawOffset := given (Fin 0) (pr_raw_offset r) (the (float_of (pr_raw_offset r))),
        loc_modificationDate := moddate,
        loc_wikiLink := given (loc_wikiLink l) (pr_wiki r) (pr_wiki r),
        loc_pageRank := given (loc_pageRank l) (pr_page_rank r) (dmul (Fin 100) (the (real_of (pr_page_rank r)))),
        loc_nameMatrix := fold (\<lambda>(lang, name, _). NameMatrix_addName lang name) (pr_alt_names r) om_empty,
        loc_rawDataString := row_text r,
        loc_itTvlPORList := pr_tvl_codes r\<rparr>))))"

section \<open>The effect of the actions of a row\<close>

lemma last_or_simps: "last_or x [] = x" "last_or x (y # ys) = last_or y ys"
  by (simp_all add: last_or_def)

lemma given_same [simp]: "given [] s s = s"
  by (simp add: given_def)

lemma optional_effects:
  "run_actions (unless_empty s [act (storeIcaoCode u)]) l = Inr (l\<lparr>loc_icaoCode := given (loc_icaoCode l) s u\<rparr>)"
  "run_actions (unless_empty s [act (storeFaaCode u)]) l = Inr (l\<lparr>loc_faaCode := given (loc_faaCode l) s u\<rparr>)"
  "run_actions (unless_empty s [act (storeEnvelopeID n)]) l = Inr (l\<lparr>loc_envelopeID := given (loc_envelopeID l) s (sint n)\<rparr>)"
  "run_actions (unless_empty s [act (storeLatitude d)]) l = Inr (l\<lparr>loc_latitude := given (loc_latitude l) s d\<rparr>)"
  "run_actions (unless_empty s [act (storeLongitude d)]) l = Inr (l\<lparr>loc_longitude := given (loc_longitude l) s d\<rparr>)"
  "run_actions (unless_empty s [act (storePageRank d)]) l =
     Inr (l\<lparr>loc_pageRank := given (loc_pageRank l) s (dmul (Fin 100) d)\<rparr>)"
  "run_actions (unless_empty s [act (storeComments u)]) l = Inr l"
  "run_actions (unless_empty s [act (storeAltCountryCode u)]) l =
     Inr (l\<lparr>loc_altCountryCode := given (loc_altCountryCode l) s u\<rparr>)"
  "run_actions (unless_empty s [act (storeContinentName u)]) l =
     Inr (l\<lparr>loc_continentName := given (loc_continentName l) s u\<rparr>)"
  "run_actions (unless_empty s [act (storeAdm1Code u)]) l = Inr (l\<lparr>loc_admin1Code := given (loc_admin1Code l) s u\<rparr>)"
  "run_actions (unless_empty s [act (storeAdm1UtfName u)]) l =
     Inr (l\<lparr>loc_admin1UtfName := given (loc_admin1UtfName l) s u\<rparr>)"
  "run_actions (unless_empty s [act (storeAdm1AsciiName u)]) l =
     Inr (l\<lparr>loc_admin1AsciiName := given (loc_admin1AsciiName l) s u\<rparr>)"
  "run_actions (unless_empty s [act (storeAdm2Code u)]) l = Inr (l\<lparr>loc_admin2Code := given (loc_admin2Code l) s u\<rparr>)"
  "run_actions (unless_empty s [act (storeAdm2UtfName u)]) l =
     Inr (l\<lparr>loc_admin2UtfName := given (loc_admin2UtfName l) s u\<rparr>)"
  "run_actions (unless_empty s [act (storeAdm2AsciiName u)]) l =
     Inr (l\<lparr>loc_admin2AsciiName := given (loc_admin2AsciiName l) s u\<rparr>)"
  "run_actions (unless_empty s [act (storeAdm3Code u)]) l = Inr (l\<lparr>loc_admin3Code := given (loc_admin3Code l) s u\<rparr>)"
  "run_actions (unless_empty s [act (storeAdm4Code u)]) l = Inr (l\<lparr>loc_admin4Code := given (loc_admin4Code l) s u\<rparr>)"
  "run_actions (unless_empty s [act (storePopulation n)]) l = Inr (l\<lparr>loc_population := given (loc_population l) s n\<rparr>)"
  "run_actions (unless_empty s [act (storeElevation i)]) l = Inr (l\<lparr>loc_elevation := given (loc_elevation l) s i\<rparr>)"
  "run_actions (unless_empty s [act (storeGTopo30 i)]) l = Inr (l\<lparr>loc_gTopo30 := given (loc_gTopo30 l) s i\<rparr>)"
  "run_actions (unless_empty s [act (storeTimeZone u)]) l = Inr (l\<lparr>loc_timeZone := given (loc_timeZone l) s u\<rparr>)"
  "run_actions (unless_empty s [act (storeGMTOffset d)]) l = Inr (l\<lparr>loc_gmtOffset := given (loc_gmtOffset l) s d\<rparr>)"
  "run_actions (unless_empty s [act (storeDSTOffset d)]) l = Inr (l\<lparr>loc_dstOffset := given (loc_dstOffset l) s d\<rparr>)"
  "run_actions (unless_empty s [act (storeRawOffset d)]) l = Inr (l\<lparr>loc_rawOffset := given (loc_rawOffset l) s d\<rparr>)"
  "run_actions (unless_empty s [act (storeStateCode u)]) l = Inr (l\<lparr>loc_stateCode := given (loc_stateCode l) s u\<rparr>)"
  "run_actions (unless_empty s [act (storeWikiLink u)]) l = Inr (l\<lparr>loc_wikiLink := given (loc_wikiLink l) s u\<rparr>)"
  by (simp_all add: unless_empty_def given_def por_action_defs)

lemma date_effects:
  "run_actions (date_actions d (act storeDateFrom)) l = Inr (date_elements d l)"
  "run_actions (date_actions d (act storeDateUntil)) l = Inr (date_elements d l)"
  by (cases d; auto simp: date_actions_def date_elements_def date_part_def store_year_def store_month_def store_day_def
    storeDateFrom_def storeDateUntil_def)+

lemma calculateDate_elements:
  "calculateDate valid_ymd (date_elements (Some d) l) = calculateDate valid_ymd (date_elements (Some d) l')"
  by (cases d) (simp add: calculateDate_def date_elements_def date_part_def)

lemma mod_date_effect:
  "run_actions (date_actions d (storeModDate valid_ymd)) l =
    (case d of None \<Rightarrow> Inr l
     | Some d' \<Rightarrow> bindE (calculateDate valid_ymd (date_elements (Some d') new_Location))
         (\<lambda>date. Inr ((date_elements d l)\<lparr>loc_modificationDate := date\<rparr>)))"
  using calculateDate_elements [of valid_ymd _ l new_Location]
  by (cases d) (auto simp: date_actions_def date_elements_def date_part_def store_year_def store_month_def store_day_def
    storeModDate_def bindE_assoc)

lemma city_effects:
  "run_actions (map (\<lambda>s. act (storeCityCode s)) ss) l = Inr (l\<lparr>loc_cityCode := last_or (loc_cityCode l) ss\<rparr>)"
  "run_actions (map (\<lambda>s. act (storeCityUtfName s)) ss) l = Inr (l\<lparr>loc_cityUtfName := last_or (loc_cityUtfName l) ss\<rparr>)"
  by (induction ss arbitrary: l) (simp_all add: por_action_defs last_or_simps)

lemma city_detail_effect:
  "run_actions (concat (map city_detail_actions ds)) l =
    Inr (l\<lparr>loc_cityCode := last_or (loc_cityCode l) (map fst ds),
      loc_cityGeonamesID := last_or (loc_cityGeonamesID l) (map (sint \<circ> number_of \<circ> fst \<circ> snd) ds),
      loc_cityUtfName := last_or (loc_cityUtfName l) (map (fst \<circ> snd \<circ> snd) ds),
      loc_cityAsciiName := last_or (loc_cityAsciiName l) (map (snd \<circ> snd \<circ> snd) ds)\<rparr>)"
  by (induction ds arbitrary: l) (auto simp: por_action_defs city_detail_actions_def last_or_simps)

lemma tvl_effect:
  "run_actions (map (\<lambda>s. act (storeTvlPORCode s)) ss) l = Inr (l\<lparr>loc_itTvlPORList := loc_itTvlPORList l @ ss\<rparr>)"
  by (induction ss arbitrary: l) (simp_all add: por_action_defs)

lemma alt_name_effect:
  "loc_itLanguageCode l = [] \<Longrightarrow> run_actions (concat (map alt_name_action ds)) l =
    Inr (l\<lparr>loc_nameMatrix := fold (\<lambda>(lang, name, _). NameMatrix_addName lang name) ds (loc_nameMatrix l)\<rparr>)"
proof (induction ds arbitrary: l)
  case Nil
  then show ?case by simp
next
  case (Cons d ds)
  obtain lang name quals where d: "d = (lang, name, quals)" by (cases d)
  have same: "x\<lparr>loc_itLanguageCode := []\<rparr> = x" if "loc_itLanguageCode x = []" for x :: Location
    using that by (cases x) simp
  have "run_actions (alt_name_action d) l = Inr (l\<lparr>loc_nameMatrix := NameMatrix_addName lang name (loc_nameMatrix l)\<rparr>)"
    using Cons.prems
    by (simp add: d alt_name_action_def unless_empty_def storeAltLangCodeFull_def storeAltName_def
      Location_addName_def same)
  then show ?case using Cons.IH Cons.prems by (simp add: d)
qed

lemmas row_effects = optional_effects date_effects mod_date_effect city_effects city_detail_effect tvl_effect

lemma key_effect:
  "run_actions (concat (key_actions r)) l =
    Inr (l\<lparr>loc_key := (loc_key l)\<lparr>lk_iataCode := pr_iata r, lk_geonamesID := sint (number_of (pr_geoname_id r))\<rparr>,
      loc_icaoCode := given (loc_icaoCode l) (pr_icao r) (pr_icao r),
      loc_faaCode := given (loc_faaCode l) (pr_faa r) (pr_faa r),
      loc_envelopeID := given (loc_envelopeID l) (pr_envelope_id r) (sint (number_of (pr_envelope_id r)))\<rparr>)"
  by (simp add: key_actions_def optional_effects storeIataCode_def storeGeonamesID_def setIataCode_def
    setGeonamesID_def)

lemma date_part_None [simp]: "date_part part None old = old"
  by (simp add: date_part_def)

lemmas mandatory_defs = storeCommonName_def storeAsciiName_def storeFeatureClass_def storeFeatureCode_def
  storeCountryCode_def storeCountryName_def storeTvlPORListString_def consolidateTvlPORListString_def
  storePORType_def setIataType_def doEndPor_def

lemma tvl_list_effect:
  "run_actions (if ss = [] then [] else map (\<lambda>s. act (storeTvlPORCode s)) ss @ [act storeTvlPORListString]) l =
    Inr (l\<lparr>loc_itTvlPORList := loc_itTvlPORList l @ ss,
      loc_tvlPORListString := last_or (loc_tvlPORListString l) (map (\<lambda>s. comma_list (loc_itTvlPORList l @ ss) 0) ss)\<rparr>)"
  by (cases "ss = []") (simp_all add: tvl_effect mandatory_defs last_or_def last_map)

lemma row_actions_effect:
  "run_actions (row_actions real_of float_of valid_ymd r) (new_Location\<lparr>loc_rawDataString := row_text r\<rparr>) =
    bindE (row_mod_date valid_ymd r) (\<lambda>d. bindE (IATAType_of_string (pr_type r)) (\<lambda>ty.
      Inr (row_location real_of float_of r d ty)))"
proof -
  note effects = row_effects tvl_list_effect mandatory_defs date_elements_def alt_name_effect bindE_assoc
  have language: "loc_itLanguageCode new_Location = []" by (simp add: new_Location_def)
  note initial = row_location_def signed_value_def new_Location_def new_LocationKey_def Let_def
  show ?thesis
  proof (cases "pr_mod_date r")
    case None
    show ?thesis
      unfolding row_actions_def run_actions_simps(3) key_effect bindE_simps details_actions_def Let_def
      by (cases "IATAType_of_string (pr_type r)")
        (simp_all add: effects None language row_mod_date_def, simp add: initial None date_elements_def)
  next
    case (Some d)
    show ?thesis
      unfolding row_actions_def run_actions_simps(3) key_effect bindE_simps details_actions_def Let_def
      by (cases "calculateDate valid_ymd (date_elements (Some d) new_Location)"; cases "IATAType_of_string (pr_type r)")
       (simp_all add: effects Some language row_mod_date_def, simp add: initial Some date_elements_def)
  qed
qed

section \<open>An interpreter of the grammar\<close>

text \<open>
  Parsing expressions: a choice commits to its first match and a repetition takes all it can. A
  repetition of matches that consume nothing does not return, which the rules never ask for. The readers
  of reals take plain decimals.
\<close>

definition is_blank :: "char \<Rightarrow> bool" where
  "is_blank c \<longleftrightarrow> c = CHR '' '' \<or> c = CHR 0x09"

definition skip :: "bool \<Rightarrow> string \<Rightarrow> string" where
  "skip k s = (if k then dropWhile is_blank s else s)"

definition decimal_sign :: "string \<Rightarrow> string" where
  "decimal_sign s = (if s \<noteq> [] \<and> hd s = CHR ''-'' then ''-'' else [])"

definition decimal_body :: "string \<Rightarrow> string" where
  "decimal_body s = drop (length (decimal_sign s)) s"

definition decimal_ok :: "string \<Rightarrow> bool" where
  "decimal_ok t \<longleftrightarrow> takeWhile digit_char t \<noteq> [] \<and>
     (dropWhile digit_char t = [] \<or> hd (dropWhile digit_char t) = CHR ''.'') \<and>
     (\<forall>c \<in> set (drop 1 (dropWhile digit_char t)). digit_char c)"

definition decimal_value :: "string \<Rightarrow> string \<Rightarrow> dbl" where
  "decimal_value sg t = (let fp = drop 1 (dropWhile digit_char t)
     in round_dbl (of_int (sign_value sg (digits_value (takeWhile digit_char t @ fp))) / 10 ^ length fp))"

definition decimal_of :: "string \<Rightarrow> dbl option" where
  "decimal_of s =
     (if decimal_ok (decimal_body s) then Some (decimal_value (decimal_sign s) (decimal_body s)) else None)"

function peg_kleene :: "(string \<Rightarrow> Location \<Rightarrow> parse_result) \<Rightarrow> string \<Rightarrow> Location \<Rightarrow> parse_result" where
  "peg_kleene p s l = (case p s l of
     Inl e \<Rightarrow> Inl e
   | Inr (r, l') \<Rightarrow> (case r of
       None \<Rightarrow> Inr (Some (Chars [], s), l')
     | Some (x, s') \<Rightarrow>
         if length s' < length s then
           and_then (peg_kleene p s' l') (\<lambda>y s l. Inr (Some (join_attribute x y, s), l))
         else Inl NonTermination))"
  by pat_completeness auto
termination by (relation "measure (\<lambda>(p, s, l). length s)") auto

declare peg_kleene.simps [simp del]

primrec peg_repeat ::
    "(string \<Rightarrow> Location \<Rightarrow> parse_result) \<Rightarrow> nat \<Rightarrow> nat \<Rightarrow> string \<Rightarrow> Location \<Rightarrow> parse_result" where
  "peg_repeat p 0 mn s l = Inr (Some (Chars [], s), l)"
| "peg_repeat p (Suc mx) mn s l =
     (if mn = 0 then iterated s (p s l) (peg_repeat p mx 0) else joined (p s l) (peg_repeat p mx (mn - 1)))"

primrec peg_sequence :: "(string \<Rightarrow> Location \<Rightarrow> parse_result) list \<Rightarrow> string \<Rightarrow> Location \<Rightarrow> parse_result" where
  "peg_sequence [] s l = Inr (Some (Unused, s), l)"
| "peg_sequence (p # ps) s l = and_then (p s l) (\<lambda>x. peg_sequence ps)"

primrec peg_alternatives :: "(string \<Rightarrow> Location \<Rightarrow> parse_result) list \<Rightarrow> string \<Rightarrow> Location \<Rightarrow> parse_result" where
  "peg_alternatives [] s l = Inr (None, l)"
| "peg_alternatives (p # ps) s l = or_else (p s l) (peg_alternatives ps s)"

definition peg_uint :: "nat \<Rightarrow> nat \<Rightarrow> string \<Rightarrow> (int \<times> string) option" where
  "peg_uint mn mx s = (let ds = take mx (takeWhile digit_char s)
     in if ds = [] \<or> length ds < mn then None else Some (digits_value ds, drop (length ds) s))"

definition peg_int :: "nat \<Rightarrow> nat \<Rightarrow> string \<Rightarrow> (int \<times> string) option" where
  "peg_int mn mx s = (let sg = takeWhile (\<lambda>c. c = CHR ''-'' \<or> c = CHR ''+'') (take 1 s)
     in map_option (map_prod (sign_value sg) id) (peg_uint mn mx (drop (length sg) s)))"

definition peg_real :: "(string \<Rightarrow> dbl option) \<Rightarrow> string \<Rightarrow> (dbl \<times> string) option" where
  "peg_real reader s = map_option (\<lambda>d. (d, dropWhile number_char s)) (reader (takeWhile number_char s))"

fun peg_run :: "bool \<Rightarrow> grammar \<Rightarrow> string \<Rightarrow> Location \<Rightarrow> parse_result" where
  "peg_run k Eps s l = Inr (Some (Unused, s), l)"
| "peg_run k Eoi s l = Inr (if skip k s = [] then Some (Unused, []) else None, l)"
| "peg_run k Eol s l = Inr (case skip k s of
     c # t \<Rightarrow> if c = CHR 0x0A then Some (Unused, t)
       else if c = CHR 0x0D then Some (Unused, if t \<noteq> [] \<and> hd t = CHR 0x0A then tl t else t) else None
   | [] \<Rightarrow> None, l)"
| "peg_run k (Lit t) s l = Inr (map_option (Pair Unused) (string_parse t (skip k s)), l)"
| "peg_run k (Char_class P) s l = Inr (case skip k s of c # t \<Rightarrow> if P c then Some (Chars [c], t) else None | [] \<Rightarrow> None, l)"
| "peg_run k (Uint_parser mn mx) s l = Inr (map_option (\<lambda>(n, t). (Number n, t)) (peg_uint mn mx (skip k s)), l)"
| "peg_run k (Int_parser mn mx) s l = Inr (map_option (\<lambda>(n, t). (Number n, t)) (peg_int mn mx (skip k s)), l)"
| "peg_run k Double_parser s l = Inr (map_option (\<lambda>(d, t). (Real d, t)) (peg_real decimal_of (skip k s)), l)"
| "peg_run k Float_parser s l = Inr (map_option (\<lambda>(d, t). (Real d, t)) (peg_real decimal_of (skip k s)), l)"
| "peg_run k Bool_parser s l = Inr (map_option (Pair Unused)
     (case parse_true (skip k s) of Some r \<Rightarrow> Some r | None \<Rightarrow> parse_false (skip k s)), l)"
| "peg_run k (Sequence gs) s l = peg_sequence (map (peg_run k) gs) s l"
| "peg_run k (Alternatives gs) s l = peg_alternatives (map (peg_run k) gs) s l"
| "peg_run k (Difference g h) s l = unless (peg_run k h s l) (peg_run k g s)"
| "peg_run k (Optional g) s l = or_else (peg_run k g s l) (\<lambda>l. Inr (Some (Unused, s), l))"
| "peg_run k (Kleene g) s l = peg_kleene (peg_run k g) s l"
| "peg_run k (Plus g) s l = joined (peg_run k g s l) (peg_kleene (peg_run k g))"
| "peg_run k (Repeat mn mx g) s l = peg_repeat (peg_run k g) mx mn s l"
| "peg_run k (Separated g h) s l = and_then (peg_run k g s l) (\<lambda>x s l.
     and_then (peg_kleene (peg_sequence [peg_run k h, peg_run k g]) s l) (\<lambda>y s l. Inr (Some (Unused, s), l)))"
| "peg_run k (No_skip g) s l = peg_run False g s l"
| "peg_run k (Lexeme g) s l = peg_run False g (skip k s) l"
| "peg_run k (Action g f) s l =
     and_then (peg_run k g s l) (\<lambda>x s l. bindE (f x l) (\<lambda>l. Inr (Some (x, s), l)))"

lemma skip_ready [simp]: "ready is_blank k s \<Longrightarrow> skip k s = s"
  by (cases s) (auto simp: skip_def ready_def)

lemma peg_kleene_iterated:
  assumes "\<And>x s' l'. p s l = Inr (Some (x, s'), l') \<Longrightarrow> length s' < length s"
  shows "peg_kleene p s l = iterated s (p s l) (peg_kleene p)"
  using assms by (subst peg_kleene.simps) (auto simp: iterated_def bindE_def split: sum.split option.split)

lemma parsers:
  "peg_run k (Sequence gs) = peg_sequence (map (peg_run k) gs)"
  "peg_run k (Alternatives gs) = peg_alternatives (map (peg_run k) gs)"
  "peg_run k (Kleene g) = peg_kleene (peg_run k g)"
  "peg_run k (Repeat mn mx g) = peg_repeat (peg_run k g) mx mn"
  by (simp_all add: fun_eq_iff)

lemma digits_no_skip: "digit_char c \<Longrightarrow> \<not> is_blank c"
  by (auto simp: is_blank_def digit_char_def less_eq_char_def)

lemma number_no_skip: "number_char c \<Longrightarrow> \<not> is_blank c"
  by (auto simp: is_blank_def number_char_def digit_char_def lower_def upper_def less_eq_char_def)

lemma takeWhile_before: "\<forall>c \<in> set ds. P c \<Longrightarrow> rest = [] \<or> \<not> P (hd rest) \<Longrightarrow> takeWhile P (ds @ rest) = ds"
  by (cases rest) (auto simp: takeWhile_append)

lemma dropWhile_before: "\<forall>c \<in> set ds. P c \<Longrightarrow> rest = [] \<or> \<not> P (hd rest) \<Longrightarrow> dropWhile P (ds @ rest) = rest"
  by (cases rest) (auto simp: dropWhile_append)

lemma decimal_ok_chars: "decimal_ok t \<Longrightarrow> t \<noteq> [] \<and> (\<forall>c \<in> set t. digit_char c \<or> c = CHR ''.'')"
proof (intro conjI ballI)
  assume ok: "decimal_ok t"
  then show "t \<noteq> []" by (auto simp: decimal_ok_def)
  fix c
  assume "c \<in> set t"
  then have "c \<in> set (takeWhile digit_char t) \<or> c \<in> set (dropWhile digit_char t)"
    by (metis Un_iff set_append takeWhile_dropWhile_id)
  then show "digit_char c \<or> c = CHR ''.''"
    using ok by (cases "dropWhile digit_char t") (auto simp: decimal_ok_def dest: set_takeWhileD)
qed

lemma decimal_chars:
  assumes "decimal_of s = Some d"
  shows "s \<noteq> [] \<and> (\<forall>c \<in> set s. number_char c)"
proof -
  have "decimal_ok (decimal_body s)" using assms by (simp add: decimal_of_def split: if_split_asm)
  then have "decimal_body s \<noteq> []" "\<forall>c \<in> set (decimal_body s). number_char c"
    using decimal_ok_chars [of "decimal_body s"] by (auto simp: number_char_def)
  moreover have "number_char (CHR ''-'')" by (simp add: number_char_def)
  ultimately show ?thesis
    by (cases s) (auto simp: decimal_body_def decimal_sign_def split: if_splits)
qed

lemma ready_digits: "ds \<noteq> [] \<Longrightarrow> \<forall>c \<in> set ds. digit_char c \<Longrightarrow> ready is_blank k (ds @ rest)"
  by (cases ds) (auto simp: ready_def digits_no_skip)

lemma peg_uint_digits:
  assumes "ds \<noteq> []" and "\<forall>c \<in> set ds. digit_char c" and "mn \<le> length ds" and "length ds \<le> mx"
    and "rest = [] \<or> \<not> digit_char (hd rest)"
  shows "peg_uint mn mx (ds @ rest) = Some (digits_value ds, rest)"
  using assms takeWhile_before [OF assms(2,5)] by (simp add: peg_uint_def Let_def)

lemma peg_uint_none: "s = [] \<or> \<not> digit_char (hd s) \<Longrightarrow> peg_uint mn mx s = None"
  by (cases s) (simp_all add: peg_uint_def)

lemma digit_not_sign: "digit_char c \<Longrightarrow> c \<noteq> CHR ''-'' \<and> c \<noteq> CHR ''+''"
  by (auto simp: digit_char_def less_eq_char_def)

lemma peg_int_digits:
  assumes "sg \<in> {[], ''-'', ''+''}" and "ds \<noteq> []" and "\<forall>c \<in> set ds. digit_char c" and "mn \<le> length ds"
    and "length ds \<le> mx" and "rest = [] \<or> \<not> digit_char (hd rest)"
  shows "peg_int mn mx (sg @ ds @ rest) = Some (sign_value sg (digits_value ds), rest)"
proof -
  obtain d ds' where ds: "ds = d # ds'" using assms(2) by (cases ds) auto
  then have "takeWhile (\<lambda>c. c = CHR ''-'' \<or> c = CHR ''+'') (take 1 (sg @ ds @ rest)) = sg"
    using assms(1,3) digit_not_sign by auto
  then show ?thesis using peg_uint_digits [OF assms(2-6)] by (simp add: peg_int_def Let_def)
qed

lemma peg_int_none:
  "s = [] \<or> \<not> digit_char (hd s) \<and> hd s \<noteq> CHR ''+'' \<and> hd s \<noteq> CHR ''-'' \<Longrightarrow> peg_int mn mx s = None"
  by (cases s) (auto simp: peg_int_def peg_uint_none Let_def)

lemma peg_real_number:
  assumes "\<And>s d. reader s = Some d \<Longrightarrow> s \<noteq> [] \<and> (\<forall>c \<in> set s. number_char c)" and "reader s = Some d"
    and "rest = [] \<or> \<not> number_char (hd rest)"
  shows "peg_real reader (s @ rest) = Some (d, rest)" and "ready is_blank k (s @ rest)"
proof -
  have s: "s \<noteq> []" "\<forall>c \<in> set s. number_char c" using assms(1,2) by blast+
  then show "peg_real reader (s @ rest) = Some (d, rest)"
    unfolding peg_real_def takeWhile_before [OF s(2) assms(3)] dropWhile_before [OF s(2) assms(3)] assms(2)
    by simp
  show "ready is_blank k (s @ rest)" using s by (cases s) (auto simp: ready_def number_no_skip)
qed

lemma peg_real_none:
  assumes "\<And>s d. reader s = Some d \<Longrightarrow> s \<noteq> [] \<and> (\<forall>c \<in> set s. number_char c)" and "s = [] \<or> \<not> number_char (hd s)"
  shows "peg_real reader s = None"
proof -
  have "takeWhile number_char s = []" using assms(2) by (cases s) auto
  moreover have "reader [] = None" using assms(1) by (cases "reader []") auto
  ultimately show ?thesis by (simp add: peg_real_def)
qed

interpretation peg: spirit is_blank decimal_of decimal_of peg_run
proof
  fix k s l g h f gs P t ds rest mn mx sg d
  show "\<not> is_blank c" if "33 \<le> (of_char c :: nat)" "(of_char c :: nat) \<le> 126" for c
    using that by (auto simp: is_blank_def)
  show "\<not> is_blank (CHR 0x0A)" by (simp add: is_blank_def)
  show "decimal_of s = Some d \<Longrightarrow> s \<noteq> [] \<and> (\<forall>c \<in> set s. number_char c)"
    by (rule decimal_chars)
  show "peg_run k Eol (CHR 0x0A # s) l = Inr (Some (Unused, s), l)"
    by (simp add: skip_def is_blank_def)
  show "ready is_blank k s \<Longrightarrow> s = [] \<or> hd s \<notin> {CHR 0x0A, CHR 0x0D} \<Longrightarrow> peg_run k Eol s l = Inr (None, l)"
    by (cases s) auto
  show "ds \<noteq> [] \<Longrightarrow> \<forall>c \<in> set ds. digit_char c \<Longrightarrow> mn \<le> length ds \<Longrightarrow> length ds \<le> mx \<Longrightarrow>
      rest = [] \<or> \<not> digit_char (hd rest) \<Longrightarrow>
      peg_run k (Uint_parser mn mx) (ds @ rest) l = Inr (Some (Number (digits_value ds), rest), l)"
    by (simp add: ready_digits peg_uint_digits)
  show "ready is_blank k s \<Longrightarrow> 0 < mn \<Longrightarrow> s = [] \<or> \<not> digit_char (hd s) \<Longrightarrow>
      peg_run k (Uint_parser mn mx) s l = Inr (None, l)"
    by (simp add: peg_uint_none)
  show "peg_run k (Int_parser mn mx) (sg @ ds @ rest) l =
      Inr (Some (Number (sign_value sg (digits_value ds)), rest), l)"
    if "sg \<in> {[], ''-'', ''+''}" "ds \<noteq> []" "\<forall>c \<in> set ds. digit_char c" "mn \<le> length ds" "length ds \<le> mx"
      "rest = [] \<or> \<not> digit_char (hd rest)"
  proof -
    have "ready is_blank k (sg @ ds @ rest)"
      using that(1) ready_digits [OF that(2,3), of k rest] by (auto simp: ready_def is_blank_def)
    then show ?thesis using peg_int_digits [OF that] by simp
  qed
  show "ready is_blank k s \<Longrightarrow> 0 < mn \<Longrightarrow> s = [] \<or> \<not> digit_char (hd s) \<and> hd s \<notin> {CHR ''+'', CHR ''-''} \<Longrightarrow>
      peg_run k (Int_parser mn mx) s l = Inr (None, l)"
    by (simp add: peg_int_none)
  show "decimal_of s = Some d \<Longrightarrow> rest = [] \<or> \<not> number_char (hd rest) \<Longrightarrow>
      peg_run k Double_parser (s @ rest) l = Inr (Some (Real d, rest), l)"
    "decimal_of s = Some d \<Longrightarrow> rest = [] \<or> \<not> number_char (hd rest) \<Longrightarrow>
      peg_run k Float_parser (s @ rest) l = Inr (Some (Real d, rest), l)"
    by (simp_all add: peg_real_number [OF decimal_chars])
  show "ready is_blank k s \<Longrightarrow> s = [] \<or> \<not> number_char (hd s) \<Longrightarrow> peg_run k Double_parser s l = Inr (None, l)"
    "ready is_blank k s \<Longrightarrow> s = [] \<or> \<not> number_char (hd s) \<Longrightarrow> peg_run k Float_parser s l = Inr (None, l)"
    by (simp_all add: peg_real_none [OF decimal_chars])
  show "peg_run k (Kleene g) s l = iterated s (peg_run k g s l) (peg_run k (Kleene g))"
    if "ready is_blank k s" "\<And>x s' l'. peg_run k g s l = Inr (Some (x, s'), l') \<Longrightarrow> length s' < length s"
    unfolding parsers using that(2) by (rule peg_kleene_iterated)
qed (simp_all add: parsers split: option.split)

section \<open>Properties\<close>

text \<open>C5: Whatever the parser library that keeps to the manual of Spirit, the parser makes of a row of the POR
  file exactly the location with the attributes of its fields, each in its place: the defaults where the
  field is empty, the last city where there are several, every alternative name under its language, the
  text itself as raw data. It throws only where the modification date is not one, or, after that, where
  the type has no conversion.\<close>

theorem row_parsed:
  assumes "spirit blank real_of float_of run" and "row_ok blank real_of float_of r"
  shows "generateLocation run blank valid_ymd (row_text r) =
    bindE (row_mod_date valid_ymd r) (\<lambda>moddate. bindE (IATAType_of_string (pr_type r)) (\<lambda>ty.
      Inr (row_location real_of float_of r moddate ty)))"
  using spirit.generateLocation_row [OF assms] by (simp only: row_actions_effect)

definition nce :: por_row_texts where
  "nce = \<lparr>pr_iata = ''NCE'', pr_icao = ''LFMN'', pr_faa = [], pr_is_geonames = CHR ''Y'',
    pr_geoname_id = ''6299418'', pr_envelope_id = [], pr_name = ''Nice Cote Azur'',
    pr_ascii_name = ''Nice Cote Azur'', pr_latitude = ''43.658411'', pr_longitude = ''7.215872'',
    pr_fclass = ''S'', pr_fcode = ''AIRP'', pr_page_rank = ''0.25'', pr_date_from = None,
    pr_date_until = None, pr_comments = [], pr_country_code = ''FR'', pr_cc2 = [],
    pr_country_name = ''France'', pr_continent_name = ''Europe'', pr_adm1_code = ''B8'',
    pr_adm1_utf = [], pr_adm1_ascii = [], pr_adm2_code = ''06'', pr_adm2_utf = [], pr_adm2_ascii = [],
    pr_adm3_code = [], pr_adm4_code = [], pr_population = ''0'', pr_elevation = ([], ''3''),
    pr_gtopo30 = (''-'', ''9999''), pr_timezone = ''Europe/Paris'', pr_gmt_offset = ''1.0'',
    pr_dst_offset = ''2.0'', pr_raw_offset = ''1.0'', pr_mod_date = Some (''2012'', ''06'', ''30''),
    pr_city_codes = [''NCE''], pr_city_names = [''Nice''],
    pr_city_details = [(''NCE'', ''2990440'', ''Nice'', ''Nice'')], pr_tvl_codes = [], pr_state_code = [],
    pr_type = ''A'', pr_wiki = [], pr_alt_names = [(''de'', ''Nizza'', []), ([], ''Nice'', ''ps'')]\<rparr>"

lemma names_of_empty: "names_of om_empty lang = []"
  by (simp add: names_of_def)

lemma nce_ok: "row_ok is_blank decimal_of decimal_of nce"
  unfolding row_ok_def
proof (intro conjI)
  show "codes_ok nce"
    by (simp add: codes_ok_def nce_def code_def upper_def upper_digit_def digit_char_def feature_char_def one_of_def
      less_eq_char_def)
  show "names_ok is_blank nce"
    by (simp add: names_ok_def nce_def plain_def is_blank_def)
  show "numbers_ok decimal_of decimal_of nce"
    by (simp add: numbers_ok_def nce_def decimal_of_def decimal_ok_def decimal_body_def decimal_sign_def
      digit_char_def less_eq_char_def code_def signed_ok_def date_ok_def)
  show "lists_ok is_blank nce"
    by (simp add: lists_ok_def nce_def code_def upper_def digit_char_def less_eq_char_def plain_def is_blank_def
      city_detail_ok_def alt_name_ok_def one_of_def)
qed

lemma nce_conversions:
  "row_mod_date (\<lambda>y m d. True) nce = Inr (2012, 6, 30)" "IATAType_of_string (pr_type nce) = Inr AIRP"
  by (simp_all add: row_mod_date_def nce_def calculateDate_def date_elements_def date_part_def
    element_check_def digits_value_def IATAType_of_string_def Let_def)

lemma nce_parsed:
  "generateLocation peg_run is_blank (\<lambda>y m d. True) (row_text nce) =
    Inr (row_location decimal_of decimal_of nce (2012, 6, 30) AIRP)"
  by (simp add: peg.generateLocation_row [OF nce_ok] row_actions_effect nce_conversions)

theorem row_parsed_witness:
  "\<exists>l. generateLocation peg_run is_blank (\<lambda>y m d. True) (row_text nce) = Inr l \<and>
     lk_iataCode (loc_key l) = ''NCE'' \<and> loc_icaoCode l = ''LFMN'' \<and> loc_gTopo30 l = - 9999 \<and>
     loc_modificationDate l = (2012, 6, 30) \<and> names_of (loc_nameMatrix l) ''de'' = [''Nizza'']"
  unfolding row_parsed [OF peg.spirit_axioms nce_ok] nce_conversions bindE_simps
  by (intro exI conjI refl)
    (simp_all add: row_location_def nce_def date_elements_def digits_value_def Let_def signed_value_def given_def
      sign_value_def, simp_all add: names_of_addName names_of_empty)

text \<open>C31: The document that the index stores for a row gives back, when the search parses it, the very location
  that was indexed: the raw data kept in the location is the text of the row.\<close>

theorem stored_row_reparsed:
  fixes doc :: xdoc
  assumes "spirit blank real_of float_of run" and "row_ok blank real_of float_of r"
    and "generateLocation run blank valid_ymd (row_text r) = Inr l" and "xd_data doc = loc_rawDataString l"
  shows "retrieveLocation (generateLocation run blank valid_ymd) doc = Inr l"
proof -
  have "bindE (row_mod_date valid_ymd r) (\<lambda>moddate. bindE (IATAType_of_string (pr_type r)) (\<lambda>ty.
      Inr (row_location real_of float_of r moddate ty))) = Inr l"
    using assms(3) unfolding spirit.generateLocation_row [OF assms(1,2)] row_actions_effect .
  then have "loc_rawDataString l = row_text r"
    by (auto simp: bindE_Inr_iff row_location_def Let_def date_elements_def)
  then show ?thesis using assms(3,4) by (simp add: retrieveLocation_def)
qed

theorem stored_row_reparsed_witness:
  "\<exists>l. generateLocation peg_run is_blank (\<lambda>y m d. True) (row_text nce) = Inr l \<and>
     retrieveLocation (generateLocation peg_run is_blank (\<lambda>y m d. True))
       \<lparr>xd_docid = 1, xd_data = loc_rawDataString l\<rparr> = Inr l"
proof -
  let ?l = "row_location decimal_of decimal_of nce (2012, 6, 30) AIRP"
  have "retrieveLocation (generateLocation peg_run is_blank (\<lambda>y m d. True))
      \<lparr>xd_docid = 1, xd_data = loc_rawDataString ?l\<rparr> = Inr ?l"
    by (rule stored_row_reparsed [OF peg.spirit_axioms nce_ok nce_parsed]) simp
  with nce_parsed show ?thesis by blast
qed

text \<open>C12: The indexing of a POR file, header line included, is the indexing of the location of each of its
  rows, with a place of its own and in their order; the header line gives no document and is not counted.\<close>

theorem file_indexed:
  assumes "spirit blank real_of float_of run" and "t \<noteq> []"
    and "\<forall>c \<in> set t. \<not> blank c \<and> c \<notin> {CHR 0x0A, CHR 0x0D}"
    and "\<forall>r \<in> set rows. row_ok blank real_of float_of r \<and> pr_name r \<noteq> ''NotAvailable'' \<and>
      row_mod_date valid_ymd r = Inr (moddate r) \<and> IATAType_of_string (pr_type r) = Inr (ty r)"
  shows "buildSearchIndex ops tkz normalise (generateLocation run blank valid_ymd) insertPlaceInDB
      ((''iata_code'' @ t) # map row_text rows) (new_Place l) db sql =
    foldE (\<lambda>r (n, db, sql).
        bindE (addDocumentToIndex ops tkz normalise
          (new_Place (row_location real_of float_of r (moddate r) (ty r))) db) (\<lambda>(p, db).
        bindE (case insertPlaceInDB of Some f \<Rightarrow> f p sql | None \<Rightarrow> Inr sql) (\<lambda>sql.
          Inr (n + 1, db, sql)))) rows (0, db, sql)"
proof -
  let ?parse = "generateLocation run blank valid_ymd"
  let ?row = "\<lambda>r. row_location real_of float_of r (moddate r) (ty r)"
  have row: "?parse (row_text r) = Inr (?row r)" and name: "loc_commonName (?row r) \<noteq> ''NotAvailable''"
    if "r \<in> set rows" for r
    using that assms(4) spirit.generateLocation_row [OF assms(1), of r valid_ymd]
    by (simp_all add: row_actions_effect row_location_def Let_def date_elements_def)
  have head: "index_line ops tkz normalise ?parse insertPlaceInDB (''iata_code'' @ t) (0, db, sql) = Inr (0, db, sql)"
    unfolding index_line_def case_prod_conv spirit.generateLocation_header [OF assms(1-3)]
    by (simp add: new_Location_def)
  have "buildSearchIndex ops tkz normalise ?parse insertPlaceInDB ((''iata_code'' @ t) # map row_text rows)
      (new_Place l) db sql =
    foldE (index_line ops tkz normalise ?parse insertPlaceInDB) ((''iata_code'' @ t) # map row_text rows) (0, db, sql)"
    unfolding buildSearchIndex_def by (rule loop_lines [OF clean_new_Place])
  also have "\<dots> = foldE (\<lambda>r. index_line ops tkz normalise ?parse insertPlaceInDB (row_text r)) rows (0, db, sql)"
    unfolding foldE.simps head bindE_simps foldE_map ..
  also have "\<dots> = foldE (\<lambda>r (n, db, sql). bindE (addDocumentToIndex ops tkz normalise (new_Place (?row r)) db) (\<lambda>(p, db).
      bindE (case insertPlaceInDB of Some f \<Rightarrow> f p sql | None \<Rightarrow> Inr sql) (\<lambda>sql. Inr (n + 1, db, sql)))) rows (0, db, sql)"
    by (rule foldE_cong) (simp add: index_line_def row name split: prod.split)
  finally show ?thesis .
qed

theorem file_indexed_witness:
  "\<forall>(ops :: (string list, string list, nat) xapian_ops) tkz normalise db.
    buildSearchIndex ops tkz normalise (generateLocation peg_run is_blank (\<lambda>y m d. True)) None
      [''iata_code^icao_code'', row_text nce] (new_Place new_Location) db () =
    bindE (addDocumentToIndex ops tkz normalise
      (new_Place (row_location decimal_of decimal_of nce (2012, 6, 30) AIRP)) db) (\<lambda>(p, db). Inr (1, db, ()))"
proof (intro allI)
  fix ops :: "(string list, string list, nat) xapian_ops" and tkz normalise db
  have "pr_name nce \<noteq> ''NotAvailable''" by (simp add: nce_def)
  with file_indexed [OF peg.spirit_axioms, of "''^icao_code''" "[nce]" "\<lambda>y m d. True" "\<lambda>_. (2012, 6, 30)" "\<lambda>_. AIRP"
      ops tkz normalise None new_Location db "()"]
  show "buildSearchIndex ops tkz normalise (generateLocation peg_run is_blank (\<lambda>y m d. True)) None
      [''iata_code^icao_code'', row_text nce] (new_Place new_Location) db () =
    bindE (addDocumentToIndex ops tkz normalise
      (new_Place (row_location decimal_of decimal_of nce (2012, 6, 30) AIRP)) db) (\<lambda>(p, db). Inr (1, db, ()))"
    by (simp add: nce_ok nce_conversions is_blank_def bindE_def split: sum.split prod.split)
qed

text \<open>C32: The parser of a whole file throws whatever the rows, as soon as the header and a first row are each
  followed by the end of their line: the rule of a row leaves the end of the line unread.\<close>

theorem whole_file_rejected:
  assumes "spirit blank real_of float_of run" and "row_ok blank real_of float_of r" and "t \<noteq> []"
    and "\<forall>c \<in> set t. \<not> blank c \<and> c \<notin> {CHR 0x0A, CHR 0x0D}"
  shows "isl (PORGeneration run blank valid_ymd doesExistAndIsReadable
    (\<lambda>_. Some (''iata_code'' @ t @ CHR 0x0A # row_text r @ CHR 0x0A # rest)) iPORFilename)"
  unfolding PORGeneration_def spirit.file_with_rows [OF assms]
  by (simp add: bindE_def split: sum.split)

theorem whole_file_rejected_witness:
  "isl (PORGeneration peg_run is_blank (\<lambda>y m d. True) (\<lambda>_. True)
    (\<lambda>_. Some (''iata_code'' @ ''^icao_code'' @ CHR 0x0A # row_text nce @ CHR 0x0A # [])) ''por.csv'')"
  by (rule whole_file_rejected [OF peg.spirit_axioms nce_ok]) (simp_all add: is_blank_def)

text \<open>A text that starts neither with the header, nor with a capital letter, nor with a blank, is refused
  with a parsing exception that quotes it; the empty text is not, and gives the default location.\<close>

theorem text_refused:
  assumes "spirit blank real_of float_of run" and "s \<noteq> []" and "string_parse ''iata_code'' s = None"
    and "\<not> upper (hd s)" and "\<not> blank (hd s)"
  shows "generateLocation run blank valid_ymd s = Inl (parsing_failed ''POR input file'' s) \<and>
    generateLocation run blank valid_ymd [] = Inr (new_Location\<lparr>loc_rawDataString := []\<rparr>)"
  using spirit.generateLocation_unread [OF assms] spirit.generateLocation_empty [OF assms(1)] by simp

theorem text_refused_witness:
  "generateLocation peg_run is_blank (\<lambda>y m d. True) ''nce^LFMN'' =
     Inl (parsing_failed ''POR input file'' ''nce^LFMN'')"
  using text_refused [OF peg.spirit_axioms, of "''nce^LFMN''" "\<lambda>y m d. True"]
  by (simp add: string_parse_def upper_def less_eq_char_def is_blank_def)

text \<open>The flag that says whether Geonames references the record is read and dropped: a parsed row is never
  marked as known by Geonames, whatever its flag and its identifier, and its alternative names are filed
  under their languages in a well-formed matrix.\<close>

theorem row_not_geonames:
  assumes "spirit blank real_of float_of run" and "row_ok blank real_of float_of r"
    and "generateLocation run blank valid_ymd (row_text r) = Inr l"
  shows "\<not> isGeonames l \<and> lk_geonamesID (loc_key l) = sint (number_of (pr_geoname_id r)) \<and> matrix_wf (loc_nameMatrix l)"
proof -
  have "bindE (row_mod_date valid_ymd r) (\<lambda>moddate. bindE (IATAType_of_string (pr_type r)) (\<lambda>ty.
      Inr (row_location real_of float_of r moddate ty))) = Inr l"
    using assms(3) unfolding spirit.generateLocation_row [OF assms(1,2)] row_actions_effect .
  then obtain d ty where l: "l = row_location real_of float_of r d ty" by (auto simp: bindE_Inr_iff)
  have "matrix_wf m \<Longrightarrow> matrix_wf (fold (\<lambda>(lang, name, _). NameMatrix_addName lang name) names m)"
    for names :: "(string \<times> string \<times> string) list" and m
    by (induction names arbitrary: m) auto
  then show ?thesis
    by (simp add: l row_location_def Let_def date_elements_def isGeonames_def)
qed

theorem row_not_geonames_witness:
  "pr_is_geonames nce = CHR ''Y'' \<and>
   (\<exists>l. generateLocation peg_run is_blank (\<lambda>y m d. True) (row_text nce) = Inr l \<and> \<not> isGeonames l)"
  using row_not_geonames [OF peg.spirit_axioms nce_ok nce_parsed] nce_parsed by (auto simp: nce_def)

text \<open>Of the types that the grammar accepts, a row whose modification date is one is parsed exactly for the
  twelve that the conversion knows; the others, such as that of ground transport (\<open>G\<close>), make the parsing
  throw.\<close>

theorem row_type_conversion:
  assumes "spirit blank real_of float_of run" and "row_ok blank real_of float_of r"
    and "row_mod_date valid_ymd r = Inr d"
  shows "isl (generateLocation run blank valid_ymd (row_text r)) =
    (pr_type r \<notin> set [''CA'', ''CH'', ''CR'', ''CB'', ''CP'', ''C'', ''A'', ''H'', ''R'', ''B'', ''P'', ''O''])"
  unfolding spirit.generateLocation_row [OF assms(1,2)] row_actions_effect assms(3)
  by (auto simp: IATAType_of_string_def Let_def)

lemma nce_G_ok: "row_ok is_blank decimal_of decimal_of (nce\<lparr>pr_type := ''G''\<rparr>)"
  using nce_ok by (simp add: row_ok_def codes_ok_def names_ok_def numbers_ok_def lists_ok_def code_def one_of_def)

theorem row_type_conversion_witness:
  "isl (generateLocation peg_run is_blank (\<lambda>y m d. True) (row_text (nce\<lparr>pr_type := ''G''\<rparr>)))"
proof -
  have "row_mod_date (\<lambda>y m d. True) (nce\<lparr>pr_type := ''G''\<rparr>) = Inr (2012, 6, 30)"
    using nce_conversions(1) by (simp add: row_mod_date_def)
  from row_type_conversion [OF peg.spirit_axioms nce_G_ok this] show ?thesis by simp
qed

end
