(* ===== verification/PorFilling.thy ===== *)
theory PorFilling
  imports PorRecords Services
begin

text \<open>
  The POR file in the SQL database: the grammar of the rows (\<^verbatim>\<open>bom/PORParserHelper.cpp\<close>), the filling of the table
  (\<^verbatim>\<open>DBManager::fillInFromPORFile\<close>) and the statements that create the table put together, for any parser library that keeps to the
  manual of Spirit and any table that keeps the laws of \<open>por_table\<close>.
\<close>

section \<open>The cells of a row\<close>

text \<open>What each column holds for a row of the file whose type has the given label: its fields, but for the flag of Geonames,
  which is always \<^verbatim>\<open>N\<close>, and the two dates, which are those of a location without dates.\<close>

definition stored_cells :: "(date \<Rightarrow> string) \<Rightarrow> string \<Rightarrow> por_row_texts \<Rightarrow> (string \<times> string) list" where
  "stored_cells iso_date label r =
     (let geoname = show_int (sint (number_of (pr_geoname_id r)))
      in [(''pk'', pr_iata r @ ''-'' @ label @ ''-'' @ geoname), (''location_type'', label),
          (''iata_code'', pr_iata r), (''icao_code'', pr_icao r), (''faa_code'', pr_faa r),
          (''is_geonames'', ''N''), (''geoname_id'', geoname),
          (''envelope_id'', show_int (given 0 (pr_envelope_id r) (sint (number_of (pr_envelope_id r))))),
          (''date_from'', iso_date (loc_dateFrom new_Location)), (''date_until'', iso_date (loc_dateEnd new_Location)),
          (''serialised_place'', row_text r)])"

definition stored_cell :: "(date \<Rightarrow> string) \<Rightarrow> string \<Rightarrow> por_row_texts \<Rightarrow> string \<Rightarrow> string" where
  "stored_cell iso_date label r column = the (map_of (stored_cells iso_date label r) column)"

lemma location_fields:
  "loc_key (row_location real_of float_of r d ty) =
     \<lparr>lk_iataCode = pr_iata r, lk_iataType = ty, lk_geonamesID = sint (number_of (pr_geoname_id r)), lk_isGeonames = False\<rparr>"
  "loc_icaoCode (row_location real_of float_of r d ty) = pr_icao r"
  "loc_faaCode (row_location real_of float_of r d ty) = pr_faa r"
  "loc_commonName (row_location real_of float_of r d ty) = pr_name r"
  "loc_envelopeID (row_location real_of float_of r d ty) = given 0 (pr_envelope_id r) (sint (number_of (pr_envelope_id r)))"
  "loc_dateFrom (row_location real_of float_of r d ty) = loc_dateFrom new_Location"
  "loc_dateEnd (row_location real_of float_of r d ty) = loc_dateEnd new_Location"
  "loc_rawDataString (row_location real_of float_of r d ty) = row_text r"
  by (simp_all add: row_location_def Let_def date_elements_def)

lemma stored_row:
  assumes "IATAType_getTypeLabelAsString ty = Inr label"
  shows "por_row iso_date (new_Place (row_location real_of float_of r d ty)) =
    Inr (map (stored_cell iso_date label r) por_columns)"
  by (simp add: por_row_def new_Place_def Let_def location_fields LocationKey_describe_def assms isGeonames_def
    stored_cell_def stored_cells_def por_columns_def)

lemma stored_key:
  assumes "IATAType_getTypeLabelAsString ty = Inr label"
  shows "primary_key (row_location real_of float_of r d ty) = Inr (stored_cell iso_date label r ''pk'')"
  by (simp add: primary_key_def location_fields LocationKey_describe_def assms stored_cell_def stored_cells_def Let_def)

section \<open>Properties\<close>

text \<open>C39: Filling an empty table from a POR file, header line included, whose rows keep to the grammar and have different primary
  keys: the table then has, in the columns that the statements of both back-ends create, exactly the fields of each row, the flag of
  Geonames and the dates excepted, which are always \<^verbatim>\<open>N\<close> and the default ones; and listing by IATA code or by Geonames identifier
  delivers exactly the locations of the rows that carry it.\<close>

theorem file_stored:
  assumes "spirit blank real_of float_of run" and "por_table insert_row connect rows" and "rows db = {#}" and "t \<noteq> []"
    and "\<forall>c \<in> set t. \<not> blank c \<and> c \<notin> {CHR 0x0A, CHR 0x0D}"
    and "\<forall>r \<in> set rs. row_ok blank real_of float_of r \<and> pr_name r \<noteq> ''NotAvailable'' \<and>
      row_mod_date valid_ymd r = Inr (moddate r) \<and> IATAType_of_string (pr_type r) = Inr (ty r) \<and>
      IATAType_getTypeLabelAsString (ty r) = Inr (label r)"
    and "distinct (map (\<lambda>r. stored_cell iso_date (label r) r ''pk'') rs)"
  shows "\<exists>table. fillInFromPORFile what iso_date show_place insert_row (generateLocation run blank valid_ymd)
        ((''iata_code'' @ t) # map row_text rs) p (Some db) = (fill_output (length rs), Inr (word_of_nat (length rs), Some table)) \<and>
    columns (mysql_table_statements ! 1) = columns (sqlite_table_statements ! 1) \<and>
    rows table = mset (map (\<lambda>r. map (stored_cell iso_date (label r) r) (columns (sqlite_table_statements ! 1))) rs) \<and>
    (\<forall>code locs. delivers locs code
       (map (\<lambda>r. row_location real_of float_of r (moddate r) (ty r)) (filter (\<lambda>r. pr_iata r = map toupper code) rs))
       (getPORByIATACode what (generateLocation run blank valid_ymd) (connect table) code locs False)) \<and>
    (\<forall>n locs. delivers locs (show_int n)
       (map (\<lambda>r. row_location real_of float_of r (moddate r) (ty r)) (filter (\<lambda>r. sint (number_of (pr_geoname_id r)) = n) rs))
       (getPORByGeonameID what (generateLocation run blank valid_ymd) (connect table) n locs))"
proof -
  let ?parse = "generateLocation run blank valid_ymd"
  let ?loc = "\<lambda>r. row_location real_of float_of r (moddate r) (ty r)"
  let ?head = "new_Location\<lparr>loc_rawDataString := ''iata_code'' @ t\<rparr>"
  let ?ls = "?head # map ?loc rs"
  let ?row = "\<lambda>r. map (stored_cell iso_date (label r) r) por_columns"
  have row: "?parse (row_text r) = Inr (?loc r)" if "r \<in> set rs" for r
    using that assms(6) spirit.generateLocation_row [OF assms(1), of r valid_ymd] by (simp add: row_actions_effect)
  have head: "?parse (''iata_code'' @ t) = Inr ?head" by (rule spirit.generateLocation_header [OF assms(1,4,5)])
  have lines: "list_all2 (\<lambda>line l. ?parse line = Inr l) ((''iata_code'' @ t) # map row_text rs) ?ls"
    using head row by (auto simp: list.rel_map intro!: list_all2_same [THEN iffD2])
  have parse: "\<forall>l \<in> set ?ls. ?parse (loc_rawDataString l) = Inr l" using head row by (auto simp: location_fields)
  have relevant: "relevant_locations ?ls = map ?loc rs"
    using assms(6) by (auto simp: relevant_locations_def new_Location_def location_fields filter_map comp_def filter_id_conv)
  have "mapE (\<lambda>l. por_row iso_date (new_Place l)) (map ?loc rs) = Inr (map ?row rs)"
    unfolding mapE_Inr_iff using assms(6) by (auto simp: list.rel_map stored_row intro!: list_all2_same [THEN iffD2])
  then have rows: "relevant_rows iso_date ?ls = Inr (map ?row rs)"
    using relevant by (simp add: relevant_rows_def relevant_locations_def)
  have "map primary_key (map ?loc rs) = map (Inr \<circ> (\<lambda>r. stored_cell iso_date (label r) r ''pk'')) rs"
    using assms(6) by (auto simp: stored_key)
  then have "distinct (map primary_key (relevant_locations ?ls))"
    unfolding relevant using assms(7) by (simp add: distinct_map inj_on_def)
  from por_table.fill_table [OF assms(2) lines rows assms(3) this, of what show_place p] obtain table where
    fill: "fillInFromPORFile what iso_date show_place insert_row ?parse ((''iata_code'' @ t) # map row_text rs) p (Some db) =
      (fill_output (length rs), Inr (word_of_nat (length rs), Some table))" "rows table = mset (map ?row rs)" by auto
  note lookups = por_table.table_lookups [OF assms(2) rows fill(2) parse, unfolded relevant filter_map comp_def location_fields
    LocationKey.simps]
  show ?thesis
    unfolding columns_por using fill lookups(1,4) by (intro exI [of _ table] conjI allI) simp_all
qed

lemma nce_cells: "map (stored_cell (\<lambda>_. ''1970-01-01'') ''A'' nce) (columns (sqlite_table_statements ! 1)) =
    [''NCE-A-6299418'', ''A'', ''NCE'', ''LFMN'', [], ''N'', ''6299418'', ''0'', ''1970-01-01'', ''1970-01-01'', row_text nce]"
proof -
  have texts: "pr_geoname_id nce = ''6299418''" "pr_envelope_id nce = []" by (simp_all add: nce_def)
  have "digits_value ''6299418'' = 6299418" by code_simp
  then have "sint (number_of (pr_geoname_id nce)) = 6299418"
    unfolding texts(1) number_of_def signed_of_int
    by (simp only: of_int_eq_id id_apply) (subst signed_take_bit_int_eq_self; simp)
  have steps: "show_nat n = show_nat (n div 10) @ [digit (n mod 10)]" if "10 \<le> n" for n :: nat
    using that by (simp add: show_nat.simps [of n])
  have "show_nat 6299418 = map digit [6, 2, 9, 9, 4, 1, 8]" "show_nat 0 = map digit [0]"
    by (simp_all add: steps) (simp_all add: show_nat.simps)
  moreover have "map digit [6, 2, 9, 9, 4, 1, 8] = ''6299418''" "map digit [0] = ''0''" by code_simp+
  ultimately have "show_int 6299418 = ''6299418''" "show_int 0 = ''0''" by (simp_all add: show_int_def)
  with \<open>sint (number_of (pr_geoname_id nce)) = 6299418\<close> have "show_int (sint (number_of (pr_geoname_id nce))) = ''6299418''"
    "show_int (given 0 (pr_envelope_id nce) (sint (number_of (pr_envelope_id nce)))) = ''0''"
    by (simp_all add: given_def texts)
  then show ?thesis unfolding columns_por por_columns_def
    by (simp add: stored_cell_def stored_cells_def Let_def) (simp add: nce_def)
qed

theorem file_stored_witness:
  "\<exists>table l. fillInFromPORFile (\<lambda>_. []) (\<lambda>_. ''1970-01-01'') (\<lambda>_. []) table_insert (generateLocation peg_run is_blank (\<lambda>y m d. True))
       [''iata_code^icao_code'', row_text nce] (new_Place new_Location) (Some []) = ([], Inr (1, Some table)) \<and>
     table = [[''NCE-A-6299418'', ''A'', ''NCE'', ''LFMN'', [], ''N'', ''6299418'', ''0'', ''1970-01-01'', ''1970-01-01'', row_text nce]] \<and>
     getPORByIATACode (\<lambda>_. []) (generateLocation peg_run is_blank (\<lambda>y m d. True)) (table_session table) ''nce'' [] False = Inr (1, [l]) \<and>
     loc_icaoCode l = ''LFMN'' \<and> loc_correctedKeywords l = ''nce''"
proof -
  let ?parse = "generateLocation peg_run is_blank (\<lambda>y m d. True)"
  let ?loc = "row_location decimal_of decimal_of nce (2012, 6, 30) AIRP"
  have label: "IATAType_getTypeLabelAsString AIRP = Inr ''A''" by code_simp
  have up: "map toupper ''nce'' = pr_iata nce" by code_simp
  have quiet: "fill_output (length [nce]) = []" by (simp add: fill_output_def fill_progress_def)
  have "pr_name nce \<noteq> ''NotAvailable''" by (simp add: nce_def)
  then have rs: "\<forall>r \<in> set [nce]. row_ok is_blank decimal_of decimal_of r \<and> pr_name r \<noteq> ''NotAvailable'' \<and>
      row_mod_date (\<lambda>y m d. True) r = Inr (2012, 6, 30) \<and> IATAType_of_string (pr_type r) = Inr AIRP \<and>
      IATAType_getTypeLabelAsString AIRP = Inr ''A''"
    by (simp add: nce_ok nce_conversions label)
  have t: "\<forall>c \<in> set ''^icao_code''. \<not> is_blank c \<and> c \<notin> {CHR 0x0A, CHR 0x0D}" by (simp add: is_blank_def)
  have one: "distinct (map (\<lambda>r. stored_cell (\<lambda>_. ''1970-01-01'') ''A'' r ''pk'') [nce])" "''^icao_code'' \<noteq> []" by simp_all
  from file_stored [where rs="[nce]" and moddate="\<lambda>_. (2012, 6, 30)" and ty="\<lambda>_. AIRP" and label="\<lambda>_. ''A''" and db="[]" and
      iso_date="\<lambda>_. ''1970-01-01''" and what="\<lambda>_. []" and show_place="\<lambda>_. []" and p="new_Place new_Location",
      OF peg.spirit_axioms listed.por_table_axioms mset.simps(1) one(2) t rs one(1)]
  obtain table where fill: "fillInFromPORFile (\<lambda>_. []) (\<lambda>_. ''1970-01-01'') (\<lambda>_. []) table_insert ?parse
       ((''iata_code'' @ ''^icao_code'') # map row_text [nce]) (new_Place new_Location) (Some []) =
       (fill_output (length [nce]), Inr (word_of_nat (length [nce]), Some table))"
    and rows: "mset table = mset (map (\<lambda>r. map (stored_cell (\<lambda>_. ''1970-01-01'') ''A'' r) (columns (sqlite_table_statements ! 1))) [nce])"
    and found: "delivers [] ''nce'' (map (\<lambda>r. row_location decimal_of decimal_of r (2012, 6, 30) AIRP)
        (filter (\<lambda>r. pr_iata r = map toupper ''nce'') [nce])) (getPORByIATACode (\<lambda>_. []) ?parse (table_session table) ''nce'' [] False)"
    by blast
  have "getPORByIATACode (\<lambda>_. []) ?parse (table_session table) ''nce'' [] False = Inr (1, [?loc\<lparr>loc_correctedKeywords := ''nce''\<rparr>])"
    using found unfolding up by (simp add: delivers_def)
  moreover have "loc_icaoCode ?loc = ''LFMN''" by (simp add: location_fields nce_def)
  moreover have "table = [map (stored_cell (\<lambda>_. ''1970-01-01'') ''A'' nce) (columns (sqlite_table_statements ! 1))]"
    using rows by simp
  ultimately show ?thesis
    using fill unfolding quiet nce_cells by (intro exI [of _ table] exI [of _ "?loc\<lparr>loc_correctedKeywords := ''nce''\<rparr>"]) simp
qed

end
