(* ===== verification/IndexRun.thy ===== *)
theory IndexRun
  imports Services
begin

text \<open>
  The whole run of the indexer: access to the POR file (\<^verbatim>\<open>bom/PORFileHelper.cpp\<close>), the building of the index and of
  the SQL table from it (the second \<^verbatim>\<open>buildSearchIndex\<close> of \<^verbatim>\<open>command/IndexBuilder.cpp\<close>), the service around it
  (\<^verbatim>\<open>service/OPENTREP_Service.cpp\<close>) and the batch (\<^verbatim>\<open>batches/opentrep-indexer.cpp\<close>).

  The file system, the decompression of Boost and the writable databases of Xapian are parameters. The stream on the
  POR file is the list of the lines that it delivers. A run that throws leaves the files as they were then; the rows that
  were inserted in the SQL table before the exception are not described.
\<close>

section \<open>Access to the POR file\<close>

datatype encoding = Plain | Gzip | Bzip2

record 'fs por_files =
  pf_exists :: "string \<Rightarrow> 'fs \<Rightarrow> bool"
  pf_is_regular_file :: "string \<Rightarrow> 'fs \<Rightarrow> bool"
  pf_extension :: "string \<Rightarrow> string"
  pf_lines :: "encoding \<Rightarrow> string \<Rightarrow> 'fs \<Rightarrow> string list"

text \<open>The stream that the helper keeps, which is null before \<^verbatim>\<open>init\<close>.\<close>

type_synonym PORFileHelper = "string list option"

definition PORFileHelper_init :: "'fs por_files \<Rightarrow> string \<Rightarrow> 'fs \<Rightarrow> PORFileHelper outcome" where
  "PORFileHelper_init por iPORFilePath fs =
     (if \<not> (pf_exists por iPORFilePath fs \<and> pf_is_regular_file por iPORFilePath fs) then
        Inl (FileNotFoundException (''The POR file '' @ iPORFilePath @ '' does not exist or cannot be read''))
      else
        let lPORFileExt = pf_extension por iPORFilePath
        in if lPORFileExt = ''.bz2'' then Inr (Some (pf_lines por Bzip2 iPORFilePath fs))
           else if lPORFileExt = ''.gz'' then Inr (Some (pf_lines por Gzip iPORFilePath fs))
           else if lPORFileExt = ''.csv'' then Inr (Some (pf_lines por Plain iPORFilePath fs))
           else Inl (FileExtensionUnknownException
             (''The POR file '' @ iPORFilePath @ '' has got an unknown extension ('' @ [CHR 0x27] @ lPORFileExt @
              [CHR 0x27] @ ''). Recognised extensions: .csv, .bz2, .gz'')))"

definition getFileStreamRef :: "PORFileHelper \<Rightarrow> string list outcome" where
  "getFileStreamRef iStreamPtr = (case iStreamPtr of None \<Rightarrow> Inl AssertionFailure | Some lines \<Rightarrow> Inr lines)"

definition por_stream :: "'fs por_files \<Rightarrow> string \<Rightarrow> 'fs \<Rightarrow> string list outcome" where
  "por_stream por iPORFilePath fs = bindE (PORFileHelper_init por iPORFilePath fs) getFileStreamRef"

section \<open>The building of the index\<close>

text \<open>
  A writable database of Xapian: opening it in an empty directory, which may throw; beginning a transaction; and
  committing it, which writes the database into the files. The destructor of a database cancels a transaction
  that was begun and not committed.
\<close>

record ('fs, 'db) xapian_files =
  xf_create :: "string \<Rightarrow> 'fs \<Rightarrow> (string + 'db) \<times> 'fs"
  xf_begin :: "'db \<Rightarrow> 'db"
  xf_commit :: "string \<Rightarrow> 'db \<Rightarrow> 'fs \<Rightarrow> string option \<times> 'fs"

text \<open>What the code takes from its environment.\<close>

record ('fs, 'sql, 'doc, 'gen, 'db) index_environment =
  ie_files :: "'fs file_system"
  ie_por :: "'fs por_files"
  ie_xapian :: "('doc, 'gen, 'db) xapian_ops"
  ie_index :: "('fs, 'db) xapian_files"
  ie_server :: sql_server
  ie_tokeniser :: tokeniser
  ie_normalise :: "string \<Rightarrow> string"
  ie_parse :: "string \<Rightarrow> Location outcome"
  ie_insert :: "sql_session \<Rightarrow> Place \<Rightarrow> 'sql \<Rightarrow> 'sql outcome"

text \<open>Clearing and creating the directory, with the check of it, and opening the database.\<close>

definition clear_index ::
    "('fs, 'sql, 'doc, 'gen, 'db) index_environment \<Rightarrow> string \<Rightarrow> 'fs \<Rightarrow> 'db outcome \<times> 'fs" where
  "clear_index ie iTravelDBFilePath fs =
     (case fs_remove_all (ie_files ie) iTravelDBFilePath fs of
        (Some lException, fs) \<Rightarrow> (Inl (StdException lException), fs)
      | (None, fs) \<Rightarrow>
        (case fs_create_directories (ie_files ie) iTravelDBFilePath fs of
           (Some lException, fs) \<Rightarrow> (Inl (StdException lException), fs)
         | (None, fs) \<Rightarrow>
             if \<not> fs_is_directory (ie_files ie) iTravelDBFilePath fs then
               (Inl (FileNotFoundException
                 (''The file-path to the Xapian database/index ('' @ [CHR 0x27] @
                  sv_show_path (ie_server ie) iTravelDBFilePath @ [CHR 0x27] @
                  '') does not exist or is not a directory.'')), fs)
             else
               (case xf_create (ie_index ie) iTravelDBFilePath fs of
                  (Inl lException, fs) \<Rightarrow> (Inl (XapianError lException), fs)
                | (Inr lXapianDatabase, fs) \<Rightarrow> (Inr (xf_begin (ie_index ie) lXapianDatabase), fs))))"

text \<open>The connection, the file, and the loop over its lines.\<close>

definition index_file ::
    "('fs, 'sql, 'doc, 'gen, 'db) index_environment \<Rightarrow> string \<Rightarrow> EN_DBType \<Rightarrow> string \<Rightarrow> 'fs \<Rightarrow> 'db \<Rightarrow> 'sql \<Rightarrow>
     (32 word \<times> 'db \<times> 'sql) outcome" where
  "index_file ie iPORFilePath iSQLDBType iSQLDBConnStr fs lXapianDatabase sql =
     bindE (initSQLDBSession (ie_server ie) iSQLDBType iSQLDBConnStr) (\<lambda>lSociSession_ptr.
     bindE (por_stream (ie_por ie) iPORFilePath fs) (\<lambda>lPORFileStream.
       buildSearchIndex (ie_xapian ie) (ie_tokeniser ie) (ie_normalise ie) (ie_parse ie)
         (case lSociSession_ptr of None \<Rightarrow> None | Some lSociSession \<Rightarrow> Some (ie_insert ie lSociSession))
         lPORFileStream default_Place lXapianDatabase sql))"

definition IndexBuilder_buildSearchIndex ::
    "('fs, 'sql, 'doc, 'gen, 'db) index_environment \<Rightarrow> string \<Rightarrow> string \<Rightarrow> EN_DBType \<Rightarrow> string \<Rightarrow> 'fs \<Rightarrow> 'sql \<Rightarrow>
     (32 word \<times> 'sql) outcome \<times> 'fs" where
  "IndexBuilder_buildSearchIndex ie iPORFilePath iTravelDBFilePath iSQLDBType iSQLDBConnStr fs sql =
     (case clear_index ie iTravelDBFilePath fs of
        (Inl e, fs) \<Rightarrow> (Inl e, fs)
      | (Inr lXapianDatabase, fs) \<Rightarrow>
        (case index_file ie iPORFilePath iSQLDBType iSQLDBConnStr fs lXapianDatabase sql of
           Inl e \<Rightarrow> (Inl e, fs)
         | Inr (oNbOfEntries, lXapianDatabase, sql) \<Rightarrow>
           (case xf_commit (ie_index ie) iTravelDBFilePath lXapianDatabase fs of
              (Some lException, fs) \<Rightarrow> (Inl (XapianError lException), fs)
            | (None, fs) \<Rightarrow> (Inr (oNbOfEntries, sql), fs))))"

definition service_buildSearchIndex ::
    "('fs, 'sql, 'doc, 'gen, 'db) index_environment \<Rightarrow> service_context option \<Rightarrow> 'fs \<Rightarrow> 'sql \<Rightarrow>
     (32 word \<times> 'sql) outcome \<times> 'fs" where
  "service_buildSearchIndex ie opentrepServiceContext fs sql =
     (case with_context opentrepServiceContext Inr of
        Inl e \<Rightarrow> (Inl e, fs)
      | Inr lOPENTREP_ServiceContext \<Rightarrow>
          IndexBuilder_buildSearchIndex ie (sc_porFilePath lOPENTREP_ServiceContext)
            (sc_travelDBFilePath lOPENTREP_ServiceContext) (sc_sqlDBType lOPENTREP_ServiceContext)
            (sc_sqlDBConnectionString lOPENTREP_ServiceContext) fs sql)"

section \<open>The options of the batches\<close>

text \<open>
  Boost parses the command line and the configuration file into a map from the names of the options to their
  values, defaults included; the parser, its description of the options and the names of the package are
  parameters. What the batches keep of it, and the text that they write.
\<close>

type_synonym variables_map = "string \<Rightarrow> string option"

record package_info =
  pk_name :: string
  pk_version :: string
  pk_prefix :: string
  pk_options :: string

record batch_options =
  bo_PORFilepath :: string
  bo_XapianDBFilepath :: string
  bo_SQLDBTypeString :: string
  bo_SQLDBConnectionString :: string
  bo_LogFilename :: string

definition K_OPENTREP_EARLY_RETURN_STATUS :: int where
  "K_OPENTREP_EARLY_RETURN_STATUS = 99"

definition quoted :: "string \<Rightarrow> string" where
  "quoted s = [CHR 0x27] @ s @ [CHR 0x27]"

text \<open>An option that has a value replaces what its variable held; the text of it is written when there is a label.\<close>

definition read_option :: "variables_map \<Rightarrow> string \<Rightarrow> string \<Rightarrow> string \<Rightarrow> string \<times> string" where
  "read_option vm name label old =
     (case vm name of None \<Rightarrow> (old, [])
      | Some v \<Rightarrow> (v, if label = [] then [] else label @ v @ endl))"

text \<open>The options that end the program.\<close>

definition early_options :: "package_info \<Rightarrow> variables_map \<Rightarrow> string option" where
  "early_options pk vm =
     (if vm ''help'' \<noteq> None then Some (pk_options pk @ endl)
      else if vm ''version'' \<noteq> None then Some (pk_name pk @ '', version '' @ pk_version pk @ endl)
      else if vm ''prefix'' \<noteq> None then Some (''Installation prefix: '' @ pk_prefix pk @ endl)
      else None)"

definition indexer_readConfiguration ::
    "package_info \<Rightarrow> variables_map \<Rightarrow> batch_options \<Rightarrow> int \<times> batch_options \<times> string" where
  "indexer_readConfiguration pk vm bo =
     (case early_options pk vm of
        Some out \<Rightarrow> (K_OPENTREP_EARLY_RETURN_STATUS, bo, out)
      | None \<Rightarrow>
          let (por, out1) = read_option vm ''porfile'' ''POR file-path is: '' (bo_PORFilepath bo);
              (xapian, out2) = read_option vm ''xapiandb'' ''Xapian database filepath is: '' (bo_XapianDBFilepath bo);
              (db_type, out3) = read_option vm ''sqldbtype'' ''SQL database type is: '' (bo_SQLDBTypeString bo);
              (conn, out4) = read_option vm ''sqldbconx'' ''SQL database connection string is: '' (bo_SQLDBConnectionString bo);
              (log, out5) = read_option vm ''log'' ''Log filename is: '' (bo_LogFilename bo)
          in (0, \<lparr>bo_PORFilepath = por, bo_XapianDBFilepath = xapian, bo_SQLDBTypeString = db_type,
                  bo_SQLDBConnectionString = conn, bo_LogFilename = log\<rparr>, out1 @ out2 @ out3 @ out4 @ out5))"

definition new_batch_options :: batch_options where
  "new_batch_options = \<lparr>bo_PORFilepath = [], bo_XapianDBFilepath = [], bo_SQLDBTypeString = [],
     bo_SQLDBConnectionString = [], bo_LogFilename = []\<rparr>"

text \<open>The program: its status or the exception that ends it, its output, and the files.\<close>

definition indexer_main ::
    "package_info \<Rightarrow> ('fs, 'sql, 'doc, 'gen, 'db) index_environment \<Rightarrow> variables_map \<Rightarrow> 'fs \<Rightarrow> 'sql \<Rightarrow>
     int outcome \<times> string \<times> 'fs" where
  "indexer_main pk ie vm fs sql =
     (let (lOptionParserStatus, bo, out) = indexer_readConfiguration pk vm new_batch_options
      in if lOptionParserStatus = K_OPENTREP_EARLY_RETURN_STATUS then (Inr 0, out, fs)
         else
           let out = out @ ''Creating the Xapian index/database may take a few minutes '' @
                 ''on some architectures (and a few seconds on fastest ones)...'' @ endl
           in case DBType_of_string (bo_SQLDBTypeString bo) of
                Inl e \<Rightarrow> (Inl e, out, fs)
              | Inr lDBType \<Rightarrow>
                  (case service_buildSearchIndex ie
                      (service_init (bo_PORFilepath bo) (bo_XapianDBFilepath bo) lDBType (bo_SQLDBConnectionString bo)) fs sql of
                     (Inl e, fs) \<Rightarrow> (Inl e, out, fs)
                   | (Inr (lNbOfEntries, sql), fs) \<Rightarrow>
                       (Inr 0, out @ show_nat (unat lNbOfEntries) @ '' entries have been processed'' @ endl, fs)))"

section \<open>The store of the index\<close>

text \<open>
  What Xapian documents of its databases: one that is created is empty; a document that is added is the last of
  the database; the spelling dictionary is apart; and the files of a path hold the documents of the last
  database that was created or committed there.
\<close>

locale index_store =
  fixes ops :: "('doc, 'gen, 'db) xapian_ops" and idx :: "('fs, 'db) xapian_files"
    and documents :: "'db \<Rightarrow> 'doc list" and stored :: "string \<Rightarrow> 'fs \<Rightarrow> 'doc list option"
  assumes created: "xf_create idx path fs = (Inr db, fs') \<Longrightarrow> documents db = [] \<and> stored path fs' = Some []"
    and begun: "documents (xf_begin idx db) = documents db"
    and spelled: "x_add_spelling ops s db = Inr db' \<Longrightarrow> documents db' = documents db"
    and added: "x_add_document ops d db = Inr (n, db') \<Longrightarrow> documents db' = documents db @ [d]"
    and committed: "xf_commit idx path db fs = (None, fs') \<Longrightarrow> stored path fs' = Some (documents db)"

text \<open>The document of a location.\<close>

definition place_document ::
    "('doc, 'gen, 'db) xapian_ops \<Rightarrow> tokeniser \<Rightarrow> (string \<Rightarrow> string) \<Rightarrow> Location \<Rightarrow> 'doc outcome" where
  "place_document ops tkz normalise l =
     bindE (buildIndexSets tkz normalise (new_Place l)) (\<lambda>p.
       Inr (x_document ops (fold (\<lambda>(t, n). x_index_text ops t n) (index_calls p)
         (x_generator ops (x_set_data ops (loc_rawDataString l) (x_new_document ops))))))"

definition relevant :: "Location list \<Rightarrow> Location list" where
  "relevant ls = filter (\<lambda>l. loc_commonName l \<noteq> ''NotAvailable'') ls"

context index_store
begin

lemma spellings: "foldE (x_add_spelling ops) ss db = Inr db' \<Longrightarrow> documents db' = documents db"
  by (erule foldE_invariant [where P="\<lambda>d. documents d = documents db"]) (auto dest: spelled)

lemma added_place:
  assumes "addDocumentToIndex ops tkz normalise (new_Place l) db = Inr (p, db')"
  shows "\<exists>d. place_document ops tkz normalise l = Inr d \<and> documents db' = documents db @ [d]"
proof -
  let ?doc = "x_set_data ops (loc_rawDataString l) (x_new_document ops)"
  obtain p' where p': "buildIndexSets tkz normalise (new_Place l) = Inr p'"
    using assms by (auto simp: addDocumentToIndex_def Let_def bindE_Inr_iff)
  obtain db1 n where db1: "foldE (x_add_spelling ops) (pl_spellingSet p') db = Inr db1"
    and n: "x_add_document ops (x_document ops (fold (\<lambda>(t, n). x_index_text ops t n) (index_calls p') (x_generator ops ?doc))) db1 =
      Inr (n, db')"
    using assms by (auto simp: addDocumentToIndex_def Let_def p' addToXapian_calls bindE_Inr_iff new_Place_simps)
  show ?thesis
    using spellings [OF db1] added [OF n] by (simp add: place_document_def p')
qed

lemma indexed_lines:
  assumes "foldE (index_line ops tkz normalise parse ins) lines (n, db, sql) = Inr (m, db', sql')"
  shows "\<exists>ls docs. mapE parse lines = Inr ls \<and> mapE (place_document ops tkz normalise) (relevant ls) = Inr docs \<and>
    documents db' = documents db @ docs \<and> m = n + word_of_nat (length docs)"
  using assms
proof (induction lines arbitrary: n db sql)
  case Nil
  then show ?case by (simp add: relevant_def)
next
  case (Cons line lines)
  from Cons.prems obtain n1 db1 sql1 where one: "index_line ops tkz normalise parse ins line (n, db, sql) = Inr (n1, db1, sql1)"
    and rest: "foldE (index_line ops tkz normalise parse ins) lines (n1, db1, sql1) = Inr (m, db', sql')"
    by (auto simp: bindE_Inr_iff)
  from Cons.IH [OF rest] obtain ls docs where IH: "mapE parse lines = Inr ls"
    "mapE (place_document ops tkz normalise) (relevant ls) = Inr docs"
    "documents db' = documents db1 @ docs" "m = n1 + word_of_nat (length docs)" by blast
  from one obtain l where l: "parse line = Inr l" by (auto simp: index_line_def bindE_Inr_iff)
  show ?case
  proof (cases "loc_commonName l = ''NotAvailable''")
    case True
    then have "n1 = n" "db1 = db" using one l by (simp_all add: index_line_def)
    then show ?thesis using True IH l by (auto simp: relevant_def)
  next
    case False
    then obtain p where p: "addDocumentToIndex ops tkz normalise (new_Place l) db = Inr (p, db1)" and n1: "n1 = n + 1"
      using one l by (auto simp: index_line_def bindE_Inr_iff)
    from added_place [OF p] obtain d where "place_document ops tkz normalise l = Inr d" "documents db1 = documents db @ [d]" by blast
    then show ?thesis using False IH l n1 by (auto simp: relevant_def algebra_simps)
  qed
qed

lemma cleared:
  assumes "ie_index ie = idx" and "clear_index ie path fs = (Inr db, fs')"
  shows "documents db = [] \<and> stored path fs' = Some []"
  using assms created begun by (auto simp: clear_index_def split: prod.splits option.splits sum.splits if_splits)

lemma spellings_return:
  assumes "\<forall>s db. \<not> isl (x_add_spelling ops s db)"
  shows "\<exists>db'. foldE (x_add_spelling ops) ss db = Inr db'"
proof (induction ss arbitrary: db)
  case (Cons s ss)
  then show ?case using assms by (cases "x_add_spelling ops s db") (simp_all, metis sum.disc(1))
qed simp

lemma place_added:
  assumes "place_document ops tkz normalise l = Inr d"
    and "\<forall>s db. \<not> isl (x_add_spelling ops s db)" and "\<forall>d db. \<not> isl (x_add_document ops d db)"
  shows "\<exists>p db'. addDocumentToIndex ops tkz normalise (new_Place l) db = Inr (p, db')"
proof -
  obtain p where p: "buildIndexSets tkz normalise (new_Place l) = Inr p"
    using assms(1) by (auto simp: place_document_def bindE_Inr_iff)
  obtain db1 where db1: "foldE (x_add_spelling ops) (pl_spellingSet p) db = Inr db1"
    using spellings_return [OF assms(2)] by blast
  let ?d = "x_document ops (fold (\<lambda>(t, n). x_index_text ops t n) (index_calls p)
    (x_generator ops (x_set_data ops (loc_rawDataString l) (x_new_document ops))))"
  have "\<not> isl (x_add_document ops ?d db1)" using assms(3) by blast
  then obtain i db2 where "x_add_document ops ?d db1 = Inr (i, db2)"
    by (cases "x_add_document ops ?d db1") auto
  then show ?thesis using p db1 by (simp add: addDocumentToIndex_def Let_def addToXapian_calls new_Place_simps)
qed

lemma lines_indexed:
  assumes "mapE parse lines = Inr ls" and "mapE (place_document ops tkz normalise) (relevant ls) = Inr docs"
    and "\<forall>s db. \<not> isl (x_add_spelling ops s db)" and "\<forall>d db. \<not> isl (x_add_document ops d db)"
    and "\<forall>f p sql. ins = Some f \<longrightarrow> \<not> isl (f p sql)"
  shows "\<exists>m db' sql'. foldE (index_line ops tkz normalise parse ins) lines (n, db, sql) = Inr (m, db', sql')"
  using assms(1,2)
proof (induction lines arbitrary: ls docs n db sql)
  case Nil
  then show ?case by simp
next
  case (Cons line lines)
  then obtain l ls' where l: "parse line = Inr l" "mapE parse lines = Inr ls'" "ls = l # ls'" by (auto simp: bindE_Inr_iff)
  show ?case
  proof (cases "loc_commonName l = ''NotAvailable''")
    case True
    then have "mapE (place_document ops tkz normalise) (relevant ls') = Inr docs" using Cons.prems(2) l(3) by (simp add: relevant_def)
    with Cons.IH [OF l(2) this] show ?thesis using True l(1) by (simp add: index_line_def)
  next
    case False
    then obtain d docs' where docs: "place_document ops tkz normalise l = Inr d"
        "mapE (place_document ops tkz normalise) (relevant ls') = Inr docs'"
      using Cons.prems(2) l(3) by (auto simp: relevant_def bindE_Inr_iff)
    obtain q db2 where add: "addDocumentToIndex ops tkz normalise (new_Place l) db = Inr (q, db2)"
      using place_added [OF docs(1) assms(3,4)] by blast
    obtain sql1 where "(case ins of Some f \<Rightarrow> f q sql | None \<Rightarrow> Inr sql) = Inr sql1"
    proof (cases ins)
      case (Some f)
      then have "\<not> isl (f q sql)" using assms(5) by blast
      then show ?thesis using that Some by (cases "f q sql") simp_all
    qed (use that in simp)
    then have "index_line ops tkz normalise parse ins line (n, db, sql) = Inr (n + 1, db2, sql1)"
      using l(1) False add by (simp add: index_line_def)
    then show ?thesis using Cons.IH [OF l(2) docs(2)] by simp
  qed
qed

end

text \<open>A store in memory: the documents of every path.\<close>

type_synonym mem_doc = "string \<times> (string \<times> nat) list"
type_synonym mem_fs = "(string, mem_doc list) omap"

definition mem_ops :: "(mem_doc, mem_doc, mem_doc list) xapian_ops" where
  "mem_ops = \<lparr>x_new_document = ([], []), x_set_data = (\<lambda>s (_, ts). (s, ts)), x_generator = id,
     x_index_text = (\<lambda>t n (s, ts). (s, ts @ [(t, n)])), x_document = id, x_add_spelling = (\<lambda>_ db. Inr db),
     x_add_document = (\<lambda>d db. Inr (int (length db) + 1, db @ [d]))\<rparr>"

definition mem_files :: "(mem_fs, mem_doc list) xapian_files" where
  "mem_files = \<lparr>xf_create = (\<lambda>path fs. (Inr [], om_put path [] fs)), xf_begin = id,
     xf_commit = (\<lambda>path db fs. (None, om_put path db fs))\<rparr>"

interpretation mem: index_store mem_ops mem_files id "\<lambda>path fs. om_find fs path"
  by unfold_locales (auto simp: mem_ops_def mem_files_def)

text \<open>An environment in memory: the index of every path, and a POR file of two lines.\<close>

definition mem_environment :: "(string \<Rightarrow> bool) \<Rightarrow> (mem_fs, nat, mem_doc, mem_doc, mem_doc list) index_environment" where
  "mem_environment exists_por =
     \<lparr>ie_files = \<lparr>fs_remove_all = (\<lambda>path fs. (None, filter (\<lambda>(q, _). q \<noteq> path) fs)),
        fs_create_directories = (\<lambda>path fs. (None, om_put path [] fs)), fs_is_directory = (\<lambda>path fs. om_find fs path \<noteq> None)\<rparr>,
      ie_por = \<lparr>pf_exists = (\<lambda>path fs. exists_por path), pf_is_regular_file = (\<lambda>path fs. True),
        pf_extension = (\<lambda>_. ''.csv''), pf_lines = (\<lambda>_ _ _. [''header'', ''CDG''])\<rparr>,
      ie_xapian = mem_ops, ie_index = mem_files,
      ie_server = \<lparr>sv_is_directory = (\<lambda>_. True), sv_parent_path = id, sv_show_path = id, sv_open = (\<lambda>_ _. Inl [])\<rparr>,
      ie_tokeniser = split_tokens, ie_normalise = id, ie_parse = (\<lambda>s. Inr (if s = ''CDG'' then cdg else new_Location)),
      ie_insert = (\<lambda>_ _ n. Inr (n + 1))\<rparr>"

definition mem_context :: service_context where
  "mem_context = \<lparr>sc_porFilePath = ''por.csv'', sc_travelDBFilePath = ''/tmp/index'', sc_sqlDBType = NODB,
     sc_sqlDBConnectionString = []\<rparr>"

lemma mem_cleared:
  "clear_index (mem_environment b) (sc_travelDBFilePath mem_context) [(''/tmp/index'', [old])] = (Inr [], [(''/tmp/index'', [])])"
  by (simp add: clear_index_def mem_environment_def mem_context_def mem_files_def om_find_def)

lemma mem_session:
  "initSQLDBSession (ie_server (mem_environment b)) (sc_sqlDBType mem_context) (sc_sqlDBConnectionString mem_context) = Inr None"
  by (simp add: mem_context_def initSQLDBSession_def)

lemma cdg_document: "\<exists>d. place_document mem_ops split_tokens id cdg = Inr d"
proof -
  obtain p where "buildIndexSets split_tokens id (new_Place cdg) = Inr p"
    using char_separator.buildIndexSets_adds [of split_tokens "new_Place cdg" 12 id, OF boost.char_separator_axioms]
      cdg_weight cdg_short unfolding new_Place_simps by blast
  then show ?thesis by (simp add: place_document_def)
qed

lemma por_stream_fails:
  assumes "\<not> pf_exists por path fs \<or> \<not> pf_is_regular_file por path fs \<or> pf_extension por path \<notin> {''.bz2'', ''.gz'', ''.csv''}"
  shows "\<exists>e msg. por_stream por path fs = Inl e \<and> (e = FileNotFoundException msg \<or> e = FileExtensionUnknownException msg)"
  using assms by (cases "pf_exists por path fs \<and> pf_is_regular_file por path fs") (simp_all add: por_stream_def PORFileHelper_init_def Let_def)

section \<open>Properties\<close>

text \<open>C13: Rebuilding the index from a readable file replaces it: whatever the files held before, the directory of the index
  holds in the end one document for each relevant line, in the order of the file, and the service returns their
  number.\<close>

theorem index_rebuilt:
  fixes ie :: "('fs, 'sql, 'doc, 'gen, 'db) index_environment"
  assumes "index_store (ie_xapian ie) (ie_index ie) documents stored"
    and "clear_index ie (sc_travelDBFilePath c) fs = (Inr db, fs1)"
    and "initSQLDBSession (ie_server ie) (sc_sqlDBType c) (sc_sqlDBConnectionString c) = Inr session"
    and "por_stream (ie_por ie) (sc_porFilePath c) fs1 = Inr lines"
    and "mapE (ie_parse ie) lines = Inr ls"
    and "mapE (place_document (ie_xapian ie) (ie_tokeniser ie) (ie_normalise ie)) (relevant ls) = Inr docs"
    and "\<forall>s d. \<not> isl (x_add_spelling (ie_xapian ie) s d)" and "\<forall>x d. \<not> isl (x_add_document (ie_xapian ie) x d)"
    and "\<forall>s p x. \<not> isl (ie_insert ie s p x)" and "\<forall>d. fst (xf_commit (ie_index ie) (sc_travelDBFilePath c) d fs1) = None"
  shows "\<exists>sql' fs'. service_buildSearchIndex ie (Some c) fs sql = (Inr (word_of_nat (length docs), sql'), fs') \<and>
    stored (sc_travelDBFilePath c) fs' = Some docs"
proof -
  let ?ins = "case session of None \<Rightarrow> None | Some s \<Rightarrow> Some (ie_insert ie s)"
  have "\<forall>f p x. ?ins = Some f \<longrightarrow> \<not> isl (f p x)" using assms(9) by (cases session) auto
  from index_store.lines_indexed [OF assms(1,5-8) this, of 0 db sql] obtain m db' sql' where
    run: "foldE (index_line (ie_xapian ie) (ie_tokeniser ie) (ie_normalise ie) (ie_parse ie) ?ins) lines (0, db, sql) =
      Inr (m, db', sql')" by blast
  from index_store.indexed_lines [OF assms(1) run] assms(5,6) have docs: "documents db' = documents db @ docs"
    "m = 0 + word_of_nat (length docs)" by auto
  have "documents db = []" using index_store.cleared [OF assms(1) refl assms(2)] by simp
  obtain fs' where commit: "xf_commit (ie_index ie) (sc_travelDBFilePath c) db' fs1 = (None, fs')"
    using assms(10) by (metis prod.collapse)
  have "stored (sc_travelDBFilePath c) fs' = Some docs"
    using index_store.committed [OF assms(1) commit] docs(1) \<open>documents db = []\<close> by simp
  moreover have "index_file ie (sc_porFilePath c) (sc_sqlDBType c) (sc_sqlDBConnectionString c) fs1 db sql =
      Inr (word_of_nat (length docs), db', sql')"
    unfolding index_file_def assms(3,4) bindE_simps buildSearchIndex_def default_Place_def loop_lines [OF clean_new_Place] run
    using docs(2) by simp
  ultimately show ?thesis
    by (simp add: service_buildSearchIndex_def with_context_def IndexBuilder_buildSearchIndex_def assms(2) commit)
qed

theorem index_rebuilt_witness:
  "\<exists>d sql' fs'. service_buildSearchIndex (mem_environment (\<lambda>_. True)) (Some mem_context) [(''/tmp/index'', [(''old'', [])])] 0 =
     (Inr (1, sql'), fs') \<and> om_find fs' ''/tmp/index'' = Some [d]"
proof -
  obtain d where d: "place_document mem_ops split_tokens id cdg = Inr d" using cdg_document by blast
  have names: "loc_commonName new_Location = ''NotAvailable''" "loc_commonName cdg \<noteq> ''NotAvailable''"
    by (simp_all add: cdg_def new_Location_def)
  let ?ie = "mem_environment (\<lambda>_. True)"
  have env: "index_store (ie_xapian ?ie) (ie_index ?ie) id (\<lambda>path fs. om_find fs path)"
    "por_stream (ie_por ?ie) (sc_porFilePath mem_context) fs1 = Inr [''header'', ''CDG'']"
    "mapE (ie_parse ?ie) [''header'', ''CDG''] = Inr [new_Location, cdg]"
    "mapE (place_document (ie_xapian ?ie) (ie_tokeniser ?ie) (ie_normalise ?ie)) (relevant [new_Location, cdg]) = Inr [d]"
    "\<forall>s d. \<not> isl (x_add_spelling (ie_xapian ?ie) s d)" "\<forall>x d. \<not> isl (x_add_document (ie_xapian ?ie) x d)"
    "\<forall>s p x. \<not> isl (ie_insert ?ie s p x)" "\<forall>d. fst (xf_commit (ie_index ?ie) path d fs1) = None" for fs1 path
    using mem.index_store_axioms d names
    by (simp_all add: mem_environment_def por_stream_def PORFileHelper_init_def getFileStreamRef_def relevant_def mem_ops_def mem_files_def)
  from index_rebuilt [OF env(1) mem_cleared mem_session env(2-8)]
  have "\<exists>sql' fs'. service_buildSearchIndex ?ie (Some mem_context) [(''/tmp/index'', [(''old'', [])])] 0 =
      (Inr (word_of_nat (length [d]), sql'), fs') \<and> om_find fs' (sc_travelDBFilePath mem_context) = Some [d]"
    by blast
  then show ?thesis by (intro exI [of _ d]) (simp add: mem_context_def)
qed

text \<open>C33: A run that throws after the directory was cleared leaves an empty index: the directory is cleared before the POR
  file is looked for, so a missing file, or one of an unknown extension, costs the index that was there.\<close>

theorem index_lost:
  fixes ie :: "('fs, 'sql, 'doc, 'gen, 'db) index_environment"
  assumes "index_store (ie_xapian ie) (ie_index ie) documents stored"
    and "clear_index ie (sc_travelDBFilePath c) fs = (Inr db, fs1)"
    and "initSQLDBSession (ie_server ie) (sc_sqlDBType c) (sc_sqlDBConnectionString c) = Inr session"
    and "\<not> pf_exists (ie_por ie) (sc_porFilePath c) fs1 \<or> \<not> pf_is_regular_file (ie_por ie) (sc_porFilePath c) fs1 \<or>
      pf_extension (ie_por ie) (sc_porFilePath c) \<notin> {''.bz2'', ''.gz'', ''.csv''}"
  shows "\<exists>e fs'. service_buildSearchIndex ie (Some c) fs sql = (Inl e, fs') \<and>
    (\<exists>msg. e = FileNotFoundException msg \<or> e = FileExtensionUnknownException msg) \<and>
    stored (sc_travelDBFilePath c) fs' = Some []"
proof -
  obtain e where "por_stream (ie_por ie) (sc_porFilePath c) fs1 = Inl e"
    and "\<exists>msg. e = FileNotFoundException msg \<or> e = FileExtensionUnknownException msg"
    using por_stream_fails [OF assms(4)] by blast
  then show ?thesis
    using index_store.cleared [OF assms(1) refl assms(2)]
    by (simp add: service_buildSearchIndex_def with_context_def IndexBuilder_buildSearchIndex_def assms(2)
      index_file_def assms(3))
qed

theorem index_lost_witness:
  "\<exists>e fs'. service_buildSearchIndex (mem_environment (\<lambda>_. False)) (Some mem_context) [(''/tmp/index'', [(''old'', [])])] 0 =
     (Inl e, fs') \<and> om_find fs' ''/tmp/index'' = Some []"
proof -
  let ?ie = "mem_environment (\<lambda>_. False)"
  have env: "index_store (ie_xapian ?ie) (ie_index ?ie) id (\<lambda>path fs. om_find fs path)"
    "\<not> pf_exists (ie_por ?ie) (sc_porFilePath mem_context) fs1" for fs1
    using mem.index_store_axioms by (auto simp: mem_environment_def)
  have "sc_travelDBFilePath mem_context = ''/tmp/index''" by (simp add: mem_context_def)
  moreover have "\<exists>e fs'. service_buildSearchIndex ?ie (Some mem_context) [(''/tmp/index'', [(''old'', [])])] 0 = (Inl e, fs') \<and>
      (\<exists>msg. e = FileNotFoundException msg \<or> e = FileExtensionUnknownException msg) \<and>
      om_find fs' (sc_travelDBFilePath mem_context) = Some []"
    by (rule index_lost [OF env(1) mem_cleared mem_session]) (use env(2) in blast)
  ultimately show ?thesis by auto
qed

end
