(* ===== verification/Matches.thy ===== *)
theory Matches
  imports Exchange
begin

text \<open>
  Locations with the lists of their extra and alternate matches, and their export as JSON:
  \<^verbatim>\<open>basic/Location.cpp\<close> (displays), \<^verbatim>\<open>Location.hpp\<close> (the two lists) and \<^verbatim>\<open>bom/BomJSONExport.cpp\<close>.

  A matched location is a location with two lists of matched locations. The lists are filled from the places that
  are linked to a place (Links), and nothing in the library links any: the locations that the services return are matched ones
  with empty lists. The property trees of Boost are a
  parameter, a record of the operations that the code uses; the locale \<open>property_tree\<close> states what Boost documents of
  them, over the view of a tree as a string and a list of trees under their keys. Writing that tree as text is a call of Boost.
\<close>

section \<open>Matched locations\<close>

datatype MatchedLocation =
  Matched (m_location: Location) (m_extraLocationList: "MatchedLocation list")
    (m_alternateLocationList: "MatchedLocation list")

definition plain_match :: "Location \<Rightarrow> MatchedLocation" where
  "plain_match l = Matched l [] []"

definition addExtraLocation :: "MatchedLocation \<Rightarrow> MatchedLocation \<Rightarrow> MatchedLocation" where
  "addExtraLocation iExtraLocation m =
     Matched (m_location m) (m_extraLocationList m @ [iExtraLocation]) (m_alternateLocationList m)"

definition addAlternateLocation :: "MatchedLocation \<Rightarrow> MatchedLocation \<Rightarrow> MatchedLocation" where
  "addAlternateLocation iAlternateLocation m =
     Matched (m_location m) (m_extraLocationList m) (m_alternateLocationList m @ [iAlternateLocation])"

section \<open>Displays\<close>

definition toShortString :: "stream_output \<Rightarrow> MatchedLocation \<Rightarrow> string outcome" where
  "toShortString out m =
     bindE (toBasicString out (m_location m)) (\<lambda>lBasic. Inr (lBasic @
       (if m_extraLocationList m \<noteq> [] then
          '' with '' @ show_nat (length (m_extraLocationList m)) @ '' extra match(es)'' else []) @
       (if m_alternateLocationList m \<noteq> [] then
          '' with '' @ show_nat (length (m_alternateLocationList m)) @ '' alternate match(es)'' else [])))"

definition toSingleLocationString :: "stream_output \<Rightarrow> Location \<Rightarrow> string outcome" where
  "toSingleLocationString out l = toBasicString out l"

text \<open>The loop over a list of matches, with its counter of 16 bits.\<close>

fun matches_string :: "stream_output \<Rightarrow> MatchedLocation list \<Rightarrow> 16 word \<Rightarrow> string outcome" where
  "matches_string out [] idx = Inr []"
| "matches_string out (m # ms) idx =
     bindE (toShortString out m) (\<lambda>s.
     bindE (matches_string out ms (idx + 1)) (\<lambda>rest. Inr ((if idx \<noteq> 0 then ''. '' else []) @ s @ rest)))"

definition MatchedLocation_toString :: "stream_output \<Rightarrow> MatchedLocation \<Rightarrow> string outcome" where
  "MatchedLocation_toString out m =
     bindE (toSingleLocationString out (m_location m)) (\<lambda>lSingle.
     bindE (if m_extraLocationList m \<noteq> [] then
              bindE (matches_string out (m_extraLocationList m) 0) (\<lambda>s. Inr (''; Extra matches: {'' @ s @ ''}''))
            else Inr []) (\<lambda>lExtra.
     bindE (if m_alternateLocationList m \<noteq> [] then
              bindE (matches_string out (m_alternateLocationList m) 0) (\<lambda>s. Inr (''; Alternate matches: {'' @ s @ ''}''))
            else Inr []) (\<lambda>lAlternate.
       Inr (lSingle @ ''; name matrix {'' @ NameMatrix_describe (loc_nameMatrix (m_location m)) @ ''}'' @ lExtra @ lAlternate))))"

lemma toString_plain: "MatchedLocation_toString out (plain_match l) = Location_toString out l"
  by (simp add: MatchedLocation_toString_def plain_match_def Location_toString_def toSingleLocationString_def)

section \<open>Protocol Buffers\<close>

text \<open>The message of a matched location holds those of its extra and alternate matches.\<close>

datatype pb_match = Pb_match (pb_match_place: pb_place) (pb_extra_place_list: "pb_match list") (pb_alt_place_list: "pb_match list")

fun exportMatchedLocation :: "(date \<Rightarrow> string) \<Rightarrow> MatchedLocation \<Rightarrow> pb_match outcome" where
  "exportMatchedLocation iso_date (Matched l lExtraLocationList lAltLocationList) =
     bindE (exportLocation iso_date l pb_new_place) (\<lambda>ioPlace.
     bindE (mapE (exportMatchedLocation iso_date) lExtraLocationList) (\<lambda>lExtraPlaceList.
     bindE (mapE (exportMatchedLocation iso_date) lAltLocationList) (\<lambda>lAltPlaceList.
       Inr (Pb_match ioPlace lExtraPlaceList lAltPlaceList))))"

record pb_query_answer =
  pb_status :: bool
  pb_places :: "pb_match list"
  pb_unmatched_words :: "string list"

definition exportMatchedLocationList :: "(date \<Rightarrow> string) \<Rightarrow> MatchedLocation list \<Rightarrow> string list \<Rightarrow> pb_query_answer outcome" where
  "exportMatchedLocationList iso_date iLocationList iNonMatchedWordList =
     bindE (mapE (exportMatchedLocation iso_date) iLocationList) (\<lambda>lPlaceList.
       Inr \<lparr>pb_status = True, pb_places = lPlaceList, pb_unmatched_words = iNonMatchedWordList\<rparr>)"

section \<open>Property trees\<close>

text \<open>
  A property tree keeps a string and its children, each under a key. Putting a number stores its text: that of an integer
  is its decimal digits, and the one of a floating-point number, which the translator of Boost writes, is a parameter
  of the operations.
\<close>

record 't ptree_ops =
  pt_empty :: 't
  pt_double :: "dbl \<Rightarrow> string"
  pt_put :: "string \<Rightarrow> string \<Rightarrow> 't \<Rightarrow> 't"
  pt_add_child :: "string \<Rightarrow> 't \<Rightarrow> 't \<Rightarrow> 't"
  pt_push_back :: "string \<Rightarrow> 't \<Rightarrow> 't \<Rightarrow> 't"

text \<open>The names in all the languages, each a tree with one child; empty names are left out.\<close>

definition json_names :: "'t ptree_ops \<Rightarrow> NameMatrix \<Rightarrow> 't" where
  "json_names pt lNameMatrix =
     fold (\<lambda>(_, lNames). fold (\<lambda>lName ptLocationNameList.
         if lName \<noteq> [] then pt_push_back pt [] (pt_put pt ''name'' lName (pt_empty pt)) ptLocationNameList
         else ptLocationNameList) (nm_nameList lNames))
       (om_entries lNameMatrix) (pt_empty pt)"

definition jsonExportLocation :: "'t ptree_ops \<Rightarrow> 't \<Rightarrow> Location \<Rightarrow> 't" where
  "jsonExportLocation pt ioPTLocation l =
     (let t = ioPTLocation;
          t = pt_put pt ''iata_code'' (lk_iataCode (loc_key l)) t;
          t = pt_put pt ''icao_code'' (loc_icaoCode l) t;
          t = pt_put pt ''geonames_id'' (show_int (lk_geonamesID (loc_key l))) t;
          t = pt_put pt ''faa_code'' (loc_faaCode l) t;
          t = pt_put pt ''city_code'' (loc_cityCode l) t;
          t = pt_put pt ''city_name_utf'' (loc_cityUtfName l) t;
          t = pt_put pt ''city_name_ascii'' (loc_cityAsciiName l) t;
          t = pt_put pt ''state_code'' (loc_stateCode l) t;
          t = pt_put pt ''country_code'' (loc_countryCode l) t;
          t = pt_put pt ''country_name'' (loc_countryName l) t;
          t = pt_put pt ''continent_name'' (loc_continentName l) t;
          t = pt_put pt ''adm1_code'' (loc_admin1Code l) t;
          t = pt_put pt ''adm1_name_utf'' (loc_admin1UtfName l) t;
          t = pt_put pt ''adm1_name_ascii'' (loc_admin1AsciiName l) t;
          t = pt_put pt ''adm2_code'' (loc_admin2Code l) t;
          t = pt_put pt ''adm2_name_utf'' (loc_admin2UtfName l) t;
          t = pt_put pt ''adm2_name_ascii'' (loc_admin2AsciiName l) t;
          t = pt_put pt ''adm3_code'' (loc_admin3Code l) t;
          t = pt_put pt ''adm4_code'' (loc_admin4Code l) t;
          t = pt_put pt ''tvl_por_list'' (loc_tvlPORListString l) t;
          t = pt_put pt ''time_zone'' (loc_timeZone l) t;
          t = pt_put pt ''lat'' (pt_double pt (loc_latitude l)) t;
          t = pt_put pt ''lon'' (pt_double pt (loc_longitude l)) t;
          t = pt_put pt ''page_rank'' (pt_double pt (loc_pageRank l)) t;
          t = pt_put pt ''wiki_link'' (loc_wikiLink l) t;
          t = pt_put pt ''original_keywords'' (loc_originalKeywords l) t;
          t = pt_put pt ''corrected_keywords'' (loc_correctedKeywords l) t;
          t = pt_put pt ''matching_percentage'' (pt_double pt (loc_percentage l)) t;
          t = pt_put pt ''edit_distance'' (show_int (uint (loc_editDistance l))) t;
          t = pt_put pt ''allowable_distance'' (show_int (uint (loc_allowableEditDistance l))) t
      in pt_add_child pt ''names'' (json_names pt (loc_nameMatrix l)) t)"

text \<open>The list of the matches of one kind, under its key, when there are some.\<close>

definition json_matches :: "'t ptree_ops \<Rightarrow> string \<Rightarrow> MatchedLocation list \<Rightarrow> 't \<Rightarrow> 't" where
  "json_matches pt key ms lPTLocation =
     (if ms \<noteq> [] then
        pt_add_child pt key (fold (\<lambda>m lPTList.
            pt_push_back pt [] (jsonExportLocation pt (pt_empty pt) (m_location m)) lPTList) ms (pt_empty pt)) lPTLocation
      else lPTLocation)"

text \<open>The tree that is written as JSON: the writing itself is a call of Boost.\<close>

definition jsonExportLocationList :: "'t ptree_ops \<Rightarrow> MatchedLocation list \<Rightarrow> 't" where
  "jsonExportLocationList pt iLocationList =
     (let lPTLocationList = fold (\<lambda>m lPTLocationList.
            let lPTLocation = jsonExportLocation pt (pt_empty pt) (m_location m);
                lPTLocation = json_matches pt ''extras'' (m_extraLocationList m) lPTLocation;
                lPTLocation = json_matches pt ''alternates'' (m_alternateLocationList m) lPTLocation
            in pt_push_back pt [] lPTLocation lPTLocationList) iLocationList (pt_empty pt)
      in pt_add_child pt ''locations'' lPTLocationList (pt_empty pt))"

section \<open>The document of a list of locations\<close>

text \<open>
  What Boost documents of its property trees: a tree is a string and a list of trees, each under a key, in order. Putting a
  string under a key that is not there, and whose name is a path of one step (it is not empty and has no dot), adds a
  tree with that string and no child after the children; adding a child under such a key, or pushing one back, adds it
  after them. A tree has no type: numbers are strings there, and so they are in the JSON text that is written from it.
\<close>

datatype ptree = Ptree (tree_data: string) (tree_children: "(string \<times> ptree) list")

abbreviation json_leaf :: "string \<Rightarrow> ptree" where
  "json_leaf v \<equiv> Ptree v []"

abbreviation json_node :: "(string \<times> ptree) list \<Rightarrow> ptree" where
  "json_node cs \<equiv> Ptree [] cs"

locale property_tree =
  fixes pt :: "'t ptree_ops" and view :: "'t \<Rightarrow> ptree"
  assumes view_empty: "view (pt_empty pt) = Ptree [] []"
    and view_put: "view t = Ptree d cs \<Longrightarrow> k \<notin> fst ` set cs \<Longrightarrow> k \<noteq> [] \<Longrightarrow> CHR ''.'' \<notin> set k \<Longrightarrow>
      view (pt_put pt k v t) = Ptree d (cs @ [(k, Ptree v [])])"
    and view_add_child: "view t = Ptree d cs \<Longrightarrow> k \<noteq> [] \<Longrightarrow> CHR ''.'' \<notin> set k \<Longrightarrow>
      view (pt_add_child pt k x t) = Ptree d (cs @ [(k, view x)])"
    and view_push_back: "view t = Ptree d cs \<Longrightarrow> view (pt_push_back pt k x t) = Ptree d (cs @ [(k, view x)])"

text \<open>What is to be exported: the attributes of a location, its names, and its matches.\<close>

definition names_list :: "NameMatrix \<Rightarrow> string list" where
  "names_list m = filter (\<lambda>n. n \<noteq> []) (concat (map (\<lambda>(_, n). nm_nameList n) (om_entries m)))"

definition json_attributes :: "(dbl \<Rightarrow> string) \<Rightarrow> Location \<Rightarrow> (string \<times> string) list" where
  "json_attributes double_text l =
     [(''iata_code'', lk_iataCode (loc_key l)), (''icao_code'', loc_icaoCode l),
      (''geonames_id'', show_int (lk_geonamesID (loc_key l))), (''faa_code'', loc_faaCode l),
      (''city_code'', loc_cityCode l), (''city_name_utf'', loc_cityUtfName l),
      (''city_name_ascii'', loc_cityAsciiName l), (''state_code'', loc_stateCode l),
      (''country_code'', loc_countryCode l), (''country_name'', loc_countryName l),
      (''continent_name'', loc_continentName l), (''adm1_code'', loc_admin1Code l),
      (''adm1_name_utf'', loc_admin1UtfName l), (''adm1_name_ascii'', loc_admin1AsciiName l),
      (''adm2_code'', loc_admin2Code l), (''adm2_name_utf'', loc_admin2UtfName l),
      (''adm2_name_ascii'', loc_admin2AsciiName l), (''adm3_code'', loc_admin3Code l),
      (''adm4_code'', loc_admin4Code l), (''tvl_por_list'', loc_tvlPORListString l),
      (''time_zone'', loc_timeZone l), (''lat'', double_text (loc_latitude l)),
      (''lon'', double_text (loc_longitude l)), (''page_rank'', double_text (loc_pageRank l)),
      (''wiki_link'', loc_wikiLink l), (''original_keywords'', loc_originalKeywords l),
      (''corrected_keywords'', loc_correctedKeywords l), (''matching_percentage'', double_text (loc_percentage l)),
      (''edit_distance'', show_int (uint (loc_editDistance l))),
      (''allowable_distance'', show_int (uint (loc_allowableEditDistance l)))]"

definition json_list :: "ptree list \<Rightarrow> ptree" where
  "json_list js = json_node (map (Pair []) js)"

definition json_location :: "(dbl \<Rightarrow> string) \<Rightarrow> Location \<Rightarrow> (string \<times> ptree) list" where
  "json_location double_text l = map (\<lambda>(k, v). (k, json_leaf v)) (json_attributes double_text l) @
     [(''names'', json_list (map (\<lambda>n. json_node [(''name'', json_leaf n)]) (names_list (loc_nameMatrix l))))]"

definition json_key :: "(dbl \<Rightarrow> string) \<Rightarrow> string \<Rightarrow> MatchedLocation list \<Rightarrow> (string \<times> ptree) list" where
  "json_key double_text key ms =
     (if ms = [] then [] else [(key, json_list (map (\<lambda>m. json_node (json_location double_text (m_location m))) ms))])"

definition json_document :: "(dbl \<Rightarrow> string) \<Rightarrow> MatchedLocation list \<Rightarrow> ptree" where
  "json_document double_text ms = json_node [(''locations'', json_list (map (\<lambda>m. json_node (json_location double_text (m_location m) @
     json_key double_text ''extras'' (m_extraLocationList m) @
     json_key double_text ''alternates'' (m_alternateLocationList m))) ms))]"

context property_tree
begin

lemma view_pushes:
  "view t = json_node cs \<Longrightarrow>
   view (fold (\<lambda>x. pt_push_back pt [] (f x)) xs t) = json_node (cs @ map (\<lambda>x. ([], view (f x))) xs)"
  by (induction xs arbitrary: t cs) (simp_all add: view_push_back)

lemma view_name_list:
  "view t = json_node cs \<Longrightarrow>
   view (fold (\<lambda>n t. if n \<noteq> [] then pt_push_back pt [] (pt_put pt ''name'' n (pt_empty pt)) t else t) ns t) =
     json_node (cs @ map (\<lambda>n. ([], json_node [(''name'', json_leaf n)])) (filter (\<lambda>n. n \<noteq> []) ns))"
proof (induction ns arbitrary: t cs)
  case Nil
  then show ?case by simp
next
  case (Cons n ns)
  have "view (pt_put pt ''name'' n (pt_empty pt)) = json_node [(''name'', json_leaf n)]"
    using view_put [OF view_empty, of "''name''"] by simp
  then have "view (pt_push_back pt [] (pt_put pt ''name'' n (pt_empty pt)) t) =
      json_node (cs @ [([], json_node [(''name'', json_leaf n)])])"
    using view_push_back [OF Cons.prems] by simp
  from Cons.IH [OF this] Cons.IH [OF Cons.prems] show ?case by simp
qed

lemma view_names:
  "view (json_names pt m) = json_list (map (\<lambda>n. json_node [(''name'', json_leaf n)]) (names_list m))"
proof -
  have "view (fold (\<lambda>(_, lNames). fold (\<lambda>n t. if n \<noteq> [] then
          pt_push_back pt [] (pt_put pt ''name'' n (pt_empty pt)) t else t) (nm_nameList lNames)) es t) =
      json_node (cs @ map (\<lambda>n. ([], json_node [(''name'', json_leaf n)]))
        (filter (\<lambda>n. n \<noteq> []) (concat (map (\<lambda>(_, n). nm_nameList n) es))))"
    if "view t = json_node cs" for es t cs
    using that
  proof (induction es arbitrary: t cs)
    case (Cons e es)
    show ?case using Cons.IH [OF view_name_list [OF Cons.prems]] by (simp add: case_prod_beta')
  qed simp
  from this [OF view_empty] show ?thesis
    by (simp add: json_names_def names_list_def json_list_def comp_def)
qed

lemma view_attributes:
  "view t = json_node cs \<Longrightarrow> distinct (map fst kvs) \<Longrightarrow> fst ` set cs \<inter> fst ` set kvs = {} \<Longrightarrow>
   \<forall>k \<in> fst ` set kvs. k \<noteq> [] \<and> CHR ''.'' \<notin> set k \<Longrightarrow>
   view (fold (\<lambda>(k, v). pt_put pt k v) kvs t) = json_node (cs @ map (\<lambda>(k, v). (k, json_leaf v)) kvs)"
proof (induction kvs arbitrary: t cs)
  case (Cons kv kvs)
  obtain k v where kv: "kv = (k, v)" by (cases kv)
  have "view (pt_put pt k v t) = json_node (cs @ [(k, json_leaf v)])"
    by (rule view_put) (use Cons.prems kv in auto)
  from Cons.IH [OF this] Cons.prems show ?case by (auto simp: kv)
qed simp

lemma view_location:
  assumes "view t = json_node []"
  shows "view (jsonExportLocation pt t l) = json_node (json_location (pt_double pt) l)"
proof -
  have export: "jsonExportLocation pt t l = pt_add_child pt ''names'' (json_names pt (loc_nameMatrix l))
      (fold (\<lambda>(k, v). pt_put pt k v) (json_attributes (pt_double pt) l) t)"
    by (simp only: jsonExportLocation_def json_attributes_def Let_def fold_simps prod.case)
  have "view (fold (\<lambda>(k, v). pt_put pt k v) (json_attributes (pt_double pt) l) t) =
      json_node ([] @ map (\<lambda>(k, v). (k, json_leaf v)) (json_attributes (pt_double pt) l))"
    by (rule view_attributes [OF assms]) (simp_all add: json_attributes_def)
  then show ?thesis
    unfolding export by (subst view_add_child) (simp_all add: view_names json_location_def)
qed

lemma view_matches:
  assumes "view t = json_node cs" and "key \<noteq> []" and "CHR ''.'' \<notin> set key"
  shows "view (json_matches pt key ms t) = json_node (cs @ json_key (pt_double pt) key ms)"
proof (cases "ms = []")
  case True
  then show ?thesis using assms by (simp add: json_matches_def json_key_def)
next
  case False
  have "view (fold (\<lambda>m. pt_push_back pt [] (jsonExportLocation pt (pt_empty pt) (m_location m))) ms (pt_empty pt)) =
      json_list (map (\<lambda>m. json_node (json_location (pt_double pt) (m_location m))) ms)"
    using view_pushes [OF view_empty, of "\<lambda>m. jsonExportLocation pt (pt_empty pt) (m_location m)" ms]
    by (simp add: view_location [OF view_empty] json_list_def comp_def)
  then show ?thesis
    using False view_add_child [OF assms] by (simp add: json_matches_def json_key_def)
qed

lemma view_document: "view (jsonExportLocationList pt ms) = json_document (pt_double pt) ms"
proof -
  let ?tree = "\<lambda>m. json_matches pt ''alternates'' (m_alternateLocationList m)
    (json_matches pt ''extras'' (m_extraLocationList m) (jsonExportLocation pt (pt_empty pt) (m_location m)))"
  have "view (?tree m) = json_node ((json_location (pt_double pt) (m_location m) @ json_key (pt_double pt) ''extras'' (m_extraLocationList m)) @
      json_key (pt_double pt) ''alternates'' (m_alternateLocationList m))" for m
    by (intro view_matches view_location view_empty) simp_all
  then have "view (fold (\<lambda>m. pt_push_back pt [] (?tree m)) ms (pt_empty pt)) = json_list (map (\<lambda>m. json_node
      (json_location (pt_double pt) (m_location m) @ json_key (pt_double pt) ''extras'' (m_extraLocationList m) @
       json_key (pt_double pt) ''alternates'' (m_alternateLocationList m))) ms)"
    using view_pushes [OF view_empty, of ?tree ms] by (simp add: json_list_def comp_def)
  then show ?thesis
    unfolding jsonExportLocationList_def Let_def json_document_def
    by (subst view_add_child [OF view_empty]) simp_all
qed

end

text \<open>
  The trees themselves: the operations of Boost on them. A path is split at its dots; its missing steps are created, and
  the first child under a key is the one it names.
\<close>

fun split_path :: "string \<Rightarrow> string list" where
  "split_path [] = [[]]"
| "split_path (c # s) =
     (if c = CHR ''.'' then [] # split_path s else case split_path s of p # ps \<Rightarrow> (c # p) # ps | [] \<Rightarrow> [[c]])"

fun first_child :: "string \<Rightarrow> (ptree \<Rightarrow> ptree) \<Rightarrow> (string \<times> ptree) list \<Rightarrow> (string \<times> ptree) list" where
  "first_child k f [] = [(k, f (Ptree [] []))]"
| "first_child k f ((a, x) # cs) = (if a = k then (a, f x) # cs else (a, x) # first_child k f cs)"

fun at_path :: "string list \<Rightarrow> (ptree \<Rightarrow> ptree) \<Rightarrow> ptree \<Rightarrow> ptree" where
  "at_path [] f t = f t"
| "at_path (k # ks) f t = Ptree (tree_data t) (first_child k (at_path ks f) (tree_children t))"

definition tree_path :: "string \<Rightarrow> string list" where
  "tree_path k = (if k = [] then [] else split_path k)"

definition push_tree :: "string \<Rightarrow> ptree \<Rightarrow> ptree \<Rightarrow> ptree" where
  "push_tree k x t = Ptree (tree_data t) (tree_children t @ [(k, x)])"

definition tree_ops :: "(dbl \<Rightarrow> string) \<Rightarrow> ptree ptree_ops" where
  "tree_ops double_text = \<lparr>pt_empty = Ptree [] [], pt_double = double_text,
     pt_put = (\<lambda>k v. at_path (tree_path k) (\<lambda>t. Ptree v (tree_children t))),
     pt_add_child = (\<lambda>k x. at_path (butlast (tree_path k)) (push_tree (last (tree_path k)) x)),
     pt_push_back = push_tree\<rparr>"

lemma tree_path_one: "k \<noteq> [] \<Longrightarrow> CHR ''.'' \<notin> set k \<Longrightarrow> tree_path k = [k]"
proof -
  have "split_path s = [s]" if "CHR ''.'' \<notin> set s" for s using that by (induction s) auto
  then show "k \<noteq> [] \<Longrightarrow> CHR ''.'' \<notin> set k \<Longrightarrow> tree_path k = [k]" by (simp add: tree_path_def)
qed

lemma first_child_new: "k \<notin> fst ` set cs \<Longrightarrow> first_child k f cs = cs @ [(k, f (Ptree [] []))]"
  by (induction k f cs rule: first_child.induct) auto

interpretation trees: property_tree "tree_ops double_text" id for double_text
  by unfold_locales (simp_all add: tree_ops_def tree_path_one first_child_new push_tree_def)

section \<open>Properties\<close>

text \<open>C27: For any property trees that keep to their documentation, the exported tree is the document of the list: under
  its only key, one object per location, in order, with its attributes under distinct keys, each of them a string (the
  numbers too, as their texts), the names of every language that are not empty, and the objects of its extra and alternate
  matches when it has some.\<close>

theorem json_exported:
  assumes "property_tree pt view"
  shows "view (jsonExportLocationList pt ms) = json_document (pt_double pt) ms \<and>
    (\<forall>l. distinct (map fst (json_location d l @ json_key d ''extras'' es @ json_key d ''alternates'' as)))"
proof
  show "view (jsonExportLocationList pt ms) = json_document (pt_double pt) ms"
    by (rule property_tree.view_document [OF assms])
  show "\<forall>l. distinct (map fst (json_location d l @ json_key d ''extras'' es @ json_key d ''alternates'' as))"
    by (auto simp: json_location_def json_attributes_def json_key_def)
qed

theorem json_exported_witness:
  "\<exists>cs. jsonExportLocationList (tree_ops (\<lambda>_. ''0'')) [Matched adelaide_location [plain_match new_Location] []] =
     json_node [(''locations'', json_node [([], json_node cs)])] \<and>
     map_of cs ''names'' = Some (json_node [([], json_node [(''name'', json_leaf ''Adelaide'')])]) \<and>
     map_of cs ''lat'' = Some (json_leaf ''0'') \<and> map_of cs ''allowable_distance'' = Some (json_leaf ''3'') \<and>
     (\<exists>es. map_of cs ''extras'' = Some (json_node es) \<and> length es = 1) \<and> map_of cs ''alternates'' = None"
proof -
  have "names_list (loc_nameMatrix adelaide_location) = [''Adelaide'']"
    by (simp add: names_list_def adelaide_location_def NameMatrix_addName_def Names_addName_def new_Names_def om_empty_def
      om_find_def om_entries_def)
  moreover have "show_int (uint (loc_allowableEditDistance adelaide_location)) = ''3''"
  proof -
    have "show_nat 3 = ''3''" by code_simp
    then show ?thesis by (simp add: adelaide_location_def show_int_def)
  qed
  ultimately show ?thesis
    using json_exported [OF trees.property_tree_axioms, of "\<lambda>_. ''0''"
      "[Matched adelaide_location [plain_match new_Location] []]" "\<lambda>_. ''0''" "[]" "[]"]
    by (simp add: json_document_def json_list_def json_key_def json_location_def json_attributes_def tree_ops_def)
qed

end
