(* ===== verification/Python.thy ===== *)
theory Python
  imports IndexRun Matches
begin

text \<open>
  The searcher that is exported to Python (\<^verbatim>\<open>python/pyopentrep.cpp\<close>): its state, the initialisation, the four use
  cases and the finalisation.

  The object holds a pointer on the services and one on the stream of the log: \<open>None\<close> when they are null. What the
  class itself writes in the log is kept; the debugging output of the library, which goes to the same file, is not. The
  use cases catch the exceptions, so that only a failed assertion, undefined behaviour or a loop without end escapes.
  The JSON writer of Boost, the serialisation of Protocol Buffers and the environment of the services, which depends on the
  files, are parameters.
\<close>

section \<open>The object and its environment\<close>

record searcher =
  ps_service :: "service_context option"
  ps_log :: "string option"

definition new_searcher :: searcher where
  "new_searcher = \<lparr>ps_service = None, ps_log = None\<rparr>"

record ('t, 'fs, 'sql, 'doc, 'gen, 'db) searcher_world =
  sw_env :: "'fs \<Rightarrow> environment"
  sw_index :: "('fs, 'sql, 'doc, 'gen, 'db) index_environment"
  sw_documents :: "'fs \<Rightarrow> string \<Rightarrow> string + xapian_index"
  sw_uniform :: "32 word \<Rightarrow> nat \<Rightarrow> nat"
  sw_out :: stream_output
  sw_ptree :: "'t ptree_ops"
  sw_write_json :: "'t \<Rightarrow> string + string"
  sw_serialise :: "pb_query_answer \<Rightarrow> string"
  sw_iso_date :: "date \<Rightarrow> string"
  sw_default_por :: string

text \<open>The catch clauses: what each writes in the log.\<close>

fun is_root_exception :: "trep_error \<Rightarrow> bool" where
  "is_root_exception AssertionFailure = False"
| "is_root_exception UndefinedBehaviour = False"
| "is_root_exception NonTermination = False"
| "is_root_exception BadDayOfMonth = False"
| "is_root_exception (XapianError _) = False"
| "is_root_exception (StdException _) = False"
| "is_root_exception _ = True"

definition caught :: "trep_error \<Rightarrow> bool" where
  "caught e \<longleftrightarrow> e \<noteq> AssertionFailure \<and> e \<noteq> UndefinedBehaviour \<and> e \<noteq> NonTermination"

definition error_text :: "(trep_error \<Rightarrow> string) \<Rightarrow> trep_error \<Rightarrow> string" where
  "error_text what e =
     (if is_root_exception e then ''OpenTrep error: '' @ what e @ endl
      else case e of XapianError _ \<Rightarrow> ''Unknown error'' @ endl | _ \<Rightarrow> ''Error: '' @ what e @ endl)"

definition invalid_log_text :: string where
  "invalid_log_text = ''The log filepath is not valid.'' @ endl"

definition not_initialised_text :: string where
  "not_initialised_text = ''The OpenTREP service has not been initialised, '' @
     ''i.e., the init() method has not been called '' @ ''correctly on the OpenTrepSearcher object. Please '' @
     ''check that all the parameters are not empty and '' @ ''point to actual files.''"

text \<open>
  The shape of the use cases: the checks of the two pointers, the first line of the log, and the \<^verbatim>\<open>try\<close> block, whose
  result is what it adds to the log, what its streams hold in the end, and the exception that ends it.
\<close>

definition use_case ::
    "(trep_error \<Rightarrow> string) \<Rightarrow> string \<Rightarrow> (service_context \<Rightarrow> string \<times> 'r \<times> trep_error option) \<Rightarrow> ('r \<Rightarrow> string outcome) \<Rightarrow>
     searcher \<Rightarrow> string outcome \<times> searcher" where
  "use_case what banner body answer s =
     (case ps_log s of
        None \<Rightarrow> (Inr invalid_log_text, s)
      | Some lLog \<Rightarrow>
          (case ps_service s of
             None \<Rightarrow> (Inr not_initialised_text, s\<lparr>ps_log := Some (lLog @ banner @ endl @ not_initialised_text)\<rparr>)
           | Some c \<Rightarrow>
               (case body c of
                  (added, r, None) \<Rightarrow> (answer r, s\<lparr>ps_log := Some (lLog @ banner @ endl @ added)\<rparr>)
                | (added, r, Some e) \<Rightarrow>
                    if caught e then (answer r, s\<lparr>ps_log := Some (lLog @ banner @ endl @ added @ error_text what e)\<rparr>)
                    else (Inl e, s\<lparr>ps_log := Some (lLog @ banner @ endl @ added)\<rparr>))))"

section \<open>Initialisation and finalisation\<close>

text \<open>The services without a POR file: they keep the default one.\<close>

definition service_init_default :: "string \<Rightarrow> string \<Rightarrow> EN_DBType \<Rightarrow> string \<Rightarrow> service_context option" where
  "service_init_default default_por iTravelDBFilePath iSQLDBType iSQLDBConnStr =
     service_init default_por iTravelDBFilePath iSQLDBType iSQLDBConnStr"

text \<open>The flag that is returned is cleared by the check of the directory only.\<close>

definition Python_init ::
    "('t, 'fs, 'sql, 'doc, 'gen, 'db) searcher_world \<Rightarrow> string \<Rightarrow> string \<Rightarrow> string \<Rightarrow> searcher \<times> 'fs \<Rightarrow> bool outcome \<times> searcher \<times> 'fs" where
  "Python_init w iTravelDBFilePath iSQLDBTypeStr iSQLDBConnStr = (\<lambda>(s, fs).
     if \<not> en_is_directory (sw_env w fs) iTravelDBFilePath then (Inr False, s, fs)
     else
       let lLog = ''Python wrapper initialisation'' @ endl
       in case DBType_of_string iSQLDBTypeStr of
            Inl e \<Rightarrow>
              if caught e then (Inr True, s\<lparr>ps_log := Some (lLog @ error_text (en_what (sw_env w fs)) e)\<rparr>, fs)
              else (Inl e, s\<lparr>ps_log := Some lLog\<rparr>, fs)
          | Inr lSQLDBType \<Rightarrow>
              (Inr True, \<lparr>ps_service = service_init_default (sw_default_por w) iTravelDBFilePath lSQLDBType iSQLDBConnStr,
                 ps_log = Some (lLog @ ''Python wrapper initialised'' @ endl)\<rparr>, fs))"

definition Python_finalize :: "searcher \<times> 'fs \<Rightarrow> bool outcome \<times> searcher \<times> 'fs" where
  "Python_finalize = (\<lambda>(s, fs). (Inr True, \<lparr>ps_service = None, ps_log = None\<rparr>, fs))"

section \<open>Paths and indexing\<close>

definition paths_log :: "service_context \<Rightarrow> string" where
  "paths_log c =
     ''ORI-maintained list of POR: '' @ quoted (sc_porFilePath c) @ endl @
     ''Xapian travel database/index: '' @ quoted (sc_travelDBFilePath c) @ endl @
     ''SQL database connection string: '' @ quoted (sc_sqlDBConnectionString c) @ endl"

definition getPathsImpl ::
    "('t, 'fs, 'sql, 'doc, 'gen, 'db) searcher_world \<Rightarrow> searcher \<times> 'fs \<Rightarrow> string outcome \<times> searcher \<times> 'fs" where
  "getPathsImpl w = (\<lambda>(s, fs).
     let (r, s) = use_case (en_what (sw_env w fs)) ''Get the file-path details'' (\<lambda>c.
           case getFilePaths (Some c) of
             Inl e \<Rightarrow> ([], [], Some e)
           | Inr (lPORFilePath, lTravelDBFilePath, lSQLDBConnStr) \<Rightarrow>
               (paths_log c, lPORFilePath @ '';'' @ lTravelDBFilePath @ '';'' @ lSQLDBConnStr, None)) Inr s
     in (r, s, fs))"

definition indexImpl ::
    "('t, 'fs, 'sql, 'doc, 'gen, 'db) searcher_world \<Rightarrow> 'sql \<Rightarrow> searcher \<times> 'fs \<Rightarrow> string outcome \<times> searcher \<times> 'fs" where
  "indexImpl w sql = (\<lambda>(s, fs).
     let run = (\<lambda>c. service_buildSearchIndex (sw_index w) (Some c) fs sql);
         (r, s') = use_case (en_what (sw_env w fs)) ''Indexation by Xapian'' (\<lambda>c.
           case fst (run c) of
             Inl e \<Rightarrow> (paths_log c, [], Some e)
           | Inr (lNbOfEntries, sql) \<Rightarrow>
               (paths_log c @ ''Xapian indexation yielded '' @ show_nat (unat lNbOfEntries) @
                '' POR (points of reference) entries.'' @ endl, show_nat (unat lNbOfEntries), None)) Inr s
     in (r, s', case (ps_log s, ps_service s) of (Some _, Some c) \<Rightarrow> snd (run c) | _ \<Rightarrow> fs))"

section \<open>The texts of a list of locations\<close>

text \<open>
  The short and the detailed text. The loops over the matches of a location and over the locations, with their counters
  of 16 bits: the counters are displayed one higher, as integers.
\<close>

definition show_index :: "16 word \<Rightarrow> string" where
  "show_index idx = show_nat (unat idx + 1)"

definition iata_code_of :: "MatchedLocation \<Rightarrow> string" where
  "iata_code_of m = lk_iataCode (loc_key (m_location m))"

fun extra_texts ::
    "stream_output \<Rightarrow> 16 word \<Rightarrow> MatchedLocation list \<Rightarrow> 16 word \<Rightarrow> string \<times> string \<Rightarrow> (string \<times> string) outcome" where
  "extra_texts out idx [] idxExtra texts = Inr texts"
| "extra_texts out idx (m # ms) idxExtra (no, de) =
     bindE (MatchedLocation_toString out m) (\<lambda>s.
       extra_texts out idx ms (idxExtra + 1)
         (no @ '':'' @ iata_code_of m,
          de @ ''    '' @ show_index idx @ ''.'' @ show_index idxExtra @ ''. '' @ s @ endl))"

fun alternate_texts ::
    "stream_output \<Rightarrow> 16 word \<Rightarrow> MatchedLocation list \<Rightarrow> 16 word \<Rightarrow> string \<times> string \<Rightarrow> (string \<times> string) outcome" where
  "alternate_texts out idx [] idxAlter texts = Inr texts"
| "alternate_texts out idx (m # ms) idxAlter (no, de) =
     bindE (MatchedLocation_toString out m) (\<lambda>s.
       alternate_texts out idx ms (idxAlter + 1)
         (no @ ''-'' @ iata_code_of m @ ''/'' @ out_double out (loc_percentage (m_location m)),
          de @ ''    '' @ show_index idx @ ''.'' @ show_index idxAlter @ ''. '' @ s @ endl))"

fun location_texts ::
    "stream_output \<Rightarrow> MatchedLocation list \<Rightarrow> 16 word \<Rightarrow> string \<times> string \<Rightarrow> (string \<times> string) outcome" where
  "location_texts out [] idx texts = Inr texts"
| "location_texts out (m # ms) idx (no, de) =
     bindE (toSingleLocationString out (m_location m)) (\<lambda>s.
       let no = no @ (if idx \<noteq> 0 then '','' else []) @ iata_code_of m;
           de = de @ show_index idx @ ''. '' @ s @ endl
       in bindE (if m_extraLocationList m \<noteq> [] then
                   extra_texts out idx (m_extraLocationList m) 0 (no, de @ ''  Extra matches: '' @ endl)
                 else Inr (no, de)) (\<lambda>(no, de).
          let no = no @ ''/'' @ out_double out (loc_percentage (m_location m))
          in bindE (if m_alternateLocationList m \<noteq> [] then
                      alternate_texts out idx (m_alternateLocationList m) 0 (no, de @ ''  Alternate matches: '' @ endl)
                    else Inr (no, de)) (\<lambda>texts. location_texts out ms (idx + 1) texts)))"

fun word_texts :: "string list \<Rightarrow> 16 word \<Rightarrow> string \<times> string \<Rightarrow> string \<times> string" where
  "word_texts [] idx texts = texts"
| "word_texts (lWord # rest) idx (no, de) =
     word_texts rest (idx + 1)
       (no @ (if idx \<noteq> 0 then '','' else []) @ lWord, de @ (if idx \<noteq> 0 then show_index idx @ ''.'' @ endl else []) @ lWord)"

definition match_texts :: "stream_output \<Rightarrow> 16 word \<Rightarrow> MatchedLocation list \<Rightarrow> (string \<times> string) outcome" where
  "match_texts out nbOfMatches ms = (if nbOfMatches \<noteq> 0 then location_texts out ms 0 ([], []) else Inr ([], []))"

definition unmatched_texts :: "string list \<Rightarrow> string \<times> string \<Rightarrow> string \<times> string" where
  "unmatched_texts lNonMatchedWordList = (\<lambda>(no, de).
     if lNonMatchedWordList \<noteq> [] then word_texts lNonMatchedWordList 0 (no @ '';'', de @ ''Not recognised words:'' @ endl)
     else (no, de))"

section \<open>Search and generation\<close>

text \<open>The four streams of a use case, and the one that is returned.\<close>

record streams =
  st_NoDetailed :: string
  st_Detailed :: string
  st_JSON :: string
  st_Protobuf :: string

definition no_streams :: streams where
  "no_streams = \<lparr>st_NoDetailed = [], st_Detailed = [], st_JSON = [], st_Protobuf = []\<rparr>"

definition selected_stream :: "EN_OutputFormat \<Rightarrow> streams \<Rightarrow> string outcome" where
  "selected_stream iOutputFormat st =
     (case iOutputFormat of
        SHORT \<Rightarrow> Inr (st_NoDetailed st) | FULL \<Rightarrow> Inr (st_Detailed st) | JSON \<Rightarrow> Inr (st_JSON st)
      | PROTOBUF \<Rightarrow> Inr (st_Protobuf st) | LAST_OUTPUT_FORMAT \<Rightarrow> Inl AssertionFailure)"

text \<open>The exports, after the texts; the JSON writer throws before it writes anything. The last lines of the log follow.\<close>

definition export_streams ::
    "('t, 'fs, 'sql, 'doc, 'gen, 'db) searcher_world \<Rightarrow> MatchedLocation list \<Rightarrow> string list \<Rightarrow> string \<times> string \<Rightarrow>
     string \<times> streams \<times> trep_error option" where
  "export_streams w ms words = (\<lambda>(no, de).
     let st = no_streams\<lparr>st_NoDetailed := no, st_Detailed := de\<rparr>
     in case sw_write_json w (jsonExportLocationList (sw_ptree w) ms) of
          Inl msg \<Rightarrow> ([], st, Some (StdException msg))
        | Inr js \<Rightarrow>
            let st = st\<lparr>st_JSON := js\<rparr>
            in case exportMatchedLocationList (sw_iso_date w) ms words of
                 Inl e \<Rightarrow> ([], st, Some e)
               | Inr lAnswer \<Rightarrow>
                   let pb = sw_serialise w lAnswer
                   in (''Short version: '' @ no @ endl @ ''Long version: '' @ de @ endl @ ''JSON version: '' @ js @ endl @
                       ''Protobuf version: '' @ pb @ endl, st\<lparr>st_Protobuf := pb\<rparr>, None))"

definition index_log :: "service_context \<Rightarrow> string" where
  "index_log c = ''Xapian travel database/index: '' @ quoted (sc_travelDBFilePath c) @
     '' - SQL database connection string: '' @ quoted (sc_sqlDBConnectionString c) @
     '' - ORI-maintained list of POR: '' @ quoted (sc_porFilePath c) @ endl"

definition search_body ::
    "('t, 'fs, 'sql, 'doc, 'gen, 'db) searcher_world \<Rightarrow> 'fs \<Rightarrow> string \<Rightarrow> service_context \<Rightarrow> string \<times> streams \<times> trep_error option" where
  "search_body w fs iTravelQuery c =
     (case service_interpretTravelRequest (sw_env w fs) (Some c) iTravelQuery [] [] of
        Inl e \<Rightarrow> (index_log c, no_streams, Some e)
      | Inr (nbOfMatches, lLocationList, lNonMatchedWordList) \<Rightarrow>
          let ms = map plain_match lLocationList;
              banner = index_log c @ ''Python search for '' @ quoted iTravelQuery @ '' gave '' @ show_nat (unat nbOfMatches) @
                '' matches.'' @ endl
          in case match_texts (sw_out w) nbOfMatches ms of
               Inl e \<Rightarrow> (banner, no_streams, Some e)
             | Inr texts \<Rightarrow>
                 let (added, st, e) = export_streams w ms lNonMatchedWordList (unmatched_texts lNonMatchedWordList texts)
                 in (banner @ ''Python search for '' @ quoted iTravelQuery @ '' yielded:'' @ endl @ added, st, e))"

definition searchImpl ::
    "('t, 'fs, 'sql, 'doc, 'gen, 'db) searcher_world \<Rightarrow> string \<Rightarrow> EN_OutputFormat \<Rightarrow> searcher \<times> 'fs \<Rightarrow>
     string outcome \<times> searcher \<times> 'fs" where
  "searchImpl w iTravelQuery iOutputFormat = (\<lambda>(s, fs).
     let (r, s) = use_case (en_what (sw_env w fs)) (''Travel query ('' @ quoted iTravelQuery @ [CHR 0x27] @ '') search'')
           (search_body w fs iTravelQuery) (selected_stream iOutputFormat) s
     in (r, s, fs))"

definition generate_body ::
    "('t, 'fs, 'sql, 'doc, 'gen, 'db) searcher_world \<Rightarrow> nat \<Rightarrow> 'fs \<Rightarrow> 16 word \<Rightarrow> service_context \<Rightarrow>
     string \<times> streams \<times> trep_error option" where
  "generate_body w fuel fs iNbOfDraws c =
     (case service_drawRandomLocations fuel (en_is_directory (sw_env w fs)) (sw_documents w fs) (sw_uniform w)
             (en_parse (sw_env w fs)) (Some c) iNbOfDraws [] of
        Inl e \<Rightarrow> (index_log c, no_streams, Some e)
      | Inr (nbOfMatches, lLocationList) \<Rightarrow>
          let ms = map plain_match lLocationList;
              banner = index_log c @ ''Python generation of '' @ show_nat (unat iNbOfDraws) @ '' gave '' @
                show_nat (unat nbOfMatches) @ '' documents.'' @ endl
          in case match_texts (sw_out w) nbOfMatches ms of
               Inl e \<Rightarrow> (banner, no_streams, Some e)
             | Inr texts \<Rightarrow>
                 let (added, st, e) = export_streams w ms [] texts
                 in (banner @ ''Python generation of '' @ show_nat (unat iNbOfDraws) @ '' yielded:'' @ endl @ added, st, e))"

definition generateImpl ::
    "('t, 'fs, 'sql, 'doc, 'gen, 'db) searcher_world \<Rightarrow> nat \<Rightarrow> 16 word \<Rightarrow> EN_OutputFormat \<Rightarrow> searcher \<times> 'fs \<Rightarrow>
     string outcome \<times> searcher \<times> 'fs" where
  "generateImpl w fuel iNbOfDraws iOutputFormat = (\<lambda>(s, fs).
     let (r, s) = use_case (en_what (sw_env w fs)) (''Number of random draws: '' @ show_nat (unat iNbOfDraws))
           (generate_body w fuel fs iNbOfDraws) (selected_stream iOutputFormat) s
     in (r, s, fs))"

text \<open>The public wrappers: the format is converted before anything else, outside every \<^verbatim>\<open>try\<close> block.\<close>

definition Python_search ::
    "('t, 'fs, 'sql, 'doc, 'gen, 'db) searcher_world \<Rightarrow> string \<Rightarrow> string \<Rightarrow> searcher \<times> 'fs \<Rightarrow> string outcome \<times> searcher \<times> 'fs" where
  "Python_search w iOutputFormatString iTravelQuery s =
     (case OutputFormat_of_string iOutputFormatString of
        Inl e \<Rightarrow> (Inl e, s)
      | Inr lOutputFormat \<Rightarrow> searchImpl w iTravelQuery lOutputFormat s)"

definition Python_generate ::
    "('t, 'fs, 'sql, 'doc, 'gen, 'db) searcher_world \<Rightarrow> nat \<Rightarrow> string \<Rightarrow> 16 word \<Rightarrow> searcher \<times> 'fs \<Rightarrow>
     string outcome \<times> searcher \<times> 'fs" where
  "Python_generate w fuel iOutputFormatString iNbOfDraws s =
     (case OutputFormat_of_string iOutputFormatString of
        Inl e \<Rightarrow> (Inl e, s)
      | Inr lOutputFormat \<Rightarrow> generateImpl w fuel iNbOfDraws lOutputFormat s)"

section \<open>The texts\<close>

text \<open>The short text of a list of locations: their codes and percentages.\<close>

definition short_text :: "stream_output \<Rightarrow> Location \<Rightarrow> string" where
  "short_text out l = lk_iataCode (loc_key l) @ ''/'' @ out_double out (loc_percentage l)"

lemma basic_string: "lk_iataType (loc_key l) \<noteq> LAST_IATA_TYPE \<Longrightarrow> \<exists>s. toBasicString out l = Inr s"
  using iata_letters.enc_total [of "lk_iataType (loc_key l)"]
  by (auto simp: toBasicString_def describeShortKey_def LocationKey_describe_def IATAType_getTypeLabelAsString_def)

lemma counter_not_zero: "unat (idx :: 16 word) + 1 < 65536 \<Longrightarrow> unat (idx + 1) = unat idx + 1 \<and> idx + 1 \<noteq> 0"
  using uint16_succ [of idx] by auto

lemma location_texts_plain:
  assumes "toBasicString out l = Inr s"
  shows "location_texts out (plain_match l # ms) idx (no, de) =
    location_texts out ms (idx + 1) (no @ (if idx \<noteq> 0 then '','' else []) @ short_text out l, de @ show_index idx @ ''. '' @ s @ endl)"
  by (simp add: plain_match_def toSingleLocationString_def assms Let_def short_text_def iata_code_of_def)

lemma location_texts_short:
  assumes "\<forall>l \<in> set ls. lk_iataType (loc_key l) \<noteq> LAST_IATA_TYPE" and "unat idx + length ls \<le> 65536"
  shows "\<exists>de'. location_texts out (map plain_match ls) idx (no, de) =
    Inr (no @ (if ls = [] then [] else (if idx \<noteq> 0 then '','' else []) @ join_with '','' (map (short_text out) ls)), de')"
  using assms
proof (induction ls arbitrary: idx no de)
  case Nil
  then show ?case by simp
next
  case (Cons l ls)
  then obtain s where s: "toBasicString out l = Inr s" using basic_string [of l out] by auto
  show ?case
  proof (cases "ls = []")
    case True
    then show ?thesis by (simp add: location_texts_plain [OF s] del: location_texts.simps(2))
  next
    case False
    then have idx: "unat (idx + 1) + length ls \<le> 65536" "idx + 1 \<noteq> 0"
      using counter_not_zero [of idx] Cons.prems(2) by (cases ls, auto)+
    have "\<forall>l \<in> set ls. lk_iataType (loc_key l) \<noteq> LAST_IATA_TYPE" using Cons.prems(1) by simp
    note IH = Cons.IH [OF this idx(1), of "no @ (if idx \<noteq> 0 then '','' else []) @ short_text out l"
      "de @ show_index idx @ ''. '' @ s @ endl"]
    show ?thesis unfolding list.map location_texts_plain [OF s]
      using IH idx(2) False by (simp add: join_with_Cons)
  qed
qed

lemma word_texts_short:
  "unat idx + length ws \<le> 65536 \<Longrightarrow> fst (word_texts ws idx (no, de)) =
    no @ (if ws = [] then [] else (if idx \<noteq> 0 then '','' else []) @ join_with '','' ws)"
proof (induction ws arbitrary: idx no de)
  case Nil
  then show ?case by simp
next
  case (Cons v ws)
  show ?case
  proof (cases "ws = []")
    case True
    then show ?thesis by simp
  next
    case False
    then have idx: "unat (idx + 1) + length ws \<le> 65536" "idx + 1 \<noteq> 0"
      using counter_not_zero [of idx] Cons.prems by (cases ws, auto)+
    from Cons.IH [OF idx(1)] idx(2) False show ?thesis by (simp add: join_with_Cons)
  qed
qed

lemma unmatched_texts_short:
  "length ws \<le> 65536 \<Longrightarrow> fst (unmatched_texts ws (no, de)) = no @ (if ws = [] then [] else '';'' @ join_with '','' ws)"
  by (simp add: unmatched_texts_def word_texts_short)

text \<open>The exports of sound locations end, whatever the JSON writer does.\<close>

lemma exported_plain:
  assumes "\<forall>l \<in> set ls. \<not> isl (exportLocation iso_date l pb_new_place)"
  shows "\<exists>answer. exportMatchedLocationList iso_date (map plain_match ls) ws = Inr answer"
proof -
  have "\<exists>ps. mapE (exportMatchedLocation iso_date) (map plain_match ls) = Inr ps"
    using assms
  proof (induction ls)
    case (Cons l ls)
    then obtain p where "exportLocation iso_date l pb_new_place = Inr p" by (cases "exportLocation iso_date l pb_new_place") auto
    then show ?case using Cons by (auto simp: plain_match_def)
  qed simp
  then show ?thesis by (auto simp: exportMatchedLocationList_def)
qed

lemma export_streams_short:
  assumes "\<forall>l \<in> set ls. \<not> isl (exportLocation (sw_iso_date w) l pb_new_place)"
  shows "\<exists>added st e. export_streams w (map plain_match ls) ws texts = (added, st, e) \<and> st_NoDetailed st = fst texts \<and>
    (case e of None \<Rightarrow> True | Some e \<Rightarrow> caught e)"
proof -
  obtain answer where "exportMatchedLocationList (sw_iso_date w) (map plain_match ls) ws = Inr answer"
    using exported_plain [OF assms] by blast
  then show ?thesis
    by (cases texts) (simp add: export_streams_def Let_def no_streams_def caught_def split: sum.split)
qed

lemma use_case_runs:
  assumes "ps_log s \<noteq> None" and "ps_service s = Some c" and "body c = (added, r, e)"
    and "case e of None \<Rightarrow> True | Some e \<Rightarrow> caught e"
  shows "fst (use_case what banner body answer s) = answer r"
  using assms by (auto simp: use_case_def split: option.splits)

section \<open>The states that a script can reach\<close>

inductive python_step ::
    "('t, 'fs, 'sql, 'doc, 'gen, 'db) searcher_world \<Rightarrow> searcher \<times> 'fs \<Rightarrow> searcher \<times> 'fs \<Rightarrow> bool" for w where
  step_init: "Python_init w path db_type conn st = (r, st') \<Longrightarrow> python_step w st st'"
| step_finalize: "Python_finalize st = (r, st') \<Longrightarrow> python_step w st st'"
| step_getPaths: "getPathsImpl w st = (r, st') \<Longrightarrow> python_step w st st'"
| step_index: "indexImpl w sql st = (r, st') \<Longrightarrow> python_step w st st'"
| step_search: "Python_search w fmt q st = (r, st') \<Longrightarrow> python_step w st st'"
| step_generate: "Python_generate w fuel fmt n st = (r, st') \<Longrightarrow> python_step w st st'"

inductive python_reachable ::
    "('t, 'fs, 'sql, 'doc, 'gen, 'db) searcher_world \<Rightarrow> searcher \<times> 'fs \<Rightarrow> bool" for w where
  reachable_new: "python_reachable w (new_searcher, fs)"
| reachable_step: "python_reachable w st \<Longrightarrow> python_step w st st' \<Longrightarrow> python_reachable w st'"

definition searcher_wf :: "('t, 'fs, 'sql, 'doc, 'gen, 'db) searcher_world \<Rightarrow> searcher \<Rightarrow> bool" where
  "searcher_wf w s \<longleftrightarrow> (\<forall>c. ps_service s = Some c \<longrightarrow>
     ps_log s \<noteq> None \<and> sc_porFilePath c = sw_default_por w \<and> sc_sqlDBType c \<noteq> LAST_DB_TYPE)"

lemma use_case_frame:
  assumes "use_case what banner body answer s = (r, s')"
  shows "ps_service s' = ps_service s \<and> (ps_log s' = None \<longleftrightarrow> ps_log s = None)"
  using assms by (auto simp: use_case_def split: option.splits prod.splits if_splits)

lemma use_case_wf:
  assumes "searcher_wf w s" and "use_case what banner body answer s = (r, s')"
  shows "searcher_wf w s'"
  using assms(1) use_case_frame [OF assms(2)] by (auto simp: searcher_wf_def)

lemma known_DBType: "DBType_of_string t = Inr d \<Longrightarrow> d \<noteq> LAST_DB_TYPE"
  by (auto simp: DBType_of_string_def Let_def split: if_splits)

lemma init_wf:
  assumes "searcher_wf w s" and "Python_init w path db_type conn (s, fs) = (r, s', fs')"
  shows "searcher_wf w s'"
proof (cases "DBType_of_string db_type")
  case (Inl e)
  then show ?thesis using assms by (auto simp: Python_init_def Let_def searcher_wf_def split: if_splits)
next
  case (Inr d)
  with known_DBType [OF Inr] assms show ?thesis
    by (auto simp: Python_init_def Let_def searcher_wf_def service_init_default_def service_init_def split: if_splits)
qed

lemma step_wf:
  assumes "python_step w st st'" and "searcher_wf w (fst st)"
  shows "searcher_wf w (fst st')"
  using assms
proof (cases rule: python_step.cases)
  case (step_init path db_type conn r)
  then show ?thesis using assms(2) init_wf by (cases st; cases st') fastforce
next
  case (step_finalize r)
  then show ?thesis by (auto simp: Python_finalize_def searcher_wf_def split: prod.splits)
next
  case (step_getPaths r)
  then show ?thesis using assms(2) by (auto simp: getPathsImpl_def split: prod.splits dest: use_case_wf)
next
  case (step_index sql r)
  then show ?thesis using assms(2) by (auto simp: indexImpl_def Let_def split: prod.splits dest: use_case_wf)
next
  case (step_search fmt q r)
  then show ?thesis using assms(2)
    by (auto simp: Python_search_def searchImpl_def split: prod.splits sum.splits dest: use_case_wf)
next
  case (step_generate fuel fmt n r)
  then show ?thesis using assms(2)
    by (auto simp: Python_generate_def generateImpl_def split: prod.splits sum.splits dest: use_case_wf)
qed

lemma reachable_wf: "python_reachable w st \<Longrightarrow> searcher_wf w (fst st)"
  by (induction rule: python_reachable.induct) (simp add: searcher_wf_def new_searcher_def, blast intro: step_wf)

section \<open>A world for the examples\<close>

text \<open>One index in memory, one phrase in it, and a SQL table of one airport.\<close>

definition par_session :: sql_session where
  "par_session = \<lparr>sq_select = (\<lambda>q. Inr ([''PAR''], None))\<rparr>"

definition par_env :: environment where
  "par_env = (one_phrase_env ''par'')
     \<lparr>en_server := \<lparr>sv_is_directory = (\<lambda>_. True), sv_parent_path = id, sv_show_path = id, sv_open = (\<lambda>_ _. Inr par_session)\<rparr>,
      en_parse := (\<lambda>s. Inr cdg)\<rparr>"

definition par_world :: "(ptree, mem_fs, nat, mem_doc, mem_doc, mem_doc list) searcher_world" where
  "par_world = \<lparr>sw_env = (\<lambda>_. par_env), sw_index = mem_environment (\<lambda>_. True),
     sw_documents = (\<lambda>_ _. Inr \<lparr>xi_doccount = 0, xi_document = (\<lambda>_. None)\<rparr>), sw_uniform = (\<lambda>_ i. i),
     sw_out = \<lparr>out_double = (\<lambda>_. ''100''), out_float = (\<lambda>_. ''0''), out_date = (\<lambda>_. [])\<rparr>,
     sw_ptree = tree_ops (\<lambda>_. []), sw_write_json = (\<lambda>_. Inl ''not valid''), sw_serialise = (\<lambda>_. []), sw_iso_date = (\<lambda>_. []),
     sw_default_por = ''por.csv''\<rparr>"

definition par_searcher :: searcher where
  "par_searcher = \<lparr>ps_service = service_init_default ''por.csv'' ''/tmp/xapian'' SQLITE3 ''trep.db'', ps_log = Some []\<rparr>"

lemma par_searcher_parts: "ps_log par_searcher = Some []" "ps_service par_searcher = Some \<lparr>sc_porFilePath = ''por.csv'',
    sc_travelDBFilePath = ''/tmp/xapian'', sc_sqlDBType = SQLITE3, sc_sqlDBConnectionString = ''trep.db''\<rparr>"
  by (simp_all add: par_searcher_def service_init_default_def service_init_def getSQLConnStr_def)

lemma par_lookup: "getLocationList (en_server par_env) (en_what par_env) (en_parse par_env) SQLITE3 ''trep.db'' [''par''] [] =
    Inr (1, [cdg\<lparr>loc_correctedKeywords := ''par''\<rparr>])"
proof -
  have session: "initSQLDBSession (en_server par_env) SQLITE3 ''trep.db'' = Inr (Some par_session)"
    by (simp add: initSQLDBSession_def par_env_def)
  have "matchesIATACode ''par''" by code_simp
  moreover have "getPORByIATACode (en_what par_env) (en_parse par_env) par_session ''par'' [] True =
      Inr (word_of_nat (length [''PAR'']), [] @ [cdg\<lparr>loc_correctedKeywords := ''par''\<rparr>])"
    by (subst getPORByIATACode_scan [where rows="[''PAR'']" and ls="[cdg]" and b="Some (cdg\<lparr>loc_correctedKeywords := ''par''\<rparr>)"
          and n="Fin 50"])
      (simp_all add: par_session_def par_env_def cdg_def new_Location_def)
  ultimately show ?thesis by (simp add: getLocationList_def session get_by_code_def)
qed

lemma par_interpreted: "service_interpretTravelRequest par_env (ps_service par_searcher) ''par'' [] [] =
    Inr (word_of_nat (length [cdg\<lparr>loc_correctedKeywords := ''par''\<rparr>]), [cdg\<lparr>loc_correctedKeywords := ''par''\<rparr>], [])"
proof -
  have tok: "split_tokens AllSepatorList ''par'' = [''par'']" by (simp add: AllSepatorList_def)
  have "clean_word AllSepatorList ''par''"
    using char_separator.tkz_clean [OF boost.char_separator_axioms, where s="''par''" and seps=AllSepatorList] unfolding tok by simp
  then obtain p where "push_slice split_tokens ''par'' [] = Inr [\<lparr>sp_initialString = ''par'', sp_partition = p\<rparr>]"
    using char_separator.push_slice_eq [OF boost.char_separator_axioms, of "[''par'']" "[]"] by auto
  then have slices: "new_QuerySlices split_tokens (one_phrase_db ''par'') id id ''par'' =
      Inr \<lparr>qs_queryString = ''par'', qs_slices = [\<lparr>sp_initialString = ''par'', sp_partition = p\<rparr>]\<rparr>"
    by (simp add: new_QuerySlices_def tokeniseStringIntoWordList_def tok Let_def AllSepatorList_def)
  have env: "en_is_directory par_env ''/tmp/xapian''" "en_xapian par_env ''/tmp/xapian'' = Inr (one_phrase_db ''par'')"
    "en_tokeniser par_env = split_tokens" "en_unpunctuate par_env = id" "en_unquote par_env = id"
    by (simp_all add: par_env_def one_phrase_env_def)
  have "areAllCodeOrGeoID split_tokens ''par'' [] = (True, [''par''])"
  proof -
    have "matchesIATACode ''par''" by code_simp
    then show ?thesis by (simp add: areAllCodeOrGeoID_def AllSepatorList_def)
  qed
  then show ?thesis
    by (simp add: service_interpretTravelRequest_def par_searcher_parts interpretTravelRequest_def assertE_def env slices
      interpret_slice_def par_lookup)
qed

section \<open>Properties\<close>

text \<open>C11: The short format of a search: the code and the percentage of each location that the service found, in order and
  separated by commas, then, after a semicolon, the words that it left unmatched. It does not depend on the other
  formats, although they are built too: an exception of the JSON writer changes nothing.\<close>

theorem python_short_search:
  fixes w :: "('t, 'fs, 'sql, 'doc, 'gen, 'db) searcher_world"
  assumes "ps_log s \<noteq> None" and "ps_service s = Some c"
    and "service_interpretTravelRequest (sw_env w fs) (Some c) q [] [] = Inr (word_of_nat (length ls), ls, ws)"
    and "length ls < 65536" and "length ws \<le> 65536"
    and "\<forall>l \<in> set ls. lk_iataType (loc_key l) \<noteq> LAST_IATA_TYPE \<and> \<not> isl (exportLocation (sw_iso_date w) l pb_new_place)"
  shows "fst (Python_search w ''S'' q (s, fs)) =
    Inr (join_with '','' (map (short_text (sw_out w)) ls) @ (if ws = [] then [] else '';'' @ join_with '','' ws))"
proof -
  have "(word_of_nat (length ls) :: 16 word) = 0 \<longleftrightarrow> ls = []"
    using assms(4) by (auto simp: word_of_nat_eq_0_iff dest: dvd_imp_le)
  then obtain de where texts: "match_texts (sw_out w) (word_of_nat (length ls)) (map plain_match ls) =
      Inr (join_with '','' (map (short_text (sw_out w)) ls), de)"
    using location_texts_short [of ls 0 "sw_out w" "[]" "[]"] assms(4,6) by (auto simp: match_texts_def)
  obtain added st e where st: "export_streams w (map plain_match ls) ws
      (unmatched_texts ws (join_with '','' (map (short_text (sw_out w)) ls), de)) = (added, st, e)"
    "st_NoDetailed st = join_with '','' (map (short_text (sw_out w)) ls) @ (if ws = [] then [] else '';'' @ join_with '','' ws)"
    "case e of None \<Rightarrow> True | Some e \<Rightarrow> caught e"
  proof -
    have "\<forall>l \<in> set ls. \<not> isl (exportLocation (sw_iso_date w) l pb_new_place)" using assms(6) by blast
    from export_streams_short [OF this, of ws "unmatched_texts ws (join_with '','' (map (short_text (sw_out w)) ls), de)"]
    show ?thesis using that unfolding unmatched_texts_short [OF assms(5)] by blast
  qed
  have fmt: "OutputFormat_of_string ''S'' = Inr SHORT" by code_simp
  obtain x where "search_body w fs q c = (x, st, e)"
    unfolding search_body_def assms(3) by (simp add: texts st(1) Let_def)
  note run = use_case_runs [where body="search_body w fs q", OF assms(1,2) this st(3)]
  show ?thesis
    unfolding Python_search_def fmt sum.case searchImpl_def case_prod_conv Let_def
    by (simp add: case_prod_beta' run selected_stream_def st(2))
qed

theorem python_short_search_witness:
  "fst (Python_search par_world ''S'' ''par'' (par_searcher, [])) = Inr ''CDG/100''"
proof -
  let ?l = "cdg\<lparr>loc_correctedKeywords := ''par''\<rparr>"
  have w: "sw_env par_world = (\<lambda>_. par_env)" "sw_iso_date par_world = (\<lambda>_. [])"
    "sw_out par_world = \<lparr>out_double = (\<lambda>_. ''100''), out_float = (\<lambda>_. ''0''), out_date = (\<lambda>_. [])\<rparr>"
    by (simp_all add: par_world_def)
  have l: "lk_iataType (loc_key ?l) \<noteq> LAST_IATA_TYPE" "lk_iataCode (loc_key ?l) = ''CDG''" "\<not> isl (exportLocation f ?l pb_new_place)" for f
    by (simp_all add: cdg_def new_Location_def new_LocationKey_def exportLocation_def to_int32_def Let_def)
  note run = par_interpreted [unfolded par_searcher_parts(2)]
  show ?thesis
    using python_short_search [of par_searcher, OF _ par_searcher_parts(2), of par_world "[]" "''par''" "[?l]" "[]"] run l
    by (simp add: par_searcher_parts(1) w short_text_def)
qed

text \<open>An exception of the service, whatever it is, reaches the script as an empty answer in every format: only the log
  tells it from a search that finds nothing. A failed assertion, undefined behaviour and a loop without end are not
  caught.\<close>

theorem python_errors_swallowed:
  fixes w :: "('t, 'fs, 'sql, 'doc, 'gen, 'db) searcher_world"
  assumes "ps_log s = Some lg" and "ps_service s = Some c"
    and "service_interpretTravelRequest (sw_env w fs) (Some c) q [] [] = Inl e"
    and "OutputFormat_of_string fmt = Inr f"
  shows "\<exists>lg'. Python_search w fmt q (s, fs) =
    (if e \<in> {AssertionFailure, UndefinedBehaviour, NonTermination} then Inl e else Inr [], s\<lparr>ps_log := Some lg'\<rparr>, fs) \<and>
    (e \<notin> {AssertionFailure, UndefinedBehaviour, NonTermination} \<longrightarrow> (\<exists>before. lg' = before @ error_text (en_what (sw_env w fs)) e))"
proof -
  have body: "search_body w fs q c = (index_log c, no_streams, Some e)" by (simp add: search_body_def assms(3))
  have "selected_stream f no_streams = Inr []"
    using fmt_letters.dec_known assms(4)
    by (cases f) (auto simp: selected_stream_def no_streams_def OutputFormat_of_string_def bindE_Inr_iff)
  then show ?thesis
    by (auto simp: Python_search_def assms(1,2,4) searchImpl_def use_case_def body caught_def)
qed

theorem python_errors_swallowed_witness:
  "\<exists>lg. Python_search par_world ''F'' [] (par_searcher, []) = (Inr [], par_searcher\<lparr>ps_log := Some lg\<rparr>, []) \<and>
     (\<exists>before. lg = before @ ''OpenTrep error: '' @ endl)"
proof -
  have w: "sw_env par_world [] = par_env" "en_what par_env = (\<lambda>_. [])" by (simp_all add: par_world_def par_env_def one_phrase_env_def)
  have "service_interpretTravelRequest (sw_env par_world []) (ps_service par_searcher) [] [] [] =
      Inl (TravelRequestEmptyException ''The travel query is empty.'')"
    by (simp add: service_interpretTravelRequest_def par_searcher_parts)
  moreover have "OutputFormat_of_string ''F'' = Inr FULL" by code_simp
  ultimately show ?thesis
    using python_errors_swallowed [OF par_searcher_parts, of par_world "[]" "[]" _ "''F''" FULL]
    by (auto simp: par_searcher_parts w error_text_def)
qed

text \<open>In every state that a script can reach by initialising, using and finalising the searcher, in any order and with any
  arguments, a service has an open log, the default POR file and a known type of database; so its use cases never
  answer that the log is not valid, and indexing reads the default POR file whatever the script wants.\<close>

theorem python_reachable_states:
  assumes "python_reachable w (s, fs)" and "ps_service s = Some c"
  shows "ps_log s \<noteq> None \<and> sc_porFilePath c = sw_default_por w \<and> sc_sqlDBType c \<noteq> LAST_DB_TYPE \<and>
    fst (getPathsImpl w (s, fs)) = Inr (sw_default_por w @ '';'' @ sc_travelDBFilePath c @ '';'' @ sc_sqlDBConnectionString c)"
proof -
  have wf: "ps_log s \<noteq> None" "sc_porFilePath c = sw_default_por w" "sc_sqlDBType c \<noteq> LAST_DB_TYPE"
    using reachable_wf [OF assms(1)] assms(2) by (auto simp: searcher_wf_def)
  moreover have "fst (getPathsImpl w (s, fs)) = Inr (sw_default_por w @ '';'' @ sc_travelDBFilePath c @ '';'' @ sc_sqlDBConnectionString c)"
    using wf by (auto simp: getPathsImpl_def use_case_def assms(2) getFilePaths_def with_context_def)
  ultimately show ?thesis by blast
qed

theorem python_reachable_states_witness:
  "fst (getPathsImpl par_world (par_searcher\<lparr>ps_log := Some (''Python wrapper initialisation'' @ endl @ ''Python wrapper initialised'' @ endl)\<rparr>, [])) =
     Inr ''por.csv;/tmp/xapian;trep.db''"
proof -
  let ?s = "par_searcher\<lparr>ps_log := Some (''Python wrapper initialisation'' @ endl @ ''Python wrapper initialised'' @ endl)\<rparr>"
  have "DBType_of_string ''sqlite'' = Inr SQLITE3" by code_simp
  moreover have "en_is_directory par_env ''/tmp/xapian''" "sw_env par_world [] = par_env" "sw_default_por par_world = ''por.csv''"
    by (simp_all add: par_env_def one_phrase_env_def par_world_def)
  ultimately have "Python_init par_world ''/tmp/xapian'' ''sqlite'' ''trep.db'' (new_searcher, []) = (Inr True, ?s, [])"
    by (simp add: Python_init_def par_searcher_def)
  then have "python_reachable par_world (?s, [])" by (blast intro: reachable_new reachable_step step_init)
  from python_reachable_states [OF this] show ?thesis by (simp add: par_searcher_parts par_world_def)
qed

text \<open>The initialisation answers true although it has failed: with an unknown type of database, a new searcher has no service
  after it, and every search tells so.\<close>

theorem python_init_unchecked:
  fixes w :: "('t, 'fs, 'sql, 'doc, 'gen, 'db) searcher_world"
  assumes "en_is_directory (sw_env w fs) path" and "DBType_of_string db_type = Inl e" and "OutputFormat_of_string fmt = Inr f"
  shows "\<exists>s. Python_init w path db_type conn (new_searcher, fs) = (Inr True, s, fs) \<and> ps_service s = None \<and>
    fst (Python_search w fmt q (s, fs)) = Inr not_initialised_text"
proof -
  have "caught e" using assms(2) by (auto simp: DBType_of_string_def Let_def caught_def split: if_splits)
  then show ?thesis
    by (simp add: Python_init_def assms new_searcher_def Python_search_def searchImpl_def use_case_def)
qed

theorem python_init_unchecked_witness:
  "\<exists>s. Python_init par_world ''/tmp/xapian'' ''oracle'' [] (new_searcher, []) = (Inr True, s, []) \<and> ps_service s = None \<and>
     fst (Python_search par_world ''J'' ''par'' (s, [])) = Inr not_initialised_text"
proof -
  have "DBType_of_string ''oracle'' \<noteq> Inr d" for d by (cases d) code_simp+
  then obtain e where "DBType_of_string ''oracle'' = Inl e" by (cases "DBType_of_string ''oracle''") auto
  moreover have "OutputFormat_of_string ''J'' = Inr JSON" by code_simp
  moreover have "en_is_directory (sw_env par_world []) ''/tmp/xapian''" by (simp add: par_world_def par_env_def one_phrase_env_def)
  ultimately show ?thesis
    using python_init_unchecked [of par_world "[]" "''/tmp/xapian''" "''oracle''" e "''J''" JSON] by blast
qed

end
