(* ===== verification/Readline.thy ===== *)
theory Readline
  imports Services
begin

text \<open>
  The wrapper around GNU readline (\<^verbatim>\<open>ui/cmdline/SReadline.hpp\<close>): the tokens of a line, the completion of a token
  against the registered command lines, the history and its files, and the bindings of keys.

  Readline and its history are a library: what is typed, the list of the history, the keymaps and the completion of
  file names are parameters, with the documented behaviour of the history in a locale. A limit of the history is a
  number far below the bounds of \<^verbatim>\<open>int\<close>. Files are texts; a path that cannot be opened has none.
\<close>

section \<open>Strings\<close>

text \<open>White space in the classic locale, and \<^verbatim>\<open>boost::algorithm::trim\<close>.\<close>

definition is_space :: "char \<Rightarrow> bool" where
  "is_space c \<longleftrightarrow> c \<in> {CHR '' '', CHR 0x09, CHR 0x0A, CHR 0x0B, CHR 0x0C, CHR 0x0D}"

definition trim_space :: "string \<Rightarrow> string" where
  "trim_space s = rev (dropWhile is_space (rev (dropWhile is_space s)))"

section \<open>Tokens\<close>

definition SplitTokens :: "tokeniser \<Rightarrow> string \<Rightarrow> string list" where
  "SplitTokens tkz Source = fold (\<lambda>SingleToken Container. Container @ [trim_space SingleToken])
     (tkz [CHR '' '', CHR 0x09, CHR 0x0A] Source) []"

fun tokens_loop :: "string list \<Rightarrow> string list \<Rightarrow> bool" where
  "tokens_loop Pattern [] = True"
| "tokens_loop [] (lInput # j) = False"
| "tokens_loop (lPattern # k) (lInput # j) =
     (if lPattern = ''%file'' then tokens_loop k j
      else if lPattern \<noteq> lInput then False
      else tokens_loop k j)"

definition AreTokensEqual :: "string list \<Rightarrow> string list \<Rightarrow> bool" where
  "AreTokensEqual Pattern Input = (if length Input > length Pattern then False else tokens_loop Pattern Input)"

section \<open>Completion\<close>

text \<open>
  The global storages: the registered command lines, the tokens before the one to complete, and the static variables
  of the generator.
\<close>

record completion_state =
  cs_Completions :: "string list list"
  cs_Tokens :: "string list"
  cs_Length :: nat
  cs_Iterator :: "string list list"

definition RegisterCompletions :: "tokeniser \<Rightarrow> string list \<Rightarrow> completion_state \<Rightarrow> completion_state" where
  "RegisterCompletions tkz Container st =
     st\<lparr>cs_Completions := fold (\<lambda>kStr Completions. Completions @ [SplitTokens tkz kStr]) Container []\<rparr>"

text \<open>What is to be done with the token: nothing, the completion of file names, or the generator.\<close>

datatype completion = No_completion | File_completion | Custom_completion

fun pretender_loop :: "string list \<Rightarrow> string list list \<Rightarrow> bool \<Rightarrow> completion" where
  "pretender_loop lTokens [] FoundPretender = (if FoundPretender then Custom_completion else No_completion)"
| "pretender_loop lTokens (lTokenStorage # k) FoundPretender =
     (if AreTokensEqual lTokenStorage lTokens = False then pretender_loop lTokens k FoundPretender
      else if length lTokenStorage > length lTokens then
        (if lTokenStorage ! length lTokens = ''%file'' then File_completion else pretender_loop lTokens k True)
      else pretender_loop lTokens k FoundPretender)"

definition UserCompletion :: "tokeniser \<Rightarrow> string \<Rightarrow> nat \<Rightarrow> completion_state \<Rightarrow> completion \<times> completion_state" where
  "UserCompletion tkz rl_line_buffer start st =
     (if cs_Completions st = [] then (No_completion, st)
      else
        let PreInput = take start rl_line_buffer;
            st = st\<lparr>cs_Tokens := SplitTokens tkz PreInput\<rparr>
        in (pretender_loop (cs_Tokens st) (cs_Completions st) False, st))"

text \<open>The loop of the generator: the next candidate, and the iterator after it. Equality of the first characters is
  \<^verbatim>\<open>strncmp\<close> of strings without a null character.\<close>

fun generator_loop :: "string list \<Rightarrow> string \<Rightarrow> nat \<Rightarrow> string list list \<Rightarrow> string option \<times> string list list" where
  "generator_loop lTokens typed lLength [] = (None, [])"
| "generator_loop lTokens typed lLength (lCompletion # Iterator) =
     (if AreTokensEqual lCompletion lTokens = False then generator_loop lTokens typed lLength Iterator
      else if length lCompletion > length lTokens then
        if lCompletion ! length lTokens = ''%file'' then generator_loop lTokens typed lLength Iterator
        else
          let lCompletionCharStr = c_str (lCompletion ! length lTokens)
          in if take lLength typed = take lLength lCompletionCharStr then (Some lCompletionCharStr, Iterator)
             else generator_loop lTokens typed lLength Iterator
      else generator_loop lTokens typed lLength Iterator)"

definition Generator :: "string \<Rightarrow> int \<Rightarrow> completion_state \<Rightarrow> string option \<times> completion_state" where
  "Generator typed State st =
     (let st = (if State = 0 then st\<lparr>cs_Iterator := cs_Completions st, cs_Length := length typed\<rparr> else st);
          (r, Iterator) = generator_loop (cs_Tokens st) typed (cs_Length st) (cs_Iterator st)
      in (r, st\<lparr>cs_Iterator := Iterator\<rparr>))"

text \<open>How readline uses a generator: a first call with state 0, then others until there is no candidate; with fuel.\<close>

fun rl_candidates :: "nat \<Rightarrow> string \<Rightarrow> int \<Rightarrow> completion_state \<Rightarrow> string list option" where
  "rl_candidates 0 typed State st = None"
| "rl_candidates (Suc fuel) typed State st =
     (case Generator typed State st of
        (None, st) \<Rightarrow> Some []
      | (Some s, st) \<Rightarrow> map_option (Cons s) (rl_candidates fuel typed (State + 1) st))"

section \<open>History\<close>

record 'h history_ops =
  ho_list :: "'h \<Rightarrow> string list"
  ho_add :: "string \<Rightarrow> 'h \<Rightarrow> 'h"
  ho_stifle :: "nat \<Rightarrow> 'h \<Rightarrow> 'h"
  ho_clear :: "'h \<Rightarrow> 'h"

definition is_new :: "'h history_ops \<Rightarrow> string \<Rightarrow> 'h \<Rightarrow> bool" where
  "is_new ops Input h \<longleftrightarrow> ho_list ops h = [] \<or> Input \<noteq> ho_list ops h ! (length (ho_list ops h) - 1)"

text \<open>A line that readline returns (\<open>None\<close> at the end of the input): the trimmed line, whether the input ends, and the
  history.\<close>

definition GetLine :: "'h history_ops \<Rightarrow> nat \<Rightarrow> string option \<Rightarrow> 'h \<Rightarrow> string \<times> bool \<times> 'h" where
  "GetLine ops HistoryLimit ReadLine h =
     (case ReadLine of
        None \<Rightarrow> ([], True, h)
      | Some line \<Rightarrow>
          let Input = trim_space line;
              h = (if Input \<noteq> [] then
                     if is_new ops Input h then
                       let h = ho_add ops (c_str Input) h
                       in if length (ho_list ops h) \<ge> HistoryLimit then ho_stifle ops HistoryLimit h else h
                     else h
                   else h)
          in (Input, False, h))"

definition GetLine_tokens ::
    "tokeniser \<Rightarrow> 'h history_ops \<Rightarrow> nat \<Rightarrow> string option \<Rightarrow> 'h \<Rightarrow> string \<times> string list \<times> bool \<times> 'h" where
  "GetLine_tokens tkz ops HistoryLimit ReadLine h =
     (let (Input, BreakOut, h) = GetLine ops HistoryLimit ReadLine h in (Input, SplitTokens tkz Input, BreakOut, h))"

definition GetHistory :: "'h history_ops \<Rightarrow> 'h \<Rightarrow> string list \<Rightarrow> string list" where
  "GetHistory ops h Container = fold (\<lambda>line Container. Container @ [line]) (ho_list ops h) Container"

definition SaveHistory_stream :: "'h history_ops \<Rightarrow> 'h \<Rightarrow> string \<Rightarrow> string" where
  "SaveHistory_stream ops h OS = fold (\<lambda>line OS. OS @ line @ [CHR 0x0A]) (ho_list ops h) OS"

text \<open>The files: a file that is opened for writing loses what it held.\<close>

record 'fs history_files =
  hf_read :: "string \<Rightarrow> 'fs \<Rightarrow> string option"
  hf_write :: "string \<Rightarrow> string \<Rightarrow> 'fs \<Rightarrow> 'fs option"

definition SaveHistory :: "'fs history_files \<Rightarrow> 'h history_ops \<Rightarrow> string \<Rightarrow> 'h \<Rightarrow> 'fs \<Rightarrow> bool \<times> 'fs" where
  "SaveHistory files ops FileName h fs =
     (if FileName = [] then (False, fs)
      else case hf_write files FileName (SaveHistory_stream ops h []) fs of
             None \<Rightarrow> (False, fs)
           | Some fs \<Rightarrow> (True, fs))"

text \<open>The lines that the loop on \<^verbatim>\<open>getline\<close> reads: it stops when the end of the stream is met before a line break.\<close>

fun getlines :: "string \<Rightarrow> string \<Rightarrow> string list" where
  "getlines [] OneLine = []"
| "getlines (c # IS) OneLine =
     (if c = CHR 0x0A then rev OneLine # getlines IS [] else getlines IS (c # OneLine))"

definition LoadHistory_stream :: "'h history_ops \<Rightarrow> nat \<Rightarrow> string \<Rightarrow> 'h \<Rightarrow> 'h" where
  "LoadHistory_stream ops HistoryLimit IS h =
     (let h = ho_clear ops h;
          h = fold (\<lambda>OneLine h. let OneLine = trim_space OneLine
                in if is_new ops OneLine h then ho_add ops (c_str OneLine) h else h) (getlines IS []) h
      in ho_stifle ops HistoryLimit h)"

definition LoadHistory :: "'fs history_files \<Rightarrow> 'h history_ops \<Rightarrow> nat \<Rightarrow> string \<Rightarrow> 'fs \<Rightarrow> 'h \<Rightarrow> bool \<times> 'h" where
  "LoadHistory files ops HistoryLimit FileName fs h =
     (if FileName = [] then (False, h)
      else case hf_read files FileName fs of
             None \<Rightarrow> (False, h)
           | Some IS \<Rightarrow> (True, LoadHistory_stream ops HistoryLimit IS h))"

text \<open>The reader: it loads the history of its file when it is created, and saves it when it is destroyed.\<close>

definition DefaultHistoryLimit :: nat where
  "DefaultHistoryLimit = 64"

definition new_SReadline :: "'fs history_files \<Rightarrow> 'h history_ops \<Rightarrow> string \<Rightarrow> nat \<Rightarrow> 'fs \<Rightarrow> 'h \<Rightarrow> 'h" where
  "new_SReadline files ops historyFileName Limit fs h = snd (LoadHistory files ops Limit historyFileName fs h)"

definition delete_SReadline :: "'fs history_files \<Rightarrow> 'h history_ops \<Rightarrow> string \<Rightarrow> 'h \<Rightarrow> 'fs \<Rightarrow> 'fs" where
  "delete_SReadline files ops HistoryFileName h fs = snd (SaveHistory files ops HistoryFileName h fs)"

section \<open>Keymaps\<close>

text \<open>
  The keymaps of readline are identified by numbers, a callback by a value of a type of its own. The global map of the bindings is
  a map of maps, in which an empty callback is no binding: \<^verbatim>\<open>operator[]\<close> inserts it, and calling it throws.
\<close>

record 'rl keymap_ops =
  rl_make_keymap :: "'rl \<Rightarrow> nat option \<times> 'rl"
  rl_make_bare_keymap :: "'rl \<Rightarrow> nat option \<times> 'rl"
  rl_copy_keymap :: "nat \<Rightarrow> 'rl \<Rightarrow> nat option \<times> 'rl"
  rl_discard_keymap :: "nat \<Rightarrow> 'rl \<Rightarrow> 'rl"
  rl_bind_key_in_map :: "int \<Rightarrow> nat \<Rightarrow> 'rl \<Rightarrow> bool \<times> 'rl"
  rl_unbind_key_in_map :: "int \<Rightarrow> nat \<Rightarrow> 'rl \<Rightarrow> 'rl"
  rl_set_keymap :: "nat \<Rightarrow> 'rl \<Rightarrow> 'rl"
  rl_get_keymap :: "'rl \<Rightarrow> nat"

record ('rl, 'cb) keymap_state =
  ks_Keymaps :: "nat \<rightharpoonup> (int \<rightharpoonup> 'cb)"
  ks_Earlykeymap :: "nat option"
  ks_readline :: 'rl

definition register_keymap :: "nat option \<times> 'rl \<Rightarrow> ('rl, 'cb) keymap_state \<Rightarrow> nat outcome \<times> ('rl, 'cb) keymap_state" where
  "register_keymap made st =
     (case made of
        (None, rl) \<Rightarrow> (Inl (StdException ''Cannot allocate keymap.''), st\<lparr>ks_readline := rl\<rparr>)
      | (Some keymap, rl) \<Rightarrow> (Inr keymap, st\<lparr>ks_readline := rl, ks_Keymaps := (ks_Keymaps st)(keymap \<mapsto> Map.empty)\<rparr>))"

definition new_SKeymap :: "'rl keymap_ops \<Rightarrow> bool \<Rightarrow> ('rl, 'cb) keymap_state \<Rightarrow> nat outcome \<times> ('rl, 'cb) keymap_state" where
  "new_SKeymap rl PrintableBound st =
     register_keymap (if PrintableBound then rl_make_keymap rl (ks_readline st) else rl_make_bare_keymap rl (ks_readline st)) st"

definition SKeymap_of_pattern :: "'rl keymap_ops \<Rightarrow> nat \<Rightarrow> ('rl, 'cb) keymap_state \<Rightarrow> nat outcome \<times> ('rl, 'cb) keymap_state" where
  "SKeymap_of_pattern rl Pattern st = register_keymap (rl_copy_keymap rl Pattern (ks_readline st)) st"

text \<open>The copy constructor neither checks the new keymap nor registers it.\<close>

definition SKeymap_copy :: "'rl keymap_ops \<Rightarrow> nat \<Rightarrow> ('rl, 'cb) keymap_state \<Rightarrow> nat option \<times> ('rl, 'cb) keymap_state" where
  "SKeymap_copy rl rhs st = (let (keymap, r) = rl_copy_keymap rl rhs (ks_readline st) in (keymap, st\<lparr>ks_readline := r\<rparr>))"

definition delete_SKeymap :: "'rl keymap_ops \<Rightarrow> nat \<Rightarrow> ('rl, 'cb) keymap_state \<Rightarrow> ('rl, 'cb) keymap_state" where
  "delete_SKeymap rl keymap st =
     st\<lparr>ks_Keymaps := (ks_Keymaps st)(keymap := None), ks_readline := rl_discard_keymap rl keymap (ks_readline st)\<rparr>"

definition binds :: "nat \<Rightarrow> ('rl, 'cb) keymap_state \<Rightarrow> (int \<rightharpoonup> 'cb)" where
  "binds keymap st = (case ks_Keymaps st keymap of None \<Rightarrow> Map.empty | Some b \<Rightarrow> b)"

definition Bind :: "'rl keymap_ops \<Rightarrow> nat \<Rightarrow> int \<Rightarrow> 'cb \<Rightarrow> ('rl, 'cb) keymap_state \<Rightarrow> unit outcome \<times> ('rl, 'cb) keymap_state" where
  "Bind rl keymap Key Callback st =
     (let st = st\<lparr>ks_Keymaps := (ks_Keymaps st)(keymap \<mapsto> (binds keymap st)(Key \<mapsto> Callback))\<rparr>;
          (ok, r) = rl_bind_key_in_map rl Key keymap (ks_readline st);
          st = st\<lparr>ks_readline := r\<rparr>
      in if \<not> ok then
           (Inl (StdException ''Invalid key.''), st\<lparr>ks_Keymaps := (ks_Keymaps st)(keymap \<mapsto> (binds keymap st)(Key := None))\<rparr>)
         else (Inr (), st))"

definition Unbind :: "'rl keymap_ops \<Rightarrow> nat \<Rightarrow> int \<Rightarrow> ('rl, 'cb) keymap_state \<Rightarrow> ('rl, 'cb) keymap_state" where
  "Unbind rl keymap Key st =
     (let st = st\<lparr>ks_readline := rl_unbind_key_in_map rl Key keymap (ks_readline st)\<rparr>
      in st\<lparr>ks_Keymaps := (ks_Keymaps st)(keymap \<mapsto> (binds keymap st)(Key := None))\<rparr>)"

definition SetKeymap :: "'rl keymap_ops \<Rightarrow> nat \<Rightarrow> ('rl, 'cb) keymap_state \<Rightarrow> ('rl, 'cb) keymap_state" where
  "SetKeymap rl NewKeymap st = st\<lparr>ks_readline := rl_set_keymap rl NewKeymap (ks_readline st), ks_Earlykeymap := Some NewKeymap\<rparr>"

definition StartupHook :: "'rl keymap_ops \<Rightarrow> ('rl, 'cb) keymap_state \<Rightarrow> ('rl, 'cb) keymap_state" where
  "StartupHook rl st =
     (case ks_Earlykeymap st of None \<Rightarrow> st | Some k \<Rightarrow> st\<lparr>ks_readline := rl_set_keymap rl k (ks_readline st)\<rparr>)"

text \<open>Which callback a key calls.\<close>

definition KeyDispatcher :: "'rl keymap_ops \<Rightarrow> int \<Rightarrow> ('rl, 'cb) keymap_state \<Rightarrow> 'cb outcome" where
  "KeyDispatcher rl Key st =
     (case ks_Keymaps st (rl_get_keymap rl (ks_readline st)) of
        None \<Rightarrow> Inl (StdException ''Error selecting a keymap.'')
      | Some Set \<Rightarrow> (case Set Key of None \<Rightarrow> Inl (StdException ''call to empty boost::function'') | Some Callback \<Rightarrow> Inr Callback))"

section \<open>What is proposed\<close>

text \<open>The words that the registered command lines have after the tokens, and those that complete what is typed.\<close>

definition next_words :: "string list list \<Rightarrow> string list \<Rightarrow> string list" where
  "next_words cs ts = map (\<lambda>c. c ! length ts) (filter (\<lambda>c. AreTokensEqual c ts \<and> length ts < length c) cs)"

definition proposals :: "string list list \<Rightarrow> string list \<Rightarrow> string \<Rightarrow> string list" where
  "proposals cs ts typed =
     filter (\<lambda>s. take (length typed) s = typed) (map c_str (filter (\<lambda>v. v \<noteq> ''%file'') (next_words cs ts)))"

lemma next_words_simps [simp]:
  "next_words [] ts = []"
  "next_words (c # cs) ts =
     (if AreTokensEqual c ts \<and> length ts < length c then c ! length ts # next_words cs ts else next_words cs ts)"
  by (simp_all add: next_words_def)

lemma SplitTokens_eq: "SplitTokens tkz s = map trim_space (tkz [CHR '' '', CHR 0x09, CHR 0x0A] s)"
proof -
  have "fold (\<lambda>v vs. vs @ [trim_space v]) xs ys = ys @ map trim_space xs" for xs ys by (induction xs arbitrary: ys) simp_all
  then show ?thesis by (simp add: SplitTokens_def)
qed

lemma RegisterCompletions_eq: "cs_Completions (RegisterCompletions tkz cs st) = map (SplitTokens tkz) cs"
proof -
  have "fold (\<lambda>v vs. vs @ [f v]) xs ys = ys @ map f xs" for f :: "string \<Rightarrow> string list" and xs ys
    by (induction xs arbitrary: ys) simp_all
  then show ?thesis by (simp add: RegisterCompletions_def)
qed

lemma AreTokensEqual_iff:
  "AreTokensEqual c ts \<longleftrightarrow> length ts \<le> length c \<and> (\<forall>i < length ts. c ! i = ''%file'' \<or> c ! i = ts ! i)"
proof (cases "length ts \<le> length c")
  case True
  then have "tokens_loop c ts \<longleftrightarrow> (\<forall>i < length ts. c ! i = ''%file'' \<or> c ! i = ts ! i)"
  proof (induction c ts rule: tokens_loop.induct)
    case (3 v k u j)
    then show ?case by (auto simp: All_less_Suc2)
  qed auto
  then show ?thesis using True by (simp add: AreTokensEqual_def)
qed (simp add: AreTokensEqual_def)

lemma pretender_loop_eq:
  "pretender_loop ts cs b =
     (if ''%file'' \<in> set (next_words cs ts) then File_completion
      else if b \<or> next_words cs ts \<noteq> [] then Custom_completion else No_completion)"
  by (induction cs arbitrary: b) auto

lemma generator_loop_next:
  "case generator_loop ts typed (length typed) cs of
     (None, it) \<Rightarrow> proposals cs ts typed = []
   | (Some s, it) \<Rightarrow> proposals cs ts typed = s # proposals it ts typed \<and> length it < length cs"
proof (induction cs)
  case Nil
  show ?case by (simp add: proposals_def)
next
  case (Cons c cs)
  show ?case
    using Cons.IH by (auto simp: proposals_def Let_def eq_commute [of typed] split: prod.splits option.splits)
qed

lemma rl_candidates_next:
  assumes "length cs < fuel"
    and "Generator typed State st = (let (r, it) = generator_loop (cs_Tokens st) typed (length typed) cs
      in (r, st\<lparr>cs_Iterator := it, cs_Length := length typed\<rparr>))" and "0 \<le> State"
  shows "rl_candidates fuel typed State st = Some (proposals cs (cs_Tokens st) typed)"
  using assms
proof (induction fuel arbitrary: cs State st)
  case 0
  then show ?case by simp
next
  case (Suc fuel)
  obtain r it where step: "generator_loop (cs_Tokens st) typed (length typed) cs = (r, it)" by (cases "generator_loop (cs_Tokens st) typed (length typed) cs")
  show ?case
  proof (cases r)
    case None
    then show ?thesis using generator_loop_next [where ts="cs_Tokens st" and typed=typed and cs=cs] Suc.prems(2) by (simp add: step)
  next
    case (Some s)
    have props: "proposals cs (cs_Tokens st) typed = s # proposals it (cs_Tokens st) typed" "length it < length cs"
      using generator_loop_next [where ts="cs_Tokens st" and typed=typed and cs=cs] by (simp_all add: step Some)
    let ?st = "st\<lparr>cs_Iterator := it, cs_Length := length typed\<rparr>"
    have "rl_candidates fuel typed (State + 1) ?st = Some (proposals it (cs_Tokens ?st) typed)"
    proof (rule Suc.IH)
      show "length it < fuel" using props(2) Suc.prems(1) by simp
      show "Generator typed (State + 1) ?st = (let (r, it) = generator_loop (cs_Tokens ?st) typed (length typed) it
          in (r, ?st\<lparr>cs_Iterator := it, cs_Length := length typed\<rparr>))"
        using Suc.prems(3) by (simp add: Generator_def Let_def case_prod_beta')
      show "0 \<le> State + 1" using Suc.prems(3) by simp
    qed
    then show ?thesis using Suc.prems(2) props(1) by (simp add: step Some)
  qed
qed

lemma rl_candidates_eq:
  assumes "length (cs_Completions st) < fuel"
  shows "rl_candidates fuel typed 0 st = Some (proposals (cs_Completions st) (cs_Tokens st) typed)"
  by (rule rl_candidates_next [OF assms]) (simp_all add: Generator_def Let_def case_prod_beta')

section \<open>What the history holds\<close>

text \<open>The last entries of a list, without a limit or within it.\<close>

definition last_entries :: "nat option \<Rightarrow> 'a list \<Rightarrow> 'a list" where
  "last_entries limit xs = (case limit of None \<Rightarrow> xs | Some n \<Rightarrow> rev (take n (rev xs)))"

text \<open>The documented behaviour of the history: once it is stifled, it keeps the last entries only.\<close>

locale history_library =
  fixes ops :: "'h history_ops" and limit_of :: "'h \<Rightarrow> nat option"
  assumes list_add: "ho_list ops (ho_add ops s h) = last_entries (limit_of h) (ho_list ops h @ [s])"
    and limit_add: "limit_of (ho_add ops s h) = limit_of h"
    and list_stifle: "ho_list ops (ho_stifle ops n h) = last_entries (Some n) (ho_list ops h)"
    and limit_stifle: "limit_of (ho_stifle ops n h) = Some n"
    and list_clear: "ho_list ops (ho_clear ops h) = []"
    and limit_clear: "limit_of (ho_clear ops h) = limit_of h"

lemma last_entries_idem: "last_entries l (last_entries l xs) = last_entries l xs"
  by (cases l) (simp_all add: last_entries_def)

lemma last_entries_snoc: "last_entries l (last_entries l xs @ [x]) = last_entries l (xs @ [x])"
proof (cases l)
  case (Some n)
  then show ?thesis by (cases n) (simp_all add: last_entries_def min_def)
qed (simp add: last_entries_def)

lemma last_entries_small: "length xs \<le> n \<Longrightarrow> last_entries (Some n) xs = xs"
  by (simp add: last_entries_def)

lemma remdups_adj_snoc:
  "remdups_adj (xs @ [x]) = (if xs \<noteq> [] \<and> last xs = x then remdups_adj xs else remdups_adj xs @ [x])"
  by (induction xs rule: remdups_adj.induct) auto

lemma remdups_adj_distinct: "successively (\<noteq>) (remdups_adj xs)"
  by (induction xs rule: remdups_adj.induct) (auto simp: successively_Cons)

lemma remdups_adj_id: "successively (\<noteq>) xs \<Longrightarrow> remdups_adj xs = xs"
  by (induction xs rule: remdups_adj.induct) auto

lemma last_last_entries: "last_entries l xs \<noteq> [] \<Longrightarrow> last (last_entries l xs) = last xs"
  by (cases l) (auto simp: last_entries_def last_rev hd_take hd_rev)

text \<open>A line that is added unless it is the last: the next value of a history without repetitions.\<close>

lemma next_history:
  assumes "xs = last_entries l (remdups_adj ls)"
  shows "last_entries l (if xs = [] \<or> x \<noteq> last xs then xs @ [x] else xs) = last_entries l (remdups_adj (ls @ [x]))"
proof (cases "xs = []")
  case False
  then have "last xs = last ls" "ls \<noteq> []" using assms last_last_entries [of l "remdups_adj ls"]
    by (auto simp: last_remdups_adj last_entries_def split: option.splits)
  then show ?thesis using False assms by (simp add: remdups_adj_snoc last_entries_snoc last_entries_idem)
next
  case True
  show ?thesis
  proof (cases "ls = []")
    case False
    then have "remdups_adj ls \<noteq> []" by simp
    then have "l = Some 0" using True assms by (auto simp: last_entries_def split: option.splits)
    then show ?thesis by (simp add: last_entries_def)
  qed (simp add: True)
qed

lemma trim_space_subset: "set (trim_space s) \<subseteq> set s"
  unfolding trim_space_def by (metis set_dropWhileD set_rev subsetI)

lemma dropWhile_head: "xs = [] \<or> \<not> P (hd xs) \<Longrightarrow> dropWhile P xs = xs"
  by (cases xs) simp_all

lemma hd_dropWhile_stop: "dropWhile P xs \<noteq> [] \<Longrightarrow> \<not> P (hd (dropWhile P xs))"
  by (rule hd_dropWhile)

lemma trim_space_idem: "trim_space (trim_space s) = trim_space s"
proof -
  let ?d = "dropWhile is_space s"
  let ?r = "dropWhile is_space (rev ?d)"
  have "rev ?r = [] \<or> \<not> is_space (hd (rev ?r))"
  proof (cases "?r = []")
    case False
    then have "?d \<noteq> []" by (metis dropWhile.simps(1) rev.simps(1))
    have "last ?r = hd ?d"
      using False suffix_dropWhile [of is_space "rev ?d"] by (metis last_rev last_appendR suffix_def)
    then show ?thesis using hd_dropWhile_stop [OF \<open>?d \<noteq> []\<close>] False by (simp add: hd_rev)
  qed simp
  then have "dropWhile is_space (rev ?r) = rev ?r" by (rule dropWhile_head)
  then show ?thesis by (simp add: trim_space_def)
qed

lemma is_new_iff: "is_new ops x h \<longleftrightarrow> ho_list ops h = [] \<or> x \<noteq> last (ho_list ops h)"
  by (auto simp: is_new_def last_conv_nth)

lemma getlines_line: "CHR 0x0A \<notin> set l \<Longrightarrow> getlines (l @ CHR 0x0A # s) acc = (rev acc @ l) # getlines s []"
  by (induction l arbitrary: acc) auto

lemma getlines_rest: "CHR 0x0A \<notin> set s \<Longrightarrow> getlines s acc = []"
  by (induction s arbitrary: acc) auto

text \<open>A line without a line break after it is not read.\<close>

lemma getlines_lines:
  assumes "\<forall>l \<in> set ls. CHR 0x0A \<notin> set l" and "CHR 0x0A \<notin> set unfinished"
  shows "getlines (concat (map (\<lambda>l. l @ [CHR 0x0A]) ls) @ unfinished) [] = ls"
  using assms(1) by (induction ls) (simp_all add: getlines_line getlines_rest [OF assms(2)])

lemma SaveHistory_stream_eq: "SaveHistory_stream ops h [] = concat (map (\<lambda>l. l @ [CHR 0x0A]) (ho_list ops h))"
proof -
  have "fold (\<lambda>line OS. OS @ line @ [CHR 0x0A]) xs os = os @ concat (map (\<lambda>l. l @ [CHR 0x0A]) xs)" for xs os
    by (induction xs arbitrary: os) simp_all
  then show ?thesis by (simp add: SaveHistory_stream_def)
qed

text \<open>The lines that a user types, one after the other.\<close>

definition read_all :: "'h history_ops \<Rightarrow> nat \<Rightarrow> string list \<Rightarrow> 'h \<Rightarrow> 'h" where
  "read_all ops limit typed h = fold (\<lambda>line h. snd (snd (GetLine ops limit (Some line) h))) typed h"

definition kept :: "nat \<Rightarrow> string list \<Rightarrow> string list" where
  "kept limit ls = last_entries (Some limit) (remdups_adj ls)"

context history_library
begin

lemma add_unless_last:
  assumes "ho_list ops h = last_entries (limit_of h) (remdups_adj ls)"
  shows "ho_list ops (if is_new ops x h then ho_add ops x h else h) = last_entries (limit_of h) (remdups_adj (ls @ [x]))"
  using next_history [OF assms, of x] assms
  by (auto simp: is_new_iff list_add last_entries_idem)

lemma GetLine_keeps:
  assumes "limit_of h \<in> {None, Some limit}" and "ho_list ops h = kept limit ls" and "CHR 0x00 \<notin> set line"
  shows "limit_of (snd (snd (GetLine ops limit (Some line) h))) \<in> {None, Some limit} \<and>
    ho_list ops (snd (snd (GetLine ops limit (Some line) h))) = kept limit (ls @ filter (\<lambda>l. l \<noteq> []) [trim_space line])"
proof (cases "trim_space line = []")
  case True
  then show ?thesis using assms by (simp add: GetLine_def)
next
  case False
  let ?x = "trim_space line"
  have x: "c_str ?x = ?x" using assms(3) trim_space_subset [of line] by (intro c_str_id) auto
  note keep = next_history [OF assms(2) [unfolded kept_def], of ?x, folded is_new_iff kept_def]
  show ?thesis
  proof (cases "is_new ops ?x h")
    case False
    then show ?thesis using assms(1) keep \<open>?x \<noteq> []\<close> last_entries_idem [of "Some limit" "remdups_adj ls"] assms(2)
      by (simp add: GetLine_def kept_def)
  next
    case True
    let ?h = "ho_add ops ?x h"
    have new: "kept limit (ls @ [?x]) = last_entries (Some limit) (ho_list ops h @ [?x])" using keep True by simp
    have add: "ho_list ops ?h = last_entries (limit_of h) (ho_list ops h @ [?x])" by (rule list_add)
    show ?thesis
    proof (cases "length (ho_list ops ?h) \<ge> limit")
      case True
      have "last_entries (Some limit) (ho_list ops ?h) = kept limit (ls @ [?x])"
        using assms(1) add by (auto simp: new last_entries_idem) (simp add: last_entries_def)
      then show ?thesis using True \<open>is_new ops ?x h\<close> \<open>?x \<noteq> []\<close> by (simp add: GetLine_def x list_stifle limit_stifle Let_def)
    next
      case False
      have "ho_list ops ?h = last_entries (Some limit) (ho_list ops ?h)" using False by (simp add: last_entries_small)
      then have "ho_list ops ?h = kept limit (ls @ [?x])"
        using assms(1) add by (auto simp: new last_entries_idem) (simp add: last_entries_def)
      then show ?thesis using False \<open>is_new ops ?x h\<close> \<open>?x \<noteq> []\<close> assms(1) by (simp add: GetLine_def x limit_add Let_def)
    qed
  qed
qed

lemma read_all_keeps:
  assumes "limit_of h \<in> {None, Some limit}" and "ho_list ops h = kept limit ls" and "\<forall>line \<in> set typed. CHR 0x00 \<notin> set line"
  shows "limit_of (read_all ops limit typed h) \<in> {None, Some limit} \<and>
    ho_list ops (read_all ops limit typed h) = kept limit (ls @ filter (\<lambda>l. l \<noteq> []) (map trim_space typed))"
  using assms
proof (induction typed arbitrary: h ls)
  case Nil
  then show ?case by (simp add: read_all_def)
next
  case (Cons line typed)
  have line: "CHR 0x00 \<notin> set line" and rest: "\<forall>line \<in> set typed. CHR 0x00 \<notin> set line" using Cons.prems(3) by simp_all
  note step = GetLine_keeps [OF Cons.prems(1,2) line]
  from Cons.IH [OF conjunct1 [OF step] conjunct2 [OF step] rest] show ?case by (simp add: read_all_def split: if_splits)
qed

lemma load_keeps:
  assumes "limit_of h \<in> {None, Some limit}" and "\<forall>l \<in> set (getlines IS []). CHR 0x00 \<notin> set l"
  shows "ho_list ops (LoadHistory_stream ops limit IS h) = kept limit (map trim_space (getlines IS []))"
proof -
  let ?step = "\<lambda>OneLine h. let OneLine = trim_space OneLine in if is_new ops OneLine h then ho_add ops (c_str OneLine) h else h"
  have run: "limit_of (fold ?step xs h) = limit_of h \<and>
      ho_list ops (fold ?step xs h) = last_entries (limit_of h) (remdups_adj (ls @ map trim_space xs))"
    if "ho_list ops h = last_entries (limit_of h) (remdups_adj ls)" "\<forall>l \<in> set xs. CHR 0x00 \<notin> set l" for xs ls h
    using that
  proof (induction xs arbitrary: h ls)
    case (Cons l xs)
    have "c_str (trim_space l) = trim_space l" using Cons.prems(2) trim_space_subset [of l] by (intro c_str_id) auto
    then have step: "?step l h = (if is_new ops (trim_space l) h then ho_add ops (trim_space l) h else h)" by simp
    have lim: "limit_of (?step l h) = limit_of h" by (simp add: step limit_add)
    have "ho_list ops (?step l h) = last_entries (limit_of (?step l h)) (remdups_adj (ls @ [trim_space l]))"
      unfolding lim unfolding step by (rule add_unless_last [OF Cons.prems(1)])
    from Cons.IH [OF this] Cons.prems(2) lim show ?case by simp
  qed simp
  have "ho_list ops (ho_clear ops h) = last_entries (limit_of (ho_clear ops h)) (remdups_adj [])"
    by (simp add: list_clear last_entries_def split: option.split)
  from run [OF this assms(2)] assms(1) show ?thesis
    by (auto simp: LoadHistory_stream_def list_stifle limit_clear kept_def last_entries_idem) (simp_all add: last_entries_def)
qed

end

text \<open>The history of readline: its lines, and its limit once it is stifled.\<close>

record gnu_history =
  gh_lines :: "string list"
  gh_limit :: "nat option"

definition gnu_ops :: "gnu_history history_ops" where
  "gnu_ops = \<lparr>ho_list = gh_lines, ho_add = (\<lambda>s h. h\<lparr>gh_lines := last_entries (gh_limit h) (gh_lines h @ [s])\<rparr>),
     ho_stifle = (\<lambda>n h. \<lparr>gh_lines = last_entries (Some n) (gh_lines h), gh_limit = Some n\<rparr>), ho_clear = (\<lambda>h. h\<lparr>gh_lines := []\<rparr>)\<rparr>"

interpretation gnu: history_library gnu_ops gh_limit
  by unfold_locales (simp_all add: gnu_ops_def)

text \<open>Keymaps in memory: the next number, and the selected one.\<close>

definition memory_keymaps :: "(nat \<times> nat) keymap_ops" where
  "memory_keymaps = \<lparr>rl_make_keymap = (\<lambda>(n, k). (Some n, Suc n, k)), rl_make_bare_keymap = (\<lambda>(n, k). (Some n, Suc n, k)),
     rl_copy_keymap = (\<lambda>_ (n, k). (Some n, Suc n, k)), rl_discard_keymap = (\<lambda>_ r. r),
     rl_bind_key_in_map = (\<lambda>Key _ r. (0 \<le> Key, r)), rl_unbind_key_in_map = (\<lambda>_ _ r. r),
     rl_set_keymap = (\<lambda>k (n, _). (n, k)), rl_get_keymap = snd\<rparr>"

section \<open>Properties\<close>

text \<open>What is done with a token follows the registered command lines only: with the words that come after the tokens
  before it in the lines that agree with them, \<^verbatim>\<open>%file\<close> agreeing with anything. File names are completed when one
  of these words is \<^verbatim>\<open>%file\<close>; otherwise the candidates are, in the order of registration and with their repetitions,
  those of the words that begin with what is typed, whatever the generator was used for before.\<close>

theorem completion_correct:
  assumes "char_separator tkz"
  shows "let ts = map trim_space (split_tokens [CHR '' '', CHR 0x09, CHR 0x0A] (take start buffer));
       ws = next_words (cs_Completions st) ts; (c, st') = UserCompletion tkz buffer start st
     in c = (if ''%file'' \<in> set ws then File_completion else if ws \<noteq> [] then Custom_completion else No_completion) \<and>
       (\<forall>v. v \<in> set ws \<longleftrightarrow> (\<exists>c \<in> set (cs_Completions st). length ts < length c \<and> v = c ! length ts \<and>
          (\<forall>i < length ts. c ! i = ''%file'' \<or> c ! i = ts ! i))) \<and>
       (c = Custom_completion \<longrightarrow> (\<forall>fuel > length (cs_Completions st).
          rl_candidates fuel typed 0 st' = Some (filter (\<lambda>s. take (length typed) s = typed) (map c_str ws))))"
proof -
  let ?ts = "map trim_space (split_tokens [CHR '' '', CHR 0x09, CHR 0x0A] (take start buffer))"
  let ?ws = "next_words (cs_Completions st) ?ts"
  have words: "v \<in> set ?ws \<longleftrightarrow> (\<exists>c \<in> set (cs_Completions st). length ?ts < length c \<and> v = c ! length ?ts \<and>
      (\<forall>i < length ?ts. c ! i = ''%file'' \<or> c ! i = ?ts ! i))" for v
    unfolding next_words_def by (auto simp: AreTokensEqual_iff image_iff simp del: length_map nth_map)
  have run: "UserCompletion tkz buffer start st = (pretender_loop ?ts (cs_Completions st) False,
      if cs_Completions st = [] then st else st\<lparr>cs_Tokens := ?ts\<rparr>)"
    by (simp add: UserCompletion_def SplitTokens_eq char_separator.tkz_eq [OF assms] Let_def)
  have "rl_candidates fuel typed 0 (st\<lparr>cs_Tokens := ?ts\<rparr>) = Some (filter (\<lambda>s. take (length typed) s = typed) (map c_str ?ws))"
    if "''%file'' \<notin> set ?ws" "length (cs_Completions st) < fuel" for fuel
  proof -
    have "filter (\<lambda>v. v \<noteq> ''%file'') ?ws = ?ws" using that(1) by (intro filter_True) auto
    then show ?thesis using that(2) by (simp add: rl_candidates_eq proposals_def)
  qed
  then show ?thesis unfolding Let_def run prod.case pretender_loop_eq using words by (auto split: if_splits)
qed

theorem completion_correct_witness:
  "let st = RegisterCompletions split_tokens [''list_by_iata %iata_code'', ''load %file''] \<lparr>cs_Completions = [], cs_Tokens = [],
         cs_Length = 0, cs_Iterator = []\<rparr>
   in fst (UserCompletion split_tokens ''load n'' 5 st) = File_completion \<and>
     fst (UserCompletion split_tokens ''list_by_iata %'' 13 st) = Custom_completion \<and>
     rl_candidates 3 ''%'' 0 (snd (UserCompletion split_tokens ''list_by_iata %'' 13 st)) = Some [''%iata_code'']"
proof -
  let ?st = "RegisterCompletions split_tokens [''list_by_iata %iata_code'', ''load %file''] \<lparr>cs_Completions = [], cs_Tokens = [],
         cs_Length = 0, cs_Iterator = []\<rparr>"
  have cs: "cs_Completions ?st = [[''list_by_iata'', ''%iata_code''], [''load'', ''%file'']]" by code_simp
  have ts: "map trim_space (split_tokens [CHR '' '', CHR 0x09, CHR 0x0A] (take 5 ''load n'')) = [''load'']"
    "map trim_space (split_tokens [CHR '' '', CHR 0x09, CHR 0x0A] (take 13 ''list_by_iata %'')) = [''list_by_iata'']"
    by code_simp+
  have ws: "next_words (cs_Completions ?st) [''load''] = [''%file'']" "next_words (cs_Completions ?st) [''list_by_iata''] = [''%iata_code'']"
    unfolding cs by code_simp+
  have "c_str ''%iata_code'' = ''%iata_code''" by code_simp
  then show ?thesis
    using completion_correct [OF boost.char_separator_axioms, of 5 "''load n''" ?st "[]"]
      completion_correct [OF boost.char_separator_axioms, of 13 "''list_by_iata %''" ?st "''%''"]
    unfolding ts ws Let_def by (auto simp: cs case_prod_beta' simp del: rl_candidates.simps)
qed

text \<open>C24: The history of a session is the trimmed lines that are not empty, without immediate repetitions, and within the
  limit the last of them; when it can be saved, a reader that is created on the file has the same history, whatever
  the history was before.\<close>

theorem history_roundtrip:
  assumes "history_library ops limit_of" and "ho_list ops h0 = []" and "limit_of h0 \<in> {None, Some limit}"
    and "limit_of h1 \<in> {None, Some limit}" and "\<forall>line \<in> set typed. CHR 0x00 \<notin> set line \<and> CHR 0x0A \<notin> set line"
    and "\<And>path t fs fs'. hf_write files path t fs = Some fs' \<Longrightarrow> hf_read files path fs' = Some t"
    and "SaveHistory files ops name (read_all ops limit typed h0) fs = (True, fs')"
  shows "ho_list ops (read_all ops limit typed h0) = kept limit (filter (\<lambda>l. l \<noteq> []) (map trim_space typed)) \<and>
    ho_list ops (new_SReadline files ops name limit fs' h1) = ho_list ops (read_all ops limit typed h0)"
proof -
  let ?ls = "filter (\<lambda>l. l \<noteq> []) (map trim_space typed)"
  let ?h = "read_all ops limit typed h0"
  have empty: "ho_list ops h0 = kept limit []" using assms(2) by (simp add: kept_def last_entries_def)
  have "\<forall>line \<in> set typed. CHR 0x00 \<notin> set line" using assms(5) by blast
  from history_library.read_all_keeps [OF assms(1,3) empty this] have list: "ho_list ops ?h = kept limit ?ls" by simp
  have sub: "set (kept limit ?ls) \<subseteq> set ?ls"
    by (auto simp: kept_def last_entries_def dest!: in_set_takeD)
  have clean: "CHR 0x00 \<notin> set l \<and> CHR 0x0A \<notin> set l \<and> trim_space l = l" if "l \<in> set (kept limit ?ls)" for l
  proof -
    from that sub obtain t where "t \<in> set typed" "l = trim_space t" by auto
    then show ?thesis using assms(5) trim_space_subset [of t] trim_space_idem by auto
  qed
  have nl: "\<forall>l \<in> set (kept limit ?ls). CHR 0x0A \<notin> set l" and nul: "\<forall>l \<in> set (kept limit ?ls). CHR 0x00 \<notin> set l"
    using clean by blast+
  have lines: "getlines (SaveHistory_stream ops ?h []) [] = kept limit ?ls"
    using getlines_lines [OF nl, of "[]"] unfolding SaveHistory_stream_eq list by simp
  moreover have "map trim_space (kept limit ?ls) = kept limit ?ls" by (rule map_idI) (use clean in blast)
  moreover have "kept limit (kept limit ?ls) = kept limit ?ls"
  proof -
    have "successively (\<noteq>) (kept limit ?ls)"
    proof -
      have "suffix (kept limit ?ls) (remdups_adj ?ls)"
        by (simp add: kept_def last_entries_def suffix_to_prefix take_is_prefix)
      then obtain us where "remdups_adj ?ls = us @ kept limit ?ls" by (auto simp: suffix_def)
      then show ?thesis using remdups_adj_distinct [of ?ls] by (simp add: successively_append_iff)
    qed
    then have "kept limit (kept limit ?ls) = last_entries (Some limit) (kept limit ?ls)"
      by (subst kept_def) (simp only: remdups_adj_id)
    then show ?thesis by (simp only: kept_def last_entries_idem)
  qed
  ultimately have load: "ho_list ops (LoadHistory_stream ops limit (SaveHistory_stream ops ?h []) h1) = kept limit ?ls"
    using history_library.load_keeps [OF assms(1,4), of "SaveHistory_stream ops ?h []"] nul unfolding lines by metis
  have "name \<noteq> []" "hf_write files name (SaveHistory_stream ops ?h []) fs = Some fs'"
    using assms(7) by (auto simp: SaveHistory_def split: if_splits option.splits)
  then have "new_SReadline files ops name limit fs' h1 = LoadHistory_stream ops limit (SaveHistory_stream ops ?h []) h1"
    using assms(6) by (simp add: new_SReadline_def LoadHistory_def)
  then show ?thesis by (simp only: list load)
qed

theorem history_roundtrip_witness:
  "ho_list gnu_ops (new_SReadline \<lparr>hf_read = (\<lambda>p fs. fs), hf_write = (\<lambda>p t fs. Some (Some t))\<rparr> gnu_ops ''dbmgr.hist'' 2
       (snd (SaveHistory \<lparr>hf_read = (\<lambda>p fs. fs), hf_write = (\<lambda>p t fs. Some (Some t))\<rparr> gnu_ops ''dbmgr.hist''
          (read_all gnu_ops 2 [''help'', '' list_nb'', [], ''list_nb '', ''quit''] \<lparr>gh_lines = [], gh_limit = None\<rparr>) None))
       \<lparr>gh_lines = [''x''], gh_limit = Some 2\<rparr>) = [''list_nb'', ''quit'']"
proof -
  let ?files = "\<lparr>hf_read = (\<lambda>(p :: string) (fs :: string option). fs), hf_write = (\<lambda>p t fs. Some (Some t))\<rparr>"
  let ?h = "read_all gnu_ops 2 [''help'', '' list_nb'', [], ''list_nb '', ''quit''] \<lparr>gh_lines = [], gh_limit = None\<rparr>"
  have "SaveHistory ?files gnu_ops ''dbmgr.hist'' ?h None = (True, snd (SaveHistory ?files gnu_ops ''dbmgr.hist'' ?h None))"
    by (simp add: SaveHistory_def)
  from history_roundtrip [OF gnu.history_library_axioms _ _ _ _ _ this, of "\<lparr>gh_lines = [''x''], gh_limit = Some 2\<rparr>"]
  have "ho_list gnu_ops (new_SReadline ?files gnu_ops ''dbmgr.hist'' 2 (snd (SaveHistory ?files gnu_ops ''dbmgr.hist'' ?h None))
      \<lparr>gh_lines = [''x''], gh_limit = Some 2\<rparr>) = kept 2 (filter (\<lambda>l. l \<noteq> []) (map trim_space [''help'', '' list_nb'', [], ''list_nb '', ''quit'']))"
    by (simp add: gnu_ops_def)
  also have "\<dots> = [''list_nb'', ''quit'']" by code_simp
  finally show ?thesis .
qed

text \<open>A key that is bound in a keymap calls its callback when the keymap is selected; in a copy of the keymap the same
  key throws, since the copy is not registered.\<close>

theorem copied_keymap_unregistered:
  fixes st :: "('rl, 'cb) keymap_state"
  assumes "Bind rl k Key Callback st = (Inr (), st1)" and "SKeymap_copy rl k st1 = (Some k', st2)"
    and "k' \<noteq> k" and "ks_Keymaps st k' = None" and "\<And>k r. rl_get_keymap rl (rl_set_keymap rl k r) = k"
  shows "KeyDispatcher rl Key (SetKeymap rl k st2) = Inr Callback \<and>
    KeyDispatcher rl Key (SetKeymap rl k' st2) = Inl (StdException ''Error selecting a keymap.'')"
proof -
  have "ks_Keymaps st2 = (ks_Keymaps st)(k \<mapsto> (binds k st)(Key \<mapsto> Callback))"
    using assms(1,2) by (auto simp: Bind_def SKeymap_copy_def Let_def split: prod.splits if_splits)
  then show ?thesis using assms(3-5) by (simp add: KeyDispatcher_def SetKeymap_def)
qed

theorem copied_keymap_unregistered_witness:
  "let st = snd (new_SKeymap memory_keymaps True \<lparr>ks_Keymaps = Map.empty, ks_Earlykeymap = None, ks_readline = (1, 0)\<rparr>);
       st1 = snd (Bind memory_keymaps 1 12 ''clear screen'' st); st2 = snd (SKeymap_copy memory_keymaps 1 st1)
   in KeyDispatcher memory_keymaps 12 (SetKeymap memory_keymaps 1 st2) = Inr ''clear screen'' \<and>
     KeyDispatcher memory_keymaps 12 (SetKeymap memory_keymaps 2 st2) = Inl (StdException ''Error selecting a keymap.'')"
proof -
  let ?st = "snd (new_SKeymap memory_keymaps True \<lparr>ks_Keymaps = Map.empty, ks_Earlykeymap = None, ks_readline = (1, 0)\<rparr>)"
  let ?st1 = "snd (Bind memory_keymaps 1 12 ''clear screen'' ?st)"
  have "Bind memory_keymaps 1 12 ''clear screen'' ?st = (Inr (), ?st1)"
    by (simp add: Bind_def memory_keymaps_def new_SKeymap_def register_keymap_def)
  moreover have "SKeymap_copy memory_keymaps 1 ?st1 = (Some 2, snd (SKeymap_copy memory_keymaps 1 ?st1))"
    by (simp add: Bind_def memory_keymaps_def new_SKeymap_def register_keymap_def SKeymap_copy_def)
  moreover have "ks_Keymaps ?st 2 = None" by (simp add: memory_keymaps_def new_SKeymap_def register_keymap_def)
  moreover have "rl_get_keymap memory_keymaps (rl_set_keymap memory_keymaps k r) = k" for k r
    by (cases r) (simp add: memory_keymaps_def)
  ultimately show ?thesis
    using copied_keymap_unregistered [of memory_keymaps 1 12 "''clear screen''" ?st ?st1 2] by (simp add: Let_def)
qed

end
