(* ===== verification/Console.thy ===== *)
theory Console
  imports IndexRun Matches Readline
begin

text \<open>
  The interactive manager of the database (\<^verbatim>\<open>ui/cmdline/opentrep-dbmgr.cpp\<close>): its commands, the tokens of their
  arguments, what each command does to the services, the database and the files and writes on the screen, and the loop
  over the lines that are typed.

  The regular expressions of Boost and what the services use are parameters, the insertion of a row in the database among
  them; the environment of the services depends on the
  database. An exception, or a failed assertion, ends the program: the database after it is not modelled, and what is
  written before it is.
\<close>

section \<open>Commands\<close>

definition tab :: "nat \<Rightarrow> string" where
  "tab n = replicate n (CHR 0x09)"

datatype Command_T = NOP | QUIT | HELP | INFO | TUTORIAL | CREATE_USER | RESET_CONNECTION_STRING | CREATE_TABLES
  | CREATE_INDEXES | FILL_FROM_POR_FILE | LIST_BY_IATA | LIST_BY_ICAO | LIST_BY_FAA | LIST_BY_GEONAMEID | LIST_NB
  | LIST_ALL | LIST_CONT | LAST_VALUE

definition tolower :: "char \<Rightarrow> char" where
  "tolower c = (if CHR ''A'' \<le> c \<and> c \<le> CHR ''Z'' then char_of (of_char c + 32 :: nat) else c)"

definition completers :: "string list" where
  "completers =
     [''help'', ''info'', ''tutorial'', ''create_user'', ''reset_connection_string %connection_string'', ''create_tables'',
      ''create_indexes'', ''fill_from_por_file'', ''list_by_iata %iata_code'', ''list_by_icao %icao_code'',
      ''list_by_faa %faa_code'', ''list_by_geonameid %geoname_id'', ''list_nb'', ''list_all'', ''list_cont'', ''quit'']"

definition initReadline :: "tokeniser \<Rightarrow> completion_state \<Rightarrow> completion_state" where
  "initReadline tkz ioInputReader = RegisterCompletions tkz completers ioInputReader"

fun extractCommand :: "string list \<Rightarrow> Command_T \<times> string list" where
  "extractCommand [] = (NOP, [])"
| "extractCommand (itTok # rest) =
     (let lCommand = map tolower itTok;
          oCommandType =
            if lCommand = ''help'' then HELP
            else if lCommand = ''info'' then INFO
            else if lCommand = ''tutorial'' then TUTORIAL
            else if lCommand = ''create_user'' then CREATE_USER
            else if lCommand = ''reset_connection_string'' then RESET_CONNECTION_STRING
            else if lCommand = ''create_tables'' then CREATE_TABLES
            else if lCommand = ''create_indexes'' then CREATE_INDEXES
            else if lCommand = ''fill_from_por_file'' then FILL_FROM_POR_FILE
            else if lCommand = ''list_by_iata'' then LIST_BY_IATA
            else if lCommand = ''list_by_icao'' then LIST_BY_ICAO
            else if lCommand = ''list_by_faa'' then LIST_BY_FAA
            else if lCommand = ''list_by_geonameid'' then LIST_BY_GEONAMEID
            else if lCommand = ''list_nb'' then LIST_NB
            else if lCommand = ''list_all'' then LIST_ALL
            else if lCommand = ''list_cont'' then LIST_CONT
            else if lCommand = ''quit'' then QUIT
            else LAST_VALUE
      in (oCommandType, rest))"

text \<open>\<^verbatim>\<open>parseConnectionString\<close>, which nothing calls, is the same function.\<close>

definition parsePlaceKey :: "string list \<Rightarrow> string \<Rightarrow> string" where
  "parsePlaceKey iTokenList ioPlaceKey =
     (case iTokenList of
        [] \<Rightarrow> ioPlaceKey
      | itTok # _ \<Rightarrow> if itTok \<noteq> [] then itTok else ioPlaceKey)"

definition parseConnectionString :: "string list \<Rightarrow> string \<Rightarrow> string" where
  "parseConnectionString iTokenList ioConnectionString =
     (case iTokenList of
        [] \<Rightarrow> ioConnectionString
      | itTok # _ \<Rightarrow> if itTok \<noteq> [] then itTok else ioConnectionString)"

fun token_string :: "string list \<Rightarrow> 16 word \<Rightarrow> string" where
  "token_string [] idx = []"
| "token_string (itTok # rest) idx = (if idx \<noteq> 0 then '' '' else []) @ itTok @ token_string rest (idx + 1)"

definition toString :: "string list \<Rightarrow> string" where
  "toString iTokenList = token_string iTokenList 0"

section \<open>The arguments of the commands\<close>

text \<open>
  What a search of a regular expression leaves in its results, as strings: the whole match, then the groups. Its
  size is kept at 16 bits; the loop over the groups starts at 1 whatever the size, and a group that is not there is not a
  string.
\<close>

type_synonym regex_search = "string \<Rightarrow> string \<Rightarrow> string list"

function groups_loop :: "string list \<Rightarrow> 16 word \<Rightarrow> 16 word \<Rightarrow> string list \<Rightarrow> string list outcome" where
  "groups_loop what lMatchSetSize matchIdx oTokenList =
     (if matchIdx = lMatchSetSize then Inr oTokenList
      else if unat matchIdx < length what then
        groups_loop what lMatchSetSize (matchIdx + 1) (oTokenList @ [what ! unat matchIdx])
      else Inl UndefinedBehaviour)"
  by pat_completeness auto

termination
  by (relation "measure (\<lambda>(what, n, i, acc). unat (n - i))")
    (auto simp: diff_diff_add [symmetric] intro!: measure_unat)

declare groups_loop.simps [simp del]

definition extractTokenList :: "regex_search \<Rightarrow> string list \<Rightarrow> string \<Rightarrow> string list outcome" where
  "extractTokenList rx iTokenList iRegularExpression =
     (let lFullLine = toString iTokenList;
          what = rx iRegularExpression lFullLine;
          lMatchSetSize = word_of_nat (length what)
      in groups_loop what lMatchSetSize 1 [])"

definition iata_regex :: string where
  "iata_regex = ''^([[:alpha:]]{3})$''"

definition icao_regex :: string where
  "icao_regex = ''^(([[:alpha:]]|[[:digit:]]){4})$''"

definition faa_regex :: string where
  "faa_regex = ''^(([[:alpha:]]|[[:digit:]]){3,4})$''"

definition geoname_regex :: string where
  "geoname_regex = ''^([[:digit:]]{1,11})$''"

definition extractTokenListForIataCode :: "regex_search \<Rightarrow> string list \<Rightarrow> string list outcome" where
  "extractTokenListForIataCode rx iTokenList = extractTokenList rx iTokenList iata_regex"

definition extractTokenListForIcaoCode :: "regex_search \<Rightarrow> string list \<Rightarrow> string list outcome" where
  "extractTokenListForIcaoCode rx iTokenList = extractTokenList rx iTokenList icao_regex"

definition extractTokenListForFaaCode :: "regex_search \<Rightarrow> string list \<Rightarrow> string list outcome" where
  "extractTokenListForFaaCode rx iTokenList = extractTokenList rx iTokenList faa_regex"

definition extractTokenListForGeonameID :: "regex_search \<Rightarrow> string list \<Rightarrow> string list outcome" where
  "extractTokenListForGeonameID rx iTokenList = extractTokenList rx iTokenList geoname_regex"

section \<open>Help\<close>

definition help_text :: string where
  "help_text = endl @ ''Commands: '' @ endl @
     '' CTRL-L (Control and L keys)'' @ tab 1 @ ''Clean the screen'' @ endl @
     '' help'' @ tab 4 @ ''Display this help'' @ endl @
     '' info'' @ tab 4 @ ''Display details for the current session '' @ ''(e.g., file-paths for the log file, SQL database)'' @ endl @
     '' tutorial'' @ tab 3 @ ''Display examples'' @ endl @
     '' quit'' @ tab 4 @ ''Quit the application'' @ endl @
     '' create_user'' @ tab 3 @ ''On MySQL, create the '' @ quoted ''trep'' @ '' user and the '' @ quoted ''trep_trep'' @
       '' database.'' @ '' MySQL administrative rights are required.'' @ endl @
     '' reset_connection_string'' @ tab 1 @ ''Reset/update the connection string to a MySQL database.'' @
       '' The connection string must be given'' @ endl @
     '' create_tables'' @ tab 3 @ ''Create/reset the SQLite3/MySQL tables'' @ endl @
     '' create_indexes'' @ tab 3 @ ''Create/reset the SQLite3/MySQL indexes'' @ endl @
     '' fill_from_por_file'' @ tab 2 @ ''Parse the file of POR and fill-in the SQL database ori_por table.'' @ endl @ tab 4 @
       ''Note that, as that command takes minutes, the connection to the SQL database may be lost and the program will exit abnormally.'' @
       endl @ tab 4 @
       ''In that latter case, just re-execute the program and check how far the indexation went by executing the following command.'' @ endl @
     '' list_nb'' @ tab 3 @ ''Display the number of the entries of the database.'' @ endl @
     '' list_all'' @ tab 3 @ ''List all the entries of the database, page by page.'' @
       ''Type the '' @ quoted ''list_cont'' @ '' command for a page down'' @ endl @
     '' list_by_iata'' @ tab 3 @ ''List all the entries for a given IATA code'' @ endl @
     '' list_by_icao'' @ tab 3 @ ''List all the entries for a given ICAO code'' @ endl @
     '' list_by_faa'' @ tab 3 @ ''List all the entries for a given FAA code'' @ endl @
     '' list_by_geonameid'' @ tab 2 @ ''List all the entries for a given Geoname ID'' @ endl @ endl"

definition tutorial_text :: string where
  "tutorial_text = endl @ ''Typical succession of Commands: '' @ endl @
     '' reset_connection_string db=mysql user=root password=<passwd>'' @ endl @ '' create_user'' @ endl @
     '' reset_connection_string db=trep_trep user=trep password=trep'' @ endl @ '' create_tables'' @ endl @
     '' fill_from_por_file'' @ endl @ '' create_indexes'' @ endl @ '' list_nb'' @ endl @ '' list_by_iata nce'' @ endl @
     '' list_by_icao lfmn'' @ endl @ '' list_by_faa afm'' @ endl @ '' list_by_geonameid 6299418'' @ endl @ endl"

section \<open>The session\<close>

text \<open>What the commands use, what is fixed when the program starts, and what the commands change.\<close>

record ('fs, 'db) console_world =
  cw_env :: "'db \<Rightarrow> environment"
  cw_files :: "'fs file_system"
  cw_por :: "'fs por_files"
  cw_history :: "'fs history_files"
  cw_engine :: "'db sql_engine"
  cw_insert_row :: "string list \<Rightarrow> 'db \<Rightarrow> string + 'db"
  cw_iso_date :: "date \<Rightarrow> string"
  cw_show_place :: "Place \<Rightarrow> string"
  cw_out :: stream_output
  cw_regex :: regex_search
  cw_tokeniser :: tokeniser

record console_info =
  ci_LogFilename :: string
  ci_PORFilepath :: string
  ci_DBType :: EN_DBType

record ('fs, 'db) session =
  ss_service :: "service_context option"
  ss_fs :: 'fs
  ss_db :: 'db

section \<open>Listing\<close>

text \<open>The loop over the locations, with its counter of 16 bits.\<close>

fun locations_loop :: "stream_output \<Rightarrow> Location list \<Rightarrow> 16 word \<Rightarrow> unit io" where
  "locations_loop out [] idx = say []"
| "locations_loop out (lLocation # itLocation) idx =
     bind_io (call (MatchedLocation_toString out (plain_match lLocation))) (\<lambda>s.
     bind_io (say ('' ['' @ show_nat (unat idx) @ '']: '' @ s @ endl)) (\<lambda>_.
       locations_loop out itLocation (idx + 1)))"

text \<open>What the five listings have in common: the kind of code, the word for what is unmatched, and the key.\<close>

definition print_matches ::
    "stream_output \<Rightarrow> string \<Rightarrow> string \<Rightarrow> string \<Rightarrow> (16 word \<times> Location list) outcome \<Rightarrow> unit io" where
  "print_matches out kind unmatched lKeyStr matches =
     bind_io (call matches) (\<lambda>(nbOfMatches, lLocationList).
     bind_io (say (show_nat (unat nbOfMatches) @ '' (geographical) location(s) have been found '' @ ''matching the '' @ kind @
                '' ('' @ quoted lKeyStr @ '').'' @ endl)) (\<lambda>_.
       if nbOfMatches \<noteq> 0 then locations_loop out lLocationList 1
       else say (''List of unmatched '' @ unmatched @ '':'' @ endl @ '' ['' @ show_nat 1 @ '']: '' @ lKeyStr @ endl)))"

definition list_by_key ::
    "('fs, 'db) console_world \<Rightarrow> string \<Rightarrow> string \<Rightarrow> string list outcome \<Rightarrow> string \<Rightarrow>
     (string \<Rightarrow> (16 word \<times> Location list) outcome) \<Rightarrow> ('fs, 'db) session \<Rightarrow> ('fs, 'db) session io" where
  "list_by_key w kind unmatched tokens default_key look_up s =
     bind_io (call tokens) (\<lambda>lTokenList.
       let lKeyStr = parsePlaceKey lTokenList default_key
       in bind_io (print_matches (cw_out w) kind unmatched lKeyStr (look_up lKeyStr)) (\<lambda>_. ([], Inr s)))"

definition fill_text :: string where
  "fill_text = ''Indexing the POR file and filling in the SQL database may '' @ ''take a few minutes on some architectures '' @
     ''(and a few seconds on fastest ones)...'' @ endl"

text \<open>The error of a Geonames ID that cannot be read goes to another stream, which is not modelled.\<close>

definition typed_geoname_id :: "string \<Rightarrow> int" where
  "typed_geoname_id lGeonameIDStr = (case lexical_cast_int lGeonameIDStr of Some n \<Rightarrow> n | None \<Rightarrow> 6299418)"

section \<open>What each command does\<close>

definition change_db ::
    "('fs, 'db) session \<Rightarrow> string \<Rightarrow> string \<Rightarrow> unit outcome \<times> 'db \<Rightarrow> ('fs, 'db) session io" where
  "change_db s before after result =
     bind_io (say before) (\<lambda>_.
     bind_io (call (fst result)) (\<lambda>_.
     bind_io (say after) (\<lambda>_. ([], Inr (s\<lparr>ss_db := snd result\<rparr>)))))"

fun perform ::
    "('fs, 'db) console_world \<Rightarrow> console_info \<Rightarrow> string \<Rightarrow> Command_T \<Rightarrow> string list \<Rightarrow> ('fs, 'db) session \<Rightarrow>
     ('fs, 'db) session io" where
  "perform w info lUserInput HELP ts s = (help_text, Inr s)"
| "perform w info lUserInput INFO ts s =
     bind_io (call (getFilePaths (ss_service s))) (\<lambda>(_, _, lSQLConnStr).
     bind_io (say (endl @ ''Log file-path: '' @ tab 4 @ ci_LogFilename info @ endl @
                ''POR file-path: '' @ tab 4 @ ci_PORFilepath info @ endl)) (\<lambda>_.
     bind_io (call (DBType_getLabel (ci_DBType info))) (\<lambda>lLabel.
       (''SQL database type: '' @ tab 3 @ lLabel @ endl @ ''SQL database connection string: '' @ tab 1 @ lSQLConnStr @ endl @ endl,
        Inr s))))"
| "perform w info lUserInput TUTORIAL ts s = (tutorial_text, Inr s)"
| "perform w info lUserInput QUIT ts s = ([], Inr s)"
| "perform w info lUserInput LIST_NB ts s =
     bind_io (call (getNbOfPORFromDB (cw_engine w) (en_server (cw_env w (ss_db s))) (ss_service s) (ss_db s))) (\<lambda>n.
       let nbOfMatches = (ucast n :: 16 word)
       in (show_nat (unat nbOfMatches) @ '' (geographical) location(s) have been found.'' @ endl, Inr s))"
| "perform w info lUserInput LIST_ALL ts s =
     bind_io (print_matches (cw_out w) ''IATA code'' ''words'' ''NCE''
                (listByIataCode (cw_env w (ss_db s)) (ss_service s) ''NCE'' [])) (\<lambda>_. ([], Inr s))"
| "perform w info lUserInput LIST_BY_IATA ts s =
     list_by_key w ''IATA code'' ''words'' (extractTokenListForIataCode (cw_regex w) ts) ''NCE''
       (\<lambda>lIataCode. listByIataCode (cw_env w (ss_db s)) (ss_service s) lIataCode []) s"
| "perform w info lUserInput LIST_BY_ICAO ts s =
     list_by_key w ''ICAO code'' ''words'' (extractTokenListForIcaoCode (cw_regex w) ts) ''LFMN''
       (\<lambda>lIcaoCode. listByIcaoCode (cw_env w (ss_db s)) (ss_service s) lIcaoCode []) s"
| "perform w info lUserInput LIST_BY_FAA ts s =
     list_by_key w ''FAA code'' ''words'' (extractTokenListForFaaCode (cw_regex w) ts) ''jfk''
       (\<lambda>lFaaCode. listByFaaCode (cw_env w (ss_db s)) (ss_service s) lFaaCode []) s"
| "perform w info lUserInput LIST_BY_GEONAMEID ts s =
     list_by_key w ''Geoname ID'' ''items'' (extractTokenListForGeonameID (cw_regex w) ts) ''6299418''
       (\<lambda>lGeonameIDStr. listByGeonameID (cw_env w (ss_db s)) (ss_service s) (typed_geoname_id lGeonameIDStr) []) s"
| "perform w info lUserInput CREATE_USER ts s =
     bind_io (say (''Creating the '' @ quoted ''trep'' @ '' user and '' @ quoted ''trep_trep'' @ '' database'' @ endl)) (\<lambda>_.
     (let (r, fs, db) = service_createSQLDBUser (cw_files w) (cw_engine w) (en_server (cw_env w (ss_db s)))
            (en_what (cw_env w (ss_db s))) (ss_service s) (ss_fs s) (ss_db s)
      in bind_io (call r) (\<lambda>lCreationSuccessful.
           (if lCreationSuccessful then ''The '' @ quoted ''trep'' @ '' user and '' @ quoted ''trep_trep'' @
              '' database have been created'' @ endl else [], Inr (s\<lparr>ss_fs := fs, ss_db := db\<rparr>)))))"
| "perform w info lUserInput RESET_CONNECTION_STRING ts s =
     bind_io (say (''Reset the connection string'' @ endl)) (\<lambda>_.
     bind_io (call (setSQLDBConnectString (ss_service s) (toString ts))) (\<lambda>c.
       (''The connection string has been reset'' @ endl, Inr (s\<lparr>ss_service := Some c\<rparr>))))"
| "perform w info lUserInput CREATE_TABLES ts s =
     bind_io (call (DBType_getLabel (ci_DBType info))) (\<lambda>lLabel.
       change_db s (''Creating/resetting the '' @ lLabel @ '' database tables'' @ endl)
         (''The '' @ lLabel @ '' tables has been created/resetted'' @ endl)
         (service_createSQLDBTables (cw_engine w) (en_server (cw_env w (ss_db s))) (ss_service s) (ss_db s)))"
| "perform w info lUserInput CREATE_INDEXES ts s =
     bind_io (call (DBType_getLabel (ci_DBType info))) (\<lambda>lLabel.
       change_db s (''Creating/resetting the '' @ lLabel @ '' database indexes'' @ endl)
         (''The '' @ lLabel @ '' indexes has been created/resetted'' @ endl)
         (service_createSQLDBIndexes (cw_engine w) (en_server (cw_env w (ss_db s))) (ss_service s) (ss_db s)))"
| "perform w info lUserInput FILL_FROM_POR_FILE ts s =
     bind_io (say fill_text) (\<lambda>_.
     bind_io (service_fillInFromPORFile (cw_env w (ss_db s)) (cw_iso_date w) (cw_show_place w) (cw_insert_row w)
                (\<lambda>path. por_stream (cw_por w) path (ss_fs s)) (ss_service s) (ss_db s)) (\<lambda>(lNbOfEntries, db).
       (show_nat (unat lNbOfEntries) @ '' entries have been processed'' @ endl, Inr (s\<lparr>ss_db := db\<rparr>))))"
| "perform w info lUserInput NOP ts s = ([], Inr s)"
| "perform w info lUserInput _ ts s =
     (concat (map (\<lambda>t. t @ '' '') ts) @ ''That command is not yet understood: '' @ quoted lUserInput @ '' => '' @ endl, Inr s)"

section \<open>The loop over the lines\<close>

text \<open>
  What readline returns, one element per call (\<open>None\<close> at the end of the input). The loop goes on until \<open>QUIT\<close>, the end of the
  input or an exception; the flag tells whether it has ended. The history of the reader is saved in the backup file
  after every line.
\<close>

definition lHistorySize :: nat where "lHistorySize = 100"
definition lHistoryFilename :: string where "lHistoryFilename = ''opentrep-dbmgr.hist''"
definition lHistoryBackupFilename :: string where "lHistoryBackupFilename = ''opentrep-dbmgr.hist.bak''"

fun console_loop ::
    "('fs, 'db) console_world \<Rightarrow> console_info \<Rightarrow> 'h history_ops \<Rightarrow> string option list \<Rightarrow> 'h \<Rightarrow> ('fs, 'db) session \<Rightarrow>
     (bool \<times> 'h \<times> ('fs, 'db) session) io" where
  "console_loop w info ops [] h s = ([], Inr (False, h, s))"
| "console_loop w info ops (ReadLine # rest) h s =
     (let (lUserInput, lTokenListByReadline, EndOfInput, h) = GetLine_tokens (cw_tokeniser w) ops lHistorySize ReadLine h;
          s = s\<lparr>ss_fs := snd (SaveHistory (cw_history w) ops lHistoryBackupFilename h (ss_fs s))\<rparr>
      in if EndOfInput then (endl, Inr (True, h, s))
         else
           let (lCommandType, ts) = extractCommand lTokenListByReadline
           in bind_io (perform w info lUserInput lCommandType ts s) (\<lambda>s.
                if lCommandType = QUIT then ([], Inr (True, h, s)) else console_loop w info ops rest h s))"

section \<open>The program\<close>

definition dbmgr_readConfiguration :: "package_info \<Rightarrow> variables_map \<Rightarrow> batch_options \<Rightarrow> int \<times> batch_options \<times> string" where
  "dbmgr_readConfiguration pk vm bo =
     (case early_options pk vm of
        Some out \<Rightarrow> (K_OPENTREP_EARLY_RETURN_STATUS, bo, out)
      | None \<Rightarrow>
          (0, \<lparr>bo_PORFilepath = fst (read_option vm ''porfile'' [] (bo_PORFilepath bo)),
               bo_XapianDBFilepath = fst (read_option vm ''xapiandb'' [] (bo_XapianDBFilepath bo)),
               bo_SQLDBTypeString = fst (read_option vm ''sqldbtype'' [] (bo_SQLDBTypeString bo)),
               bo_SQLDBConnectionString = fst (read_option vm ''sqldbconx'' [] (bo_SQLDBConnectionString bo)),
               bo_LogFilename = fst (read_option vm ''log'' [] (bo_LogFilename bo))\<rparr>,
           ''Type the '' @ quoted ''info'' @ '' command to get a few details (e.g., file-path)'' @ endl))"

text \<open>The lines that are typed are followed by the end of the input. Its status, the files and the database in the end; the destructor of the reader saves the history once more.\<close>

definition dbmgr_main ::
    "package_info \<Rightarrow> ('fs, 'db) console_world \<Rightarrow> 'h history_ops \<Rightarrow> variables_map \<Rightarrow> string list \<Rightarrow> 'h \<Rightarrow> 'fs \<Rightarrow> 'db \<Rightarrow>
     (int \<times> 'fs \<times> 'db) io" where
  "dbmgr_main pk w ops vm typed h fs db =
     (let (lOptionParserStatus, bo, out) = dbmgr_readConfiguration pk vm new_batch_options
      in if lOptionParserStatus = K_OPENTREP_EARLY_RETURN_STATUS then (out, Inr (0, fs, db))
         else
           bind_io (say out) (\<lambda>_.
           bind_io (call (DBType_of_string (bo_SQLDBTypeString bo))) (\<lambda>lDBType.
             let s = \<lparr>ss_service = service_init (bo_PORFilepath bo) (bo_XapianDBFilepath bo) lDBType (bo_SQLDBConnectionString bo),
                      ss_fs = fs, ss_db = db\<rparr>;
                 info = \<lparr>ci_LogFilename = bo_LogFilename bo, ci_PORFilepath = bo_PORFilepath bo, ci_DBType = lDBType\<rparr>
             in bind_io (console_loop w info ops (map Some typed @ [None]) (new_SReadline (cw_history w) ops lHistoryFilename lHistorySize fs h) s)
                  (\<lambda>(_, h, s).
                    (''End of the session. Exiting.'' @ endl,
                     Inr (0, delete_SReadline (cw_history w) ops lHistoryFilename h (ss_fs s), ss_db s))))))"

section \<open>The groups of a match\<close>

lemma groups_loop_rest:
  assumes "length what < 65536" and "unat idx \<le> length what"
  shows "groups_loop what (word_of_nat (length what)) idx acc = Inr (acc @ drop (unat idx) what)"
  using assms(2)
proof (induction "length what - unat idx" arbitrary: idx acc)
  case 0
  then have "length what = unat idx" using assms(1) by simp
  then have "word_of_nat (length what) = idx" by simp
  then show ?case using assms(1) 0 by (subst groups_loop.simps) simp
next
  case (Suc n)
  then have lt: "unat idx < length what" by simp
  then have "idx \<noteq> word_of_nat (length what)" using assms(1) by (auto simp: unat_of_nat_small)
  moreover have "unat (idx + 1) = unat idx + 1" using lt assms(1) by (intro uint16_succ) simp
  ultimately show ?case
    using Suc.hyps(1) [of "idx + 1" "acc @ [what ! unat idx]"] Suc.hyps(2) lt
    by (subst groups_loop.simps) (simp add: Cons_nth_drop_Suc)
qed

lemma extractTokenList_groups:
  assumes "rx e (toString ts) = m # gs" and "length gs < 65535"
  shows "extractTokenList rx ts e = Inr gs"
  using groups_loop_rest [of "m # gs" 1 "[]"] assms by (simp add: extractTokenList_def)

text \<open>The documented meaning of the four regular expressions: the groups of a line that matches.\<close>

locale code_patterns =
  fixes rx :: regex_search
  assumes iata: "matchesIATACode s \<Longrightarrow> rx iata_regex s = [s, s]"
    and icao: "matchesICAOCode s \<Longrightarrow> rx icao_regex s = [s, s, [last s]]"
    and faa: "length s \<in> {3, 4} \<Longrightarrow> list_all (\<lambda>c. is_alpha c \<or> is_digit c) s \<Longrightarrow> rx faa_regex s = [s, s, [last s]]"
    and geoname: "matchesGeoID s \<Longrightarrow> rx geoname_regex s = [s, s]"
begin

lemma codes_extracted:
  "matchesIATACode (toString ts) \<Longrightarrow> extractTokenListForIataCode rx ts = Inr [toString ts]"
  "matchesICAOCode (toString ts) \<Longrightarrow> extractTokenListForIcaoCode rx ts = Inr [toString ts, [last (toString ts)]]"
  "matchesGeoID (toString ts) \<Longrightarrow> extractTokenListForGeonameID rx ts = Inr [toString ts]"
  by (simp_all add: extractTokenListForIataCode_def extractTokenListForIcaoCode_def extractTokenListForGeonameID_def
    extractTokenList_groups iata icao geoname)

end

text \<open>A search that leaves empty groups when there is no match.\<close>

definition code_groups :: regex_search where
  "code_groups e s =
     (if e = iata_regex then (if matchesIATACode s then [s, s] else [[], []])
      else if e = geoname_regex then (if matchesGeoID s then [s, s] else [[], []])
      else if e = icao_regex then (if matchesICAOCode s then [s, s, [last s]] else [[], [], []])
      else if length s \<in> {3, 4} \<and> list_all (\<lambda>c. is_alpha c \<or> is_digit c) s then [s, s, [last s]] else [[], [], []])"

interpretation codes: code_patterns code_groups
proof -
  have "icao_regex \<noteq> iata_regex" "icao_regex \<noteq> geoname_regex" "faa_regex \<noteq> iata_regex" "faa_regex \<noteq> geoname_regex"
    "faa_regex \<noteq> icao_regex" "geoname_regex \<noteq> iata_regex"
    by (simp_all add: iata_regex_def icao_regex_def faa_regex_def geoname_regex_def)
  then show "code_patterns code_groups" by unfold_locales (auto simp: code_groups_def)
qed

section \<open>What a listing writes\<close>

definition location_line :: "stream_output \<Rightarrow> nat \<Rightarrow> Location \<Rightarrow> string" where
  "location_line out i l = '' ['' @ show_nat i @ '']: '' @ projr (MatchedLocation_toString out (plain_match l)) @ endl"

definition listing :: "stream_output \<Rightarrow> string \<Rightarrow> string \<Rightarrow> string \<Rightarrow> Location list \<Rightarrow> string" where
  "listing out kind unmatched key ls =
     show_nat (length ls) @ '' (geographical) location(s) have been found matching the '' @ kind @ '' ('' @ quoted key @ '').'' @ endl @
     (if ls = [] then ''List of unmatched '' @ unmatched @ '':'' @ endl @ '' [1]: '' @ key @ endl
      else concat (map (\<lambda>(i, l). location_line out i l) (enumerate 1 ls)))"

lemma toString_returns:
  assumes "lk_iataType (loc_key l) \<noteq> LAST_IATA_TYPE"
  shows "MatchedLocation_toString out (plain_match l) = Inr (projr (MatchedLocation_toString out (plain_match l)))"
  using iata_letters.enc_total [OF assms]
  by (auto simp: toString_plain Location_toString_def toBasicString_def describeShortKey_def LocationKey_describe_def
    IATAType_getTypeLabelAsString_def)

lemma locations_loop_lines:
  assumes "\<forall>l \<in> set ls. lk_iataType (loc_key l) \<noteq> LAST_IATA_TYPE" and "unat idx + length ls \<le> 65536"
  shows "locations_loop out ls idx = (concat (map (\<lambda>(i, l). location_line out i l) (enumerate (unat idx) ls)), Inr ())"
  using assms
proof (induction ls arbitrary: idx)
  case Nil
  then show ?case by (simp add: say_def)
next
  case (Cons l ls)
  have rest: "locations_loop out ls (idx + 1) =
      (concat (map (\<lambda>(i, l). location_line out i l) (enumerate (Suc (unat idx)) ls)), Inr ())"
  proof (cases "ls = []")
    case False
    then have "unat (idx + 1) = unat idx + 1" using Cons.prems(2) by (intro uint16_succ) (cases ls; simp)
    then show ?thesis using Cons.IH [of "idx + 1"] Cons.prems by simp
  qed (simp add: say_def)
  have "lk_iataType (loc_key l) \<noteq> LAST_IATA_TYPE" using Cons.prems(1) by simp
  with toString_returns [OF this, of out] obtain t where "MatchedLocation_toString out (plain_match l) = Inr t" by blast
  then show ?case by (simp add: rest location_line_def)
qed

lemma print_matches_listing:
  assumes "\<forall>l \<in> set ls. lk_iataType (loc_key l) \<noteq> LAST_IATA_TYPE" and "length ls < 65536"
  shows "print_matches out kind unmatched key (Inr (word_of_nat (length ls), ls)) = (listing out kind unmatched key ls, Inr ())"
proof -
  have n: "unat (word_of_nat (length ls) :: 16 word) = length ls" using assms(2) by (intro unat_of_nat_small) simp
  then have zero: "(word_of_nat (length ls) :: 16 word) = 0 \<longleftrightarrow> ls = []" by (metis length_0_conv unat_0 unat_eq_zero)
  have one: "show_nat 1 = ''1''" by code_simp
  have "unat (1 :: 16 word) + length ls \<le> 65536" using assms(2) by simp
  from locations_loop_lines [OF assms(1) this, of out] show ?thesis
    using one by (simp add: print_matches_def n zero listing_def say_def)
qed

section \<open>Lines and commands\<close>

lemma trim_space_id: "s = [] \<or> \<not> is_space (hd s) \<and> \<not> is_space (last s) \<Longrightarrow> trim_space s = s"
  by (auto simp: trim_space_def dropWhile_head hd_rev)

definition plain_word :: "string \<Rightarrow> bool" where
  "plain_word v \<longleftrightarrow> v \<noteq> [] \<and> list_all (\<lambda>c. \<not> is_space c) v"

lemma plain_words:
  assumes "char_separator tkz" and "plain_word u" and "plain_word v"
  shows "SplitTokens tkz (trim_space u) = [u]" and "SplitTokens tkz (trim_space (u @ '' '' @ v)) = [u, v]"
proof -
  let ?seps = "[CHR '' '', CHR 0x09, CHR 0x0A]"
  have clean: "clean_word ?seps u" "clean_word ?seps v"
    using assms(2,3) by (auto simp: plain_word_def clean_word_def is_space_def list_all_iff)
  have ends: "\<not> is_space (hd u)" "\<not> is_space (last u)" "\<not> is_space (last v)" "\<not> is_space (hd v)" "u \<noteq> []" "v \<noteq> []"
    using assms(2,3) by (auto simp: plain_word_def list_all_iff)
  then have trims: "trim_space u = u" "trim_space v = v" "trim_space (u @ '' '' @ v) = u @ '' '' @ v"
    by (auto intro!: trim_space_id)
  show "SplitTokens tkz (trim_space u) = [u]"
    using char_separator.tkz_word [OF assms(1) clean(1)] by (simp add: SplitTokens_eq trims)
  have "tkz ?seps (u @ CHR '' '' # v) = [u, v]"
    using char_separator.tkz_separator [OF assms(1), of "CHR '' ''" ?seps u v]
      char_separator.tkz_word [OF assms(1) clean(1)] char_separator.tkz_word [OF assms(1) clean(2)] by simp
  then show "SplitTokens tkz (trim_space (u @ '' '' @ v)) = [u, v]"
    unfolding trims(3) by (simp add: SplitTokens_eq trims)
qed

lemma alpha_not_space: "is_alpha c \<or> is_digit c \<Longrightarrow> \<not> is_space c"
  by (auto simp: is_alpha_def is_digit_def is_space_def Let_def)

lemma iata_plain_word: "matchesIATACode v \<Longrightarrow> plain_word v"
  using alpha_not_space by (auto simp: matchesIATACode_def plain_word_def list_all_iff)

lemma toString_one: "toString [t] = t"
  by (simp add: toString_def)

section \<open>What the commands keep\<close>

lemma perform_service:
  assumes "perform w info u cmd ts s = (out, Inr s')" and "ss_service s = Some c"
  shows "ss_service s' = Some (if cmd = RESET_CONNECTION_STRING then c\<lparr>sc_sqlDBConnectionString := toString ts\<rparr> else c)"
  using assms
  by (cases cmd) (auto simp: bind_io_Inr list_by_key_def change_db_def call_def say_def Let_def setSQLDBConnectString_def
    with_context_def simp del: io_simps split: prod.splits)

text \<open>The connection strings that the lines set, until the session ends.\<close>

fun connections :: "tokeniser \<Rightarrow> string option list \<Rightarrow> string list" where
  "connections tkz [] = []"
| "connections tkz (None # rest) = []"
| "connections tkz (Some line # rest) =
     (case extractCommand (SplitTokens tkz (trim_space line)) of
        (cmd, ts) \<Rightarrow>
          if cmd = QUIT then []
          else if cmd = RESET_CONNECTION_STRING then toString ts # connections tkz rest
          else connections tkz rest)"

lemma console_loop_line:
  assumes "extractCommand (SplitTokens (cw_tokeniser w) (trim_space line)) = (cmd, ts)"
  shows "\<exists>h1 fs1. console_loop w info ops (Some line # rest) h s =
    bind_io (perform w info (trim_space line) cmd ts (s\<lparr>ss_fs := fs1\<rparr>))
      (\<lambda>s. if cmd = QUIT then ([], Inr (True, h1, s)) else console_loop w info ops rest h1 s)"
proof -
  let ?g = "GetLine ops lHistorySize (Some line) h"
  have g: "?g = (trim_space line, False, snd (snd ?g))" by (simp add: GetLine_def Let_def)
  have "GetLine_tokens (cw_tokeniser w) ops lHistorySize (Some line) h =
      (trim_space line, SplitTokens (cw_tokeniser w) (trim_space line), False, snd (snd ?g))"
    unfolding GetLine_tokens_def by (subst g) simp
  then show ?thesis by (auto simp: Let_def assms simp del: io_simps)
qed

lemma console_loop_end: "\<exists>s'. console_loop w info ops (None # rest) h s = (endl, Inr (True, h, s')) \<and>
    ss_service s' = ss_service s \<and> ss_db s' = ss_db s"
  by (simp add: GetLine_tokens_def GetLine_def Let_def)

lemma loop_connection:
  assumes "console_loop w info ops inputs h s = (out, Inr (ended, h', s'))" and "ss_service s = Some c"
  shows "ss_service s' = Some (c\<lparr>sc_sqlDBConnectionString :=
    last (sc_sqlDBConnectionString c # connections (cw_tokeniser w) inputs)\<rparr>)"
  using assms
proof (induction inputs arbitrary: h s c out)
  case Nil
  then show ?case by simp
next
  case (Cons r inputs)
  show ?case
  proof (cases r)
    case None
    obtain s1 where "console_loop w info ops (None # inputs) h s = (endl, Inr (True, h, s1))" "ss_service s1 = ss_service s"
      using console_loop_end [of w info ops inputs h s] by blast
    then show ?thesis using Cons.prems None by auto
  next
    case (Some line)
    obtain cmd ts where cmd: "extractCommand (SplitTokens (cw_tokeniser w) (trim_space line)) = (cmd, ts)" by fastforce
    from console_loop_line [OF cmd, of info ops inputs h s] obtain h1 fs1 where run: "console_loop w info ops (Some line # inputs) h s =
      bind_io (perform w info (trim_space line) cmd ts (s\<lparr>ss_fs := fs1\<rparr>))
        (\<lambda>s. if cmd = QUIT then ([], Inr (True, h1, s)) else console_loop w info ops inputs h1 s)"
      by (elim exE)
    from Cons.prems(1) [unfolded Some run] obtain o1 s1 o2 where s1: "perform w info (trim_space line) cmd ts (s\<lparr>ss_fs := fs1\<rparr>) = (o1, Inr s1)"
      "(if cmd = QUIT then ([], Inr (True, h1, s1)) else console_loop w info ops inputs h1 s1) = (o2, Inr (ended, h', s'))"
      unfolding bind_io_Inr by blast
    have "ss_service (s\<lparr>ss_fs := fs1\<rparr>) = Some c" using Cons.prems(2) by simp
    note service = perform_service [OF s1(1) this]
    show ?thesis
    proof (cases "cmd = QUIT")
      case True
      then show ?thesis using s1(2) service by (auto simp: Some cmd)
    next
      case False
      then show ?thesis using Cons.IH [OF _ service, of h1 o2] s1(2) by (auto simp: Some cmd)
    qed
  qed
qed

section \<open>Listings of a table\<close>

lemma to_matches_list:
  assumes "length ls < 65536"
  shows "to_matches (Inr (word_of_nat (length ls), ls)) = Inr (word_of_nat (length ls), ls)"
proof -
  have "take_bit 32 (length ls) = length ls" using assms by (intro take_bit_nat_eq_self) simp
  then show ?thesis by (simp add: to_matches_def unsigned_of_nat)
qed

text \<open>The relevant locations with a IATA code.\<close>

definition of_iata :: "string \<Rightarrow> Location list \<Rightarrow> Location list" where
  "of_iata code ls = filter (\<lambda>l. lk_iataCode (loc_key l) = map toupper code) (relevant_locations ls)"

lemma listed_by_iata:
  assumes "por_table insert_row connect rows"
    and "initSQLDBSession (en_server env) (sc_sqlDBType c) (sc_sqlDBConnectionString c) = Inr (Some (connect db))"
    and "\<forall>l \<in> set ls. en_parse env (loc_rawDataString l) = Inr l" and "relevant_rows iso_date ls = Inr rws"
    and "rows db = mset rws" and "length ls < 65536"
  shows "\<exists>hits. mset hits = mset (of_iata code ls) \<and> listByIataCode env (Some c) code [] =
    Inr (word_of_nat (length hits), map (\<lambda>l. l\<lparr>loc_correctedKeywords := code\<rparr>) hits)"
proof -
  from por_table.table_lookups(1) [OF assms(1,4,5,3), of "[]" code "en_what env"] obtain hits where
    hits: "mset hits = mset (of_iata code ls)" "getPORByIATACode (en_what env) (en_parse env) (connect db) code [] False =
      Inr (word_of_nat (length hits), map (\<lambda>l. l\<lparr>loc_correctedKeywords := code\<rparr>) hits)"
    unfolding delivers_def of_iata_def by (metis append_Nil size_mset)
  have "length (of_iata code ls) < 65536"
    using assms(6) le_less_trans [OF order.trans [OF length_filter_le length_filter_le]] by (simp add: of_iata_def relevant_locations_def)
  then have "length (map (\<lambda>l. l\<lparr>loc_correctedKeywords := code\<rparr>) hits) < 65536" using hits(1) by (metis length_map size_mset)
  from to_matches_list [OF this] show ?thesis
    using hits by (auto simp: listByIataCode_def with_session_def with_context_def assms(2))
qed

lemma of_iata_sound: "mset hits = mset (of_iata code ls) \<Longrightarrow> set hits \<subseteq> set ls \<and> length hits \<le> length ls"
proof -
  assume hits: "mset hits = mset (of_iata code ls)"
  have "length (of_iata code ls) \<le> length ls"
    unfolding of_iata_def relevant_locations_def by (rule order.trans [OF length_filter_le length_filter_le])
  then show ?thesis using mset_eq_setD [OF hits] mset_eq_length [OF hits] by (auto simp: of_iata_def relevant_locations_def)
qed

lemma relevant_rows_length: "relevant_rows iso_date ls = Inr rws \<Longrightarrow> length rws \<le> length ls"
  using relevant_rows_list [THEN list_all2_lengthD, of iso_date ls rws] by (metis length_filter_le relevant_locations_def)

lemma command_words:
  "plain_word ''fill_from_por_file''" "plain_word ''list_by_iata''"
  "extractCommand [''fill_from_por_file''] = (FILL_FROM_POR_FILE, [])" "extractCommand [''list_by_iata'', code] = (LIST_BY_IATA, [code])"
proof -
  have "map tolower ''list_by_iata'' = ''list_by_iata''" by code_simp
  then show "extractCommand [''list_by_iata'', code] = (LIST_BY_IATA, [code])" unfolding extractCommand.simps Let_def by simp
qed code_simp+

text \<open>A world for the examples: a table, a POR file of two lines, and files of histories that keep nothing.\<close>

definition table_env :: "string list list \<Rightarrow> environment" where
  "table_env table = (one_phrase_env ''nce'')
     \<lparr>en_server := \<lparr>sv_is_directory = (\<lambda>_. True), sv_parent_path = id, sv_show_path = id,
        sv_open = (\<lambda>_ _. Inr (table_session table))\<rparr>, en_parse := (\<lambda>s. Inr (code_location s))\<rparr>"

definition table_world :: "(unit, string list list) console_world" where
  "table_world =
     \<lparr>cw_env = table_env,
      cw_files = \<lparr>fs_remove_all = (\<lambda>_ fs. (None, fs)), fs_create_directories = (\<lambda>_ fs. (None, fs)), fs_is_directory = (\<lambda>_ _. True)\<rparr>,
      cw_por = \<lparr>pf_exists = (\<lambda>_ _. True), pf_is_regular_file = (\<lambda>_ _. True), pf_extension = (\<lambda>_. ''.csv''),
        pf_lines = (\<lambda>_ _ _. [''NCE'', ''NotAvailable''])\<rparr>,
      cw_history = \<lparr>hf_read = (\<lambda>_ _. None), hf_write = (\<lambda>_ _ _. None)\<rparr>,
      cw_engine = \<lparr>eg_backend_name = (\<lambda>_. ''sqlite3''), eg_execute = (\<lambda>_ _ _. Inr []), eg_count = (\<lambda>_ table. Inr (word_of_nat (length table)))\<rparr>,
      cw_insert_row = table_insert, cw_iso_date = (\<lambda>_. []), cw_show_place = (\<lambda>_. []),
      cw_out = \<lparr>out_double = (\<lambda>_. []), out_float = (\<lambda>_. []), out_date = (\<lambda>_. [])\<rparr>,
      cw_regex = code_groups, cw_tokeniser = split_tokens\<rparr>"

definition table_start :: "EN_DBType \<Rightarrow> string list list \<Rightarrow> (unit, string list list) session" where
  "table_start t table = \<lparr>ss_service = service_init ''por.csv'' ''/tmp/xapian'' t ''trep.db'', ss_fs = (), ss_db = table\<rparr>"

definition table_info :: console_info where
  "table_info = \<lparr>ci_LogFilename = ''dbmgr.log'', ci_PORFilepath = ''por.csv'', ci_DBType = SQLITE3\<rparr>"

lemma table_service: "ss_service (table_start t table) = Some \<lparr>sc_porFilePath = ''por.csv'', sc_travelDBFilePath = ''/tmp/xapian'',
    sc_sqlDBType = t, sc_sqlDBConnectionString = ''trep.db''\<rparr>"
  by (simp add: table_start_def service_init_def getSQLConnStr_def K_SQLITE_DB_FILEPATH_def)

lemma table_connected: "initSQLDBSession (en_server (cw_env table_world table)) SQLITE3 conn = Inr (Some (table_session table))"
  by (simp add: table_world_def table_env_def initSQLDBSession_def)

section \<open>Properties\<close>

text \<open>C6: A session that fills an empty table from the POR file, whose relevant records have different primary keys, and then lists a
  IATA code: the table has the rows of the relevant records, and the screen shows exactly, after the announcement, the progress after
  every thousandth row, the number of rows, and the relevant records with the code in upper case, each once, numbered from 1, in
  the order in which the database delivers them, or the code itself when there is none.\<close>

theorem console_fill_and_list:
  fixes w :: "('fs, 'db) console_world"
  assumes "char_separator (cw_tokeniser w)" and "code_patterns (cw_regex w)"
    and "por_table (cw_insert_row w) connect rows" and "ss_service s = Some c" and "rows (ss_db s) = {#}"
    and "\<And>db. initSQLDBSession (en_server (cw_env w db)) (sc_sqlDBType c) (sc_sqlDBConnectionString c) = Inr (Some (connect db))"
    and "\<And>db. en_parse (cw_env w db) = parse" and "\<And>fs. por_stream (cw_por w) (sc_porFilePath c) fs = Inr lines"
    and "list_all2 (\<lambda>line l. parse line = Inr l) lines ls" and "relevant_rows (cw_iso_date w) ls = Inr rws"
    and "\<forall>l \<in> set ls. parse (loc_rawDataString l) = Inr l \<and> lk_iataType (loc_key l) \<noteq> LAST_IATA_TYPE"
    and "distinct (map primary_key (relevant_locations ls))" and "length ls < 65536" and "matchesIATACode code"
  shows "\<exists>hits h' s'. mset hits = mset (of_iata code ls) \<and> rows (ss_db s') = mset rws \<and>
    console_loop w info ops [Some ''fill_from_por_file'', Some (''list_by_iata '' @ code), None] h s =
      (fill_text @
       concat (map (\<lambda>i. ''Number of records inserted into the DB: '' @ show_nat i @ endl)
         (filter (\<lambda>i. 1000 dvd i) [1..<Suc (length rws)])) @
       show_nat (length rws) @ '' entries have been processed'' @ endl @
       listing (cw_out w) ''IATA code'' ''words'' code (map (\<lambda>l. l\<lparr>loc_correctedKeywords := code\<rparr>) hits) @ endl,
       Inr (True, h', s'))"
proof -
  have tokens: "SplitTokens (cw_tokeniser w) (trim_space ''fill_from_por_file'') = [''fill_from_por_file'']"
    "SplitTokens (cw_tokeniser w) (trim_space (''list_by_iata'' @ '' '' @ code)) = [''list_by_iata'', code]"
    using plain_words [OF assms(1)] command_words(1,2) iata_plain_word [OF assms(14)] by blast+
  have cmds: "extractCommand (SplitTokens (cw_tokeniser w) (trim_space ''fill_from_por_file'')) = (FILL_FROM_POR_FILE, [])"
    "extractCommand (SplitTokens (cw_tokeniser w) (trim_space (''list_by_iata'' @ '' '' @ code))) = (LIST_BY_IATA, [code])"
    unfolding tokens by (rule command_words(3), rule command_words(4))
  obtain h1 fs1 where line1: "console_loop w info ops [Some ''fill_from_por_file'', Some (''list_by_iata '' @ code), None] h s =
      bind_io (perform w info (trim_space ''fill_from_por_file'') FILL_FROM_POR_FILE [] (s\<lparr>ss_fs := fs1\<rparr>))
        (\<lambda>s. console_loop w info ops [Some (''list_by_iata '' @ code), None] h1 s)"
    using console_loop_line [OF cmds(1), of info ops "[Some (''list_by_iata '' @ code), None]" h s]
    by auto
  have few: "length rws < 2 ^ 32" using relevant_rows_length [OF assms(10)] assms(13) by simp
  from por_table.fill_table [OF assms(3,9,10,5,12), of "en_what (cw_env w (ss_db s))" "cw_show_place w" default_Place] obtain db where
    db: "fillInFromPORFile (en_what (cw_env w (ss_db s))) (cw_iso_date w) (cw_show_place w) (cw_insert_row w) parse lines default_Place
      (Some (ss_db s)) = (fill_output (length rws), Inr (word_of_nat (length rws), Some db))" "rows db = mset rws" by blast
  let ?filled = "fill_text @ fill_output (length rws) @ show_nat (length rws) @ '' entries have been processed'' @ endl"
  let ?s = "s\<lparr>ss_fs := fs1, ss_db := db\<rparr>"
  have fill: "perform w info u FILL_FROM_POR_FILE [] (s\<lparr>ss_fs := fs1\<rparr>) = (?filled, Inr ?s)" for u
    using few db(1) by (simp add: service_fillInFromPORFile_def with_context_def assms(4,6-8) call_def unsigned_of_nat take_bit_nat_eq_self)
  obtain h2 fs2 where line2: "console_loop w info ops [Some (''list_by_iata '' @ code), None] h1 ?s =
      bind_io (perform w info (trim_space (''list_by_iata'' @ '' '' @ code)) LIST_BY_IATA [code] (?s\<lparr>ss_fs := fs2\<rparr>))
        (\<lambda>s. console_loop w info ops [None] h2 s)"
    using console_loop_line [OF cmds(2), of info ops "[None]" h1 ?s] by auto
  have env: "\<forall>l \<in> set ls. en_parse (cw_env w db) (loc_rawDataString l) = Inr l" using assms(7,11) by simp
  from listed_by_iata [OF assms(3,6) env assms(10) db(2) assms(13), of code] obtain hits where hits: "mset hits = mset (of_iata code ls)"
    "listByIataCode (cw_env w db) (Some c) code [] = Inr (word_of_nat (length hits), map (\<lambda>l. l\<lparr>loc_correctedKeywords := code\<rparr>) hits)"
    by blast
  let ?hits = "map (\<lambda>l. l\<lparr>loc_correctedKeywords := code\<rparr>) hits"
  have sound: "\<forall>l \<in> set ?hits. lk_iataType (loc_key l) \<noteq> LAST_IATA_TYPE" "length ?hits < 65536"
    using assms(11,13) of_iata_sound [OF hits(1)] by auto
  have "extractTokenListForIataCode (cw_regex w) [code] = Inr [code]"
    using code_patterns.codes_extracted(1) [OF assms(2), of "[code]"] assms(14) by (simp add: toString_one)
  moreover have "parsePlaceKey [code] ''NCE'' = code" using assms(14) by (auto simp: parsePlaceKey_def matchesIATACode_def)
  ultimately have list: "perform w info u LIST_BY_IATA [code] (?s\<lparr>ss_fs := fs2\<rparr>) =
      (listing (cw_out w) ''IATA code'' ''words'' code ?hits, Inr (?s\<lparr>ss_fs := fs2\<rparr>))" for u
    using hits(2) print_matches_listing [OF sound] by (simp add: list_by_key_def assms(4))
  obtain s' where "console_loop w info ops [None] h2 (?s\<lparr>ss_fs := fs2\<rparr>) = (endl, Inr (True, h2, s'))" "ss_db s' = db"
    using console_loop_end [of w info ops "[]" h2 "?s\<lparr>ss_fs := fs2\<rparr>"] by auto
  then show ?thesis unfolding line1 fill io_simps line2 list fill_output_lines [OF few]
    using hits(1) db(2) by (intro exI [of _ hits] exI [of _ h2] exI [of _ s']) simp
qed

theorem console_fill_and_list_witness:
  "\<exists>h' s'. console_loop table_world table_info gnu_ops [Some ''fill_from_por_file'', Some (''list_by_iata '' @ ''nce''), None]
       \<lparr>gh_lines = [], gh_limit = None\<rparr> (table_start SQLITE3 []) =
     (fill_text @ ''1'' @ '' entries have been processed'' @ endl @
        listing (cw_out table_world) ''IATA code'' ''words'' ''nce'' [code_location ''NCE''\<lparr>loc_correctedKeywords := ''nce''\<rparr>] @ endl,
      Inr (True, h', s')) \<and>
     ss_db s' = [[''NCE-C-7'', ''C'', ''NCE'', [], [], ''Y'', ''7'', ''0'', [], [], ''NCE'']]"
proof -
  let ?ls = "[code_location ''NCE'', code_location ''NotAvailable'']"
  let ?rows = "[[''NCE-C-7'', ''C'', ''NCE'', [], [], ''Y'', ''7'', ''0'', [], [], ''NCE'']]"
  let ?c = "\<lparr>sc_porFilePath = ''por.csv'', sc_travelDBFilePath = ''/tmp/xapian'', sc_sqlDBType = SQLITE3, sc_sqlDBConnectionString = ''trep.db''\<rparr>"
  let ?parse = "\<lambda>s. Inr (code_location s) :: Location outcome"
  have w: "cw_tokeniser table_world = split_tokens" "cw_regex table_world = code_groups" "cw_iso_date table_world = (\<lambda>_. [])"
    "cw_insert_row table_world = table_insert" "en_parse (cw_env table_world table) = ?parse"
    "por_stream (cw_por table_world) path fs = Inr [''NCE'', ''NotAvailable'']" for table path fs
    by (simp_all add: table_world_def table_env_def por_stream_def PORFileHelper_init_def getFileStreamRef_def)
  have code: "map toupper ''nce'' = ''NCE''" "matchesIATACode ''nce''" by code_simp+
  have locs: "loc_commonName (code_location t) = t" "lk_iataCode (loc_key (code_location t)) = t"
    "loc_rawDataString (code_location t) = t" "lk_iataType (loc_key (code_location t)) \<noteq> LAST_IATA_TYPE" for t
    by (simp_all add: code_location_def new_LocationKey_def)
  have relevant: "relevant_locations ?ls = [code_location ''NCE'']" by (simp add: relevant_locations_def locs)
  have nce: "of_iata ''nce'' ?ls = [code_location ''NCE'']" unfolding of_iata_def relevant code(1) by (simp add: locs)
  have one: "show_nat (length ?rows) = ''1''" by code_simp
  have db: "mset (ss_db (table_start SQLITE3 [])) = {#}" by (simp add: table_start_def)
  have connected: "initSQLDBSession (en_server (cw_env table_world table)) (sc_sqlDBType ?c) (sc_sqlDBConnectionString ?c) =
      Inr (Some (table_session table))" for table
    using table_connected by simp
  have lines: "list_all2 (\<lambda>line l. ?parse line = Inr l) [''NCE'', ''NotAvailable''] ?ls" by simp
  have parsed: "\<forall>l \<in> set ?ls. ?parse (loc_rawDataString l) = Inr l \<and> lk_iataType (loc_key l) \<noteq> LAST_IATA_TYPE" by (simp add: locs)
  have keys: "distinct (map primary_key (relevant_locations ?ls))" "length ?ls < 65536" by (simp_all add: relevant)
  from console_fill_and_list [of table_world table_session mset "table_start SQLITE3 []" ?c ?parse "[''NCE'', ''NotAvailable'']" ?ls ?rows
      "''nce''" table_info gnu_ops "\<lparr>gh_lines = [], gh_limit = None\<rparr>", unfolded w, OF boost.char_separator_axioms codes.code_patterns_axioms
      listed.por_table_axioms table_service db connected refl refl lines code_rows parsed keys code(2)]
  obtain hits h' s' where run: "mset hits = mset (of_iata ''nce'' ?ls)" "mset (ss_db s') = mset ?rows"
    "console_loop table_world table_info gnu_ops [Some ''fill_from_por_file'', Some (''list_by_iata '' @ ''nce''), None]
       \<lparr>gh_lines = [], gh_limit = None\<rparr> (table_start SQLITE3 []) =
      (fill_text @ concat (map (\<lambda>i. ''Number of records inserted into the DB: '' @ show_nat i @ endl)
         (filter (\<lambda>i. 1000 dvd i) [1..<Suc (length ?rows)])) @
       show_nat (length ?rows) @ '' entries have been processed'' @ endl @
       listing (cw_out table_world) ''IATA code'' ''words'' ''nce'' (map (\<lambda>l. l\<lparr>loc_correctedKeywords := ''nce''\<rparr>) hits) @ endl,
       Inr (True, h', s'))" by blast
  have "hits = [code_location ''NCE'']" "ss_db s' = ?rows" using run(1,2) by (simp_all add: nce)
  then show ?thesis using run(3) one by auto
qed

text \<open>Whatever is typed, the services keep their files and their type of database, and connect with the string that the
  last \<^verbatim>\<open>reset_connection_string\<close> before the end of the session gave, or with the first one.\<close>

theorem console_connection:
  assumes "console_loop w info ops inputs h s = (out, Inr (ended, h', s'))" and "ss_service s = Some c"
  shows "ss_service s' = Some \<lparr>sc_porFilePath = sc_porFilePath c, sc_travelDBFilePath = sc_travelDBFilePath c,
    sc_sqlDBType = sc_sqlDBType c,
    sc_sqlDBConnectionString = last (sc_sqlDBConnectionString c # connections (cw_tokeniser w) inputs)\<rparr>"
  using loop_connection [OF assms] by (cases c) simp

theorem console_connection_witness:
  "\<exists>out h' s'. console_loop table_world table_info gnu_ops [Some ''reset_connection_string a.db'', Some ''help'', None]
       \<lparr>gh_lines = [], gh_limit = None\<rparr> (table_start SQLITE3 []) = (out, Inr (True, h', s')) \<and>
     ss_service s' = Some \<lparr>sc_porFilePath = ''por.csv'', sc_travelDBFilePath = ''/tmp/xapian'', sc_sqlDBType = SQLITE3,
       sc_sqlDBConnectionString = ''a.db''\<rparr>"
proof -
  let ?inputs = "[Some ''reset_connection_string a.db'', Some ''help'', None]"
  let ?h = "\<lparr>gh_lines = [], gh_limit = None\<rparr>"
  have tkz: "cw_tokeniser table_world = split_tokens" by (simp add: table_world_def)
  have cmds: "extractCommand (SplitTokens split_tokens (trim_space ''reset_connection_string a.db'')) = (RESET_CONNECTION_STRING, [''a.db''])"
    "extractCommand (SplitTokens split_tokens (trim_space ''help'')) = (HELP, [])"
    by code_simp+
  have set: "setSQLDBConnectString (Some c) conn = Inr (c\<lparr>sc_sqlDBConnectionString := conn\<rparr>)" for c conn
    by (simp add: setSQLDBConnectString_def with_context_def)
  obtain h1 fs1 where line1: "console_loop table_world table_info gnu_ops ?inputs ?h (table_start SQLITE3 []) =
      bind_io (perform table_world table_info (trim_space ''reset_connection_string a.db'') RESET_CONNECTION_STRING [''a.db'']
          (table_start SQLITE3 []\<lparr>ss_fs := fs1\<rparr>))
        (\<lambda>s. console_loop table_world table_info gnu_ops [Some ''help'', None] h1 s)"
    using console_loop_line [OF cmds(1) [folded tkz], of table_info gnu_ops "[Some ''help'', None]" ?h "table_start SQLITE3 []"] by auto
  obtain o1 s1 where s1: "perform table_world table_info (trim_space ''reset_connection_string a.db'') RESET_CONNECTION_STRING [''a.db'']
      (table_start SQLITE3 []\<lparr>ss_fs := fs1\<rparr>) = (o1, Inr s1)"
    by (simp add: table_service set)
  obtain h2 fs2 where line2: "console_loop table_world table_info gnu_ops [Some ''help'', None] h1 s1 =
      bind_io (perform table_world table_info (trim_space ''help'') HELP [] (s1\<lparr>ss_fs := fs2\<rparr>))
        (\<lambda>s. console_loop table_world table_info gnu_ops [None] h2 s)"
    using console_loop_line [OF cmds(2) [folded tkz], of table_info gnu_ops "[None]" h1 s1] by auto
  from console_loop_end [of table_world table_info gnu_ops "[]" h2 "s1\<lparr>ss_fs := fs2\<rparr>"]
  obtain s2 where "console_loop table_world table_info gnu_ops [None] h2 (s1\<lparr>ss_fs := fs2\<rparr>) = (endl, Inr (True, h2, s2))"
    by (elim exE conjE)
  then obtain out h' s' where run: "console_loop table_world table_info gnu_ops ?inputs ?h (table_start SQLITE3 []) = (out, Inr (True, h', s'))"
    unfolding line1 s1 io_simps line2 by simp
  have "connections split_tokens ?inputs = [''a.db'']" by (simp add: cmds toString_one)
  with console_connection [OF run table_service] show ?thesis using run by (simp add: tkz del: console_loop.simps)
qed

text \<open>A code that the regular expression does not recognise is not reported: when the search leaves its groups empty, the
  command lists the entries of the default code, as \<^verbatim>\<open>list_all\<close> always does.\<close>

theorem unknown_code_lists_default:
  assumes "cw_regex w iata_regex (toString ts) = m # [] # gs" and "length gs < 65534"
  shows "perform w info u LIST_BY_IATA ts s = perform w info u' LIST_ALL ts' s"
proof -
  have "extractTokenListForIataCode (cw_regex w) ts = Inr ([] # gs)"
    using extractTokenList_groups [of "cw_regex w" iata_regex ts m "[] # gs"] assms(1,2) by (simp add: extractTokenListForIataCode_def)
  then show ?thesis by (simp add: list_by_key_def parsePlaceKey_def Let_def)
qed

theorem unknown_code_lists_default_witness:
  "perform table_world table_info ''list_by_iata nice'' LIST_BY_IATA [''nice''] (table_start SQLITE3 []) =
     perform table_world table_info ''list_all'' LIST_ALL [] (table_start SQLITE3 [])"
proof -
  have "code_groups iata_regex ''nice'' = [] # [] # []" by (simp add: code_groups_def matchesIATACode_def)
  then show ?thesis by (intro unknown_code_lists_default [where m="[]" and gs="[]"]) (simp_all add: table_world_def toString_one)
qed

text \<open>The number of entries of the table is displayed modulo 65536: a table of 65536 entries has none on the screen.\<close>

theorem list_nb_wraps:
  assumes "getNbOfPORFromDB (cw_engine w) (en_server (cw_env w (ss_db s))) (ss_service s) (ss_db s) = Inr n"
  shows "perform w info u LIST_NB ts s =
    (show_nat (unat n mod 65536) @ '' (geographical) location(s) have been found.'' @ endl, Inr s)"
proof -
  have "unat (ucast n :: 16 word) = unat n mod 65536" by (simp add: unsigned_ucast_eq take_bit_eq_mod)
  then show ?thesis using assms by simp
qed

theorem list_nb_wraps_witness:
  "perform (table_world\<lparr>cw_engine := (cw_engine table_world)\<lparr>eg_count := (\<lambda>_ _. Inr 131072)\<rparr>\<rparr>) table_info ''list_nb'' LIST_NB []
       (table_start SQLITE3 []) = (''0'' @ '' (geographical) location(s) have been found.'' @ endl, Inr (table_start SQLITE3 []))"
proof -
  let ?w = "table_world\<lparr>cw_engine := (cw_engine table_world)\<lparr>eg_count := (\<lambda>_ _. Inr 131072)\<rparr>\<rparr>"
  have "getNbOfPORFromDB (cw_engine ?w) (en_server (cw_env ?w (ss_db (table_start SQLITE3 [])))) (ss_service (table_start SQLITE3 []))
      (ss_db (table_start SQLITE3 [])) = Inr 131072"
    using table_connected by (simp add: getNbOfPORFromDB_def with_session_def with_context_def table_service displayCount_def)
  moreover have "show_nat 0 = ''0''" by code_simp
  ultimately show ?thesis using list_nb_wraps [of ?w "table_start SQLITE3 []" 131072] by simp
qed

text \<open>Without a SQL database, which is the default, the commands on the table fail an assertion, so that the program
  ends; filling it does nothing, and says that no entry was processed.\<close>

theorem console_without_database:
  assumes "ss_service s = Some c" and "sc_sqlDBType c = NODB" and "cmd \<in> {LIST_NB, LIST_ALL, CREATE_TABLES, CREATE_INDEXES}"
    and "ci_DBType info \<noteq> LAST_DB_TYPE"
  shows "snd (perform w info u cmd ts s) = Inl AssertionFailure \<and>
    perform w info u FILL_FROM_POR_FILE ts s = (fill_text @ ''0 entries have been processed'' @ endl, Inr s)"
proof -
  have session: "initSQLDBSession server (sc_sqlDBType c) conn = Inr None" for server conn
    by (simp add: initSQLDBSession_def assms(2))
  obtain l where label: "DBType_getLabel (ci_DBType info) = Inr l"
    using assms(4) by (cases "ci_DBType info") (auto simp: DBType_getLabel_def array_at_def DBType_labels_def)
  have zero: "show_nat 0 = ''0''" by code_simp
  have "snd (perform w info u cmd ts s) = Inl AssertionFailure"
    using assms(1,3) by (auto simp: getNbOfPORFromDB_def with_session_def with_context_def session label print_matches_def listByIataCode_def
      change_db_def service_createSQLDBTables_def service_createSQLDBIndexes_def with_session_on_def)
  moreover have "perform w info u FILL_FROM_POR_FILE ts s = (fill_text @ ''0 entries have been processed'' @ endl, Inr s)"
    by (simp add: service_fillInFromPORFile_def with_context_def assms(1) session zero)
  ultimately show ?thesis ..
qed

theorem console_without_database_witness:
  "snd (perform table_world table_info ''list_nb'' LIST_NB [] (table_start NODB [])) = Inl AssertionFailure \<and>
   perform table_world table_info ''list_nb'' FILL_FROM_POR_FILE [] (table_start NODB []) =
     (fill_text @ ''0 entries have been processed'' @ endl, Inr (table_start NODB []))"
  by (rule console_without_database [OF table_service]) (simp_all add: table_info_def)

text \<open>The command lines that the program registers are those of its commands, whatever the case of the letters is, with one that
  no code performs: \<^verbatim>\<open>list_cont\<close>. After \<^verbatim>\<open>list_by_iata\<close>, the completion proposes the placeholder itself.\<close>

theorem registered_commands:
  "(\<forall>k \<in> set completers. fst (extractCommand (SplitTokens split_tokens k)) \<notin> {NOP, LAST_VALUE}) \<and>
   distinct (map (\<lambda>k. fst (extractCommand (SplitTokens split_tokens k))) completers) \<and>
   fst (extractCommand [''List_Cont'']) = LIST_CONT \<and>
   perform w info ''list_cont'' LIST_CONT ts s = perform w info ''list_cont'' LAST_VALUE ts s \<and>
   rl_candidates 17 [] 0 (snd (UserCompletion split_tokens ''list_by_iata '' 13 (initReadline split_tokens
     \<lparr>cs_Completions = [], cs_Tokens = [], cs_Length = 0, cs_Iterator = []\<rparr>))) = Some [''%iata_code'']"
proof (intro conjI)
  show "\<forall>k \<in> set completers. fst (extractCommand (SplitTokens split_tokens k)) \<notin> {NOP, LAST_VALUE}" by code_simp
  show "distinct (map (\<lambda>k. fst (extractCommand (SplitTokens split_tokens k))) completers)" by code_simp
  show "fst (extractCommand [''List_Cont'']) = LIST_CONT" by code_simp
  show "rl_candidates 17 [] 0 (snd (UserCompletion split_tokens ''list_by_iata '' 13 (initReadline split_tokens
     \<lparr>cs_Completions = [], cs_Tokens = [], cs_Length = 0, cs_Iterator = []\<rparr>))) = Some [''%iata_code'']" by code_simp
qed simp

end
