(* ===== verification/PlaceRows.thy ===== *)
theory PlaceRows
  imports Index_Terms
begin

text \<open>
  The conversion of a place from and to the values of a row (\<^verbatim>\<open>dbadaptor/DbaPlace.cpp\<close>), for a join of the records with
  their names and their cities: one row per name, the rows of a place one after the other.

  The values are those of the SOCI library: reading and writing a value by its name are parameters. So is the
  conversion of a text to a date, which may throw. An offset of a time zone is an integer that a \<^verbatim>\<open>float\<close> holds. What an
  exception leaves in the place is not modelled.
\<close>

section \<open>Values\<close>

datatype base_value = Null_value | Text_value string | Int_value int | Real_value dbl

text \<open>Reading has a default value, for the null values, or none; writing adds a value with its indicator.\<close>

record 'v soci_values =
  bv_text :: "'v \<Rightarrow> string \<Rightarrow> string option \<Rightarrow> string outcome"
  bv_int :: "'v \<Rightarrow> string \<Rightarrow> int option \<Rightarrow> int outcome"
  bv_real :: "'v \<Rightarrow> string \<Rightarrow> dbl option \<Rightarrow> dbl outcome"
  bv_set :: "string \<Rightarrow> base_value \<Rightarrow> 'v \<Rightarrow> 'v"

definition DEFAULT_DATE_STR :: string where
  "DEFAULT_DATE_STR = ''1970-01-01''"

section \<open>From the database\<close>

text \<open>A field of the row that is stored in the location.\<close>

definition text_field :: "'v soci_values \<Rightarrow> 'v \<Rightarrow> string \<Rightarrow> string option \<Rightarrow> (string \<Rightarrow> Location \<Rightarrow> Location) \<Rightarrow> Location \<Rightarrow> Location outcome" where
  "text_field ops v name nul put l = bindE (bv_text ops v name nul) (\<lambda>s. Inr (put s l))"

definition int_field :: "'v soci_values \<Rightarrow> 'v \<Rightarrow> string \<Rightarrow> int option \<Rightarrow> (int \<Rightarrow> Location \<Rightarrow> Location) \<Rightarrow> Location \<Rightarrow> Location outcome" where
  "int_field ops v name nul put l = bindE (bv_int ops v name nul) (\<lambda>n. Inr (put n l))"

definition real_field :: "'v soci_values \<Rightarrow> 'v \<Rightarrow> string \<Rightarrow> dbl option \<Rightarrow> (dbl \<Rightarrow> Location \<Rightarrow> Location) \<Rightarrow> Location \<Rightarrow> Location outcome" where
  "real_field ops v name nul put l = bindE (bv_real ops v name nul) (\<lambda>x. Inr (put x l))"

definition date_field ::
    "'v soci_values \<Rightarrow> (string \<Rightarrow> date outcome) \<Rightarrow> 'v \<Rightarrow> string \<Rightarrow> (date \<Rightarrow> Location \<Rightarrow> Location) \<Rightarrow> Location \<Rightarrow> Location outcome" where
  "date_field ops from_string v name put l =
     bindE (bv_text ops v name (Some DEFAULT_DATE_STR)) (\<lambda>s. bindE (from_string s) (\<lambda>d. Inr (put d l)))"

text \<open>The fields that are read when the key is a new one, in order.\<close>

definition place_fields ::
    "'v soci_values \<Rightarrow> (string \<Rightarrow> date outcome) \<Rightarrow> 'v \<Rightarrow> (Location \<Rightarrow> Location outcome) list" where
  "place_fields ops from_string v =
     [int_field ops v ''envelope_id'' None (\<lambda>n l. l\<lparr>loc_envelopeID := n\<rparr>),
      date_field ops from_string v ''date_from'' (\<lambda>d l. l\<lparr>loc_dateFrom := d\<rparr>),
      date_field ops from_string v ''date_until'' (\<lambda>d l. l\<lparr>loc_dateEnd := d\<rparr>),
      text_field ops v ''comment'' (Some []) (\<lambda>s l. l\<lparr>loc_comment := s\<rparr>),
      text_field ops v ''utf_name'' (Some []) (\<lambda>s l. l\<lparr>loc_commonName := s\<rparr>),
      text_field ops v ''asciiname'' (Some []) (\<lambda>s l. l\<lparr>loc_asciiName := s\<rparr>),
      text_field ops v ''faa_code'' (Some []) (\<lambda>s l. l\<lparr>loc_faaCode := s\<rparr>),
      text_field ops v ''fclass'' (Some []) (\<lambda>s l. l\<lparr>loc_featClass := s\<rparr>),
      text_field ops v ''fcode'' (Some []) (\<lambda>s l. l\<lparr>loc_featCode := s\<rparr>),
      text_field ops v ''state_code'' (Some []) (\<lambda>s l. l\<lparr>loc_stateCode := s\<rparr>),
      text_field ops v ''country_code'' None (\<lambda>s l. l\<lparr>loc_countryCode := s\<rparr>),
      text_field ops v ''country_name'' None (\<lambda>s l. l\<lparr>loc_countryName := s\<rparr>),
      text_field ops v ''cc2'' (Some []) (\<lambda>s l. l\<lparr>loc_altCountryCode := s\<rparr>),
      text_field ops v ''continent_name'' None (\<lambda>s l. l\<lparr>loc_continentName := s\<rparr>),
      real_field ops v ''latitude'' None (\<lambda>x l. l\<lparr>loc_latitude := x\<rparr>),
      real_field ops v ''longitude'' None (\<lambda>x l. l\<lparr>loc_longitude := x\<rparr>),
      real_field ops v ''page_rank'' (Some (loc_pageRank new_Location)) (\<lambda>x l. l\<lparr>loc_pageRank := x\<rparr>),
      text_field ops v ''admin1_code'' (Some []) (\<lambda>s l. l\<lparr>loc_admin1Code := s\<rparr>),
      text_field ops v ''admin1_UTF8_name'' (Some []) (\<lambda>s l. l\<lparr>loc_admin1UtfName := s\<rparr>),
      text_field ops v ''admin1_ASCII_name'' (Some []) (\<lambda>s l. l\<lparr>loc_admin1AsciiName := s\<rparr>),
      text_field ops v ''admin2_code'' (Some []) (\<lambda>s l. l\<lparr>loc_admin2Code := s\<rparr>),
      text_field ops v ''admin2_UTF8_name'' (Some []) (\<lambda>s l. l\<lparr>loc_admin2UtfName := s\<rparr>),
      text_field ops v ''admin2_ASCII_name'' (Some []) (\<lambda>s l. l\<lparr>loc_admin2AsciiName := s\<rparr>),
      text_field ops v ''admin3_code'' (Some []) (\<lambda>s l. l\<lparr>loc_admin3Code := s\<rparr>),
      text_field ops v ''admin4_code'' (Some []) (\<lambda>s l. l\<lparr>loc_admin4Code := s\<rparr>),
      int_field ops v ''population'' None (\<lambda>n l. l\<lparr>loc_population := word_of_int n\<rparr>),
      int_field ops v ''elevation'' None (\<lambda>n l. l\<lparr>loc_elevation := n\<rparr>),
      int_field ops v ''gtopo30'' None (\<lambda>n l. l\<lparr>loc_gTopo30 := n\<rparr>),
      text_field ops v ''time_zone'' (Some []) (\<lambda>s l. l\<lparr>loc_timeZone := s\<rparr>),
      int_field ops v ''gmt_offset'' (Some 0) (\<lambda>n l. l\<lparr>loc_gmtOffset := Fin (of_int n)\<rparr>),
      int_field ops v ''dst_offset'' (Some 0) (\<lambda>n l. l\<lparr>loc_dstOffset := Fin (of_int n)\<rparr>),
      int_field ops v ''raw_offset'' (Some 0) (\<lambda>n l. l\<lparr>loc_rawOffset := Fin (of_int n)\<rparr>),
      date_field ops from_string v ''moddate'' (\<lambda>d l. l\<lparr>loc_modificationDate := d\<rparr>),
      text_field ops v ''wiki_link'' (Some []) (\<lambda>s l. l\<lparr>loc_wikiLink := s\<rparr>)]"

definition key_fields :: "'v soci_values \<Rightarrow> 'v \<Rightarrow> (string \<times> EN_IATAType \<times> int) outcome" where
  "key_fields ops v =
     bindE (bv_text ops v ''iata_code'' (Some [])) (\<lambda>lIataCode.
     bindE (bv_text ops v ''location_type'' (Some [])) (\<lambda>lIataTypeStr.
     bindE (IATAType_of_string lIataTypeStr) (\<lambda>lIataType.
     bindE (bv_int ops v ''geoname_id'' (Some 0)) (\<lambda>lGeonameID. Inr (lIataCode, lIataType, lGeonameID)))))"

definition set_key :: "string \<times> EN_IATAType \<times> int \<Rightarrow> Location \<Rightarrow> Location" where
  "set_key = (\<lambda>(lIataCode, lIataType, lGeonameID) l.
     l\<lparr>loc_key := (loc_key l)\<lparr>lk_iataCode := lIataCode, lk_iataType := lIataType, lk_geonamesID := lGeonameID\<rparr>\<rparr>)"

definition name_fields :: "'v soci_values \<Rightarrow> 'v \<Rightarrow> (Location \<Rightarrow> Location outcome)" where
  "name_fields ops v l =
     bindE (bv_text ops v ''alt_lang_code'' (Some [])) (\<lambda>lLanguageStr.
     bindE (text_field ops v ''alt_name'' (Some [])
              (\<lambda>lUtfName l. l\<lparr>loc_nameMatrix := NameMatrix_addName lLanguageStr lUtfName (loc_nameMatrix l)\<rparr>) l) (\<lambda>l.
     bindE (text_field ops v ''city_iata_code'' (Some []) (\<lambda>s l. l\<lparr>loc_cityCode := s\<rparr>) l) (\<lambda>l.
     bindE (text_field ops v ''city_UTF8_name'' (Some []) (\<lambda>s l. l\<lparr>loc_cityUtfName := s\<rparr>) l) (\<lambda>l.
       text_field ops v ''city_ASCII_name'' (Some []) (\<lambda>s l. l\<lparr>loc_cityAsciiName := s\<rparr>) l))))"

definition from_base :: "'v soci_values \<Rightarrow> (string \<Rightarrow> date outcome) \<Rightarrow> 'v \<Rightarrow> Place \<Rightarrow> Place outcome" where
  "from_base ops from_string iPlaceValues ioPlace =
     bindE (key_fields ops iPlaceValues) (\<lambda>(lIataCode, lIataType, lGeonameID).
       let lNewPlaceKey = new_LocationKey lIataCode lIataType lGeonameID;
           lPlaceKey = loc_key (pl_location ioPlace)
       in bindE (if \<not> LocationKey_eq lNewPlaceKey lPlaceKey then
                   let p = Place_resetMatrix (resetIndexSets ioPlace)
                   in bindE (foldE (\<lambda>field l. field l) (place_fields ops from_string iPlaceValues)
                               (set_key (lIataCode, lIataType, lGeonameID) (pl_location p)))
                        (\<lambda>l. Inr (setLocation l p))
                 else Inr ioPlace) (\<lambda>p.
          bindE (name_fields ops iPlaceValues (pl_location p)) (\<lambda>l. Inr (setLocation l p))))"

section \<open>To the database\<close>

definition text_value :: "string \<Rightarrow> base_value" where
  "text_value s = (if s = [] then Null_value else Text_value s)"

definition to_base :: "'v soci_values \<Rightarrow> Place \<Rightarrow> 'v \<Rightarrow> 'v" where
  "to_base ops iPlace ioPlaceValues =
     (let l = pl_location iPlace
      in fold (\<lambda>(name, x) v. bv_set ops name x v)
           [(''iata_code'', text_value (lk_iataCode (loc_key l))), (''icao_code'', text_value (loc_icaoCode l)),
            (''geoname_id'', Int_value (lk_geonamesID (loc_key l))), (''faa_code'', text_value (loc_faaCode l)),
            (''city_code'', text_value (loc_cityCode l)), (''state_code'', text_value (loc_stateCode l)),
            (''country_code'', Text_value (loc_countryCode l)), (''country_name'', Text_value (loc_countryName l)),
            (''continent_name'', Text_value (loc_continentName l)), (''time_zone'', Text_value (loc_timeZone l)),
            (''latitude'', Real_value (loc_latitude l)), (''longitude'', Real_value (loc_longitude l)),
            (''page_rank'', Real_value (loc_pageRank l)), (''wiki_link'', Text_value (loc_wikiLink l))]
           ioPlaceValues)"

section \<open>The rows of a place\<close>

text \<open>The name and the city of a row.\<close>

definition row_names :: "'v soci_values \<Rightarrow> 'v \<Rightarrow> (string \<times> string \<times> string \<times> string \<times> string) outcome" where
  "row_names ops v =
     bindE (bv_text ops v ''alt_lang_code'' (Some [])) (\<lambda>lang.
     bindE (bv_text ops v ''alt_name'' (Some [])) (\<lambda>name.
     bindE (bv_text ops v ''city_iata_code'' (Some [])) (\<lambda>code.
     bindE (bv_text ops v ''city_UTF8_name'' (Some [])) (\<lambda>utf.
     bindE (bv_text ops v ''city_ASCII_name'' (Some [])) (\<lambda>ascii. Inr (lang, name, code, utf, ascii))))))"

definition add_row :: "string \<times> string \<times> string \<times> string \<times> string \<Rightarrow> Location \<Rightarrow> Location" where
  "add_row = (\<lambda>(lang, name, code, utf, ascii) l. l\<lparr>loc_nameMatrix := NameMatrix_addName lang name (loc_nameMatrix l),
     loc_cityCode := code, loc_cityUtfName := utf, loc_cityAsciiName := ascii\<rparr>)"

lemma name_fields_row: "row_names ops v = Inr r \<Longrightarrow> name_fields ops v l = Inr (add_row r l)"
  by (auto simp: row_names_def name_fields_def text_field_def add_row_def bindE_Inr_iff)

text \<open>What no field stores, reading the fields does not change: the key, and the ICAO code.\<close>

lemma fields_keep:
  assumes "foldE (\<lambda>field l. field l) fs l = Inr l'" and "\<forall>f \<in> set fs. \<forall>l l'. f l = Inr l' \<longrightarrow> g l' = g l"
  shows "g l' = g l"
  using assms by (induction fs arbitrary: l) (auto simp: bindE_Inr_iff)

lemma place_fields_keep:
  assumes "foldE (\<lambda>field l. field l) (place_fields ops from_string v) l = Inr l'"
  shows "loc_key l' = loc_key l" and "loc_icaoCode l' = loc_icaoCode l"
  by (rule fields_keep [OF assms];
    auto simp: place_fields_def text_field_def int_field_def real_field_def date_field_def bindE_Inr_iff)+

lemma add_row_keeps: "loc_key (add_row r l) = loc_key l" "loc_icaoCode (add_row r l) = loc_icaoCode l"
  by (simp_all add: add_row_def split: prod.split)

lemma add_rows_icao: "loc_icaoCode (fold add_row rs l) = loc_icaoCode l"
  by (induction rs arbitrary: l) (simp_all add: add_row_keeps)

lemma set_key_eq: "k = (code, t, n) \<Longrightarrow> LocationKey_eq (new_LocationKey code t n) (loc_key (set_key k l))"
  by (simp add: LocationKey_eq_def new_LocationKey_def set_key_def)

lemma same_place_row:
  assumes "key_fields ops v = Inr (code, t, n)" and "LocationKey_eq (new_LocationKey code t n) (loc_key (pl_location p))"
    and "row_names ops v = Inr r"
  shows "from_base ops from_string v p = Inr (setLocation (add_row r (pl_location p)) p)"
  using assms by (simp add: from_base_def name_fields_row)

lemma same_place_rows:
  assumes "list_all2 (\<lambda>v r. key_fields ops v = Inr (code, t, n) \<and> row_names ops v = Inr r) vs rs"
    and "LocationKey_eq (new_LocationKey code t n) (loc_key (pl_location p))"
  shows "foldE (from_base ops from_string) vs p = Inr (setLocation (fold add_row rs (pl_location p)) p)"
  using assms
proof (induction vs rs arbitrary: p rule: list_all2_induct)
  case Nil
  then show ?case by (simp add: setLocation_def)
next
  case (Cons v vs r rs)
  have "LocationKey_eq (new_LocationKey code t n) (loc_key (pl_location (setLocation (add_row r (pl_location p)) p)))"
    using Cons.prems by (simp add: setLocation_def add_row_keeps)
  from Cons.IH [OF this] show ?case
    using same_place_row [OF conjunct1 [OF Cons.hyps(1)] Cons.prems conjunct2 [OF Cons.hyps(1)]] by (simp add: setLocation_def)
qed

section \<open>A library of values\<close>

text \<open>What SOCI documents: a value that was written last under a name is read, a null value gives the default value, and
  a name that was never written throws.\<close>

locale values_library =
  fixes ops :: "'v soci_values" and none :: 'v
  assumes text_none: "isl (bv_text ops none name d)"
    and text_set: "bv_text ops (bv_set ops a x v) name d =
      (if name \<noteq> a then bv_text ops v name d
       else case x of Text_value s \<Rightarrow> Inr s
         | Null_value \<Rightarrow> (case d of Some s \<Rightarrow> Inr s | None \<Rightarrow> Inl (StdException ''Null value not allowed for this type''))
         | _ \<Rightarrow> Inl (StdException ''std::bad_cast''))"
begin

lemma text_unset:
  "name \<notin> set (map fst xs) \<Longrightarrow> bv_text ops (fold (\<lambda>(a, x) v. bv_set ops a x v) xs v) name d = bv_text ops v name d"
  by (induction xs arbitrary: v) (auto simp: text_set)

lemma to_base_no_type: "isl (bv_text ops (to_base ops p none) ''location_type'' d)"
  unfolding to_base_def Let_def by (subst text_unset) (simp_all add: text_none)

end

text \<open>Values as a list of the last writings.\<close>

definition list_values :: "(string \<times> base_value) list soci_values" where
  "list_values =
     \<lparr>bv_text = (\<lambda>v name d. case map_of v name of
          None \<Rightarrow> Inl (StdException (''Value named '' @ name @ '' not found.''))
        | Some (Text_value s) \<Rightarrow> Inr s
        | Some Null_value \<Rightarrow> (case d of Some s \<Rightarrow> Inr s | None \<Rightarrow> Inl (StdException ''Null value not allowed for this type''))
        | Some _ \<Rightarrow> Inl (StdException ''std::bad_cast'')),
      bv_int = (\<lambda>v name d. case map_of v name of
          None \<Rightarrow> Inl (StdException (''Value named '' @ name @ '' not found.''))
        | Some (Int_value n) \<Rightarrow> Inr n
        | Some Null_value \<Rightarrow> (case d of Some n \<Rightarrow> Inr n | None \<Rightarrow> Inl (StdException ''Null value not allowed for this type''))
        | Some _ \<Rightarrow> Inl (StdException ''std::bad_cast'')),
      bv_real = (\<lambda>v name d. case map_of v name of
          None \<Rightarrow> Inl (StdException (''Value named '' @ name @ '' not found.''))
        | Some (Real_value x) \<Rightarrow> Inr x
        | Some Null_value \<Rightarrow> (case d of Some x \<Rightarrow> Inr x | None \<Rightarrow> Inl (StdException ''Null value not allowed for this type''))
        | Some _ \<Rightarrow> Inl (StdException ''std::bad_cast'')),
      bv_set = (\<lambda>name x v. (name, x) # v)\<rparr>"

interpretation written: values_library list_values "[]"
  by unfold_locales (auto simp: list_values_def split: base_value.split)

section \<open>Properties\<close>

text \<open>C36: The rows of one place, read one after the other into the place of the rows before them, give the place with the details
  of the first row, the names of all the rows under their languages in order, and the city of the last one, without the
  terms of the previous place. The ICAO code, which the code never reads from a row, is still that of the previous place.\<close>

theorem rows_of_place:
  assumes "list_all2 (\<lambda>v r. key_fields ops v = Inr (code, t, n) \<and> row_names ops v = Inr r) (v # vs) (r # rs)"
    and "\<not> LocationKey_eq (new_LocationKey code t n) (loc_key (pl_location p))"
    and "foldE (\<lambda>field l. field l) (place_fields ops from_string v) (set_key (code, t, n) (resetMatrix (pl_location p))) = Inr l"
  shows "foldE (from_base ops from_string) (v # vs) p = Inr (setLocation (fold add_row (r # rs) l) (resetIndexSets p)) \<and>
    loc_icaoCode (fold add_row (r # rs) l) = loc_icaoCode (pl_location p)"
proof -
  have row: "key_fields ops v = Inr (code, t, n)" "row_names ops v = Inr r" and rows: "list_all2 (\<lambda>v r. key_fields ops v = Inr (code, t, n) \<and> row_names ops v = Inr r) vs rs"
    using assms(1) by simp_all
  let ?p = "setLocation (add_row r l) (resetIndexSets p)"
  have "pl_location (Place_resetMatrix (resetIndexSets p)) = resetMatrix (pl_location p)"
    by (simp add: Place_resetMatrix_def resetIndexSets_def)
  then have first: "from_base ops from_string v p = Inr ?p"
    using row assms(2,3) by (simp add: from_base_def name_fields_row [OF row(2)] setLocation_def resetIndexSets_def Place_resetMatrix_def)
  have "LocationKey_eq (new_LocationKey code t n) (loc_key (pl_location ?p))"
    using place_fields_keep(1) [OF assms(3)] set_key_eq [OF refl] by (simp add: setLocation_def add_row_keeps)
  from same_place_rows [OF rows this]
  have "foldE (from_base ops from_string) (v # vs) p = Inr (setLocation (fold add_row (r # rs) l) (resetIndexSets p))"
    by (simp add: first setLocation_def)
  moreover have "loc_icaoCode l = loc_icaoCode (pl_location p)"
    using place_fields_keep(2) [OF assms(3)] by (simp add: set_key_def resetMatrix_def)
  ultimately show ?thesis by (simp only: add_rows_icao)
qed

text \<open>A row for the examples.\<close>

definition nce_row :: "string \<Rightarrow> string \<Rightarrow> (string \<times> base_value) list" where
  "nce_row lang name =
     [(''iata_code'', Text_value ''NCE''), (''location_type'', Text_value ''CA''), (''geoname_id'', Int_value 6299418),
      (''envelope_id'', Int_value 0), (''date_from'', Null_value), (''date_until'', Null_value), (''comment'', Null_value),
      (''utf_name'', Text_value ''Nice''), (''asciiname'', Text_value ''Nice''), (''faa_code'', Null_value),
      (''fclass'', Text_value ''S''), (''fcode'', Text_value ''AIRP''), (''state_code'', Null_value),
      (''country_code'', Text_value ''FR''), (''country_name'', Text_value ''France''), (''cc2'', Null_value),
      (''continent_name'', Text_value ''Europe''), (''latitude'', Real_value (Fin 43)), (''longitude'', Real_value (Fin 7)),
      (''page_rank'', Null_value), (''admin1_code'', Null_value), (''admin1_UTF8_name'', Null_value),
      (''admin1_ASCII_name'', Null_value), (''admin2_code'', Null_value), (''admin2_UTF8_name'', Null_value),
      (''admin2_ASCII_name'', Null_value), (''admin3_code'', Null_value), (''admin4_code'', Null_value),
      (''population'', Int_value 0), (''elevation'', Int_value 3), (''gtopo30'', Int_value 2), (''time_zone'', Null_value),
      (''gmt_offset'', Int_value 1), (''dst_offset'', Null_value), (''raw_offset'', Null_value), (''moddate'', Null_value),
      (''wiki_link'', Null_value), (''alt_lang_code'', Text_value lang), (''alt_name'', Text_value name),
      (''city_iata_code'', Text_value ''NCE''), (''city_UTF8_name'', Null_value), (''city_ASCII_name'', Null_value)]"

theorem rows_of_place_witness:
  "\<exists>p. foldE (from_base list_values (\<lambda>_. Inr (1970, 1, 1))) [nce_row ''fr'' ''Nice'', nce_row ''oc'' ''Nissa''] (new_Place new_Location) = Inr p \<and>
     loc_commonName (pl_location p) = ''Nice'' \<and> names_of (loc_nameMatrix (pl_location p)) ''oc'' = [''Nissa'']"
proof -
  have type: "IATAType_of_string ''CA'' = Inr CTY_AIRP" by code_simp
  have keys: "key_fields list_values (nce_row lang name) = Inr (''NCE'', CTY_AIRP, 6299418)"
    and names: "row_names list_values (nce_row lang name) = Inr (lang, name, ''NCE'', [], [])" for lang name
    by (simp_all add: key_fields_def row_names_def list_values_def nce_row_def type)
  let ?l0 = "set_key (''NCE'', CTY_AIRP, 6299418) (resetMatrix (pl_location (new_Place new_Location)))"
  obtain l where l: "foldE (\<lambda>field l. field l) (place_fields list_values (\<lambda>_. Inr (1970, 1, 1)) (nce_row ''fr'' ''Nice'')) ?l0 = Inr l"
    "loc_commonName l = ''Nice''" "loc_nameMatrix l = om_empty"
    by (simp add: place_fields_def text_field_def int_field_def real_field_def date_field_def list_values_def nce_row_def
      set_key_def resetMatrix_def)
  have new: "\<not> LocationKey_eq (new_LocationKey ''NCE'' CTY_AIRP 6299418) (loc_key (pl_location (new_Place new_Location)))"
    by (simp add: LocationKey_eq_def new_LocationKey_def new_Place_def new_Location_def)
  have rows: "list_all2 (\<lambda>v r. key_fields list_values v = Inr (''NCE'', CTY_AIRP, 6299418) \<and> row_names list_values v = Inr r)
      [nce_row ''fr'' ''Nice'', nce_row ''oc'' ''Nissa''] [(''fr'', ''Nice'', ''NCE'', [], []), (''oc'', ''Nissa'', ''NCE'', [], [])]"
    by (simp add: keys names)
  from rows_of_place [OF rows new l(1)] show ?thesis
    by (simp add: setLocation_def add_row_def l(2,3) names_of_addName) (simp add: names_of_def)
qed

text \<open>What is written of a place cannot be read back: by any library of values that keeps to its documentation, reading
  throws, since the type of the place is never written.\<close>

theorem written_place_unreadable:
  assumes "values_library ops none"
  shows "isl (from_base ops from_string (to_base ops p none) q)"
proof -
  have "isl (bv_text ops (to_base ops p none) ''location_type'' (Some []))" by (rule values_library.to_base_no_type [OF assms])
  then obtain e where "bv_text ops (to_base ops p none) ''location_type'' (Some []) = Inl e"
    by (cases "bv_text ops (to_base ops p none) ''location_type'' (Some [])") auto
  then show ?thesis
    by (cases "bv_text ops (to_base ops p none) ''iata_code'' (Some [])") (simp_all add: from_base_def key_fields_def)
qed

theorem written_place_unreadable_witness:
  "isl (from_base list_values (\<lambda>_. Inr (1970, 1, 1)) (to_base list_values (new_Place new_Location) []) default_Place)"
  by (rule written_place_unreadable [OF written.values_library_axioms])

end
