(* ===== verification/Transliteration.thy ===== *)
theory Transliteration
  imports Interpreter
begin

text \<open>
  The normalisation of texts (\<^verbatim>\<open>basic/OTransliterator.cpp\<close>, \<^verbatim>\<open>basic/icu_util.cpp\<close>), with the rules of
  \<^verbatim>\<open>basic/BasConst.cpp\<close>: a text is decoded, its accents, quotes and punctuation are removed, it is transliterated and
  encoded again in a buffer of the heap.

  The library ICU is a parameter: its conversions from and to the default code page, and the creation of its
  transliterators. A text of ICU is the list of its 16-bit units, far shorter than \<open>2 ^ 31\<close>. The copies of a
  transliterator are the same function. The register of ICU, which would own the transliterators, is left out.
\<close>

section \<open>The library\<close>

type_synonym ustring = "16 word list"

type_synonym transliterator = "ustring \<Rightarrow> ustring"

text \<open>A creation has no result when it gives no transliterator or fails.\<close>

record icu_library =
  ic_decode :: "string \<Rightarrow> ustring"
  ic_encode :: "ustring \<Rightarrow> string"
  ic_createInstance :: "ustring \<Rightarrow> transliterator option"
  ic_createFromRules :: "string \<Rightarrow> ustring \<Rightarrow> transliterator option"

section \<open>The rules\<close>

definition unicode_escape :: "string \<Rightarrow> string" where
  "unicode_escape digits = CHR 0x5C # CHR ''u'' # digits"

definition K_ICU_ACCENT_REMOVAL_RULE :: string where
  "K_ICU_ACCENT_REMOVAL_RULE = ''NFD; [:M:] Remove; NFC;''"

definition K_ICU_QUOTATION_REMOVAL_RULE :: string where
  "K_ICU_QUOTATION_REMOVAL_RULE =
     ''['' @ unicode_escape ''02B9'' @ ''] > '' @ unicode_escape ''0027'' @ ''; '' @
     ''['' @ unicode_escape ''002D'' @ ''] > '' @ unicode_escape ''0020'' @ ''; '' @
     ''['' @ unicode_escape ''201C'' @ ''] > '' @ unicode_escape ''0020'' @ ''; '' @
     ''['' @ unicode_escape ''201D'' @ ''] > '' @ unicode_escape ''0020'' @ ''; '' @
     ''['' @ unicode_escape ''0027'' @ ''] > '' @ unicode_escape ''0020'' @ '';''"

definition K_ICU_PUNCTUATION_REMOVAL_RULE :: string where
  "K_ICU_PUNCTUATION_REMOVAL_RULE = ''[:P:] Remove;''"

definition K_ICU_GENERIC_TRANSLITERATOR_RULE :: string where
  "K_ICU_GENERIC_TRANSLITERATOR_RULE = ''Any-Latin; NFD; [:M:] Remove; NFC; Lower;''"

section \<open>Utilities\<close>

text \<open>The digits of a number; a shift by the width of the number or more is undefined.\<close>

definition DIGIT_STRING :: ustring where
  "DIGIT_STRING = map of_char ''0123456789ABCDEF''"

fun appendHex :: "32 word \<Rightarrow> nat \<Rightarrow> ustring \<Rightarrow> ustring outcome" where
  "appendHex iNumber 0 ioTarget = Inr ioTarget"
| "appendHex iNumber (Suc ioDigits) ioTarget =
     (if ioDigits * 4 < 32
      then appendHex iNumber ioDigits (ioTarget @ [DIGIT_STRING ! unat (and (drop_bit (ioDigits * 4) iNumber) 0xF)])
      else Inl UndefinedBehaviour)"

definition escape_unit :: "16 word \<Rightarrow> ustring \<Rightarrow> ustring outcome" where
  "escape_unit ch target =
     (if ch < 0x09 \<or> (0x0A < ch \<and> ch < 0x20) \<or> 0x7E < ch
      then appendHex (ucast ch) 4 (target @ [0x5C, 0x75])
      else Inr (target @ [ch]))"

definition escape :: "ustring \<Rightarrow> ustring outcome" where
  "escape iSource = bindE (foldE escape_unit iSource [0x22]) (\<lambda>target. Inr (target @ [0x22]))"

text \<open>
  The encoded text is written in a buffer of the length of the text in units, and 257 bytes: an encoding that is longer, with
  the null byte after it, is written past its end.
\<close>

definition getUTF8 :: "icu_library \<Rightarrow> ustring \<Rightarrow> string outcome" where
  "getUTF8 icu iString =
     (let len = length iString;
          bufLen = len + 256;
          bytes = ic_encode icu iString;
          actualLen = length bytes
      in if actualLen < bufLen + 1 then Inr (c_str bytes) else Inl UndefinedBehaviour)"

section \<open>The transliterators\<close>

record OTransliterator =
  ot_punctuationRemover :: "transliterator option"
  ot_quoteRemover :: "transliterator option"
  ot_accentRemover :: "transliterator option"
  ot_tranlist :: "transliterator option"

definition null_OTransliterator :: OTransliterator where
  "null_OTransliterator =
     \<lparr>ot_punctuationRemover = None, ot_quoteRemover = None, ot_accentRemover = None, ot_tranlist = None\<rparr>"

definition created :: "string \<Rightarrow> transliterator option \<Rightarrow> transliterator outcome" where
  "created rule t =
     (case t of
        None \<Rightarrow> Inl (UnicodeTransliteratorCreationException
                      (''Unicode error: no Transliterator can be created for the '' @ [CHR 0x27] @ rule @ [CHR 0x27] @ '' rule.''))
      | Some t \<Rightarrow> Inr t)"

definition initPunctuationRemover :: "icu_library \<Rightarrow> OTransliterator \<Rightarrow> OTransliterator outcome" where
  "initPunctuationRemover icu ot =
     bindE (created K_ICU_PUNCTUATION_REMOVAL_RULE (ic_createInstance icu (ic_decode icu K_ICU_PUNCTUATION_REMOVAL_RULE)))
       (\<lambda>t. Inr (ot\<lparr>ot_punctuationRemover := Some t\<rparr>))"

definition initQuoteRemover :: "icu_library \<Rightarrow> OTransliterator \<Rightarrow> OTransliterator outcome" where
  "initQuoteRemover icu ot =
     (let lUnquotedRules = ic_decode icu K_ICU_QUOTATION_REMOVAL_RULE
      in bindE (created K_ICU_QUOTATION_REMOVAL_RULE (ic_createFromRules icu ''RBTUnaccent'' lUnquotedRules))
           (\<lambda>t. Inr (ot\<lparr>ot_quoteRemover := Some t\<rparr>)))"

definition initAccentRemover :: "icu_library \<Rightarrow> OTransliterator \<Rightarrow> OTransliterator outcome" where
  "initAccentRemover icu ot =
     bindE (created K_ICU_ACCENT_REMOVAL_RULE (ic_createInstance icu (ic_decode icu K_ICU_ACCENT_REMOVAL_RULE)))
       (\<lambda>t. Inr (ot\<lparr>ot_accentRemover := Some t\<rparr>))"

definition initTranlisterator :: "icu_library \<Rightarrow> OTransliterator \<Rightarrow> OTransliterator outcome" where
  "initTranlisterator icu ot =
     bindE (created K_ICU_GENERIC_TRANSLITERATOR_RULE (ic_createInstance icu (ic_decode icu K_ICU_GENERIC_TRANSLITERATOR_RULE)))
       (\<lambda>t. Inr (ot\<lparr>ot_tranlist := Some t\<rparr>))"

definition OTransliterator_init :: "icu_library \<Rightarrow> OTransliterator \<Rightarrow> OTransliterator outcome" where
  "OTransliterator_init icu ot =
     bindE (initPunctuationRemover icu ot) (\<lambda>ot.
     bindE (initQuoteRemover icu ot) (\<lambda>ot.
     bindE (initAccentRemover icu ot) (\<lambda>ot. initTranlisterator icu ot)))"

definition new_OTransliterator :: "icu_library \<Rightarrow> OTransliterator outcome" where
  "new_OTransliterator icu = OTransliterator_init icu null_OTransliterator"

text \<open>The copy clones the transliterators, and asserts that they are there.\<close>

definition cloned :: "transliterator option \<Rightarrow> transliterator outcome" where
  "cloned t = (case t of None \<Rightarrow> Inl AssertionFailure | Some t \<Rightarrow> Inr t)"

definition OTransliterator_copy :: "OTransliterator \<Rightarrow> OTransliterator outcome" where
  "OTransliterator_copy iTransliterator =
     bindE (cloned (ot_punctuationRemover iTransliterator)) (\<lambda>punctuation.
     bindE (cloned (ot_quoteRemover iTransliterator)) (\<lambda>quotes.
     bindE (cloned (ot_accentRemover iTransliterator)) (\<lambda>accents.
     bindE (cloned (ot_tranlist iTransliterator)) (\<lambda>tranlist.
       Inr \<lparr>ot_punctuationRemover = Some punctuation, ot_quoteRemover = Some quotes, ot_accentRemover = Some accents,
            ot_tranlist = Some tranlist\<rparr>))))"

definition finalise :: "OTransliterator \<Rightarrow> OTransliterator" where
  "finalise ot = ot\<lparr>ot_punctuationRemover := None, ot_quoteRemover := None, ot_accentRemover := None, ot_tranlist := None\<rparr>"

section \<open>The operations\<close>

text \<open>Those on the texts of ICU.\<close>

definition applied :: "transliterator option \<Rightarrow> ustring \<Rightarrow> ustring outcome" where
  "applied t ioString = (case t of None \<Rightarrow> Inl AssertionFailure | Some t \<Rightarrow> Inr (t ioString))"

definition unpunctuate_units :: "OTransliterator \<Rightarrow> ustring \<Rightarrow> ustring outcome" where
  "unpunctuate_units ot = applied (ot_punctuationRemover ot)"

definition unquote_units :: "OTransliterator \<Rightarrow> ustring \<Rightarrow> ustring outcome" where
  "unquote_units ot = applied (ot_quoteRemover ot)"

definition unaccent_units :: "OTransliterator \<Rightarrow> ustring \<Rightarrow> ustring outcome" where
  "unaccent_units ot = applied (ot_accentRemover ot)"

definition transliterate_units :: "OTransliterator \<Rightarrow> ustring \<Rightarrow> ustring outcome" where
  "transliterate_units ot = applied (ot_tranlist ot)"

text \<open>Those on strings.\<close>

definition unpunctuate :: "icu_library \<Rightarrow> OTransliterator \<Rightarrow> string \<Rightarrow> string outcome" where
  "unpunctuate icu ot iString = bindE (unpunctuate_units ot (ic_decode icu (c_str iString))) (getUTF8 icu)"

definition unquote :: "icu_library \<Rightarrow> OTransliterator \<Rightarrow> string \<Rightarrow> string outcome" where
  "unquote icu ot iString = bindE (unquote_units ot (ic_decode icu (c_str iString))) (getUTF8 icu)"

definition unaccent :: "icu_library \<Rightarrow> OTransliterator \<Rightarrow> string \<Rightarrow> string outcome" where
  "unaccent icu ot iString = bindE (unaccent_units ot (ic_decode icu (c_str iString))) (getUTF8 icu)"

definition transliterate :: "icu_library \<Rightarrow> OTransliterator \<Rightarrow> string \<Rightarrow> string outcome" where
  "transliterate icu ot iString = bindE (transliterate_units ot (ic_decode icu (c_str iString))) (getUTF8 icu)"

definition normalise :: "icu_library \<Rightarrow> OTransliterator \<Rightarrow> string \<Rightarrow> string outcome" where
  "normalise icu ot iString =
     (let lString = ic_decode icu (c_str iString)
      in bindE (unaccent_units ot lString) (\<lambda>lString.
         bindE (unquote_units ot lString) (\<lambda>lString.
         bindE (unpunctuate_units ot lString) (\<lambda>lString.
         bindE (transliterate_units ot lString) (\<lambda>lString.
           getUTF8 icu lString)))))"

section \<open>Plain texts\<close>

text \<open>The texts of the contract: ASCII, and the sign of the euro, a symbol of three bytes in UTF-8.\<close>

definition plain :: "16 word \<Rightarrow> bool" where
  "plain u \<longleftrightarrow> (0 < u \<and> u < 0x80) \<or> u = 0x20AC"

definition utf8_unit :: "16 word \<Rightarrow> string" where
  "utf8_unit u = (if u < 0x80 then [char_of (unat u)] else [CHR 0xE2, CHR 0x82, CHR 0xAC])"

definition utf8_units :: "ustring \<Rightarrow> string" where
  "utf8_units us = concat (map utf8_unit us)"

text \<open>The characters of the general category of punctuation, the hyphen and the apostrophe among them; what the rules do to
  one character.\<close>

definition is_punctuation :: "16 word \<Rightarrow> bool" where
  "is_punctuation u \<longleftrightarrow>
     u \<in> {0x21, 0x22, 0x23, 0x25, 0x26, 0x27, 0x28, 0x29, 0x2A, 0x2C, 0x2D, 0x2E, 0x2F, 0x3A, 0x3B, 0x3F, 0x40, 0x5B, 0x5C, 0x5D,
           0x5F, 0x7B, 0x7D}"

definition quote_unit :: "16 word \<Rightarrow> 16 word" where
  "quote_unit u = (if u = 0x27 \<or> u = 0x2D then 0x20 else u)"

definition lower_unit :: "16 word \<Rightarrow> 16 word" where
  "lower_unit u = (if 0x41 \<le> u \<and> u \<le> 0x5A then u + 0x20 else u)"

definition normal_units :: "ustring \<Rightarrow> ustring" where
  "normal_units us = map lower_unit (filter (\<lambda>u. \<not> is_punctuation u) (map quote_unit us))"

lemma plain_quote [simp]: "plain u \<Longrightarrow> plain (quote_unit u)"
  by (auto simp: plain_def quote_unit_def)

lemma plain_lower [simp]: "plain u \<Longrightarrow> plain (lower_unit u)"
  by (auto simp: plain_def lower_unit_def word_less_nat_alt word_le_nat_alt unat_word_ariths)

lemma plain_units:
  assumes "list_all plain us"
  shows "list_all plain (map quote_unit us)" and "list_all plain (filter P us)" and "list_all plain (map lower_unit us)"
  using assms by (auto simp: list_all_iff)

lemma plain_no_null:
  assumes "plain u"
  shows "CHR 0x00 \<notin> set (utf8_unit u)"
proof -
  have "char_of (unat u) \<noteq> CHR 0x00" if "0 < u" "u < 0x80"
  proof
    assume "char_of (unat u) = CHR 0x00"
    then have "(of_char (char_of (unat u) :: char) :: nat) = of_char (CHR 0x00)" by simp
    then have "unat u mod 256 = 0" by simp
    moreover have "0 < unat u" and "unat u < 128" using that by (simp_all add: word_less_nat_alt)
    ultimately show False by simp
  qed
  then show ?thesis using assms by (auto simp: plain_def utf8_unit_def)
qed

lemma euro_kept [simp]:
  "quote_unit 0x20AC = 0x20AC" "quote_unit u = 0x20AC \<longleftrightarrow> u = 0x20AC" "lower_unit u = 0x20AC \<longleftrightarrow> u = 0x20AC" "\<not> is_punctuation 0x20AC"
  by (auto simp: quote_unit_def lower_unit_def is_punctuation_def)

lemma count_euros: "count_list (normal_units us) 0x20AC = count_list us 0x20AC"
  by (induction us) (auto simp: normal_units_def)

lemma plain_length: "list_all plain us \<Longrightarrow> length (utf8_units us) = length us + 2 * count_list us 0x20AC"
  by (induction us) (auto simp: utf8_units_def utf8_unit_def plain_def)

lemma plain_c_str: "list_all plain us \<Longrightarrow> c_str (utf8_units us) = utf8_units us"
  by (rule c_str_id) (use plain_no_null in \<open>auto simp: utf8_units_def list_all_iff\<close>)

text \<open>What ICU documents of the conversions, in an environment of UTF-8, and of the four rules, on the plain texts.\<close>

locale icu_documentation =
  fixes icu :: icu_library
  assumes decode: "list_all plain us \<Longrightarrow> ic_decode icu (utf8_units us) = us"
    and encode: "list_all plain us \<Longrightarrow> ic_encode icu us = utf8_units us"
    and accents: "\<exists>t. ic_createInstance icu (ic_decode icu K_ICU_ACCENT_REMOVAL_RULE) = Some t \<and>
      (\<forall>us. list_all plain us \<longrightarrow> t us = us)"
    and quotes: "\<exists>t. ic_createFromRules icu ''RBTUnaccent'' (ic_decode icu K_ICU_QUOTATION_REMOVAL_RULE) = Some t \<and>
      (\<forall>us. list_all plain us \<longrightarrow> t us = map quote_unit us)"
    and punctuation: "\<exists>t. ic_createInstance icu (ic_decode icu K_ICU_PUNCTUATION_REMOVAL_RULE) = Some t \<and>
      (\<forall>us. list_all plain us \<longrightarrow> t us = filter (\<lambda>u. \<not> is_punctuation u) us)"
    and generic: "\<exists>t. ic_createInstance icu (ic_decode icu K_ICU_GENERIC_TRANSLITERATOR_RULE) = Some t \<and>
      (\<forall>us. list_all plain us \<longrightarrow> t us = map lower_unit us)"
begin

lemma encoded:
  assumes "list_all plain us"
  shows "getUTF8 icu us = (if count_list us 0x20AC \<le> 128 then Inr (utf8_units us) else Inl UndefinedBehaviour)"
  using assms by (auto simp: getUTF8_def Let_def encode plain_length plain_c_str)

lemma stages:
  "\<exists>ot. new_OTransliterator icu = Inr ot \<and>
     (\<forall>us. list_all plain us \<longrightarrow> unaccent_units ot us = Inr us \<and> unquote_units ot us = Inr (map quote_unit us) \<and>
        unpunctuate_units ot us = Inr (filter (\<lambda>u. \<not> is_punctuation u) us) \<and> transliterate_units ot us = Inr (map lower_unit us))"
proof -
  obtain p q a g where t: "ic_createInstance icu (ic_decode icu K_ICU_PUNCTUATION_REMOVAL_RULE) = Some p"
      "ic_createFromRules icu ''RBTUnaccent'' (ic_decode icu K_ICU_QUOTATION_REMOVAL_RULE) = Some q"
      "ic_createInstance icu (ic_decode icu K_ICU_ACCENT_REMOVAL_RULE) = Some a"
      "ic_createInstance icu (ic_decode icu K_ICU_GENERIC_TRANSLITERATOR_RULE) = Some g"
    and laws: "\<forall>us. list_all plain us \<longrightarrow> a us = us" "\<forall>us. list_all plain us \<longrightarrow> q us = map quote_unit us"
      "\<forall>us. list_all plain us \<longrightarrow> p us = filter (\<lambda>u. \<not> is_punctuation u) us" "\<forall>us. list_all plain us \<longrightarrow> g us = map lower_unit us"
    using accents quotes punctuation generic by blast
  have "new_OTransliterator icu = Inr \<lparr>ot_punctuationRemover = Some p, ot_quoteRemover = Some q, ot_accentRemover = Some a,
      ot_tranlist = Some g\<rparr>"
    by (simp add: new_OTransliterator_def OTransliterator_init_def initPunctuationRemover_def initQuoteRemover_def
      initAccentRemover_def initTranlisterator_def created_def null_OTransliterator_def t)
  then show ?thesis
    using laws by (simp add: unaccent_units_def unquote_units_def unpunctuate_units_def transliterate_units_def applied_def)
qed

lemma normalised:
  assumes "new_OTransliterator icu = Inr ot" and "list_all plain us"
  shows "normalise icu ot (utf8_units us) =
    (if count_list us 0x20AC \<le> 128 then Inr (utf8_units (normal_units us)) else Inl UndefinedBehaviour)"
proof -
  have "list_all plain (normal_units us)" using assms(2) by (simp add: normal_units_def plain_units)
  from encoded [OF this] show ?thesis
    using stages assms by (auto simp: normalise_def plain_c_str decode plain_units normal_units_def [symmetric] count_euros)
qed

lemma cleaned:
  assumes "new_OTransliterator icu = Inr ot" and "list_all plain us" and "count_list us 0x20AC = 0"
  shows "unpunctuate icu ot (utf8_units us) = Inr (utf8_units (filter (\<lambda>u. \<not> is_punctuation u) us))"
proof -
  have "count_list (filter (\<lambda>u. \<not> is_punctuation u) us) 0x20AC = 0"
    using assms(3) by (simp add: count_list_0_iff)
  with encoded [OF plain_units(2) [OF assms(2)]] show ?thesis
    using stages assms by (auto simp: unpunctuate_def plain_c_str decode)
qed

end

section \<open>A library for the plain texts\<close>

fun plain_decode :: "string \<Rightarrow> ustring" where
  "plain_decode [] = []"
| "plain_decode (c # s) =
     (if c = CHR 0xE2 then 0x20AC # plain_decode (drop 2 s) else of_char c # plain_decode s)"

definition plain_icu :: icu_library where
  "plain_icu =
     \<lparr>ic_decode = plain_decode, ic_encode = utf8_units,
      ic_createInstance = (\<lambda>rule.
        if rule = plain_decode K_ICU_ACCENT_REMOVAL_RULE then Some (\<lambda>us. us)
        else if rule = plain_decode K_ICU_PUNCTUATION_REMOVAL_RULE then Some (filter (\<lambda>u. \<not> is_punctuation u))
        else if rule = plain_decode K_ICU_GENERIC_TRANSLITERATOR_RULE then Some (map lower_unit)
        else None),
      ic_createFromRules = (\<lambda>_ rules. if rules = plain_decode K_ICU_QUOTATION_REMOVAL_RULE then Some (map quote_unit) else None)\<rparr>"

lemma ascii_unit:
  assumes "u < 0x80"
  shows "char_of (unat u) \<noteq> CHR 0xE2" and "of_char (char_of (unat (u :: 16 word))) = u"
proof -
  have lt: "unat u < 128" using assms by (simp add: word_less_nat_alt)
  then have c: "(of_char (char_of (unat u) :: char) :: nat) = unat u" by simp
  show "char_of (unat u) \<noteq> CHR 0xE2"
  proof
    assume "char_of (unat u) = CHR 0xE2"
    then have "(of_char (char_of (unat u) :: char) :: nat) = of_char (CHR 0xE2)" by simp
    then show False using c lt by simp
  qed
  have "of_char (char_of (unat u) :: char) = (of_nat (of_char (char_of (unat u) :: char)) :: 16 word)" by (rule of_nat_of_char [symmetric])
  then show "of_char (char_of (unat u)) = u" unfolding c by simp
qed

lemma plain_decode_units: "list_all plain us \<Longrightarrow> plain_decode (utf8_units us) = us"
  by (induction us) (auto simp: utf8_units_def utf8_unit_def plain_def ascii_unit)

lemma rules_differ:
  "plain_decode K_ICU_PUNCTUATION_REMOVAL_RULE \<noteq> plain_decode K_ICU_ACCENT_REMOVAL_RULE"
  "plain_decode K_ICU_GENERIC_TRANSLITERATOR_RULE \<noteq> plain_decode K_ICU_ACCENT_REMOVAL_RULE"
  "plain_decode K_ICU_GENERIC_TRANSLITERATOR_RULE \<noteq> plain_decode K_ICU_PUNCTUATION_REMOVAL_RULE"
  by code_simp+

interpretation plain_lib: icu_documentation plain_icu
  by unfold_locales (simp_all add: plain_icu_def plain_decode_units rules_differ)

section \<open>Escaped texts\<close>

text \<open>An escaped text is printable, but for its tabulations and its line breaks.\<close>

definition printable :: "16 word \<Rightarrow> bool" where
  "printable u \<longleftrightarrow> u = 0x09 \<or> u = 0x0A \<or> (0x20 \<le> u \<and> u \<le> 0x7E)"

lemma digits_printable: "list_all printable DIGIT_STRING" "length DIGIT_STRING = 16"
  by code_simp+

lemma digit_printable: "printable (DIGIT_STRING ! unat (and n (0xF :: 32 word)))"
proof -
  have "and n 0xF \<le> (0xF :: 32 word)" by (rule word_and_le1)
  then have "unat (and n 0xF) < length DIGIT_STRING" by (simp add: word_le_nat_alt digits_printable(2))
  then show ?thesis using digits_printable(1) by (simp add: list_all_length)
qed

lemma appendHex_printable:
  assumes "n \<le> 8" and "list_all printable t"
  shows "\<exists>t'. appendHex x n t = Inr t' \<and> list_all printable t'"
  using assms
proof (induction n arbitrary: t)
  case (Suc n)
  have "list_all printable (t @ [DIGIT_STRING ! unat (and (drop_bit (n * 4) x) 0xF)])"
    using Suc.prems(2) by (simp add: digit_printable)
  from Suc.IH [OF _ this] show ?case using Suc.prems(1) by simp
qed simp

lemma escape_unit_printable:
  assumes "list_all printable t"
  shows "\<exists>t'. escape_unit ch t = Inr t' \<and> list_all printable t'"
proof (cases "ch < 0x09 \<or> (0x0A < ch \<and> ch < 0x20) \<or> 0x7E < ch")
  case True
  have "list_all printable (t @ [0x5C, 0x75])" using assms by (simp add: printable_def word_le_nat_alt)
  from appendHex_printable [OF _ this] show ?thesis using True by (simp add: escape_unit_def)
next
  case False
  then have "\<not> unat ch < 9" "\<not> (10 < unat ch \<and> unat ch < 32)" "\<not> 126 < unat ch" by (simp_all add: word_less_nat_alt)
  then have "unat ch = 9 \<or> unat ch = 10 \<or> (32 \<le> unat ch \<and> unat ch \<le> 126)" by linarith
  then have "printable ch" by (auto simp: printable_def word_le_nat_alt word_unat_eq_iff)
  moreover have "escape_unit ch t = Inr (t @ [ch])" using False by (simp only: escape_unit_def if_False)
  ultimately show ?thesis using assms by simp
qed

theorem escape_printable: "\<exists>t. escape s = Inr t \<and> list_all printable t"
proof -
  have "\<exists>t'. foldE escape_unit s t = Inr t' \<and> list_all printable t'" if "list_all printable t" for t
    using that
  proof (induction s arbitrary: t)
    case (Cons ch s)
    from escape_unit_printable [OF Cons.prems, of ch] obtain t' where "escape_unit ch t = Inr t'" "list_all printable t'" by blast
    with Cons.IH show ?case by simp
  qed simp
  from this [of "[0x22]"] show ?thesis by (auto simp: escape_def printable_def word_le_nat_alt)
qed

section \<open>ASCII strings\<close>

definition ascii :: "char \<Rightarrow> bool" where
  "ascii c \<longleftrightarrow> 0 < (of_char c :: nat) \<and> (of_char c :: nat) < 128"

lemma unat_ascii:
  assumes "ascii c"
  shows "unat (of_char c :: 16 word) = of_char c"
proof -
  have "of_char c = (of_nat (of_char c) :: 16 word)" by (rule of_nat_of_char [symmetric])
  moreover have "unat (of_nat (of_char c) :: 16 word) = of_char c"
    by (rule unat_of_nat_small) (use assms in \<open>simp add: ascii_def\<close>)
  ultimately show ?thesis by simp
qed

lemma ascii_char:
  assumes "ascii c"
  shows "plain (of_char c)" and "utf8_unit (of_char c) = [c]" and "of_char c \<noteq> (0x20AC :: 16 word)"
proof -
  note n = unat_ascii [OF assms]
  show plain: "plain (of_char c)" using assms n by (simp add: plain_def ascii_def word_less_nat_alt)
  then show "utf8_unit (of_char c) = [c]" using assms n by (simp add: utf8_unit_def ascii_def word_less_nat_alt)
  show "of_char c \<noteq> (0x20AC :: 16 word)" using assms n by (auto simp: ascii_def)
qed

lemma ascii_string:
  assumes "list_all ascii s"
  shows "list_all plain (map of_char s)" and "utf8_units (map of_char s) = s" and "count_list (map of_char s) (0x20AC :: 16 word) = 0"
  using assms by (induction s) (auto simp: utf8_units_def ascii_char)

lemma letter_ascii: "is_alpha c \<Longrightarrow> ascii c"
  by (auto simp: is_alpha_def ascii_def Let_def)

lemma letter_kept:
  assumes "is_alpha c"
  shows "\<not> is_punctuation (of_char c)"
proof -
  note n = unat_ascii [OF letter_ascii [OF assms]]
  show ?thesis
  proof
    assume "is_punctuation (of_char c)"
    then have "unat (of_char c :: 16 word) \<in> {0x21, 0x22, 0x23, 0x25, 0x26, 0x27, 0x28, 0x29, 0x2A, 0x2C, 0x2D, 0x2E, 0x2F, 0x3A,
        0x3B, 0x3F, 0x40, 0x5B, 0x5C, 0x5D, 0x5F, 0x7B, 0x7D}"
      unfolding is_punctuation_def by auto
    then show False using assms unfolding n is_alpha_def Let_def by auto
  qed
qed

lemma quote_letter:
  assumes "is_alpha c"
  shows "quote_unit (of_char c) = of_char c"
proof -
  have "\<not> is_punctuation (of_char c)" by (rule letter_kept [OF assms])
  then have "of_char c \<noteq> (0x27 :: 16 word)" and "of_char c \<noteq> (0x2D :: 16 word)" by (auto simp: is_punctuation_def)
  then show ?thesis by (simp add: quote_unit_def)
qed

lemma letters_kept:
  assumes "list_all is_alpha s"
  shows "filter (\<lambda>u. \<not> is_punctuation u) (map of_char s) = map of_char s" and "map quote_unit (map of_char s) = map of_char s"
  using assms by (induction s) (simp_all add: letter_kept quote_letter)

lemma letters_clean: "list_all is_alpha w \<Longrightarrow> w \<noteq> [] \<Longrightarrow> clean_word AllSepatorList w"
  by (auto simp: clean_word_def AllSepatorList_def list_all_iff is_alpha_def Let_def)

lemma hyphen_separates: "CHR ''-'' \<in> set AllSepatorList"
  by (simp add: AllSepatorList_def)

section \<open>Properties\<close>

text \<open>C35: Normalising a text of ASCII characters and euros gives the text with its apostrophes and hyphens as spaces, without
  the other punctuation and in lower case, as long as it has at most 128 euros; with more of them, the result is written past
  the end of its buffer.\<close>

theorem normalise_plain:
  assumes "icu_documentation icu" and "list_all plain us"
  shows "\<exists>ot. new_OTransliterator icu = Inr ot \<and>
    normalise icu ot (utf8_units us) =
      (if count_list us 0x20AC \<le> 128 then Inr (utf8_units (normal_units us)) else Inl UndefinedBehaviour)"
  using icu_documentation.stages [OF assms(1)] icu_documentation.normalised [OF assms(1) _ assms(2)] by blast

theorem normalise_plain_witness:
  "\<exists>ot. new_OTransliterator plain_icu = Inr ot \<and> normalise plain_icu ot ''L(Isle)-Adam'' = Inr ''lisle adam''"
proof -
  have u: "utf8_units (map of_char ''L(Isle)-Adam'') = ''L(Isle)-Adam''"
    and n: "utf8_units (normal_units (map of_char ''L(Isle)-Adam'')) = ''lisle adam''"
    and c: "count_list (map of_char ''L(Isle)-Adam'') (0x20AC :: 16 word) = 0" by code_simp+
  have "list_all plain (map of_char ''L(Isle)-Adam'')" by code_simp
  from normalise_plain [OF plain_lib.icu_documentation_axioms this] show ?thesis unfolding u n c by simp
qed

text \<open>
  The normalisation as a total function, the parameter of the index sets: it is the value of the code wherever the code has one,
  and so on every text of ASCII characters and at most 128 euros.
\<close>

definition normal_text :: "icu_library \<Rightarrow> OTransliterator \<Rightarrow> string \<Rightarrow> string" where
  "normal_text icu ot s = (case normalise icu ot s of Inr t \<Rightarrow> t | Inl _ \<Rightarrow> [])"

lemma normal_text_defined:
  assumes "icu_documentation icu" and "new_OTransliterator icu = Inr ot" and "list_all plain us" and "count_list us 0x20AC \<le> 128"
  shows "normalise icu ot (utf8_units us) = Inr (normal_text icu ot (utf8_units us))"
  using icu_documentation.normalised [OF assms(1-3)] assms(4) by (simp add: normal_text_def)

text \<open>The transliterator of a request, as the functions of its environment.\<close>

definition returned :: "(string \<Rightarrow> string outcome) \<Rightarrow> string \<Rightarrow> string" where
  "returned f s = (case f s of Inr t \<Rightarrow> t | Inl _ \<Rightarrow> [])"

definition with_transliterator :: "icu_library \<Rightarrow> OTransliterator \<Rightarrow> environment \<Rightarrow> environment" where
  "with_transliterator icu ot env =
     env\<lparr>en_unpunctuate := returned (unpunctuate icu ot), en_unquote := returned (unquote icu ot)\<rparr>"

text \<open>C18: A query of two words with a hyphen is answered as the query of the words glued together, since the punctuation is
  removed before the quotes are replaced; a name with the same text is indexed as two words.\<close>

theorem hyphens_glued:
  assumes "icu_documentation icu" and "char_separator tkz" and "list_all is_alpha (v @ w)" and "v \<noteq> []" and "w \<noteq> []"
  shows "\<exists>ot. new_OTransliterator icu = Inr ot \<and>
    service_interpretTravelRequest (with_transliterator icu ot env) sc (v @ ''-'' @ w) ls ws =
      service_interpretTravelRequest (with_transliterator icu ot env) sc (v @ w) ls ws \<and>
    tkz AllSepatorList (v @ ''-'' @ w) = [v, w] \<and>
    normalise icu ot (v @ ''-'' @ w) = normalise icu ot (v @ '' '' @ w)"
proof -
  obtain ot where ot: "new_OTransliterator icu = Inr ot" using icu_documentation.stages [OF assms(1)] by blast
  have letters: "list_all is_alpha v" "list_all is_alpha w" using assms(3) by simp_all
  have "list_all ascii (v @ ''-'' @ w)" "list_all ascii (v @ '' '' @ w)" "list_all ascii (v @ w)"
    using letters letter_ascii by (auto simp: list_all_iff ascii_def)
  note texts = this [THEN ascii_string(1)] this [THEN ascii_string(2)] this [THEN ascii_string(3)]
  have "unpunctuate icu ot (v @ ''-'' @ w) = unpunctuate icu ot (v @ w)"
    using icu_documentation.cleaned [OF assms(1) ot texts(1) texts(7)] icu_documentation.cleaned [OF assms(1) ot texts(3) texts(9)] texts(4,6)
    by (simp add: letters_kept letters is_punctuation_def)
  then have "new_QuerySlices (en_tokeniser env) db (returned (unpunctuate icu ot)) (returned (unquote icu ot)) (v @ ''-'' @ w) =
      new_QuerySlices (en_tokeniser env) db (returned (unpunctuate icu ot)) (returned (unquote icu ot)) (v @ w)" for db
    by (simp add: new_QuerySlices_def returned_def)
  then have "service_interpretTravelRequest (with_transliterator icu ot env) sc (v @ ''-'' @ w) ls ws =
      service_interpretTravelRequest (with_transliterator icu ot env) sc (v @ w) ls ws"
    using assms(4)
    by (cases sc) (simp_all add: service_interpretTravelRequest_def interpretTravelRequest_def with_transliterator_def split: sum.split)
  moreover have "tkz AllSepatorList (v @ ''-'' @ w) = [v, w]"
    using letters assms(4,5) char_separator.tkz_separator [OF assms(2) hyphen_separates, of v w]
    by (simp add: char_separator.tkz_word [OF assms(2)] letters_clean)
  moreover have "normalise icu ot (v @ ''-'' @ w) = normalise icu ot (v @ '' '' @ w)"
    using icu_documentation.normalised [OF assms(1) ot texts(1)] icu_documentation.normalised [OF assms(1) ot texts(2)] texts(4,5,7,8)
    by (simp add: normal_units_def letters_kept letters quote_unit_def)
  ultimately show ?thesis using ot by blast
qed

theorem hyphens_glued_witness:
  "\<exists>ot. new_OTransliterator plain_icu = Inr ot \<and> split_tokens AllSepatorList ''saint-denis'' = [''saint'', ''denis''] \<and>
    (\<forall>env sc ls ws. service_interpretTravelRequest (with_transliterator plain_icu ot env) sc ''saint-denis'' ls ws =
      service_interpretTravelRequest (with_transliterator plain_icu ot env) sc ''saintdenis'' ls ws)"
proof -
  have l: "list_all is_alpha (''saint'' @ ''denis'')" by code_simp
  have g: "\<exists>ot. new_OTransliterator plain_icu = Inr ot \<and>
    service_interpretTravelRequest (with_transliterator plain_icu ot env) sc ''saint-denis'' ls ws =
      service_interpretTravelRequest (with_transliterator plain_icu ot env) sc ''saintdenis'' ls ws \<and>
    split_tokens AllSepatorList ''saint-denis'' = [''saint'', ''denis'']" for env sc ls ws
    using hyphens_glued [OF plain_lib.icu_documentation_axioms boost.char_separator_axioms l, of env sc ls ws] by (simp del: split_tokens.simps) blast
  obtain ot where ot: "new_OTransliterator plain_icu = Inr ot" using plain_lib.stages by blast
  have "service_interpretTravelRequest (with_transliterator plain_icu ot env) sc ''saint-denis'' ls ws =
      service_interpretTravelRequest (with_transliterator plain_icu ot env) sc ''saintdenis'' ls ws" for env sc ls ws
    using g [of env sc ls ws] ot by simp
  then show ?thesis using ot g by blast
qed

end
