(* ===== verification/Searcher.thy ===== *)
theory Searcher
  imports Console Python
begin

text \<open>
  The searching batch (\<^verbatim>\<open>batches/opentrep-searcher.cpp\<close>): its options, the words of its query, the text of its answer
  and its main program. The parser of the options, the names of the package and what the services use are parameters,
  as in the other programs; the file of the logs is left out.
\<close>

section \<open>The words of a query\<close>

definition K_OPENTREP_DEFAULT_QUERY_STRING :: string where
  "K_OPENTREP_DEFAULT_QUERY_STRING = ''sna francicso rio de janero lso angles reykyavki''"

text \<open>The batch has its own tokeniser, with the separators of the library.\<close>

definition searcher_tokenise :: "tokeniser \<Rightarrow> string \<Rightarrow> string list" where
  "searcher_tokenise tkz iPhrase = fold (\<lambda>lTerm ioWordList. ioWordList @ [lTerm]) (tkz AllSepatorList iPhrase) []"

text \<open>The counter of 16 bits goes down from the number of words.\<close>

fun searcher_create_loop :: "string list \<Rightarrow> 16 word \<Rightarrow> string" where
  "searcher_create_loop [] idx = []"
| "searcher_create_loop (lWord # rest) idx = lWord @ (if idx > 1 then '' '' else []) @ searcher_create_loop rest (idx - 1)"

definition searcher_createString :: "string list \<Rightarrow> string" where
  "searcher_createString iWordList = searcher_create_loop iWordList (word_of_nat (length iWordList))"

section \<open>The options\<close>

text \<open>What the parser gives: the options that are texts, the two numbers, whose defaults are set, and the words of the
  query when there are any.\<close>

record searcher_variables =
  sm_options :: variables_map
  sm_error :: "16 word"
  sm_type :: "16 word"
  sm_query :: "string list option"

record searcher_options =
  so_SpellingErrorDistance :: "16 word"
  so_QueryString :: string
  so_XapianDBFilepath :: string
  so_SQLDBTypeString :: string
  so_SQLDBConnectionString :: string
  so_LogFilename :: string
  so_SearchType :: "16 word"

definition searcher_readConfiguration ::
    "package_info \<Rightarrow> tokeniser \<Rightarrow> searcher_variables \<Rightarrow> searcher_options \<Rightarrow> int \<times> searcher_options \<times> string" where
  "searcher_readConfiguration pk tkz vars so =
     (let ioQueryString = (if so_QueryString so = [] then K_OPENTREP_DEFAULT_QUERY_STRING else so_QueryString so);
          lWordList = (case sm_query vars of None \<Rightarrow> searcher_tokenise tkz ioQueryString | Some ws \<Rightarrow> ws)
      in case early_options pk (sm_options vars) of
           Some out \<Rightarrow> (K_OPENTREP_EARLY_RETURN_STATUS, so\<lparr>so_QueryString := ioQueryString\<rparr>, out)
         | None \<Rightarrow>
             let (xapian, out1) = read_option (sm_options vars) ''xapiandb'' ''Xapian database filepath is: '' (so_XapianDBFilepath so);
                 (db_type, out2) = read_option (sm_options vars) ''sqldbtype'' ''SQL database type is: '' (so_SQLDBTypeString so);
                 (conn, out3) = read_option (sm_options vars) ''sqldbconx'' ''SQL database connection string is: ''
                   (so_SQLDBConnectionString so);
                 (log, out4) = read_option (sm_options vars) ''log'' ''Log filename is: '' (so_LogFilename so);
                 query = searcher_createString lWordList
             in (0, \<lparr>so_SpellingErrorDistance = sm_error vars, so_QueryString = query, so_XapianDBFilepath = xapian,
                     so_SQLDBTypeString = db_type, so_SQLDBConnectionString = conn, so_LogFilename = log,
                     so_SearchType = sm_type vars\<rparr>,
                 out1 @ out2 @ out3 @ out4 @
                 ''The type of search is: '' @ show_nat (unat (sm_type vars)) @ endl @
                 ''The spelling error distance is: '' @ show_nat (unat (sm_error vars)) @ endl @
                 ''The travel query string is: '' @ query @ endl))"

section \<open>The answer\<close>

fun searcher_words_loop :: "string list \<Rightarrow> 16 word \<Rightarrow> string" where
  "searcher_words_loop [] idx = []"
| "searcher_words_loop (lWord # rest) idx =
     '' ['' @ show_nat (unat idx) @ '']: '' @ lWord @ endl @ searcher_words_loop rest (idx + 1)"

text \<open>The text is complete before any of it is written: the loop over the locations is that of the console, on a string.\<close>

definition on_string :: "unit io \<Rightarrow> string outcome" where
  "on_string m = bindE (snd m) (\<lambda>_. Inr (fst m))"

definition parseQuery :: "environment \<Rightarrow> stream_output \<Rightarrow> service_context option \<Rightarrow> string \<Rightarrow> string outcome" where
  "parseQuery env out ioOpentrepService iTravelQuery =
     bindE (service_interpretTravelRequest env ioOpentrepService iTravelQuery [] [])
       (\<lambda>(nbOfMatches, lLocationList, lNonMatchedWordList).
          bindE (if nbOfMatches \<noteq> 0 then on_string (locations_loop out lLocationList 1) else Inr []) (\<lambda>locations.
            Inr (show_nat (unat nbOfMatches) @ '' (geographical) location(s) have been found '' @ ''matching your query ('' @
                 [CHR 0x60] @ iTravelQuery @ [CHR 0x27] @ ''). '' @ show_nat (length lNonMatchedWordList) @
                 '' words were left unmatched.'' @ endl @ locations @
                 (if lNonMatchedWordList \<noteq> [] then ''List of unmatched words:'' @ endl @ searcher_words_loop lNonMatchedWordList 1
                  else []))))"

section \<open>The program\<close>

text \<open>The two numbers have no value before the options are read, which sets them.\<close>

definition new_searcher_options :: searcher_options where
  "new_searcher_options = \<lparr>so_SpellingErrorDistance = 0, so_QueryString = [], so_XapianDBFilepath = [], so_SQLDBTypeString = [],
     so_SQLDBConnectionString = [], so_LogFilename = [], so_SearchType = 0\<rparr>"

definition searcher_main ::
    "package_info \<Rightarrow> tokeniser \<Rightarrow> environment \<Rightarrow> stream_output \<Rightarrow> string \<Rightarrow> searcher_variables \<Rightarrow> int io" where
  "searcher_main pk tkz env out default_por vars =
     (let (lOptionParserStatus, so, options_text) = searcher_readConfiguration pk tkz vars new_searcher_options
      in if lOptionParserStatus = K_OPENTREP_EARLY_RETURN_STATUS then (options_text, Inr 0)
         else
           bind_io (say options_text) (\<lambda>_.
           bind_io (if so_SearchType so = 0 then
                      bind_io (call (DBType_of_string (so_SQLDBTypeString so))) (\<lambda>lDBType.
                      bind_io (call (parseQuery env out (service_init_default default_por (so_XapianDBFilepath so) lDBType
                                 (so_SQLDBConnectionString so)) (so_QueryString so))) say)
                    else say (''Finding the airports closest to: '' @ so_QueryString so @ endl)) (\<lambda>_. ([], Inr 0))))"

section \<open>Lemmas\<close>

lemma searcher_tokenise_eq: "searcher_tokenise tkz s = tkz AllSepatorList s"
proof -
  have "fold (\<lambda>w ws. ws @ [w]) xs acc = acc @ xs" for xs acc :: "string list"
    by (induction xs arbitrary: acc) simp_all
  then show ?thesis by (simp add: searcher_tokenise_def)
qed

lemma searcher_create_loop_join:
  "length ws < 65536 \<Longrightarrow> searcher_create_loop ws (word_of_nat (length ws)) = join_words ws"
proof (induction ws)
  case (Cons w ws)
  have n: "unat (word_of_nat (length (w # ws)) :: 16 word) = length (w # ws)" using Cons.prems by (intro unat_of_nat_small) simp
  have "(word_of_nat (length (w # ws)) :: 16 word) - 1 = word_of_nat (length ws)" by simp
  moreover have "1 < (word_of_nat (length (w # ws)) :: 16 word) \<longleftrightarrow> ws \<noteq> []"
    unfolding word_less_nat_alt n by (cases ws) simp_all
  ultimately show ?case using Cons by (cases ws) simp_all
qed simp

lemma searcher_createString_join: "length ws < 65536 \<Longrightarrow> searcher_createString ws = join_words ws"
  by (simp add: searcher_createString_def searcher_create_loop_join)

definition word_line :: "nat \<Rightarrow> string \<Rightarrow> string" where
  "word_line i w = '' ['' @ show_nat i @ '']: '' @ w @ endl"

lemma searcher_words_lines:
  "unat idx + length ws \<le> 65536 \<Longrightarrow> searcher_words_loop ws idx = concat (map (\<lambda>(i, w). word_line i w) (enumerate (unat idx) ws))"
proof (induction ws arbitrary: idx)
  case (Cons w ws)
  show ?case
  proof (cases "ws = []")
    case False
    then have "unat (idx + 1) = unat idx + 1" using Cons.prems by (intro uint16_succ) (cases ws; simp)
    then show ?thesis using Cons.IH [of "idx + 1"] Cons.prems by (simp add: word_line_def)
  qed (simp add: word_line_def)
qed simp

text \<open>The options that are read.\<close>

lemma read_option_value: "fst (read_option vm name label old) = (case vm name of None \<Rightarrow> old | Some v \<Rightarrow> v)"
  by (simp add: read_option_def split: option.split)

lemma options_read:
  assumes "early_options pk (sm_options vars) = None"
  shows "\<exists>so written. searcher_readConfiguration pk tkz vars new_searcher_options = (0, so, written) \<and> so_SearchType so = sm_type vars \<and>
    so_XapianDBFilepath so = (case sm_options vars ''xapiandb'' of None \<Rightarrow> [] | Some v \<Rightarrow> v) \<and>
    so_SQLDBTypeString so = (case sm_options vars ''sqldbtype'' of None \<Rightarrow> [] | Some v \<Rightarrow> v) \<and>
    so_SQLDBConnectionString so = (case sm_options vars ''sqldbconx'' of None \<Rightarrow> [] | Some v \<Rightarrow> v) \<and>
    so_QueryString so = searcher_createString
      (case sm_query vars of None \<Rightarrow> searcher_tokenise tkz K_OPENTREP_DEFAULT_QUERY_STRING | Some ws \<Rightarrow> ws)"
  unfolding searcher_readConfiguration_def assms Let_def case_prod_beta' option.case
  by (simp add: new_searcher_options_def read_option_value)

text \<open>The text of an answer.\<close>

definition answer_text :: "stream_output \<Rightarrow> string \<Rightarrow> Location list \<Rightarrow> string list \<Rightarrow> string" where
  "answer_text out query ls ws =
     show_nat (length ls) @ '' (geographical) location(s) have been found matching your query ('' @ [CHR 0x60] @ query @ [CHR 0x27] @
     ''). '' @ show_nat (length ws) @ '' words were left unmatched.'' @ endl @
     concat (map (\<lambda>(i, l). location_line out i l) (enumerate 1 ls)) @
     (if ws = [] then [] else ''List of unmatched words:'' @ endl @ concat (map (\<lambda>(i, w). word_line i w) (enumerate 1 ws)))"

lemma parseQuery_text:
  assumes "service_interpretTravelRequest env sc query [] [] = Inr (word_of_nat (length ls), ls, ws)"
    and "\<forall>l \<in> set ls. lk_iataType (loc_key l) \<noteq> LAST_IATA_TYPE" and "length ls < 65536" and "length ws < 65536"
  shows "parseQuery env out sc query = Inr (answer_text out query ls ws)"
proof -
  have n: "unat (word_of_nat (length ls) :: 16 word) = length ls" using assms(3) by (intro unat_of_nat_small) simp
  then have zero: "(word_of_nat (length ls) :: 16 word) = 0 \<longleftrightarrow> ls = []" by (metis length_0_conv unat_0 unat_eq_zero)
  have bounds: "unat (1 :: 16 word) + length ls \<le> 65536" "unat (1 :: 16 word) + length ws \<le> 65536" using assms(3,4) by simp_all
  show ?thesis
    using locations_loop_lines [OF assms(2) bounds(1), of out] searcher_words_lines [OF bounds(2)]
    by (simp add: parseQuery_def assms(1) n zero answer_text_def on_string_def)
qed

section \<open>Properties\<close>

text \<open>C23: A run of the batch writes its options, then the answer to the request of its words, each word once and separated by
  spaces: the number of the locations, the locations and the unmatched words, numbered from 1 and in order. With another
  type of search it looks for nothing and only repeats the query; the error distance changes nothing but the options.\<close>

theorem searcher_output:
  fixes vars :: searcher_variables and tkz :: tokeniser
  defines "words \<equiv> (case sm_query vars of None \<Rightarrow> tkz AllSepatorList K_OPENTREP_DEFAULT_QUERY_STRING | Some ws \<Rightarrow> ws)"
  assumes "early_options pk (sm_options vars) = None" and "length words < 65536"
    and "sm_options vars ''xapiandb'' = Some index" and "sm_options vars ''sqldbtype'' = Some db"
    and "sm_options vars ''sqldbconx'' = Some conn" and "DBType_of_string db = Inr t"
    and "service_interpretTravelRequest env (service_init_default default_por index t conn) (join_words words) [] [] =
      Inr (word_of_nat (length ls), ls, unmatched)"
    and "\<forall>l \<in> set ls. lk_iataType (loc_key l) \<noteq> LAST_IATA_TYPE" and "length ls < 65536" and "length unmatched < 65536"
  shows "searcher_main pk tkz env out default_por vars =
    (snd (snd (searcher_readConfiguration pk tkz vars new_searcher_options)) @
       (if sm_type vars = 0 then answer_text out (join_words words) ls unmatched
        else ''Finding the airports closest to: '' @ join_words words @ endl), Inr 0)"
proof -
  have words: "words = (case sm_query vars of None \<Rightarrow> searcher_tokenise tkz K_OPENTREP_DEFAULT_QUERY_STRING | Some ws \<Rightarrow> ws)"
    by (cases "sm_query vars") (simp_all add: words_def searcher_tokenise_eq)
  from options_read [OF assms(2), of tkz] obtain so written where
      so: "searcher_readConfiguration pk tkz vars new_searcher_options = (0, so, written)" "so_SearchType so = sm_type vars"
        "so_XapianDBFilepath so = index" "so_SQLDBTypeString so = db" "so_SQLDBConnectionString so = conn"
        "so_QueryString so = join_words words"
    unfolding words [symmetric] searcher_createString_join [OF assms(3)] assms(4-6) by auto
  have "parseQuery env out (service_init_default default_por index t conn) (join_words words) =
      Inr (answer_text out (join_words words) ls unmatched)"
    by (rule parseQuery_text [OF assms(8-11)])
  then show ?thesis
    using so by (simp add: searcher_main_def K_OPENTREP_EARLY_RETURN_STATUS_def assms(7) say_def)
qed

theorem searcher_output_witness:
  "\<exists>written. searcher_main \<lparr>pk_name = ''opentrep'', pk_version = [], pk_prefix = [], pk_options = []\<rparr> split_tokens par_env (sw_out par_world)
     ''por.csv'' \<lparr>sm_options = [''xapiandb'' \<mapsto> ''/tmp/xapian'', ''sqldbtype'' \<mapsto> ''sqlite'', ''sqldbconx'' \<mapsto> ''trep.db''], sm_error = 3,
       sm_type = 1, sm_query = Some [''par'']\<rparr> = (written @ ''Finding the airports closest to: par'' @ endl, Inr 0)"
proof -
  let ?vars = "\<lparr>sm_options = [''xapiandb'' \<mapsto> ''/tmp/xapian'', ''sqldbtype'' \<mapsto> ''sqlite'', ''sqldbconx'' \<mapsto> ''trep.db''], sm_error = 3,
       sm_type = 1, sm_query = Some [''par'']\<rparr>"
  let ?l = "cdg\<lparr>loc_correctedKeywords := ''par''\<rparr>"
  have "DBType_of_string ''sqlite'' = Inr SQLITE3" by code_simp
  moreover have "lk_iataType (loc_key ?l) \<noteq> LAST_IATA_TYPE" by (simp add: cdg_def new_Location_def new_LocationKey_def)
  moreover have "early_options pk (sm_options ?vars) = None" for pk by (simp add: early_options_def)
  ultimately show ?thesis
    using searcher_output [where vars="?vars" and pk="\<lparr>pk_name = ''opentrep'', pk_version = [], pk_prefix = [], pk_options = []\<rparr>" and tkz=split_tokens
      and index="''/tmp/xapian''" and db="''sqlite''" and conn="''trep.db''" and t=SQLITE3 and env=par_env and default_por="''por.csv''"
      and out="sw_out par_world" and ls="[?l]" and unmatched="[]"] par_interpreted
    by (simp add: par_searcher_def)
qed

text \<open>An exception of the request ends the program after the text of the options, and nothing of the answer is written.\<close>

theorem searcher_exception:
  assumes "early_options pk (sm_options vars) = None" and "sm_type vars = 0" and "sm_options vars ''sqldbtype'' = Some db"
    and "DBType_of_string db = Inr t" and "\<And>sc q. service_interpretTravelRequest env sc q [] [] = Inl e"
  shows "searcher_main pk tkz env out default_por vars =
    (snd (snd (searcher_readConfiguration pk tkz vars new_searcher_options)), Inl e)"
proof -
  from options_read [OF assms(1), of tkz] obtain so written where
      so: "searcher_readConfiguration pk tkz vars new_searcher_options = (0, so, written)" "so_SearchType so = sm_type vars"
        "so_SQLDBTypeString so = db"
    unfolding assms(3) by auto
  then show ?thesis
    by (simp add: searcher_main_def K_OPENTREP_EARLY_RETURN_STATUS_def assms(2,4) parseQuery_def assms(5))
qed

end
