(* ===== verification/Sessions.thy ===== *)
theory Sessions
  imports Prelude
begin

text \<open>
  The parameters of an SQL database (\<^verbatim>\<open>DBParams.hpp\<close>) and the manager of a session on it
  (\<^verbatim>\<open>command/DBSessionManager.cpp\<close>). Opening a session is a parameter: the text of an exception of SOCI, or the
  session. The services use their own functions instead (Database).
\<close>

section \<open>Parameters of a database\<close>

record DBParams =
  dp_user :: string
  dp_passwd :: string
  dp_host :: string
  dp_port :: string
  dp_dbname :: string

definition new_DBParams :: "string \<Rightarrow> string \<Rightarrow> string \<Rightarrow> string \<Rightarrow> string \<Rightarrow> DBParams" where
  "new_DBParams iDBUser iDBPasswd iDBHost iDBPort iDBName =
     \<lparr>dp_user = iDBUser, dp_passwd = iDBPasswd, dp_host = iDBHost, dp_port = iDBPort, dp_dbname = iDBName\<rparr>"

definition new_DBParams_name :: "string \<Rightarrow> DBParams" where
  "new_DBParams_name iDBName = \<lparr>dp_user = [], dp_passwd = [], dp_host = [], dp_port = [], dp_dbname = iDBName\<rparr>"

definition checkSQLite :: "DBParams \<Rightarrow> bool" where
  "checkSQLite p = (if dp_dbname p = [] then False else True)"

definition checkMySQL :: "DBParams \<Rightarrow> bool" where
  "checkMySQL p =
     (if dp_user p = [] \<or> dp_passwd p = [] \<or> dp_host p = [] \<or> dp_port p = [] \<or> dp_dbname p = [] then False else True)"

text \<open>The short display is the same.\<close>

definition DBParams_toString :: "DBParams \<Rightarrow> string" where
  "DBParams_toString p = dp_dbname p @ ''.'' @ dp_user p @ ''@'' @ dp_host p @ '':'' @ dp_port p"

definition toMySQLConnectionString :: "DBParams \<Rightarrow> string" where
  "toMySQLConnectionString p = ''db='' @ dp_dbname p @ '' user='' @ dp_user p @ '' password='' @ dp_passwd p @
     '' port='' @ dp_port p @ '' host='' @ dp_host p"

definition toSQLiteConnectionString :: "DBParams \<Rightarrow> string" where
  "toSQLiteConnectionString p = ''db='' @ dp_dbname p"

section \<open>The manager\<close>

text \<open>A session that is created is not open.\<close>

datatype 's managed_session = Unopened | Opened 's

record 's DBSessionManager =
  dm_dbSession :: "'s managed_session option"

definition new_DBSessionManager :: "'s DBSessionManager" where
  "new_DBSessionManager = \<lparr>dm_dbSession = None\<rparr>"

definition getDBSessionRef :: "'s DBSessionManager \<Rightarrow> 's managed_session outcome" where
  "getDBSessionRef m = (case dm_dbSession m of None \<Rightarrow> Inl AssertionFailure | Some s \<Rightarrow> Inr s)"

definition DBSessionManager_init ::
    "(string \<Rightarrow> string + 's) \<Rightarrow> DBParams \<Rightarrow> 's DBSessionManager \<Rightarrow> unit outcome \<times> 's DBSessionManager" where
  "DBSessionManager_init connect iDBParams m =
     (if \<not> checkSQLite iDBParams then
        (Inl (XapianTravelDatabaseEmptyException
           (''At least one of the parameters for the SQL '' @ ''database is empty: '' @ DBParams_toString iDBParams)), m)
      else
        let m = m\<lparr>dm_dbSession := Some Unopened\<rparr>
        in case connect (toSQLiteConnectionString iDBParams) of
             Inr s \<Rightarrow> (Inr (), m\<lparr>dm_dbSession := Some (Opened s)\<rparr>)
           | Inl lException \<Rightarrow>
               (Inl (SQLDatabaseImpossibleConnectionException
                  (''Error while opening a connection to database: '' @ lException @ [CHR 0x0A] @
                   ''Database parameters used: '' @ DBParams_toString iDBParams)), m))"

text \<open>The constructor with parameters; no manager is left when it throws.\<close>

definition DBSessionManager_of :: "(string \<Rightarrow> string + 's) \<Rightarrow> DBParams \<Rightarrow> 's DBSessionManager outcome" where
  "DBSessionManager_of connect iDBParams =
     (case DBSessionManager_init connect iDBParams new_DBSessionManager of
        (Inl e, m) \<Rightarrow> Inl e
      | (Inr _, m) \<Rightarrow> Inr m)"

lemma init_connects:
  assumes "dp_dbname p \<noteq> []" and "connect (toSQLiteConnectionString p) = Inr s"
  shows "DBSessionManager_init connect p m = (Inr (), m\<lparr>dm_dbSession := Some (Opened s)\<rparr>)"
  using assms by (simp add: DBSessionManager_init_def checkSQLite_def)

lemma init_fails:
  assumes "dp_dbname p = [] \<or> connect (toSQLiteConnectionString p) = Inl what"
  shows "isl (fst (DBSessionManager_init connect p m))"
  using assms by (auto simp: DBSessionManager_init_def checkSQLite_def Let_def)

lemma constructor_throws:
  "isl (fst (DBSessionManager_init connect p new_DBSessionManager)) \<Longrightarrow> isl (DBSessionManager_of connect p)"
  by (cases "DBSessionManager_init connect p new_DBSessionManager") (auto simp: DBSessionManager_of_def split: sum.splits)

section \<open>Properties\<close>

text \<open>A manager that is constructed has an open session; one whose initialisation has failed on the connection gives, without
  an assertion, a session that is not open.\<close>

theorem constructed_session:
  assumes "DBSessionManager_of connect p = Inr m"
  shows "dp_dbname p \<noteq> [] \<and> (\<exists>s. connect (toSQLiteConnectionString p) = Inr s \<and> getDBSessionRef m = Inr (Opened s))"
proof (cases "dp_dbname p = [] \<or> isl (connect (toSQLiteConnectionString p))")
  case True
  then obtain what where "dp_dbname p = [] \<or> connect (toSQLiteConnectionString p) = Inl what" by (auto simp: isl_def)
  from constructor_throws [OF init_fails [where connect=connect, OF this]] show ?thesis by (simp add: assms)
next
  case False
  then obtain s where s: "dp_dbname p \<noteq> []" "connect (toSQLiteConnectionString p) = Inr s"
    by (cases "connect (toSQLiteConnectionString p)") auto
  have "DBSessionManager_of connect p = Inr (new_DBSessionManager\<lparr>dm_dbSession := Some (Opened s)\<rparr>)"
    unfolding DBSessionManager_of_def init_connects [where connect=connect, OF s] by simp
  then have "getDBSessionRef m = Inr (Opened s)" using assms by (simp add: getDBSessionRef_def)
  then show ?thesis using s by blast
qed

theorem failed_connection:
  assumes "dp_dbname p \<noteq> []" and "connect (toSQLiteConnectionString p) = Inl what"
  shows "getDBSessionRef (snd (DBSessionManager_init connect p m)) = Inr Unopened"
  using assms by (simp add: DBSessionManager_init_def checkSQLite_def getDBSessionRef_def)

end
