(* ===== verification/Factories.thy ===== *)
theory Factories
  imports Prelude
begin

text \<open>
  The memory of the program: the factories with their pools of objects (\<^verbatim>\<open>factory/\<close>), the supervisor that owns the
  factories, and the logger (\<^verbatim>\<open>service/Logger.cpp\<close>), all of them behind static pointers.

  The heap is explicit: a cell per object, with what the owners keep of one another. An address is never used again. Deleting
  or reading a cell that is not there, or is of another kind, is undefined. The objects of the pools are the places, results,
  holders, worlds and contexts of the other theories: here only their kind matters, since no destructor follows a link.
  A pool holds addresses, never the null pointer, so that the assertions on its elements hold. The streams of the logs are
  numbers with their contents.
\<close>

section \<open>The heap\<close>

datatype pool_kind = Place_pool | PlaceHolder_pool | Result_pool | ResultHolder_pool | ResultCombination_pool | World_pool
  | ServiceContext_pool

datatype EN_LogLevel = CRITICAL | ERROR | NOTIFICATION | WARNING | DEBUG | VERBOSE | LAST_LOG_LEVEL

fun log_level :: "EN_LogLevel \<Rightarrow> nat" where
  "log_level CRITICAL = 0"
| "log_level ERROR = 1"
| "log_level NOTIFICATION = 2"
| "log_level WARNING = 3"
| "log_level DEBUG = 4"
| "log_level VERBOSE = 5"
| "log_level LAST_LOG_LEVEL = 6"

type_synonym address = nat

text \<open>An object; a factory with its pool; the supervisor with its logger and its factories, of objects and of services; the
  logger with its level and its stream.\<close>

datatype memory_cell =
    Object_cell pool_kind
  | Factory_cell pool_kind "address list"
  | Supervisor_cell "address option" "address list" "address list"
  | Logger_cell EN_LogLevel "nat option"

text \<open>The heap, and the static pointers of the factories, of the supervisor and of the logger.\<close>

record runtime =
  rt_heap :: "address \<Rightarrow> memory_cell option"
  rt_next :: address
  rt_factory :: "pool_kind \<Rightarrow> address option"
  rt_supervisor :: "address option"
  rt_logger :: "address option"
  rt_streams :: "nat \<Rightarrow> string"

definition new_runtime :: runtime where
  "new_runtime = \<lparr>rt_heap = (\<lambda>_. None), rt_next = 0, rt_factory = (\<lambda>_. None), rt_supervisor = None, rt_logger = None,
     rt_streams = (\<lambda>_. [])\<rparr>"

definition allocate :: "memory_cell \<Rightarrow> runtime \<Rightarrow> address \<times> runtime" where
  "allocate c rt = (rt_next rt, rt\<lparr>rt_heap := (rt_heap rt)(rt_next rt := Some c), rt_next := rt_next rt + 1\<rparr>)"

definition release :: "address \<Rightarrow> runtime \<Rightarrow> runtime outcome" where
  "release a rt =
     (case rt_heap rt a of
        None \<Rightarrow> Inl UndefinedBehaviour
      | Some _ \<Rightarrow> Inr (rt\<lparr>rt_heap := (rt_heap rt)(a := None)\<rparr>))"

section \<open>The supervisor\<close>

definition FacSupervisor_instance :: "runtime \<Rightarrow> address \<times> runtime" where
  "FacSupervisor_instance rt =
     (case rt_supervisor rt of
        Some s \<Rightarrow> (s, rt)
      | None \<Rightarrow>
          let (s, rt) = allocate (Supervisor_cell None [] []) rt
          in (s, rt\<lparr>rt_supervisor := Some s\<rparr>))"

definition update_supervisor ::
    "(address option \<Rightarrow> address list \<Rightarrow> address list \<Rightarrow> memory_cell) \<Rightarrow> address \<Rightarrow> runtime \<Rightarrow> runtime outcome" where
  "update_supervisor f s rt =
     (case rt_heap rt s of
        Some (Supervisor_cell lg bom svc) \<Rightarrow> Inr (rt\<lparr>rt_heap := (rt_heap rt)(s := Some (f lg bom svc))\<rparr>)
      | _ \<Rightarrow> Inl UndefinedBehaviour)"

definition registerBomFactory :: "address \<Rightarrow> address \<Rightarrow> runtime \<Rightarrow> runtime outcome" where
  "registerBomFactory a = update_supervisor (\<lambda>lg bom svc. Supervisor_cell lg (bom @ [a]) svc)"

definition registerServiceFactory :: "address \<Rightarrow> address \<Rightarrow> runtime \<Rightarrow> runtime outcome" where
  "registerServiceFactory a = update_supervisor (\<lambda>lg bom svc. Supervisor_cell lg bom (svc @ [a]))"

definition registerLoggerService :: "address \<Rightarrow> address \<Rightarrow> runtime \<Rightarrow> runtime outcome" where
  "registerLoggerService a = update_supervisor (\<lambda>lg bom svc. Supervisor_cell (Some a) bom svc)"

section \<open>The factories\<close>

definition factory_instance :: "pool_kind \<Rightarrow> runtime \<Rightarrow> (address \<times> runtime) outcome" where
  "factory_instance k rt =
     (case rt_factory rt k of
        Some a \<Rightarrow> Inr (a, rt)
      | None \<Rightarrow>
          let (a, rt) = allocate (Factory_cell k []) rt;
              rt = rt\<lparr>rt_factory := (rt_factory rt)(k := Some a)\<rparr>;
              (s, rt) = FacSupervisor_instance rt
          in bindE (if k = ServiceContext_pool then registerServiceFactory a s rt else registerBomFactory a s rt)
               (\<lambda>rt. Inr (a, rt)))"

text \<open>Each of the functions that create or clone an object puts it in the pool.\<close>

definition factory_create :: "address \<Rightarrow> runtime \<Rightarrow> (address \<times> runtime) outcome" where
  "factory_create a rt =
     (case rt_heap rt a of
        Some (Factory_cell k pool) \<Rightarrow>
          let (obj, rt) = allocate (Object_cell k) rt
          in Inr (obj, rt\<lparr>rt_heap := (rt_heap rt)(a := Some (Factory_cell k (pool @ [obj])))\<rparr>)
      | _ \<Rightarrow> Inl UndefinedBehaviour)"

definition create_object :: "pool_kind \<Rightarrow> runtime \<Rightarrow> (address \<times> runtime) outcome" where
  "create_object k rt = bindE (factory_instance k rt) (\<lambda>(a, rt). factory_create a rt)"

definition clean_pool :: "address \<Rightarrow> runtime \<Rightarrow> runtime outcome" where
  "clean_pool a rt =
     (case rt_heap rt a of
        Some (Factory_cell k pool) \<Rightarrow>
          bindE (foldE release pool rt) (\<lambda>rt. Inr (rt\<lparr>rt_heap := (rt_heap rt)(a := Some (Factory_cell k []))\<rparr>))
      | _ \<Rightarrow> Inl UndefinedBehaviour)"

text \<open>The destructor of the class resets its static pointer, then that of its base cleans the pool.\<close>

definition delete_factory :: "address \<Rightarrow> runtime \<Rightarrow> runtime outcome" where
  "delete_factory a rt =
     (case rt_heap rt a of
        Some (Factory_cell k pool) \<Rightarrow>
          bindE (clean_pool a (rt\<lparr>rt_factory := (rt_factory rt)(k := None)\<rparr>)) (release a)
      | _ \<Rightarrow> Inl UndefinedBehaviour)"

section \<open>The logger\<close>

definition std_cout :: nat where
  "std_cout = 0"

definition Logger_instance :: "runtime \<Rightarrow> (address \<times> runtime) outcome" where
  "Logger_instance rt =
     (case rt_logger rt of
        Some a \<Rightarrow> Inr (a, rt)
      | None \<Rightarrow>
          let (a, rt) = allocate (Logger_cell DEBUG (Some std_cout)) rt;
              rt = rt\<lparr>rt_logger := Some a\<rparr>;
              (s, rt) = FacSupervisor_instance rt
          in bindE (registerLoggerService a s rt) (\<lambda>rt. Inr (a, rt)))"

definition write_log :: "EN_LogLevel \<Rightarrow> nat \<Rightarrow> string \<Rightarrow> string \<Rightarrow> runtime \<Rightarrow> runtime outcome" where
  "write_log iLevel iLineNumber iFileName iToBeLogged rt =
     bindE (Logger_instance rt) (\<lambda>(a, rt).
       case rt_heap rt a of
         Some (Logger_cell level logStream) \<Rightarrow>
           if log_level iLevel \<le> log_level level then
             (case logStream of
                None \<Rightarrow> Inl AssertionFailure
              | Some st \<Rightarrow>
                  Inr (rt\<lparr>rt_streams := (rt_streams rt)(st := rt_streams rt st @ iFileName @ '':'' @ show_nat iLineNumber @ '': '' @
                    iToBeLogged @ [CHR 0x0A])\<rparr>))
           else Inr rt
       | _ \<Rightarrow> Inl UndefinedBehaviour)"

definition setLogParameters :: "EN_LogLevel \<Rightarrow> nat \<Rightarrow> runtime \<Rightarrow> runtime outcome" where
  "setLogParameters iLogLevel ioLogStream rt =
     bindE (Logger_instance rt) (\<lambda>(a, rt).
       case rt_heap rt a of
         Some (Logger_cell _ _) \<Rightarrow> Inr (rt\<lparr>rt_heap := (rt_heap rt)(a := Some (Logger_cell iLogLevel (Some ioLogStream)))\<rparr>)
       | _ \<Rightarrow> Inl UndefinedBehaviour)"

text \<open>The destructor of the logger does not reset the static pointer.\<close>

definition delete_logger :: "address \<Rightarrow> runtime \<Rightarrow> runtime outcome" where
  "delete_logger a rt =
     (case rt_heap rt a of
        Some (Logger_cell level _) \<Rightarrow> release a (rt\<lparr>rt_heap := (rt_heap rt)(a := Some (Logger_cell level None))\<rparr>)
      | _ \<Rightarrow> Inl UndefinedBehaviour)"

section \<open>Cleaning\<close>

definition cleanBomLayer :: "address \<Rightarrow> runtime \<Rightarrow> runtime outcome" where
  "cleanBomLayer s rt =
     (case rt_heap rt s of
        Some (Supervisor_cell lg bom svc) \<Rightarrow>
          bindE (foldE delete_factory bom rt) (update_supervisor (\<lambda>lg bom svc. Supervisor_cell lg [] svc) s)
      | _ \<Rightarrow> Inl UndefinedBehaviour)"

definition cleanServiceLayer :: "address \<Rightarrow> runtime \<Rightarrow> runtime outcome" where
  "cleanServiceLayer s rt =
     (case rt_heap rt s of
        Some (Supervisor_cell lg bom svc) \<Rightarrow>
          bindE (foldE delete_factory svc rt) (update_supervisor (\<lambda>lg bom svc. Supervisor_cell lg bom []) s)
      | _ \<Rightarrow> Inl UndefinedBehaviour)"

definition cleanLoggerService :: "address \<Rightarrow> runtime \<Rightarrow> runtime outcome" where
  "cleanLoggerService s rt =
     (case rt_heap rt s of
        Some (Supervisor_cell lg bom svc) \<Rightarrow>
          bindE (case lg of None \<Rightarrow> Inr rt | Some a \<Rightarrow> delete_logger a rt)
            (update_supervisor (\<lambda>lg bom svc. Supervisor_cell None bom svc) s)
      | _ \<Rightarrow> Inl UndefinedBehaviour)"

definition clean_layers :: "address \<Rightarrow> runtime \<Rightarrow> runtime outcome" where
  "clean_layers s rt = bindE (cleanBomLayer s rt) (\<lambda>rt. bindE (cleanServiceLayer s rt) (cleanLoggerService s))"

definition delete_supervisor :: "address \<Rightarrow> runtime \<Rightarrow> runtime outcome" where
  "delete_supervisor s rt = bindE (clean_layers s rt) (release s)"

definition cleanFactory :: "runtime \<Rightarrow> runtime outcome" where
  "cleanFactory rt =
     (case rt_supervisor rt of
        None \<Rightarrow> Inr rt
      | Some s \<Rightarrow>
          bindE (clean_layers s rt) (\<lambda>rt.
          bindE (delete_supervisor s rt) (\<lambda>rt. Inr (rt\<lparr>rt_supervisor := None\<rparr>))))"

section \<open>What a program does with the memory\<close>

datatype memory_op = Create_object pool_kind | Write_log EN_LogLevel nat string string | Set_log EN_LogLevel nat | Clean_all

fun perform_op :: "memory_op \<Rightarrow> runtime \<Rightarrow> runtime outcome" where
  "perform_op (Create_object k) rt = bindE (create_object k rt) (\<lambda>(_, rt). Inr rt)"
| "perform_op (Write_log level line name msg) rt = write_log level line name msg rt"
| "perform_op (Set_log level st) rt = setLogParameters level st rt"
| "perform_op Clean_all rt = cleanFactory rt"

text \<open>The construction of the services, and their destruction, which does nothing.\<close>

definition service_memory :: "nat \<Rightarrow> memory_op list" where
  "service_memory st = [Set_log DEBUG st, Create_object ServiceContext_pool, Create_object World_pool]"

definition service_finalise_memory :: "memory_op list" where
  "service_finalise_memory = []"

section \<open>The invariant\<close>

text \<open>
  Who owns what: the supervisor its factories, in the order of their registration, and the logger; a factory the objects of its
  pool; and nothing is without an owner. \<open>pools\<close> gives the pools, \<open>bom\<close> and \<open>svc\<close> the factories.
\<close>

definition owned_cell :: "runtime \<Rightarrow> address \<Rightarrow> (pool_kind \<Rightarrow> address list) \<Rightarrow> address \<Rightarrow> memory_cell \<Rightarrow> bool" where
  "owned_cell rt s pools a c \<longleftrightarrow>
     (case c of
        Object_cell k \<Rightarrow> a \<in> set (pools k)
      | Factory_cell k _ \<Rightarrow> rt_factory rt k = Some a
      | Supervisor_cell _ _ _ \<Rightarrow> a = s
      | Logger_cell _ _ \<Rightarrow> rt_logger rt = Some a)"

definition supervised :: "runtime \<Rightarrow> address \<Rightarrow> pool_kind list \<Rightarrow> pool_kind list \<Rightarrow> (pool_kind \<Rightarrow> address list) \<Rightarrow> bool" where
  "supervised rt s bom svc pools \<longleftrightarrow>
     rt_supervisor rt = Some s \<and>
     rt_heap rt s = Some (Supervisor_cell (rt_logger rt) (map (the \<circ> rt_factory rt) bom) (map (the \<circ> rt_factory rt) svc)) \<and>
     distinct (bom @ svc) \<and> (\<forall>k. k \<in> set (bom @ svc) \<longleftrightarrow> rt_factory rt k \<noteq> None) \<and>
     (\<forall>k a. rt_factory rt k = Some a \<longrightarrow> rt_heap rt a = Some (Factory_cell k (pools k))) \<and>
     (\<forall>k. distinct (pools k) \<and> (\<forall>obj \<in> set (pools k). rt_heap rt obj = Some (Object_cell k)) \<and>
       (rt_factory rt k = None \<longrightarrow> pools k = [])) \<and>
     (\<forall>l. rt_logger rt = Some l \<longrightarrow> (\<exists>level st. rt_heap rt l = Some (Logger_cell level (Some st)))) \<and>
     (\<forall>a c. rt_heap rt a = Some c \<longrightarrow> owned_cell rt s pools a c)"

definition bounded :: "runtime \<Rightarrow> bool" where
  "bounded rt \<longleftrightarrow> (\<forall>a. rt_next rt \<le> a \<longrightarrow> rt_heap rt a = None)"

definition unused :: "runtime \<Rightarrow> bool" where
  "unused rt \<longleftrightarrow> rt_supervisor rt = None \<and> rt_heap rt = (\<lambda>_. None) \<and> rt_factory rt = (\<lambda>_. None)"

definition memory_ok :: "(pool_kind \<Rightarrow> address list) \<Rightarrow> runtime \<Rightarrow> bool" where
  "memory_ok pools rt \<longleftrightarrow> bounded rt \<and>
     ((unused rt \<and> rt_logger rt = None \<and> (\<forall>k. pools k = [])) \<or> (\<exists>s bom svc. supervised rt s bom svc pools))"

lemma new_runtime_ok: "memory_ok (\<lambda>_. []) new_runtime"
  by (simp add: memory_ok_def bounded_def unused_def new_runtime_def)

lemma memory_okI: "supervised rt s bom svc pools \<Longrightarrow> bounded rt \<Longrightarrow> memory_ok pools rt"
  unfolding memory_ok_def by blast

lemma bounded_fresh: "bounded rt \<Longrightarrow> rt_heap rt a = Some c \<Longrightarrow> a \<noteq> rt_next rt"
  by (auto simp: bounded_def)

lemma supervisedD:
  assumes "supervised rt s bom svc pools"
  shows "rt_supervisor rt = Some s"
    and "rt_heap rt s = Some (Supervisor_cell (rt_logger rt) (map (the \<circ> rt_factory rt) bom) (map (the \<circ> rt_factory rt) svc))"
    and "distinct (bom @ svc)" and "k \<in> set (bom @ svc) \<longleftrightarrow> rt_factory rt k \<noteq> None"
    and "rt_factory rt k = Some a \<Longrightarrow> rt_heap rt a = Some (Factory_cell k (pools k))"
    and "distinct (pools k)" and "obj \<in> set (pools k) \<Longrightarrow> rt_heap rt obj = Some (Object_cell k)"
    and "rt_factory rt k = None \<Longrightarrow> pools k = []"
    and "rt_logger rt = Some l \<Longrightarrow> \<exists>level st. rt_heap rt l = Some (Logger_cell level (Some st))"
    and "rt_heap rt a = Some c \<Longrightarrow> owned_cell rt s pools a c"
  using assms unfolding supervised_def by blast+

text \<open>The first use of a factory creates it, and the supervisor if there is none.\<close>

lemma map_factory_upd: "k \<notin> set ks \<Longrightarrow> map (the \<circ> f(k := x)) ks = map (the \<circ> f) ks"
  by (induction ks) auto

lemma supervised_new_factory:
  assumes sup: "supervised rt s bom svc pools" and "bounded rt" and "rt_factory rt k = None"
    and "bom' = (if k = ServiceContext_pool then bom else bom @ [k])" and "svc' = (if k = ServiceContext_pool then svc @ [k] else svc)"
  shows "\<exists>rt'. factory_instance k rt = Inr (rt_next rt, rt') \<and> supervised rt' s bom' svc' pools \<and> bounded rt' \<and>
    rt_factory rt' k = Some (rt_next rt) \<and> rt_logger rt' = rt_logger rt"
proof -
  let ?n = "rt_next rt"
  let ?f = "(rt_factory rt)(k := Some ?n)"
  let ?rt = "rt\<lparr>rt_heap := (rt_heap rt)(?n := Some (Factory_cell k []),
      s := Some (Supervisor_cell (rt_logger rt) (map (the \<circ> ?f) bom') (map (the \<circ> ?f) svc'))), rt_next := ?n + 1, rt_factory := ?f\<rparr>"
  note d = supervisedD [OF sup]
  have k: "k \<notin> set bom" "k \<notin> set svc" using d(4) [of k] assms(3) by auto
  have s: "s \<noteq> ?n" using d(2) bounded_fresh [OF assms(2)] by blast
  have step: "factory_instance k rt = Inr (?n, ?rt)"
    using s k assms(3) d(1,2) unfolding assms(4,5)
    by (cases "k = ServiceContext_pool") (simp_all add: factory_instance_def allocate_def FacSupervisor_instance_def
      registerBomFactory_def registerServiceFactory_def update_supervisor_def map_factory_upd fun_upd_twist)
  have old: "rt_heap ?rt a = rt_heap rt a" if "rt_heap rt a = Some (Factory_cell k' p) \<or> rt_heap rt a = Some (Object_cell k') \<or>
      rt_heap rt a = Some (Logger_cell v st)" for a k' p v st
    using that d(2) bounded_fresh [OF assms(2)] by auto
  have "supervised ?rt s bom' svc' pools"
    unfolding supervised_def
  proof (intro conjI allI impI ballI)
    show "distinct (bom' @ svc')" using d(3) k by (auto simp: assms(4,5))
    show "k' \<in> set (bom' @ svc') \<longleftrightarrow> rt_factory ?rt k' \<noteq> None" for k' using d(4) [of k'] by (auto simp: assms(4,5))
    show "rt_heap ?rt a = Some (Factory_cell k' (pools k'))" if "rt_factory ?rt k' = Some a" for k' a
    proof (cases "k' = k")
      case True
      then show ?thesis using that s d(8) [OF assms(3)] by simp
    next
      case False
      then have "rt_heap rt a = Some (Factory_cell k' (pools k'))" using that d(5) by simp
      then show ?thesis using old by metis
    qed
    show "rt_heap ?rt obj = Some (Object_cell k')" if "obj \<in> set (pools k')" for k' obj using old d(7) [OF that] by metis
    show "\<exists>level st. rt_heap ?rt l = Some (Logger_cell level (Some st))" if "rt_logger ?rt = Some l" for l
    proof -
      have "rt_logger rt = Some l" using that by simp
      from d(9) [OF this] show ?thesis using old by metis
    qed
    show "owned_cell ?rt s pools a c" if "rt_heap ?rt a = Some c" for a c
    proof (cases "a = s \<or> a = ?n")
      case True
      then show ?thesis using that s by (auto simp: owned_cell_def)
    next
      case False
      then have "owned_cell rt s pools a c" using that d(10) by simp
      then show ?thesis using assms(3) by (auto simp: owned_cell_def split: memory_cell.splits)
    qed
  qed (use d(1,6,8) in \<open>auto split: if_splits\<close>)
  moreover have "bounded ?rt"
  proof -
    have "s < ?n" using assms(2) d(2) by (metis bounded_def not_le option.distinct(1))
    then show ?thesis using assms(2) by (auto simp: bounded_def)
  qed
  ultimately show ?thesis using step by simp
qed

lemma factory_instance_ok:
  assumes "memory_ok pools rt"
  shows "\<exists>a rt'. factory_instance k rt = Inr (a, rt') \<and> (\<exists>s bom svc. supervised rt' s bom svc pools) \<and> bounded rt' \<and>
    rt_factory rt' k = Some a \<and> rt_logger rt' = rt_logger rt"
proof (cases "rt_factory rt k")
  case (Some a)
  then have "\<not> unused rt" by (auto simp: unused_def)
  with assms Some show ?thesis by (auto simp: memory_ok_def factory_instance_def)
next
  case None
  show ?thesis
  proof (cases "\<exists>s bom svc. supervised rt s bom svc pools")
    case True
    then show ?thesis using supervised_new_factory [OF _ _ None refl refl] assms by (auto simp: memory_ok_def unused_def) blast
  next
    case False
    then have u: "bounded rt" "unused rt" "rt_logger rt = None" "pools = (\<lambda>_. [])" using assms by (auto simp: memory_ok_def)
    let ?n = "rt_next rt"
    let ?bom = "if k = ServiceContext_pool then [] else [k]" and ?svc = "if k = ServiceContext_pool then [k] else []"
    let ?f = "(rt_factory rt)(k := Some ?n)"
    let ?rt = "rt\<lparr>rt_heap := (rt_heap rt)(?n := Some (Factory_cell k []),
        ?n + 1 := Some (Supervisor_cell None (map (the \<circ> ?f) ?bom) (map (the \<circ> ?f) ?svc))), rt_next := ?n + 2,
        rt_factory := ?f, rt_supervisor := Some (?n + 1)\<rparr>"
    have "factory_instance k rt = Inr (?n, ?rt)"
      using u(2) by (cases "k = ServiceContext_pool") (simp_all add: factory_instance_def None allocate_def FacSupervisor_instance_def
        unused_def registerBomFactory_def registerServiceFactory_def update_supervisor_def)
    moreover have "supervised ?rt (?n + 1) ?bom ?svc pools"
      using u by (auto simp: supervised_def unused_def owned_cell_def split: if_splits)
    moreover have "bounded ?rt" using u(1) by (auto simp: bounded_def)
    moreover have "rt_factory ?rt k = Some ?n" "rt_logger ?rt = rt_logger rt" by simp_all
    ultimately show ?thesis by blast
  qed
qed

text \<open>Creating an object appends it to its pool.\<close>

lemma create_object_ok:
  assumes "memory_ok pools rt"
  shows "\<exists>obj rt'. create_object k rt = Inr (obj, rt') \<and> memory_ok (pools(k := pools k @ [obj])) rt' \<and> rt_logger rt' = rt_logger rt"
proof -
  obtain a rt1 s bom svc where inst: "factory_instance k rt = Inr (a, rt1)" and sup: "supervised rt1 s bom svc pools"
    and bd: "bounded rt1" and f: "rt_factory rt1 k = Some a" and lg: "rt_logger rt1 = rt_logger rt"
    using factory_instance_ok [OF assms, of k] by blast
  note d = supervisedD [OF sup]
  let ?n = "rt_next rt1"
  let ?pools = "pools(k := pools k @ [?n])"
  let ?rt = "rt1\<lparr>rt_heap := (rt_heap rt1)(?n := Some (Object_cell k), a := Some (Factory_cell k (pools k @ [?n]))), rt_next := ?n + 1\<rparr>"
  have a: "rt_heap rt1 a = Some (Factory_cell k (pools k))" by (rule d(5) [OF f])
  have n: "a \<noteq> ?n" using bounded_fresh [OF bd a] .
  have "create_object k rt = Inr (?n, ?rt)"
    by (simp add: create_object_def inst factory_create_def a allocate_def)
  moreover have "supervised ?rt s bom svc ?pools"
    unfolding supervised_def
  proof (intro conjI allI impI ballI)
    show "rt_heap ?rt s = Some (Supervisor_cell (rt_logger ?rt) (map (the \<circ> rt_factory ?rt) bom) (map (the \<circ> rt_factory ?rt) svc))"
      using d(2) a bounded_fresh [OF bd d(2)] by auto
    show "rt_heap ?rt b = Some (Factory_cell k' (?pools k'))" if "rt_factory ?rt k' = Some b" for k' b
    proof (cases "k' = k")
      case False
      then show ?thesis using that d(5) [of k' b] a bounded_fresh [OF bd, of b] by auto
    qed (use that f in auto)
    show "distinct (?pools k')" for k'
      using d(6) [of k'] d(7) [of ?n k'] bounded_fresh [OF bd] by auto
    show "rt_heap ?rt obj = Some (Object_cell k')" if "obj \<in> set (?pools k')" for k' obj
    proof (cases "obj \<in> set (pools k')")
      case True
      from d(7) [OF this] bounded_fresh [OF bd d(7) [OF this]] show ?thesis using a by auto
    next
      case False
      then show ?thesis using that n by (auto split: if_splits)
    qed
    show "?pools k' = []" if "rt_factory ?rt k' = None" for k' using that d(8) [of k'] f by auto
    show "\<exists>level st. rt_heap ?rt l = Some (Logger_cell level (Some st))" if "rt_logger ?rt = Some l" for l
      using that d(9) [of l] a bounded_fresh [OF bd, of l] by auto
    show "owned_cell ?rt s ?pools b c" if "rt_heap ?rt b = Some c" for b c
      using that d(10) [of b c] f by (auto simp: owned_cell_def split: if_splits memory_cell.splits)
  qed (use d(1,3,4) in auto)
  moreover have "bounded ?rt"
  proof -
    have "a < ?n" using bd a by (metis bounded_def not_le option.distinct(1))
    then show ?thesis using bd by (auto simp: bounded_def)
  qed
  ultimately show ?thesis using lg by (auto simp: memory_ok_def)
qed

text \<open>The first use of the logger creates it.\<close>

lemma supervised_new_logger:
  assumes sup: "supervised rt s bom svc pools" and "bounded rt" and "rt_logger rt = None"
  shows "\<exists>rt'. Logger_instance rt = Inr (rt_next rt, rt') \<and> supervised rt' s bom svc pools \<and> bounded rt' \<and> rt_logger rt' = Some (rt_next rt)"
proof -
  let ?n = "rt_next rt"
  let ?rt = "rt\<lparr>rt_heap := (rt_heap rt)(?n := Some (Logger_cell DEBUG (Some std_cout)),
      s := Some (Supervisor_cell (Some ?n) (map (the \<circ> rt_factory rt) bom) (map (the \<circ> rt_factory rt) svc))), rt_next := ?n + 1, rt_logger := Some ?n\<rparr>"
  note d = supervisedD [OF sup]
  have s: "s \<noteq> ?n" using d(2) bounded_fresh [OF assms(2)] by blast
  have step: "Logger_instance rt = Inr (?n, ?rt)"
    using s d(1,2) by (simp add: Logger_instance_def assms(3) allocate_def FacSupervisor_instance_def registerLoggerService_def
      update_supervisor_def)
  have "supervised ?rt s bom svc pools"
    unfolding supervised_def
  proof (intro conjI allI impI ballI)
    show "rt_heap ?rt a = Some (Factory_cell k (pools k))" if "rt_factory ?rt k = Some a" for k a
      using that d(5) [of k a] d(2) bounded_fresh [OF assms(2), of a] by auto
    show "rt_heap ?rt obj = Some (Object_cell k)" if "obj \<in> set (pools k)" for k obj
      using d(7) [OF that] d(2) bounded_fresh [OF assms(2), of obj] by auto
    show "\<exists>level st. rt_heap ?rt l = Some (Logger_cell level (Some st))" if "rt_logger ?rt = Some l" for l
      using that s by auto
    show "owned_cell ?rt s pools a c" if "rt_heap ?rt a = Some c" for a c
      using that d(10) [of a c] assms(3) by (auto simp: owned_cell_def split: if_splits memory_cell.splits)
  qed (use d(1,3,4,6,8) in auto)
  moreover have "bounded ?rt"
  proof -
    have "s < ?n" using assms(2) d(2) by (metis bounded_def not_le option.distinct(1))
    then show ?thesis using assms(2) by (auto simp: bounded_def)
  qed
  ultimately show ?thesis using step by simp
qed

lemma Logger_instance_ok:
  assumes "memory_ok pools rt"
  shows "\<exists>a rt'. Logger_instance rt = Inr (a, rt') \<and> (\<exists>s bom svc. supervised rt' s bom svc pools) \<and> bounded rt' \<and> rt_logger rt' = Some a"
proof (cases "\<exists>s bom svc. supervised rt s bom svc pools")
  case True
  then show ?thesis
    using supervised_new_logger [of rt] assms
    by (cases "rt_logger rt") (auto simp: memory_ok_def unused_def Logger_instance_def, blast+)
next
  case False
  then have u: "bounded rt" "unused rt" "rt_logger rt = None" "pools = (\<lambda>_. [])" using assms by (auto simp: memory_ok_def)
  let ?n = "rt_next rt"
  let ?rt = "rt\<lparr>rt_heap := (rt_heap rt)(?n := Some (Logger_cell DEBUG (Some std_cout)), ?n + 1 := Some (Supervisor_cell (Some ?n) [] [])),
      rt_next := ?n + 2, rt_logger := Some ?n, rt_supervisor := Some (?n + 1)\<rparr>"
  have "Logger_instance rt = Inr (?n, ?rt)"
    using u(2) by (simp add: Logger_instance_def u(3) allocate_def FacSupervisor_instance_def unused_def registerLoggerService_def
      update_supervisor_def)
  moreover have "supervised ?rt (?n + 1) [] [] pools"
    using u by (auto simp: supervised_def unused_def owned_cell_def split: if_splits)
  moreover have "bounded ?rt" using u(1) by (auto simp: bounded_def)
  moreover have "rt_logger ?rt = Some ?n" by simp
  ultimately show ?thesis by blast
qed

lemma supervised_set_logger:
  assumes sup: "supervised rt s bom svc pools" and "rt_logger rt = Some l"
  shows "supervised (rt\<lparr>rt_heap := (rt_heap rt)(l := Some (Logger_cell level (Some st)))\<rparr>) s bom svc pools"
proof -
  note d = supervisedD [OF sup]
  from d(9) [OF assms(2)] obtain v w where l: "rt_heap rt l = Some (Logger_cell v (Some w))" by blast
  have other: "a \<noteq> l" if "rt_heap rt a = Some (Factory_cell k p) \<or> rt_heap rt a = Some (Object_cell k) \<or>
      rt_heap rt a = Some (Supervisor_cell x y z)" for a k p x y z using that l by auto
  let ?rt = "rt\<lparr>rt_heap := (rt_heap rt)(l := Some (Logger_cell level (Some st)))\<rparr>"
  show ?thesis
    unfolding supervised_def
  proof (intro conjI allI impI ballI)
    show "rt_heap ?rt a = Some (Factory_cell k (pools k))" if "rt_factory ?rt k = Some a" for k a
      using that d(5) [of k a] other [of a] by simp
    show "rt_heap ?rt obj = Some (Object_cell k)" if "obj \<in> set (pools k)" for k obj using d(7) [OF that] other [of obj] by simp
    show "owned_cell ?rt s pools a c" if "rt_heap ?rt a = Some c" for a c
      using that d(10) [of a c] assms(2) by (auto simp: owned_cell_def split: if_splits memory_cell.splits)
  qed (use d(1-4,6,8) other [of s] assms(2) in auto)
qed

lemma setLogParameters_ok:
  assumes "memory_ok pools rt"
  shows "\<exists>rt'. setLogParameters level st rt = Inr rt' \<and> memory_ok pools rt' \<and> rt_logger rt' \<noteq> None"
proof -
  obtain a rt1 s bom svc where inst: "Logger_instance rt = Inr (a, rt1)" and sup: "supervised rt1 s bom svc pools" and "bounded rt1"
    and lg: "rt_logger rt1 = Some a" using Logger_instance_ok [OF assms] by blast
  from supervisedD(9) [OF sup lg] obtain v w where a: "rt_heap rt1 a = Some (Logger_cell v (Some w))" by blast
  let ?rt = "rt1\<lparr>rt_heap := (rt_heap rt1)(a := Some (Logger_cell level (Some st)))\<rparr>"
  have "setLogParameters level st rt = Inr ?rt" by (simp add: setLogParameters_def inst a)
  moreover have "bounded ?rt" using \<open>bounded rt1\<close> a by (auto simp: bounded_def)
  then have "memory_ok pools ?rt" by (rule memory_okI [OF supervised_set_logger [OF sup lg]])
  ultimately show ?thesis using lg by simp
qed

lemma owned_cell_streams: "owned_cell (rt\<lparr>rt_streams := st\<rparr>) s pools a c = owned_cell rt s pools a c"
  by (cases c) (simp_all add: owned_cell_def)

lemma supervised_streams: "supervised (rt\<lparr>rt_streams := st\<rparr>) s bom svc pools \<longleftrightarrow> supervised rt s bom svc pools"
  by (simp add: supervised_def owned_cell_streams)

lemma write_log_ok:
  assumes "memory_ok pools rt"
  shows "\<exists>rt'. write_log level line name msg rt = Inr rt' \<and> memory_ok pools rt' \<and> rt_logger rt' \<noteq> None"
proof -
  obtain a rt1 s bom svc where inst: "Logger_instance rt = Inr (a, rt1)" and sup: "supervised rt1 s bom svc pools" and bd: "bounded rt1"
    and lg: "rt_logger rt1 = Some a" using Logger_instance_ok [OF assms] by blast
  from supervisedD(9) [OF sup lg] obtain v w where a: "rt_heap rt1 a = Some (Logger_cell v (Some w))" by blast
  have "memory_ok pools rt1" by (rule memory_okI [OF sup bd])
  moreover have "memory_ok pools (rt1\<lparr>rt_streams := st\<rparr>)" for st
    by (rule memory_okI [OF iffD2 [OF supervised_streams sup]]) (use bd in \<open>simp add: bounded_def\<close>)
  ultimately show ?thesis using lg by (simp add: write_log_def inst a)
qed

section \<open>Cleaning empties the heap\<close>

lemma release_all:
  assumes "distinct pool" and "\<forall>a \<in> set pool. rt_heap rt a \<noteq> None"
  shows "foldE release pool rt = Inr (rt\<lparr>rt_heap := rt_heap rt |` (- set pool)\<rparr>)"
  using assms
proof (induction pool arbitrary: rt)
  case (Cons a pool)
  then obtain c where c: "rt_heap rt a = Some c" by auto
  obtain h where h: "h = (rt_heap rt)(a := None)" by blast
  have "\<forall>b \<in> set pool. rt_heap (rt\<lparr>rt_heap := h\<rparr>) b \<noteq> None" using Cons.prems by (auto simp: h)
  then have rest: "foldE release pool (rt\<lparr>rt_heap := h\<rparr>) = Inr (rt\<lparr>rt_heap := h |` (- set pool)\<rparr>)"
    using Cons.IH [of "rt\<lparr>rt_heap := h\<rparr>"] Cons.prems(1) by simp
  have "h |` (- set pool) = rt_heap rt |` (- set (a # pool))" by (auto simp: restrict_map_def h)
  moreover have "release a rt = Inr (rt\<lparr>rt_heap := h\<rparr>)" by (simp add: release_def c h)
  ultimately show ?case using rest by simp
qed (simp add: restrict_map_def)

lemma delete_factory_ok:
  assumes a: "rt_heap rt a = Some (Factory_cell k pool)" and "distinct pool" and "\<forall>obj \<in> set pool. rt_heap rt obj = Some (Object_cell k)"
  shows "delete_factory a rt =
    Inr (rt\<lparr>rt_heap := rt_heap rt |` (- insert a (set pool)), rt_factory := (rt_factory rt)(k := None)\<rparr>)"
proof -
  have n: "a \<notin> set pool" using a assms(3) by auto
  have "foldE release pool (rt\<lparr>rt_factory := (rt_factory rt)(k := None)\<rparr>) =
      Inr (rt\<lparr>rt_factory := (rt_factory rt)(k := None), rt_heap := rt_heap rt |` (- set pool)\<rparr>)"
    using release_all [OF assms(2), of "rt\<lparr>rt_factory := (rt_factory rt)(k := None)\<rparr>"] assms(3) by simp
  moreover have "((rt_heap rt |` (- set pool))(a := Some (Factory_cell k [])))(a := None) = rt_heap rt |` (- insert a (set pool))"
    by (auto simp: restrict_map_def)
  ultimately show ?thesis by (simp add: delete_factory_def clean_pool_def a release_def)
qed

text \<open>The addresses of factories and of their objects.\<close>

definition owned_by :: "(pool_kind \<Rightarrow> address option) \<Rightarrow> pool_kind list \<Rightarrow> (pool_kind \<Rightarrow> address list) \<Rightarrow> address set" where
  "owned_by f ks pools = (\<Union>k \<in> set ks. insert (the (f k)) (set (pools k)))"

lemma delete_factories_ok:
  assumes "distinct ks" and "\<forall>k \<in> set ks. \<exists>a. f k = Some a \<and> rt_heap rt a = Some (Factory_cell k (pools k))"
    and "\<forall>k \<in> set ks. distinct (pools k) \<and> (\<forall>obj \<in> set (pools k). rt_heap rt obj = Some (Object_cell k))"
  shows "foldE delete_factory (map (the \<circ> f) ks) rt =
    Inr (rt\<lparr>rt_heap := rt_heap rt |` (- owned_by f ks pools),
            rt_factory := (\<lambda>k. if k \<in> set ks then None else rt_factory rt k)\<rparr>)"
  using assms
proof (induction ks arbitrary: rt)
  case (Cons k ks)
  from Cons.prems(2) obtain a where a: "f k = Some a" "rt_heap rt a = Some (Factory_cell k (pools k))" by auto
  let ?rt = "rt\<lparr>rt_heap := rt_heap rt |` (- insert a (set (pools k))), rt_factory := (rt_factory rt)(k := None)\<rparr>"
  have one: "delete_factory a rt = Inr ?rt" using delete_factory_ok [OF a(2)] Cons.prems(3) by simp
  have keep: "rt_heap ?rt b = rt_heap rt b" if "k' \<noteq> k" "rt_heap rt b = Some (Factory_cell k' p) \<or> rt_heap rt b = Some (Object_cell k')" for b k' p
    using that a(2) Cons.prems(3) by (auto simp: restrict_map_def)
  have "foldE delete_factory (map (the \<circ> f) ks) ?rt =
    Inr (?rt\<lparr>rt_heap := rt_heap ?rt |` (- owned_by f ks pools),
            rt_factory := (\<lambda>k. if k \<in> set ks then None else rt_factory ?rt k)\<rparr>)"
  proof (rule Cons.IH)
    show "distinct ks" using Cons.prems(1) by simp
    show "\<forall>k \<in> set ks. \<exists>a. f k = Some a \<and> rt_heap ?rt a = Some (Factory_cell k (pools k))"
    proof
      fix k' assume k': "k' \<in> set ks"
      then have ne: "k' \<noteq> k" using Cons.prems(1) by auto
      from k' Cons.prems(2) obtain b where b: "f k' = Some b" "rt_heap rt b = Some (Factory_cell k' (pools k'))" by auto
      have "rt_heap ?rt b = rt_heap rt b" by (rule keep [OF ne disjI1]) (rule b(2))
      with b show "\<exists>a. f k' = Some a \<and> rt_heap ?rt a = Some (Factory_cell k' (pools k'))" by simp
    qed
    show "\<forall>k \<in> set ks. distinct (pools k) \<and> (\<forall>obj \<in> set (pools k). rt_heap ?rt obj = Some (Object_cell k))"
    proof
      fix k' assume k': "k' \<in> set ks"
      then have ne: "k' \<noteq> k" using Cons.prems(1) by auto
      have "rt_heap ?rt obj = Some (Object_cell k')" if "obj \<in> set (pools k')" for obj
      proof -
        have h: "rt_heap rt obj = Some (Object_cell k')" using that k' Cons.prems(3) by simp
        have "rt_heap ?rt obj = rt_heap rt obj" by (rule keep [OF ne disjI2]) (rule h)
        with h show ?thesis by simp
      qed
      then show "distinct (pools k') \<and> (\<forall>obj \<in> set (pools k'). rt_heap ?rt obj = Some (Object_cell k'))"
        using k' Cons.prems(3) by simp
    qed
  qed
  moreover have "?rt\<lparr>rt_heap := h, rt_factory := g\<rparr> = rt\<lparr>rt_heap := h, rt_factory := g\<rparr>" for h g by simp
  moreover have "(\<lambda>k'. if k' \<in> set ks then None else rt_factory ?rt k') = (\<lambda>k'. if k' \<in> set (k # ks) then None else rt_factory rt k')"
    by auto
  moreover have "rt_heap ?rt |` (- owned_by f ks pools) =
      rt_heap rt |` (- owned_by f (k # ks) pools)"
    by (auto simp: restrict_map_def a(1) owned_by_def)
  moreover have "foldE delete_factory (map (the \<circ> f) (k # ks)) rt = foldE delete_factory (map (the \<circ> f) ks) ?rt"
    by (simp add: a(1) one)
  ultimately show ?case by (simp only:)
qed (simp add: restrict_map_def owned_by_def)

lemma owned_kind:
  assumes sup: "supervised rt s bom svc pools" and "a \<in> owned_by (rt_factory rt) ks pools" and "set ks \<subseteq> set (bom @ svc)"
  shows "\<exists>k \<in> set ks. rt_heap rt a = Some (Factory_cell k (pools k)) \<or> rt_heap rt a = Some (Object_cell k)"
proof -
  from assms(2,3) obtain k where k: "k \<in> set ks" "k \<in> set (bom @ svc)" "a = the (rt_factory rt k) \<or> a \<in> set (pools k)"
    unfolding owned_by_def by blast
  from supervisedD(4) [OF sup, of k] k(2) obtain b where "rt_factory rt k = Some b" by blast
  then show ?thesis using k(1,3) supervisedD(5,7) [OF sup] by auto
qed

lemma supervised_apart:
  assumes sup: "supervised rt s bom svc pools"
  shows "s \<notin> owned_by (rt_factory rt) bom pools" and "s \<notin> owned_by (rt_factory rt) svc pools"
    and "rt_logger rt = Some l \<Longrightarrow> l \<notin> owned_by (rt_factory rt) bom pools"
    and "rt_logger rt = Some l \<Longrightarrow> l \<notin> owned_by (rt_factory rt) svc pools"
    and "a \<in> owned_by (rt_factory rt) svc pools \<Longrightarrow> a \<notin> owned_by (rt_factory rt) bom pools"
proof -
  note kind = owned_kind [OF sup]
  show "s \<notin> owned_by (rt_factory rt) bom pools" "s \<notin> owned_by (rt_factory rt) svc pools"
    using kind [of s bom] kind [of s svc] supervisedD(2) [OF sup] by auto
  show "l \<notin> owned_by (rt_factory rt) bom pools" "l \<notin> owned_by (rt_factory rt) svc pools" if "rt_logger rt = Some l"
    using kind [of l bom] kind [of l svc] supervisedD(9) [OF sup that] by auto
  show "a \<notin> owned_by (rt_factory rt) bom pools" if "a \<in> owned_by (rt_factory rt) svc pools"
  proof
    assume b: "a \<in> owned_by (rt_factory rt) bom pools"
    from kind [OF that] kind [OF b] obtain k k' where "k \<in> set svc" "k' \<in> set bom" "k = k'" by auto
    then show False using supervisedD(3) [OF sup] by auto
  qed
qed

lemma supervised_covers:
  assumes sup: "supervised rt s bom svc pools" and "a \<notin> owned_by (rt_factory rt) bom pools"
    and "a \<notin> owned_by (rt_factory rt) svc pools" and "a \<noteq> s" and "rt_logger rt \<noteq> Some a"
  shows "rt_heap rt a = None"
proof (rule ccontr)
  assume "rt_heap rt a \<noteq> None"
  then obtain c where "rt_heap rt a = Some c" by auto
  from supervisedD(10) [OF sup this] have own: "owned_cell rt s pools a c" .
  have no: "rt_factory rt k = None" if "a = the (rt_factory rt k) \<or> a \<in> set (pools k)" for k
    using that assms(2,3) supervisedD(4) [OF sup, of k] unfolding owned_by_def by auto
  show False
  proof (cases c)
    case (Object_cell k)
    then have "a \<in> set (pools k)" using own by (simp add: owned_cell_def)
    with no [of k] supervisedD(8) [OF sup, of k] show ?thesis by simp
  next
    case (Factory_cell k pool)
    then show ?thesis using own no [of k] by (simp add: owned_cell_def)
  qed (use own assms(4,5) in \<open>simp_all add: owned_cell_def\<close>)
qed

lemma clean_bom_ok:
  assumes sup: "supervised rt s bom svc pools"
  shows "cleanBomLayer s rt = Inr (rt\<lparr>rt_heap := (rt_heap rt |` (- owned_by (rt_factory rt) bom pools))
      (s := Some (Supervisor_cell (rt_logger rt) [] (map (the \<circ> rt_factory rt) svc))),
    rt_factory := (\<lambda>k. if k \<in> set bom then None else rt_factory rt k)\<rparr>)"
proof -
  note d = supervisedD [OF sup]
  have "foldE delete_factory (map (the \<circ> rt_factory rt) bom) rt =
    Inr (rt\<lparr>rt_heap := rt_heap rt |` (- owned_by (rt_factory rt) bom pools),
      rt_factory := (\<lambda>k. if k \<in> set bom then None else rt_factory rt k)\<rparr>)"
  proof (rule delete_factories_ok)
    show "\<forall>k \<in> set bom. \<exists>a. rt_factory rt k = Some a \<and> rt_heap rt a = Some (Factory_cell k (pools k))"
    proof
      fix k assume "k \<in> set bom"
      then obtain a where "rt_factory rt k = Some a" using d(4) [of k] by auto
      then show "\<exists>a. rt_factory rt k = Some a \<and> rt_heap rt a = Some (Factory_cell k (pools k))" using d(5) by blast
    qed
  qed (use d(3,6,7) in auto)
  then show ?thesis using supervised_apart(1) [OF sup] d(2) by (simp add: cleanBomLayer_def update_supervisor_def)
qed

lemma clean_service_ok:
  assumes sup: "supervised rt s bom svc pools" and rt1: "rt1 = rt\<lparr>rt_heap := h1, rt_factory := f1\<rparr>"
    and h1: "h1 = (rt_heap rt |` (- owned_by (rt_factory rt) bom pools))
      (s := Some (Supervisor_cell (rt_logger rt) [] (map (the \<circ> rt_factory rt) svc)))"
    and f1: "f1 = (\<lambda>k. if k \<in> set bom then None else rt_factory rt k)"
  shows "cleanServiceLayer s rt1 = Inr (rt\<lparr>rt_heap := (h1 |` (- owned_by (rt_factory rt) svc pools))
      (s := Some (Supervisor_cell (rt_logger rt) [] [])), rt_factory := (\<lambda>_. None)\<rparr>)"
proof -
  note d = supervisedD [OF sup] and apart = supervised_apart [OF sup]
  have heap1: "rt_heap rt1 = h1" and s1: "h1 s = Some (Supervisor_cell (rt_logger rt) [] (map (the \<circ> rt_factory rt) svc))"
    by (simp_all add: rt1 h1)
  have keep: "h1 a = rt_heap rt a" if "a \<in> owned_by (rt_factory rt) svc pools" for a
    using that apart(2) apart(5) [OF that] by (auto simp: h1)
  have "foldE delete_factory (map (the \<circ> rt_factory rt) svc) rt1 =
    Inr (rt1\<lparr>rt_heap := rt_heap rt1 |` (- owned_by (rt_factory rt) svc pools),
      rt_factory := (\<lambda>k. if k \<in> set svc then None else rt_factory rt1 k)\<rparr>)"
  proof (rule delete_factories_ok)
    show "\<forall>k \<in> set svc. \<exists>a. rt_factory rt k = Some a \<and> rt_heap rt1 a = Some (Factory_cell k (pools k))"
    proof
      fix k assume k: "k \<in> set svc"
      then obtain a where a: "rt_factory rt k = Some a" using d(4) [of k] by auto
      have "a \<in> owned_by (rt_factory rt) svc pools" unfolding owned_by_def using k a by (auto intro!: bexI [of _ k])
      from keep [OF this] d(5) [OF a] a show "\<exists>a. rt_factory rt k = Some a \<and> rt_heap rt1 a = Some (Factory_cell k (pools k))"
        by (simp add: heap1)
    qed
    show "\<forall>k \<in> set svc. distinct (pools k) \<and> (\<forall>obj \<in> set (pools k). rt_heap rt1 obj = Some (Object_cell k))"
    proof (intro ballI conjI)
      fix k obj assume "k \<in> set svc" "obj \<in> set (pools k)"
      then have "obj \<in> owned_by (rt_factory rt) svc pools" by (auto simp: owned_by_def)
      from keep [OF this] d(7) [OF \<open>obj \<in> set (pools k)\<close>] show "rt_heap rt1 obj = Some (Object_cell k)" by (simp add: heap1)
    qed (use d(6) in auto)
  qed (use d(3) in simp)
  moreover have "(\<lambda>k. if k \<in> set svc then None else rt_factory rt1 k) = (\<lambda>_. None)"
  proof
    fix k show "(if k \<in> set svc then None else rt_factory rt1 k) = None" using d(4) [of k] by (auto simp: rt1 f1)
  qed
  ultimately have "foldE delete_factory (map (the \<circ> rt_factory rt) svc) rt1 =
      Inr (rt1\<lparr>rt_heap := h1 |` (- owned_by (rt_factory rt) svc pools), rt_factory := (\<lambda>_. None)\<rparr>)"
    by (simp only: heap1)
  then have "cleanServiceLayer s rt1 = Inr (rt1\<lparr>rt_heap := (h1 |` (- owned_by (rt_factory rt) svc pools))
      (s := Some (Supervisor_cell (rt_logger rt) [] [])), rt_factory := (\<lambda>_. None)\<rparr>)"
    using apart(2) s1 by (simp add: cleanServiceLayer_def update_supervisor_def heap1)
  then show ?thesis by (simp add: rt1)
qed

lemma clean_layers_ok:
  assumes sup: "supervised rt s bom svc pools"
  shows "clean_layers s rt = Inr (rt\<lparr>rt_heap := [s \<mapsto> Supervisor_cell None [] []], rt_factory := (\<lambda>_. None)\<rparr>)"
proof -
  note d = supervisedD [OF sup] and apart = supervised_apart [OF sup] and covers = supervised_covers [OF sup]
  obtain h1 where h1: "h1 = (rt_heap rt |` (- owned_by (rt_factory rt) bom pools))
      (s := Some (Supervisor_cell (rt_logger rt) [] (map (the \<circ> rt_factory rt) svc)))" by blast
  obtain h2 where h2: "h2 = (h1 |` (- owned_by (rt_factory rt) svc pools))(s := Some (Supervisor_cell (rt_logger rt) [] []))" by blast
  let ?f1 = "\<lambda>k. if k \<in> set bom then None else rt_factory rt k"
  let ?rt2 = "rt\<lparr>rt_heap := h2, rt_factory := (\<lambda>_. None)\<rparr>"
  have one: "cleanBomLayer s rt = Inr (rt\<lparr>rt_heap := h1, rt_factory := ?f1\<rparr>)" using clean_bom_ok [OF sup] by (simp only: h1)
  have two: "cleanServiceLayer s (rt\<lparr>rt_heap := h1, rt_factory := ?f1\<rparr>) = Inr ?rt2"
    using clean_service_ok [OF sup refl h1 refl] by (simp only: h2)
  have s2: "h2 s = Some (Supervisor_cell (rt_logger rt) [] [])" by (simp add: h2)
  have same: "h2 a = rt_heap rt a" if "a \<notin> owned_by (rt_factory rt) bom pools" "a \<notin> owned_by (rt_factory rt) svc pools" "a \<noteq> s" for a
    using that by (simp add: h2 h1)
  have gone: "h2 a = None" if "a \<noteq> s" "rt_logger rt \<noteq> Some a" for a
    using that covers [of a] by (auto simp: h2 h1 restrict_map_def)
  have "cleanLoggerService s ?rt2 = Inr (rt\<lparr>rt_heap := [s \<mapsto> Supervisor_cell None [] []], rt_factory := (\<lambda>_. None)\<rparr>)"
  proof (cases "rt_logger rt")
    case None
    have "h2(s := Some (Supervisor_cell None [] [])) = [s \<mapsto> Supervisor_cell None [] []]" using gone None by auto
    then show ?thesis using s2 by (simp add: cleanLoggerService_def update_supervisor_def None)
  next
    case (Some l)
    from d(9) [OF Some] obtain v st where l: "rt_heap rt l = Some (Logger_cell v (Some st))" by blast
    have ne: "l \<noteq> s" using l d(2) by auto
    have l2: "h2 l = Some (Logger_cell v (Some st))" using same [OF apart(3,4) ne] Some l by simp
    have "h2(l := None, s := Some (Supervisor_cell None [] [])) = [s \<mapsto> Supervisor_cell None [] []]" using gone Some ne by auto
    then show ?thesis
      using s2 l2 ne by (simp add: cleanLoggerService_def update_supervisor_def Some delete_logger_def release_def)
  qed
  then show ?thesis by (simp add: clean_layers_def one two)
qed

text \<open>The destructor of the supervisor cleans once more, without effect.\<close>

lemma clean_layers_empty:
  "rt_heap rt = [s \<mapsto> Supervisor_cell None [] []] \<Longrightarrow> clean_layers s rt = Inr rt"
  by (simp add: clean_layers_def cleanBomLayer_def cleanServiceLayer_def cleanLoggerService_def update_supervisor_def)

lemma cleanFactory_ok:
  assumes "memory_ok pools rt"
  shows "\<exists>rt'. cleanFactory rt = Inr rt' \<and> unused rt' \<and> bounded rt' \<and> rt_logger rt' = rt_logger rt"
proof (cases "\<exists>s bom svc. supervised rt s bom svc pools")
  case True
  then obtain s bom svc where sup: "supervised rt s bom svc pools" by blast
  obtain rt1 where rt1: "rt1 = rt\<lparr>rt_heap := [s \<mapsto> Supervisor_cell None [] []], rt_factory := (\<lambda>_. None)\<rparr>" by blast
  have "clean_layers s rt = Inr rt1" using clean_layers_ok [OF sup] by (simp only: rt1)
  moreover have "clean_layers s rt1 = Inr rt1" by (rule clean_layers_empty) (simp add: rt1)
  moreover have "release s rt1 = Inr (rt1\<lparr>rt_heap := (\<lambda>_. None)\<rparr>)" by (simp add: release_def rt1)
  ultimately have "cleanFactory rt = Inr (rt1\<lparr>rt_heap := (\<lambda>_. None), rt_supervisor := None\<rparr>)"
    by (simp add: cleanFactory_def supervisedD(1) [OF sup] delete_supervisor_def)
  then show ?thesis by (simp add: unused_def bounded_def rt1)
next
  case False
  then have "unused rt" "bounded rt" using assms by (auto simp: memory_ok_def)
  then show ?thesis by (simp add: cleanFactory_def unused_def)
qed

lemma objects_are_pools:
  assumes "memory_ok pools rt"
  shows "{a. rt_heap rt a = Some (Object_cell k)} = set (pools k)" and "distinct (pools k)"
proof -
  have "{a. rt_heap rt a = Some (Object_cell k)} = set (pools k) \<and> distinct (pools k)"
  proof (cases "\<exists>s bom svc. supervised rt s bom svc pools")
    case True
    then obtain s bom svc where sup: "supervised rt s bom svc pools" by blast
    have "a \<in> set (pools k)" if "rt_heap rt a = Some (Object_cell k)" for a
      using supervisedD(10) [OF sup that] by (simp add: owned_cell_def)
    then show ?thesis using supervisedD(6,7) [OF sup] by auto
  next
    case False
    then show ?thesis using assms by (auto simp: memory_ok_def unused_def)
  qed
  then show "{a. rt_heap rt a = Some (Object_cell k)} = set (pools k)" "distinct (pools k)" by simp_all
qed

definition is_log :: "memory_op \<Rightarrow> bool" where
  "is_log op = (case op of Write_log _ _ _ _ \<Rightarrow> True | Set_log _ _ \<Rightarrow> True | _ \<Rightarrow> False)"

lemma op_ok:
  assumes "memory_ok pools rt" and "op \<noteq> Clean_all"
  shows "\<exists>pools' rt'. perform_op op rt = Inr rt' \<and> memory_ok pools' rt' \<and>
    (\<forall>k. length (pools' k) = length (pools k) + count_list [op] (Create_object k)) \<and>
    (rt_logger rt' \<noteq> None \<longleftrightarrow> rt_logger rt \<noteq> None \<or> is_log op)"
proof (cases op)
  case (Create_object k)
  from create_object_ok [OF assms(1), of k] obtain obj rt' where c: "create_object k rt = Inr (obj, rt')"
    "memory_ok (pools(k := pools k @ [obj])) rt'" "rt_logger rt' = rt_logger rt" by blast
  show ?thesis
    by (rule exI [of _ "pools(k := pools k @ [obj])"], rule exI [of _ rt']) (use c in \<open>auto simp: Create_object is_log_def\<close>)
next
  case (Write_log level line name msg)
  from write_log_ok [OF assms(1), of level line name msg] obtain rt' where "write_log level line name msg rt = Inr rt'"
    "memory_ok pools rt'" "rt_logger rt' \<noteq> None" by blast
  then show ?thesis by (auto simp: Write_log is_log_def)
next
  case (Set_log level st)
  from setLogParameters_ok [OF assms(1), of level st] obtain rt' where "setLogParameters level st rt = Inr rt'"
    "memory_ok pools rt'" "rt_logger rt' \<noteq> None" by blast
  then show ?thesis by (auto simp: Set_log is_log_def)
qed (use assms(2) in simp)

lemma ops_ok:
  assumes "memory_ok pools rt" and "Clean_all \<notin> set ops"
  shows "\<exists>pools' rt'. foldE perform_op ops rt = Inr rt' \<and> memory_ok pools' rt' \<and>
    (\<forall>k. length (pools' k) = length (pools k) + count_list ops (Create_object k)) \<and>
    (rt_logger rt' \<noteq> None \<longleftrightarrow> rt_logger rt \<noteq> None \<or> (\<exists>op \<in> set ops. is_log op))"
  using assms
proof (induction ops arbitrary: rt pools)
  case (Cons op ops)
  then have "op \<noteq> Clean_all" by auto
  from op_ok [OF Cons.prems(1) this] obtain pools1 rt1 where one: "perform_op op rt = Inr rt1" "memory_ok pools1 rt1"
    "\<forall>k. length (pools1 k) = length (pools k) + count_list [op] (Create_object k)"
    "rt_logger rt1 \<noteq> None \<longleftrightarrow> rt_logger rt \<noteq> None \<or> is_log op" by blast
  from Cons.IH [OF one(2)] Cons.prems(2) obtain pools' rt' where rest: "foldE perform_op ops rt1 = Inr rt'" "memory_ok pools' rt'"
    "\<forall>k. length (pools' k) = length (pools1 k) + count_list ops (Create_object k)"
    "rt_logger rt' \<noteq> None \<longleftrightarrow> rt_logger rt1 \<noteq> None \<or> (\<exists>op \<in> set ops. is_log op)" by auto
  have "\<forall>k. length (pools' k) = length (pools k) + count_list (op # ops) (Create_object k)" using one(3) rest(3) by simp
  moreover have "rt_logger rt' \<noteq> None \<longleftrightarrow> rt_logger rt \<noteq> None \<or> (\<exists>op \<in> set (op # ops). is_log op)" using one(4) rest(4) by auto
  ultimately show ?case using one(1) rest(1,2) by auto
qed auto

section \<open>Properties\<close>

text \<open>C16: Whatever a program creates and logs, in any order, it reads and deletes nothing that is not there, and keeps every object
  that it has created, since nothing but the cleaning deletes one; the cleaning then deletes every cell of the heap, each
  once.\<close>

theorem memory_released:
  assumes "Clean_all \<notin> set ops"
  shows "\<exists>rt rt'. foldE perform_op ops new_runtime = Inr rt \<and>
    (\<forall>k. card {a. rt_heap rt a = Some (Object_cell k)} = count_list ops (Create_object k)) \<and>
    cleanFactory rt = Inr rt' \<and> rt_heap rt' = (\<lambda>_. None) \<and> rt_factory rt' = (\<lambda>_. None) \<and> rt_supervisor rt' = None"
proof -
  from ops_ok [OF new_runtime_ok assms] obtain pools rt where ops: "foldE perform_op ops new_runtime = Inr rt" "memory_ok pools rt"
    "\<forall>k. length (pools k) = count_list ops (Create_object k)" by auto
  have "card {a. rt_heap rt a = Some (Object_cell k)} = count_list ops (Create_object k)" for k
    using objects_are_pools [OF ops(2), of k] ops(3) by (simp add: distinct_card)
  then show ?thesis using ops(1) cleanFactory_ok [OF ops(2)] by (auto simp: unused_def)
qed

theorem memory_released_witness:
  "\<exists>rt rt'. foldE perform_op (service_memory 1 @ service_finalise_memory @ service_memory 1) new_runtime = Inr rt \<and>
     card {a. rt_heap rt a = Some (Object_cell World_pool)} = 2 \<and> cleanFactory rt = Inr rt' \<and> rt_heap rt' = (\<lambda>_. None)"
  using memory_released [of "service_memory 1 @ service_finalise_memory @ service_memory 1"]
  by (auto simp: service_memory_def service_finalise_memory_def)

text \<open>Without logs, the program can be cleaned and go on, any number of times.\<close>

theorem cleaned_and_restarted:
  assumes "\<forall>op \<in> set ops. \<not> is_log op"
  shows "\<exists>rt. foldE perform_op ops new_runtime = Inr rt"
proof -
  have "\<exists>rt'. foldE perform_op ops rt = Inr rt'" if "memory_ok pools rt" "rt_logger rt = None" for pools rt
    using assms that
  proof (induction ops arbitrary: pools rt)
    case (Cons op ops)
    show ?case
    proof (cases "op = Clean_all")
      case True
      from cleanFactory_ok [OF Cons.prems(2)] obtain rt1 where clean: "cleanFactory rt = Inr rt1" "unused rt1" "bounded rt1"
        "rt_logger rt1 = None" using Cons.prems(3) by auto
      then have "memory_ok (\<lambda>_. []) rt1" by (simp add: memory_ok_def)
      from Cons.IH [OF _ this clean(4)] Cons.prems(1) show ?thesis by (simp add: True clean(1))
    next
      case False
      from op_ok [OF Cons.prems(2) False] obtain pools1 rt1 where one: "perform_op op rt = Inr rt1" "memory_ok pools1 rt1"
        "rt_logger rt1 \<noteq> None \<longleftrightarrow> rt_logger rt \<noteq> None \<or> is_log op" by blast
      then have "rt_logger rt1 = None" using Cons.prems(1,3) by auto
      from Cons.IH [OF _ one(2) this] Cons.prems(1) show ?thesis by (simp add: one(1))
    qed
  qed simp
  from this [OF new_runtime_ok] show ?thesis by (simp add: new_runtime_def)
qed

text \<open>C34: Once something has been logged, the static pointer of the logger is left dangling by the cleaning: the next log reads a
  logger that has been deleted.\<close>

theorem logger_dangles:
  assumes "Clean_all \<notin> set ops" and "op \<in> set ops" and "is_log op"
  shows "foldE perform_op (ops @ [Clean_all, Write_log level line name msg]) new_runtime = Inl UndefinedBehaviour"
proof -
  from ops_ok [OF new_runtime_ok assms(1)] assms(2,3) obtain pools rt where ops: "foldE perform_op ops new_runtime = Inr rt"
    "memory_ok pools rt" "rt_logger rt \<noteq> None" by auto
  from cleanFactory_ok [OF ops(2)] ops(3) obtain rt' l where clean: "cleanFactory rt = Inr rt'" "unused rt'" "rt_logger rt' = Some l" by auto
  then show ?thesis by (simp add: foldE_append ops(1) write_log_def Logger_instance_def unused_def)
qed

theorem logger_dangles_witness:
  "foldE perform_op (service_memory 1 @ [Clean_all, Write_log DEBUG 75 ''service'' ''again'']) new_runtime = Inl UndefinedBehaviour"
  by (rule logger_dangles [where op="Set_log DEBUG 1"]) (simp_all add: service_memory_def is_log_def)

end
