(* ===== verification/Timing.thy ===== *)
theory Timing
  imports Prelude Doubles
begin

text \<open>
  The chronometer that times the requests (\<^verbatim>\<open>basic/BasChronometer.cpp\<close>). A time is a number of microseconds of the local clock,
  which is read by the caller of the definitions; a time that was never set is no date.
\<close>

record BasChronometer =
  ch_startTime :: "int option"
  ch_startTimeLaunched :: bool

definition new_BasChronometer :: BasChronometer where
  "new_BasChronometer = \<lparr>ch_startTime = None, ch_startTimeLaunched = False\<rparr>"

definition Chronometer_start :: "int \<Rightarrow> BasChronometer \<Rightarrow> BasChronometer" where
  "Chronometer_start now c = c\<lparr>ch_startTime := Some now, ch_startTimeLaunched := True\<rparr>"

definition Chronometer_elapsed :: "int \<Rightarrow> BasChronometer \<Rightarrow> dbl outcome" where
  "Chronometer_elapsed lStopTime c =
     (if \<not> ch_startTimeLaunched c then Inl AssertionFailure
      else case ch_startTime c of
        None \<Rightarrow> Inl UndefinedBehaviour
      | Some t \<Rightarrow>
          let lElapsedTime = lStopTime - t;
              lElapsedTimeInMicroSeconds = round_dbl (of_int lElapsedTime)
          in Inr (ddiv_const lElapsedTimeInMicroSeconds 1000000))"

text \<open>
  The times are in order when the clock is: a chronometer that has been started gives the seconds, rounded once for less than 285
  years, and they grow with the time that is read. A local clock that is set back, as it is once a year, gives less than nothing.
\<close>

lemma elapsed_started:
  assumes "\<bar>t' - t\<bar> < 2 ^ 53"
  shows "Chronometer_elapsed t' (Chronometer_start t c) = Inr (round_dbl (of_int (t' - t) / 1000000))"
  using assms by (simp add: Chronometer_elapsed_def Chronometer_start_def round_of_int del: of_int_diff)

theorem elapsed_seconds:
  assumes "\<bar>t' - t\<bar> < 2 ^ 53" and "\<bar>t'' - t\<bar> < 2 ^ 53" and "t' \<le> t''"
  shows "\<exists>d' d''. Chronometer_elapsed t' (Chronometer_start t c) = Inr d' \<and>
    Chronometer_elapsed t'' (Chronometer_start t c) = Inr d'' \<and>
    d' = round_dbl (of_int (t' - t) / 1000000) \<and> dle d' d''"
proof -
  have "of_int (t' - t) / 1000000 \<le> (of_int (t'' - t) / 1000000 :: rat)" using assms(3) by (simp add: divide_right_mono)
  then show ?thesis using elapsed_started [OF assms(1)] elapsed_started [OF assms(2)] dle_round by simp
qed

theorem clock_set_back:
  "Chronometer_elapsed (t - 3600000000) (Chronometer_start t c) = Inr (Fin (- 3600)) \<and>
   Chronometer_elapsed t new_BasChronometer = Inl AssertionFailure"
proof
  have "round_dbl (of_int (- 3600)) = Fin (of_int (- 3600))" by (rule round_of_int) simp
  then show "Chronometer_elapsed (t - 3600000000) (Chronometer_start t c) = Inr (Fin (- 3600))"
    using elapsed_started [of "t - 3600000000" t c] by simp
qed (simp add: Chronometer_elapsed_def new_BasChronometer_def)

end
