(* ===== verification/Copies.thy ===== *)
theory Copies
  imports Matches Database PlaceRows
begin

text \<open>
  Copies of locations and of places (\<^verbatim>\<open>basic/Location.cpp\<close>, \<^verbatim>\<open>bom/Place.cpp\<close>). The copy constructor of a location leaves
  out what the parser stages while it reads a row: the elements of the date, the codes of the language and the two lists.

  The other theories pass locations as values. The code copies them, into the lists of the results and into the places: here is
  their copy constructor as it is, with what a copy keeps of the displays, the exports, the rows and the index terms. The copy
  of a place also leaves out its links to other places: it is in Links, which has them, over the copy of the values of a place
  that is here.
\<close>

section \<open>Locations\<close>

definition Location_copy :: "Location \<Rightarrow> Location" where
  "Location_copy iLocation =
    \<lparr>loc_key = loc_key iLocation,
     loc_icaoCode = loc_icaoCode iLocation, loc_faaCode = loc_faaCode iLocation,
     loc_commonName = loc_commonName iLocation, loc_asciiName = loc_asciiName iLocation,
     loc_altNameShortListString = loc_altNameShortListString iLocation,
     loc_tvlPORListString = loc_tvlPORListString iLocation,
     loc_envelopeID = loc_envelopeID iLocation,
     loc_dateFrom = loc_dateFrom iLocation, loc_dateEnd = loc_dateEnd iLocation,
     loc_comment = loc_comment iLocation,
     loc_cityCode = loc_cityCode iLocation,
     loc_cityUtfName = loc_cityUtfName iLocation,
     loc_cityAsciiName = loc_cityAsciiName iLocation,
     loc_cityGeonamesID = loc_cityGeonamesID iLocation,
     loc_stateCode = loc_stateCode iLocation, loc_countryCode = loc_countryCode iLocation,
     loc_altCountryCode = loc_altCountryCode iLocation,
     loc_countryName = loc_countryName iLocation,
     loc_continentCode = loc_continentCode iLocation,
     loc_continentName = loc_continentName iLocation,
     loc_latitude = loc_latitude iLocation, loc_longitude = loc_longitude iLocation,
     loc_featClass = loc_featClass iLocation, loc_featCode = loc_featCode iLocation,
     loc_admin1Code = loc_admin1Code iLocation,
     loc_admin1UtfName = loc_admin1UtfName iLocation,
     loc_admin1AsciiName = loc_admin1AsciiName iLocation,
     loc_admin2Code = loc_admin2Code iLocation,
     loc_admin2UtfName = loc_admin2UtfName iLocation,
     loc_admin2AsciiName = loc_admin2AsciiName iLocation,
     loc_admin3Code = loc_admin3Code iLocation, loc_admin4Code = loc_admin4Code iLocation,
     loc_population = loc_population iLocation, loc_elevation = loc_elevation iLocation,
     loc_gTopo30 = loc_gTopo30 iLocation,
     loc_timeZone = loc_timeZone iLocation, loc_gmtOffset = loc_gmtOffset iLocation,
     loc_dstOffset = loc_dstOffset iLocation, loc_rawOffset = loc_rawOffset iLocation,
     loc_modificationDate = loc_modificationDate iLocation,
     loc_wikiLink = loc_wikiLink iLocation, loc_pageRank = loc_pageRank iLocation,
     loc_nameMatrix = loc_nameMatrix iLocation,
     loc_originalKeywords = loc_originalKeywords iLocation,
     loc_correctedKeywords = loc_correctedKeywords iLocation,
     loc_percentage = loc_percentage iLocation,
     loc_editDistance = loc_editDistance iLocation,
     loc_allowableEditDistance = loc_allowableEditDistance iLocation,
     loc_rawDataString = loc_rawDataString iLocation,
     loc_itYear = None, loc_itMonth = None, loc_itDay = None,
     loc_itLanguageCodeNum = loc_itLanguageCodeNum iLocation,
     loc_itLanguageCode = '''',
     loc_itLangCode2Char = '''', loc_itLangCodeExt = '''', loc_itLangCodeHist = '''',
     loc_itAltNameShortList = [], loc_itTvlPORList = []\<rparr>"

text \<open>With its lists of extra and alternate matches, whose elements are copied in turn.\<close>

fun MatchedLocation_copy :: "MatchedLocation \<Rightarrow> MatchedLocation" where
  "MatchedLocation_copy (Matched l lExtraLocationList lAltLocationList) =
     Matched (Location_copy l) (map MatchedLocation_copy lExtraLocationList) (map MatchedLocation_copy lAltLocationList)"

section \<open>Places\<close>

definition Place_of_location :: "Location \<Rightarrow> Place" where
  "Place_of_location iLocation = new_Place (Location_copy iLocation)"

text \<open>The values of the copy of a place; its links are in the theory Links.\<close>

definition copied_place :: "Place \<Rightarrow> Place" where
  "copied_place iPlace =
     \<lparr>pl_location = Location_copy (pl_location iPlace), pl_docID = pl_docID iPlace, pl_termSetMap = pl_termSetMap iPlace,
      pl_spellingSet = pl_spellingSet iPlace, pl_stemmingSet = pl_stemmingSet iPlace, pl_synonymSet = pl_synonymSet iPlace\<rparr>"

section \<open>What a copy keeps\<close>

named_theorems copy_simps "what is read of a copy"

lemma copied_fields [copy_simps]:
  "loc_key (Location_copy l) = loc_key l" "loc_icaoCode (Location_copy l) = loc_icaoCode l"
  "loc_faaCode (Location_copy l) = loc_faaCode l" "loc_commonName (Location_copy l) = loc_commonName l"
  "loc_asciiName (Location_copy l) = loc_asciiName l" "loc_tvlPORListString (Location_copy l) = loc_tvlPORListString l"
  "loc_envelopeID (Location_copy l) = loc_envelopeID l" "loc_dateFrom (Location_copy l) = loc_dateFrom l"
  "loc_dateEnd (Location_copy l) = loc_dateEnd l" "loc_comment (Location_copy l) = loc_comment l"
  "loc_cityCode (Location_copy l) = loc_cityCode l" "loc_cityUtfName (Location_copy l) = loc_cityUtfName l"
  "loc_cityAsciiName (Location_copy l) = loc_cityAsciiName l" "loc_cityGeonamesID (Location_copy l) = loc_cityGeonamesID l"
  "loc_stateCode (Location_copy l) = loc_stateCode l" "loc_countryCode (Location_copy l) = loc_countryCode l"
  "loc_altCountryCode (Location_copy l) = loc_altCountryCode l" "loc_countryName (Location_copy l) = loc_countryName l"
  "loc_continentCode (Location_copy l) = loc_continentCode l" "loc_continentName (Location_copy l) = loc_continentName l"
  "loc_latitude (Location_copy l) = loc_latitude l" "loc_longitude (Location_copy l) = loc_longitude l"
  "loc_featClass (Location_copy l) = loc_featClass l" "loc_featCode (Location_copy l) = loc_featCode l"
  "loc_admin1Code (Location_copy l) = loc_admin1Code l" "loc_admin1UtfName (Location_copy l) = loc_admin1UtfName l"
  "loc_admin1AsciiName (Location_copy l) = loc_admin1AsciiName l" "loc_admin2Code (Location_copy l) = loc_admin2Code l"
  "loc_admin2UtfName (Location_copy l) = loc_admin2UtfName l" "loc_admin2AsciiName (Location_copy l) = loc_admin2AsciiName l"
  "loc_admin3Code (Location_copy l) = loc_admin3Code l" "loc_admin4Code (Location_copy l) = loc_admin4Code l"
  "loc_population (Location_copy l) = loc_population l" "loc_elevation (Location_copy l) = loc_elevation l"
  "loc_gTopo30 (Location_copy l) = loc_gTopo30 l" "loc_timeZone (Location_copy l) = loc_timeZone l"
  "loc_gmtOffset (Location_copy l) = loc_gmtOffset l" "loc_dstOffset (Location_copy l) = loc_dstOffset l"
  "loc_rawOffset (Location_copy l) = loc_rawOffset l" "loc_modificationDate (Location_copy l) = loc_modificationDate l"
  "loc_wikiLink (Location_copy l) = loc_wikiLink l" "loc_pageRank (Location_copy l) = loc_pageRank l"
  "loc_nameMatrix (Location_copy l) = loc_nameMatrix l" "loc_originalKeywords (Location_copy l) = loc_originalKeywords l"
  "loc_correctedKeywords (Location_copy l) = loc_correctedKeywords l" "loc_percentage (Location_copy l) = loc_percentage l"
  "loc_editDistance (Location_copy l) = loc_editDistance l"
  "loc_allowableEditDistance (Location_copy l) = loc_allowableEditDistance l"
  "loc_rawDataString (Location_copy l) = loc_rawDataString l"
  by (simp_all only: Location_copy_def Location.select_convs)

lemma copied_displays [copy_simps]:
  "toBasicString out (Location_copy l) = toBasicString out l" "Location_toString out (Location_copy l) = Location_toString out l"
  "exportLocation iso_date (Location_copy l) = exportLocation iso_date l"
  "jsonExportLocation pt t (Location_copy l) = jsonExportLocation pt t l"
  unfolding Location_toString_def toBasicString_def describeShortKey_def exportLocation_def jsonExportLocation_def copy_simps
  by (rule refl)+

lemma MatchedLocation_copy_parts [copy_simps]:
  "m_location (MatchedLocation_copy m) = Location_copy (m_location m)"
  "m_extraLocationList (MatchedLocation_copy m) = map MatchedLocation_copy (m_extraLocationList m)"
  "m_alternateLocationList (MatchedLocation_copy m) = map MatchedLocation_copy (m_alternateLocationList m)"
  by (cases m; simp)+

lemma copied_short_string [copy_simps]: "toShortString out (MatchedLocation_copy m) = toShortString out m"
  by (simp add: toShortString_def copy_simps)

lemma copied_matches_string [copy_simps]: "matches_string out (map MatchedLocation_copy ms) idx = matches_string out ms idx"
  by (induction ms arbitrary: idx) (simp_all add: copy_simps)

lemma copied_match_string: "MatchedLocation_toString out (MatchedLocation_copy m) = MatchedLocation_toString out m"
  by (simp add: MatchedLocation_toString_def toSingleLocationString_def copy_simps)

lemma mapE_map: "mapE f (map g xs) = mapE (\<lambda>x. f (g x)) xs"
  by (induction xs) simp_all

lemma copied_match: "exportMatchedLocation iso_date (MatchedLocation_copy m) = exportMatchedLocation iso_date m"
proof (induction m)
  case (Matched l extra alt)
  then show ?case by (simp add: copy_simps mapE_map cong: mapE_cong)
qed

lemma copied_json_matches [copy_simps]:
  "json_matches pt key (map MatchedLocation_copy ms) t = json_matches pt key ms t"
  by (simp add: json_matches_def fold_map comp_def copy_simps)

lemma copied_json: "jsonExportLocationList pt (map MatchedLocation_copy ms) = jsonExportLocationList pt ms"
  by (simp add: jsonExportLocationList_def fold_map comp_def copy_simps)

text \<open>The index sets: copying the location of a place leaves its sets alone.\<close>

interpretation copied: relabelling "\<lambda>p. p\<lparr>pl_location := Location_copy (pl_location p)\<rparr>"
  by unfold_locales simp_all

lemma copied_place_eq: "copied_place p = p\<lparr>pl_location := Location_copy (pl_location p)\<rparr>"
  by (cases p) (simp add: copied_place_def)

lemma copied_steps [copy_simps]:
  "page_rank_weight (Location_copy l) = page_rank_weight l" "index_codes w (Location_copy l) = index_codes w l"
  "index_divisions (Location_copy l) = index_divisions l"
  "name_pairs w t (Location_copy l) = name_pairs w t l"
  by (simp_all only: page_rank_weight_def index_codes_def [abs_def] index_divisions_def [abs_def] name_pairs_def copy_simps)

lemma copied_index_names [copy_simps]: "index_names tkz normalise (Location_copy l) = index_names tkz normalise l"
  by (simp only: index_names_def [abs_def] index_name_def addNameToXapianSets_def copy_simps)

lemma copied_index_sets:
  "buildIndexSets tkz normalise (copied_place p) = map_result copied_place (buildIndexSets tkz normalise p)"
  unfolding copied_place_eq by (rule copied.buildIndexSets_label) (simp_all add: copy_simps)

lemma copied_document:
  "addDocumentToIndex xops tkz normalise (copied_place p) db =
   map_result (\<lambda>(p', db'). (copied_place p', db')) (addDocumentToIndex xops tkz normalise p db)"
proof -
  have "addToXapian xops (copied_place p') = addToXapian xops p'" for p'
    by (intro ext) (simp add: addToXapian_def copied_place_def)
  moreover have "setDocID d (copied_place p') = copied_place (setDocID d p')" for d p'
    by (simp add: setDocID_def copied_place_def)
  moreover have "pl_location (copied_place p) = Location_copy (pl_location p)" by (simp add: copied_place_def)
  ultimately show ?thesis
    unfolding addDocumentToIndex_def copied_index_sets
    by (simp add: copy_simps map_result_def bindE_assoc split_def)
qed

lemma copied_row [copy_simps]: "por_row iso_date (copied_place p) = por_row iso_date p"
  by (simp add: por_row_def Let_def isGeonames_def copied_place_def copy_simps)

lemma copied_to_base [copy_simps]: "to_base ops (copied_place p) = to_base ops p"
  by (simp add: to_base_def [abs_def] Let_def isGeonames_def copied_place_def copy_simps)

lemma copied_date: "calculateDate valid_ymd (Location_copy l) = Inl UndefinedBehaviour"
  by (simp add: calculateDate_def element_check_def Location_copy_def)

section \<open>Properties\<close>

text \<open>Copying again changes nothing more, and a place copied from a location is the place of the copy.\<close>

theorem copy_twice:
  "Location_copy (Location_copy l) = Location_copy l \<and> copied_place (copied_place p) = copied_place p \<and>
   copied_place (Place_of_location l) = Place_of_location l"
  by (simp add: Location_copy_def copied_place_def Place_of_location_def new_Place_def)

end
