(* ===== verification/Links.thy ===== *)
theory Links
  imports Copies Interpreter "HOL-Library.Multiset"
begin

text \<open>
  The links between the objects: the extra and alternate places of a place (\<^verbatim>\<open>factory/FacPlace.cpp\<close>, \<^verbatim>\<open>bom/Place.cpp\<close>), the places
  of a holder (\<^verbatim>\<open>factory/FacPlaceHolder.cpp\<close>, \<^verbatim>\<open>bom/PlaceHolder.cpp\<close>) and those of a world (\<^verbatim>\<open>factory/FacWorld.cpp\<close>,
  \<^verbatim>\<open>bom/World.cpp\<close>), with the displays that follow them.

  The links are pointers, and a place may be reached by several: the places are in a store, a partial map from references, and
  reading a place that is not there is undefined. The theory Interpreter passes the places of a holder as values, without links:
  \<open>linked_locations\<close> shows that the locations of a request are the same.
\<close>

section \<open>The store of places\<close>

type_synonym place_ref = nat

record linked_place =
  lp_place :: Place
  lp_extraLocationList :: "MatchedLocation list"
  lp_alternateLocationList :: "MatchedLocation list"
  lp_extraPlaceList :: "place_ref list"
  lp_alternatePlaceList :: "place_ref list"
  lp_mainPlace :: "place_ref option"
  lp_placeHolder :: "nat option"
  lp_world :: "nat option"

type_synonym place_store = "place_ref \<Rightarrow> linked_place option"

definition unlinked :: "Place \<Rightarrow> linked_place" where
  "unlinked p = \<lparr>lp_place = p, lp_extraLocationList = [], lp_alternateLocationList = [], lp_extraPlaceList = [],
     lp_alternatePlaceList = [], lp_mainPlace = None, lp_placeHolder = None, lp_world = None\<rparr>"

text \<open>The location of a place, with its lists of extra and alternate locations.\<close>

definition getLocation :: "linked_place \<Rightarrow> MatchedLocation" where
  "getLocation p = Matched (pl_location (lp_place p)) (lp_extraLocationList p) (lp_alternateLocationList p)"

text \<open>The copy constructor of a place copies its location, with the lists of locations, and its links to the objects above it; the
  lists of its extra and alternate places are not copied.\<close>

definition Place_copy :: "linked_place \<Rightarrow> linked_place" where
  "Place_copy iPlace =
     \<lparr>lp_place = copied_place (lp_place iPlace),
      lp_extraLocationList = map MatchedLocation_copy (lp_extraLocationList iPlace),
      lp_alternateLocationList = map MatchedLocation_copy (lp_alternateLocationList iPlace),
      lp_extraPlaceList = [], lp_alternatePlaceList = [],
      lp_mainPlace = lp_mainPlace iPlace, lp_placeHolder = lp_placeHolder iPlace, lp_world = lp_world iPlace\<rparr>"

definition read_place :: "place_store \<Rightarrow> place_ref \<Rightarrow> linked_place outcome" where
  "read_place st a = (case st a of None \<Rightarrow> Inl UndefinedBehaviour | Some p \<Rightarrow> Inr p)"

definition update_place :: "place_ref \<Rightarrow> (linked_place \<Rightarrow> linked_place) \<Rightarrow> place_store \<Rightarrow> place_store outcome" where
  "update_place a f st = bindE (read_place st a) (\<lambda>p. Inr (st(a \<mapsto> f p)))"

definition initLinkWithExtraPlace :: "place_ref \<Rightarrow> place_ref \<Rightarrow> place_store \<Rightarrow> place_store outcome" where
  "initLinkWithExtraPlace ioMainPlace ioExtraPlace st =
     bindE (update_place ioExtraPlace (\<lambda>p. p\<lparr>lp_mainPlace := Some ioMainPlace\<rparr>) st)
       (update_place ioMainPlace (\<lambda>p. p\<lparr>lp_extraPlaceList := lp_extraPlaceList p @ [ioExtraPlace]\<rparr>))"

definition initLinkWithAlternatePlace :: "place_ref \<Rightarrow> place_ref \<Rightarrow> place_store \<Rightarrow> place_store outcome" where
  "initLinkWithAlternatePlace ioMainPlace ioAlternatePlace st =
     bindE (update_place ioAlternatePlace (\<lambda>p. p\<lparr>lp_mainPlace := Some ioMainPlace\<rparr>) st)
       (update_place ioMainPlace (\<lambda>p. p\<lparr>lp_alternatePlaceList := lp_alternatePlaceList p @ [ioAlternatePlace]\<rparr>))"

section \<open>The displays of a place\<close>

definition Place_toShortString :: "stream_output \<Rightarrow> linked_place \<Rightarrow> string outcome" where
  "Place_toShortString out p =
     bindE (toShortString out (getLocation p)) (\<lambda>lLocation. Inr (lLocation @ '', '' @ show_int (pl_docID (lp_place p)) @
       (if lp_extraPlaceList p \<noteq> [] then '' '' @ show_nat (length (lp_extraPlaceList p)) @ '' extra match(es)'' else []) @
       (if lp_alternatePlaceList p \<noteq> [] then
          '' '' @ show_nat (length (lp_alternatePlaceList p)) @ '' alternate match(es)'' else [])))"

fun places_string :: "stream_output \<Rightarrow> place_store \<Rightarrow> place_ref list \<Rightarrow> 16 word \<Rightarrow> string outcome" where
  "places_string out st [] idx = Inr []"
| "places_string out st (a # as) idx =
     bindE (read_place st a) (\<lambda>p.
     bindE (Place_toShortString out p) (\<lambda>s.
     bindE (places_string out st as (idx + 1)) (\<lambda>rest. Inr ((if idx \<noteq> 0 then ''; '' else []) @ s @ rest))))"

definition Place_toString :: "stream_output \<Rightarrow> place_store \<Rightarrow> linked_place \<Rightarrow> string outcome" where
  "Place_toString out st p =
     bindE (MatchedLocation_toString out (getLocation p)) (\<lambda>lLocation.
     bindE (if lp_extraPlaceList p \<noteq> [] then
              bindE (places_string out st (lp_extraPlaceList p) 0) (\<lambda>s. Inr (''; Extra matches: {'' @ s @ ''}''))
            else Inr []) (\<lambda>lExtra.
     bindE (if lp_alternatePlaceList p \<noteq> [] then
              bindE (places_string out st (lp_alternatePlaceList p) 0) (\<lambda>s. Inr (''; Alternate matches: {'' @ s @ ''}''))
            else Inr []) (\<lambda>lAlternate.
       Inr (lLocation @ '', '' @ show_int (pl_docID (lp_place p)) @ ''. '' @ lExtra @ lAlternate))))"

definition Place_display :: "stream_output \<Rightarrow> Place \<Rightarrow> string outcome" where
  "Place_display out p = bindE (shortDisplay out p) (\<lambda>s. Inr (s @ [CHR 0x0A]))"

section \<open>Completing a location\<close>

text \<open>The names in American English are only looked for to log their absence, with the display of the place.\<close>

definition push_extra :: "place_ref \<Rightarrow> place_ref \<Rightarrow> place_store \<Rightarrow> place_store outcome" where
  "push_extra a lExtraPlace st =
     bindE (read_place st lExtraPlace) (\<lambda>e.
       update_place a (\<lambda>p. p\<lparr>lp_extraLocationList := lp_extraLocationList p @ [MatchedLocation_copy (getLocation e)]\<rparr>) st)"

definition push_alternate :: "place_ref \<Rightarrow> place_ref \<Rightarrow> place_store \<Rightarrow> place_store outcome" where
  "push_alternate a lAlternatePlace st =
     bindE (read_place st lAlternatePlace) (\<lambda>e.
       update_place a (\<lambda>p. p\<lparr>lp_alternateLocationList := lp_alternateLocationList p @ [MatchedLocation_copy (getLocation e)]\<rparr>) st)"

definition completeLocation :: "stream_output \<Rightarrow> place_ref \<Rightarrow> place_store \<Rightarrow> (MatchedLocation \<times> place_store) outcome" where
  "completeLocation out a st =
     bindE (read_place st a) (\<lambda>p.
     bindE (if fst (getNameList (loc_nameMatrix (pl_location (lp_place p))) ''en_US'' []) then Inr []
            else Place_toShortString out p) (\<lambda>logged.
     bindE (foldE (push_extra a) (lp_extraPlaceList p) st) (\<lambda>st.
     bindE (foldE (push_alternate a) (lp_alternatePlaceList p) st) (\<lambda>st.
     bindE (read_place st a) (\<lambda>p. Inr (getLocation p, st))))))"

section \<open>Place holders\<close>

text \<open>A multimap, as the list of its entries: an entry is inserted after those of the same key.\<close>

fun mm_insert :: "'k::linorder \<Rightarrow> 'v \<Rightarrow> ('k \<times> 'v) list \<Rightarrow> ('k \<times> 'v) list" where
  "mm_insert k v [] = [(k, v)]"
| "mm_insert k v ((k', v') # m) = (if k < k' then (k, v) # (k', v') # m else (k', v') # mm_insert k v m)"

record linked_holder =
  lh_placeList :: "(string \<times> place_ref) list"
  lh_placeOrderedList :: "place_ref list"

definition new_linked_holder :: linked_holder where
  "new_linked_holder = \<lparr>lh_placeList = [], lh_placeOrderedList = []\<rparr>"

definition initLinkWithPlace :: "nat \<Rightarrow> place_ref \<Rightarrow> linked_holder \<times> place_store \<Rightarrow> (linked_holder \<times> place_store) outcome" where
  "initLinkWithPlace ioPlaceHolder ioPlace = (\<lambda>(h, st).
     bindE (update_place ioPlace (\<lambda>p. p\<lparr>lp_placeHolder := Some ioPlaceHolder\<rparr>) st) (\<lambda>st.
     bindE (read_place st ioPlace) (\<lambda>p.
     bindE (describeShortKey (pl_location (lp_place p))) (\<lambda>lKey.
       Inr (h\<lparr>lh_placeList := mm_insert lKey ioPlace (lh_placeList h), lh_placeOrderedList := lh_placeOrderedList h @ [ioPlace]\<rparr>,
            st)))))"

fun holder_lines :: "(linked_place \<Rightarrow> string outcome) \<Rightarrow> place_store \<Rightarrow> place_ref list \<Rightarrow> string outcome" where
  "holder_lines display st [] = Inr []"
| "holder_lines display st (a # as) =
     bindE (read_place st a) (\<lambda>p.
     bindE (display p) (\<lambda>s.
     bindE (holder_lines display st as) (\<lambda>rest. Inr (s @ [CHR 0x0A] @ rest))))"

definition PlaceHolder_toString :: "stream_output \<Rightarrow> place_store \<Rightarrow> linked_holder \<Rightarrow> string outcome" where
  "PlaceHolder_toString out st h =
     bindE (holder_lines (Place_toString out st) st (lh_placeOrderedList h)) (\<lambda>s. Inr ([CHR 0x0A] @ s))"

definition PlaceHolder_toShortString :: "stream_output \<Rightarrow> place_store \<Rightarrow> linked_holder \<Rightarrow> string outcome" where
  "PlaceHolder_toShortString out st h =
     bindE (holder_lines (Place_toShortString out) st (lh_placeOrderedList h)) (\<lambda>s. Inr ([CHR 0x0A] @ s))"

definition linked_createLocations ::
    "stream_output \<Rightarrow> linked_holder \<Rightarrow> MatchedLocation list \<times> place_store \<Rightarrow> (MatchedLocation list \<times> place_store) outcome" where
  "linked_createLocations out h s =
     foldE (\<lambda>a (ioLocationList, st).
         bindE (completeLocation out a st) (\<lambda>(lLocation, st). Inr (ioLocationList @ [MatchedLocation_copy lLocation], st)))
       (lh_placeOrderedList h) s"

section \<open>Worlds\<close>

datatype EN_BomType = WORLD | PLACE | AIRLINE | COUNTRY | DAY | MONTH | PASSENGER | LAST_BOM_TYPE

fun BomType_getLabel :: "EN_BomType \<Rightarrow> string outcome" where
  "BomType_getLabel WORLD = Inr ''World''"
| "BomType_getLabel PLACE = Inr ''Place''"
| "BomType_getLabel AIRLINE = Inr ''Airline''"
| "BomType_getLabel COUNTRY = Inr ''Country''"
| "BomType_getLabel DAY = Inr ''Day''"
| "BomType_getLabel MONTH = Inr ''Month''"
| "BomType_getLabel PASSENGER = Inr ''Passenger''"
| "BomType_getLabel LAST_BOM_TYPE = Inl UndefinedBehaviour"

text \<open>The map is indexed by the identifier of the document.\<close>

record World =
  wo_genericBomList :: "(int, EN_BomType \<times> place_ref) omap"
  wo_placeOrderedList :: "place_ref list"

definition new_World :: World where
  "new_World = \<lparr>wo_genericBomList = om_empty, wo_placeOrderedList = []\<rparr>"

definition linkPlaceToWorld :: "bool \<Rightarrow> nat \<Rightarrow> place_ref \<Rightarrow> World \<times> place_store \<Rightarrow> (World \<times> place_store) outcome" where
  "linkPlaceToWorld iNeedsGeneric ioWorld ioPlace = (\<lambda>(w, st).
     bindE (update_place ioPlace (\<lambda>p. p\<lparr>lp_world := Some ioWorld\<rparr>) st) (\<lambda>st.
     bindE (read_place st ioPlace) (\<lambda>p.
       let lDocID = pl_docID (lp_place p)
       in bindE (if iNeedsGeneric then
                   (case om_find (wo_genericBomList w) lDocID of
                      Some _ \<Rightarrow> Inl AssertionFailure
                    | None \<Rightarrow> Inr (w\<lparr>wo_genericBomList := om_put lDocID (PLACE, ioPlace) (wo_genericBomList w)\<rparr>))
                 else Inr w) (\<lambda>w.
            Inr (w\<lparr>wo_placeOrderedList := wo_placeOrderedList w @ [ioPlace]\<rparr>, st)))))"

definition getGenericBom :: "int \<Rightarrow> World \<Rightarrow> EN_BomType \<times> place_ref option" where
  "getGenericBom iDocID w =
     (case om_find (wo_genericBomList w) iDocID of
        Some (lType, a) \<Rightarrow> (lType, Some a)
      | None \<Rightarrow> (LAST_BOM_TYPE, None))"

fun world_places :: "stream_output \<Rightarrow> place_store \<Rightarrow> place_ref list \<Rightarrow> string outcome" where
  "world_places out st [] = Inr []"
| "world_places out st (a # as) =
     bindE (read_place st a) (\<lambda>p.
     bindE (Place_display out (lp_place p)) (\<lambda>s.
     bindE (world_places out st as) (\<lambda>rest. Inr (s @ rest))))"

definition World_display :: "stream_output \<Rightarrow> place_store \<Rightarrow> World \<Rightarrow> string outcome" where
  "World_display out st w = world_places out st (wo_placeOrderedList w)"

section \<open>What completing does\<close>

definition linked_copies :: "place_store \<Rightarrow> place_ref list \<Rightarrow> MatchedLocation list" where
  "linked_copies st as = map (\<lambda>a. MatchedLocation_copy (getLocation (the (st a)))) as"

definition completed :: "place_store \<Rightarrow> linked_place \<Rightarrow> linked_place" where
  "completed st p = p\<lparr>lp_extraLocationList := lp_extraLocationList p @ linked_copies st (lp_extraPlaceList p),
     lp_alternateLocationList := lp_alternateLocationList p @ linked_copies st (lp_alternatePlaceList p)\<rparr>"

text \<open>A place that can be displayed, whose links lead to other places, outside a set.\<close>

definition well_linked :: "stream_output \<Rightarrow> place_ref set \<Rightarrow> place_store \<Rightarrow> linked_place \<Rightarrow> bool" where
  "well_linked out A st p \<longleftrightarrow> (\<exists>s. toBasicString out (pl_location (lp_place p)) = Inr s) \<and>
     (\<forall>x \<in> set (lp_extraPlaceList p @ lp_alternatePlaceList p). x \<notin> A \<and> st x \<noteq> None)"

lemma linked_copies_upd: "a \<notin> set as \<Longrightarrow> linked_copies (st(a \<mapsto> p)) as = linked_copies st as"
  by (auto simp: linked_copies_def)

lemma linked_copies_Cons: "linked_copies st (x # as) = MatchedLocation_copy (getLocation (the (st x))) # linked_copies st as"
  by (simp add: linked_copies_def)

lemma linked_copies_Nil: "linked_copies st [] = []"
  by (simp add: linked_copies_def)

lemma push_one:
  assumes "st x = Some e" and "st a = Some p"
  shows "push_extra a x st = Inr (st(a \<mapsto> p\<lparr>lp_extraLocationList := lp_extraLocationList p @ linked_copies st [x]\<rparr>))"
    and "push_alternate a x st = Inr (st(a \<mapsto> p\<lparr>lp_alternateLocationList := lp_alternateLocationList p @ linked_copies st [x]\<rparr>))"
  using assms by (simp_all add: push_extra_def push_alternate_def read_place_def update_place_def linked_copies_def)

lemma push_extras:
  assumes "\<forall>x \<in> set as. x \<noteq> a \<and> st x \<noteq> None" and "st a = Some p"
  shows "foldE (push_extra a) as st =
    Inr (st(a \<mapsto> p\<lparr>lp_extraLocationList := lp_extraLocationList p @ linked_copies st as\<rparr>))"
  using assms
proof (induction as arbitrary: st p)
  case (Cons x as)
  from Cons.prems obtain e where e: "st x = Some e" "x \<noteq> a" by auto
  let ?p = "p\<lparr>lp_extraLocationList := lp_extraLocationList p @ [MatchedLocation_copy (getLocation e)]\<rparr>"
  have "a \<notin> set as" using Cons.prems(1) by auto
  then have copies: "linked_copies (st(a \<mapsto> ?p)) as = linked_copies st as" by (rule linked_copies_upd)
  have "foldE (push_extra a) (x # as) st = foldE (push_extra a) as (st(a \<mapsto> ?p))"
    using push_one(1) [OF e(1) Cons.prems(2)] by (simp add: linked_copies_Cons linked_copies_Nil e)
  also have "\<dots> =
      Inr (st(a \<mapsto> ?p, a \<mapsto> ?p\<lparr>lp_extraLocationList := lp_extraLocationList ?p @ linked_copies (st(a \<mapsto> ?p)) as\<rparr>))"
    using Cons.prems by (intro Cons.IH) auto
  also have "\<dots> = Inr (st(a \<mapsto> p\<lparr>lp_extraLocationList := lp_extraLocationList p @ linked_copies st (x # as)\<rparr>))"
    unfolding copies by (simp add: linked_copies_Cons e)
  finally show ?case .
qed (simp add: linked_copies_def fun_upd_idem)

lemma push_alternates:
  assumes "\<forall>x \<in> set as. x \<noteq> a \<and> st x \<noteq> None" and "st a = Some p"
  shows "foldE (push_alternate a) as st =
    Inr (st(a \<mapsto> p\<lparr>lp_alternateLocationList := lp_alternateLocationList p @ linked_copies st as\<rparr>))"
  using assms
proof (induction as arbitrary: st p)
  case (Cons x as)
  from Cons.prems obtain e where e: "st x = Some e" "x \<noteq> a" by auto
  let ?p = "p\<lparr>lp_alternateLocationList := lp_alternateLocationList p @ [MatchedLocation_copy (getLocation e)]\<rparr>"
  have "a \<notin> set as" using Cons.prems(1) by auto
  then have copies: "linked_copies (st(a \<mapsto> ?p)) as = linked_copies st as" by (rule linked_copies_upd)
  have "foldE (push_alternate a) (x # as) st = foldE (push_alternate a) as (st(a \<mapsto> ?p))"
    using push_one(2) [OF e(1) Cons.prems(2)] by (simp add: linked_copies_Cons linked_copies_Nil e)
  also have "\<dots> =
      Inr (st(a \<mapsto> ?p, a \<mapsto> ?p\<lparr>lp_alternateLocationList := lp_alternateLocationList ?p @ linked_copies (st(a \<mapsto> ?p)) as\<rparr>))"
    using Cons.prems by (intro Cons.IH) auto
  also have "\<dots> = Inr (st(a \<mapsto> p\<lparr>lp_alternateLocationList := lp_alternateLocationList p @ linked_copies st (x # as)\<rparr>))"
    unfolding copies by (simp add: linked_copies_Cons e)
  finally show ?case .
qed (simp add: linked_copies_def fun_upd_idem)

lemma completeLocation_ok:
  assumes "st a = Some p" and "a \<in> A" and "well_linked out A st p"
  shows "completeLocation out a st = Inr (getLocation (completed st p), st(a \<mapsto> completed st p))"
proof -
  let ?p = "p\<lparr>lp_extraLocationList := lp_extraLocationList p @ linked_copies st (lp_extraPlaceList p)\<rparr>"
  obtain s where s: "toBasicString out (pl_location (lp_place p)) = Inr s"
    and out: "\<forall>x \<in> set (lp_extraPlaceList p @ lp_alternatePlaceList p). x \<noteq> a \<and> st x \<noteq> None"
    using assms unfolding well_linked_def by blast
  have extra: "foldE (push_extra a) (lp_extraPlaceList p) st = Inr (st(a \<mapsto> ?p))"
    using out assms(1) by (intro push_extras) auto
  have "foldE (push_alternate a) (lp_alternatePlaceList p) (st(a \<mapsto> ?p)) = Inr (st(a \<mapsto> ?p, a \<mapsto> ?p
      \<lparr>lp_alternateLocationList := lp_alternateLocationList ?p @ linked_copies (st(a \<mapsto> ?p)) (lp_alternatePlaceList p)\<rparr>))"
    using out by (intro push_alternates) auto
  moreover have "linked_copies (st(a \<mapsto> ?p)) (lp_alternatePlaceList p) = linked_copies st (lp_alternatePlaceList p)"
    using out by (intro linked_copies_upd) auto
  ultimately have alternate: "foldE (push_alternate a) (lp_alternatePlaceList p) (st(a \<mapsto> ?p)) = Inr (st(a \<mapsto> completed st p))"
    by (simp add: completed_def)
  have "\<exists>t. Place_toShortString out p = Inr t" by (simp add: Place_toShortString_def toShortString_def getLocation_def s)
  then obtain t where "Place_toShortString out p = Inr t" by blast
  then show ?thesis
    using assms(1) extra alternate by (simp add: completeLocation_def read_place_def)
qed

lemma update_place_ok: "st a = Some p \<Longrightarrow> update_place a f st = Inr (st(a \<mapsto> f p))"
  by (simp add: update_place_def read_place_def)

lemma toBasicString_key: "toBasicString out l = Inr s \<Longrightarrow> \<exists>k. describeShortKey l = Inr k"
  by (auto simp: toBasicString_def bindE_Inr_iff)

text \<open>The holder of some places: its ordered list has them in order, its map under their keys.\<close>

lemma mset_mm_insert: "mset (mm_insert k v m) = add_mset (k, v) (mset m)"
  by (induction m) (auto split: if_splits)

lemma mm_insert_sorted: "sorted (map fst m) \<Longrightarrow> sorted (map fst (mm_insert k v m))"
proof (induction m)
  case (Cons e m)
  obtain k' v' where e: "e = (k', v')" by (cases e)
  have "set (mm_insert k v m) = insert (k, v) (set m)" by (simp add: mset_mm_insert flip: set_mset_mset)
  then show ?case using Cons by (auto simp: e)
qed simp

lemma mm_insert_same_key:
  "sorted (map fst m) \<Longrightarrow> filter (\<lambda>e. k0 = fst e) (mm_insert k v m) = filter (\<lambda>e. k0 = fst e) m @ (if k0 = k then [(k, v)] else [])"
proof (induction m)
  case (Cons e m)
  have "filter (\<lambda>e. k = fst e) (e # m) = []" if "k < fst e" using that Cons.prems by (auto simp: filter_empty_conv)
  then show ?case using Cons by (cases e) auto
qed simp

text \<open>Inserting entries one after the other sorts them by their keys, those of one key in the order of their insertion.\<close>

lemma mm_insert_sort: "mm_insert k v (sort_key fst xs) = sort_key fst (xs @ [(k, v)])"
proof (rule sym, rule properties_for_sort_key)
  fix e
  have "filter (\<lambda>x. fst e = fst x) (sort_key fst xs) = filter (\<lambda>x. fst e = fst x) xs"
    using sort_key_stable [of fst "fst e" xs] by (simp add: eq_commute)
  then show "filter (\<lambda>x. fst e = fst x) (mm_insert k v (sort_key fst xs)) = filter (\<lambda>x. fst e = fst x) (xs @ [(k, v)])"
    by (simp add: mm_insert_same_key)
qed (simp_all add: mset_mm_insert mm_insert_sorted)

definition held :: "nat \<Rightarrow> place_ref set \<Rightarrow> place_store \<Rightarrow> place_store" where
  "held hid A st = (\<lambda>a. if a \<in> A then map_option (\<lambda>p. p\<lparr>lp_placeHolder := Some hid\<rparr>) (st a) else st a)"

lemma held_insert: "st a = Some p \<Longrightarrow> held hid A (st(a \<mapsto> p\<lparr>lp_placeHolder := Some hid\<rparr>)) = held hid (insert a A) st"
  by (auto simp: held_def)

text \<open>The key of a place of the store.\<close>

definition stored_key :: "place_store \<Rightarrow> place_ref \<Rightarrow> string" where
  "stored_key st a = projr (describeShortKey (pl_location (lp_place (the (st a)))))"

lemma holder_filled:
  assumes "\<forall>a \<in> set as. \<exists>p k. st a = Some p \<and> describeShortKey (pl_location (lp_place p)) = Inr k"
    and "lh_placeList h = sort_key fst es"
  shows "\<exists>h'. foldE (initLinkWithPlace hid) as (h, st) = Inr (h', held hid (set as) st) \<and>
    lh_placeOrderedList h' = lh_placeOrderedList h @ as \<and>
    lh_placeList h' = sort_key fst (es @ map (\<lambda>a. (stored_key st a, a)) as)"
  using assms
proof (induction as arbitrary: h st es)
  case Nil
  then show ?case by (simp add: held_def)
next
  case (Cons a as)
  from Cons.prems(1) obtain p k where p: "st a = Some p" "describeShortKey (pl_location (lp_place p)) = Inr k" by auto
  let ?st = "st(a \<mapsto> p\<lparr>lp_placeHolder := Some hid\<rparr>)"
  let ?h = "h\<lparr>lh_placeList := mm_insert k a (lh_placeList h), lh_placeOrderedList := lh_placeOrderedList h @ [a]\<rparr>"
  have one: "initLinkWithPlace hid a (h, st) = Inr (?h, ?st)"
    using p by (simp add: initLinkWithPlace_def update_place_ok read_place_def)
  have "\<forall>b \<in> set as. \<exists>q k. ?st b = Some q \<and> describeShortKey (pl_location (lp_place q)) = Inr k"
    using Cons.prems(1) p by auto
  moreover have "lh_placeList ?h = sort_key fst (es @ [(k, a)])" using Cons.prems(2) by (simp add: mm_insert_sort)
  ultimately obtain h' where h': "foldE (initLinkWithPlace hid) as (?h, ?st) = Inr (h', held hid (set as) ?st)"
    "lh_placeOrderedList h' = lh_placeOrderedList ?h @ as"
    "lh_placeList h' = sort_key fst ((es @ [(k, a)]) @ map (\<lambda>a. (stored_key ?st a, a)) as)"
    using Cons.IH [of ?st ?h "es @ [(k, a)]"] by blast
  have "held hid (set as) ?st = held hid (set (a # as)) st" using held_insert [where st=st and a=a and p=p and hid=hid and A="set as"] p(1) by simp
  then have "foldE (initLinkWithPlace hid) (a # as) (h, st) = Inr (h', held hid (set (a # as)) st)"
    by (simp only: foldE.simps one bindE_simps h'(1))
  moreover have "stored_key ?st b = stored_key st b" for b using p(1) by (simp add: stored_key_def)
  moreover have "stored_key st a = k" using p by (simp add: stored_key_def)
  ultimately show ?case using h'(2,3) by (intro exI [of _ h']) simp
qed

text \<open>The loop over the places of a holder.\<close>

lemma createLocations_linked:
  assumes "distinct as" and "set as \<subseteq> A" and "\<forall>a \<in> set as. \<exists>p. st a = Some p \<and> well_linked out A st p"
  shows "\<exists>st'. foldE (\<lambda>a (ioLocationList, st).
         bindE (completeLocation out a st) (\<lambda>(lLocation, st). Inr (ioLocationList @ [MatchedLocation_copy lLocation], st))) as (ls, st) =
    Inr (ls @ map (\<lambda>a. MatchedLocation_copy (getLocation (completed st (the (st a))))) as, st')"
  using assms
proof (induction as arbitrary: ls st)
  case (Cons a as)
  from Cons.prems obtain p where p: "st a = Some p" "well_linked out A st p" and aA: "a \<in> A" by auto
  let ?st = "st(a \<mapsto> completed st p)"
  have same: "completed ?st q = completed st q" if "well_linked out A st q" for q
  proof -
    have "a \<notin> set (lp_extraPlaceList q)" "a \<notin> set (lp_alternatePlaceList q)" using that aA by (auto simp: well_linked_def)
    then show ?thesis by (simp add: completed_def linked_copies_upd)
  qed
  have rest: "\<exists>q. st b = Some q \<and> well_linked out A st q \<and> b \<noteq> a" if "b \<in> set as" for b
    using Cons.prems that by auto
  have wl: "well_linked out A ?st q" if "well_linked out A st q" for q
    using that by (auto simp: well_linked_def)
  have one: "completeLocation out a st = Inr (getLocation (completed st p), ?st)"
    using completeLocation_ok [OF p(1) aA p(2)] .
  have d: "distinct as" and s: "set as \<subseteq> A" using Cons.prems(1,2) by simp_all
  have live: "\<forall>b \<in> set as. \<exists>q. ?st b = Some q \<and> well_linked out A ?st q"
  proof
    fix b assume "b \<in> set as"
    from rest [OF this] wl show "\<exists>q. ?st b = Some q \<and> well_linked out A ?st q" by (metis fun_upd_other)
  qed
  obtain st' where st': "foldE (\<lambda>a (ioLocationList, st).
         bindE (completeLocation out a st) (\<lambda>(lLocation, st). Inr (ioLocationList @ [MatchedLocation_copy lLocation], st))) as
       (ls @ [MatchedLocation_copy (getLocation (completed st p))], ?st) =
    Inr ((ls @ [MatchedLocation_copy (getLocation (completed st p))]) @
       map (\<lambda>a. MatchedLocation_copy (getLocation (completed ?st (the (?st a))))) as, st')"
    using Cons.IH [OF d s live, of "ls @ [MatchedLocation_copy (getLocation (completed st p))]"] by blast
  have "map (\<lambda>a. MatchedLocation_copy (getLocation (completed ?st (the (?st a))))) as =
      map (\<lambda>a. MatchedLocation_copy (getLocation (completed st (the (st a))))) as"
  proof (rule map_cong [OF refl])
    fix b assume "b \<in> set as"
    from rest [OF this] obtain q where "st b = Some q" "well_linked out A st q" "b \<noteq> a" by blast
    then show "MatchedLocation_copy (getLocation (completed ?st (the (?st b)))) =
        MatchedLocation_copy (getLocation (completed st (the (st b))))" using same by simp
  qed
  then show ?case using st' one p(1) by (intro exI [of _ st']) simp
qed simp

lemma held_unlinked:
  "st a = Some (unlinked p) \<Longrightarrow> a \<in> A \<Longrightarrow> held hid A st a = Some ((unlinked p)\<lparr>lp_placeHolder := Some hid\<rparr>)"
  by (simp add: held_def)

lemma completed_unlinked:
  "MatchedLocation_copy (getLocation (completed st ((unlinked p)\<lparr>lp_placeHolder := h\<rparr>))) = plain_match (Location_copy (pl_location p))"
  by (simp add: completed_def unlinked_def getLocation_def linked_copies_def plain_match_def)

lemma displayed_iff: "(\<exists>s. toBasicString out l = Inr s) \<longleftrightarrow> (\<exists>c. IATAType_getTypeLabel (lk_iataType (loc_key l)) = Inr c)"
  by (auto simp: toBasicString_def describeShortKey_def LocationKey_describe_def IATAType_getTypeLabelAsString_def bindE_Inr_iff)

lemma cdg_displayed: "\<exists>s. toBasicString out cdg = Inr s"
  unfolding displayed_iff by (simp add: cdg_def new_LocationKey_def IATAType_getTypeLabel_def array_at_def IATAType_typeLabels_def)

section \<open>Properties\<close>

text \<open>C15: Over the objects and their pointers, the places of a holder that have no extra or alternate place give the copies of the
  locations that the request gives over values, in order, without other matches; and the map of the holder lists its
  places by their keys, those of one key in the order in which they were added.\<close>

theorem linked_locations:
  assumes places: "list_all2 (\<lambda>a p. st a = Some (unlinked p)) as ps" and "distinct as"
    and shown: "\<forall>p \<in> set ps. \<exists>s. toBasicString out (pl_location p) = Inr s"
  shows "\<exists>h st1 st2. foldE (initLinkWithPlace hid) as (new_linked_holder, st) = Inr (h, st1) \<and>
    linked_createLocations out h (ls, st1) = Inr (ls @ map (plain_match \<circ> Location_copy) (createLocations ps []), st2) \<and>
    (\<exists>keys. list_all2 (\<lambda>p k. describeShortKey (pl_location p) = Inr k) ps keys \<and> lh_placeList h = sort_key fst (zip keys as))"
proof -
  have each: "\<exists>p s. p \<in> set ps \<and> st a = Some (unlinked p) \<and> toBasicString out (pl_location p) = Inr s" if "a \<in> set as" for a
    using places shown that by (induction rule: list_all2_induct) auto
  have keys: "\<forall>a \<in> set as. \<exists>p k. st a = Some p \<and> describeShortKey (pl_location (lp_place p)) = Inr k"
  proof
    fix a assume "a \<in> set as"
    from each [OF this] obtain p s where p: "st a = Some (unlinked p)" "toBasicString out (pl_location p) = Inr s" by blast
    from toBasicString_key [OF p(2)] p(1) show "\<exists>p k. st a = Some p \<and> describeShortKey (pl_location (lp_place p)) = Inr k"
      by (auto simp: unlinked_def)
  qed
  have "lh_placeList new_linked_holder = sort_key fst []" by (simp add: new_linked_holder_def)
  from holder_filled [OF keys this, of hid] obtain h where
    h: "foldE (initLinkWithPlace hid) as (new_linked_holder, st) = Inr (h, held hid (set as) st)" "lh_placeOrderedList h = as"
    "lh_placeList h = sort_key fst (map (\<lambda>a. (stored_key st a, a)) as)"
    by (auto simp: new_linked_holder_def)
  have "list_all2 (\<lambda>p k. describeShortKey (pl_location p) = Inr k) qs (map (stored_key st) bs)"
    if "list_all2 (\<lambda>a p. st a = Some (unlinked p)) bs qs" "set qs \<subseteq> set ps" for bs qs
    using that
  proof (induction rule: list_all2_induct)
    case (Cons a bs p qs)
    then obtain s where "toBasicString out (pl_location p) = Inr s" using shown by auto
    from toBasicString_key [OF this] show ?case using Cons by (auto simp: stored_key_def unlinked_def)
  qed simp
  from this [OF places subset_refl]
  have map: "\<exists>keys. list_all2 (\<lambda>p k. describeShortKey (pl_location p) = Inr k) ps keys \<and> lh_placeList h = sort_key fst (zip keys as)"
    using h(3) by (intro exI [of _ "map (stored_key st) as"]) (simp add: zip_map1 zip_same_conv_map comp_def)
  have "\<forall>a \<in> set as. \<exists>p. held hid (set as) st a = Some p \<and> well_linked out (set as) (held hid (set as) st) p"
  proof
    fix a assume a: "a \<in> set as"
    from each [OF a] obtain p s where p: "st a = Some (unlinked p)" "toBasicString out (pl_location p) = Inr s" by blast
    have "held hid (set as) st a = Some ((unlinked p)\<lparr>lp_placeHolder := Some hid\<rparr>)" by (rule held_unlinked) (use p a in auto)
    then show "\<exists>p. held hid (set as) st a = Some p \<and> well_linked out (set as) (held hid (set as) st) p"
      using p(2) by (simp add: well_linked_def unlinked_def)
  qed
  from createLocations_linked [OF \<open>distinct as\<close> subset_refl this, of ls] obtain st2 where
    "linked_createLocations out h (ls, held hid (set as) st) = Inr (ls @ map (\<lambda>a. MatchedLocation_copy (getLocation
       (completed (held hid (set as) st) (the (held hid (set as) st a))))) as, st2)"
    unfolding linked_createLocations_def h(2) by blast
  moreover have "map (\<lambda>a. MatchedLocation_copy (getLocation (completed (held hid (set as) st) (the (held hid (set as) st a))))) bs =
      map (plain_match \<circ> Location_copy) (map pl_location qs)"
    if "list_all2 (\<lambda>a p. st a = Some (unlinked p)) bs qs" "set bs \<subseteq> set as" for bs qs
    using that by (induction rule: list_all2_induct) (simp_all add: held_unlinked completed_unlinked)
  note this [OF places subset_refl]
  ultimately show ?thesis using h(1) map by (intro exI [of _ h] exI [of _ "held hid (set as) st"] exI [of _ st2]) (simp add: createLocations_eq)
qed

theorem linked_locations_witness:
  "\<exists>h st1 st2. foldE (initLinkWithPlace 0) [2, 1] (new_linked_holder, [1 \<mapsto> unlinked (new_Place cdg), 2 \<mapsto> unlinked (new_Place cdg)]) =
       Inr (h, st1) \<and>
     linked_createLocations \<lparr>out_double = (\<lambda>_. []), out_float = (\<lambda>_. []), out_date = (\<lambda>_. [])\<rparr> h ([], st1) =
       Inr ([plain_match (Location_copy cdg), plain_match (Location_copy cdg)], st2)"
  using cdg_displayed linked_locations [where as="[2, 1]" and ps="[new_Place cdg, new_Place cdg]" and hid=0 and ls="[]" and
      st="[1 \<mapsto> unlinked (new_Place cdg), 2 \<mapsto> unlinked (new_Place cdg)]" and
      out="\<lparr>out_double = (\<lambda>_. []), out_float = (\<lambda>_. []), out_date = (\<lambda>_. [])\<rparr>"]
  by (force simp: new_Place_def createLocations_def)

text \<open>What is read of the copy of a place.\<close>

lemma copied_location: "getLocation (Place_copy p) = MatchedLocation_copy (getLocation p)"
  by (simp add: getLocation_def Place_copy_def copied_place_def)

lemma copied_string:
  assumes "Place_toString out st p = Inr s"
  shows "\<exists>t u. Place_toString out st' (Place_copy p) = Inr t \<and> s = t @ u \<and>
    (u = [] \<longleftrightarrow> lp_extraPlaceList p = [] \<and> lp_alternatePlaceList p = [])"
proof -
  obtain l e a where l: "MatchedLocation_toString out (getLocation p) = Inr l"
    and s: "s = (l @ '', '' @ show_int (pl_docID (lp_place p)) @ ''. '') @ e @ a"
    and "e = [] \<longleftrightarrow> lp_extraPlaceList p = []" and "a = [] \<longleftrightarrow> lp_alternatePlaceList p = []"
    using assms by (auto simp: Place_toString_def bindE_Inr_iff split: if_splits)
  moreover have "Place_toString out st' (Place_copy p) = Inr (l @ '', '' @ show_int (pl_docID (lp_place p)) @ ''. '')"
    by (simp add: Place_toString_def copied_location copied_match_string l) (simp add: Place_copy_def copied_place_def)
  ultimately show ?thesis by (intro exI [of _ "e @ a"] exI conjI) auto
qed

lemma copied_completion:
  assumes "Place_toString out st p = Inr s"
  shows "completeLocation out a (st'(a \<mapsto> Place_copy p)) = Inr (MatchedLocation_copy (getLocation p), st'(a \<mapsto> Place_copy p))"
proof -
  have "\<exists>b. toBasicString out (pl_location (lp_place p)) = Inr b"
    using assms by (auto simp: Place_toString_def MatchedLocation_toString_def toSingleLocationString_def getLocation_def bindE_Inr_iff)
  then have "well_linked out {a} (st'(a \<mapsto> Place_copy p)) (Place_copy p)"
    by (simp add: well_linked_def Place_copy_def copied_place_def copy_simps)
  then have "completeLocation out a (st'(a \<mapsto> Place_copy p)) =
      Inr (getLocation (completed (st'(a \<mapsto> Place_copy p)) (Place_copy p)),
        st'(a \<mapsto> Place_copy p, a \<mapsto> completed (st'(a \<mapsto> Place_copy p)) (Place_copy p)))"
    by (intro completeLocation_ok [where A="{a}"]) simp_all
  moreover have "completed st'' (Place_copy p) = Place_copy p" for st''
    by (simp add: completed_def Place_copy_def linked_copies_def)
  ultimately show ?thesis by (simp add: copied_location)
qed

text \<open>C22: The copy of a place that can be displayed loses exactly its extra and alternate places: its display is a prefix of the
  display of the original, the whole of it just when the original has no such place, and completing the location of the copy adds
  nothing to it. All the rest is kept: the displays and the exports of its location, with its matches, its row in the
  database, its sets and its document in the index; but the date of its location cannot be calculated again.\<close>

theorem place_copied:
  assumes "Place_toString out st p = Inr s"
  shows "(\<exists>t u. Place_toString out st' (Place_copy p) = Inr t \<and> s = t @ u \<and>
      (u = [] \<longleftrightarrow> lp_extraPlaceList p = [] \<and> lp_alternatePlaceList p = [])) \<and>
    completeLocation out a (st'(a \<mapsto> Place_copy p)) = Inr (MatchedLocation_copy (getLocation p), st'(a \<mapsto> Place_copy p)) \<and>
    toShortString out (MatchedLocation_copy (getLocation p)) = toShortString out (getLocation p) \<and>
    exportMatchedLocation iso_date (MatchedLocation_copy (getLocation p)) = exportMatchedLocation iso_date (getLocation p) \<and>
    jsonExportLocationList pt [MatchedLocation_copy (getLocation p)] = jsonExportLocationList pt [getLocation p] \<and>
    por_row iso_date (lp_place (Place_copy p)) = por_row iso_date (lp_place p) \<and>
    to_base ops (lp_place (Place_copy p)) = to_base ops (lp_place p) \<and>
    addDocumentToIndex xops tkz normalise (lp_place (Place_copy p)) db =
      map_result (\<lambda>(p', db'). (copied_place p', db')) (addDocumentToIndex xops tkz normalise (lp_place p) db) \<and>
    calculateDate valid_ymd (pl_location (lp_place (Place_copy p))) = Inl UndefinedBehaviour"
proof -
  have copy: "lp_place (Place_copy p) = copied_place (lp_place p)" by (simp add: Place_copy_def)
  have "calculateDate valid_ymd (pl_location (copied_place (lp_place p))) = Inl UndefinedBehaviour"
    by (simp add: copied_place_def copied_date)
  moreover have "jsonExportLocationList pt [MatchedLocation_copy (getLocation p)] = jsonExportLocationList pt [getLocation p]"
    using copied_json [of pt "[getLocation p]"] by simp
  ultimately show ?thesis
    unfolding copy using copied_string [OF assms] copied_completion [OF assms] copied_match copied_document
    by (simp add: copy_simps)
qed

theorem place_copied_witness:
  "\<exists>p s t u. lp_extraPlaceList p = [1] \<and>
     Place_toString \<lparr>out_double = (\<lambda>_. []), out_float = (\<lambda>_. []), out_date = (\<lambda>_. [])\<rparr> [1 \<mapsto> unlinked (new_Place cdg)] p = Inr s \<and>
     Place_toString \<lparr>out_double = (\<lambda>_. []), out_float = (\<lambda>_. []), out_date = (\<lambda>_. [])\<rparr> Map.empty (Place_copy p) = Inr t \<and>
     s = t @ u \<and> u \<noteq> []"
proof -
  let ?out = "\<lparr>out_double = (\<lambda>_. []), out_float = (\<lambda>_. []), out_date = (\<lambda>_. [])\<rparr> :: stream_output"
  let ?p = "(unlinked (new_Place cdg))\<lparr>lp_extraPlaceList := [1]\<rparr>" and ?st = "[1 \<mapsto> unlinked (new_Place cdg)]"
  obtain b where b: "toBasicString ?out cdg = Inr b" using cdg_displayed by blast
  have "\<exists>s. Place_toString ?out ?st ?p = Inr s"
    by (simp add: Place_toString_def MatchedLocation_toString_def toSingleLocationString_def getLocation_def unlinked_def new_Place_def
      read_place_def Place_toShortString_def toShortString_def b)
  then obtain s where s: "Place_toString ?out ?st ?p = Inr s" by blast
  have p: "lp_extraPlaceList ?p = [1]" by simp
  from place_copied [OF s, of Map.empty, THEN conjunct1] obtain t u where
    "Place_toString ?out Map.empty (Place_copy ?p) = Inr t" "s = t @ u" "u \<noteq> []" by (auto simp: p)
  with s p show ?thesis by blast
qed

text \<open>Each time that the location of a place is completed, the locations of its extra and alternate places are added to it once
  more: after n times it has them n times.\<close>

theorem completion_repeats:
  assumes "st a = Some p" and "well_linked out {a} st p" and "lp_extraLocationList p = []" and "lp_alternateLocationList p = []"
  shows "\<exists>st'. foldE (\<lambda>_ st. bindE (completeLocation out a st) (\<lambda>(_, st). Inr st)) (replicate n ()) st = Inr st' \<and>
    (\<forall>b. b \<noteq> a \<longrightarrow> st' b = st b) \<and>
    map_option getLocation (st' a) = Some (Matched (pl_location (lp_place p))
      (concat (replicate n (linked_copies st (lp_extraPlaceList p))))
      (concat (replicate n (linked_copies st (lp_alternatePlaceList p)))))"
proof -
  have "\<exists>st'. foldE (\<lambda>_ st. bindE (completeLocation out a st) (\<lambda>(_, st). Inr st)) (replicate n ()) st = Inr st' \<and>
    (\<forall>b. b \<noteq> a \<longrightarrow> st' b = st b) \<and>
    map_option getLocation (st' a) = Some (Matched (pl_location (lp_place p))
      (lp_extraLocationList p @ concat (replicate n (linked_copies st (lp_extraPlaceList p))))
      (lp_alternateLocationList p @ concat (replicate n (linked_copies st (lp_alternatePlaceList p)))))"
    using assms(1,2)
  proof (induction n arbitrary: st p)
    case 0
    then show ?case by (simp add: getLocation_def)
  next
    case (Suc n)
    let ?q = "completed st p" and ?st = "st(a \<mapsto> completed st p)"
    have one: "completeLocation out a st = Inr (getLocation ?q, ?st)"
      by (rule completeLocation_ok [where A="{a}"]) (use Suc.prems in auto)
    have q: "lp_extraPlaceList ?q = lp_extraPlaceList p" "lp_alternatePlaceList ?q = lp_alternatePlaceList p" "lp_place ?q = lp_place p"
      by (simp_all add: completed_def)
    have notin: "a \<notin> set (lp_extraPlaceList p)" "a \<notin> set (lp_alternatePlaceList p)"
      using Suc.prems(2) by (auto simp: well_linked_def)
    have "well_linked out {a} ?st ?q" using Suc.prems(2) unfolding well_linked_def q by simp
    moreover have "?st a = Some ?q" by simp
    ultimately obtain st' where st': "foldE (\<lambda>_ st. bindE (completeLocation out a st) (\<lambda>(_, st). Inr st)) (replicate n ()) ?st = Inr st'"
      "\<forall>b. b \<noteq> a \<longrightarrow> st' b = ?st b"
      "map_option getLocation (st' a) = Some (Matched (pl_location (lp_place ?q))
        (lp_extraLocationList ?q @ concat (replicate n (linked_copies ?st (lp_extraPlaceList ?q))))
        (lp_alternateLocationList ?q @ concat (replicate n (linked_copies ?st (lp_alternatePlaceList ?q)))))"
      using Suc.IH [of ?st ?q] by blast
    then show ?case
      using one notin by (intro exI [of _ st']) (simp add: q linked_copies_upd, simp add: completed_def)
  qed
  then show ?thesis using assms(3,4) by simp
qed

theorem completion_repeats_witness:
  "\<exists>st st'. (\<exists>st0. foldE (\<lambda>(main, extra). initLinkWithExtraPlace main extra) [(0, 1)] st0 = Inr st) \<and>
     foldE (\<lambda>_ st. bindE (completeLocation \<lparr>out_double = (\<lambda>_. []), out_float = (\<lambda>_. []), out_date = (\<lambda>_. [])\<rparr> 0 st) (\<lambda>(_, st). Inr st))
       (replicate 2 ()) st = Inr st' \<and>
     map_option getLocation (st' 0) =
       Some (Matched cdg [plain_match (Location_copy cdg), plain_match (Location_copy cdg)] [])"
proof -
  let ?out = "\<lparr>out_double = (\<lambda>_. []), out_float = (\<lambda>_. []), out_date = (\<lambda>_. [])\<rparr>"
  let ?p = "(unlinked (new_Place cdg))\<lparr>lp_extraPlaceList := [1]\<rparr>"
  let ?e = "(unlinked (new_Place cdg))\<lparr>lp_mainPlace := Some 0\<rparr>"
  let ?st = "[1 \<mapsto> ?e, 0 \<mapsto> ?p]"
  have link: "foldE (\<lambda>(main, extra). initLinkWithExtraPlace main extra) [(0, 1)]
      [0 \<mapsto> unlinked (new_Place cdg), 1 \<mapsto> unlinked (new_Place cdg)] = Inr ?st"
    by (simp add: initLinkWithExtraPlace_def update_place_def read_place_def unlinked_def fun_upd_twist)
  have "well_linked ?out {0} ?st ?p"
    using cdg_displayed by (simp add: well_linked_def unlinked_def new_Place_def)
  from completion_repeats [OF _ this, of 2] obtain st' where
    "foldE (\<lambda>_ st. bindE (completeLocation ?out 0 st) (\<lambda>(_, st). Inr st)) (replicate 2 ()) ?st = Inr st'"
    "map_option getLocation (st' 0) = Some (Matched cdg [plain_match (Location_copy cdg), plain_match (Location_copy cdg)] [])"
    by (auto simp: unlinked_def new_Place_def linked_copies_def getLocation_def plain_match_def numeral_2_eq_2)
  with link show ?thesis by blast
qed

section \<open>The index of a world\<close>

text \<open>A world finds each of its places under the identifier of its document, and a second place of the same document fails the
  assertion of the code.\<close>

definition world_finds :: "(place_ref \<Rightarrow> int) \<Rightarrow> place_ref list \<Rightarrow> World \<Rightarrow> bool" where
  "world_finds doc as w \<longleftrightarrow> om_wf (wo_genericBomList w) \<and> wo_placeOrderedList w = as \<and>
     (\<forall>d t a. om_find (wo_genericBomList w) d = Some (t, a) \<longleftrightarrow> t = PLACE \<and> a \<in> set as \<and> doc a = d)"

lemma world_link:
  assumes "world_finds doc as w" and "st a = Some p" and "pl_docID (lp_place p) = doc a" and "doc a \<notin> doc ` set as"
  shows "\<exists>w' st'. linkPlaceToWorld True wid a (w, st) = Inr (w', st') \<and> world_finds doc (as @ [a]) w' \<and>
    (\<forall>b. map_option (\<lambda>p. pl_docID (lp_place p)) (st' b) = map_option (\<lambda>p. pl_docID (lp_place p)) (st b))"
proof -
  have none: "om_find (wo_genericBomList w) (doc a) = None"
  proof (cases "om_find (wo_genericBomList w) (doc a)")
    case (Some e)
    then show ?thesis using assms(1,4) by (cases e) (auto simp: world_finds_def image_iff)
  qed
  let ?w = "w\<lparr>wo_genericBomList := om_put (doc a) (PLACE, a) (wo_genericBomList w), wo_placeOrderedList := wo_placeOrderedList w @ [a]\<rparr>"
  have "linkPlaceToWorld True wid a (w, st) = Inr (?w, st(a \<mapsto> p\<lparr>lp_world := Some wid\<rparr>))"
    using assms(2,3) none by (simp add: linkPlaceToWorld_def update_place_ok read_place_def)
  moreover have "world_finds doc (as @ [a]) ?w" using assms(1,4) by (auto simp: world_finds_def om_find_put image_iff)
  ultimately show ?thesis using assms(2)
    by (intro exI [of _ ?w] exI [of _ "st(a \<mapsto> p\<lparr>lp_world := Some wid\<rparr>)"]) simp
qed

theorem world_indexed:
  assumes "\<forall>a \<in> set as. \<exists>p. st a = Some p \<and> pl_docID (lp_place p) = doc a" and "distinct (map doc as)"
  shows "\<exists>w st'. foldE (linkPlaceToWorld True wid) as (new_World, st) = Inr (w, st') \<and> wo_placeOrderedList w = as \<and>
    (\<forall>a \<in> set as. getGenericBom (doc a) w = (PLACE, Some a) \<and> linkPlaceToWorld True wid a (w, st') = Inl AssertionFailure) \<and>
    (\<forall>d. d \<notin> doc ` set as \<longrightarrow> getGenericBom d w = (LAST_BOM_TYPE, None))"
proof -
  have "\<exists>w' st'. foldE (linkPlaceToWorld True wid) as (w, st) = Inr (w', st') \<and> world_finds doc (bs @ as) w' \<and>
      (\<forall>b. map_option (\<lambda>p. pl_docID (lp_place p)) (st' b) = map_option (\<lambda>p. pl_docID (lp_place p)) (st b))"
    if "world_finds doc bs w" "distinct (map doc (bs @ as))" for bs w
    using assms(1) that
  proof (induction as arbitrary: bs w st)
    case (Cons a as)
    from Cons.prems(1) obtain p where p: "st a = Some p" "pl_docID (lp_place p) = doc a" by auto
    have "doc a \<notin> doc ` set bs" using Cons.prems(3) by auto
    from world_link [where st=st and wid=wid, OF Cons.prems(2) p this] obtain w1 st1 where
      one: "linkPlaceToWorld True wid a (w, st) = Inr (w1, st1)" "world_finds doc (bs @ [a]) w1"
      "\<forall>b. map_option (\<lambda>p. pl_docID (lp_place p)) (st1 b) = map_option (\<lambda>p. pl_docID (lp_place p)) (st b)" by blast
    have "\<forall>b \<in> set as. \<exists>p. st1 b = Some p \<and> pl_docID (lp_place p) = doc b"
    proof
      fix b assume "b \<in> set as"
      then obtain q where "st b = Some q" "pl_docID (lp_place q) = doc b" using Cons.prems(1) by auto
      then show "\<exists>p. st1 b = Some p \<and> pl_docID (lp_place p) = doc b" using one(3) [rule_format, of b] by auto
    qed
    from Cons.IH [OF this one(2)] Cons.prems(3) show ?case using one by auto
  qed auto
  from this [of "[]" new_World] assms(2) obtain w st' where w: "foldE (linkPlaceToWorld True wid) as (new_World, st) = Inr (w, st')"
    "world_finds doc as w" "\<forall>b. map_option (\<lambda>p. pl_docID (lp_place p)) (st' b) = map_option (\<lambda>p. pl_docID (lp_place p)) (st b)"
    by (auto simp: world_finds_def new_World_def)
  have in_world: "getGenericBom (doc a) w = (PLACE, Some a) \<and> linkPlaceToWorld True wid a (w, st') = Inl AssertionFailure" if "a \<in> set as" for a
  proof -
    from that assms(1) w(3) [rule_format, of a] obtain p where "st' a = Some p" "pl_docID (lp_place p) = doc a"
      by (cases "st' a") auto
    moreover have "om_find (wo_genericBomList w) (doc a) = Some (PLACE, a)" using w(2) that by (simp add: world_finds_def)
    ultimately show ?thesis by (simp add: getGenericBom_def linkPlaceToWorld_def update_place_ok read_place_def)
  qed
  have outside: "getGenericBom d w = (LAST_BOM_TYPE, None)" if "d \<notin> doc ` set as" for d
  proof (cases "om_find (wo_genericBomList w) d")
    case (Some e)
    then show ?thesis using w(2) that by (cases e) (auto simp: world_finds_def)
  qed (simp add: getGenericBom_def)
  show ?thesis using w(1,2) in_world outside by (intro exI [of _ w] exI [of _ st']) (simp add: world_finds_def)
qed

end
