(* ===== verification/Attributes.thy ===== *)
theory Attributes
  imports Index_Terms
begin

text \<open>
  The attributes of the locations one by one: the plain setters of \<^verbatim>\<open>Location.hpp\<close>, each of which replaces its attribute, and the
  constructor that takes all the attributes (\<^verbatim>\<open>basic/Location.cpp\<close>), with the places that are constructed by it
  (\<^verbatim>\<open>bom/Place.cpp\<close>). The setters of the key are in Locations; those of \<^verbatim>\<open>bom/Place.hpp\<close> call those of the location.
\<close>

section \<open>The setters\<close>

definition Location_setKey :: "LocationKey \<Rightarrow> Location \<Rightarrow> Location" where
  "Location_setKey iKey l = l\<lparr>loc_key := iKey\<rparr>"

definition Location_setIcaoCode :: "string \<Rightarrow> Location \<Rightarrow> Location" where
  "Location_setIcaoCode iIcaoCode l = l\<lparr>loc_icaoCode := iIcaoCode\<rparr>"

definition Location_setFaaCode :: "string \<Rightarrow> Location \<Rightarrow> Location" where
  "Location_setFaaCode iFaaCode l = l\<lparr>loc_faaCode := iFaaCode\<rparr>"

definition Location_setCommonName :: "string \<Rightarrow> Location \<Rightarrow> Location" where
  "Location_setCommonName iName l = l\<lparr>loc_commonName := iName\<rparr>"

definition Location_setAsciiName :: "string \<Rightarrow> Location \<Rightarrow> Location" where
  "Location_setAsciiName iName l = l\<lparr>loc_asciiName := iName\<rparr>"

definition Location_setAltNameShortListString :: "string \<Rightarrow> Location \<Rightarrow> Location" where
  "Location_setAltNameShortListString iNameListString l = l\<lparr>loc_altNameShortListString := iNameListString\<rparr>"

definition Location_setTvlPORListString :: "string \<Rightarrow> Location \<Rightarrow> Location" where
  "Location_setTvlPORListString iPORListString l = l\<lparr>loc_tvlPORListString := iPORListString\<rparr>"

definition Location_setEnvelopeID :: "int \<Rightarrow> Location \<Rightarrow> Location" where
  "Location_setEnvelopeID iEnvelopeID l = l\<lparr>loc_envelopeID := iEnvelopeID\<rparr>"

definition Location_setDateFrom :: "date \<Rightarrow> Location \<Rightarrow> Location" where
  "Location_setDateFrom iDate l = l\<lparr>loc_dateFrom := iDate\<rparr>"

definition Location_setDateEnd :: "date \<Rightarrow> Location \<Rightarrow> Location" where
  "Location_setDateEnd iDate l = l\<lparr>loc_dateEnd := iDate\<rparr>"

definition Location_setComment :: "string \<Rightarrow> Location \<Rightarrow> Location" where
  "Location_setComment iComment l = l\<lparr>loc_comment := iComment\<rparr>"

definition Location_setCityCode :: "string \<Rightarrow> Location \<Rightarrow> Location" where
  "Location_setCityCode iCityCode l = l\<lparr>loc_cityCode := iCityCode\<rparr>"

definition Location_setCityUtfName :: "string \<Rightarrow> Location \<Rightarrow> Location" where
  "Location_setCityUtfName iCityUtfName l = l\<lparr>loc_cityUtfName := iCityUtfName\<rparr>"

definition Location_setCityAsciiName :: "string \<Rightarrow> Location \<Rightarrow> Location" where
  "Location_setCityAsciiName iCityAsciiName l = l\<lparr>loc_cityAsciiName := iCityAsciiName\<rparr>"

definition Location_setCityGeonamesID :: "int \<Rightarrow> Location \<Rightarrow> Location" where
  "Location_setCityGeonamesID iGeonamesID l = l\<lparr>loc_cityGeonamesID := iGeonamesID\<rparr>"

definition Location_setCountryCode :: "string \<Rightarrow> Location \<Rightarrow> Location" where
  "Location_setCountryCode iCountryCode l = l\<lparr>loc_countryCode := iCountryCode\<rparr>"

definition Location_setAltCountryCode :: "string \<Rightarrow> Location \<Rightarrow> Location" where
  "Location_setAltCountryCode iCountryCode l = l\<lparr>loc_altCountryCode := iCountryCode\<rparr>"

definition Location_setCountryName :: "string \<Rightarrow> Location \<Rightarrow> Location" where
  "Location_setCountryName iCountryName l = l\<lparr>loc_countryName := iCountryName\<rparr>"

definition Location_setStateCode :: "string \<Rightarrow> Location \<Rightarrow> Location" where
  "Location_setStateCode iStateCode l = l\<lparr>loc_stateCode := iStateCode\<rparr>"

definition Location_setContinentCode :: "string \<Rightarrow> Location \<Rightarrow> Location" where
  "Location_setContinentCode iContinentCode l = l\<lparr>loc_continentCode := iContinentCode\<rparr>"

definition Location_setContinentName :: "string \<Rightarrow> Location \<Rightarrow> Location" where
  "Location_setContinentName iContinentName l = l\<lparr>loc_continentName := iContinentName\<rparr>"

definition Location_setTimeZone :: "string \<Rightarrow> Location \<Rightarrow> Location" where
  "Location_setTimeZone iTimeZone l = l\<lparr>loc_timeZone := iTimeZone\<rparr>"

definition Location_setGMTOffset :: "dbl \<Rightarrow> Location \<Rightarrow> Location" where
  "Location_setGMTOffset iOffset l = l\<lparr>loc_gmtOffset := iOffset\<rparr>"

definition Location_setDSTOffset :: "dbl \<Rightarrow> Location \<Rightarrow> Location" where
  "Location_setDSTOffset iOffset l = l\<lparr>loc_dstOffset := iOffset\<rparr>"

definition Location_setRawOffset :: "dbl \<Rightarrow> Location \<Rightarrow> Location" where
  "Location_setRawOffset iOffset l = l\<lparr>loc_rawOffset := iOffset\<rparr>"

definition Location_setLatitude :: "dbl \<Rightarrow> Location \<Rightarrow> Location" where
  "Location_setLatitude iLatitude l = l\<lparr>loc_latitude := iLatitude\<rparr>"

definition Location_setLongitude :: "dbl \<Rightarrow> Location \<Rightarrow> Location" where
  "Location_setLongitude iLongitude l = l\<lparr>loc_longitude := iLongitude\<rparr>"

definition Location_setFeatureClass :: "string \<Rightarrow> Location \<Rightarrow> Location" where
  "Location_setFeatureClass iFeatClass l = l\<lparr>loc_featClass := iFeatClass\<rparr>"

definition Location_setFeatureCode :: "string \<Rightarrow> Location \<Rightarrow> Location" where
  "Location_setFeatureCode iFeatCode l = l\<lparr>loc_featCode := iFeatCode\<rparr>"

definition Location_setAdmin1Code :: "string \<Rightarrow> Location \<Rightarrow> Location" where
  "Location_setAdmin1Code iAdminCode l = l\<lparr>loc_admin1Code := iAdminCode\<rparr>"

definition Location_setAdmin1UtfName :: "string \<Rightarrow> Location \<Rightarrow> Location" where
  "Location_setAdmin1UtfName iAdminName l = l\<lparr>loc_admin1UtfName := iAdminName\<rparr>"

definition Location_setAdmin1AsciiName :: "string \<Rightarrow> Location \<Rightarrow> Location" where
  "Location_setAdmin1AsciiName iAdminName l = l\<lparr>loc_admin1AsciiName := iAdminName\<rparr>"

definition Location_setAdmin2Code :: "string \<Rightarrow> Location \<Rightarrow> Location" where
  "Location_setAdmin2Code iAdminCode l = l\<lparr>loc_admin2Code := iAdminCode\<rparr>"

definition Location_setAdmin2UtfName :: "string \<Rightarrow> Location \<Rightarrow> Location" where
  "Location_setAdmin2UtfName iAdminName l = l\<lparr>loc_admin2UtfName := iAdminName\<rparr>"

definition Location_setAdmin2AsciiName :: "string \<Rightarrow> Location \<Rightarrow> Location" where
  "Location_setAdmin2AsciiName iAdminName l = l\<lparr>loc_admin2AsciiName := iAdminName\<rparr>"

definition Location_setAdmin3Code :: "string \<Rightarrow> Location \<Rightarrow> Location" where
  "Location_setAdmin3Code iAdminCode l = l\<lparr>loc_admin3Code := iAdminCode\<rparr>"

definition Location_setAdmin4Code :: "string \<Rightarrow> Location \<Rightarrow> Location" where
  "Location_setAdmin4Code iAdminCode l = l\<lparr>loc_admin4Code := iAdminCode\<rparr>"

definition Location_setPopulation :: "32 word \<Rightarrow> Location \<Rightarrow> Location" where
  "Location_setPopulation iPopulation l = l\<lparr>loc_population := iPopulation\<rparr>"

definition Location_setElevation :: "int \<Rightarrow> Location \<Rightarrow> Location" where
  "Location_setElevation iElevation l = l\<lparr>loc_elevation := iElevation\<rparr>"

definition Location_setGTopo30 :: "int \<Rightarrow> Location \<Rightarrow> Location" where
  "Location_setGTopo30 iGTopo30 l = l\<lparr>loc_gTopo30 := iGTopo30\<rparr>"

definition Location_setPageRank :: "dbl \<Rightarrow> Location \<Rightarrow> Location" where
  "Location_setPageRank iPageRank l = l\<lparr>loc_pageRank := iPageRank\<rparr>"

definition Location_setModificationDate :: "date \<Rightarrow> Location \<Rightarrow> Location" where
  "Location_setModificationDate iModDate l = l\<lparr>loc_modificationDate := iModDate\<rparr>"

definition Location_setWikiLink :: "string \<Rightarrow> Location \<Rightarrow> Location" where
  "Location_setWikiLink iWikiLink l = l\<lparr>loc_wikiLink := iWikiLink\<rparr>"

definition Location_setOriginalKeywords :: "string \<Rightarrow> Location \<Rightarrow> Location" where
  "Location_setOriginalKeywords iOriginalKeywords l = l\<lparr>loc_originalKeywords := iOriginalKeywords\<rparr>"

definition Location_setCorrectedKeywords :: "string \<Rightarrow> Location \<Rightarrow> Location" where
  "Location_setCorrectedKeywords iCorrectedKeywords l = l\<lparr>loc_correctedKeywords := iCorrectedKeywords\<rparr>"

definition Location_setPercentage :: "dbl \<Rightarrow> Location \<Rightarrow> Location" where
  "Location_setPercentage iPercentage l = l\<lparr>loc_percentage := iPercentage\<rparr>"

definition Location_setEditDistance :: "16 word \<Rightarrow> Location \<Rightarrow> Location" where
  "Location_setEditDistance iEditDistance l = l\<lparr>loc_editDistance := iEditDistance\<rparr>"

definition Location_setAllowableEditDistance :: "16 word \<Rightarrow> Location \<Rightarrow> Location" where
  "Location_setAllowableEditDistance iAllowableEditDistance l = l\<lparr>loc_allowableEditDistance := iAllowableEditDistance\<rparr>"

definition Location_setRawDataString :: "string \<Rightarrow> Location \<Rightarrow> Location" where
  "Location_setRawDataString iRawDataString l = l\<lparr>loc_rawDataString := iRawDataString\<rparr>"

section \<open>The constructor\<close>

definition Location_of where
  "Location_of
    iIataCode iIataType iGeonamesID iIcaoCode iFaaCode iCommonName iASCIIName iEnvelopeID iDateFrom iDateEnd iComment
    iCityCode iCityUtfName iCityAsciiName iCityGeonamesID iStateCode iCountryCode iAltCountryCode iCountryName
    iContinentName iLatitude iLongitude iFeatureClass iFeatureCode iAdmin1Code iAdmin1UtfName iAdmin1AsciiName
    iAdmin2Code iAdmin2UtfName iAdmin2AsciiName iAdmin3Code iAdmin4Code iPopulation iElevation iGTopo30 iTimeZone
    iGMTOffset iDSTOffset iRawOffset iModDate iTvlPORListString iWikiLink iPageRank iOriginalKeywords
    iCorrectedKeywords iPercentage iEditDistance iAllowableEditDistance iRawDataString =
    \<lparr>loc_key = new_LocationKey iIataCode iIataType iGeonamesID, loc_icaoCode = iIcaoCode, loc_faaCode = iFaaCode,
     loc_commonName = iCommonName, loc_asciiName = iASCIIName, loc_altNameShortListString = ''NotAvailable'',
     loc_tvlPORListString = iTvlPORListString, loc_envelopeID = iEnvelopeID, loc_dateFrom = iDateFrom,
     loc_dateEnd = iDateEnd, loc_comment = iComment, loc_cityCode = iCityCode, loc_cityUtfName = iCityUtfName,
     loc_cityAsciiName = iCityAsciiName, loc_cityGeonamesID = iCityGeonamesID, loc_stateCode = iStateCode,
     loc_countryCode = iCountryCode, loc_altCountryCode = iAltCountryCode, loc_countryName = iCountryName,
     loc_continentCode = ''NA'', loc_continentName = iContinentName, loc_latitude = iLatitude,
     loc_longitude = iLongitude, loc_featClass = iFeatureClass, loc_featCode = iFeatureCode,
     loc_admin1Code = iAdmin1Code, loc_admin1UtfName = iAdmin1UtfName, loc_admin1AsciiName = iAdmin1AsciiName,
     loc_admin2Code = iAdmin2Code, loc_admin2UtfName = iAdmin2UtfName, loc_admin2AsciiName = iAdmin2AsciiName,
     loc_admin3Code = iAdmin3Code, loc_admin4Code = iAdmin4Code, loc_population = iPopulation,
     loc_elevation = iElevation, loc_gTopo30 = iGTopo30, loc_timeZone = iTimeZone, loc_gmtOffset = iGMTOffset,
     loc_dstOffset = iDSTOffset, loc_rawOffset = iRawOffset, loc_modificationDate = iModDate,
     loc_wikiLink = iWikiLink, loc_pageRank = iPageRank, loc_nameMatrix = om_empty,
     loc_originalKeywords = iOriginalKeywords, loc_correctedKeywords = iCorrectedKeywords,
     loc_percentage = iPercentage, loc_editDistance = iEditDistance,
     loc_allowableEditDistance = iAllowableEditDistance, loc_rawDataString = iRawDataString, loc_itYear = None,
     loc_itMonth = None, loc_itDay = None, loc_itLanguageCodeNum = LAST_LANGUAGE, loc_itLanguageCode = '''',
     loc_itLangCode2Char = '''', loc_itLangCodeExt = '''', loc_itLangCodeHist = '''', loc_itAltNameShortList = [],
     loc_itTvlPORList = []\<rparr>"

section \<open>Places without a location\<close>

definition empty_location :: "string \<Rightarrow> EN_IATAType \<Rightarrow> int \<Rightarrow> Location" where
  "empty_location iIataCode iIataType iGeonamesID =
     Location_of iIataCode iIataType iGeonamesID [] [] [] [] 0 (1970, 1, 1) (2999, 12, 31) [] [] [] [] 0 [] [] [] [] []
       (Fin 0) (Fin 0) [] [] [] [] [] [] [] [] [] [] 0 0 0 [] (Fin 0) (Fin 0) (Fin 0) (2000, 1, 1) [] [] K_DEFAULT_PAGE_RANK
       [] [] (Fin 0) 0 0 []"

definition Place_of_key :: "LocationKey \<Rightarrow> Place" where
  "Place_of_key iKey = new_Place (empty_location (lk_iataCode iKey) (lk_iataType iKey) (lk_geonamesID iKey))"

section \<open>Properties\<close>

text \<open>The constructor gives the default location with each attribute set; the alternate names and the code of the continent are
  not among its parameters and keep their default values.\<close>

theorem constructed_by_setters:
  "Location_of
    iIataCode iIataType iGeonamesID iIcaoCode iFaaCode iCommonName iASCIIName iEnvelopeID iDateFrom iDateEnd iComment
    iCityCode iCityUtfName iCityAsciiName iCityGeonamesID iStateCode iCountryCode iAltCountryCode iCountryName
    iContinentName iLatitude iLongitude iFeatureClass iFeatureCode iAdmin1Code iAdmin1UtfName iAdmin1AsciiName
    iAdmin2Code iAdmin2UtfName iAdmin2AsciiName iAdmin3Code iAdmin4Code iPopulation iElevation iGTopo30 iTimeZone
    iGMTOffset iDSTOffset iRawOffset iModDate iTvlPORListString iWikiLink iPageRank iOriginalKeywords
    iCorrectedKeywords iPercentage iEditDistance iAllowableEditDistance iRawDataString =
   fold (\<lambda>set_attribute. set_attribute)
      [Location_setKey (new_LocationKey iIataCode iIataType iGeonamesID), Location_setIcaoCode iIcaoCode,
       Location_setFaaCode iFaaCode, Location_setCommonName iCommonName, Location_setAsciiName iASCIIName,
       Location_setEnvelopeID iEnvelopeID, Location_setDateFrom iDateFrom, Location_setDateEnd iDateEnd,
       Location_setComment iComment, Location_setCityCode iCityCode, Location_setCityUtfName iCityUtfName,
       Location_setCityAsciiName iCityAsciiName, Location_setCityGeonamesID iCityGeonamesID,
       Location_setStateCode iStateCode, Location_setCountryCode iCountryCode,
       Location_setAltCountryCode iAltCountryCode, Location_setCountryName iCountryName,
       Location_setContinentName iContinentName, Location_setLatitude iLatitude, Location_setLongitude iLongitude,
       Location_setFeatureClass iFeatureClass, Location_setFeatureCode iFeatureCode,
       Location_setAdmin1Code iAdmin1Code, Location_setAdmin1UtfName iAdmin1UtfName,
       Location_setAdmin1AsciiName iAdmin1AsciiName, Location_setAdmin2Code iAdmin2Code,
       Location_setAdmin2UtfName iAdmin2UtfName, Location_setAdmin2AsciiName iAdmin2AsciiName,
       Location_setAdmin3Code iAdmin3Code, Location_setAdmin4Code iAdmin4Code, Location_setPopulation iPopulation,
       Location_setElevation iElevation, Location_setGTopo30 iGTopo30, Location_setTimeZone iTimeZone,
       Location_setGMTOffset iGMTOffset, Location_setDSTOffset iDSTOffset, Location_setRawOffset iRawOffset,
       Location_setModificationDate iModDate, Location_setTvlPORListString iTvlPORListString,
       Location_setWikiLink iWikiLink, Location_setPageRank iPageRank,
       Location_setOriginalKeywords iOriginalKeywords, Location_setCorrectedKeywords iCorrectedKeywords,
       Location_setPercentage iPercentage, Location_setEditDistance iEditDistance,
       Location_setAllowableEditDistance iAllowableEditDistance, Location_setRawDataString iRawDataString]
      new_Location"
  by (simp add: Location_of_def new_Location_def Location_setKey_def Location_setIcaoCode_def Location_setFaaCode_def Location_setCommonName_def
      Location_setAsciiName_def Location_setAltNameShortListString_def Location_setTvlPORListString_def
      Location_setEnvelopeID_def Location_setDateFrom_def Location_setDateEnd_def Location_setComment_def
      Location_setCityCode_def Location_setCityUtfName_def Location_setCityAsciiName_def
      Location_setCityGeonamesID_def Location_setCountryCode_def Location_setAltCountryCode_def
      Location_setCountryName_def Location_setStateCode_def Location_setContinentCode_def
      Location_setContinentName_def Location_setTimeZone_def Location_setGMTOffset_def Location_setDSTOffset_def
      Location_setRawOffset_def Location_setLatitude_def Location_setLongitude_def Location_setFeatureClass_def
      Location_setFeatureCode_def Location_setAdmin1Code_def Location_setAdmin1UtfName_def
      Location_setAdmin1AsciiName_def Location_setAdmin2Code_def Location_setAdmin2UtfName_def
      Location_setAdmin2AsciiName_def Location_setAdmin3Code_def Location_setAdmin4Code_def
      Location_setPopulation_def Location_setElevation_def Location_setGTopo30_def Location_setPageRank_def
      Location_setModificationDate_def Location_setWikiLink_def Location_setOriginalKeywords_def
      Location_setCorrectedKeywords_def Location_setPercentage_def Location_setEditDistance_def
      Location_setAllowableEditDistance_def Location_setRawDataString_def)

text \<open>The default constructor of a place is the constructor by a key, for the empty key.\<close>

theorem default_place_of_key:
  "default_Place = Place_of_key (new_LocationKey [] LAST_IATA_TYPE 0)"
  by (simp add: default_Place_def Place_of_key_def empty_location_def Location_of_def new_Location_def new_LocationKey_def)

end
