(* ===== verification/Spec2Isabelle.thy ===== *)
theory Spec2Isabelle
  imports Partition Scores Filters Edit_Distance Locations PorActions Index_Terms Results Interpreter Services Unicode Exchange PorRecords
    PorTable PorFilling IndexRun Matches Python Readline Console PlaceRows Transliteration Searcher Sessions
    Factories Timing Copies Links Attributes
begin

text \<open>
  \<^bold>\<open>OpenTREP\<close> answers travel queries (\<^verbatim>\<open>"nce sfo"\<close>, \<^verbatim>\<open>"reykyavik"\<close>) with points of reference (POR:
  airports, cities, stations). This development models its library and its programs (\<^verbatim>\<open>src/opentrep\<close>); every
  other theory of the directory is imported here and opens with what it holds.

  \<^bold>\<open>How the program works, and where it is modelled.\<close>

  The indexing side. The services (\<^verbatim>\<open>service/OPENTREP_Service.cpp\<close>, Services) build a Xapian index and
  an SQL table from the POR file, one row per line. A row is parsed by a Boost Spirit grammar whose
  semantic actions fill a \<open>Location\<close> (\<^verbatim>\<open>bom/PORParserHelper.cpp\<close>: PorActions, Grammar, PorParser,
  PorRows, PorRecords; \<^verbatim>\<open>Location.hpp\<close>, \<^verbatim>\<open>basic/Location.cpp\<close>, \<^verbatim>\<open>Names.hpp\<close>: Locations, Attributes). A \<open>Place\<close> turns
  the location into sets of terms (\<^verbatim>\<open>bom/Place.cpp\<close>), which the indexing loop hands to Xapian
  (\<^verbatim>\<open>command/IndexBuilder.cpp\<close>, both in Index_Terms); \<^verbatim>\<open>command/DBManager.cpp\<close> inserts the row in the table and
  looks it up by its codes (Database; PorTable is what the code relies on of the table, PorFilling the way of the text of a row
  into its columns and back). The whole run, with the access to the POR file, the clearing of the old index and the
  batch, is in IndexRun.

  The search side. A request (\<^verbatim>\<open>command/RequestInterpreter.cpp\<close>, Interpreter) is normalised
  (\<^verbatim>\<open>basic/OTransliterator.cpp\<close>, Transliteration), filtered (\<^verbatim>\<open>bom/Filter.cpp\<close>, Filters), tokenised
  (\<^verbatim>\<open>basic/Utilities.cpp\<close>, \<^verbatim>\<open>bom/WordHolder.cpp\<close>, Words) and cut into slices between words that do not match
  together (\<^verbatim>\<open>bom/QuerySlices.cpp\<close>, Slices). Every slice has all its partitions into groups of consecutive words
  (\<^verbatim>\<open>bom/StringPartition.cpp\<close> and the classes around it, Partition). Every group is matched against the index, with a
  correction within an edit distance (\<^verbatim>\<open>bom/Result.cpp\<close>, Results; \<^verbatim>\<open>bom/Levenshtein.cpp\<close>, Edit_Distance), and its
  documents are scored (\<^verbatim>\<open>bom/ScoreBoard.cpp\<close>, Scores). The best partition is chosen (\<^verbatim>\<open>bom/ResultHolder.cpp\<close>,
  \<^verbatim>\<open>bom/ResultCombination.cpp\<close>, Selection), with comparisons of doubles by their bit patterns
  (\<^verbatim>\<open>basic/float_utils_google.hpp\<close>, Doubles), and its documents are parsed back into locations. They are exported as
  Protocol Buffers messages (\<^verbatim>\<open>bom/LocationExchange.cpp\<close>, Exchange) or as JSON, with their extra and alternate matches
  (\<^verbatim>\<open>bom/BomJSONExport.cpp\<close>, Matches). Codes holds the enumerations and their letters, Unicode the UTF-8 conversions
  (\<^verbatim>\<open>basic/UTF8Handler.cpp\<close>).

  The programs around the library: the searcher of the Python bindings (\<^verbatim>\<open>python/pyopentrep.cpp\<close>, Python), the searching
  batch (\<^verbatim>\<open>batches/opentrep-searcher.cpp\<close>, Searcher), and the interactive manager of the database
  (\<^verbatim>\<open>ui/cmdline/opentrep-dbmgr.cpp\<close>, Console) over its wrapper of GNU readline (\<^verbatim>\<open>ui/cmdline/SReadline.hpp\<close>, Readline).
  PlaceRows (\<^verbatim>\<open>dbadaptor/DbaPlace.cpp\<close>) and Sessions (\<^verbatim>\<open>DBParams.hpp\<close>, \<^verbatim>\<open>command/DBSessionManager.cpp\<close>) are parts of
  the library that the programs do not use.

  The objects: Factories is the memory, the factories that own every object, the supervisor that owns the factories, and the
  logger (\<^verbatim>\<open>factory/\<close>, \<^verbatim>\<open>service/Logger.cpp\<close>); Links the pointers between places, holders and worlds (\<^verbatim>\<open>bom/Place.cpp\<close>,
  \<^verbatim>\<open>bom/PlaceHolder.cpp\<close>, \<^verbatim>\<open>bom/World.cpp\<close>); Copies the copy constructors; Timing the chronometer.

  \<^bold>\<open>How the code is read.\<close> A class is a record, an enumeration a datatype, a \<^verbatim>\<open>std::string\<close> a list of bytes,
  a \<^verbatim>\<open>std::map\<close> or \<^verbatim>\<open>std::set\<close> the list of its entries in the order of its iterators (Prelude). Counters
  and distances are words of their width; a value that the code computes in an unbounded way and never
  near its bounds is an integer. A \<^verbatim>\<open>double\<close> is a rational, an infinity or no number, and its operations
  are rounded to the nearest (Doubles). A function that may throw, fail an assertion (they are active
  in the build) or run into undefined behaviour returns a \<open>trep_error\<close> or a value. Objects are passed
  and returned as values, but in Factories and Links, which have a heap and a store: \<open>linked_locations\<close> and
  \<open>place_copied\<close> show what the objects and their copies give of what the values give: a copy of a place loses its links to other
  places. What writes on the standard output (the filling of the table, the programs) returns the text that it has written and its
  outcome (\<open>io\<close> in Prelude): what is written before an exception is kept. Logs are left out, but for the logger itself. The lengths of
  texts are natural numbers, far from the bounds of \<^verbatim>\<open>size_t\<close> and, in the edit distance, of the 32-bit integers to which the code
  narrows them.

  \<^bold>\<open>Loops.\<close> Loops over containers are structural recursions or folds. The recursion of \<open>StringPartition\<close>
  has a fuel: \<open>Suc\<close> of the length of the phrase is enough, by the partition lemmas, and the callers give
  it. The scan of a UTF-8 text has a fuel greater than the number of its code points where it returns,
  and never returns on a byte from 0xF8 on. The two loops that draw random locations return with some
  fuel exactly as the theorems on them say. The loop of the console goes over the lines that are typed. The other loops
  (the matrix of the edit distance, the splits of a query, the interpreter of the grammar) are functions with a measure.

  \<^bold>\<open>Interfaces.\<close> \<open>std_map\<close> (ordered maps), \<open>char_separator\<close> (the Boost tokeniser, whose laws determine it),
  \<open>letter_code\<close> (an enumeration with its letters), \<open>running_max\<close> (a scan for the best entry), \<open>spirit\<close> (the
  operators of Boost Spirit), \<open>index_store\<close> (a directory with a Xapian database), \<open>por_table\<close> (a table with a primary key, whose select statements
  deliver the matching rows in some order), \<open>property_tree\<close> (the trees of Boost, whose values are strings),
  \<open>history_library\<close> (the history of readline), \<open>code_patterns\<close> (the regular expressions of the codes), \<open>values_library\<close>
  (the rows of SOCI), \<open>icu_documentation\<close> (the rules of ICU) and \<open>relabelling\<close> (a change of a place that leaves its sets
  alone) are locales, each interpreted on the definitions of the model or on a function that satisfies the documentation of
  the library.

  \<^bold>\<open>Parameters.\<close> The Xapian queries and the index, the SQL session, its insertions and its statements, the conversions and transliterators
  of ICU, the tokeniser, the grammar interpreter of Spirit and its readers of reals, the calendar of
  Boost, the regular expressions, the property trees with the text of a double, the values of SOCI, GNU readline, the parsers of the options, the
  file system with its decompression, the random device, the clock and the output of doubles are arguments of the
  definitions; what a theorem assumes of them is in its hypotheses. The laws of \<open>por_table\<close> are those of the SQLite table, which declares
  its primary key: a row with a new key is added, one with a key that is there is refused, and the order of delivery is left open; the
  table of MySQL has no primary key when it is filled, and nothing is shown of it but its columns. The index sets take the
  normalisation of a text as a total function: it stands for the one of Transliteration where that is defined
  (\<open>normal_text\<close>).

  \<^bold>\<open>What is shown.\<close> Parsing: a row gives exactly the location of its fields, or the error of its date or type;
  the header gives no document; the text stored in the index gives the indexed location again. Indexing:
  the term sets are exactly those specified, each line is indexed on its own, building twice changes
  nothing, and a run replaces what the index held, or leaves an empty one when the file cannot be read. Database: the
  lookups find exactly the relevant rows of the file when their primary keys are different, and the filling stops at the first
  key that is there already; the columns hold the fields of the rows; and a session of the console shows the progress and the rows. Query: the normalisation of a
  plain text, and the slices and the partitions, are exactly those specified; the edit distance is the least cost of an edit
  sequence. Scores: the invariant of a result, the best document and the best partition, the bounds and the
  monotony of the weights, and that the weighing returns. The request: on a healthy index it fails no
  assertion, throws exactly when some slice has no partition of positive weight, and otherwise gives the locations of the best
  partition of each slice; its slices are independent. Answers: the texts of the bindings and of the batch, the JSON document, with every
  number as a string, and the messages are those of the locations. Memory: what is created is deleted once by the cleaning, and nothing else is. Round
  trips: word lists, the UTF-8 conversions, the exported locations, the rows of the table, the history of the console. The
  theorems also state where the code does not do what it means to: endless draws and scans, codes that are lost or not
  indexed, types that the grammar accepts and the conversion refuses, a parser of whole files that no file of several lines
  passes, a buffer that is written past its end, hyphens that glue the words of a query, a logger that is used after its
  deletion, completions that repeat the matches of a place, word combinations that the comments leave out, time offsets that
  are truncated, columns that never hold what the row says.

  \<^bold>\<open>Not modelled.\<close> What libraries do: the decompression of the POR file, the serialisation of the messages and of the JSON
  tree, the register of ICU, the declarations of Boost.Python. The readers of the classes from streams, which are empty in
  the code, and the plain getters. The links of results to their holders, which nothing reads: they are list insertions of
  Results and Selection. The hash of the address of an object, which nothing uses. The demonstration headers
  \<^verbatim>\<open>ui/cmdline/readline_autocomp.hpp\<close> and \<^verbatim>\<open>readline_autocomp.h\<close>, which no program includes, and the files of \<^verbatim>\<open>src/test\<close>.
\<close>

end
